(* ===== verification/Prelude.thy ===== *)
theory Prelude
  imports Main "HOL-Library.Word" "HOL-Library.Signed_Division"
begin

text \<open>
  Shared vocabulary of the development.

  \<^item> Failure as a value: a C++ function that may throw returns \<open>exn + 'a\<close>; \<open>exn\<close> names the class of
    the exception (the message text is not kept). \<open>Undefined_behaviour\<close> marks the inputs on which
    the C++ standard gives the code no meaning (an out-of-range float to integer conversion, a write
    past the end of a vector), so that a theorem cannot silently use such a run.
  \<^item> Sequencing of such computations (\<open>bind_res\<close>, \<open>map_res\<close>, \<open>fold_res\<close>).
  \<^item> The checked access of \<open>std::vector\<close> (\<open>at\<close>) on an \<open>int\<close> index.
  \<^item> The integer types of the code and the conversions between them.
\<close>

named_theorems res_simps \<open>evaluation of computations that may throw\<close>
named_theorems vec_simps \<open>checked vector access\<close>
named_theorems width_simps \<open>readings of fixed-width integers\<close>

section \<open>Failure as a value\<close>

datatype exn =
    Invalid_argument
  | Out_of_range
  | Runtime_error
  | Logic_error
  | Parse_exception
  | Algorithm_exception
  | Cuda_exception
  | Length_error
  | Bad_alloc
  | Bad_lexical_cast
  | Bad_any_cast
  | Null_dereference
  | Undefined_behaviour

type_synonym 'a res = "exn + 'a"

abbreviation throw :: "exn \<Rightarrow> 'a res" where
  "throw e \<equiv> Inl e"

abbreviation ok :: "'a \<Rightarrow> 'a res" where
  "ok x \<equiv> Inr x"

definition bind_res :: "'a res \<Rightarrow> ('a \<Rightarrow> 'b res) \<Rightarrow> 'b res" where
  "bind_res m f = (case m of Inl e \<Rightarrow> Inl e | Inr x \<Rightarrow> f x)"

lemma bind_res_simps [simp, res_simps]:
  "bind_res (Inl e) f = Inl e"
  "bind_res (Inr x) f = f x"
  by (simp_all add: bind_res_def)

lemma bind_res_Inr_iff [res_simps]:
  "bind_res m f = Inr y \<longleftrightarrow> (\<exists>x. m = Inr x \<and> f x = Inr y)"
  by (cases m) auto

lemma bind_res_Inl_iff:
  "bind_res m f = Inl e \<longleftrightarrow> m = Inl e \<or> (\<exists>x. m = Inr x \<and> f x = Inl e)"
  by (cases m) auto

lemma bind_res_InrE:
  assumes "bind_res m f = Inr y"
  obtains x where "m = Inr x" and "f x = Inr y"
  using assms by (auto simp: bind_res_Inr_iff)

lemma bind_res_assoc: "bind_res (bind_res m f) g = bind_res m (\<lambda>x. bind_res (f x) g)"
  by (cases m) simp_all

lemma bind_res_cong [fundef_cong]:
  assumes "m = m'" and "\<And>x. m' = Inr x \<Longrightarrow> f x = f' x"
  shows "bind_res m f = bind_res m' f'"
  using assms by (cases m') (simp_all add: bind_res_def)

definition guard :: "bool \<Rightarrow> exn \<Rightarrow> unit res" where
  "guard b e = (if b then Inr () else Inl e)"

lemma guard_simps [simp, res_simps]:
  "guard True e = Inr ()"
  "guard False e = Inl e"
  by (simp_all add: guard_def)

lemma guard_Inr_iff [res_simps]: "guard b e = Inr u \<longleftrightarrow> b"
  by (simp add: guard_def)

primrec map_res :: "('a \<Rightarrow> 'b res) \<Rightarrow> 'a list \<Rightarrow> 'b list res" where
  "map_res f [] = Inr []"
| "map_res f (x # xs) = bind_res (f x) (\<lambda>y. bind_res (map_res f xs) (\<lambda>ys. Inr (y # ys)))"

lemma map_res_Inr_length: "map_res f xs = Inr ys \<Longrightarrow> length ys = length xs"
  by (induction xs arbitrary: ys) (auto simp: bind_res_Inr_iff)

lemma map_res_Inr_nth:
  "map_res f xs = Inr ys \<Longrightarrow> i < length xs \<Longrightarrow> f (xs ! i) = Inr (ys ! i)"
  by (induction xs arbitrary: ys i) (auto simp: bind_res_Inr_iff less_Suc_eq_0_disj)

lemma map_res_total:
  assumes "\<And>x. x \<in> set xs \<Longrightarrow> f x = Inr (g x)"
  shows "map_res f xs = Inr (map g xs)"
  using assms by (induction xs) auto

lemma map_res_cong [fundef_cong]:
  assumes "xs = ys" and "\<And>x. x \<in> set ys \<Longrightarrow> f x = g x"
  shows "map_res f xs = map_res g ys"
proof -
  have "map_res f ys = map_res g ys" using assms(2) by (induction ys) auto
  with assms(1) show ?thesis by simp
qed

primrec fold_res :: "('a \<Rightarrow> 'b \<Rightarrow> 'b res) \<Rightarrow> 'a list \<Rightarrow> 'b \<Rightarrow> 'b res" where
  "fold_res f [] s = Inr s"
| "fold_res f (x # xs) s = bind_res (f x s) (fold_res f xs)"

lemma fold_res_invariant:
  assumes "fold_res f xs s = Inr t" and "P s"
    and "\<And>x s t. x \<in> set xs \<Longrightarrow> P s \<Longrightarrow> f x s = Inr t \<Longrightarrow> P t"
  shows "P t"
  using assms
proof (induction xs arbitrary: s)
  case Nil
  then show ?case by simp
next
  case (Cons x xs)
  from Cons.prems(1) obtain u where u: "f x s = Inr u" and rest: "fold_res f xs u = Inr t"
    by (auto simp: bind_res_Inr_iff)
  from Cons.prems(2,3) u have "P u" by auto
  with rest show ?case using Cons.IH Cons.prems(3) by (meson list.set_intros(2))
qed

lemma fold_res_total:
  assumes "\<forall>x\<in>set xs. \<forall>s. f x s = Inr (g x s)"
  shows "fold_res f xs s = Inr (fold g xs s)"
  using assms by (induction xs arbitrary: s) simp_all

lemma fold_res_append: "fold_res f (xs @ ys) s = bind_res (fold_res f xs s) (fold_res f ys)"
proof (induction xs arbitrary: s)
  case (Cons x xs)
  then show ?case by (cases "f x s") simp_all
qed simp

lemma fold_res_cong [fundef_cong]:
  assumes "xs = ys" and "s = t" and "\<And>x u. x \<in> set ys \<Longrightarrow> f x u = g x u"
  shows "fold_res f xs s = fold_res g ys t"
proof -
  have "fold_res f ys u = fold_res g ys u" for u
    using assms(3)
  proof (induction ys arbitrary: u)
    case (Cons y ys)
    then have "fold_res f ys = fold_res g ys" by (intro ext) simp
    with Cons.prems show ?case by simp
  qed simp
  with assms(1,2) show ?thesis by simp
qed

section \<open>Checked vector access\<close>

text \<open>
  \<open>v.at(i)\<close> with an \<open>int\<close> index: the index is converted to \<open>size_t\<close>, so a negative one becomes
  huge, and an index that is not below the size throws \<open>std::out_of_range\<close>.
\<close>

definition vec_at :: "'a list \<Rightarrow> int \<Rightarrow> 'a res" where
  "vec_at xs i = (if 0 \<le> i \<and> i < int (length xs) then Inr (xs ! nat i) else Inl Out_of_range)"

definition vec_put :: "'a list \<Rightarrow> int \<Rightarrow> 'a \<Rightarrow> 'a list res" where
  "vec_put xs i x =
     (if 0 \<le> i \<and> i < int (length xs) then Inr (xs[nat i := x]) else Inl Out_of_range)"

lemma vec_at_ok [vec_simps]: "0 \<le> i \<Longrightarrow> i < int (length xs) \<Longrightarrow> vec_at xs i = Inr (xs ! nat i)"
  by (simp add: vec_at_def)

lemma vec_at_Inr_iff [vec_simps]:
  "vec_at xs i = Inr x \<longleftrightarrow> 0 \<le> i \<and> i < int (length xs) \<and> x = xs ! nat i"
  by (auto simp: vec_at_def)

lemma vec_at_Inl_iff [vec_simps]:
  "vec_at xs i = Inl e \<longleftrightarrow> (i < 0 \<or> int (length xs) \<le> i) \<and> e = Out_of_range"
  by (auto simp: vec_at_def)

lemma vec_at_negative [simp]: "i < 0 \<Longrightarrow> vec_at xs i = Inl Out_of_range"
  by (simp add: vec_at_def)

lemma vec_put_Inr_iff [vec_simps]:
  "vec_put xs i x = Inr ys \<longleftrightarrow> 0 \<le> i \<and> i < int (length xs) \<and> ys = xs[nat i := x]"
  by (auto simp: vec_put_def)

lemma vec_put_Inl_iff [vec_simps]:
  "vec_put xs i x = Inl e \<longleftrightarrow> (i < 0 \<or> int (length xs) \<le> i) \<and> e = Out_of_range"
  by (auto simp: vec_put_def)

lemma vec_at_put_same: "vec_put xs i x = Inr ys \<Longrightarrow> vec_at ys i = Inr x"
  by (auto simp: vec_simps)

lemma vec_at_put_other: "vec_put xs i x = Inr ys \<Longrightarrow> i \<noteq> j \<Longrightarrow> vec_at ys j = vec_at xs j"
  by (auto simp: vec_simps vec_at_def nat_eq_iff)

lemma vec_put_length: "vec_put xs i x = Inr ys \<Longrightarrow> length ys = length xs"
  by (auto simp: vec_simps)

section \<open>Integer types\<close>

text \<open>
  Fixed-width integers are words; \<open>sint\<close> reads a signed type and \<open>uint\<close> an unsigned one. A C++
  \<open>int\<close> that only counts or indexes is an HOL \<open>int\<close> with the 32-bit range as a predicate.
\<close>

type_synonym u8 = "8 word"
type_synonym u16 = "16 word"
type_synonym u32 = "32 word"
type_synonym u64 = "64 word"

definition int32_range :: "int \<Rightarrow> bool" where
  "int32_range i \<longleftrightarrow> - (2 ^ 31) \<le> i \<and> i < 2 ^ 31"

definition int64_range :: "int \<Rightarrow> bool" where
  "int64_range i \<longleftrightarrow> - (2 ^ 63) \<le> i \<and> i < 2 ^ 63"

definition uint32_range :: "int \<Rightarrow> bool" where
  "uint32_range i \<longleftrightarrow> 0 \<le> i \<and> i < 2 ^ 32"

text \<open>The result of an \<open>int\<close> operation: leaving the 32-bit range is undefined behaviour.\<close>

definition int_result :: "int \<Rightarrow> int res" where
  "int_result i = (if int32_range i then Inr i else Inl Undefined_behaviour)"

lemma int_result_Inr_iff [res_simps]: "int_result i = Inr j \<longleftrightarrow> j = i \<and> int32_range i"
  by (auto simp: int_result_def)

lemma int_result_ok [simp]: "int32_range i \<Longrightarrow> int_result i = Inr i"
  by (simp add: int_result_def)

text \<open>\<open>static_cast\<close> to a signed type of \<open>w\<close> bits: the value modulo \<open>2 ^ w\<close>, read in two's complement.\<close>

definition wrap_signed :: "nat \<Rightarrow> int \<Rightarrow> int" where
  "wrap_signed w i = (i + 2 ^ (w - 1)) mod 2 ^ w - 2 ^ (w - 1)"

lemma wrap_signed_id:
  assumes "0 < w" and "- (2 ^ (w - 1)) \<le> i" and "i < 2 ^ (w - 1)"
  shows "wrap_signed w i = i"
proof -
  have "(2::int) ^ w = 2 * 2 ^ (w - 1)"
    using assms(1) by (cases w) simp_all
  then show ?thesis using assms by (simp add: wrap_signed_def)
qed

text \<open>The C++ operators \<open>/\<close> and \<open>%\<close> on \<open>int\<close>: truncation towards zero.\<close>

abbreviation c_div :: "int \<Rightarrow> int \<Rightarrow> int" where
  "c_div a b \<equiv> a sdiv b"

abbreviation c_mod :: "int \<Rightarrow> int \<Rightarrow> int" where
  "c_mod a b \<equiv> a smod b"

lemma c_div_nonneg: "0 \<le> a \<Longrightarrow> 0 < b \<Longrightarrow> c_div a b = a div b"
  by (simp add: signed_divide_int_def sgn_if)

lemma c_mod_nonneg: "0 \<le> a \<Longrightarrow> 0 < b \<Longrightarrow> c_mod a b = a mod b"
  by (cases "a = 0") (simp_all add: signed_modulo_int_def)

section \<open>Lists of integers in a range\<close>

text \<open>\<open>for (int i = a; i < b; i++)\<close> visits \<open>[a..b - 1]\<close>.\<close>

lemma upto_less_cons: "a < b \<Longrightarrow> [a..b - 1] = a # [a + 1..b - 1]"
  by (simp add: upto_rec1)

section \<open>Sums over a list with one entry replaced\<close>

lemma sum_list_replace:
  fixes f :: "'a \<Rightarrow> 'b::comm_monoid_add"
  shows "i < length xs \<Longrightarrow> (\<Sum>x\<leftarrow>xs[i := y]. f x) + f (xs ! i) = (\<Sum>x\<leftarrow>xs. f x) + f y"
proof (induction xs arbitrary: i)
  case Nil
  then show ?case by simp
next
  case (Cons x xs)
  show ?case
  proof (cases i)
    case 0
    then show ?thesis by (simp add: ac_simps)
  next
    case (Suc j)
    then have "(\<Sum>x\<leftarrow>xs[j := y]. f x) + f (xs ! j) = (\<Sum>x\<leftarrow>xs. f x) + f y" using Cons by simp
    then show ?thesis using Suc by (simp add: add.assoc)
  qed
qed

section \<open>Searching a vector\<close>

text \<open>The loop that returns the first index with a property, or \<open>-1\<close>.\<close>

fun first_index :: "('a \<Rightarrow> bool) \<Rightarrow> 'a list \<Rightarrow> int" where
  "first_index P [] = -1"
| "first_index P (x # xs) =
     (if P x then 0 else let i = first_index P xs in if i < 0 then -1 else i + 1)"

lemma first_index_less_0: "first_index P xs < 0 \<longleftrightarrow> (\<forall>x\<in>set xs. \<not> P x)"
proof (induction xs)
  case Nil
  show ?case by simp
next
  case (Cons x xs)
  then show ?case by (cases "first_index P xs < 0") auto
qed

lemma first_index_nonneg: "0 \<le> first_index P xs \<longleftrightarrow> (\<exists>x\<in>set xs. P x)"
  using first_index_less_0 [of P xs] by (auto simp: not_less [symmetric])

lemma first_index_none: "(\<forall>x\<in>set xs. \<not> P x) \<Longrightarrow> first_index P xs = -1"
  by (induction xs) simp_all

lemma first_index_hit:
  "0 \<le> first_index P xs \<Longrightarrow>
   nat (first_index P xs) < length xs \<and> P (xs ! nat (first_index P xs)) \<and>
   (\<forall>j < nat (first_index P xs). \<not> P (xs ! j))"
proof (induction xs)
  case Nil
  then show ?case by simp
next
  case (Cons x xs)
  show ?case
  proof (cases "P x \<or> first_index P xs < 0")
    case True
    then show ?thesis using Cons.prems by (cases "P x") (simp_all add: Let_def)
  next
    case False
    then have n: "nat (first_index P (x # xs)) = Suc (nat (first_index P xs))"
      by (simp add: Let_def Suc_nat_eq_nat_zadd1)
    have "nat (first_index P xs) < length xs \<and> P (xs ! nat (first_index P xs)) \<and>
        (\<forall>j < nat (first_index P xs). \<not> P (xs ! j))"
      using False by (intro Cons.IH) simp
    then show ?thesis unfolding n using False by (auto simp: nth_Cons split: nat.split)
  qed
qed

lemma first_index_find:
  "(if 0 \<le> first_index P xs then Some (xs ! nat (first_index P xs)) else None) = List.find P xs"
proof (induction xs)
  case Nil
  show ?case by simp
next
  case (Cons x xs)
  show ?case
  proof (cases "P x \<or> first_index P xs < 0")
    case True
    then show ?thesis using Cons.IH by (auto simp: Let_def)
  next
    case False
    then have "nat (first_index P xs + 1) = Suc (nat (first_index P xs))" by (simp add: Suc_nat_eq_nat_zadd1)
    then show ?thesis using False Cons.IH by (simp add: Let_def)
  qed
qed

text \<open>\<open>operator[]\<close> of a vector, which checks nothing.\<close>

definition vec_get :: "'a list \<Rightarrow> int \<Rightarrow> 'a res" where
  "vec_get xs i = (if 0 \<le> i \<and> i < int (length xs) then Inr (xs ! nat i) else Inl Undefined_behaviour)"

definition vec_set :: "'a list \<Rightarrow> int \<Rightarrow> 'a \<Rightarrow> 'a list res" where
  "vec_set xs i v = (if 0 \<le> i \<and> i < int (length xs) then Inr (xs[nat i := v]) else Inl Undefined_behaviour)"

end
