(* ===== verification/MemArena.thy ===== *)
theory MemArena
  imports Prelude
begin

text \<open>
  The bump allocator for device memory, \<open>alus::cuda::MemArena\<close> of
  \<^verbatim>\<open>util/cuda/include/cuda_mem_arena.h\<close>. One \<open>cudaMalloc\<close> reserves a block, \<open>AllocateBytes\<close> hands
  out consecutive pieces of it, each starting at a multiple of \<open>ARENA_ALIGNMENT\<close> bytes.

  \<open>size_t\<close> and \<open>uintptr_t\<close> are 64-bit words, so the arithmetic of the code wraps here as it does
  there. \<open>cudaMalloc\<close> and \<open>cudaFree\<close> belong to the CUDA runtime: they are parameters that act on a
  device state of any type, and a non-zero status is the exception \<open>CHECK_CUDA_ERR\<close> throws.

  The lemmas relate the word-level allocator to an allocator on natural numbers (\<open>bump\<close>), and prove
  on that one that the pieces are aligned, disjoint and inside the block. The locale \<open>bump_block\<close>
  states what a client of the arena relies on.
\<close>

section \<open>The model\<close>

definition ARENA_ALIGNMENT :: u64 where
  "ARENA_ALIGNMENT = 128"

record mem_arena =
  device_arena_ptr :: u64
  used_byte_size :: u64
  max_byte_size :: u64

definition MemArena_default :: mem_arena where
  "MemArena_default = \<lparr>device_arena_ptr = 0, used_byte_size = 0, max_byte_size = 0\<rparr>"

definition MemArena_create ::
    "('d \<Rightarrow> u64 \<Rightarrow> 'd \<times> u64 res) \<Rightarrow> u64 \<Rightarrow> 'd \<Rightarrow> 'd \<times> mem_arena res" where
  "MemArena_create cudaMalloc max_bytes d =
     (case cudaMalloc d max_bytes of
        (d', Inl e) \<Rightarrow> (d', Inl e)
      | (d', Inr p) \<Rightarrow>
          (d', Inr \<lparr>device_arena_ptr = p, used_byte_size = 0, max_byte_size = max_bytes\<rparr>))"

text \<open>
  \<open>ReserveMemory\<close>: the block held so far is released first. If \<open>cudaFree\<close> or \<open>cudaMalloc\<close> fails, the
  members keep the values they have at that point (the pointer is not reset after \<open>cudaFree\<close>).
\<close>

definition ReserveMemory ::
    "('d \<Rightarrow> u64 \<Rightarrow> 'd \<times> u64 res) \<Rightarrow> ('d \<Rightarrow> u64 \<Rightarrow> 'd \<times> unit res) \<Rightarrow>
     u64 \<Rightarrow> 'd \<Rightarrow> mem_arena \<Rightarrow> 'd \<times> mem_arena \<times> unit res" where
  "ReserveMemory cudaMalloc cudaFree max_bytes d a =
     (let (d1, freed) =
            (if device_arena_ptr a \<noteq> 0 then cudaFree d (device_arena_ptr a) else (d, Inr ()))
      in case freed of
           Inl e \<Rightarrow> (d1, a, Inl e)
         | Inr _ \<Rightarrow>
             (case cudaMalloc d1 max_bytes of
                (d2, Inl e) \<Rightarrow> (d2, a, Inl e)
              | (d2, Inr p) \<Rightarrow>
                  (d2, \<lparr>device_arena_ptr = p, used_byte_size = 0, max_byte_size = max_bytes\<rparr>,
                   Inr ())))"

definition Reset :: "mem_arena \<Rightarrow> mem_arena" where
  "Reset a = a\<lparr>used_byte_size := 0\<rparr>"

definition FreeMemory ::
    "('d \<Rightarrow> u64 \<Rightarrow> 'd \<times> unit res) \<Rightarrow> 'd \<Rightarrow> mem_arena \<Rightarrow> 'd \<times> mem_arena \<times> unit res" where
  "FreeMemory cudaFree d a =
     (let a1 = a\<lparr>used_byte_size := 0, max_byte_size := 0\<rparr>
      in case cudaFree d (device_arena_ptr a1) of
           (d', Inl e) \<Rightarrow> (d', a1, Inl e)
         | (d', Inr _) \<Rightarrow> (d', a1\<lparr>device_arena_ptr := 0\<rparr>, Inr ()))"

definition AllocateBytes :: "u64 \<Rightarrow> mem_arena \<Rightarrow> (mem_arena \<times> u64) res" where
  "AllocateBytes requested_bytes a =
     (if requested_bytes + used_byte_size a > max_byte_size a then Inl Runtime_error
      else
        let dev_ptr = device_arena_ptr a + used_byte_size a;
            used = used_byte_size a + requested_bytes;
            alignment_overrun = used mod ARENA_ALIGNMENT;
            used' = (if alignment_overrun \<noteq> 0 then used + (ARENA_ALIGNMENT - alignment_overrun)
                     else used)
        in Inr (a\<lparr>used_byte_size := used'\<rparr>, dev_ptr))"

definition AllocArray :: "u64 \<Rightarrow> u64 \<Rightarrow> mem_arena \<Rightarrow> (mem_arena \<times> u64) res" where
  "AllocArray size_of_T n_elem a = AllocateBytes (size_of_T * n_elem) a"

definition Alloc :: "u64 \<Rightarrow> mem_arena \<Rightarrow> (mem_arena \<times> u64) res" where
  "Alloc size_of_T a = AllocArray size_of_T 1 a"

text \<open>The move constructor: the new object and what is left of the old one.\<close>

definition MemArena_move :: "mem_arena \<Rightarrow> mem_arena \<times> mem_arena" where
  "MemArena_move oth =
     (\<lparr>device_arena_ptr = device_arena_ptr oth, used_byte_size = used_byte_size oth,
       max_byte_size = max_byte_size oth\<rparr>,
      oth\<lparr>device_arena_ptr := 0, used_byte_size := 0, max_byte_size := 0\<rparr>)"

text \<open>
  Move assignment between two distinct objects; the status of \<open>cudaFree\<close> is ignored, as in the
  code. (\<open>this == &rhs\<close> returns at once and changes nothing.)
\<close>

definition MemArena_move_assign ::
    "('d \<Rightarrow> u64 \<Rightarrow> 'd \<times> unit res) \<Rightarrow> 'd \<Rightarrow> mem_arena \<Rightarrow> mem_arena \<Rightarrow> 'd \<times> mem_arena \<times> mem_arena" where
  "MemArena_move_assign cudaFree d self rhs =
     (let d' = (if device_arena_ptr self \<noteq> 0 then fst (cudaFree d (device_arena_ptr self)) else d)
      in (d',
          \<lparr>device_arena_ptr = device_arena_ptr rhs, used_byte_size = used_byte_size rhs,
            max_byte_size = max_byte_size rhs\<rparr>,
          rhs\<lparr>device_arena_ptr := 0, max_byte_size := 0, used_byte_size := 0\<rparr>))"

text \<open>A client asks for one piece after the other and keeps the pointers.\<close>

fun alloc_run :: "mem_arena \<Rightarrow> u64 list \<Rightarrow> (mem_arena \<times> u64 list) res" where
  "alloc_run a [] = Inr (a, [])"
| "alloc_run a (r # rs) =
     bind_res (AllocateBytes r a) (\<lambda>(a', p).
       bind_res (alloc_run a' rs) (\<lambda>(a'', ps). Inr (a'', p # ps)))"

section \<open>The allocator on natural numbers\<close>

definition align_up :: "nat \<Rightarrow> nat" where
  "align_up n = (if n mod 128 = 0 then n else n + (128 - n mod 128))"

lemma mod_128_le: "(n::nat) mod 128 \<le> 128"
  by (simp add: less_imp_le)

lemma align_up_ge: "n \<le> align_up n"
  by (auto simp only: align_up_def le_add1 le_refl split: if_split)

lemma align_up_less: "align_up n < n + 128"
proof (cases "n mod 128 = 0")
  case True
  then show ?thesis by (simp add: align_up_def)
next
  case False
  then show ?thesis by (simp add: align_up_def)
qed

lemma align_up_dvd: "128 dvd align_up n"
proof (cases "n mod 128 = 0")
  case True
  then show ?thesis by (auto simp: align_up_def)
next
  case False
  have "n + (128 - n mod 128) = (n - n mod 128) + 128"
    using mod_less_eq_dividend [of n 128] mod_128_le [of n] by linarith
  moreover have "128 dvd (n - n mod 128)" by (rule dvd_minus_mod)
  ultimately have "128 dvd n + (128 - n mod 128)" by (metis dvd_add dvd_refl)
  then show ?thesis using False by (simp only: align_up_def if_False)
qed

fun bump :: "nat \<Rightarrow> nat \<Rightarrow> nat \<Rightarrow> nat list \<Rightarrow> (nat \<times> nat list) option" where
  "bump base limit used [] = Some (used, [])"
| "bump base limit used (r # rs) =
     (if limit < r + used then None
      else case bump base limit (align_up (used + r)) rs of
             None \<Rightarrow> None
           | Some (used', ps) \<Rightarrow> Some (used', (base + used) # ps))"

lemma bump_length: "bump base limit used rs = Some (used', ps) \<Longrightarrow> length ps = length rs"
  by (induction rs arbitrary: used ps) (auto split: if_splits option.splits)

lemma bump_pieces:
  assumes "bump base limit used rs = Some (used', ps)" and "i < length rs"
  shows "base + used \<le> ps ! i \<and> ps ! i + rs ! i \<le> base + limit"
  using assms
proof (induction rs arbitrary: used ps i)
  case Nil
  then show ?case by simp
next
  case (Cons r rs)
  from Cons.prems(1) obtain qs where
    fits: "r + used \<le> limit" and rest: "bump base limit (align_up (used + r)) rs = Some (used', qs)"
    and ps: "ps = (base + used) # qs"
    by (auto split: if_splits option.splits)
  show ?case
  proof (cases i)
    case 0
    then show ?thesis using fits ps by simp
  next
    case (Suc j)
    with Cons.prems(2) have "j < length rs" by simp
    from Cons.IH [OF rest this] have "base + align_up (used + r) \<le> qs ! j"
      and "qs ! j + rs ! j \<le> base + limit" by auto
    moreover have "used + r \<le> align_up (used + r)" by (rule align_up_ge)
    ultimately show ?thesis using Suc ps by simp
  qed
qed

lemma bump_aligned:
  assumes "bump base limit used rs = Some (used', ps)" and "i < length rs"
    and "128 dvd base" and "128 dvd used"
  shows "128 dvd ps ! i"
  using assms
proof (induction rs arbitrary: used ps i)
  case Nil
  then show ?case by simp
next
  case (Cons r rs)
  from Cons.prems(1) obtain qs where
    rest: "bump base limit (align_up (used + r)) rs = Some (used', qs)"
    and ps: "ps = (base + used) # qs"
    by (auto split: if_splits option.splits)
  from Cons.prems ps Cons.IH [OF rest _ _ align_up_dvd] show ?case by (cases i) auto
qed

lemma bump_ordered:
  assumes "bump base limit used rs = Some (used', ps)" and "i < j" and "j < length rs"
  shows "ps ! i + rs ! i \<le> ps ! j"
  using assms
proof (induction rs arbitrary: used ps i j)
  case Nil
  then show ?case by simp
next
  case (Cons r rs)
  from Cons.prems(1) obtain qs where
    rest: "bump base limit (align_up (used + r)) rs = Some (used', qs)"
    and ps: "ps = (base + used) # qs"
    by (auto split: if_splits option.splits)
  from Cons.prems(2,3) obtain k where j: "j = Suc k" and k: "k < length rs"
    by (cases j) auto
  show ?case
  proof (cases i)
    case 0
    have "used + r \<le> align_up (used + r)" by (rule align_up_ge)
    with bump_pieces [OF rest k] ps j 0 show ?thesis by simp
  next
    case (Suc m)
    with Cons.prems(2) j have "m < k" by simp
    from Cons.IH [OF rest this k] show ?thesis using Suc ps j by simp
  qed
qed

section \<open>The word-level allocator refines it\<close>

text \<open>
  The block does not wrap around the address space and is at most \<open>2 ^ 62\<close> bytes, far above any
  device. A request does not wrap the bound check when it leaves room for the block below \<open>2 ^ 64\<close>.
\<close>

definition arena_ok :: "mem_arena \<Rightarrow> bool" where
  "arena_ok a \<longleftrightarrow>
     unat (device_arena_ptr a) + unat (max_byte_size a) + 128 < 2 ^ 64 \<and>
     unat (max_byte_size a) \<le> 2 ^ 62 \<and>
     unat (used_byte_size a) < unat (max_byte_size a) + 128"

lemma unat_plus64:
  fixes x y :: u64
  assumes "unat x + unat y < 2 ^ 64"
  shows "unat (x + y) = unat x + unat y"
  using assms by (simp add: unat_word_ariths)

lemma word_eq_of_nat: "unat (x :: u64) = k \<Longrightarrow> x = word_of_nat k"
  by (drule sym) simp

lemma unat_align:
  fixes u :: u64
  assumes "unat u + 128 < 2 ^ 64"
  shows "unat (if u mod ARENA_ALIGNMENT \<noteq> 0 then u + (ARENA_ALIGNMENT - u mod ARENA_ALIGNMENT) else u)
           = align_up (unat u)"
proof -
  have m: "unat (u mod ARENA_ALIGNMENT) = unat u mod 128"
    by (simp add: unat_mod_distrib ARENA_ALIGNMENT_def)
  then have z: "u mod ARENA_ALIGNMENT = 0 \<longleftrightarrow> unat u mod 128 = 0"
    using unat_eq_0 by metis
  have "u mod ARENA_ALIGNMENT \<le> ARENA_ALIGNMENT"
    using m by (simp add: word_le_nat_alt ARENA_ALIGNMENT_def less_imp_le)
  then have s: "unat (ARENA_ALIGNMENT - u mod ARENA_ALIGNMENT) = 128 - unat u mod 128"
    by (simp add: unat_sub m) (simp add: ARENA_ALIGNMENT_def)
  show ?thesis
  proof (cases "unat u mod 128 = 0")
    case True
    then show ?thesis by (simp add: z align_up_def)
  next
    case False
    have "unat u + unat (ARENA_ALIGNMENT - u mod ARENA_ALIGNMENT) < 2 ^ 64"
      using assms s by linarith
    then show ?thesis using False z s by (simp add: unat_plus64 align_up_def)
  qed
qed

definition no_wrap :: "mem_arena \<Rightarrow> u64 \<Rightarrow> bool" where
  "no_wrap a r \<longleftrightarrow> unat r + (unat (max_byte_size a) + 128) \<le> 2 ^ 64"

lemma unat_sum_mod: "unat (x + y :: u64) = (unat x + unat y) mod 2 ^ 64"
  by (simp add: unat_word_ariths)

text \<open>What \<open>AllocateBytes\<close> does on every request, those included that wrap the bound check.\<close>

lemma AllocateBytes_mod:
  fixes r :: u64
  assumes a_ok: "arena_ok a"
  defines "z \<equiv> (unat (used_byte_size a) + unat r) mod 2 ^ 64"
  shows "AllocateBytes r a =
           (if unat (max_byte_size a) < z then Inl Runtime_error
            else Inr (a\<lparr>used_byte_size := word_of_nat (align_up z)\<rparr>, device_arena_ptr a + used_byte_size a))"
proof -
  let ?u = "used_byte_size a"
  have u: "unat (?u + r) = z" "unat (r + ?u) = z" unfolding z_def unat_sum_mod by (simp_all add: add.commute)
  have guard_eq: "max_byte_size a < r + ?u \<longleftrightarrow> unat (max_byte_size a) < z"
    by (simp add: word_less_nat_alt u)
  show ?thesis
  proof (cases "unat (max_byte_size a) < z")
    case True
    then show ?thesis by (simp add: AllocateBytes_def guard_eq)
  next
    case False
    then have "unat (?u + r) + 128 < 2 ^ 64" using a_ok by (simp add: u arena_ok_def)
    from unat_align [OF this] have
      "(if (?u + r) mod ARENA_ALIGNMENT \<noteq> 0
        then ?u + r + (ARENA_ALIGNMENT - (?u + r) mod ARENA_ALIGNMENT) else ?u + r) = word_of_nat (align_up z)"
      unfolding u by (rule word_eq_of_nat)
    then show ?thesis using False by (simp add: AllocateBytes_def Let_def guard_eq)
  qed
qed

lemma no_wrap_mod:
  assumes "arena_ok a" and "no_wrap a r"
  shows "(unat (used_byte_size a) + unat r) mod 2 ^ 64 = unat (used_byte_size a) + unat r"
  using assms by (intro mod_less) (simp add: arena_ok_def no_wrap_def)

lemma AllocateBytes_refines:
  assumes "arena_ok a" and "no_wrap a r"
  shows "AllocateBytes r a =
           (if unat (max_byte_size a) < unat r + unat (used_byte_size a) then Inl Runtime_error
            else Inr (a\<lparr>used_byte_size := word_of_nat (align_up (unat (used_byte_size a) + unat r))\<rparr>,
                      device_arena_ptr a + used_byte_size a))"
  using AllocateBytes_mod [OF assms(1), of r] no_wrap_mod [OF assms] by (simp add: add.commute)

lemma arena_ok_step:
  assumes a_ok: "arena_ok a" and fits: "unat r + unat (used_byte_size a) \<le> unat (max_byte_size a)"
  defines "u \<equiv> align_up (unat (used_byte_size a) + unat r)"
  shows "arena_ok (a\<lparr>used_byte_size := word_of_nat u\<rparr>)" and "unat (word_of_nat u :: u64) = u"
proof -
  have "u < unat (used_byte_size a) + unat r + 128" unfolding u_def by (rule align_up_less)
  with fits have u_small: "u < unat (max_byte_size a) + 128" by linarith
  moreover have "unat (max_byte_size a) \<le> 2 ^ 62" using a_ok by (simp add: arena_ok_def)
  ultimately have "u < 2 ^ 64" by simp
  then show u_eq: "unat (word_of_nat u :: u64) = u" by (simp add: unat_of_nat)
  then show "arena_ok (a\<lparr>used_byte_size := word_of_nat u\<rparr>)"
    using a_ok u_small by (simp add: arena_ok_def)
qed

lemma dev_ptr_unat:
  assumes "arena_ok a" and "unat r + unat (used_byte_size a) \<le> unat (max_byte_size a)"
  shows "unat (device_arena_ptr a + used_byte_size a)
           = unat (device_arena_ptr a) + unat (used_byte_size a)"
  using assms by (intro unat_plus64) (simp add: arena_ok_def)

text \<open>A run of the arena is a run of the allocator on natural numbers.\<close>

lemma alloc_run_refines:
  assumes "arena_ok a" and "\<forall>r\<in>set rs. no_wrap a r" and "alloc_run a rs = Inr (a', ps)"
  shows "bump (unat (device_arena_ptr a)) (unat (max_byte_size a)) (unat (used_byte_size a))
           (map unat rs) = Some (unat (used_byte_size a'), map unat ps)"
  using assms
proof (induction rs arbitrary: a ps)
  case Nil
  then show ?case by simp
next
  case (Cons r rs)
  let ?u = "align_up (unat (used_byte_size a) + unat r)"
  let ?a1 = "a\<lparr>used_byte_size := word_of_nat ?u\<rparr>"
  have small: "no_wrap a r" using Cons.prems(2) by simp
  from Cons.prems(3) AllocateBytes_refines [OF Cons.prems(1) small] obtain qs where
    fits: "unat r + unat (used_byte_size a) \<le> unat (max_byte_size a)"
    and rest: "alloc_run ?a1 rs = Inr (a', qs)"
    and ps: "ps = (device_arena_ptr a + used_byte_size a) # qs"
    by (auto simp: bind_res_Inr_iff split: if_splits prod.splits)
  have "bump (unat (device_arena_ptr a)) (unat (max_byte_size a)) ?u (map unat rs)
          = Some (unat (used_byte_size a'), map unat qs)"
    using Cons.IH [OF arena_ok_step(1) [OF Cons.prems(1) fits] _ rest] Cons.prems(2)
      arena_ok_step(2) [OF Cons.prems(1) fits] by (simp add: no_wrap_def)
  with fits ps dev_ptr_unat [OF Cons.prems(1) fits] show ?case by simp
qed

section \<open>What a client relies on\<close>

text \<open>
  A client asks for a sequence of pieces. It relies on three laws: each piece lies inside the block,
  starts at a multiple of the alignment, and ends before the next one starts.
\<close>

locale piece_allocator =
  fixes run :: "'s \<Rightarrow> 'r list \<Rightarrow> ('s \<times> 'p list) res"
    and ready :: "'s \<Rightarrow> 'r list \<Rightarrow> bool"
    and size :: "'r \<Rightarrow> nat"
    and addr :: "'p \<Rightarrow> nat"
    and lo :: "'s \<Rightarrow> nat"
    and hi :: "'s \<Rightarrow> nat"
    and alignment :: nat
  assumes one_piece_each: "ready s rs \<Longrightarrow> run s rs = Inr (s', ps) \<Longrightarrow> length ps = length rs"
    and inside: "ready s rs \<Longrightarrow> run s rs = Inr (s', ps) \<Longrightarrow> i < length rs \<Longrightarrow>
      lo s \<le> addr (ps ! i) \<and> addr (ps ! i) + size (rs ! i) \<le> hi s"
    and aligned: "ready s rs \<Longrightarrow> run s rs = Inr (s', ps) \<Longrightarrow> i < length rs \<Longrightarrow>
      alignment dvd addr (ps ! i)"
    and ordered: "ready s rs \<Longrightarrow> run s rs = Inr (s', ps) \<Longrightarrow> i < j \<Longrightarrow> j < length rs \<Longrightarrow>
      addr (ps ! i) + size (rs ! i) \<le> addr (ps ! j)"
begin

definition bytes :: "'r list \<Rightarrow> 'p list \<Rightarrow> nat \<Rightarrow> nat set" where
  "bytes rs ps i = {addr (ps ! i) ..< addr (ps ! i) + size (rs ! i)}"

lemma bytes_inside:
  "ready s rs \<Longrightarrow> run s rs = Inr (s', ps) \<Longrightarrow> i < length rs \<Longrightarrow> bytes rs ps i \<subseteq> {lo s..<hi s}"
  using inside [of s rs s' ps i] by (auto simp: bytes_def)

lemma bytes_disjoint:
  assumes "ready s rs" and "run s rs = Inr (s', ps)"
  shows "i < length rs \<Longrightarrow> j < length rs \<Longrightarrow> i \<noteq> j \<Longrightarrow> bytes rs ps i \<inter> bytes rs ps j = {}"
proof (induction i j rule: linorder_wlog)
  case (le i j)
  then have "addr (ps ! i) + size (rs ! i) \<le> addr (ps ! j)"
    using ordered [OF assms, of i j] by simp
  then show ?case by (auto simp: bytes_def)
next
  case (sym i j)
  then show ?case by blast
qed

lemma total_size:
  assumes "ready s rs" and "run s rs = Inr (s', ps)"
  shows "(\<Sum>r\<leftarrow>rs. size r) \<le> hi s - lo s"
proof -
  let ?B = "bytes rs ps"
  have "card (\<Union>i<length rs. ?B i) = (\<Sum>i<length rs. card (?B i))"
    using bytes_disjoint [OF assms] by (intro card_UN_disjoint) (auto simp: bytes_def)
  moreover have "card (\<Union>i<length rs. ?B i) \<le> card {lo s..<hi s}"
    using bytes_inside [OF assms] by (intro card_mono) auto
  ultimately show ?thesis by (simp add: bytes_def sum_list_sum_nth atLeast0LessThan)
qed

end

text \<open>The arena between two pieces, and requests it can add up without wrapping.\<close>

definition arena_ready :: "mem_arena \<Rightarrow> u64 list \<Rightarrow> bool" where
  "arena_ready a rs \<longleftrightarrow>
     arena_ok a \<and> 128 dvd unat (device_arena_ptr a) \<and> 128 dvd unat (used_byte_size a) \<and>
     (\<forall>r\<in>set rs. no_wrap a r)"

definition arena_free :: "mem_arena \<Rightarrow> nat" where
  "arena_free a = unat (device_arena_ptr a) + unat (used_byte_size a)"

definition arena_end :: "mem_arena \<Rightarrow> nat" where
  "arena_end a = unat (device_arena_ptr a) + unat (max_byte_size a)"

lemma alloc_run_bump:
  assumes "arena_ready a rs" and "alloc_run a rs = Inr (a', ps)"
  shows "bump (unat (device_arena_ptr a)) (unat (max_byte_size a)) (unat (used_byte_size a))
           (map unat rs) = Some (unat (used_byte_size a'), map unat ps)"
    and "length ps = length rs"
proof -
  show run: "bump (unat (device_arena_ptr a)) (unat (max_byte_size a)) (unat (used_byte_size a))
           (map unat rs) = Some (unat (used_byte_size a'), map unat ps)"
    using assms by (intro alloc_run_refines) (auto simp: arena_ready_def)
  show "length ps = length rs" using bump_length [OF run] by simp
qed

interpretation arena: piece_allocator alloc_run arena_ready unat unat arena_free arena_end 128
proof
  fix a :: mem_arena and rs :: "u64 list" and a' :: mem_arena and ps :: "u64 list" and i j :: nat
  assume ready: "arena_ready a rs" and run: "alloc_run a rs = Inr (a', ps)"
  note bump = alloc_run_bump(1) [OF ready run]
  show len: "length ps = length rs" by (rule alloc_run_bump(2) [OF ready run])
  show "arena_free a \<le> unat (ps ! i) \<and> unat (ps ! i) + unat (rs ! i) \<le> arena_end a"
    if "i < length rs"
    using bump_pieces [OF bump, of i] that len by (simp add: arena_free_def arena_end_def)
  show "128 dvd unat (ps ! i)" if "i < length rs"
    using bump_aligned [OF bump, of i] that len ready by (simp add: arena_ready_def)
  show "unat (ps ! i) + unat (rs ! i) \<le> unat (ps ! j)" if "i < j" "j < length rs"
    using bump_ordered [OF bump that(1)] that len by simp
qed

section \<open>Properties\<close>

text \<open>
  C1. Pieces handed out by one arena never overlap, for any sequence of accepted requests none of which can wrap
  the bound check (a request and the block together stay below \<open>2 ^ 64\<close> bytes; C2 shows what a larger one does):
  the byte ranges behind two pointers are disjoint, each lies inside the reserved block, starts at a
  multiple of the alignment, and the requests together are no larger than the block.
\<close>

theorem arena_pieces:
  assumes "arena_ok a" and "128 dvd unat (device_arena_ptr a)" and "128 dvd unat (used_byte_size a)"
    and no_wraps: "\<forall>r\<in>set rs. unat r + (unat (max_byte_size a) + 128) \<le> 2 ^ 64"
    and "alloc_run a rs = Inr (a', ps)"
  shows "length ps = length rs \<and>
    (\<forall>i < length rs. arena_free a \<le> unat (ps ! i) \<and> unat (ps ! i) + unat (rs ! i) \<le> arena_end a \<and>
       128 dvd unat (ps ! i)) \<and>
    (\<forall>i < length rs. \<forall>j < length rs. i \<noteq> j \<longrightarrow>
       {unat (ps ! i) ..< unat (ps ! i) + unat (rs ! i)} \<inter>
       {unat (ps ! j) ..< unat (ps ! j) + unat (rs ! j)} = {}) \<and>
    (\<Sum>r\<leftarrow>rs. unat r) \<le> arena_end a - arena_free a"
proof -
  have ready: "arena_ready a rs" using assms(1-4) by (simp add: arena_ready_def no_wrap_def)
  show ?thesis
    using arena.one_piece_each [OF ready assms(5)] arena.inside [OF ready assms(5)] arena.aligned [OF ready assms(5)]
      arena.bytes_disjoint [OF ready assms(5)] arena.total_size [OF ready assms(5)]
    by (auto simp: arena.bytes_def)
qed

definition arena_4k :: mem_arena where
  "arena_4k = \<lparr>device_arena_ptr = 4096, used_byte_size = 0, max_byte_size = 1000\<rparr>"

lemma arena_4k_run:
  "alloc_run arena_4k [100, 200, 300] = Inr (arena_4k\<lparr>used_byte_size := 768\<rparr>, [4096, 4224, 4480])"
  by (simp add: arena_4k_def AllocateBytes_def ARENA_ALIGNMENT_def Let_def)

theorem arena_pieces_witness:
  "{4096::nat ..< 4196} \<inter> {4224 ..< 4424} = {} \<and> (600::nat) \<le> 1000"
proof -
  have "arena_ok arena_4k" "128 dvd unat (device_arena_ptr arena_4k)" "128 dvd unat (used_byte_size arena_4k)"
    "\<forall>r\<in>set [100, 200, 300 :: u64]. unat r + (unat (max_byte_size arena_4k) + 128) \<le> 2 ^ 64"
    by (simp_all add: arena_ok_def arena_4k_def)
  from arena_pieces [OF this arena_4k_run] show ?thesis
    by (simp add: arena_free_def arena_end_def arena_4k_def)
qed

text \<open>
  C2. What \<open>AllocateBytes\<close> does on every request, in a block that does not wrap around the address space. The
  bound check adds the request to the fill level modulo \<open>2 ^ 64\<close>. When that sum passes the size of the block the request
  is refused; otherwise the first free address is returned and the fill level becomes the next multiple of the
  alignment from the sum on. So a request that does not fit is refused unless the sum wraps around to a
  position in the block, and then the fill level falls back and the next piece overlaps earlier ones.
\<close>

theorem AllocateBytes_exact:
  assumes "arena_ok a"
  shows "AllocateBytes r a =
    (if unat (used_byte_size a) + unat r \<le> unat (max_byte_size a)
     then Inr (a\<lparr>used_byte_size := word_of_nat (align_up (unat (used_byte_size a) + unat r))\<rparr>,
               device_arena_ptr a + used_byte_size a)
     else if unat (used_byte_size a) + unat r < 2 ^ 64 \<or>
             2 ^ 64 + unat (max_byte_size a) < unat (used_byte_size a) + unat r then Inl Runtime_error
     else Inr (a\<lparr>used_byte_size := word_of_nat (align_up (unat (used_byte_size a) + unat r - 2 ^ 64))\<rparr>,
               device_arena_ptr a + used_byte_size a))"
proof -
  have max: "unat (max_byte_size a) < 2 ^ 64" using unsigned_less [of "max_byte_size a"] by simp
  have r: "unat r < 2 ^ 64" using unsigned_less [of r] by simp
  show ?thesis
  proof (cases "unat (used_byte_size a) + unat r < 2 ^ 64")
    case True
    then show ?thesis by (simp add: AllocateBytes_mod [OF assms] not_less)
  next
    case False
    have "unat (used_byte_size a) < 2 ^ 64" using unsigned_less [of "used_byte_size a"] by simp
    then have "(unat (used_byte_size a) + unat r) mod 2 ^ 64 = unat (used_byte_size a) + unat r - 2 ^ 64"
      using False r by (simp add: mod_if)
    then show ?thesis using False max by (auto simp: AllocateBytes_mod [OF assms])
  qed
qed

theorem AllocateBytes_exact_witness:
  "AllocateBytes 1001 arena_4k = Inl Runtime_error \<and>
   AllocateBytes (- 128) (arena_4k\<lparr>used_byte_size := 128\<rparr>) = Inr (arena_4k, 4224)"
proof -
  have "arena_ok arena_4k" "arena_ok (arena_4k\<lparr>used_byte_size := 128\<rparr>)" by (simp_all add: arena_ok_def arena_4k_def)
  from AllocateBytes_exact [OF this(1)] AllocateBytes_exact [OF this(2)] show ?thesis
    by (simp add: arena_4k_def align_up_def)
qed

text \<open>The most direct such request: \<open>2 ^ 64\<close> minus the fill level empties the arena.\<close>

theorem AllocateBytes_wraps:
  assumes "used_byte_size a \<noteq> 0"
  shows "AllocateBytes (- used_byte_size a) a =
           Inr (a\<lparr>used_byte_size := 0\<rparr>, device_arena_ptr a + used_byte_size a) \<and>
         unat (- used_byte_size a) = 2 ^ 64 - unat (used_byte_size a)"
proof -
  have "unat (0 - used_byte_size a) = 2 ^ 64 - unat (used_byte_size a)"
    using assms by (subst unat_sub_if') (simp add: unat_eq_0 word_le_nat_alt)
  then show ?thesis by (simp add: AllocateBytes_def Let_def)
qed

end
