(* ===== verification/Tiling.thy ===== *)
theory Tiling
  imports Prelude
begin

text \<open>
  The contract of every routine of the program that cuts a raster into tiles, and what follows from
  it. A tiling of one axis is given by the number of pieces and the first and last position of each;
  consecutive pieces touch, the first starts at 0 and the last ends at the end of the axis. Two such
  axes give a grid of rectangles, in the order of the code's nested loops. The locale proves once
  that the grid covers every pixel exactly once and stays inside the raster.

  Raster sizes and coordinates are of the C++ type \<open>int\<close>, here HOL integers. The routines spell out the 32-bit
  arithmetic where their own sums and products can leave the range, and their theorems state the sizes for
  which they do not.
\<close>

section \<open>Rectangles\<close>

record rectangle =
  rx :: int
  ry :: int
  width :: int
  height :: int

definition mk_rect :: "int \<Rightarrow> int \<Rightarrow> int \<Rightarrow> int \<Rightarrow> rectangle" where
  "mk_rect x y w h = \<lparr>rx = x, ry = y, width = w, height = h\<rparr>"

lemma mk_rect_sel [simp]:
  "rx (mk_rect x y w h) = x" "ry (mk_rect x y w h) = y"
  "width (mk_rect x y w h) = w" "height (mk_rect x y w h) = h"
  by (simp_all add: mk_rect_def)

definition covers :: "rectangle \<Rightarrow> int \<Rightarrow> int \<Rightarrow> bool" where
  "covers r p q \<longleftrightarrow> rx r \<le> p \<and> p < rx r + width r \<and> ry r \<le> q \<and> q < ry r + height r"

definition rect_within :: "int \<Rightarrow> int \<Rightarrow> rectangle \<Rightarrow> bool" where
  "rect_within w h r \<longleftrightarrow>
     0 \<le> rx r \<and> 0 \<le> ry r \<and> 0 < width r \<and> 0 < height r \<and> rx r + width r \<le> w \<and> ry r + height r \<le> h"

text \<open>The number of tiles of a list that contain a pixel.\<close>

definition cover_count :: "rectangle list \<Rightarrow> int \<Rightarrow> int \<Rightarrow> nat" where
  "cover_count rs p q = length (filter (\<lambda>r. covers r p q) rs)"

text \<open>A list of tiles is a partition of a raster: inside it, and every pixel in exactly one.\<close>

definition partitions :: "int \<Rightarrow> int \<Rightarrow> rectangle list \<Rightarrow> bool" where
  "partitions w h rs \<longleftrightarrow>
     (\<forall>r\<in>set rs. rect_within w h r) \<and>
     (\<forall>p q. 0 \<le> p \<and> p < w \<and> 0 \<le> q \<and> q < h \<longrightarrow> cover_count rs p q = 1)"

section \<open>One axis, and the grid of two\<close>

lemma filter_concat_map_length:
  "length (filter P (concat (map f ys))) = (\<Sum>y\<leftarrow>ys. length (filter P (f y)))"
  by (induction ys) simp_all

lemma sum_list_indicator:
  "(\<Sum>y\<leftarrow>ys. if Q y then n else 0) = n * length (filter Q ys)" for n :: nat
  by (induction ys) simp_all

locale axis_tiling =
  fixes valid :: "'c \<Rightarrow> bool"
    and pieces :: "'c \<Rightarrow> int"
    and first :: "'c \<Rightarrow> int \<Rightarrow> int"
    and last :: "'c \<Rightarrow> int \<Rightarrow> int"
    and extent :: "'c \<Rightarrow> int"
  assumes some_piece: "valid c \<Longrightarrow> 0 < pieces c"
    and first_0: "valid c \<Longrightarrow> first c 0 = 0"
    and nonempty: "valid c \<Longrightarrow> 0 \<le> k \<Longrightarrow> k < pieces c \<Longrightarrow> first c k \<le> last c k"
    and touching: "valid c \<Longrightarrow> 0 \<le> k \<Longrightarrow> k + 1 < pieces c \<Longrightarrow> first c (k + 1) = last c k + 1"
    and last_end: "valid c \<Longrightarrow> last c (pieces c - 1) = extent c - 1"
begin

lemma first_nonneg_below:
  assumes "valid c"
  shows "int n < pieces c \<Longrightarrow> 0 \<le> first c (int n)"
proof (induction n)
  case 0
  then show ?case using assms by (simp add: first_0)
next
  case (Suc n)
  then have "first c (int n + 1) = last c (int n) + 1" using assms by (intro touching) auto
  moreover have "first c (int n) \<le> last c (int n)" using Suc.prems assms by (intro nonempty) auto
  ultimately show ?case using Suc by (simp add: add.commute)
qed

lemma first_nonneg: "valid c \<Longrightarrow> 0 \<le> k \<Longrightarrow> k < pieces c \<Longrightarrow> 0 \<le> first c k"
  using first_nonneg_below [of c "nat k"] by simp

lemma last_mono_up:
  assumes "valid c"
  shows "0 \<le> k \<Longrightarrow> k + int n < pieces c \<Longrightarrow> last c k \<le> last c (k + int n)"
proof (induction n)
  case 0
  then show ?case by simp
next
  case (Suc n)
  then have "first c (k + int n + 1) = last c (k + int n) + 1" using assms by (intro touching) auto
  moreover have "first c (k + int n + 1) \<le> last c (k + int n + 1)"
    using Suc.prems assms by (intro nonempty) auto
  ultimately show ?case using Suc by (simp add: algebra_simps)
qed

lemma last_below:
  assumes "valid c" and "0 \<le> k" and "k < pieces c"
  shows "last c k < extent c"
  using last_mono_up [OF assms(1,2), of "nat (pieces c - 1 - k)"] last_end [OF assms(1)] assms by simp

lemma first_after:
  assumes "valid c" and "0 \<le> j" and "j < k" and "k < pieces c"
  shows "last c j < first c k"
proof -
  have "last c j \<le> last c (k - 1)"
    using last_mono_up [OF assms(1,2), of "nat (k - 1 - j)"] assms by simp
  moreover have "first c (k - 1 + 1) = last c (k - 1) + 1" using assms by (intro touching) auto
  ultimately show ?thesis by simp
qed

definition in_piece :: "'c \<Rightarrow> int \<Rightarrow> int \<Rightarrow> bool" where
  "in_piece c p k \<longleftrightarrow> first c k \<le> p \<and> p \<le> last c k"

lemma piece_exists_below:
  assumes "valid c"
  shows "int n < pieces c \<Longrightarrow> 0 \<le> p \<Longrightarrow> p \<le> last c (int n) \<Longrightarrow> \<exists>k. 0 \<le> k \<and> k \<le> int n \<and> in_piece c p k"
proof (induction n)
  case 0
  then show ?case using assms by (auto simp: in_piece_def first_0 intro!: exI [of _ 0])
next
  case (Suc n)
  show ?case
  proof (cases "p \<le> last c (int n)")
    case True
    with Suc show ?thesis by fastforce
  next
    case False
    have "first c (int n + 1) = last c (int n) + 1" using Suc.prems assms by (intro touching) auto
    with False Suc.prems have "in_piece c p (int n + 1)" by (simp add: in_piece_def add.commute)
    then show ?thesis by (intro exI [of _ "int n + 1"]) simp
  qed
qed

lemma piece_unique:
  assumes "valid c" and "0 \<le> p" and "p < extent c"
  shows "\<exists>!k. 0 \<le> k \<and> k < pieces c \<and> in_piece c p k"
proof -
  have "\<exists>k. 0 \<le> k \<and> k \<le> int (nat (pieces c - 1)) \<and> in_piece c p k"
    using some_piece [OF assms(1)] last_end [OF assms(1)] assms
    by (intro piece_exists_below) auto
  then obtain k where k: "0 \<le> k" "k < pieces c" "in_piece c p k"
    using some_piece [OF assms(1)] by auto
  show ?thesis
  proof (rule ex1I [of _ k])
    show "0 \<le> k \<and> k < pieces c \<and> in_piece c p k" using k by simp
    fix j assume j: "0 \<le> j \<and> j < pieces c \<and> in_piece c p j"
    show "j = k"
      using first_after [OF assms(1), of j k] first_after [OF assms(1), of k j] j k
      by (cases j k rule: linorder_cases) (auto simp: in_piece_def)
  qed
qed

lemma piece_count:
  assumes "valid c" and "0 \<le> p" and "p < extent c"
  shows "length (filter (in_piece c p) [0..pieces c - 1]) = 1"
proof -
  obtain k where k: "0 \<le> k" "k < pieces c" "in_piece c p k"
    and uniq: "\<And>j. 0 \<le> j \<Longrightarrow> j < pieces c \<Longrightarrow> in_piece c p j \<Longrightarrow> j = k"
    using piece_unique [OF assms] by blast
  have "set (filter (in_piece c p) [0..pieces c - 1]) = {k}"
  proof (intro set_eqI iffI)
    fix j assume "j \<in> set (filter (in_piece c p) [0..pieces c - 1])"
    then have "j = k" by (intro uniq) simp_all
    then show "j \<in> {k}" by simp
  next
    fix j assume "j \<in> {k}"
    then show "j \<in> set (filter (in_piece c p) [0..pieces c - 1])" using k by simp
  qed
  moreover have "length (filter (in_piece c p) [0..pieces c - 1])
      = card (set (filter (in_piece c p) [0..pieces c - 1]))"
    by (simp only: distinct_card distinct_filter distinct_upto)
  ultimately show ?thesis by simp
qed

definition grid :: "'c \<Rightarrow> 'c \<Rightarrow> rectangle list" where
  "grid cx cy =
     concat (map (\<lambda>j. map (\<lambda>i. mk_rect (first cx i) (first cy j)
                               (last cx i - first cx i + 1) (last cy j - first cy j + 1))
                          [0..pieces cx - 1])
                 [0..pieces cy - 1])"

lemma grid_length:
  assumes "valid cx" and "valid cy"
  shows "int (length (grid cx cy)) = pieces cx * pieces cy"
proof -
  have "length (grid cx cy) = (\<Sum>j\<leftarrow>[0..pieces cy - 1]. nat (pieces cx))"
    by (simp add: grid_def length_concat comp_def)
  also have "\<dots> = nat (pieces cy) * nat (pieces cx)"
    by (simp add: sum_list_triv)
  finally show ?thesis
    using some_piece [OF assms(1)] some_piece [OF assms(2)] by (simp add: nat_mult_distrib mult.commute)
qed

theorem grid_partitions:
  assumes vx: "valid cx" and vy: "valid cy"
  shows "partitions (extent cx) (extent cy) (grid cx cy)"
  unfolding partitions_def
proof (intro conjI ballI allI impI)
  fix r assume "r \<in> set (grid cx cy)"
  then obtain i j where i: "0 \<le> i" "i < pieces cx" and j: "0 \<le> j" "j < pieces cy"
    and r: "r = mk_rect (first cx i) (first cy j) (last cx i - first cx i + 1) (last cy j - first cy j + 1)"
    by (auto simp: grid_def)
  show "rect_within (extent cx) (extent cy) r"
    using first_nonneg [OF vx i] first_nonneg [OF vy j] nonempty [OF vx i] nonempty [OF vy j]
      last_below [OF vx i] last_below [OF vy j]
    by (simp add: rect_within_def r)
next
  fix p q assume pq: "0 \<le> p \<and> p < extent cx \<and> 0 \<le> q \<and> q < extent cy"
  let ?r = "\<lambda>i j. mk_rect (first cx i) (first cy j) (last cx i - first cx i + 1) (last cy j - first cy j + 1)"
  have row: "length (filter (\<lambda>r. covers r p q) (map (\<lambda>i. ?r i j) [0..pieces cx - 1]))
              = (if in_piece cy q j then 1 else 0)" for j
  proof -
    have "covers (?r i j) p q \<longleftrightarrow> in_piece cx p i \<and> in_piece cy q j" for i
      by (auto simp: covers_def in_piece_def)
    then have "length (filter (\<lambda>r. covers r p q) (map (\<lambda>i. ?r i j) [0..pieces cx - 1]))
             = (if in_piece cy q j then length (filter (in_piece cx p) [0..pieces cx - 1]) else 0)"
      by (simp add: filter_map comp_def)
    then show ?thesis using piece_count [OF vx] pq by simp
  qed
  have "cover_count (grid cx cy) p q = (\<Sum>j\<leftarrow>[0..pieces cy - 1]. if in_piece cy q j then 1 else 0)"
    unfolding cover_count_def grid_def filter_concat_map_length row ..
  also have "\<dots> = length (filter (in_piece cy q) [0..pieces cy - 1])"
    by (simp add: sum_list_indicator)
  also have "\<dots> = 1" using piece_count [OF vy] pq by simp
  finally show "cover_count (grid cx cy) p q = 1" .
qed

end

end
