(* ===== verification/Ieee.thy ===== *)
theory Ieee
  imports Prelude Complex_Main
begin

text \<open>
  The C++ types \<open>float\<close> and \<open>double\<close>: IEEE 754 binary32 and binary64 with rounding to nearest, ties to
  even. A value is a rational number, an infinity or not-a-number; an operation computes the exact
  rational result and rounds it, with subnormals and overflow to infinity. The sign of zero is not
  kept (no code modelled here depends on it), and a division by zero takes the zero as positive.

  Everything computes, so a witness can evaluate the float arithmetic of the code. The lemmas that
  matter later: integers below \<open>2 ^ p\<close> are exact, and the ceiling of the rounded quotient of two
  positive \<open>float\<close> integers below \<open>2 ^ 24\<close> is the ceiling of the exact quotient.
\<close>

section \<open>Values and formats\<close>

datatype fp = Fin rat | Inf bool | NaN

record fp_format =
  precision :: nat
  min_exp :: int
  max_exp :: int

definition f32 :: fp_format where
  "f32 = \<lparr>precision = 24, min_exp = -126, max_exp = 127\<rparr>"

definition f64 :: fp_format where
  "f64 = \<lparr>precision = 53, min_exp = -1022, max_exp = 1023\<rparr>"

section \<open>Rounding\<close>

fun nlog2 :: "nat \<Rightarrow> nat" where
  "nlog2 n = (if n < 2 then 0 else Suc (nlog2 (n div 2)))"

declare nlog2.simps [simp del]

definition ilog2 :: "rat \<Rightarrow> int" where
  "ilog2 x = (if 1 \<le> x then int (nlog2 (nat \<lfloor>x\<rfloor>)) else - int (nlog2 (nat \<lceil>1 / x\<rceil> - 1) + 1))"

definition round_even :: "rat \<Rightarrow> int" where
  "round_even x =
     (let f = \<lfloor>x\<rfloor>; r = x - of_int f
      in if r < 1 / 2 then f else if 1 / 2 < r then f + 1 else if even f then f else f + 1)"

definition round_to :: "fp_format \<Rightarrow> rat \<Rightarrow> rat" where
  "round_to m x =
     (if x = 0 then 0
      else let q = max (ilog2 \<bar>x\<bar>) (min_exp m) - (int (precision m) - 1)
           in of_int (round_even (x * 2 powi (- q))) * 2 powi q)"

definition fp_of_rat :: "fp_format \<Rightarrow> rat \<Rightarrow> fp" where
  "fp_of_rat m x =
     (let r = round_to m x in if 2 powi (max_exp m + 1) \<le> \<bar>r\<bar> then Inf (r < 0) else Fin r)"

section \<open>Operations\<close>

definition fp_of_int :: "fp_format \<Rightarrow> int \<Rightarrow> fp" where
  "fp_of_int m i = fp_of_rat m (of_int i)"

fun fp_convert :: "fp_format \<Rightarrow> fp \<Rightarrow> fp" where
  "fp_convert m (Fin x) = fp_of_rat m x"
| "fp_convert m (Inf s) = Inf s"
| "fp_convert m NaN = NaN"

fun fneg :: "fp \<Rightarrow> fp" where
  "fneg (Fin x) = Fin (- x)"
| "fneg (Inf s) = Inf (\<not> s)"
| "fneg NaN = NaN"

fun fabs :: "fp \<Rightarrow> fp" where
  "fabs (Fin x) = Fin \<bar>x\<bar>"
| "fabs (Inf s) = Inf False"
| "fabs NaN = NaN"

fun fadd :: "fp_format \<Rightarrow> fp \<Rightarrow> fp \<Rightarrow> fp" where
  "fadd m (Fin x) (Fin y) = fp_of_rat m (x + y)"
| "fadd m NaN y = NaN"
| "fadd m x NaN = NaN"
| "fadd m (Inf s) (Inf t) = (if s = t then Inf s else NaN)"
| "fadd m (Inf s) (Fin y) = Inf s"
| "fadd m (Fin x) (Inf t) = Inf t"

definition fsub :: "fp_format \<Rightarrow> fp \<Rightarrow> fp \<Rightarrow> fp" where
  "fsub m x y = fadd m x (fneg y)"

fun fmul :: "fp_format \<Rightarrow> fp \<Rightarrow> fp \<Rightarrow> fp" where
  "fmul m (Fin x) (Fin y) = fp_of_rat m (x * y)"
| "fmul m NaN y = NaN"
| "fmul m x NaN = NaN"
| "fmul m (Inf s) (Inf t) = Inf (s \<noteq> t)"
| "fmul m (Inf s) (Fin y) = (if y = 0 then NaN else Inf (s \<noteq> (y < 0)))"
| "fmul m (Fin x) (Inf t) = (if x = 0 then NaN else Inf (t \<noteq> (x < 0)))"

fun fdiv :: "fp_format \<Rightarrow> fp \<Rightarrow> fp \<Rightarrow> fp" where
  "fdiv m (Fin x) (Fin y) =
     (if y = 0 then if x = 0 then NaN else Inf (x < 0) else fp_of_rat m (x / y))"
| "fdiv m NaN y = NaN"
| "fdiv m x NaN = NaN"
| "fdiv m (Inf s) (Inf t) = NaN"
| "fdiv m (Inf s) (Fin y) = Inf (s \<noteq> (y < 0))"
| "fdiv m (Fin x) (Inf t) = Fin 0"

fun flt :: "fp \<Rightarrow> fp \<Rightarrow> bool" where
  "flt (Fin x) (Fin y) = (x < y)"
| "flt (Inf s) (Inf t) = (s \<and> \<not> t)"
| "flt (Inf s) (Fin y) = s"
| "flt (Fin x) (Inf t) = (\<not> t)"
| "flt _ _ = False"

fun fle :: "fp \<Rightarrow> fp \<Rightarrow> bool" where
  "fle (Fin x) (Fin y) = (x \<le> y)"
| "fle (Inf s) (Inf t) = (s \<or> \<not> t)"
| "fle (Inf s) (Fin y) = s"
| "fle (Fin x) (Inf t) = (\<not> t)"
| "fle _ _ = False"

abbreviation fgt :: "fp \<Rightarrow> fp \<Rightarrow> bool" where
  "fgt x y \<equiv> flt y x"

abbreviation fge :: "fp \<Rightarrow> fp \<Rightarrow> bool" where
  "fge x y \<equiv> fle y x"

fun feq :: "fp \<Rightarrow> fp \<Rightarrow> bool" where
  "feq (Fin x) (Fin y) = (x = y)"
| "feq (Inf s) (Inf t) = (s = t)"
| "feq _ _ = False"

text \<open>\<open>std::ceil\<close>, \<open>std::floor\<close> and \<open>std::round\<close> (halves away from zero) give a representable integer.\<close>

fun fceil :: "fp \<Rightarrow> fp" where
  "fceil (Fin x) = Fin (of_int \<lceil>x\<rceil>)"
| "fceil y = y"

fun ffloor :: "fp \<Rightarrow> fp" where
  "ffloor (Fin x) = Fin (of_int \<lfloor>x\<rfloor>)"
| "ffloor y = y"

definition round_away :: "rat \<Rightarrow> int" where
  "round_away x = (if 0 \<le> x then \<lfloor>x + 1 / 2\<rfloor> else - \<lfloor>- x + 1 / 2\<rfloor>)"

fun fround :: "fp \<Rightarrow> fp" where
  "fround (Fin x) = Fin (of_int (round_away x))"
| "fround y = y"

definition rat_trunc :: "rat \<Rightarrow> int" where
  "rat_trunc x = (if 0 \<le> x then \<lfloor>x\<rfloor> else - \<lfloor>- x\<rfloor>)"

text \<open>
  \<open>static_cast\<close> from floating point to an integer type with values \<open>lo..hi\<close>: the fraction is dropped,
  and the behaviour is undefined when the result does not fit.
\<close>

fun fp_to_int :: "int \<Rightarrow> int \<Rightarrow> fp \<Rightarrow> int res" where
  "fp_to_int lo hi (Fin x) =
     (if lo \<le> rat_trunc x \<and> rat_trunc x \<le> hi then Inr (rat_trunc x) else Inl Undefined_behaviour)"
| "fp_to_int lo hi _ = Inl Undefined_behaviour"

definition fp_to_int32 :: "fp \<Rightarrow> int res" where
  "fp_to_int32 = fp_to_int (- (2 ^ 31)) (2 ^ 31 - 1)"

section \<open>Properties of the rounding\<close>

lemma nlog2_bounds: "0 < n \<Longrightarrow> 2 ^ nlog2 n \<le> n \<and> n < 2 ^ (nlog2 n + 1)"
proof (induction n rule: nlog2.induct)
  case (1 n)
  show ?case
  proof (cases "n < 2")
    case True
    with "1.prems" have "n = 1" by simp
    then show ?thesis by (simp add: nlog2.simps)
  next
    case False
    then have "2 ^ nlog2 (n div 2) \<le> n div 2 \<and> n div 2 < 2 ^ (nlog2 (n div 2) + 1)"
      using "1.IH" by simp
    then have "2 * 2 ^ nlog2 (n div 2) \<le> n \<and> n < 2 * 2 ^ (nlog2 (n div 2) + 1)"
      by linarith
    moreover have "nlog2 n = Suc (nlog2 (n div 2))" using False by (subst nlog2.simps) simp
    ultimately show ?thesis by simp
  qed
qed

lemma ilog2_bounds:
  assumes "0 < x"
  shows "2 powi ilog2 x \<le> x \<and> x < 2 powi (ilog2 x + 1)"
proof (cases "1 \<le> x")
  case True
  let ?n = "nat \<lfloor>x\<rfloor>"
  have n: "0 < ?n" using True by simp
  have e: "ilog2 x = int (nlog2 ?n)" using True by (simp add: ilog2_def)
  have nf: "(of_nat ?n :: rat) = of_int \<lfloor>x\<rfloor>" using True by simp
  have fl: "of_nat ?n \<le> x" "x < of_nat ?n + 1" unfolding nf by linarith+
  have "(of_nat (2 ^ nlog2 ?n) :: rat) \<le> of_nat ?n"
    using nlog2_bounds [OF n] by (simp only: of_nat_le_iff)
  then have "2 ^ nlog2 ?n \<le> (of_nat ?n :: rat)" by (simp only: of_nat_power of_nat_numeral)
  then have lo: "2 ^ nlog2 ?n \<le> x" using fl(1) by (rule order_trans)
  have "(of_nat (?n + 1) :: rat) \<le> of_nat (2 ^ (nlog2 ?n + 1))"
    using nlog2_bounds [OF n] by (simp only: of_nat_le_iff) linarith
  then have hi: "x < 2 ^ (nlog2 ?n + 1)" using fl(2) by simp
  have "int (nlog2 ?n) + 1 = int (nlog2 ?n + 1)" by simp
  then show ?thesis using lo hi e by (simp only: power_int_of_nat)
next
  case False
  let ?y = "1 / x"
  let ?m = "nat \<lceil>?y\<rceil> - 1"
  let ?k = "nlog2 ?m + 1"
  have y: "1 < ?y" using False assms by simp
  then have c2: "2 \<le> nat \<lceil>?y\<rceil>" by (simp add: le_nat_iff less_ceiling_iff)
  then have m: "0 < ?m" by linarith
  have cr: "of_nat (nat \<lceil>?y\<rceil>) - 1 < ?y" "?y \<le> of_nat (nat \<lceil>?y\<rceil>)"
    using y by (simp_all add: of_nat_nat) linarith
  have rm: "(of_nat ?m :: rat) = of_nat (nat \<lceil>?y\<rceil>) - 1" using c2 by (simp add: of_nat_diff)
  have "(of_nat (2 ^ nlog2 ?m) :: rat) \<le> of_nat ?m"
    using nlog2_bounds [OF m] by (simp only: of_nat_le_iff)
  then have lo: "2 ^ nlog2 ?m < ?y" using cr(1) rm by simp
  have "(of_nat (?m + 1) :: rat) \<le> of_nat (2 ^ ?k)"
    using nlog2_bounds [OF m] by (simp only: of_nat_le_iff) linarith
  then have hi: "?y \<le> 2 ^ ?k" using cr(2) rm by simp
  have e: "ilog2 x = - int ?k" using False by (simp add: ilog2_def)
  then have p1: "(2::rat) powi ilog2 x = 1 / 2 ^ ?k"
    by (simp only: power_int_minus power_int_of_nat inverse_eq_divide)
  have "ilog2 x + 1 = - int (nlog2 ?m)" using e by simp
  then have p2: "(2::rat) powi (ilog2 x + 1) = 1 / 2 ^ nlog2 ?m"
    by (simp only: power_int_minus power_int_of_nat inverse_eq_divide)
  have "1 / 2 ^ ?k \<le> x" using hi assms by (simp add: field_simps)
  moreover have "x < 1 / 2 ^ nlog2 ?m" using lo assms by (simp add: field_simps)
  ultimately show ?thesis unfolding p1 p2 by blast
qed

lemma round_even_int [simp]: "round_even (of_int i) = i"
  by (simp add: round_even_def)

lemma round_even_le: "x \<le> of_int i \<Longrightarrow> round_even x \<le> i"
proof -
  assume a: "x \<le> of_int i"
  have f: "\<lfloor>x\<rfloor> \<le> i" using a by linarith
  show ?thesis
  proof (cases "\<lfloor>x\<rfloor> = i")
    case True
    with a have "x = of_int i" by linarith
    then show ?thesis by simp
  next
    case False
    with f show ?thesis by (simp add: round_even_def Let_def)
  qed
qed

lemma round_even_ge: "of_int i + 1 / 2 < x \<Longrightarrow> i + 1 \<le> round_even x"
proof -
  assume a: "of_int i + 1 / 2 < x"
  then have f: "i \<le> \<lfloor>x\<rfloor>" by linarith
  show ?thesis
  proof (cases "\<lfloor>x\<rfloor> = i")
    case True
    with a show ?thesis by (simp add: round_even_def Let_def)
  next
    case False
    with f show ?thesis by (simp add: round_even_def Let_def)
  qed
qed

section \<open>Integers are exact, and the ceiling of a quotient is\<close>

lemma powi2_int:
  assumes "0 \<le> k"
  shows "(2::rat) powi k = of_int (2 ^ nat k)"
  using assms by (simp add: power_int_def)

lemma powi2_add: "(2::rat) powi a * 2 powi b = 2 powi (a + b)"
  by (simp add: power_int_add)

lemma powi2_cancel: "(2::rat) powi (a - b) * 2 powi (b - a) = 1"
  by (simp add: power_int_add [symmetric])

lemma powi2_less: "(2::rat) powi a < 2 powi b \<Longrightarrow> a < b"
  using power_int_increasing [of b a "2::rat"] by (cases "a < b") auto

text \<open>A positive rational whose binary digits fit into the precision is not changed by rounding.\<close>

lemma round_to_exact:
  assumes "0 < x" and "min_exp m \<le> ilog2 x"
    and "x * 2 powi (int (precision m) - 1 - ilog2 x) = of_int i"
  shows "round_to m x = x"
proof -
  let ?q = "ilog2 x - (int (precision m) - 1)"
  have q: "max (ilog2 \<bar>x\<bar>) (min_exp m) - (int (precision m) - 1) = ?q" using assms by simp
  have i: "x * 2 powi (- ?q) = of_int i" using assms(3) by simp
  have "of_int (round_even (x * 2 powi (- ?q))) * (2::rat) powi ?q = x * (2 powi (- ?q) * 2 powi ?q)"
    unfolding i round_even_int unfolding i [symmetric] by (simp only: mult.assoc)
  also have "(2::rat) powi (- ?q) * 2 powi ?q = 1" unfolding minus_diff_eq by (rule powi2_cancel)
  finally have "of_int (round_even (x * 2 powi (- ?q))) * (2::rat) powi ?q = x" by simp
  then show ?thesis using assms(1) by (simp only: round_to_def Let_def q) simp
qed

lemma fp_of_int_exact:
  assumes "0 < n" and "n < 2 ^ precision m" and "min_exp m \<le> 0" and "int (precision m) \<le> max_exp m"
  shows "fp_of_int m n = Fin (of_int n)"
proof -
  let ?x = "of_int n :: rat"
  let ?e = "ilog2 ?x"
  have x1: "1 \<le> ?x" using assms(1) by simp
  then have pos: "0 < ?x" by linarith
  have e0: "0 \<le> ?e" using x1 by (simp add: ilog2_def)
  have xp: "?x < 2 powi (int (precision m))"
    using assms(2) by (simp add: powi2_int)
  have "(2::rat) powi ?e < 2 powi (int (precision m))"
    using ilog2_bounds [OF pos] xp by (blast intro: order.strict_trans1)
  then have e1: "?e < int (precision m)" by (rule powi2_less)
  have "?x * 2 powi (int (precision m) - 1 - ?e) = of_int (n * 2 ^ nat (int (precision m) - 1 - ?e))"
    using e1 by (simp add: powi2_int)
  from round_to_exact [OF pos _ this] have r: "round_to m ?x = ?x" using assms(3) e0 by simp
  have "?x < 2 powi (max_exp m + 1)"
  proof -
    have "(2::rat) powi (int (precision m)) \<le> 2 powi (max_exp m + 1)"
      using assms(4) by (intro power_int_increasing) simp_all
    with xp show ?thesis by (rule order.strict_trans2)
  qed
  then show ?thesis using r pos by (simp add: fp_of_int_def fp_of_rat_def Let_def)
qed

lemma fp_of_rat_0 [simp]: "fp_of_rat m 0 = Fin 0"
proof -
  have "(0::rat) < 2 powi (max_exp m + 1)" by (rule zero_less_power_int) simp
  then have "\<not> 2 powi (max_exp m + 1) \<le> (0::rat)" by linarith
  then show ?thesis by (simp add: fp_of_rat_def round_to_def)
qed

lemma round_to_exact_signed:
  assumes "x \<noteq> 0" and "min_exp m \<le> ilog2 \<bar>x\<bar>"
    and "x * 2 powi (int (precision m) - 1 - ilog2 \<bar>x\<bar>) = of_int i"
  shows "round_to m x = x"
proof -
  let ?q = "ilog2 \<bar>x\<bar> - (int (precision m) - 1)"
  have q: "max (ilog2 \<bar>x\<bar>) (min_exp m) - (int (precision m) - 1) = ?q" using assms by simp
  have i: "x * 2 powi (- ?q) = of_int i" using assms(3) by simp
  have "of_int (round_even (x * 2 powi (- ?q))) * (2::rat) powi ?q = x * (2 powi (- ?q) * 2 powi ?q)"
    unfolding i round_even_int unfolding i [symmetric] by (simp only: mult.assoc)
  also have "(2::rat) powi (- ?q) * 2 powi ?q = 1" unfolding minus_diff_eq by (rule powi2_cancel)
  finally have "of_int (round_even (x * 2 powi (- ?q))) * (2::rat) powi ?q = x" by simp
  then show ?thesis using assms(1) by (simp only: round_to_def Let_def q) simp
qed

text \<open>An integer is exact in \<open>f64\<close> when it has at most 53 bits after its trailing zeros are taken off.\<close>

lemma f64_exact:
  assumes "\<bar>k\<bar> < 2 ^ 53" and "j \<le> 100"
  shows "fp_of_rat f64 (of_int (k * 2 ^ j)) = Fin (of_int (k * 2 ^ j))"
proof (cases "k = 0")
  case False
  let ?x = "of_int (k * 2 ^ j) :: rat"
  let ?e = "ilog2 \<bar>?x\<bar>"
  have x0: "?x \<noteq> 0" using False by simp
  have "1 \<le> \<bar>k * 2 ^ j\<bar>" using False by (simp add: int_one_le_iff_zero_less)
  then have x1: "1 \<le> \<bar>?x\<bar>" by (metis of_int_abs of_int_1_le_iff)
  then have e0: "0 \<le> ?e" by (simp add: ilog2_def)
  have "\<bar>k * 2 ^ j\<bar> < 2 ^ (53 + j)" using assms(1) by (simp add: abs_mult power_add)
  then have "\<bar>?x\<bar> < of_int (2 ^ (53 + j))" by (metis of_int_abs of_int_less_iff)
  then have lt: "\<bar>?x\<bar> < 2 powi (53 + int j)" by (simp add: powi2_int nat_add_distrib)
  have "(2::rat) powi ?e \<le> \<bar>?x\<bar>" using ilog2_bounds [of "\<bar>?x\<bar>"] x0 by simp
  with lt have e1: "?e < 53 + int j" by (intro powi2_less) (rule order.strict_trans1)
  have "?x * 2 powi (52 - ?e) = of_int k * (2 powi int j * 2 powi (52 - ?e))"
    by (simp add: powi2_int)
  also have "(2::rat) powi int j * 2 powi (52 - ?e) = 2 powi (52 + int j - ?e)"
    unfolding powi2_add by (simp add: algebra_simps)
  also have "\<dots> = of_int (2 ^ nat (52 + int j - ?e))" using e1 by (simp add: powi2_int)
  finally have "?x * 2 powi (int (precision f64) - 1 - ?e) = of_int (k * 2 ^ nat (52 + int j - ?e))"
    by (simp add: f64_def)
  from round_to_exact_signed [OF x0 _ this] have r: "round_to f64 ?x = ?x" using e0 by (simp add: f64_def)
  have "(2::rat) powi (53 + int j) \<le> 2 powi 1024"
    using assms(2) by (intro power_int_increasing) simp_all
  with lt have "\<bar>?x\<bar> < 2 powi (max_exp f64 + 1)" by (simp add: f64_def)
  then show ?thesis using r by (simp add: fp_of_rat_def Let_def)
qed simp

lemma f64_finite_fraction:
  assumes "0 < x" and "x \<le> 1"
  shows "\<exists>y. fp_of_rat f64 x = Fin y"
proof -
  define q where "q = max (ilog2 \<bar>x\<bar>) (min_exp f64) - (int (precision f64) - 1)"
  let ?y = "x * 2 powi (- q)"
  have "(2::rat) powi ilog2 x \<le> 2 powi 0" using ilog2_bounds [OF assms(1)] assms(2) by simp
  then have "ilog2 x < 1" using powi2_less [of "ilog2 x" 1] by simp
  then have q: "q \<le> 0" using assms(1) by (simp add: q_def f64_def)
  have y0: "0 < ?y" using assms(1) by simp
  have le: "of_int (round_even ?y) \<le> ?y + 1"
  proof -
    have "round_even ?y \<le> \<lceil>?y\<rceil>" by (rule round_even_le) simp
    then have "(of_int (round_even ?y) :: rat) \<le> of_int \<lceil>?y\<rceil>" by simp
    also have "\<dots> \<le> ?y + 1" by linarith
    finally show ?thesis .
  qed
  have ge: "0 \<le> round_even ?y" using round_even_ge [of "-1" ?y] y0 by simp
  have r: "round_to f64 x = of_int (round_even ?y) * 2 powi q"
    using assms(1) by (simp add: round_to_def q_def Let_def)
  have "of_int (round_even ?y) * (2::rat) powi q \<le> (?y + 1) * 2 powi q" using le by (intro mult_right_mono) simp_all
  also have "\<dots> = x + 2 powi q"
    by (simp add: ring_distribs mult.assoc powi2_add)
  also have "(2::rat) powi q \<le> 2 powi 0" using q by (intro power_int_increasing) simp_all
  finally have "round_to f64 x \<le> x + 1" unfolding r by simp
  also have "\<dots> < 2 ^ 2" using assms(2) by simp
  also have "\<dots> \<le> (2::rat) ^ 1024" by (rule power_increasing) simp_all
  finally have "round_to f64 x < 2 powi (max_exp f64 + 1)" by (simp add: f64_def)
  moreover have "0 \<le> round_to f64 x" unfolding r using ge by simp
  ultimately show ?thesis by (simp add: fp_of_rat_def Let_def)
qed

lemma f32_of_int: "0 < n \<Longrightarrow> n < 2 ^ 24 \<Longrightarrow> fp_of_int f32 n = Fin (of_int n)"
  by (rule fp_of_int_exact) (simp_all add: f32_def)

lemma half_exact:
  assumes "0 < k" and "k < 2 ^ precision m" and "min_exp m \<le> -1" and "1 \<le> precision m" and "int (precision m) \<le> max_exp m + 2"
  shows "fp_of_rat m (of_int k / 2) = Fin (of_int k / 2)"
proof -
  let ?x = "of_int k / 2 :: rat" and ?p = "int (precision m) - 1"
  let ?e = "ilog2 ?x"
  have minus_one: "(2::rat) powi (- 1) = 1 / 2" by (simp add: power_int_def)
  have pos: "0 < ?x" using assms(1) by simp
  have e: "2 powi ?e \<le> ?x" "?x < 2 powi (?e + 1)" using ilog2_bounds [OF pos] by simp_all
  have "(2::rat) powi (- 1) \<le> ?x" using assms(1) minus_one by simp
  then have "(2::rat) powi (- 1) < 2 powi (?e + 1)" using e(2) by (rule order.strict_trans1)
  then have e0: "- 1 \<le> ?e" by (drule_tac powi2_less) linarith
  have "of_int k < (of_int (2 ^ precision m) :: rat)" using assms(2) by (simp only: of_int_less_iff)
  then have "of_int k < (2::rat) powi int (precision m)" by (simp add: powi2_int)
  also have "(2::rat) powi int (precision m) = 2 powi (?p + 1)" by simp
  also have "\<dots> = 2 powi ?p * 2" unfolding powi2_add [symmetric] by simp
  finally have top: "?x < 2 powi ?p" by simp
  have "(2::rat) powi ?e < 2 powi ?p" using e(1) top by (rule order.strict_trans1)
  then have e1: "?e \<le> ?p - 1" by (drule_tac powi2_less) linarith
  have "?x * 2 powi (?p - ?e) = of_int k * (2 powi (- 1) * 2 powi (?p - ?e))" using minus_one by simp
  also have "\<dots> = of_int k * 2 powi (?p - 1 - ?e)" unfolding powi2_add by (simp add: algebra_simps)
  also have "\<dots> = of_int (k * 2 ^ nat (?p - 1 - ?e))" using e1 by (simp add: powi2_int)
  finally have i: "?x * 2 powi (int (precision m) - 1 - ?e) = of_int (k * 2 ^ nat (?p - 1 - ?e))" .
  have r: "round_to m ?x = ?x" using round_to_exact [OF pos _ i] e0 assms(3) by simp
  have "(2::rat) powi ?p \<le> 2 powi (max_exp m + 1)" using assms(5) by (intro power_int_increasing) simp_all
  with top have "?x < 2 powi (max_exp m + 1)" by (rule order.strict_trans2)
  then show ?thesis using r pos by (simp add: fp_of_rat_def Let_def)
qed

lemma f32_half: "0 < k \<Longrightarrow> k < 2 ^ 24 \<Longrightarrow> fp_of_rat f32 (of_int k / 2) = Fin (of_int k / 2)"
  by (rule half_exact) (simp_all add: f32_def)

lemma f64_half: "0 < k \<Longrightarrow> k < 2 ^ 53 \<Longrightarrow> fp_of_rat f64 (of_int k / 2) = Fin (of_int k / 2)"
  by (rule half_exact) (simp_all add: f64_def)

lemma rat_trunc_half: "0 \<le> k \<Longrightarrow> rat_trunc (of_int k / 2) = k div 2"
  by (simp add: rat_trunc_def floor_divide_of_int_eq [of k 2, simplified])

text \<open>
  The quotient of two such integers is rounded, and may be rounded up to an integer, but never
  across one: the next lower integer is more than half a unit in the last place away.
\<close>

lemma f32_ceil_quotient:
  assumes a: "0 < a" "a < 2 ^ 24" and b: "0 < b" "b < 2 ^ 24"
  shows "fceil (fdiv f32 (fp_of_int f32 a) (fp_of_int f32 b)) = Fin (of_int ((a + b - 1) div b))"
proof -
  define q :: rat where "q = of_int a / of_int b"
  define e where "e = ilog2 q"
  have q0: "0 < q" using a b by (simp add: q_def)
  have e: "2 powi e \<le> q" "q < 2 powi (e + 1)" using ilog2_bounds [OF q0] by (simp_all add: e_def)
  have qb: "q * of_int b = of_int a" using b by (simp add: q_def)
  have "q \<le> of_int a" using a b by (simp add: q_def field_simps)
  moreover have "(of_int a :: rat) < of_int (2 ^ 24)" using a(2) by (simp only: of_int_less_iff)
  ultimately have "(2::rat) powi e < 2 powi 24" using e(1) by simp
  then have e_hi: "e \<le> 23" using powi2_less by fastforce
  have "(of_int b :: rat) < of_int (2 ^ 24)" using b(2) by (simp only: of_int_less_iff)
  then have "1 / 2 ^ 24 < q" using a b by (simp add: q_def field_simps)
  then have "(2::rat) powi (- 24) < 2 powi (e + 1)" using e(2) by (simp add: power_int_minus field_simps)
  then have e_lo: "- 25 < e" using powi2_less by fastforce
  define s where "s = (2::int) ^ nat (23 - e)"
  have s: "(2::rat) powi (23 - e) = of_int s" using e_hi by (simp add: powi2_int s_def)
  have s0: "0 < s" by (simp add: s_def)
  define r where "r = round_even (q * of_int s)"
  have "round_to f32 q = of_int r * 2 powi (- (23 - e))"
    using q0 e_lo by (simp add: round_to_def Let_def f32_def e_def [symmetric] s r_def)
  also have "\<dots> = of_int r / of_int s" by (simp only: power_int_minus s divide_inverse)
  finally have rnd: "round_to f32 q = of_int r / of_int s" .
  define n where "n = (a + b - 1) div b"
  have n_hi: "a \<le> n * b" and n_lo: "(n - 1) * b + 1 \<le> a"
  proof -
    have "a + b - 1 = n * b + (a + b - 1) mod b" by (simp add: n_def)
    moreover have "0 \<le> (a + b - 1) mod b" "(a + b - 1) mod b < b" using b by simp_all
    ultimately show "a \<le> n * b" and "(n - 1) * b + 1 \<le> a" by (auto simp: algebra_simps)
  qed
  have "q \<le> of_int n"
  proof -
    have "(of_int a :: rat) \<le> of_int (n * b)" using n_hi by (simp only: of_int_le_iff)
    then show ?thesis using b by (simp add: q_def field_simps)
  qed
  then have "q * of_int s \<le> of_int (n * s)" using s0 by simp
  then have r_hi: "r \<le> n * s" unfolding r_def by (rule round_even_le)
  have r_lo: "(n - 1) * s + 1 \<le> r"
  proof -
    have "(2::rat) powi e * of_int b \<le> of_int a"
      using e(1) b by (metis mult_right_mono of_int_0_le_iff less_imp_le qb)
    then have "(2::rat) powi e * of_int b < 2 powi 24" using a(2) \<open>(of_int a :: rat) < of_int (2 ^ 24)\<close>
      by simp
    then have "(2::rat) powi (- e) * (2 powi e * of_int b) < 2 powi (- e) * 2 powi 24"
      by (intro mult_strict_left_mono) simp_all
    also have "(2::rat) powi (- e) * 2 powi 24 = 2 powi (24 - e)"
      by (simp only: powi2_add) simp
    finally have "of_int b < (2::rat) powi (24 - e)"
      by (simp only: mult.assoc [symmetric] powi2_add) simp
    also have "(2::rat) powi (24 - e) = 2 * of_int s"
      using s power_int_add [of "2::rat" 1 "23 - e"] by (simp add: algebra_simps)
    finally have bs: "of_int b < 2 * (of_int s :: rat)" .
    have "of_int ((n - 1) * b + 1) \<le> (of_int a :: rat)" using n_lo by (simp only: of_int_le_iff)
    then have "of_int ((n - 1) * b + 1) / of_int b \<le> q"
      unfolding q_def using b by (intro divide_right_mono) simp_all
    moreover have "of_int ((n - 1) * b + 1) / (of_int b :: rat) = of_int (n - 1) + 1 / of_int b"
      using b by (simp add: add_divide_distrib)
    ultimately have "of_int (n - 1) + 1 / of_int b \<le> q" by simp
    then have "(of_int (n - 1) + 1 / of_int b) * of_int s \<le> q * of_int s"
      using s0 by (intro mult_right_mono) simp_all
    then have "of_int (n - 1) * of_int s + of_int s / of_int b \<le> q * of_int s"
      by (simp only: distrib_right) simp
    moreover have "1 / 2 < of_int s / (of_int b :: rat)" using bs b by (simp add: field_simps)
    ultimately have "of_int (n - 1) * of_int s + 1 / 2 < q * of_int s" by linarith
    then have "of_int ((n - 1) * s) + 1 / 2 < q * of_int s" by simp
    then show ?thesis unfolding r_def by (rule round_even_ge)
  qed
  have ceil: "\<lceil>of_int r / (of_int s :: rat)\<rceil> = n"
  proof (rule ceiling_unique)
    have "(of_int ((n - 1) * s) :: rat) < of_int r" using r_lo by (simp only: of_int_less_iff)
    then show "of_int n - 1 < of_int r / (of_int s :: rat)" using s0 by (simp add: field_simps)
    have "(of_int r :: rat) \<le> of_int (n * s)" using r_hi by (simp only: of_int_le_iff)
    then show "of_int r / (of_int s :: rat) \<le> of_int n" using s0 by (simp add: field_simps)
  qed
  have fin: "fp_of_rat f32 q = Fin (of_int r / of_int s)"
  proof -
    have n_small: "n \<le> 2 ^ 24"
    proof -
      show ?thesis
      proof (rule ccontr)
        assume "\<not> n \<le> 2 ^ 24"
        then have "2 ^ 24 * 1 \<le> (n - 1) * b" using b by (intro mult_mono) simp_all
        with n_lo a show False by simp
      qed
    qed
    have "0 \<le> (n - 1) * s"
    proof -
      have "0 < n * b" using n_hi a by linarith
      then have "0 < n" using b by (simp add: zero_less_mult_iff)
      then show ?thesis using s0 by simp
    qed
    then have "0 \<le> r" using r_lo by linarith
    have "of_int r / (of_int s :: rat) \<le> of_int n" using ceil by (metis le_of_int_ceiling)
    also have "\<dots> \<le> of_int (2 ^ 24)" using n_small by (simp only: of_int_le_iff)
    also have "\<dots> < (2::rat) powi 128" by (simp add: power_int_def)
    finally have "\<not> (2::rat) powi (max_exp f32 + 1) \<le> \<bar>of_int r / of_int s\<bar>"
      using \<open>0 \<le> r\<close> s0 by (simp add: f32_def)
    then show ?thesis by (simp add: fp_of_rat_def rnd Let_def)
  qed
  show ?thesis using a b fin ceil by (simp add: f32_of_int q_def [symmetric] n_def)
qed

lemma fp_to_int_of_int [simp]:
  "lo \<le> i \<Longrightarrow> i \<le> hi \<Longrightarrow> fp_to_int lo hi (Fin (of_int i)) = Inr i"
  by (simp add: rat_trunc_def)

lemma fp_to_int_range: "fp_to_int lo hi x = Inr i \<Longrightarrow> lo \<le> i \<and> i \<le> hi"
  by (cases x) (auto split: if_splits)

lemma fp_to_int32_range: "fp_to_int32 x = Inr i \<Longrightarrow> int32_range i"
  unfolding fp_to_int32_def int32_range_def by (drule fp_to_int_range) linarith

lemma fle_not_NaN: "fle x y \<Longrightarrow> x \<noteq> NaN \<and> y \<noteq> NaN"
  by (cases x; cases y) auto

lemma flt_imp_fle: "flt x y \<Longrightarrow> fle x y"
  by (cases x; cases y) auto

lemma fle_trans: "fle x y \<Longrightarrow> fle y z \<Longrightarrow> fle x z"
  by (cases x; cases y; cases z) auto

lemma flt_irrefl [simp]: "\<not> flt x x"
  by (cases x) auto

lemma flt_trans: "flt x y \<Longrightarrow> flt y z \<Longrightarrow> flt x z"
  by (cases x; cases y; cases z) auto

lemma fle_antisym: "fle x y \<Longrightarrow> fle y x \<Longrightarrow> x = y"
  by (cases x; cases y) auto

lemma not_flt_iff: "x \<noteq> NaN \<Longrightarrow> y \<noteq> NaN \<Longrightarrow> \<not> flt x y \<longleftrightarrow> fle y x"
  by (cases x; cases y) auto

lemma fle_refl [simp]: "fle x x \<longleftrightarrow> x \<noteq> NaN"
  by (cases x) auto

section \<open>Rounding and powers of two\<close>

lemma round_even_floor: "\<lfloor>x\<rfloor> \<le> round_even x"
  by (simp add: round_even_def Let_def)

lemma round_even_abs_le: "\<bar>x\<bar> \<le> of_int n \<Longrightarrow> \<bar>round_even x\<bar> \<le> n"
  using round_even_le [of x n] round_even_floor [of x] by (simp add: abs_le_iff) linarith

lemma round_even_abs_ge:
  assumes "of_int n \<le> \<bar>x\<bar>"
  shows "n \<le> \<bar>round_even x\<bar>"
proof (cases "0 \<le> x")
  case True
  then show ?thesis using assms round_even_floor [of x] by (simp add: le_floor_iff) linarith
next
  case False
  then have "x \<le> of_int (- n)" using assms by simp
  from round_even_le [OF this] show ?thesis by linarith
qed

text \<open>Rounding does not cross a power of two.\<close>

lemma round_to_le_power:
  assumes "\<bar>x\<bar> \<le> 2 powi b" and "min_exp m \<le> b" and "0 < precision m"
  shows "\<bar>round_to m x\<bar> \<le> 2 powi b"
proof (cases "x = 0")
  case False
  define q where "q = max (ilog2 \<bar>x\<bar>) (min_exp m) - (int (precision m) - 1)"
  have "(2::rat) powi ilog2 \<bar>x\<bar> \<le> \<bar>x\<bar>" using ilog2_bounds [of "\<bar>x\<bar>"] False by simp
  then have "(2::rat) powi ilog2 \<bar>x\<bar> \<le> 2 powi b" using assms(1) by linarith
  also have "\<dots> < 2 powi (b + 1)" by (simp add: power_int_add)
  finally have "ilog2 \<bar>x\<bar> < b + 1" by (rule powi2_less)
  then have q: "q \<le> b" using assms(2,3) unfolding q_def by linarith
  have "\<bar>x\<bar> * 2 powi (- q) \<le> 2 powi b * 2 powi (- q)" using assms(1) by (rule mult_right_mono) simp
  also have "\<dots> = of_int (2 ^ nat (b - q))" using q by (simp add: powi2_add powi2_int)
  finally have "\<bar>x * 2 powi (- q)\<bar> \<le> of_int (2 ^ nat (b - q))" by (simp add: abs_mult)
  then have "\<bar>round_even (x * 2 powi (- q))\<bar> \<le> 2 ^ nat (b - q)" by (rule round_even_abs_le)
  then have "\<bar>of_int (round_even (x * 2 powi (- q))) :: rat\<bar> \<le> of_int (2 ^ nat (b - q))"
    by (simp only: of_int_abs [symmetric] of_int_le_iff)
  then have "\<bar>of_int (round_even (x * 2 powi (- q)))\<bar> * 2 powi q \<le> of_int (2 ^ nat (b - q)) * (2::rat) powi q"
    by (rule mult_right_mono) simp
  also have "\<dots> = 2 powi b" using q by (simp only: powi2_int [symmetric] powi2_add) simp
  finally show ?thesis using False by (simp add: round_to_def q_def [symmetric] abs_mult)
qed (simp add: round_to_def)

lemma round_to_ge_power:
  assumes "2 powi a \<le> \<bar>x\<bar>" and "min_exp m \<le> a" and "0 < precision m"
  shows "2 powi a \<le> \<bar>round_to m x\<bar>"
proof -
  let ?e = "ilog2 \<bar>x\<bar>"
  define q where "q = max ?e (min_exp m) - (int (precision m) - 1)"
  have "(0::rat) < 2 powi a" by simp
  with assms(1) have "\<bar>x\<bar> \<noteq> 0" by linarith
  then have x0: "x \<noteq> 0" by simp
  have e: "2 powi ?e \<le> \<bar>x\<bar>" "\<bar>x\<bar> < 2 powi (?e + 1)" using ilog2_bounds [of "\<bar>x\<bar>"] x0 by simp_all
  have "(2::rat) powi a < 2 powi (?e + 1)" using assms(1) e(2) by linarith
  then have ae: "a < ?e + 1" by (rule powi2_less)
  then have q: "q = ?e - (int (precision m) - 1)" using assms(2) unfolding q_def by linarith
  have qe: "q \<le> ?e" using assms(3) unfolding q by linarith
  have "2 powi ?e * 2 powi (- q) \<le> \<bar>x\<bar> * 2 powi (- q)" using e(1) by (rule mult_right_mono) simp
  moreover have "(2::rat) powi ?e * 2 powi (- q) = of_int (2 ^ nat (?e - q))"
    using qe by (simp add: powi2_add powi2_int)
  ultimately have "of_int (2 ^ nat (?e - q)) \<le> \<bar>x * 2 powi (- q)\<bar>" by (simp add: abs_mult)
  then have "2 ^ nat (?e - q) \<le> \<bar>round_even (x * 2 powi (- q))\<bar>" by (rule round_even_abs_ge)
  then have "of_int (2 ^ nat (?e - q)) \<le> \<bar>of_int (round_even (x * 2 powi (- q))) :: rat\<bar>"
    by (simp only: of_int_abs [symmetric] of_int_le_iff)
  then have "of_int (2 ^ nat (?e - q)) * (2::rat) powi q \<le> \<bar>of_int (round_even (x * 2 powi (- q)))\<bar> * 2 powi q"
    by (rule mult_right_mono) simp
  moreover have "of_int (2 ^ nat (?e - q)) * (2::rat) powi q = 2 powi ?e"
    using qe by (simp only: powi2_int [symmetric] powi2_add) simp
  ultimately have "2 powi ?e \<le> \<bar>of_int (round_even (x * 2 powi (- q)))\<bar> * (2::rat) powi q" by linarith
  then have "2 powi ?e \<le> \<bar>round_to m x\<bar>" using x0 by (simp add: round_to_def q_def [symmetric] abs_mult)
  moreover have "(2::rat) powi a \<le> 2 powi ?e" using ae by (intro power_int_increasing) simp_all
  ultimately show ?thesis by linarith
qed

lemma fp_of_rat_bounded:
  assumes "\<bar>x\<bar> \<le> 2 powi b" and "min_exp m \<le> b" and "b \<le> max_exp m" and "0 < precision m"
  obtains y where "fp_of_rat m x = Fin y" and "\<bar>y\<bar> \<le> 2 powi b"
proof
  have le: "\<bar>round_to m x\<bar> \<le> 2 powi b" by (rule round_to_le_power [OF assms(1,2,4)])
  have "(2::rat) powi b < 2 powi (max_exp m + 1)" using assms(3) by (intro power_int_strict_increasing) simp_all
  with le have "\<not> 2 powi (max_exp m + 1) \<le> \<bar>round_to m x\<bar>" by linarith
  then show "fp_of_rat m x = Fin (round_to m x)" by (simp add: fp_of_rat_def)
  show "\<bar>round_to m x\<bar> \<le> 2 powi b" by (rule le)
qed

section \<open>A total order of floating point values\<close>

text \<open>
  The order of the numbers and infinities is that of \<open><\<close>; not-a-number is put last, which only makes the
  order total: no comparison of the code holds of it.
\<close>

instantiation fp :: linorder
begin

definition less_eq_fp :: "fp \<Rightarrow> fp \<Rightarrow> bool" where
  "less_eq_fp x y \<longleftrightarrow> y = NaN \<or> fle x y"

definition less_fp :: "fp \<Rightarrow> fp \<Rightarrow> bool" where
  "less_fp x y \<longleftrightarrow> x \<noteq> NaN \<and> (y = NaN \<or> flt x y)"

instance
proof
  fix x y z :: fp
  show "x < y \<longleftrightarrow> x \<le> y \<and> \<not> y \<le> x"
    by (cases x; cases y) (auto simp: less_eq_fp_def less_fp_def)
  show "x \<le> x" by (cases x) (auto simp: less_eq_fp_def)
  show "x \<le> z" if "x \<le> y" and "y \<le> z"
    using that fle_trans [of x y z] fle_not_NaN [of y z] by (auto simp: less_eq_fp_def)
  show "x = y" if "x \<le> y" and "y \<le> x"
    using that fle_antisym [of x y] fle_not_NaN by (auto simp: less_eq_fp_def)
  show "x \<le> y \<or> y \<le> x" by (cases x; cases y) (auto simp: less_eq_fp_def)
qed

end

lemma flt_less: "flt x y \<longleftrightarrow> y \<noteq> NaN \<and> x < y"
  by (cases x; cases y) (auto simp: less_fp_def)

lemma fle_less_eq: "fle x y \<longleftrightarrow> y \<noteq> NaN \<and> x \<le> y"
  by (cases x; cases y) (auto simp: less_eq_fp_def)

end
