(* ===== verification/RasterTiles.thy ===== *)
theory RasterTiles
  imports Tiling Ieee
begin

text \<open>
  The routines that cut a raster into rectangles:
  \<^item> \<open>TOPSARDeburstRectanglesGenerator\<close>
    (\<^verbatim>\<open>algs/topsar-deburst-op/src/topsar_deburst_rectangle_generator.cc\<close>) and
    \<open>shapeutils::GenerateRectanglesForRaster\<close> (\<^verbatim>\<open>util/common/include/shapes_util.h\<close>, used by the merge
    operator): as many tiles as the rounded-up \<open>float\<close> quotient, the last one shorter;
  \<^item> \<open>CalculateTiles\<close> of thermal noise removal and of the Sentinel-1 calibration: one tile more than
    the integer quotient, each cut at the raster's border with \<open>shapeutils::GetIntersection\<close>, empty
    ones dropped.
  Both are interpretations of \<open>axis_tiling\<close>, so both partition the raster.
\<close>

section \<open>The number of tiles\<close>

text \<open>
  \<open>static_cast<short>(std::ceil(static_cast<float>(a) / static_cast<float>(b)))\<close>: undefined when the
  number does not fit into 16 bits.
\<close>

definition GetNumberOfRectanglesDim :: "int \<Rightarrow> int \<Rightarrow> int res" where
  "GetNumberOfRectanglesDim band_size_dim rectangle_size_dim =
     fp_to_int (- (2 ^ 15)) (2 ^ 15 - 1)
       (fceil (fdiv f32 (fp_of_int f32 band_size_dim) (fp_of_int f32 rectangle_size_dim)))"

definition ceil_div :: "int \<Rightarrow> int \<Rightarrow> int" where
  "ceil_div a b = (a + b - 1) div b"

lemma ceil_div_bounds:
  assumes "0 < b"
  shows "a \<le> ceil_div a b * b" and "(ceil_div a b - 1) * b < a"
proof -
  have "a + b - 1 = ceil_div a b * b + (a + b - 1) mod b" by (simp add: ceil_div_def)
  moreover have "0 \<le> (a + b - 1) mod b" "(a + b - 1) mod b < b" using assms by simp_all
  ultimately show "a \<le> ceil_div a b * b" and "(ceil_div a b - 1) * b < a"
    by (auto simp: algebra_simps)
qed

lemma ceil_div_pos:
  assumes "0 < a" and "0 < b"
  shows "0 < ceil_div a b"
proof -
  have "0 < ceil_div a b * b" using ceil_div_bounds(1) [of b a] assms by linarith
  then show ?thesis using assms by (simp add: zero_less_mult_iff)
qed

lemma ceil_div_one: "0 < a \<Longrightarrow> a \<le> b \<Longrightarrow> ceil_div a b = 1"
  by (simp add: ceil_div_def div_pos_geq)

lemma ceil_div_unique:
  assumes "0 < b" and "a \<le> m * b" and "(m - 1) * b < a"
  shows "ceil_div a b = m"
proof -
  have "(ceil_div a b - 1) * b < m * b" using ceil_div_bounds(2) [of b a] assms by linarith
  then have "ceil_div a b - 1 < m" using assms(1) by (simp add: mult_less_cancel_right)
  moreover have "(m - 1) * b < ceil_div a b * b" using ceil_div_bounds(1) [of b a] assms by linarith
  then have "m - 1 < ceil_div a b" using assms(1) by (simp add: mult_less_cancel_right)
  ultimately show ?thesis by linarith
qed

definition float_sizes :: "int \<Rightarrow> int \<Rightarrow> bool" where
  "float_sizes sz n \<longleftrightarrow> 0 < sz \<and> sz < 2 ^ 24 \<and> 0 < n \<and> n < 2 ^ 24 \<and> ceil_div n sz < 2 ^ 15"

lemma GetNumberOfRectanglesDim_exact:
  assumes "float_sizes sz n"
  shows "GetNumberOfRectanglesDim n sz = Inr (ceil_div n sz)"
proof -
  have "fceil (fdiv f32 (fp_of_int f32 n) (fp_of_int f32 sz)) = Fin (of_int (ceil_div n sz))"
    using assms by (simp add: float_sizes_def f32_ceil_quotient ceil_div_def)
  moreover have "fp_to_int (- (2 ^ 15)) (2 ^ 15 - 1) (Fin (of_int (ceil_div n sz))) = Inr (ceil_div n sz)"
    using assms ceil_div_pos [of n sz] by (intro fp_to_int_of_int) (simp_all add: float_sizes_def)
  ultimately show ?thesis by (simp only: GetNumberOfRectanglesDim_def)
qed

section \<open>Rounded-up tilings\<close>

definition GenerateRectangles :: "int \<Rightarrow> int \<Rightarrow> int \<Rightarrow> int \<Rightarrow> rectangle list res" where
  "GenerateRectangles band_x_size band_y_size rectangle_x_size rectangle_y_size =
     bind_res (GetNumberOfRectanglesDim band_x_size rectangle_x_size) (\<lambda>x_rectangles.
     bind_res (GetNumberOfRectanglesDim band_y_size rectangle_y_size) (\<lambda>y_rectangles.
     bind_res (guard (0 \<le> y_rectangles * x_rectangles) Logic_error) (\<lambda>_.
     Inr (concat (map (\<lambda>rectangle_y.
       let (y_min, y_max) =
             (if rectangle_y_size \<ge> band_y_size then (0, band_y_size - 1)
              else let y_min = (if rectangle_y = 0 then 0 else rectangle_y_size * rectangle_y)
                   in (y_min, if rectangle_y = y_rectangles - 1 then band_y_size - 1
                              else (y_min + rectangle_y_size) - 1))
       in map (\<lambda>rectangle_x.
            let (x_min, x_max) =
                  (if rectangle_x_size \<ge> band_x_size then (0, band_x_size - 1)
                   else let x_min = (if rectangle_x = 0 then 0 else rectangle_x_size * rectangle_x)
                        in (x_min, if rectangle_x = x_rectangles - 1 then band_x_size - 1
                                   else (x_min + rectangle_x_size) - 1))
            in mk_rect x_min y_min (x_max - x_min + 1) (y_max - y_min + 1))
          [0..x_rectangles - 1]) [0..y_rectangles - 1])))))"

text \<open>\<open>GenerateRectanglesForRaster\<close> is a second copy of the same code, on the plain rectangle type.\<close>

definition GenerateRectanglesForRaster :: "int \<Rightarrow> int \<Rightarrow> int \<Rightarrow> int \<Rightarrow> rectangle list res" where
  "GenerateRectanglesForRaster raster_size_x raster_size_y rectangle_size_x rectangle_size_y =
     bind_res (fp_to_int (- (2 ^ 15)) (2 ^ 15 - 1)
       (fceil (fdiv f32 (fp_of_int f32 raster_size_x) (fp_of_int f32 rectangle_size_x)))) (\<lambda>x_rectangles.
     bind_res (fp_to_int (- (2 ^ 15)) (2 ^ 15 - 1)
       (fceil (fdiv f32 (fp_of_int f32 raster_size_y) (fp_of_int f32 rectangle_size_y)))) (\<lambda>y_rectangles.
     bind_res (guard (0 \<le> y_rectangles * x_rectangles) Logic_error) (\<lambda>_.
     Inr (concat (map (\<lambda>rectangle_y.
       let (y_min, y_max) =
             (if rectangle_size_y \<ge> raster_size_y then (0, raster_size_y - 1)
              else let y_min = (if rectangle_y = 0 then 0 else rectangle_size_y * rectangle_y)
                   in (y_min, if rectangle_y = y_rectangles - 1 then raster_size_y - 1
                              else (y_min + rectangle_size_y) - 1))
       in map (\<lambda>rectangle_x.
            let (x_min, x_max) =
                  (if rectangle_size_x \<ge> raster_size_x then (0, raster_size_x - 1)
                   else let x_min = (if rectangle_x = 0 then 0 else rectangle_size_x * rectangle_x)
                        in (x_min, if rectangle_x = x_rectangles - 1 then raster_size_x - 1
                                   else (x_min + rectangle_size_x) - 1))
            in mk_rect x_min y_min (x_max - x_min + 1) (y_max - y_min + 1))
          [0..x_rectangles - 1]) [0..y_rectangles - 1])))))"

text \<open>One axis of both: size of a tile and length of the axis.\<close>

definition float_axis :: "int \<times> int \<Rightarrow> bool" where
  "float_axis c = float_sizes (fst c) (snd c)"

definition axis_pieces :: "int \<times> int \<Rightarrow> int" where
  "axis_pieces c = ceil_div (snd c) (fst c)"

definition float_first :: "int \<times> int \<Rightarrow> int \<Rightarrow> int" where
  "float_first c k = (if fst c \<ge> snd c then 0 else if k = 0 then 0 else fst c * k)"

definition float_last :: "int \<times> int \<Rightarrow> int \<Rightarrow> int" where
  "float_last c k =
     (if fst c \<ge> snd c then snd c - 1
      else if k = axis_pieces c - 1 then snd c - 1 else float_first c k + fst c - 1)"

lemma float_first_eq:
  assumes "float_axis c" and "0 \<le> k" and "k < axis_pieces c"
  shows "float_first c k = fst c * k"
proof (cases "fst c \<ge> snd c")
  case True
  with assms have "axis_pieces c = 1"
    by (simp add: axis_pieces_def ceil_div_one float_axis_def float_sizes_def)
  with assms True show ?thesis by (simp add: float_first_def)
next
  case False
  then show ?thesis by (simp add: float_first_def)
qed

lemma float_last_eq:
  assumes "float_axis c" and "0 \<le> k" and "k < axis_pieces c"
  shows "float_last c k = (if k = axis_pieces c - 1 then snd c - 1 else fst c * (k + 1) - 1)"
proof (cases "fst c \<ge> snd c")
  case True
  with assms have "axis_pieces c = 1"
    by (simp add: axis_pieces_def ceil_div_one float_axis_def float_sizes_def)
  with assms True show ?thesis by (simp add: float_last_def)
next
  case False
  then show ?thesis using float_first_eq [OF assms] by (simp add: float_last_def algebra_simps)
qed

interpretation float_tiles: axis_tiling float_axis axis_pieces float_first float_last snd
proof
  fix c :: "int \<times> int" and k :: int
  assume c: "float_axis c"
  then have pos: "0 < fst c" "0 < snd c" by (simp_all add: float_axis_def float_sizes_def)
  show some: "0 < axis_pieces c" using pos by (simp add: axis_pieces_def ceil_div_pos)
  show "float_first c 0 = 0" by (simp add: float_first_def)
  show "float_last c (axis_pieces c - 1) = snd c - 1" using some by (simp add: float_last_eq [OF c])
  show "float_first c k \<le> float_last c k" if k: "0 \<le> k" "k < axis_pieces c"
  proof (cases "k = axis_pieces c - 1")
    case True
    then have "k * fst c < snd c" using ceil_div_bounds(2) [OF pos(1), of "snd c"] by (simp add: axis_pieces_def)
    moreover have "float_first c k = k * fst c" by (simp add: float_first_eq [OF c k])
    moreover have "float_last c k = snd c - 1" using float_last_eq [OF c k] True by simp
    ultimately show ?thesis by linarith
  next
    case False
    then show ?thesis using pos by (simp add: float_first_eq [OF c k] float_last_eq [OF c k] algebra_simps)
  qed
  show "float_first c (k + 1) = float_last c k + 1" if k: "0 \<le> k" "k + 1 < axis_pieces c"
  proof -
    have "k < axis_pieces c" using k by simp
    then show ?thesis
      using k by (simp add: float_first_eq [OF c] float_last_eq [OF c])
  qed
qed

lemma GenerateRectangles_grid:
  assumes "float_axis (sx, nx)" and "float_axis (sy, ny)"
  shows "GenerateRectangles nx ny sx sy = Inr (float_tiles.grid (sx, nx) (sy, ny))"
proof -
  have px: "GetNumberOfRectanglesDim nx sx = Inr (axis_pieces (sx, nx))"
    and py: "GetNumberOfRectanglesDim ny sy = Inr (axis_pieces (sy, ny))"
    using assms by (simp_all add: GetNumberOfRectanglesDim_exact float_axis_def axis_pieces_def)
  have "0 < axis_pieces (sx, nx)" "0 < axis_pieces (sy, ny)"
    using float_tiles.some_piece assms by blast+
  then have nn: "0 \<le> axis_pieces (sy, ny) * axis_pieces (sx, nx)" by simp
  show ?thesis
    unfolding GenerateRectangles_def px py bind_res_simps guard_def if_P [OF nn]
      float_tiles.grid_def float_first_def float_last_def fst_conv snd_conv Let_def
    by (intro arg_cong [where f = Inr] arg_cong [where f = concat] map_cong refl) auto
qed

lemma GenerateRectanglesForRaster_eq:
  "GenerateRectanglesForRaster nx ny sx sy = GenerateRectangles nx ny sx sy"
  unfolding GenerateRectanglesForRaster_def GenerateRectangles_def GetNumberOfRectanglesDim_def ..

section \<open>Intersection and cut-off tilings\<close>

text \<open>
  \<open>shapeutils::GetIntersection\<close>. The right and lower edges are added up in \<open>int\<close> and then widened to 64 bits;
  a width or height below \<open>INT_MIN\<close> is raised to it and one above \<open>INT_MAX\<close> wraps around in the conversion back. For
  disjoint rectangles the result has a negative width or height.
\<close>

definition GetIntersection :: "rectangle \<Rightarrow> rectangle \<Rightarrow> rectangle res" where
  "GetIntersection rectangle_1 rectangle_2 =
     (let target_x = rx rectangle_1;
          target_y = ry rectangle_1
      in bind_res (int_result (target_x + width rectangle_1)) (\<lambda>target_width.
         bind_res (int_result (target_y + height rectangle_1)) (\<lambda>target_height.
         bind_res (int_result (rx rectangle_2 + width rectangle_2)) (\<lambda>rx2.
         bind_res (int_result (ry rectangle_2 + height rectangle_2)) (\<lambda>ry2.
         let target_x = (if target_x < rx rectangle_2 then rx rectangle_2 else target_x);
             target_y = (if target_y < ry rectangle_2 then ry rectangle_2 else target_y);
             target_width = (if target_width > rx2 then rx2 else target_width);
             target_height = (if target_height > ry2 then ry2 else target_height);
             target_width = target_width - target_x;
             target_height = target_height - target_y;
             target_width = (if target_width < - (2 ^ 31) then - (2 ^ 31) else target_width);
             target_height = (if target_height < - (2 ^ 31) then - (2 ^ 31) else target_height)
         in Inr (mk_rect target_x target_y (wrap_signed 32 target_width) (wrap_signed 32 target_height)))))))"

text \<open>
  \<open>CalculateTiles\<close> of \<open>ThermalNoiseRemover\<close> and of \<open>Sentinel1Calibrator\<close>: the two bodies are the
  same, on the size of the raster area and on the size of the target band.
\<close>

definition tnr_CalculateTiles :: "int \<Rightarrow> int \<Rightarrow> rectangle \<Rightarrow> rectangle list res" where
  "tnr_CalculateTiles tile_width tile_height in_raster_area =
     (let x_max = width in_raster_area;
          y_max = height in_raster_area
      in bind_res (guard (tile_width \<noteq> 0 \<and> tile_height \<noteq> 0) Undefined_behaviour) (\<lambda>_.
         bind_res (bind_res (int_result (c_div x_max tile_width)) (\<lambda>q. int_result (q + 1))) (\<lambda>x_count.
         bind_res (bind_res (int_result (c_div y_max tile_height)) (\<lambda>q. int_result (q + 1))) (\<lambda>y_count.
         bind_res (map_res (\<lambda>y_index. map_res (\<lambda>x_index.
             bind_res (int_result (x_index * tile_width)) (\<lambda>x.
             bind_res (int_result (y_index * tile_height)) (\<lambda>y.
             if x > x_max \<or> y > y_max then Inr []
             else bind_res (GetIntersection (mk_rect x y tile_width tile_height) (mk_rect 0 0 x_max y_max)) (\<lambda>intersection.
                    Inr (if width intersection \<noteq> 0 \<and> height intersection \<noteq> 0 then [intersection] else [])))))
           [0..x_count - 1]) [0..y_count - 1]) (\<lambda>rows. Inr (concat (map concat rows)))))))"

definition cal_CalculateTiles :: "int \<Rightarrow> int \<Rightarrow> int \<Rightarrow> int \<Rightarrow> rectangle list res" where
  "cal_CalculateTiles tile_width tile_height raster_width raster_height =
     (let x_max = raster_width;
          y_max = raster_height
      in bind_res (guard (tile_width \<noteq> 0 \<and> tile_height \<noteq> 0) Undefined_behaviour) (\<lambda>_.
         bind_res (bind_res (int_result (c_div x_max tile_width)) (\<lambda>q. int_result (q + 1))) (\<lambda>x_count.
         bind_res (bind_res (int_result (c_div y_max tile_height)) (\<lambda>q. int_result (q + 1))) (\<lambda>y_count.
         bind_res (map_res (\<lambda>y_index. map_res (\<lambda>x_index.
             bind_res (int_result (x_index * tile_width)) (\<lambda>x.
             bind_res (int_result (y_index * tile_height)) (\<lambda>y.
             if x > x_max \<or> y > y_max then Inr []
             else bind_res (GetIntersection (mk_rect x y tile_width tile_height) (mk_rect 0 0 x_max y_max)) (\<lambda>intersection.
                    Inr (if width intersection \<noteq> 0 \<and> height intersection \<noteq> 0 then [intersection] else [])))))
           [0..x_count - 1]) [0..y_count - 1]) (\<lambda>rows. Inr (concat (map concat rows)))))))"

definition cut_axis :: "int \<times> int \<Rightarrow> bool" where
  "cut_axis c \<longleftrightarrow> 0 < fst c \<and> 0 < snd c"

definition cut_first :: "int \<times> int \<Rightarrow> int \<Rightarrow> int" where
  "cut_first c k = k * fst c"

definition cut_last :: "int \<times> int \<Rightarrow> int \<Rightarrow> int" where
  "cut_last c k = min (k * fst c + fst c) (snd c) - 1"

lemma axis_pieces_less:
  assumes "0 < s" and "k < axis_pieces (s, n)"
  shows "k * s < n"
proof -
  have "k * s \<le> (ceil_div n s - 1) * s"
    using assms by (intro mult_right_mono) (simp_all add: axis_pieces_def)
  then show ?thesis using ceil_div_bounds(2) [OF assms(1), of n] by linarith
qed

lemma axis_pieces_greater:
  assumes "0 < s" and "axis_pieces (s, n) \<le> k"
  shows "n \<le> k * s"
proof -
  have "ceil_div n s * s \<le> k * s"
    using assms by (intro mult_right_mono) (simp_all add: axis_pieces_def)
  then show ?thesis using ceil_div_bounds(1) [OF assms(1), of n] by linarith
qed

interpretation cut_tiles: axis_tiling cut_axis axis_pieces cut_first cut_last snd
proof
  fix c :: "int \<times> int" and k :: int
  assume c: "cut_axis c"
  obtain s n where sn: "c = (s, n)" by (cases c)
  with c have pos: "0 < s" "0 < n" by (simp_all add: cut_axis_def)
  show some: "0 < axis_pieces c" using pos by (simp add: axis_pieces_def ceil_div_pos sn)
  show "cut_first c 0 = 0" by (simp add: cut_first_def)
  show "cut_first c k \<le> cut_last c k" if "0 \<le> k" "k < axis_pieces c"
    using axis_pieces_less [of s k n] that pos by (simp add: cut_first_def cut_last_def sn)
  show "cut_first c (k + 1) = cut_last c k + 1" if "0 \<le> k" "k + 1 < axis_pieces c"
    using axis_pieces_less [of s "k + 1" n] that pos
    by (simp add: cut_first_def cut_last_def sn algebra_simps)
  show "cut_last c (axis_pieces c - 1) = snd c - 1"
    using ceil_div_bounds(1) [of s n] pos
    by (simp add: cut_last_def axis_pieces_def sn algebra_simps)
qed

lemma concat_map_single_filter:
  "concat (map (\<lambda>x. if P x then [f x] else []) xs) = map f (filter P xs)"
  by (induction xs) simp_all

lemma concat_map_empty: "concat (map (\<lambda>x. []) xs) = []"
  by simp

lemma concat_map_guard:
  "concat (map (\<lambda>y. if Q y then f y else []) ys) = concat (map f (filter Q ys))"
  by (induction ys) simp_all

lemma div_succ_le_ceil:
  assumes "0 < s" and "0 < (n::int)"
  shows "n div s \<le> ceil_div n s" and "ceil_div n s \<le> n div s + 1"
proof -
  show "n div s \<le> ceil_div n s" unfolding ceil_div_def using assms by (intro zdiv_mono1) simp_all
  have "(n + s - 1) div s \<le> (n + s) div s" using assms by (intro zdiv_mono1) simp_all
  then show "ceil_div n s \<le> n div s + 1" using assms by (simp add: ceil_div_def)
qed

lemma position_le:
  assumes "0 < s" and "i \<le> n div s"
  shows "i * s \<le> (n::int)"
proof -
  have "i * s \<le> n div s * s" using assms by (intro mult_right_mono) simp_all
  also have "\<dots> \<le> n" using assms(1) div_mult_mod_eq [of n s] pos_mod_sign [of s n] by linarith
  finally show ?thesis .
qed

text \<open>Of the \<open>n div s + 1\<close> positions the loop visits, those that start inside the axis are left.\<close>

lemma filter_positions:
  assumes "0 < s" and "0 < (n::int)"
  shows "filter (\<lambda>k. k * s < n) [0..n div s] = [0..axis_pieces (s, n) - 1]"
proof -
  let ?m = "axis_pieces (s, n)"
  have m: "0 < ?m" "?m \<le> n div s + 1"
    using ceil_div_pos [OF assms(2,1)] div_succ_le_ceil(2) [OF assms] by (simp_all add: axis_pieces_def)
  then have "[0..n div s] = [0..?m - 1] @ [?m..n div s]"
    using upto_split2 [of 0 "?m - 1" "n div s"] by simp
  moreover have "filter (\<lambda>k. k * s < n) [0..?m - 1] = [0..?m - 1]"
    using axis_pieces_less [OF assms(1), of _ n] by (intro filter_True) auto
  moreover have "filter (\<lambda>k. k * s < n) [?m..n div s] = []"
    using axis_pieces_greater [OF assms(1), of n] by (intro filter_False) (auto simp: not_less)
  ultimately show ?thesis by simp
qed

text \<open>Inside the range of \<open>int\<close> the cut at the border of the raster is the expected one.\<close>

lemma cut_intersection_at:
  assumes "0 \<le> x" "0 \<le> y" and "x \<le> nx" "y \<le> ny" and "0 < sx" "0 < sy" and "x + sx < 2 ^ 31" "y + sy < 2 ^ 31" "nx < 2 ^ 31" "ny < 2 ^ 31"
  shows "GetIntersection (mk_rect x y sx sy) (mk_rect 0 0 nx ny) =
    Inr (mk_rect x y (min (x + sx) nx - x) (min (y + sy) ny - y))"
proof -
  have "int32_range (x + sx)" "int32_range (y + sy)" "int32_range nx" "int32_range ny"
    using assms by (simp_all add: int32_range_def)
  moreover have "wrap_signed 32 (min (x + sx) nx - x) = min (x + sx) nx - x" "wrap_signed 32 (min (y + sy) ny - y) = min (y + sy) ny - y"
    by (rule wrap_signed_id; use assms in simp)+
  ultimately show ?thesis using assms by (auto simp: GetIntersection_def Let_def min_def split: if_splits)
qed

definition cut_cell :: "int \<Rightarrow> int \<Rightarrow> int \<Rightarrow> int \<Rightarrow> int \<Rightarrow> int \<Rightarrow> rectangle" where
  "cut_cell sx nx sy ny i j = mk_rect (cut_first (sx, nx) i) (cut_first (sy, ny) j)
      (cut_last (sx, nx) i - cut_first (sx, nx) i + 1) (cut_last (sy, ny) j - cut_first (sy, ny) j + 1)"

text \<open>What one turn of the loop pushes: a cell of the grid, or nothing.\<close>

definition cut_step :: "int \<Rightarrow> int \<Rightarrow> int \<Rightarrow> int \<Rightarrow> int \<Rightarrow> int \<Rightarrow> rectangle list" where
  "cut_step sx nx sy ny i j = (if j * sy < ny then if i * sx < nx then [cut_cell sx nx sy ny i j] else [] else [])"

definition cut_sizes :: "int \<Rightarrow> int \<Rightarrow> bool" where
  "cut_sizes s n \<longleftrightarrow> 0 < s \<and> 0 < n \<and> n + s < 2 ^ 31"

lemma cut_turn:
  assumes "cut_sizes sx nx" "cut_sizes sy ny" and "0 \<le> i" "0 \<le> j" "i \<le> nx div sx" "j \<le> ny div sy"
  shows "bind_res (int_result (i * sx)) (\<lambda>x. bind_res (int_result (j * sy)) (\<lambda>y.
     if x > nx \<or> y > ny then Inr []
     else bind_res (GetIntersection (mk_rect x y sx sy) (mk_rect 0 0 nx ny)) (\<lambda>intersection.
            Inr (if width intersection \<noteq> 0 \<and> height intersection \<noteq> 0 then [intersection] else []))))
   = Inr (cut_step sx nx sy ny i j)"
proof -
  have p: "0 < sx" "0 < sy" "nx + sx < 2 ^ 31" "ny + sy < 2 ^ 31" using assms by (simp_all add: cut_sizes_def)
  have le: "i * sx \<le> nx" "j * sy \<le> ny" using position_le [OF p(1) assms(5)] position_le [OF p(2) assms(6)] by simp_all
  have ge: "0 \<le> i * sx" "0 \<le> j * sy" using assms p by simp_all
  have "int32_range (i * sx)" "int32_range (j * sy)" using le ge p by (simp_all add: int32_range_def)
  moreover have "GetIntersection (mk_rect (i * sx) (j * sy) sx sy) (mk_rect 0 0 nx ny) =
      Inr (mk_rect (i * sx) (j * sy) (min (i * sx + sx) nx - i * sx) (min (j * sy + sy) ny - j * sy))"
    by (rule cut_intersection_at) (use le ge p in simp_all)
  ultimately show ?thesis using le p
    by (auto simp: cut_step_def cut_cell_def cut_first_def cut_last_def min_def not_less)
qed

lemma cut_row:
  assumes "cut_sizes sx nx" "cut_sizes sy ny"
  shows "concat (map (\<lambda>i. cut_step sx nx sy ny i j) [0..nx div sx])
    = (if j * sy < ny then map (\<lambda>i. cut_cell sx nx sy ny i j) [0..axis_pieces (sx, nx) - 1] else [])"
proof -
  have pos: "0 < sx" "0 < nx" using assms by (simp_all add: cut_sizes_def)
  show ?thesis
    by (cases "j * sy < ny")
      (simp_all only: cut_step_def filter_positions [OF pos] concat_map_single_filter concat_map_empty if_True if_False)
qed

lemma cal_CalculateTiles_eq:
  "cal_CalculateTiles tw th w h = tnr_CalculateTiles tw th (mk_rect x y w h)"
  by (simp add: cal_CalculateTiles_def tnr_CalculateTiles_def)

lemma cut_count:
  assumes "cut_sizes s n"
  shows "bind_res (int_result (c_div n s)) (\<lambda>q. int_result (q + 1)) = Inr (n div s + 1)"
proof -
  have p: "0 < s" "0 < n" "n + s < 2 ^ 31" using assms by (simp_all add: cut_sizes_def)
  have "n div s \<le> n" "0 \<le> n div s" using p zdiv_mono2 [of n 1 s] by (simp_all add: pos_imp_zdiv_nonneg_iff)
  then have "int32_range (n div s)" "int32_range (n div s + 1)" using p by (simp_all add: int32_range_def)
  then show ?thesis using p by (simp add: c_div_nonneg)
qed

lemma cal_CalculateTiles_grid:
  assumes "cut_sizes sx nx" and "cut_sizes sy ny"
  shows "cal_CalculateTiles sx sy nx ny = Inr (cut_tiles.grid (sx, nx) (sy, ny))"
proof -
  have pos: "0 < sx" "0 < sy" "0 < nx" "0 < ny" using assms by (simp_all add: cut_sizes_def)
  let ?turn = "\<lambda>y_index x_index. bind_res (int_result (x_index * sx)) (\<lambda>x. bind_res (int_result (y_index * sy)) (\<lambda>y.
     if x > nx \<or> y > ny then Inr []
     else bind_res (GetIntersection (mk_rect x y sx sy) (mk_rect 0 0 nx ny)) (\<lambda>intersection.
            Inr (if width intersection \<noteq> 0 \<and> height intersection \<noteq> 0 then [intersection] else []))))"
  have rows: "map_res (\<lambda>j. map_res (?turn j) [0..nx div sx]) [0..ny div sy] =
      Inr (map (\<lambda>j. map (\<lambda>i. cut_step sx nx sy ny i j) [0..nx div sx]) [0..ny div sy])"
    by (intro map_res_total cut_turn assms) auto
  have "cal_CalculateTiles sx sy nx ny =
      Inr (concat (map (\<lambda>j. concat (map (\<lambda>i. cut_step sx nx sy ny i j) [0..nx div sx])) [0..ny div sy]))"
    using pos rows cut_count [OF assms(1)] cut_count [OF assms(2)]
    by (simp add: cal_CalculateTiles_def comp_def cong: if_cong)
  then show ?thesis using filter_positions [OF pos(2,4)]
    by (simp add: cut_row [OF assms] concat_map_guard cut_tiles.grid_def cut_cell_def)
qed

section \<open>The properties\<close>

text \<open>
  C3. The deburst and the merge operator process a target raster tile by tile with the same generator.
  For every raster and tile size whose tile counts fit the 16-bit counter, neither fails, and the
  rectangles are a partition: each is non-empty and inside the raster, every pixel lies in exactly one
  of them, and there are as many as the product of the rounded-up quotients.
\<close>

theorem GenerateRectangles_partitions:
  assumes "float_sizes sx nx" and "float_sizes sy ny"
  shows "\<exists>rs. GenerateRectangles nx ny sx sy = Inr rs \<and> GenerateRectanglesForRaster nx ny sx sy = Inr rs
    \<and> partitions nx ny rs \<and> int (length rs) = ceil_div nx sx * ceil_div ny sy"
proof -
  have ax: "float_axis (sx, nx)" "float_axis (sy, ny)" using assms by (simp_all add: float_axis_def)
  show ?thesis
    using GenerateRectangles_grid [OF ax] float_tiles.grid_partitions [OF ax] float_tiles.grid_length [OF ax]
    by (simp add: GenerateRectanglesForRaster_eq axis_pieces_def)
qed

theorem GenerateRectangles_partitions_witness:
  "\<exists>rs. GenerateRectangles 25000 1500 4000 1000 = Inr rs
    \<and> GenerateRectanglesForRaster 25000 1500 4000 1000 = Inr rs
    \<and> partitions 25000 1500 rs \<and> int (length rs) = 14"
  using GenerateRectangles_partitions [of 4000 25000 1000 1500]
  by (simp add: float_sizes_def ceil_div_def)

text \<open>
  C4. The tile lists of the thermal noise remover and of the calibrator are built without overflow and partition the
  raster, for every positive raster and tile size whose sum fits into \<open>int\<close> (the right edge of the last tile is added
  up before it is cut), although their loops visit one position more than the quotient on each
  axis: what the cut at the border leaves empty is dropped, also when the size divides the raster.
\<close>

theorem CalculateTiles_partitions:
  assumes "0 < tw" and "0 < th" and "0 < w" and "0 < h" and "w + tw < 2 ^ 31" and "h + th < 2 ^ 31"
  shows "\<exists>rs. tnr_CalculateTiles tw th (mk_rect x y w h) = Inr rs \<and> cal_CalculateTiles tw th w h = Inr rs
    \<and> partitions w h rs \<and> int (length rs) = ceil_div w tw * ceil_div h th"
proof -
  have sz: "cut_sizes tw w" "cut_sizes th h" using assms by (simp_all add: cut_sizes_def)
  have ax: "cut_axis (tw, w)" "cut_axis (th, h)" using assms by (simp_all add: cut_axis_def)
  show ?thesis
    using cal_CalculateTiles_grid [OF sz] cut_tiles.grid_partitions [OF ax] cut_tiles.grid_length [OF ax]
    by (simp add: cal_CalculateTiles_eq [symmetric] axis_pieces_def)
qed

theorem CalculateTiles_partitions_witness:
  "\<exists>rs. tnr_CalculateTiles 1000 500 (mk_rect 7 9 2500 1000) = Inr rs \<and> cal_CalculateTiles 1000 500 2500 1000 = Inr rs
    \<and> partitions 2500 1000 rs \<and> int (length rs) = 6"
  using CalculateTiles_partitions [of 1000 500 2500 1000 7 9] by (simp add: ceil_div_def)

end
