(* ===== verification/CohTiles.thy ===== *)
theory CohTiles
  imports RasterTiles
begin

text \<open>
  The tiles of the coherence estimation (\<^verbatim>\<open>algs/coherence-cuda\<close>): \<open>CohTilesGenerator\<close>, the tile
  classes it builds (\<open>Tile\<close>, \<open>IoTile\<close>, \<open>CohTile\<close>) and the exponents of the flat earth polynomial.

  A tile is written at its output area and computed from the output area dilated by the coherence
  window; what the window needs outside the raster or the burst is padding. The lemmas show that for every
  tile the read area with its padding is exactly that dilation, that columns are padded only at the raster's
  border and rows only at the edges of the burst, and that the output areas partition the bursts.
\<close>

section \<open>Tiles\<close>

record tile =
  x_max :: int
  y_max :: int
  x_min :: int
  y_min :: int

definition Tile :: "int \<Rightarrow> int \<Rightarrow> int \<Rightarrow> int \<Rightarrow> tile" where
  "Tile xmax ymax xmin ymin = \<lparr>x_max = xmax, y_max = ymax, x_min = xmin, y_min = ymin\<rparr>"

definition GetXSize :: "tile \<Rightarrow> int" where
  "GetXSize t = x_max t - x_min t + 1"

definition GetYSize :: "tile \<Rightarrow> int" where
  "GetYSize t = y_max t - y_min t + 1"

record io_tile =
  tile_x :: int
  tile_y :: int
  tile_in :: tile
  tile_out :: tile

record coh_tile = io_tile +
  y_min_pad :: int
  y_max_pad :: int
  x_min_pad :: int
  x_max_pad :: int
  burst_index :: int
  burst_size :: int

definition GetWw :: "coh_tile \<Rightarrow> int" where
  "GetWw t = x_max (tile_in t) + x_min_pad t + x_max_pad t - x_min (tile_in t) + 1"

definition GetHh :: "coh_tile \<Rightarrow> int" where
  "GetHh t = y_max (tile_in t) + y_min_pad t + y_max_pad t - y_min (tile_in t) + 1"

definition GetCalcXMin :: "coh_tile \<Rightarrow> int" where
  "GetCalcXMin t = x_min (tile_in t)"

definition GetCalcXMax :: "coh_tile \<Rightarrow> int" where
  "GetCalcXMax t = x_max (tile_in t) + x_min_pad t + x_max_pad t"

definition GetCalcYMin :: "coh_tile \<Rightarrow> int" where
  "GetCalcYMin t = y_min (tile_in t)"

definition GetCalcYMax :: "coh_tile \<Rightarrow> int" where
  "GetCalcYMax t = y_max (tile_in t) + y_min_pad t + y_max_pad t"

lemma Tile_sel [simp]:
  "x_max (Tile a b c d) = a" "y_max (Tile a b c d) = b" "x_min (Tile a b c d) = c" "y_min (Tile a b c d) = d"
  by (simp_all add: Tile_def)

lemma calc_extent:
  "GetWw t = GetCalcXMax t - GetCalcXMin t + 1" "GetHh t = GetCalcYMax t - GetCalcYMin t + 1"
  by (simp_all add: GetWw_def GetHh_def GetCalcXMax_def GetCalcXMin_def GetCalcYMax_def GetCalcYMin_def)

section \<open>The generator\<close>

record coh_generator =
  band_x_size :: int
  band_y_size :: int
  tile_x_size :: int
  tile_y_size :: int
  coh_win_rg :: int
  coh_win_az :: int
  lines_per_burst :: int

definition GetCohWinDim :: "int \<Rightarrow> int res" where
  "GetCohWinDim coh_win_dim =
     fp_to_int (- (2 ^ 15)) (2 ^ 15 - 1)
       (fdiv f32 (fsub f32 (fp_of_int f32 coh_win_dim) (fp_of_int f32 1)) (fp_of_int f32 2))"

definition GetNumberOfTilesDim :: "int \<Rightarrow> int \<Rightarrow> int res" where
  "GetNumberOfTilesDim band_size_dim tile_size_dim =
     fp_to_int (- (2 ^ 15)) (2 ^ 15 - 1)
       (fceil (fdiv f32 (fp_of_int f32 band_size_dim) (fp_of_int f32 tile_size_dim)))"

text \<open>
  The columns one tile reads: left padding, right padding, first and last column. The window may be
  asymmetric by one column, which is added at the right.
\<close>

definition coh_columns :: "coh_generator \<Rightarrow> int \<Rightarrow> int \<Rightarrow> int \<Rightarrow> int \<Rightarrow> int \<times> int \<times> int \<times> int" where
  "coh_columns g coh_x x_asymmetry x_tiles tx =
     (if tile_x_size g \<ge> band_x_size g then (coh_x, coh_x + x_asymmetry, 0, band_x_size g - 1)
      else
        let (min_pad, data_min) = (if tx = 0 then (coh_x, 0) else (0, tile_x_size g * tx - coh_x));
            (max_pad, data_max) =
              (if tx = x_tiles - 1 then (coh_x + x_asymmetry, band_x_size g - 1)
               else if tx = 0 then (0, ((data_min + tile_x_size g) - 1) + coh_x + x_asymmetry)
               else (0, ((data_min + tile_x_size g) - 1) + 2 * coh_x + x_asymmetry))
        in (min_pad, max_pad, data_min, data_max))"

definition coh_tile_at ::
    "coh_generator \<Rightarrow> int \<Rightarrow> int \<Rightarrow> int \<Rightarrow> int \<Rightarrow> int \<Rightarrow> int \<Rightarrow> coh_tile" where
  "coh_tile_at g coh_x coh_y x_asymmetry x_tiles ty tx =
     (let data_y_min = ty * lines_per_burst g;
          data_y_max = data_y_min + lines_per_burst g - 1;
          (min_pad, max_pad, data_x_min, data_x_max) = coh_columns g coh_x x_asymmetry x_tiles tx;
          tile_x_size_out =
            (if tx = x_tiles - 1 then band_x_size g - tile_x_size g * tx else tile_x_size g)
      in \<lparr>tile_x = tx, tile_y = ty,
          tile_in = Tile data_x_max data_y_max data_x_min data_y_min,
          tile_out = Tile (tile_x_size_out - 1 + (tile_x_size g * tx)) data_y_max
                          (tile_x_size g * tx) data_y_min,
          y_min_pad = coh_y, y_max_pad = coh_y, x_min_pad = min_pad, x_max_pad = max_pad,
          burst_index = c_div data_y_min (lines_per_burst g), burst_size = lines_per_burst g\<rparr>)"

text \<open>
  \<open>GenerateTiles\<close>; the warning about a height that is no multiple of the burst height is only logged.
  A division by zero and a count that overflows have no defined result, and \<open>reserve\<close> throws on a negative count.
\<close>

definition GenerateTiles :: "coh_generator \<Rightarrow> coh_tile list res" where
  "GenerateTiles g =
     bind_res (GetCohWinDim (coh_win_rg g)) (\<lambda>coh_x.
     bind_res (GetCohWinDim (coh_win_az g)) (\<lambda>coh_y.
     let x_asymmetry = (if c_mod (coh_win_rg g) 2 = 0 then 1 else 0)
     in bind_res (guard (\<not> (2 * coh_y > tile_y_size g \<or> 2 * coh_x > tile_x_size g)) Invalid_argument) (\<lambda>_.
        bind_res (GetNumberOfTilesDim (band_x_size g) (tile_x_size g)) (\<lambda>x_tiles.
        bind_res (guard (lines_per_burst g \<noteq> 0 \<and> tile_x_size g \<noteq> 0) Undefined_behaviour) (\<lambda>_.
        let y_tiles = c_div (band_y_size g) (lines_per_burst g);
            x_last_tile = c_mod (band_x_size g) (tile_x_size g);
            x_tiles = (if x_last_tile \<noteq> 0 \<and> x_last_tile \<le> coh_x * 2 then x_tiles - 1 else x_tiles)
        in bind_res (int_result (y_tiles * x_tiles)) (\<lambda>n.
           bind_res (guard (0 \<le> n) Logic_error) (\<lambda>_.
           Inr (concat (map (\<lambda>ty.
                  map (\<lambda>tx. coh_tile_at g coh_x coh_y x_asymmetry x_tiles ty tx) [0..x_tiles - 1])
                [0..y_tiles - 1]))))))))) "

section \<open>What the parameters have to satisfy\<close>

text \<open>The half widths of the window, and the number of tiles on each axis.\<close>

definition half_window :: "int \<Rightarrow> int" where
  "half_window w = (w - 1) div 2"

definition asymmetry :: "int \<Rightarrow> int" where
  "asymmetry w = (if even w then 1 else 0)"

definition coh_x_tiles :: "coh_generator \<Rightarrow> int" where
  "coh_x_tiles g =
     ceil_div (band_x_size g) (tile_x_size g) -
       (if band_x_size g mod tile_x_size g \<noteq> 0 \<and>
           band_x_size g mod tile_x_size g \<le> 2 * half_window (coh_win_rg g) then 1 else 0)"

definition coh_y_tiles :: "coh_generator \<Rightarrow> int" where
  "coh_y_tiles g = band_y_size g div lines_per_burst g"

text \<open>
  Parameters the generator accepts: the window passes its own check against the tile, the sizes are positive, and the
  counts fit the 16-bit and 32-bit integers that hold them. A raster narrower than the window is accepted as well: its
  only tile is then dropped as a border tile.
\<close>

definition coh_accepted :: "coh_generator \<Rightarrow> bool" where
  "coh_accepted g \<longleftrightarrow>
     0 < coh_win_rg g \<and> coh_win_rg g < 2 ^ 16 \<and> 0 < coh_win_az g \<and> coh_win_az g < 2 ^ 16 \<and>
     2 * half_window (coh_win_rg g) \<le> tile_x_size g \<and> 2 * half_window (coh_win_az g) \<le> tile_y_size g \<and>
     float_sizes (tile_x_size g) (band_x_size g) \<and> 0 < lines_per_burst g \<and> 0 \<le> band_y_size g \<and>
     band_y_size g div lines_per_burst g * ceil_div (band_x_size g) (tile_x_size g) < 2 ^ 31"

definition too_narrow :: "coh_generator \<Rightarrow> bool" where
  "too_narrow g \<longleftrightarrow> band_x_size g \<le> 2 * half_window (coh_win_rg g) \<and> band_x_size g \<noteq> tile_x_size g"

definition coh_parameters :: "coh_generator \<Rightarrow> bool" where
  "coh_parameters g \<longleftrightarrow> coh_accepted g \<and> \<not> too_narrow g"

lemma coh_acceptedD:
  assumes "coh_accepted g"
  shows "0 < tile_x_size g" "0 < band_x_size g" "0 < lines_per_burst g" "0 \<le> band_y_size g"
    "0 < coh_win_rg g" "0 \<le> half_window (coh_win_rg g)" "2 * half_window (coh_win_rg g) \<le> tile_x_size g"
    "0 \<le> asymmetry (coh_win_rg g)" "asymmetry (coh_win_rg g) \<le> 1" "0 \<le> coh_y_tiles g"
  using assms by (simp_all add: coh_accepted_def float_sizes_def half_window_def asymmetry_def coh_y_tiles_def pos_imp_zdiv_nonneg_iff)

lemma GetCohWinDim_exact:
  assumes "0 < w" and "w < 2 ^ 16"
  shows "GetCohWinDim w = Inr (half_window w)"
proof -
  have w: "fp_of_int f32 w = Fin (of_int w)" using assms by (intro f32_of_int) simp_all
  have c: "fp_of_int f32 1 = Fin 1" "fp_of_int f32 2 = Fin 2"
    using f32_of_int [of 1] f32_of_int [of 2] by simp_all
  have sub: "fsub f32 (Fin (of_int w)) (Fin 1) = Fin (of_int (w - 1))"
  proof (cases "w = 1")
    case True
    then show ?thesis by (simp add: fsub_def)
  next
    case False
    then show ?thesis
      using assms f32_of_int [of "w - 1"] by (simp add: fsub_def fp_of_int_def)
  qed
  have quot: "fdiv f32 (Fin (of_int (w - 1))) (Fin 2) = Fin (of_int (w - 1) / 2)"
  proof (cases "w = 1")
    case True
    then show ?thesis by simp
  next
    case False
    then show ?thesis using assms f32_half [of "w - 1"] by simp
  qed
  have "rat_trunc (of_int (w - 1) / 2) = half_window w"
    unfolding half_window_def using assms by (intro rat_trunc_half) simp
  moreover have "half_window w \<le> 2 ^ 15 - 1" "- (2 ^ 15) \<le> half_window w"
    using assms by (simp_all add: half_window_def)
  ultimately show ?thesis
    by (simp only: GetCohWinDim_def w c sub quot fp_to_int.simps simp_thms if_True)
qed

section \<open>The number of tiles\<close>

lemma ceil_div_mod:
  assumes "0 < s" and "0 \<le> (n::int)"
  shows "ceil_div n s = (if n mod s = 0 then n div s else n div s + 1)"
proof (cases "n mod s = 0")
  case True
  then have "n div s * s = n" using div_mult_mod_eq [of n s] by linarith
  then have "ceil_div n s = n div s"
    using assms by (intro ceil_div_unique) (simp_all add: algebra_simps)
  then show ?thesis using True by simp
next
  case False
  have "n div s * s + n mod s = n" by (rule div_mult_mod_eq)
  moreover have "0 < n mod s" "n mod s < s"
    using False assms pos_mod_sign [of s n] pos_mod_bound [of s n] by linarith+
  moreover have "(n div s + 1) * s = n div s * s + s" by (simp add: distrib_right)
  moreover have "(n div s + 1 - 1) * s = n div s * s" by simp
  ultimately have "n \<le> (n div s + 1) * s" "(n div s + 1 - 1) * s < n" by linarith+
  then have "ceil_div n s = n div s + 1"
    using assms by (intro ceil_div_unique)
  then show ?thesis using False by simp
qed

text \<open>What is left for the last tile: a full one and more, or more than the window.\<close>

lemma coh_last_columns:
  assumes "coh_parameters g"
  defines "rest \<equiv> band_x_size g - tile_x_size g * (coh_x_tiles g - 1)"
  shows "0 < rest" and "2 * half_window (coh_win_rg g) < rest \<or> tile_x_size g \<le> rest"
    and "0 < coh_x_tiles g"
proof -
  let ?T = "tile_x_size g" and ?E = "band_x_size g" and ?c = "half_window (coh_win_rg g)"
  have p: "0 < ?T" "0 < ?E" "0 \<le> ?c" "2 * ?c < ?E \<or> ?E = ?T"
    using assms(1) coh_acceptedD [of g] by (auto simp: coh_parameters_def too_narrow_def)
  have E: "?E = ?T * (?E div ?T) + ?E mod ?T" by simp
  have r: "0 \<le> ?E mod ?T" "?E mod ?T < ?T" using p by simp_all
  have n: "coh_x_tiles g = (if ?E mod ?T = 0 \<or> ?E mod ?T \<le> 2 * ?c then ?E div ?T else ?E div ?T + 1)"
    using p by (simp add: coh_x_tiles_def ceil_div_mod)
  have rest: "rest = (if ?E mod ?T = 0 \<or> ?E mod ?T \<le> 2 * ?c then ?T + ?E mod ?T else ?E mod ?T)"
  proof (cases "?E mod ?T = 0 \<or> ?E mod ?T \<le> 2 * ?c")
    case True
    then have "rest = ?E - ?T * (?E div ?T) + ?T" by (simp add: rest_def n right_diff_distrib)
    also have "\<dots> = ?T + ?E mod ?T" using E by linarith
    finally show ?thesis using True by simp
  next
    case False
    then have "rest = ?E - ?T * (?E div ?T)" by (simp add: rest_def n)
    also have "\<dots> = ?E mod ?T" using E by linarith
    finally show ?thesis using False by simp
  qed
  show "0 < rest"
    using rest r p by (cases "?E mod ?T = 0 \<or> ?E mod ?T \<le> 2 * ?c") (simp_all only: if_True if_False, linarith+)
  show "2 * ?c < rest \<or> ?T \<le> rest" using rest r by (auto split: if_splits)
  have "?E div ?T \<noteq> 0" if "?E mod ?T = 0 \<or> ?E mod ?T \<le> 2 * ?c"
  proof
    assume z: "?E div ?T = 0"
    then have "?E = ?E mod ?T" using E by simp
    with that p show False by auto
  qed
  moreover have "0 \<le> ?E div ?T" using p by (simp add: pos_imp_zdiv_nonneg_iff)
  ultimately show "0 < coh_x_tiles g" by (auto simp: n)
qed

section \<open>Regular tilings\<close>

text \<open>Tiles of one size, the last one taking what is left: size, extent and number.\<close>

definition regular_axis :: "int \<times> int \<times> int \<Rightarrow> bool" where
  "regular_axis c \<longleftrightarrow>
     (case c of (s, extent, n) \<Rightarrow> 0 < s \<and> 0 < n \<and> s * (n - 1) < extent)"

definition regular_pieces :: "int \<times> int \<times> int \<Rightarrow> int" where
  "regular_pieces c = snd (snd c)"

definition regular_first :: "int \<times> int \<times> int \<Rightarrow> int \<Rightarrow> int" where
  "regular_first c k = fst c * k"

definition regular_last :: "int \<times> int \<times> int \<Rightarrow> int \<Rightarrow> int" where
  "regular_last c k = (if k = snd (snd c) - 1 then fst (snd c) - 1 else fst c * (k + 1) - 1)"

definition regular_extent :: "int \<times> int \<times> int \<Rightarrow> int" where
  "regular_extent c = fst (snd c)"

interpretation regular_tiles: axis_tiling regular_axis regular_pieces regular_first regular_last regular_extent
proof
  fix c :: "int \<times> int \<times> int" and k :: int
  assume c: "regular_axis c"
  obtain s e n where sen: "c = (s, e, n)" by (metis prod_cases3)
  have p: "0 < s" "0 < n" "s * (n - 1) < e" using c by (simp_all add: sen regular_axis_def)
  show "0 < regular_pieces c" using p by (simp add: sen regular_pieces_def)
  show "regular_first c 0 = 0" by (simp add: regular_first_def)
  show "regular_first c k \<le> regular_last c k" if "0 \<le> k" "k < regular_pieces c"
    using p that by (simp add: sen regular_first_def regular_last_def regular_pieces_def distrib_left)
  show "regular_first c (k + 1) = regular_last c k + 1" if "0 \<le> k" "k + 1 < regular_pieces c"
    using that by (simp add: sen regular_first_def regular_last_def regular_pieces_def)
  show "regular_last c (regular_pieces c - 1) = regular_extent c - 1"
    by (simp add: regular_last_def regular_pieces_def regular_extent_def)
qed

section \<open>The columns of a tile\<close>

lemma coh_columns_window:
  assumes g: "coh_parameters g" and tx: "0 \<le> tx" "tx < coh_x_tiles g"
    and cols: "coh_columns g (half_window (coh_win_rg g)) (asymmetry (coh_win_rg g)) (coh_x_tiles g) tx
               = (lp, rp, lo, hi)"
  defines "out_lo \<equiv> tile_x_size g * tx"
    and "out_hi \<equiv> (if tx = coh_x_tiles g - 1 then band_x_size g - 1 else tile_x_size g * (tx + 1) - 1)"
  shows "lo - lp = out_lo - half_window (coh_win_rg g)"
    and "hi + rp = out_hi + half_window (coh_win_rg g) + asymmetry (coh_win_rg g)"
    and "0 \<le> lo \<and> lo \<le> out_lo" and "out_hi \<le> hi \<and> hi < band_x_size g"
    and "lp = 0 \<or> lo = 0" and "rp = 0 \<or> hi = band_x_size g - 1"
proof -
  let ?T = "tile_x_size g" and ?E = "band_x_size g" and ?c = "half_window (coh_win_rg g)"
    and ?a = "asymmetry (coh_win_rg g)" and ?n = "coh_x_tiles g"
  have p: "0 < ?T" "0 < ?E" "0 \<le> ?c" "2 * ?c \<le> ?T" "0 \<le> ?a" "?a \<le> 1"
    using g coh_acceptedD [of g] by (simp_all add: coh_parameters_def)
  note last = coh_last_columns [OF g]
  have slack: "?c + ?a \<le> ?E - ?T * (?n - 1)" using last p by linarith
  have right: "?T * (tx + 1) + ?c + ?a \<le> ?E" if "tx < ?n - 1"
  proof -
    have "?T * (tx + 1) \<le> ?T * (?n - 1)" using that p by (intro mult_left_mono) simp_all
    then show ?thesis using slack by linarith
  qed
  have left: "?c \<le> ?T * tx" if "tx \<noteq> 0"
  proof -
    have "?T * 1 \<le> ?T * tx" using that tx p by (intro mult_left_mono) simp_all
    then show ?thesis using p by linarith
  qed
  have one: "?n = 1" if "?E \<le> ?T"
  proof -
    have "?T * (?n - 1) < ?T * 1" using last(1) that by linarith
    then have "?n - 1 < 1" using p by (simp only: mult_less_cancel_left_pos)
    then show ?thesis using last(3) by simp
  qed
  consider (wide) "?E \<le> ?T" "tx = 0" "?n = 1"
    | (only) "\<not> ?E \<le> ?T" "tx = 0" "?n = 1" | (first) "\<not> ?E \<le> ?T" "tx = 0" "tx < ?n - 1"
    | (end_tile) "\<not> ?E \<le> ?T" "tx \<noteq> 0" "tx = ?n - 1" | (inner) "\<not> ?E \<le> ?T" "tx \<noteq> 0" "tx < ?n - 1"
    using tx one by fastforce
  then have all: "lo - lp = out_lo - ?c \<and> hi + rp = out_hi + ?c + ?a \<and> 0 \<le> lo \<and> lo \<le> out_lo \<and>
    out_hi \<le> hi \<and> hi < ?E \<and> (lp = 0 \<or> lo = 0) \<and> (rp = 0 \<or> hi = ?E - 1)"
  proof cases
    case wide
    then show ?thesis using cols p by (auto simp: coh_columns_def out_lo_def out_hi_def)
  next
    case only
    then show ?thesis using cols p by (auto simp: coh_columns_def out_lo_def out_hi_def)
  next
    case first
    then show ?thesis using cols p right by (auto simp: coh_columns_def out_lo_def out_hi_def)
  next
    case end_tile
    then show ?thesis using cols p left by (auto simp: coh_columns_def out_lo_def out_hi_def)
  next
    case inner
    then show ?thesis
      using cols p left right by (auto simp: coh_columns_def out_lo_def out_hi_def distrib_left)
  qed
  then show "lo - lp = out_lo - ?c" "hi + rp = out_hi + ?c + ?a" "0 \<le> lo \<and> lo \<le> out_lo"
    "out_hi \<le> hi \<and> hi < ?E" "lp = 0 \<or> lo = 0" "rp = 0 \<or> hi = ?E - 1" by simp_all
qed

section \<open>The generated list\<close>

lemma too_narrow_tiles:
  assumes "coh_accepted g" and "too_narrow g"
  shows "coh_x_tiles g = 0"
proof -
  note p = coh_acceptedD [OF assms(1)]
  have "band_x_size g < tile_x_size g" "band_x_size g \<le> 2 * half_window (coh_win_rg g)"
    using assms(2) p by (auto simp: too_narrow_def)
  then show ?thesis using p by (simp add: coh_x_tiles_def ceil_div_one)
qed

lemma coh_x_tiles_range:
  assumes "coh_accepted g"
  shows "0 \<le> coh_x_tiles g" and "coh_x_tiles g \<le> ceil_div (band_x_size g) (tile_x_size g)"
proof -
  show "0 \<le> coh_x_tiles g"
    using too_narrow_tiles [OF assms] coh_last_columns(3) [of g] assms by (cases "too_narrow g") (auto simp: coh_parameters_def)
  show "coh_x_tiles g \<le> ceil_div (band_x_size g) (tile_x_size g)" by (simp add: coh_x_tiles_def)
qed

lemma GenerateTiles_eq:
  assumes "coh_accepted g"
  shows "GenerateTiles g = Inr (concat (map (\<lambda>ty.
    map (\<lambda>tx. coh_tile_at g (half_window (coh_win_rg g)) (half_window (coh_win_az g))
                 (asymmetry (coh_win_rg g)) (coh_x_tiles g) ty tx) [0..coh_x_tiles g - 1])
    [0..coh_y_tiles g - 1]))"
proof -
  note p = coh_acceptedD [OF assms]
  have dims: "GetCohWinDim (coh_win_rg g) = Inr (half_window (coh_win_rg g))"
      "GetCohWinDim (coh_win_az g) = Inr (half_window (coh_win_az g))"
    using assms by (simp_all add: coh_accepted_def GetCohWinDim_exact)
  have nt: "GetNumberOfTilesDim (band_x_size g) (tile_x_size g) = Inr (ceil_div (band_x_size g) (tile_x_size g))"
    using assms GetNumberOfRectanglesDim_exact [of "tile_x_size g" "band_x_size g"]
    unfolding GetNumberOfTilesDim_def GetNumberOfRectanglesDim_def coh_accepted_def by blast
  have n: "(if c_mod (band_x_size g) (tile_x_size g) \<noteq> 0 \<and>
       c_mod (band_x_size g) (tile_x_size g) \<le> half_window (coh_win_rg g) * 2
       then ceil_div (band_x_size g) (tile_x_size g) - 1 else ceil_div (band_x_size g) (tile_x_size g))
     = coh_x_tiles g"
    using p by (simp add: coh_x_tiles_def c_mod_nonneg mult.commute)
  have a: "(if c_mod (coh_win_rg g) 2 = 0 then 1 else 0) = asymmetry (coh_win_rg g)"
    using p by (simp add: asymmetry_def c_mod_nonneg even_iff_mod_2_eq_zero)
  have y: "c_div (band_y_size g) (lines_per_burst g) = coh_y_tiles g"
    using p by (simp add: coh_y_tiles_def c_div_nonneg)
  have nn: "0 \<le> coh_y_tiles g * coh_x_tiles g" using p(10) coh_x_tiles_range(1) [OF assms] by simp
  have "coh_y_tiles g * coh_x_tiles g \<le> coh_y_tiles g * ceil_div (band_x_size g) (tile_x_size g)"
    using p(10) coh_x_tiles_range(2) [OF assms] by (rule mult_left_mono [rotated])
  then have r: "int_result (coh_y_tiles g * coh_x_tiles g) = Inr (coh_y_tiles g * coh_x_tiles g)"
    using nn assms by (simp add: int32_range_def coh_accepted_def coh_y_tiles_def)
  have g: "\<not> (2 * half_window (coh_win_az g) > tile_y_size g \<or> 2 * half_window (coh_win_rg g) > tile_x_size g)"
      "lines_per_burst g \<noteq> 0 \<and> tile_x_size g \<noteq> 0"
    using assms p by (simp_all add: coh_accepted_def)
  show ?thesis
    unfolding GenerateTiles_def dims nt bind_res_simps Let_def guard_def if_P [OF g(1)] if_P [OF g(2)] n a y r
      if_P [OF nn] ..
qed

definition tile_rect :: "tile \<Rightarrow> rectangle" where
  "tile_rect t = mk_rect (x_min t) (y_min t) (GetXSize t) (GetYSize t)"

lemma coh_tile_out:
  assumes "coh_parameters g"
  shows "tile_rect (tile_out (coh_tile_at g cx cy a (coh_x_tiles g) ty tx)) =
    mk_rect (tile_x_size g * tx) (ty * lines_per_burst g)
      ((if tx = coh_x_tiles g - 1 then band_x_size g - 1 else tile_x_size g * (tx + 1) - 1)
         - tile_x_size g * tx + 1)
      (lines_per_burst g)"
  by (simp add: tile_rect_def coh_tile_at_def Let_def GetXSize_def GetYSize_def algebra_simps
      split: prod.split)

lemma coh_parameters_accepted: "coh_parameters g \<Longrightarrow> coh_accepted g"
  by (simp add: coh_parameters_def)

lemma coh_tile_in_list:
  assumes "coh_parameters g" and "GenerateTiles g = Inr ts" and "t \<in> set ts"
  obtains tx ty where "0 \<le> tx" "tx < coh_x_tiles g" "0 \<le> ty" "ty < coh_y_tiles g"
    and "t = coh_tile_at g (half_window (coh_win_rg g)) (half_window (coh_win_az g))
               (asymmetry (coh_win_rg g)) (coh_x_tiles g) ty tx"
  using assms(2,3) unfolding GenerateTiles_eq [OF coh_parameters_accepted [OF assms(1)]] by auto

lemma coh_out_grid:
  assumes g: "coh_parameters g" and ts: "GenerateTiles g = Inr ts"
  shows "map (\<lambda>t. tile_rect (tile_out t)) ts =
    regular_tiles.grid (tile_x_size g, band_x_size g, coh_x_tiles g)
      (lines_per_burst g, lines_per_burst g * coh_y_tiles g, coh_y_tiles g)"
proof -
  have ts': "ts = concat (map (\<lambda>ty.
    map (\<lambda>tx. coh_tile_at g (half_window (coh_win_rg g)) (half_window (coh_win_az g))
                 (asymmetry (coh_win_rg g)) (coh_x_tiles g) ty tx) [0..coh_x_tiles g - 1])
    [0..coh_y_tiles g - 1])"
    using ts GenerateTiles_eq [OF coh_parameters_accepted [OF g]] by simp
  have rows: "regular_last (lines_per_burst g, lines_per_burst g * coh_y_tiles g, coh_y_tiles g) ty
      - regular_first (lines_per_burst g, lines_per_burst g * coh_y_tiles g, coh_y_tiles g) ty + 1
      = lines_per_burst g" for ty
  proof (cases "ty = coh_y_tiles g - 1")
    case True
    then show ?thesis by (simp add: regular_last_def regular_first_def right_diff_distrib)
  next
    case False
    then show ?thesis by (simp add: regular_last_def regular_first_def distrib_left)
  qed
  show ?thesis
    unfolding ts' regular_tiles.grid_def rows
    by (simp add: map_concat comp_def coh_tile_out [OF g] regular_pieces_def regular_first_def
        regular_last_def mult.commute cong: if_cong)
qed

section \<open>The exponents of the flat earth polynomial\<close>

definition GetXPows :: "int \<Rightarrow> int list" where
  "GetXPows srp_polynomial_degree =
     concat (map (\<lambda>i. map (\<lambda>j. i - j) [0..i + 1 - 1]) [0..srp_polynomial_degree + 1 - 1])"

definition GetYPows :: "int \<Rightarrow> int list" where
  "GetYPows srp_polynomial_degree =
     concat (map (\<lambda>i. map (\<lambda>j. j) [0..i + 1 - 1]) [0..srp_polynomial_degree + 1 - 1])"

lemma zip_concat_map:
  assumes "\<And>x. x \<in> set xs \<Longrightarrow> length (f x) = length (g x)"
  shows "zip (concat (map f xs)) (concat (map g xs)) = concat (map (\<lambda>x. zip (f x) (g x)) xs)"
  using assms by (induction xs) (simp_all add: zip_append)

definition monomial_row :: "int \<Rightarrow> (int \<times> int) list" where
  "monomial_row i = map (\<lambda>j. (i - j, j)) [0..i]"

lemma monomial_row_set: "set (monomial_row i) = {(a, b). 0 \<le> a \<and> 0 \<le> b \<and> a + b = i}"
proof (intro set_eqI iffI)
  fix ab assume "ab \<in> {(a, b). 0 \<le> a \<and> 0 \<le> b \<and> a + b = i}"
  then have "ab = (i - snd ab, snd ab)" "snd ab \<in> set [0..i]" by auto
  then show "ab \<in> set (monomial_row i)" unfolding monomial_row_def set_map by (rule image_eqI)
qed (auto simp: monomial_row_def)

lemma monomial_row_distinct: "distinct (monomial_row i)"
  by (simp add: monomial_row_def distinct_map inj_on_def)

lemma monomial_rows_distinct: "distinct xs \<Longrightarrow> distinct (concat (map monomial_row xs))"
proof (induction xs)
  case Nil
  then show ?case by simp
next
  case (Cons i xs)
  have "set (monomial_row i) \<inter> set (concat (map monomial_row xs)) = {}"
    using Cons.prems by (auto simp: monomial_row_set)
  then show ?case using Cons by (simp add: monomial_row_distinct)
qed

lemma pows_pairs: "zip (GetXPows d) (GetYPows d) = concat (map monomial_row [0..d])"
proof -
  have row: "zip (map (\<lambda>j. i - j) [0..i]) (map (\<lambda>j. j) [0..i]) = monomial_row i" for i :: int
    by (simp add: monomial_row_def zip_map1 zip_same_conv_map)
  show ?thesis
    unfolding GetXPows_def GetYPows_def by (simp only: zip_concat_map length_map add_diff_cancel_right' row)
qed

section \<open>The properties\<close>

text \<open>
  C5. Coherence tiles, output: for all positive raster, tile and burst sizes and windows that pass the generator's own
  check, as long as the tile counts fit the integers that hold them, the generator succeeds and every tile lies in the
  burst it names. The areas it writes partition the raster columns of all complete bursts - also when a narrow last
  column of tiles is merged into its neighbour - unless the raster is narrower than the window: then its
  only tile is dropped as a border tile and the list is empty.
\<close>

theorem GenerateTiles_partitions:
  assumes "coh_accepted g"
  shows "\<exists>ts. GenerateTiles g = Inr ts
    \<and> (if too_narrow g then ts = []
       else partitions (band_x_size g) (lines_per_burst g * (band_y_size g div lines_per_burst g))
              (map (\<lambda>t. tile_rect (tile_out t)) ts))
    \<and> (\<forall>t\<in>set ts. y_min (tile_out t) = burst_index t * lines_per_burst g
         \<and> y_max (tile_out t) = (burst_index t + 1) * lines_per_burst g - 1)"
proof -
  obtain ts where ts: "GenerateTiles g = Inr ts" using GenerateTiles_eq [OF assms] by blast
  note p = coh_acceptedD [OF assms]
  have bursts: "y_min (tile_out t) = burst_index t * lines_per_burst g
      \<and> y_max (tile_out t) = (burst_index t + 1) * lines_per_burst g - 1" if t: "t \<in> set ts" for t
    using t ts p unfolding GenerateTiles_eq [OF assms]
    by (auto simp: coh_tile_at_def Let_def c_div_nonneg distrib_right split: prod.split)
  show ?thesis
  proof (cases "too_narrow g \<or> coh_y_tiles g = 0")
    case True
    then have "ts = []" using ts too_narrow_tiles [OF assms] unfolding GenerateTiles_eq [OF assms] by auto
    then show ?thesis using ts True by (auto simp: partitions_def coh_y_tiles_def)
  next
    case False
    then have g: "coh_parameters g" using assms by (simp add: coh_parameters_def)
    have ax: "regular_axis (tile_x_size g, band_x_size g, coh_x_tiles g)"
      using coh_last_columns [OF g] p by (simp add: regular_axis_def)
    have ay: "regular_axis (lines_per_burst g, lines_per_burst g * coh_y_tiles g, coh_y_tiles g)"
      using p False by (simp add: regular_axis_def)
    show ?thesis
      using ts regular_tiles.grid_partitions [OF ax ay] bursts False
      by (simp add: coh_out_grid [OF g ts] regular_extent_def coh_y_tiles_def)
  qed
qed

text \<open>A scene of 10 bursts, cut into tiles of 1000 columns, with a window of 15 by 3 pixels.\<close>

definition coh_example :: coh_generator where
  "coh_example = \<lparr>band_x_size = 3010, band_y_size = 15000, tile_x_size = 1000, tile_y_size = 1000,
     coh_win_rg = 15, coh_win_az = 3, lines_per_burst = 1500\<rparr>"

lemma coh_example_parameters: "coh_parameters coh_example"
  by (simp add: coh_parameters_def coh_accepted_def too_narrow_def coh_example_def half_window_def float_sizes_def ceil_div_def)

theorem GenerateTiles_partitions_witness:
  "(\<exists>ts. GenerateTiles coh_example = Inr ts
    \<and> partitions 3010 15000 (map (\<lambda>t. tile_rect (tile_out t)) ts))
   \<and> GenerateTiles (coh_example\<lparr>band_x_size := 10\<rparr>) = Inr []"
proof -
  have n: "\<not> too_narrow coh_example" "too_narrow (coh_example\<lparr>band_x_size := 10\<rparr>)"
    by (simp_all add: too_narrow_def coh_example_def half_window_def)
  have "coh_accepted (coh_example\<lparr>band_x_size := 10\<rparr>)"
    by (simp add: coh_accepted_def coh_example_def half_window_def float_sizes_def ceil_div_def)
  from GenerateTiles_partitions [OF coh_parameters_accepted [OF coh_example_parameters]] GenerateTiles_partitions [OF this] show ?thesis
    using n by (auto simp: coh_example_def)
qed

text \<open>
  C6. Coherence tiles, input: every tile reads inside the raster, and what it reads together with its
  padding is exactly its output area dilated by the half window on each side (one column more at the
  right for an even window). Columns are padded only where the read area touches the raster's border. Rows are never read
  from a neighbouring burst: a tile reads the rows of its burst and is padded by the half window at both edges of the burst.
\<close>

theorem GenerateTiles_window:
  assumes "coh_parameters g" and "GenerateTiles g = Inr ts" and "t \<in> set ts"
  shows "x_min (tile_in t) - x_min_pad t = x_min (tile_out t) - half_window (coh_win_rg g)
    \<and> x_max (tile_in t) + x_max_pad t
        = x_max (tile_out t) + half_window (coh_win_rg g) + asymmetry (coh_win_rg g)
    \<and> 0 \<le> x_min (tile_in t) \<and> x_max (tile_in t) < band_x_size g
    \<and> (x_min_pad t = 0 \<or> x_min (tile_in t) = 0)
    \<and> (x_max_pad t = 0 \<or> x_max (tile_in t) = band_x_size g - 1)
    \<and> y_min (tile_in t) = y_min (tile_out t) \<and> y_max (tile_in t) = y_max (tile_out t)
    \<and> y_min (tile_in t) = burst_index t * lines_per_burst g \<and> y_max (tile_in t) = (burst_index t + 1) * lines_per_burst g - 1
    \<and> 0 \<le> y_min (tile_in t) \<and> y_max (tile_in t) < band_y_size g
    \<and> y_min_pad t = half_window (coh_win_az g) \<and> y_max_pad t = half_window (coh_win_az g)
    \<and> GetWw t = GetXSize (tile_out t) + 2 * half_window (coh_win_rg g) + asymmetry (coh_win_rg g)
    \<and> GetHh t = GetYSize (tile_out t) + 2 * half_window (coh_win_az g)"
proof -
  note p = coh_acceptedD [OF coh_parameters_accepted [OF assms(1)]]
  obtain tx ty where tx: "0 \<le> tx" "tx < coh_x_tiles g" and ty: "0 \<le> ty" "ty < coh_y_tiles g"
    and t: "t = coh_tile_at g (half_window (coh_win_rg g)) (half_window (coh_win_az g))
              (asymmetry (coh_win_rg g)) (coh_x_tiles g) ty tx"
    using coh_tile_in_list [OF assms] by metis
  obtain lp rp lo hi where cols: "coh_columns g (half_window (coh_win_rg g)) (asymmetry (coh_win_rg g))
      (coh_x_tiles g) tx = (lp, rp, lo, hi)" by (metis prod_cases4)
  note w = coh_columns_window [OF assms(1) tx cols]
  have out: "x_max (tile_out t) = (if tx = coh_x_tiles g - 1 then band_x_size g - 1
      else tile_x_size g * (tx + 1) - 1)" "x_min (tile_out t) = tile_x_size g * tx"
    by (simp_all add: t coh_tile_at_def Let_def cols distrib_left)
  have sel: "x_min (tile_in t) = lo" "x_max (tile_in t) = hi" "x_min_pad t = lp" "x_max_pad t = rp"
    "y_min (tile_in t) = y_min (tile_out t)" "y_max (tile_in t) = y_max (tile_out t)"
    "y_min_pad t = half_window (coh_win_az g)" "y_max_pad t = half_window (coh_win_az g)"
    by (simp_all add: t coh_tile_at_def Let_def cols)
  have rows: "y_min (tile_in t) = ty * lines_per_burst g" "y_max (tile_in t) = (ty + 1) * lines_per_burst g - 1" "burst_index t = ty"
    using ty p by (simp_all add: t coh_tile_at_def Let_def cols c_div_nonneg distrib_right)
  have "(ty + 1) * lines_per_burst g \<le> coh_y_tiles g * lines_per_burst g" using ty p by (intro mult_right_mono) simp_all
  also have "\<dots> \<le> band_y_size g" using p position_le [of "lines_per_burst g" "coh_y_tiles g" "band_y_size g"] by (simp add: coh_y_tiles_def)
  finally have inside: "y_max (tile_in t) < band_y_size g" using rows by simp
  have nn: "0 \<le> y_min (tile_in t)" using rows ty p by simp
  have "lo - lp = x_min (tile_out t) - half_window (coh_win_rg g)"
    "hi + rp = x_max (tile_out t) + half_window (coh_win_rg g) + asymmetry (coh_win_rg g)"
    using w(1,2) by (simp_all only: out)
  then show ?thesis
    using w(3-6) rows inside nn unfolding GetWw_def GetHh_def GetXSize_def GetYSize_def sel by simp
qed

theorem GenerateTiles_window_witness:
  "\<exists>ts. GenerateTiles coh_example = Inr ts \<and> length ts = 30 \<and>
     (\<forall>t\<in>{hd ts}. GetWw t = GetXSize (tile_out t) + 14 \<and> 0 \<le> x_min (tile_in t))"
proof -
  obtain ts where ts: "GenerateTiles coh_example = Inr ts" "length ts = 30" "hd ts \<in> set ts"
    unfolding GenerateTiles_eq [OF coh_parameters_accepted [OF coh_example_parameters]]
    by (simp add: coh_example_def coh_x_tiles_def coh_y_tiles_def ceil_div_def half_window_def
        upto_rec1)
  show ?thesis
    using GenerateTiles_window [OF coh_example_parameters ts(1,3)] ts
    by (simp add: coh_example_def half_window_def asymmetry_def)
qed

text \<open>
  The exponent lists of the flat earth polynomial of degree \<open>d\<close> pair up to every monomial of
  total degree at most \<open>d\<close>, once: the kernel that evaluates the polynomial sees the terms in the order
  in which the coefficients were fitted, by degree and then by the power of the second variable.
\<close>

theorem GetPows_monomials:
  "zip (GetXPows d) (GetYPows d) = concat (map (\<lambda>i. map (\<lambda>j. (i - j, j)) [0..i]) [0..d])
    \<and> set (zip (GetXPows d) (GetYPows d)) = {(a, b). 0 \<le> a \<and> 0 \<le> b \<and> a + b \<le> d}
    \<and> distinct (zip (GetXPows d) (GetYPows d))"
proof (intro conjI)
  show "zip (GetXPows d) (GetYPows d) = concat (map (\<lambda>i. map (\<lambda>j. (i - j, j)) [0..i]) [0..d])"
    by (simp add: pows_pairs monomial_row_def [abs_def])
  show "set (zip (GetXPows d) (GetYPows d)) = {(a, b). 0 \<le> a \<and> 0 \<le> b \<and> a + b \<le> d}"
    by (auto simp: pows_pairs monomial_row_set)
  show "distinct (zip (GetXPows d) (GetYPows d))" by (simp add: pows_pairs monomial_rows_distinct)
qed

end
