(* ===== verification/CohRunner.thy ===== *)
theory CohRunner
  imports CohTiles "HOL-Library.Multiset"
begin

text \<open>
  How the coherence tiles are worked off: \<open>ThreadSafeTileQueue\<close>
  (\<^verbatim>\<open>util/common/include/tile_queue.h\<close>) and the worker threads of \<open>CUDAAlgorithmRunner\<close>
  (\<^verbatim>\<open>algs/coherence-cuda/src/cuda_algorithm_runner.cc\<close>).

  The threads share the queue, the exception slot and the output; each access is made under a mutex, so
  a run is an interleaving of atomic steps: start up, look at the exception slot, pop a tile, read and
  compute it, write it. What the device and the raster library do in a step is only whether it
  succeeds or which exception it throws.
\<close>

section \<open>The queue\<close>

record 'a tile_queue =
  tiles :: "'a list"
  queue_index :: nat

definition ThreadSafeTileQueue :: "'a tile_queue" where
  "ThreadSafeTileQueue = \<lparr>tiles = [], queue_index = 0\<rparr>"

definition InsertData :: "'a list \<Rightarrow> 'a tile_queue \<Rightarrow> 'a tile_queue" where
  "InsertData ts q = q\<lparr>queue_index := 0, tiles := ts\<rparr>"

definition PopFront :: "'a tile_queue \<Rightarrow> ('a tile_queue \<times> 'a option) res" where
  "PopFront q =
     (if queue_index q = length (tiles q) then Inr (q, None)
      else bind_res (vec_at (tiles q) (int (queue_index q))) (\<lambda>dest.
           Inr (q\<lparr>queue_index := queue_index q + 1\<rparr>, Some dest)))"

text \<open>What a client of a work queue relies on.\<close>

locale work_queue =
  fixes valid :: "'q \<Rightarrow> bool"
    and left :: "'q \<Rightarrow> 'a list"
    and fill :: "'a list \<Rightarrow> 'q \<Rightarrow> 'q"
    and pop :: "'q \<Rightarrow> ('q \<times> 'a option) res"
  assumes valid_fill: "valid (fill xs q)"
    and left_fill: "left (fill xs q) = xs"
    and pop_none: "valid q \<Longrightarrow> left q = [] \<Longrightarrow> \<exists>q'. pop q = Inr (q', None) \<and> valid q' \<and> left q' = []"
    and pop_some: "valid q \<Longrightarrow> left q = x # xs \<Longrightarrow> \<exists>q'. pop q = Inr (q', Some x) \<and> valid q' \<and> left q' = xs"
begin

lemma pop_cases:
  assumes "valid q"
  obtains (none) q' where "pop q = Inr (q', None)" "valid q'" "left q = []" "left q' = []"
  | (some) q' x where "pop q = Inr (q', Some x)" "valid q'" "left q = x # left q'"
proof (cases "left q")
  case Nil
  then show ?thesis using pop_none [OF assms] none by blast
next
  case (Cons x xs)
  then show ?thesis using pop_some [OF assms] some by blast
qed

end

definition queue_valid :: "'a tile_queue \<Rightarrow> bool" where
  "queue_valid q \<longleftrightarrow> queue_index q \<le> length (tiles q)"

definition queue_left :: "'a tile_queue \<Rightarrow> 'a list" where
  "queue_left q = drop (queue_index q) (tiles q)"

interpretation tile_work: work_queue queue_valid queue_left InsertData PopFront
proof
  fix xs ys :: "'a list" and x :: 'a and q :: "'a tile_queue"
  show "queue_valid (InsertData xs q)" by (simp add: queue_valid_def InsertData_def)
  show "queue_left (InsertData xs q) = xs" by (simp add: queue_left_def InsertData_def)
  assume v: "queue_valid q"
  show "\<exists>q'. PopFront q = Inr (q', None) \<and> queue_valid q' \<and> queue_left q' = []" if "queue_left q = []"
    using that v by (auto simp: PopFront_def queue_valid_def queue_left_def)
  show "\<exists>q'. PopFront q = Inr (q', Some x) \<and> queue_valid q' \<and> queue_left q' = xs" if l: "queue_left q = x # xs"
  proof -
    have "queue_index q < length (tiles q)"
    proof (rule ccontr)
      assume "\<not> queue_index q < length (tiles q)"
      then show False using l by (simp add: queue_left_def)
    qed
    then have i: "queue_index q < length (tiles q)" "tiles q ! queue_index q = x"
      "drop (Suc (queue_index q)) (tiles q) = xs"
      using l Cons_nth_drop_Suc [of "queue_index q" "tiles q"] by (simp_all add: queue_left_def)
    then show ?thesis using i by (simp add: PopFront_def vec_at_def queue_valid_def queue_left_def)
  qed
qed

section \<open>The threads\<close>

datatype 'a worker =
    Starting
  | Checking
  | Popping
  | Working 'a
  | Writing 'a
  | Finished

datatype outcome = Succeeds | Fails exn

record 'a runner =
  queue :: "'a tile_queue"
  exception :: "exn option"
  written :: "'a list"
  workers :: "'a worker list"

text \<open>The \<open>catch\<close> block keeps the first exception only.\<close>

definition catch :: "exn \<Rightarrow> 'a runner \<Rightarrow> 'a runner" where
  "catch e s = s\<lparr>exception := (case exception s of None \<Rightarrow> Some e | Some e0 \<Rightarrow> Some e0)\<rparr>"

text \<open>One atomic step of \<open>ThreadRun\<close>, with the outcome of what it calls.\<close>

definition ThreadRun :: "outcome \<Rightarrow> 'a worker \<Rightarrow> 'a runner \<Rightarrow> 'a worker \<times> 'a runner" where
  "ThreadRun out w s =
     (case w of
        Starting \<Rightarrow> (case out of Succeeds \<Rightarrow> (Checking, s) | Fails e \<Rightarrow> (Finished, catch e s))
      | Checking \<Rightarrow> (if exception s \<noteq> None then (Finished, s) else (Popping, s))
      | Popping \<Rightarrow>
          (case PopFront (queue s) of
             Inl e \<Rightarrow> (Finished, catch e s)
           | Inr (q, None) \<Rightarrow> (Finished, s\<lparr>queue := q\<rparr>)
           | Inr (q, Some t) \<Rightarrow> (Working t, s\<lparr>queue := q\<rparr>))
      | Working t \<Rightarrow> (case out of Succeeds \<Rightarrow> (Writing t, s) | Fails e \<Rightarrow> (Finished, catch e s))
      | Writing t \<Rightarrow>
          (case out of Succeeds \<Rightarrow> (Checking, s\<lparr>written := written s @ [t]\<rparr>)
           | Fails e \<Rightarrow> (Finished, catch e s))
      | Finished \<Rightarrow> (Finished, s))"

inductive thread_step :: "'a runner \<Rightarrow> 'a runner \<Rightarrow> bool" where
  step: "i < length (workers s) \<Longrightarrow> workers s ! i \<noteq> Finished \<Longrightarrow>
    ThreadRun out (workers s ! i) s = (w, s') \<Longrightarrow>
    thread_step s (s'\<lparr>workers := (workers s)[i := w]\<rparr>)"

text \<open>Runs with their number of steps.\<close>

inductive thread_steps :: "nat \<Rightarrow> 'a runner \<Rightarrow> 'a runner \<Rightarrow> bool" where
  none: "thread_steps 0 s s"
| more: "thread_steps n s t \<Longrightarrow> thread_step t u \<Longrightarrow> thread_steps (Suc n) s u"

text \<open>
  \<open>Run\<close>: the number of threads, the state in which they start, and, once all have been joined, the
  result.
\<close>

definition n_threads :: "'a list \<Rightarrow> nat" where
  "n_threads ts = (if length ts div 4 > 0 then 4 else 1)"

definition Run_start :: "'a list \<Rightarrow> 'a runner" where
  "Run_start ts =
     \<lparr>queue = InsertData ts ThreadSafeTileQueue, exception = None, written = [],
      workers = replicate (n_threads ts) Starting\<rparr>"

definition Run_finished :: "'a runner \<Rightarrow> bool" where
  "Run_finished s \<longleftrightarrow> (\<forall>w\<in>set (workers s). w = Finished)"

definition Run_result :: "'a runner \<Rightarrow> unit res" where
  "Run_result s = (case exception s of None \<Rightarrow> Inr () | Some e \<Rightarrow> Inl e)"

text \<open>The size of the host buffer every thread allocates, in elements; the products are computed in \<open>int\<close>.\<close>

definition max_in_tile_sz :: "coh_tile list \<Rightarrow> int res" where
  "max_in_tile_sz ts =
     fold_res (\<lambda>e m. bind_res (int_result (GetYSize (tile_in e) * GetXSize (tile_in e))) (\<lambda>tile_sz.
                  Inr (if tile_sz > m then tile_sz else m))) ts 0"

section \<open>The invariant of a run\<close>

fun held :: "'a worker \<Rightarrow> 'a multiset" where
  "held (Working t) = {#t#}"
| "held (Writing t) = {#t#}"
| "held _ = {#}"

definition in_hand :: "'a runner \<Rightarrow> 'a multiset" where
  "in_hand s = (\<Sum>w\<leftarrow>workers s. held w)"

definition tiles_left :: "'a runner \<Rightarrow> 'a list" where
  "tiles_left s = queue_left (queue s)"

text \<open>
  Every tile is waiting, in the hand of one thread or written, and none of them twice; unless a thread
  has failed none is lost, and a thread only finishes when the queue is empty.
\<close>

definition runner_invariant :: "'a list \<Rightarrow> 'a runner \<Rightarrow> bool" where
  "runner_invariant ts s \<longleftrightarrow>
     queue_valid (queue s) \<and> length (workers s) = n_threads ts \<and>
     mset (written s) + in_hand s + mset (tiles_left s) \<subseteq># mset ts \<and>
     (exception s = None \<longrightarrow>
        mset (written s) + in_hand s + mset (tiles_left s) = mset ts \<and>
        (Finished \<in> set (workers s) \<longrightarrow> tiles_left s = []))"

lemma in_hand_start: "in_hand (Run_start ts) = {#}"
proof -
  have "sum_list (replicate n {#}) = ({#} :: 'a multiset)" for n by (induction n) simp_all
  then show ?thesis by (simp add: in_hand_def Run_start_def)
qed

lemma runner_invariant_start: "runner_invariant ts (Run_start ts)"
  unfolding runner_invariant_def in_hand_start
  by (simp add: Run_start_def tiles_left_def tile_work.valid_fill tile_work.left_fill)

lemma catch_sel [simp]:
  "queue (catch e s) = queue s" "written (catch e s) = written s" "workers (catch e s) = workers s"
  "exception (catch e s) = (case exception s of None \<Rightarrow> Some e | Some e0 \<Rightarrow> Some e0)"
  by (simp_all add: catch_def)

lemma catch_not_None [simp]: "exception (catch e s) \<noteq> None"
  by (simp split: option.split)

text \<open>What one step does to the tiles, per program point.\<close>

lemma ThreadRun_tiles:
  assumes "queue_valid (queue s)" and "ThreadRun out w s = (w', s')"
  shows "queue_valid (queue s') \<and> workers s' = workers s \<and>
    mset (written s') + held w' + mset (tiles_left s') \<subseteq># mset (written s) + held w + mset (tiles_left s) \<and>
    (exception s' = None \<longrightarrow> exception s = None \<and>
       mset (written s') + held w' + mset (tiles_left s') = mset (written s) + held w + mset (tiles_left s) \<and>
       (tiles_left s = [] \<longrightarrow> tiles_left s' = []) \<and>
       (w' = Finished \<longrightarrow> w = Finished \<or> tiles_left s' = []))"
proof (cases w)
  case Popping
  show ?thesis
  proof (cases rule: tile_work.pop_cases [OF assms(1)])
    case (1 q)
    then show ?thesis using assms Popping by (auto simp: ThreadRun_def tiles_left_def)
  next
    case (2 q t)
    then show ?thesis using assms Popping by (auto simp: ThreadRun_def tiles_left_def)
  qed
next
  case (Writing t)
  then show ?thesis using assms
    by (cases out) (auto simp: ThreadRun_def tiles_left_def split: option.splits)
next
  case (Working t)
  then show ?thesis using assms
    by (cases out) (auto simp: ThreadRun_def tiles_left_def split: option.splits)
next
  case Starting
  then show ?thesis using assms
    by (cases out) (auto simp: ThreadRun_def tiles_left_def split: option.splits)
next
  case Checking
  then show ?thesis using assms by (auto simp: ThreadRun_def tiles_left_def split: if_splits)
next
  case Finished
  then show ?thesis using assms by (auto simp: ThreadRun_def tiles_left_def)
qed

lemma in_hand_update:
  assumes "i < length (workers s)"
  shows "in_hand (s\<lparr>workers := (workers s)[i := w]\<rparr>) + held (workers s ! i) = in_hand s + held w"
  using sum_list_replace [OF assms, of held w] by (simp add: in_hand_def)

lemma in_hand_record: "workers s' = ws \<Longrightarrow> in_hand (s'\<lparr>workers := us\<rparr>) = (\<Sum>w\<leftarrow>us. held w)"
  by (simp add: in_hand_def)

lemma runner_invariant_step:
  assumes "thread_step s t" and inv: "runner_invariant ts s"
  shows "runner_invariant ts t"
  using assms(1)
proof cases
  case (step i out w s')
  note run = ThreadRun_tiles [OF _ step(4)]
  have q: "queue_valid (queue s)" using inv by (simp add: runner_invariant_def)
  let ?h = "\<Sum>w\<leftarrow>(workers s)[i := w]. held w"
  let ?w = "workers s ! i"
  have h: "?h + held ?w = in_hand s + held w"
    using sum_list_replace [OF step(2), of held w] by (simp add: in_hand_def)
  have new: "in_hand t = ?h" "written t = written s'" "tiles_left t = tiles_left s'"
      "exception t = exception s'" "queue t = queue s'" "workers t = (workers s)[i := w]"
    by (simp_all add: step(1) in_hand_def tiles_left_def)
  have sub: "mset (written s') + ?h + mset (tiles_left s')
      \<subseteq># mset (written s) + in_hand s + mset (tiles_left s)"
  proof -
    have "mset (written s') + held w + mset (tiles_left s') + (?h + held ?w)
        \<subseteq># mset (written s) + held ?w + mset (tiles_left s) + (in_hand s + held w)"
      unfolding h using run [OF q] by (intro subset_mset.add_right_mono) blast
    then have "(mset (written s') + ?h + mset (tiles_left s')) + (held w + held ?w)
        \<subseteq># (mset (written s) + in_hand s + mset (tiles_left s)) + (held w + held ?w)"
      by (simp add: ac_simps)
    then show ?thesis by (simp only: subset_mset.add_le_cancel_right)
  qed
  have eq: "mset (written s') + ?h + mset (tiles_left s')
      = mset (written s) + in_hand s + mset (tiles_left s)" if "exception s' = None"
  proof -
    have "mset (written s') + held w + mset (tiles_left s') + (?h + held ?w)
        = mset (written s) + held ?w + mset (tiles_left s) + (in_hand s + held w)"
      unfolding h using run [OF q] that by (rule_tac arg_cong2 [where f = "(+)"]) blast+
    then have "(mset (written s') + ?h + mset (tiles_left s')) + (held w + held ?w)
        = (mset (written s) + in_hand s + mset (tiles_left s)) + (held w + held ?w)"
      by (simp only: ac_simps)
    then show ?thesis by (simp only: add_right_cancel)
  qed
  have fin: "tiles_left s' = []" if "exception s' = None" "Finished \<in> set ((workers s)[i := w])"
  proof (cases "w = Finished")
    case True
    then show ?thesis using run [OF q] that step(3) by auto
  next
    case False
    then have "Finished \<in> set (workers s)"
      using that(2) set_update_subset_insert [of "workers s" i w] by auto
    then show ?thesis using run [OF q] that inv by (auto simp: runner_invariant_def)
  qed
  show ?thesis
    unfolding runner_invariant_def new
  proof (intro conjI impI)
    show "queue_valid (queue s')" using run [OF q] by blast
    show "length ((workers s)[i := w]) = n_threads ts" using inv by (simp add: runner_invariant_def)
    have "mset (written s) + in_hand s + mset (tiles_left s) \<subseteq># mset ts"
      using inv unfolding runner_invariant_def by blast
    with sub show "mset (written s') + ?h + mset (tiles_left s') \<subseteq># mset ts"
      by (rule subset_mset.order_trans)
    assume none: "exception s' = None"
    then have "mset (written s) + in_hand s + mset (tiles_left s) = mset ts"
      using run [OF q] inv unfolding runner_invariant_def by blast
    with eq [OF none] show "mset (written s') + ?h + mset (tiles_left s') = mset ts" by (rule trans)
    assume "Finished \<in> set ((workers s)[i := w])"
    with none show "tiles_left s' = []" by (rule fin)
  qed
qed

lemma runner_invariant_steps:
  assumes "thread_steps n (Run_start ts) s"
  shows "runner_invariant ts s"
  using assms
  by (induction n "Run_start ts" s rule: thread_steps.induct)
    (auto intro: runner_invariant_start runner_invariant_step)

section \<open>Every run ends\<close>

fun rank :: "'a worker \<Rightarrow> nat" where
  "rank Finished = 0"
| "rank Popping = 1"
| "rank Checking = 2"
| "rank Starting = 3"
| "rank (Writing t) = 3"
| "rank (Working t) = 4"

definition work_left :: "'a runner \<Rightarrow> nat" where
  "work_left s = 4 * length (tiles_left s) + (\<Sum>w\<leftarrow>workers s. rank w)"

lemma ThreadRun_rank:
  assumes "queue_valid (queue s)" and "ThreadRun out w s = (w', s')" and "w \<noteq> Finished"
  shows "4 * length (tiles_left s') + rank w' < 4 * length (tiles_left s) + rank w"
proof (cases w)
  case Popping
  show ?thesis
  proof (cases rule: tile_work.pop_cases [OF assms(1)])
    case (1 q)
    then show ?thesis using assms Popping by (auto simp: ThreadRun_def tiles_left_def)
  next
    case (2 q t)
    then show ?thesis using assms Popping by (auto simp: ThreadRun_def tiles_left_def)
  qed
qed (use assms in \<open>auto simp: ThreadRun_def tiles_left_def split: outcome.splits if_splits\<close>)

lemma work_left_step:
  assumes "thread_step s t" and "queue_valid (queue s)"
  shows "work_left t < work_left s"
  using assms(1)
proof cases
  case (step i out w s')
  have "work_left t = 4 * length (tiles_left s') + (\<Sum>w\<leftarrow>(workers s)[i := w]. rank w)"
    by (simp add: step(1) work_left_def tiles_left_def)
  then show ?thesis
    using sum_list_replace [OF step(2), of rank w] ThreadRun_rank [OF assms(2) step(4) step(3)]
    by (simp add: work_left_def)
qed

lemma work_left_steps:
  assumes "thread_steps n (Run_start ts) s"
  shows "n + work_left s \<le> 4 * length ts + 3 * n_threads ts"
  using assms
proof (induction n "Run_start ts" s rule: thread_steps.induct)
  case none
  show ?case
    by (simp add: work_left_def tiles_left_def Run_start_def tile_work.left_fill sum_list_replicate)
next
  case (more n t u)
  have "queue_valid (queue t)"
    using runner_invariant_steps [OF more(1)] by (simp add: runner_invariant_def)
  then have "work_left u < work_left t" using work_left_step more(3) by blast
  then show ?case using more(2) by simp
qed

lemma thread_step_possible:
  assumes "\<not> Run_finished s"
  shows "\<exists>t. thread_step s t"
proof -
  obtain i where i: "i < length (workers s)" "workers s ! i \<noteq> Finished"
    using assms by (auto simp: Run_finished_def in_set_conv_nth)
  obtain w s' where "ThreadRun Succeeds (workers s ! i) s = (w, s')" by fastforce
  from thread_step.step [OF i this] show ?thesis by blast
qed

text \<open>Schedules: which thread moves, and with what outcome. They compute the runs.\<close>

fun run_schedule :: "(nat \<times> outcome) list \<Rightarrow> 'a runner \<Rightarrow> 'a runner option" where
  "run_schedule [] s = Some s"
| "run_schedule ((i, out) # sch) s =
     (if i < length (workers s) \<and> workers s ! i \<noteq> Finished
      then case ThreadRun out (workers s ! i) s of
             (w, s') \<Rightarrow> run_schedule sch (s'\<lparr>workers := (workers s)[i := w]\<rparr>)
      else None)"

lemma thread_steps_front: "thread_steps n t u \<Longrightarrow> thread_step s t \<Longrightarrow> thread_steps (Suc n) s u"
  by (induction n t u rule: thread_steps.induct) (auto intro: thread_steps.intros)

lemma run_schedule_steps: "run_schedule sch s = Some t \<Longrightarrow> thread_steps (length sch) s t"
  by (induction sch s rule: run_schedule.induct)
    (auto intro: thread_steps.none thread_steps_front thread_step.step split: if_splits prod.splits)

section \<open>The host buffer\<close>

lemma max_in_tile_fold:
  assumes "\<forall>t\<in>set ts. int32_range (GetYSize (tile_in t) * GetXSize (tile_in t))"
  shows "\<exists>k. fold_res (\<lambda>e m. bind_res (int_result (GetYSize (tile_in e) * GetXSize (tile_in e))) (\<lambda>tile_sz.
      Inr (if tile_sz > m then tile_sz else m))) ts m = Inr k \<and> m \<le> k \<and>
    (\<forall>t\<in>set ts. GetYSize (tile_in t) * GetXSize (tile_in t) \<le> k)"
  using assms
proof (induction ts arbitrary: m)
  case (Cons t ts)
  have "\<forall>t\<in>set ts. int32_range (GetYSize (tile_in t) * GetXSize (tile_in t))" using Cons.prems by simp
  note ih = Cons.IH [OF this, of "max m (GetYSize (tile_in t) * GetXSize (tile_in t))"]
  have "(if GetYSize (tile_in t) * GetXSize (tile_in t) > m then GetYSize (tile_in t) * GetXSize (tile_in t) else m)
      = max m (GetYSize (tile_in t) * GetXSize (tile_in t))" by (simp add: max_def)
  then show ?case using ih Cons.prems by auto
qed simp

section \<open>The properties\<close>

text \<open>
  C7. Concurrency of the coherence calculation, safety: in every interleaving of the worker threads,
  at any moment and whatever fails, no tile has been written twice and none is in the hands of two
  threads; when all threads have finished without an exception, exactly the tiles of the list have been
  written.
\<close>

theorem runner_writes_once:
  assumes "thread_steps n (Run_start ts) s"
  shows "mset (written s) + in_hand s \<subseteq># mset ts
    \<and> (Run_finished s \<and> Run_result s = Inr () \<longrightarrow> mset (written s) = mset ts)"
proof
  have inv: "runner_invariant ts s" by (rule runner_invariant_steps [OF assms])
  then have "mset (written s) + in_hand s + mset (tiles_left s) \<subseteq># mset ts"
    by (simp add: runner_invariant_def)
  moreover have "mset (written s) + in_hand s \<subseteq># mset (written s) + in_hand s + mset (tiles_left s)"
    by (rule mset_subset_eq_add_left)
  ultimately show "mset (written s) + in_hand s \<subseteq># mset ts" by (rule subset_mset.order_trans [rotated])
  show "Run_finished s \<and> Run_result s = Inr () \<longrightarrow> mset (written s) = mset ts"
  proof
    assume fin: "Run_finished s \<and> Run_result s = Inr ()"
    then have none: "exception s = None" by (auto simp: Run_result_def split: option.splits)
    have "0 < length (workers s)" using inv by (simp add: runner_invariant_def n_threads_def)
    then obtain w where "w \<in> set (workers s)" by (cases "workers s") auto
    then have "Finished \<in> set (workers s)" using fin by (auto simp: Run_finished_def)
    then have "tiles_left s = []" using inv none unfolding runner_invariant_def by blast
    moreover have "in_hand s = {#}"
    proof -
      have "\<forall>w\<in>set ws. held w = {#} \<Longrightarrow> (\<Sum>w\<leftarrow>ws. held w) = {#}" for ws :: "'a worker list"
        by (induction ws) simp_all
      moreover have "\<forall>w\<in>set (workers s). held w = {#}"
        using fin unfolding Run_finished_def by (metis held.simps(6))
      ultimately show ?thesis unfolding in_hand_def by blast
    qed
    ultimately show "mset (written s) = mset ts" using inv none unfolding runner_invariant_def by simp
  qed
qed

text \<open>A run of one thread over two tiles that ends normally.\<close>

definition two_tiles_end :: "nat runner" where
  "two_tiles_end = \<lparr>queue = \<lparr>tiles = [5, 7], queue_index = 2\<rparr>, exception = None, written = [5, 7],
     workers = [Finished]\<rparr>"

lemma two_tiles_run: "thread_steps 11 (Run_start [5, 7]) two_tiles_end"
proof -
  have "run_schedule (replicate 11 (0, Succeeds)) (Run_start [5, 7]) = Some two_tiles_end"
    by code_simp
  from run_schedule_steps [OF this] show ?thesis by simp
qed

theorem runner_writes_once_witness: "mset [5::nat, 7] = mset [5, 7] \<and> mset [5::nat, 7] + {#} \<subseteq># mset [5, 7]"
  using runner_writes_once [OF two_tiles_run]
  by (simp add: in_hand_def Run_finished_def Run_result_def two_tiles_end_def)

text \<open>
  C8. Concurrency of the coherence calculation, liveness: whatever the scheduler and the outcomes, a run
  over \<open>k\<close> tiles makes at most \<open>4 k + 12\<close> steps, and as long as one thread is not finished some thread can
  make a step, so \<open>join\<close> always returns; the exception that \<open>Run\<close> rethrows is the first one recorded.
\<close>

theorem runner_terminates:
  assumes "thread_steps n (Run_start ts) s"
  shows "n \<le> 4 * length ts + 12 \<and> (\<not> Run_finished s \<longrightarrow> (\<exists>t. thread_step s t))
    \<and> (\<forall>t e. thread_step s t \<and> Run_result s = Inl e \<longrightarrow> Run_result t = Inl e)"
proof (intro conjI allI impI)
  have "n_threads ts \<le> 4" by (simp add: n_threads_def)
  then show "n \<le> 4 * length ts + 12" using work_left_steps [OF assms] by linarith
  show "\<exists>t. thread_step s t" if "\<not> Run_finished s" using that by (rule thread_step_possible)
  fix t e assume *: "thread_step s t \<and> Run_result s = Inl e"
  then have e: "exception s = Some e" by (auto simp: Run_result_def split: option.splits)
  from * obtain i out w s' where t: "t = s'\<lparr>workers := (workers s)[i := w]\<rparr>"
    and run: "ThreadRun out (workers s ! i) s = (w, s')" by (auto elim: thread_step.cases)
  have "exception s' = Some e"
    using run e by (auto simp: ThreadRun_def split: worker.splits outcome.splits sum.splits option.splits)
  then show "Run_result t = Inl e" by (simp add: t Run_result_def)
qed

theorem runner_terminates_witness:
  "(11::nat) \<le> 4 * length [5::nat, 7] + 12"
  using runner_terminates [OF two_tiles_run] by simp

text \<open>
  C9. The host buffer: for the tiles of the generator, when a burst over the whole width of the raster has fewer than
  \<open>2 ^ 31\<close> pixels, the sizes are computed without overflow and the buffer allocated by \<open>Run\<close> for the largest
  read area holds what every thread reads into it and what it copies back into it for writing.
\<close>

theorem runner_buffer_fits:
  assumes "coh_parameters g" and "GenerateTiles g = Inr ts" and "lines_per_burst g * band_x_size g < 2 ^ 31"
  shows "\<exists>m. max_in_tile_sz ts = Inr m \<and>
    (\<forall>t\<in>set ts. GetXSize (tile_in t) * GetYSize (tile_in t) \<le> m \<and> GetXSize (tile_out t) * GetYSize (tile_out t) \<le> m)"
proof -
  note p = coh_acceptedD [OF coh_parameters_accepted [OF assms(1)]]
  have size: "int32_range (GetYSize (tile_in t) * GetXSize (tile_in t)) \<and>
      GetXSize (tile_out t) * GetYSize (tile_out t) \<le> GetYSize (tile_in t) * GetXSize (tile_in t)" if t_in: "t \<in> set ts" for t
  proof -
    obtain tx ty where tx: "0 \<le> tx" "tx < coh_x_tiles g"
      and t: "t = coh_tile_at g (half_window (coh_win_rg g)) (half_window (coh_win_az g))
                (asymmetry (coh_win_rg g)) (coh_x_tiles g) ty tx"
      using coh_tile_in_list [OF assms(1,2) t_in] by metis
    obtain lp rp lo hi where cols: "coh_columns g (half_window (coh_win_rg g)) (asymmetry (coh_win_rg g))
        (coh_x_tiles g) tx = (lp, rp, lo, hi)" by (metis prod_cases4)
    have "GetXSize (tile_out t) = (if tx = coh_x_tiles g - 1 then band_x_size g - tile_x_size g * tx
        else tile_x_size g)" "GetXSize (tile_in t) = hi - lo + 1"
      by (simp_all add: t coh_tile_at_def Let_def cols GetXSize_def)
    then have w: "GetXSize (tile_out t) \<le> GetXSize (tile_in t)" "0 \<le> GetXSize (tile_in t)" "GetXSize (tile_in t) \<le> band_x_size g"
      using coh_columns_window(3,4) [OF assms(1) tx cols] coh_last_columns(1) [OF assms(1)] p(1)
      by (auto simp: distrib_left split: if_splits)
    have h: "GetYSize (tile_in t) = lines_per_burst g" "GetYSize (tile_out t) = lines_per_burst g"
      by (simp_all add: t coh_tile_at_def Let_def cols GetYSize_def)
    have "lines_per_burst g * GetXSize (tile_in t) \<le> lines_per_burst g * band_x_size g"
      "lines_per_burst g * GetXSize (tile_out t) \<le> lines_per_burst g * GetXSize (tile_in t)"
      "0 \<le> lines_per_burst g * GetXSize (tile_in t)"
      using w p(3) by simp_all
    then show ?thesis using assms(3) by (simp add: h int32_range_def mult.commute)
  qed
  obtain m where m: "max_in_tile_sz ts = Inr m" "\<forall>t\<in>set ts. GetYSize (tile_in t) * GetXSize (tile_in t) \<le> m"
    using max_in_tile_fold [of ts 0] size unfolding max_in_tile_sz_def by blast
  have "GetXSize (tile_in t) * GetYSize (tile_in t) \<le> m \<and> GetXSize (tile_out t) * GetYSize (tile_out t) \<le> m"
    if t_in: "t \<in> set ts" for t
    using size [OF t_in] m(2) t_in by (auto simp: mult.commute [of "GetXSize (tile_in t)"] intro: order_trans)
  then show ?thesis using m(1) by blast
qed

theorem runner_buffer_fits_witness:
  "\<exists>ts m. GenerateTiles coh_example = Inr ts \<and> max_in_tile_sz ts = Inr m \<and> ts \<noteq> [] \<and>
     GetXSize (tile_out (hd ts)) * GetYSize (tile_out (hd ts)) \<le> m"
proof -
  obtain ts where ts: "GenerateTiles coh_example = Inr ts" "ts \<noteq> []"
    unfolding GenerateTiles_eq [OF coh_parameters_accepted [OF coh_example_parameters]]
    by (simp add: coh_example_def coh_x_tiles_def coh_y_tiles_def ceil_div_def half_window_def
        upto_rec1)
  have "lines_per_burst coh_example * band_x_size coh_example < 2 ^ 31" by (simp add: coh_example_def)
  then show ?thesis using runner_buffer_fits [OF coh_example_parameters ts(1)] ts by (meson list.set_sel(1))
qed

end
