(* ===== verification/Tyler.thy ===== *)
theory Tyler
  imports RasterTiles
begin

text \<open>
  The tiling of resampled rasters (\<^verbatim>\<open>algs/resample/src/tyler_the_creator.cc\<close>): \<open>CreateTiles\<close> cuts an
  image into tiles that overlap by a given number of pixels and gives each its position, size, number
  and geographic origin. Sizes and positions are \<open>size_t\<close> words and conversions to \<open>int\<close> keep the
  lower 32 bits, as in the code; the two loops run until the position passes the image, so they are
  partial functions, and that they end is part of the theorem.
\<close>

record raster_dimension =
  columnsX :: int
  rowsY :: int

record pixel_position =
  pos_x :: int
  pos_y :: int

record geo_transform =
  originLon :: fp
  originLat :: fp
  pixelSizeLon :: fp
  pixelSizeLat :: fp

record tile_construct =
  image_dimension :: raster_dimension
  image_gt :: geo_transform
  tile_dimension :: raster_dimension
  overlap :: u64

record tile_properties =
  offset :: pixel_position
  gt :: geo_transform
  dimension :: raster_dimension
  tile_no_x :: u64
  tile_no_y :: u64

section \<open>The check of the sizes\<close>

text \<open>\<open>static_cast<int>\<close> of a \<open>size_t\<close>.\<close>

definition int_of_size :: "u64 \<Rightarrow> int" where
  "int_of_size n = sint (ucast n :: 32 word)"

definition CheckTileSize :: "raster_dimension \<Rightarrow> raster_dimension \<Rightarrow> u64 \<Rightarrow> unit res" where
  "CheckTileSize image_dim tile_dim ov =
     (if columnsX tile_dim < 1 \<or> rowsY tile_dim < 1 then Inl Invalid_argument
      else if \<not> int32_range (columnsX tile_dim + int_of_size ov) then Inl Undefined_behaviour
      else if columnsX tile_dim + int_of_size ov > columnsX image_dim then Inl Invalid_argument
      else if \<not> int32_range (rowsY tile_dim + int_of_size ov) then Inl Undefined_behaviour
      else if rowsY tile_dim + int_of_size ov > rowsY image_dim then Inl Invalid_argument
      else if c_div (columnsX tile_dim) 2 \<le> int_of_size ov \<or> c_div (rowsY tile_dim) 2 \<le> int_of_size ov
      then Inl Invalid_argument
      else Inr ())"

section \<open>The loops\<close>

definition std_clamp :: "u64 \<Rightarrow> u64 \<Rightarrow> u64 \<Rightarrow> u64" where
  "std_clamp v lo hi = (if v < lo then lo else if hi < v then hi else v)"

definition tile_at :: "tile_construct \<Rightarrow> fp \<Rightarrow> fp \<Rightarrow> u64 \<Rightarrow> u64 \<Rightarrow> u64 \<Rightarrow> u64 \<Rightarrow> u64 \<Rightarrow> u64 \<Rightarrow> tile_properties" where
  "tile_at c lat lon tile_y tile_y_end no_y tile_x tile_x_end no_x =
     \<lparr>offset = \<lparr>pos_x = int_of_size tile_x, pos_y = int_of_size tile_y\<rparr>,
      gt = \<lparr>originLon = lon, originLat = lat, pixelSizeLon = pixelSizeLon (image_gt c),
            pixelSizeLat = pixelSizeLat (image_gt c)\<rparr>,
      dimension = \<lparr>columnsX = int_of_size (tile_x_end - tile_x), rowsY = int_of_size (tile_y_end - tile_y)\<rparr>,
      tile_no_x = no_x, tile_no_y = no_y\<rparr>"

definition step_x :: "tile_construct \<Rightarrow> u64" where
  "step_x c = word_of_int (columnsX (tile_dimension c)) - overlap c"

definition step_y :: "tile_construct \<Rightarrow> u64" where
  "step_y c = word_of_int (rowsY (tile_dimension c)) - overlap c"

partial_function (option) tile_columns ::
    "tile_construct \<Rightarrow> fp \<Rightarrow> u64 \<Rightarrow> u64 \<Rightarrow> u64 \<Rightarrow> fp \<Rightarrow> u64 \<Rightarrow> u64 \<Rightarrow> tile_properties list option" where
  "tile_columns c lat tile_y tile_y_end no_y lon tile_x no_x =
     (let image_dim_x = word_of_int (columnsX (image_dimension c))
      in if tile_x < image_dim_x then
           let tile_x_end = std_clamp (tile_x + word_of_int (columnsX (tile_dimension c))) tile_x image_dim_x;
               prop = tile_at c lat lon tile_y tile_y_end no_y tile_x tile_x_end no_x
           in Option.bind
                (tile_columns c lat tile_y tile_y_end no_y
                   (fadd f64 lon (fmul f64 (fp_of_int f64 (uint (step_x c))) (pixelSizeLon (image_gt c))))
                   (tile_x + step_x c) (no_x + 1))
                (\<lambda>rest. Some (prop # rest))
         else Some [])"

partial_function (option) tile_rows ::
    "tile_construct \<Rightarrow> fp \<Rightarrow> u64 \<Rightarrow> u64 \<Rightarrow> tile_properties list option" where
  "tile_rows c lat tile_y no_y =
     (let image_dim_y = word_of_int (rowsY (image_dimension c))
      in if tile_y < image_dim_y then
           let tile_y_end = std_clamp (tile_y + word_of_int (rowsY (tile_dimension c))) tile_y image_dim_y
           in Option.bind (tile_columns c lat tile_y tile_y_end no_y (originLon (image_gt c)) 0 1)
                (\<lambda>row. Option.bind
                   (tile_rows c
                      (fadd f64 lat (fmul f64 (fp_of_int f64 (uint (step_y c))) (pixelSizeLat (image_gt c))))
                      (tile_y + step_y c) (no_y + 1))
                   (\<lambda>rest. Some (row @ rest)))
         else Some [])"

definition CreateTiles :: "tile_construct \<Rightarrow> tile_properties list res option" where
  "CreateTiles c =
     (case CheckTileSize (image_dimension c) (tile_dimension c) (overlap c) of
        Inl e \<Rightarrow> Some (Inl e)
      | Inr _ \<Rightarrow>
          Option.bind (tile_rows c (originLat (image_gt c)) 0 1) (\<lambda>tiles. Some (Inr tiles)))"

section \<open>Sizes as words\<close>

lemma uint_size: "0 \<le> i \<Longrightarrow> i < 2 ^ 63 \<Longrightarrow> uint (word_of_int i :: u64) = i"
  by (simp add: uint_word_of_int)

lemma size_less: "0 \<le> i \<Longrightarrow> i < 2 ^ 63 \<Longrightarrow> 0 \<le> j \<Longrightarrow> j < 2 ^ 63 \<Longrightarrow>
    (word_of_int i :: u64) < word_of_int j \<longleftrightarrow> i < j"
  by (simp add: word_less_alt uint_size)

lemma int_of_size_id:
  assumes "0 \<le> i" and "i < 2 ^ 31"
  shows "int_of_size (word_of_int i) = i"
proof -
  have "sint (ucast (word_of_int i :: u64) :: 32 word) = signed_take_bit 31 (uint (word_of_int i :: u64))"
    by (simp add: signed_ucast_eq)
  then show ?thesis using assms by (simp add: int_of_size_def uint_size signed_take_bit_int_eq_self)
qed

lemma int_of_size_diff:
  assumes "0 \<le> i - j" and "i - j < 2 ^ 31"
  shows "int_of_size (word_of_int i - word_of_int j) = i - j"
  using int_of_size_id [OF assms] by simp

lemma size_add: "(word_of_int i :: u64) + word_of_int j = word_of_int (i + j)"
  by simp

lemma std_clamp_end:
  assumes "0 \<le> x" "x < n" "n < 2 ^ 31" "0 < t" "t < 2 ^ 31"
  shows "std_clamp (word_of_int x + word_of_int t) (word_of_int x) (word_of_int n)
    = word_of_int (min (x + t) n)"
proof -
  have "\<not> (word_of_int (x + t) :: u64) < word_of_int x"
    using assms by (subst size_less) simp_all
  moreover have "(word_of_int n :: u64) < word_of_int (x + t) \<longleftrightarrow> n < x + t"
    using assms by (subst size_less) simp_all
  ultimately show ?thesis by (simp add: std_clamp_def min_def)
qed

section \<open>Sizes that pass the check\<close>

definition overlap_axis :: "int \<Rightarrow> int \<Rightarrow> int \<Rightarrow> bool" where
  "overlap_axis n t v \<longleftrightarrow> 0 < t \<and> 0 \<le> v \<and> v < t div 2 \<and> t + v \<le> n \<and> n < 2 ^ 31"

definition tiling_accepted :: "tile_construct \<Rightarrow> bool" where
  "tiling_accepted c \<longleftrightarrow>
     overlap_axis (columnsX (image_dimension c)) (columnsX (tile_dimension c)) (uint (overlap c)) \<and>
     overlap_axis (rowsY (image_dimension c)) (rowsY (tile_dimension c)) (uint (overlap c))"

lemma CheckTileSize_accepts:
  assumes "tiling_accepted c"
  shows "CheckTileSize (image_dimension c) (tile_dimension c) (overlap c) = Inr ()"
proof -
  have "overlap c = word_of_int (uint (overlap c))" by simp
  moreover have "0 \<le> uint (overlap c)" "uint (overlap c) < 2 ^ 31"
    using assms by (auto simp: tiling_accepted_def overlap_axis_def)
  ultimately have "int_of_size (overlap c) = uint (overlap c)" by (metis int_of_size_id)
  moreover have "int32_range (t + uint (overlap c))" if "overlap_axis n t (uint (overlap c))" for n t
  proof -
    have "0 < t" "t + uint (overlap c) \<le> n" "n < 2 ^ 31" "0 \<le> uint (overlap c)"
      using that by (simp_all add: overlap_axis_def)
    then show ?thesis unfolding int32_range_def by linarith
  qed
  then have "int32_range (columnsX (tile_dimension c) + uint (overlap c))"
    "int32_range (rowsY (tile_dimension c) + uint (overlap c))"
    using assms unfolding tiling_accepted_def by blast+
  ultimately show ?thesis
    using assms by (simp add: CheckTileSize_def tiling_accepted_def overlap_axis_def c_div_nonneg)
qed

lemma overlap_step: "overlap_axis n t v \<Longrightarrow> 0 < t - v \<and> t - v \<le> t \<and> t < 2 ^ 31 \<and> 0 < n"
  by (auto simp: overlap_axis_def)

lemma step_x_eq:
  "overlap_axis n (columnsX (tile_dimension c)) (uint (overlap c)) \<Longrightarrow>
    step_x c = word_of_int (columnsX (tile_dimension c) - uint (overlap c))"
  by (simp add: step_x_def)

lemma step_y_eq:
  "overlap_axis n (rowsY (tile_dimension c)) (uint (overlap c)) \<Longrightarrow>
    step_y c = word_of_int (rowsY (tile_dimension c) - uint (overlap c))"
  by (simp add: step_y_def)

section \<open>What the loops produce\<close>

definition lon_at :: "tile_construct \<Rightarrow> nat \<Rightarrow> fp" where
  "lon_at c k =
     ((\<lambda>lon. fadd f64 lon (fmul f64 (fp_of_int f64 (uint (step_x c))) (pixelSizeLon (image_gt c)))) ^^ k)
       (originLon (image_gt c))"

definition lat_at :: "tile_construct \<Rightarrow> nat \<Rightarrow> fp" where
  "lat_at c k =
     ((\<lambda>lat. fadd f64 lat (fmul f64 (fp_of_int f64 (uint (step_y c))) (pixelSizeLat (image_gt c)))) ^^ k)
       (originLat (image_gt c))"

text \<open>Position and end of the \<open>k\<close>-th tile of an axis.\<close>

definition start_at :: "int \<Rightarrow> int \<Rightarrow> nat \<Rightarrow> int" where
  "start_at t v k = (t - v) * int k"

definition end_at :: "int \<Rightarrow> int \<Rightarrow> int \<Rightarrow> nat \<Rightarrow> int" where
  "end_at n t v k = min (start_at t v k + t) n"

definition tiles_of_axis :: "int \<Rightarrow> int \<Rightarrow> int \<Rightarrow> nat" where
  "tiles_of_axis n t v = nat (ceil_div n (t - v))"

lemma start_below:
  assumes "overlap_axis n t v" and "k < tiles_of_axis n t v"
  shows "0 \<le> start_at t v k \<and> start_at t v k < n"
proof -
  have s: "0 < t - v" using overlap_step [OF assms(1)] by simp
  have "(t - v) * int k \<le> (t - v) * (ceil_div n (t - v) - 1)"
    using s assms(2) by (intro mult_left_mono) (simp_all add: tiles_of_axis_def)
  then have "(t - v) * int k < n"
    using ceil_div_bounds(2) [OF s, of n] unfolding mult.commute [of _ "t - v"] by linarith
  then show ?thesis using s by (simp add: start_at_def)
qed

lemma start_past:
  assumes "overlap_axis n t v"
  shows "n \<le> start_at t v (tiles_of_axis n t v) \<and> start_at t v (tiles_of_axis n t v) < 2 ^ 33"
proof -
  have s: "0 < t - v" "t - v < 2 ^ 31" "0 < n" "n < 2 ^ 31"
    using overlap_step [OF assms] assms by (auto simp: overlap_axis_def)
  have "int (tiles_of_axis n t v) = ceil_div n (t - v)"
    using ceil_div_pos [OF s(3,1)] by (simp add: tiles_of_axis_def)
  moreover have "(ceil_div n (t - v) - 1) * (t - v) = ceil_div n (t - v) * (t - v) - (t - v)"
    by (simp only: left_diff_distrib mult_1)
  moreover have "start_at t v (tiles_of_axis n t v) = ceil_div n (t - v) * (t - v)"
    using calculation(1) by (simp add: start_at_def)
  ultimately show ?thesis using ceil_div_bounds [OF s(1), of n] s by auto
qed

lemma start_Suc: "start_at t v k + (t - v) = start_at t v (Suc k)"
  by (simp add: start_at_def algebra_simps)

definition column_tile :: "tile_construct \<Rightarrow> fp \<Rightarrow> u64 \<Rightarrow> u64 \<Rightarrow> u64 \<Rightarrow> nat \<Rightarrow> tile_properties" where
  "column_tile c lat tile_y tile_y_end no_y k =
     (let t = columnsX (tile_dimension c); v = uint (overlap c); n = columnsX (image_dimension c)
      in tile_at c lat (lon_at c k) tile_y tile_y_end no_y (word_of_int (start_at t v k))
           (word_of_int (end_at n t v k)) (word_of_nat k + 1))"

lemma tile_columns_list:
  assumes ax: "overlap_axis (columnsX (image_dimension c)) (columnsX (tile_dimension c)) (uint (overlap c))"
  defines "n \<equiv> columnsX (image_dimension c)" and "t \<equiv> columnsX (tile_dimension c)" and "v \<equiv> uint (overlap c)"
  shows "k \<le> tiles_of_axis n t v \<Longrightarrow>
    tile_columns c lat ty ty' ny (lon_at c k) (word_of_int (start_at t v k)) (word_of_nat k + 1)
      = Some (map (column_tile c lat ty ty' ny) [k..<tiles_of_axis n t v])"
proof (induction "tiles_of_axis n t v - k" arbitrary: k)
  case 0
  then have k: "k = tiles_of_axis n t v" by simp
  have "\<not> (word_of_int (start_at t v k) :: u64) < word_of_int n"
    using start_past [OF ax, folded n_def t_def v_def] ax unfolding k
    by (subst size_less) (use overlap_step [OF ax] in \<open>auto simp: overlap_axis_def n_def\<close>)
  then show ?case by (subst tile_columns.simps) (simp add: k n_def Let_def)
next
  case (Suc m)
  then have k: "k < tiles_of_axis n t v" by simp
  note below = start_below [OF ax [folded n_def t_def v_def] k]
  have nt: "0 < t" "t < 2 ^ 31" "n < 2 ^ 31" "0 < n"
    using overlap_step [OF ax] ax by (auto simp: overlap_axis_def n_def t_def)
  have less: "(word_of_int (start_at t v k) :: u64) < word_of_int n"
    using below nt by (subst size_less) simp_all
  have clamp: "std_clamp (word_of_int (start_at t v k) + word_of_int t) (word_of_int (start_at t v k))
      (word_of_int n) = word_of_int (end_at n t v k)"
    using below nt std_clamp_end [of "start_at t v k" n t] by (simp only: end_at_def simp_thms)
  have lon: "fadd f64 (lon_at c k) (fmul f64 (fp_of_int f64 (uint (step_x c))) (pixelSizeLon (image_gt c)))
      = lon_at c (Suc k)"
    by (simp add: lon_at_def)
  have next_x: "word_of_int (start_at t v k) + step_x c = word_of_int (start_at t v (Suc k))"
    unfolding step_x_eq [OF ax] t_def [symmetric] v_def [symmetric] size_add start_Suc ..
  have no: "word_of_nat k + 1 + 1 = (word_of_nat (Suc k) + 1 :: u64)" by simp
  have "m = tiles_of_axis n t v - Suc k" "Suc k \<le> tiles_of_axis n t v" using Suc.hyps(2) k by simp_all
  note rest = Suc.hyps(1) [OF this]
  have "[k..<tiles_of_axis n t v] = k # [Suc k..<tiles_of_axis n t v]" using k by (rule upt_conv_Cons)
  then show ?case
    by (subst tile_columns.simps)
      (simp only: n_def [symmetric] t_def [symmetric] less clamp lon next_x no rest Let_def if_True
        bind.simps list.map column_tile_def v_def [symmetric])
qed

definition row_tiles :: "tile_construct \<Rightarrow> nat \<Rightarrow> tile_properties list" where
  "row_tiles c j =
     (let t = rowsY (tile_dimension c); v = uint (overlap c); n = rowsY (image_dimension c);
          nx = tiles_of_axis (columnsX (image_dimension c)) (columnsX (tile_dimension c)) v
      in map (column_tile c (lat_at c j) (word_of_int (start_at t v j)) (word_of_int (end_at n t v j))
                (word_of_nat j + 1)) [0..<nx])"

lemma tile_rows_list:
  assumes ac: "tiling_accepted c"
  defines "n \<equiv> rowsY (image_dimension c)" and "t \<equiv> rowsY (tile_dimension c)" and "v \<equiv> uint (overlap c)"
  shows "k \<le> tiles_of_axis n t v \<Longrightarrow>
    tile_rows c (lat_at c k) (word_of_int (start_at t v k)) (word_of_nat k + 1)
      = Some (concat (map (row_tiles c) [k..<tiles_of_axis n t v]))"
proof (induction "tiles_of_axis n t v - k" arbitrary: k)
  have ax: "overlap_axis (rowsY (image_dimension c)) (rowsY (tile_dimension c)) (uint (overlap c))"
    using ac by (simp add: tiling_accepted_def)
  {
    case 0
    then have k: "k = tiles_of_axis n t v" by simp
    have "\<not> (word_of_int (start_at t v k) :: u64) < word_of_int n"
      using start_past [OF ax, folded n_def t_def v_def] ax unfolding k
      by (subst size_less) (use overlap_step [OF ax] in \<open>auto simp: overlap_axis_def n_def\<close>)
    then show ?case by (subst tile_rows.simps) (simp add: k n_def Let_def)
  next
    case (Suc m)
    then have k: "k < tiles_of_axis n t v" by simp
    note below = start_below [OF ax [folded n_def t_def v_def] k]
    have nt: "0 < t" "t < 2 ^ 31" "n < 2 ^ 31" "0 < n"
      using overlap_step [OF ax] ax by (auto simp: overlap_axis_def n_def t_def)
    have less: "(word_of_int (start_at t v k) :: u64) < word_of_int n"
      using below nt by (subst size_less) simp_all
    have clamp: "std_clamp (word_of_int (start_at t v k) + word_of_int t) (word_of_int (start_at t v k))
        (word_of_int n) = word_of_int (end_at n t v k)"
      using below nt std_clamp_end [of "start_at t v k" n t] by (simp only: end_at_def simp_thms)
    have lat: "fadd f64 (lat_at c k) (fmul f64 (fp_of_int f64 (uint (step_y c))) (pixelSizeLat (image_gt c)))
        = lat_at c (Suc k)"
      by (simp add: lat_at_def)
    have next_y: "word_of_int (start_at t v k) + step_y c = word_of_int (start_at t v (Suc k))"
      unfolding step_y_eq [OF ax] t_def [symmetric] v_def [symmetric] size_add start_Suc ..
    have no: "word_of_nat k + 1 + 1 = (word_of_nat (Suc k) + 1 :: u64)" by simp
    have "m = tiles_of_axis n t v - Suc k" "Suc k \<le> tiles_of_axis n t v" using Suc.hyps(2) k by simp_all
    note rest = Suc.hyps(1) [OF this]
    have axx: "overlap_axis (columnsX (image_dimension c)) (columnsX (tile_dimension c)) (uint (overlap c))"
      using ac by (simp add: tiling_accepted_def)
    have row: "tile_columns c (lat_at c k) (word_of_int (start_at t v k)) (word_of_int (end_at n t v k))
        (word_of_nat k + 1) (originLon (image_gt c)) 0 1 = Some (row_tiles c k)"
      using tile_columns_list [OF axx, of 0 "lat_at c k" "word_of_int (start_at t v k)"
          "word_of_int (end_at n t v k)" "word_of_nat k + 1"]
      by (simp add: lon_at_def start_at_def row_tiles_def n_def t_def v_def Let_def)
    have "[k..<tiles_of_axis n t v] = k # [Suc k..<tiles_of_axis n t v]" using k by (rule upt_conv_Cons)
    then show ?case
      by (subst tile_rows.simps)
        (simp only: n_def [symmetric] t_def [symmetric] less clamp lat next_y no row rest Let_def if_True
          bind.simps list.map concat.simps)
  }
qed

section \<open>Coverage\<close>

definition tile_rectangle :: "tile_properties \<Rightarrow> rectangle" where
  "tile_rectangle t =
     mk_rect (pos_x (offset t)) (pos_y (offset t)) (columnsX (dimension t)) (rowsY (dimension t))"

lemma end_range:
  assumes "overlap_axis n t v" and "k < tiles_of_axis n t v"
  shows "start_at t v k < end_at n t v k \<and> end_at n t v k \<le> n \<and> end_at n t v k - start_at t v k \<le> t"
  using start_below [OF assms] overlap_step [OF assms(1)] by (simp add: end_at_def)

lemma column_tile_rectangle:
  assumes ac: "tiling_accepted c"
    and j: "j < tiles_of_axis (rowsY (image_dimension c)) (rowsY (tile_dimension c)) (uint (overlap c))"
    and i: "i < tiles_of_axis (columnsX (image_dimension c)) (columnsX (tile_dimension c)) (uint (overlap c))"
  shows "tile_rectangle (row_tiles c j ! i) =
    mk_rect (start_at (columnsX (tile_dimension c)) (uint (overlap c)) i)
      (start_at (rowsY (tile_dimension c)) (uint (overlap c)) j)
      (end_at (columnsX (image_dimension c)) (columnsX (tile_dimension c)) (uint (overlap c)) i
        - start_at (columnsX (tile_dimension c)) (uint (overlap c)) i)
      (end_at (rowsY (image_dimension c)) (rowsY (tile_dimension c)) (uint (overlap c)) j
        - start_at (rowsY (tile_dimension c)) (uint (overlap c)) j)"
proof -
  have ax: "overlap_axis (columnsX (image_dimension c)) (columnsX (tile_dimension c)) (uint (overlap c))"
    and ay: "overlap_axis (rowsY (image_dimension c)) (rowsY (tile_dimension c)) (uint (overlap c))"
    using ac by (simp_all add: tiling_accepted_def)
  have lim: "columnsX (image_dimension c) < 2 ^ 31" "rowsY (image_dimension c) < 2 ^ 31"
    using ax ay by (simp_all add: overlap_axis_def)
  note x = start_below [OF ax i] end_range [OF ax i] and y = start_below [OF ay j] end_range [OF ay j]
  show ?thesis
    using x y lim i
    by (simp add: tile_rectangle_def row_tiles_def column_tile_def tile_at_def Let_def int_of_size_id
        int_of_size_diff)
qed

lemma position_in_tile:
  assumes ax: "overlap_axis n t v" and p: "0 \<le> p" "p < n"
  obtains k where "k < tiles_of_axis n t v" "start_at t v k \<le> p" "p < end_at n t v k"
proof -
  have s: "0 < t - v" "t - v \<le> t" using overlap_step [OF ax] by simp_all
  define k where "k = nat (p div (t - v))"
  have k: "int k = p div (t - v)" using p s by (simp add: k_def pos_imp_zdiv_nonneg_iff)
  have lo: "start_at t v k \<le> p" and hi: "p < start_at t v k + (t - v)"
    using div_mult_mod_eq [of p "t - v"] pos_mod_sign [OF s(1), of p] pos_mod_bound [OF s(1), of p]
    unfolding start_at_def k mult.commute [of "t - v"] by linarith+
  have "int k * (t - v) < ceil_div n (t - v) * (t - v)"
    using lo p ceil_div_bounds(1) [OF s(1), of n] by (simp add: start_at_def mult.commute)
  then have "int k < ceil_div n (t - v)" using s(1) by (simp only: mult_less_cancel_right_pos)
  then have "k < tiles_of_axis n t v" by (simp add: tiles_of_axis_def zless_nat_eq_int_zless)
  then show ?thesis using lo hi s p by (intro that [of k]) (simp_all add: end_at_def)
qed

section \<open>The properties\<close>

text \<open>The sizes that pass the check are those above, as long as the overlap is below \<open>2 ^ 31\<close>.\<close>

lemma CheckTileSize_accepted:
  assumes "CheckTileSize (image_dimension c) (tile_dimension c) (overlap c) = Inr ()" and "uint (overlap c) < 2 ^ 31"
    and "columnsX (image_dimension c) < 2 ^ 31" "rowsY (image_dimension c) < 2 ^ 31"
  shows "tiling_accepted c"
proof -
  have "overlap c = word_of_int (uint (overlap c))" "0 \<le> uint (overlap c)" by simp_all
  then have "int_of_size (overlap c) = uint (overlap c)" using assms(2) by (metis int_of_size_id)
  then show ?thesis using assms
    by (auto simp: CheckTileSize_def tiling_accepted_def overlap_axis_def c_div_nonneg split: if_splits)
qed

text \<open>The part of an axis that two tiles share, one step apart.\<close>

lemma shared_part:
  fixes N T V x y a :: int
  assumes "y = x + (T - V)" and "a = min T (N - x)" and "y < N"
  shows "x + a - y = min V (N - y)"
  using assms by (auto simp: min_def)

lemma tiles_placed:
  assumes "tiling_accepted c"
  shows "\<exists>ts. CreateTiles c = Some (Inr ts)
    \<and> (\<forall>t\<in>set ts. rect_within (columnsX (image_dimension c)) (rowsY (image_dimension c)) (tile_rectangle t)
         \<and> columnsX (dimension t) = min (columnsX (tile_dimension c)) (columnsX (image_dimension c) - pos_x (offset t))
         \<and> rowsY (dimension t) = min (rowsY (tile_dimension c)) (rowsY (image_dimension c) - pos_y (offset t))
         \<and> pos_x (offset t) = (columnsX (tile_dimension c) - uint (overlap c)) * (uint (tile_no_x t) - 1)
         \<and> pos_y (offset t) = (rowsY (tile_dimension c) - uint (overlap c)) * (uint (tile_no_y t) - 1))
    \<and> (\<forall>p q. 0 \<le> p \<and> p < columnsX (image_dimension c) \<and> 0 \<le> q \<and> q < rowsY (image_dimension c) \<longrightarrow>
         (\<exists>t\<in>set ts. covers (tile_rectangle t) p q))"
proof -
  let ?v = "uint (overlap c)"
  let ?nx = "tiles_of_axis (columnsX (image_dimension c)) (columnsX (tile_dimension c)) ?v"
    and ?ny = "tiles_of_axis (rowsY (image_dimension c)) (rowsY (tile_dimension c)) ?v"
  have ax: "overlap_axis (columnsX (image_dimension c)) (columnsX (tile_dimension c)) ?v"
    and ay: "overlap_axis (rowsY (image_dimension c)) (rowsY (tile_dimension c)) ?v"
    using assms by (simp_all add: tiling_accepted_def)
  let ?ts = "concat (map (row_tiles c) [0..<?ny])"
  have ts: "CreateTiles c = Some (Inr ?ts)"
    using tile_rows_list [OF assms, of 0] CheckTileSize_accepts [OF assms]
    by (simp add: CreateTiles_def lat_at_def start_at_def)
  have mem: "t \<in> set ?ts \<longleftrightarrow> (\<exists>j i. j < ?ny \<and> i < ?nx \<and> t = row_tiles c j ! i)" for t
  proof -
    have "length (row_tiles c j) = ?nx" for j by (simp add: row_tiles_def Let_def)
    then show ?thesis by (auto simp: in_set_conv_nth)
  qed
  show ?thesis
  proof (intro exI [of _ ?ts] conjI ballI allI impI)
    show "CreateTiles c = Some (Inr ?ts)" by (rule ts)
    fix t assume "t \<in> set ?ts"
    then obtain i j where i: "i < ?nx" and j: "j < ?ny" and t: "t = row_tiles c j ! i" unfolding mem by blast
    note r = column_tile_rectangle [OF assms j i, folded t]
    note x = start_below [OF ax i] end_range [OF ax i] and y = start_below [OF ay j] end_range [OF ay j]
    have rect: "pos_x (offset t) = start_at (columnsX (tile_dimension c)) ?v i"
      "pos_y (offset t) = start_at (rowsY (tile_dimension c)) ?v j"
      "columnsX (dimension t) = end_at (columnsX (image_dimension c)) (columnsX (tile_dimension c)) ?v i
          - start_at (columnsX (tile_dimension c)) ?v i"
      "rowsY (dimension t) = end_at (rowsY (image_dimension c)) (rowsY (tile_dimension c)) ?v j
          - start_at (rowsY (tile_dimension c)) ?v j"
      using r unfolding tile_rectangle_def mk_rect_def by simp_all
    show "rect_within (columnsX (image_dimension c)) (rowsY (image_dimension c)) (tile_rectangle t)"
      unfolding r rect_within_def mk_rect_sel using x y by linarith
    show "columnsX (dimension t) = min (columnsX (tile_dimension c)) (columnsX (image_dimension c) - pos_x (offset t))"
      "rowsY (dimension t) = min (rowsY (tile_dimension c)) (rowsY (image_dimension c) - pos_y (offset t))"
      unfolding rect by (simp_all add: end_at_def min_def)
    have no: "uint (word_of_nat k + 1 :: u64) = int k + 1" if "overlap_axis n m ?v" "k < tiles_of_axis n m ?v" for n m k
    proof -
      have "1 * int k \<le> (m - ?v) * int k" using overlap_step [OF that(1)] by (intro mult_right_mono) simp_all
      then have "int k < 2 ^ 31" using start_below [OF that] that(1) by (simp add: start_at_def overlap_axis_def)
      then have "uint (word_of_int (int k + 1) :: u64) = int k + 1" by (intro uint_size) simp_all
      then show ?thesis by simp
    qed
    have "tile_no_x t = word_of_nat i + 1" "tile_no_y t = word_of_nat j + 1"
      using i by (simp_all add: t row_tiles_def column_tile_def tile_at_def Let_def)
    then show "pos_x (offset t) = (columnsX (tile_dimension c) - ?v) * (uint (tile_no_x t) - 1)"
      "pos_y (offset t) = (rowsY (tile_dimension c) - ?v) * (uint (tile_no_y t) - 1)"
      using no [OF ax i] no [OF ay j] by (simp_all only: rect start_at_def add_diff_cancel_right')
  next
    fix p q
    assume pq: "0 \<le> p \<and> p < columnsX (image_dimension c) \<and> 0 \<le> q \<and> q < rowsY (image_dimension c)"
    obtain i where i: "i < ?nx" "start_at (columnsX (tile_dimension c)) ?v i \<le> p"
      "p < end_at (columnsX (image_dimension c)) (columnsX (tile_dimension c)) ?v i"
      using position_in_tile [OF ax] pq by blast
    obtain j where j: "j < ?ny" "start_at (rowsY (tile_dimension c)) ?v j \<le> q"
      "q < end_at (rowsY (image_dimension c)) (rowsY (tile_dimension c)) ?v j"
      using position_in_tile [OF ay] pq by blast
    have "covers (tile_rectangle (row_tiles c j ! i)) p q"
      unfolding column_tile_rectangle [OF assms j(1) i(1)] covers_def mk_rect_sel using i j by linarith
    then show "\<exists>t\<in>set ?ts. covers (tile_rectangle t) p q" using mem i(1) j(1) by blast
  qed
qed

text \<open>
  C10. For all sizes that pass the check, with an overlap below \<open>2 ^ 31\<close>, \<open>CreateTiles\<close> returns. Its
  tiles lie inside the image, none is empty, and they cover every pixel. The tile numbered \<open>(i, j)\<close> starts \<open>i - 1\<close>
  and \<open>j - 1\<close> steps of tile size minus overlap from the upper left corner and has the tile size, or what is left of the
  image. So a tile shares with the next one in its row, or in its column, exactly the overlap, or the whole rest of the image
  behind the start of the next one when that rest is smaller than the overlap.
\<close>

theorem CreateTiles_covers:
  assumes "CheckTileSize (image_dimension c) (tile_dimension c) (overlap c) = Inr ()" and "uint (overlap c) < 2 ^ 31"
    and "columnsX (image_dimension c) < 2 ^ 31" "rowsY (image_dimension c) < 2 ^ 31"
  shows "\<exists>ts. CreateTiles c = Some (Inr ts)
    \<and> (\<forall>t\<in>set ts. rect_within (columnsX (image_dimension c)) (rowsY (image_dimension c)) (tile_rectangle t)
         \<and> columnsX (dimension t) = min (columnsX (tile_dimension c)) (columnsX (image_dimension c) - pos_x (offset t))
         \<and> rowsY (dimension t) = min (rowsY (tile_dimension c)) (rowsY (image_dimension c) - pos_y (offset t))
         \<and> pos_x (offset t) = (columnsX (tile_dimension c) - uint (overlap c)) * (uint (tile_no_x t) - 1)
         \<and> pos_y (offset t) = (rowsY (tile_dimension c) - uint (overlap c)) * (uint (tile_no_y t) - 1))
    \<and> (\<forall>p q. 0 \<le> p \<and> p < columnsX (image_dimension c) \<and> 0 \<le> q \<and> q < rowsY (image_dimension c) \<longrightarrow>
         (\<exists>t\<in>set ts. covers (tile_rectangle t) p q))
    \<and> (\<forall>t\<in>set ts. \<forall>u\<in>set ts.
         (uint (tile_no_x u) = uint (tile_no_x t) + 1 \<longrightarrow>
            pos_x (offset t) + columnsX (dimension t) - pos_x (offset u)
              = min (uint (overlap c)) (columnsX (image_dimension c) - pos_x (offset u)))
         \<and> (uint (tile_no_y u) = uint (tile_no_y t) + 1 \<longrightarrow>
            pos_y (offset t) + rowsY (dimension t) - pos_y (offset u)
              = min (uint (overlap c)) (rowsY (image_dimension c) - pos_y (offset u))))"
proof -
  obtain ts where ts: "CreateTiles c = Some (Inr ts)"
    and placed: "\<And>t. t \<in> set ts \<Longrightarrow> rect_within (columnsX (image_dimension c)) (rowsY (image_dimension c)) (tile_rectangle t)"
      "\<And>t. t \<in> set ts \<Longrightarrow> columnsX (dimension t) = min (columnsX (tile_dimension c)) (columnsX (image_dimension c) - pos_x (offset t))"
      "\<And>t. t \<in> set ts \<Longrightarrow> rowsY (dimension t) = min (rowsY (tile_dimension c)) (rowsY (image_dimension c) - pos_y (offset t))"
      "\<And>t. t \<in> set ts \<Longrightarrow> pos_x (offset t) = (columnsX (tile_dimension c) - uint (overlap c)) * (uint (tile_no_x t) - 1)"
      "\<And>t. t \<in> set ts \<Longrightarrow> pos_y (offset t) = (rowsY (tile_dimension c) - uint (overlap c)) * (uint (tile_no_y t) - 1)"
    and all: "\<And>p q. 0 \<le> p \<and> p < columnsX (image_dimension c) \<and> 0 \<le> q \<and> q < rowsY (image_dimension c) \<Longrightarrow>
         (\<exists>t\<in>set ts. covers (tile_rectangle t) p q)"
    using tiles_placed [OF CheckTileSize_accepted [OF assms]] by blast
  have inside: "pos_x (offset t) < columnsX (image_dimension c)" "pos_y (offset t) < rowsY (image_dimension c)" if "t \<in> set ts" for t
    using placed(1) [OF that] by (simp_all add: rect_within_def tile_rectangle_def)
  have next_pos: "k * (n + 1 - 1) = k * (n - 1) + k" for k n :: int by (simp add: right_diff_distrib)
  have "(uint (tile_no_x u) = uint (tile_no_x t) + 1 \<longrightarrow>
            pos_x (offset t) + columnsX (dimension t) - pos_x (offset u)
              = min (uint (overlap c)) (columnsX (image_dimension c) - pos_x (offset u)))
         \<and> (uint (tile_no_y u) = uint (tile_no_y t) + 1 \<longrightarrow>
            pos_y (offset t) + rowsY (dimension t) - pos_y (offset u)
              = min (uint (overlap c)) (rowsY (image_dimension c) - pos_y (offset u)))" if "t \<in> set ts" "u \<in> set ts" for t u
    by (intro conjI impI shared_part [OF _ placed(2) [OF that(1)] inside(1) [OF that(2)]]
        shared_part [OF _ placed(3) [OF that(1)] inside(2) [OF that(2)]])
      (simp_all only: placed(4,5) [OF that(1)] placed(4,5) [OF that(2)] next_pos)
  then show ?thesis using ts placed all by blast
qed

definition tyler_example :: tile_construct where
  "tyler_example = \<lparr>image_dimension = \<lparr>columnsX = 10980, rowsY = 10980\<rparr>,
     image_gt = \<lparr>originLon = Fin 600000, originLat = Fin 6500000, pixelSizeLon = Fin 10, pixelSizeLat = Fin (- 10)\<rparr>,
     tile_dimension = \<lparr>columnsX = 512, rowsY = 512\<rparr>, overlap = 16\<rparr>"

lemma tyler_example_accepted: "tiling_accepted tyler_example"
  by (simp add: tiling_accepted_def overlap_axis_def tyler_example_def)

theorem CreateTiles_covers_witness:
  "\<exists>ts. CreateTiles tyler_example = Some (Inr ts) \<and> (\<exists>t\<in>set ts. covers (tile_rectangle t) 10979 5000)"
proof -
  have check: "CheckTileSize (image_dimension tyler_example) (tile_dimension tyler_example) (overlap tyler_example) = Inr ()"
    by (rule CheckTileSize_accepts [OF tyler_example_accepted])
  have "uint (overlap tyler_example) < 2 ^ 31" "columnsX (image_dimension tyler_example) < 2 ^ 31"
    "rowsY (image_dimension tyler_example) < 2 ^ 31" by (simp_all add: tyler_example_def)
  note CreateTiles_covers [OF check this]
  then obtain ts where "CreateTiles tyler_example = Some (Inr ts)"
    and "\<And>p q. 0 \<le> p \<and> p < columnsX (image_dimension tyler_example) \<and> 0 \<le> q \<and> q < rowsY (image_dimension tyler_example) \<Longrightarrow>
         (\<exists>t\<in>set ts. covers (tile_rectangle t) p q)" by blast
  from this(1) this(2) [of 10979 5000] show ?thesis by (simp add: tyler_example_def)
qed

text \<open>
  The check reads the overlap as \<open>int\<close> while the step is computed from the \<open>size_t\<close>: an overlap of
  \<open>2 ^ 32\<close> passes as 0, the step wraps around, and the image is cut into the single tile at the upper left
  corner, leaving the rest of the image uncovered.
\<close>

theorem CreateTiles_overlap_truncated:
  assumes "overlap c = 2 ^ 32"
    and "2 \<le> columnsX (tile_dimension c)" and "columnsX (tile_dimension c) \<le> columnsX (image_dimension c)"
    and "2 \<le> rowsY (tile_dimension c)" and "rowsY (tile_dimension c) \<le> rowsY (image_dimension c)"
    and "columnsX (image_dimension c) < 2 ^ 31" and "rowsY (image_dimension c) < 2 ^ 31"
  shows "\<exists>t. CreateTiles c = Some (Inr [t]) \<and>
    tile_rectangle t = mk_rect 0 0 (columnsX (tile_dimension c)) (rowsY (tile_dimension c))"
proof -
  let ?t = "columnsX (tile_dimension c)" and ?n = "columnsX (image_dimension c)"
    and ?u = "rowsY (tile_dimension c)" and ?m = "rowsY (image_dimension c)"
  have check: "CheckTileSize (image_dimension c) (tile_dimension c) (overlap c) = Inr ()"
    using assms by (simp add: CheckTileSize_def int_of_size_def int32_range_def c_div_nonneg not_le
        pos_imp_zdiv_pos_iff)
  have past: "\<not> (word_of_int a - 2 ^ 32 :: u64) < word_of_int b" if "0 \<le> a" "a < 2 ^ 31" "0 \<le> b" "b < 2 ^ 31" for a b
  proof -
    have "uint (word_of_int a - 2 ^ 32 :: u64) = (a - 2 ^ 32) mod 2 ^ 64"
      using that by (simp add: uint_word_ariths uint_size mod_simps)
    also have "\<dots> = (a - 2 ^ 32 + 2 ^ 64) mod 2 ^ 64" by (simp only: mod_add_self2)
    also have "\<dots> = a - 2 ^ 32 + 2 ^ 64" using that by (intro mod_pos_pos_trivial) simp_all
    finally show ?thesis using that by (simp add: word_less_alt uint_size)
  qed
  have less: "(0 :: u64) < word_of_int a" if "0 < a" "a < 2 ^ 31" for a
    using size_less [of 0 a] that by simp
  have clamp: "std_clamp (0 + word_of_int a) 0 (word_of_int b) = word_of_int a" if "0 \<le> a" "a \<le> b" "b < 2 ^ 31" for a b
    using that size_less [of b a] by (simp add: std_clamp_def)
  let ?tile = "tile_at c (originLat (image_gt c)) (originLon (image_gt c)) 0 (word_of_int ?u) 1 0 (word_of_int ?t) 1"
  have cols: "tile_columns c (originLat (image_gt c)) 0 (word_of_int ?u) 1 (originLon (image_gt c)) 0 1 = Some [?tile]"
    using assms past [of ?t ?n] less [of ?n] clamp [of ?t ?n]
    by (subst tile_columns.simps, subst tile_columns.simps) (simp add: Let_def step_x_def)
  have "tile_rows c (originLat (image_gt c)) 0 1 = Some [?tile]"
    using assms past [of ?u ?m] less [of ?m] clamp [of ?u ?m] cols
    by (subst tile_rows.simps, subst tile_rows.simps) (simp add: Let_def step_y_def)
  then have "CreateTiles c = Some (Inr [?tile])" by (simp add: CreateTiles_def check)
  moreover have "tile_rectangle ?tile = mk_rect 0 0 ?t ?u"
    using assms int_of_size_id [of 0] by (simp add: tile_rectangle_def tile_at_def int_of_size_id)
  ultimately show ?thesis by blast
qed

theorem CreateTiles_overlap_truncated_witness:
  "\<exists>t. CreateTiles (tyler_example\<lparr>overlap := 2 ^ 32\<rparr>) = Some (Inr [t]) \<and> \<not> covers (tile_rectangle t) 600 0"
proof -
  let ?c = "tyler_example\<lparr>overlap := 2 ^ 32\<rparr>"
  have "\<exists>t. CreateTiles ?c = Some (Inr [t]) \<and>
      tile_rectangle t = mk_rect 0 0 (columnsX (tile_dimension ?c)) (rowsY (tile_dimension ?c))"
    by (rule CreateTiles_overlap_truncated) (simp_all add: tyler_example_def)
  then show ?thesis by (auto simp: covers_def tyler_example_def)
qed

end
