(* ===== verification/PatchAssembly.thy ===== *)
theory PatchAssembly
  imports Ieee
begin

text \<open>
  The patches of the Gabor feature extraction (\<^verbatim>\<open>algs/feature-extraction-gabor\<close>): an image is cut
  into square patches, each is copied into the middle of a larger square and the frame around it is
  filled with its mirror image. The code works in place on one output image through a pointer to the
  upper left corner of a patch and a line stride; a patch is therefore a block of the buffer starting
  at an offset.

  The lemmas show that the five fills leave in every pixel of a block the mirrored pixel of the patch
  and touch nothing outside the block, hence what the whole image contains. Sizes are natural numbers: the
  buffers fit into memory, so no \<open>size_t\<close> expression of this code wraps.
\<close>

section \<open>Parameters\<close>

record padded_patch =
  padding_top :: nat
  padding_left :: nat
  padding_bottom :: nat
  padding_right :: nat
  origin_patch_edge_size :: nat
  padded_patch_edge_size :: nat

record stride_fill =
  origin_line_stride :: nat
  destination_line_stride :: nat

definition GetPaddedPatchEdgeSize :: "nat \<Rightarrow> nat \<Rightarrow> nat" where
  "GetPaddedPatchEdgeSize patch_edge_size filter_border_edge_size = patch_edge_size + filter_border_edge_size"

definition GetPatchCountFor :: "nat \<Rightarrow> nat \<Rightarrow> nat res" where
  "GetPatchCountFor dim1 patch_side_size =
     (if patch_side_size = 0 then Inl Undefined_behaviour else Inr (dim1 div patch_side_size))"

definition CreatePaddedPatchParameters :: "nat \<Rightarrow> nat \<Rightarrow> padded_patch" where
  "CreatePaddedPatchParameters patch_edge_size filter_edge_size =
     (let asymmetrical_extra_pixel = filter_edge_size mod 2;
          filter_half_edge = filter_edge_size div 2
      in \<lparr>padding_top = filter_half_edge, padding_left = filter_half_edge,
          padding_bottom = filter_half_edge + asymmetrical_extra_pixel,
          padding_right = filter_half_edge + asymmetrical_extra_pixel,
          origin_patch_edge_size = patch_edge_size,
          padded_patch_edge_size = patch_edge_size + filter_edge_size\<rparr>)"

text \<open>The dimension of the output image, an \<open>int\<close> each way.\<close>

definition GetPaddedPatchImageDimension :: "nat \<Rightarrow> nat \<times> nat \<Rightarrow> nat \<Rightarrow> (nat \<times> nat) res" where
  "GetPaddedPatchImageDimension patch_edge_size source_image_dim filter_edge_size =
     (let ppes = GetPaddedPatchEdgeSize patch_edge_size filter_edge_size
      in bind_res (GetPatchCountFor (fst source_image_dim) patch_edge_size) (\<lambda>pcx.
         bind_res (GetPatchCountFor (snd source_image_dim) patch_edge_size) (\<lambda>pcy.
         Inr (pcx * ppes, pcy * ppes))))"

section \<open>Copying\<close>

text \<open>
  A loop that stores one value per turn: the list holds destination and source, in the order of the
  loop. A store past the end of the buffer, and a read past the end, is undefined.
\<close>

definition store :: "nat \<Rightarrow> fp \<Rightarrow> fp list \<Rightarrow> fp list res" where
  "store d x buf = (if d < length buf then Inr (buf[d := x]) else Inl Undefined_behaviour)"

definition load :: "'a list \<Rightarrow> nat \<Rightarrow> 'a res" where
  "load xs s = (if s < length xs then Inr (xs ! s) else Inl Undefined_behaviour)"

definition copy_cells :: "(fp list \<Rightarrow> nat \<Rightarrow> fp res) \<Rightarrow> (nat \<times> nat) list \<Rightarrow> fp list \<Rightarrow> fp list res" where
  "copy_cells read = fold_res (\<lambda>(d, s) buf. bind_res (read buf s) (\<lambda>x. store d x buf))"

text \<open>
  The fills. \<open>patch\<close> is the pointer, an offset into the buffer, and \<open>cast\<close> the conversion of a source
  pixel to \<open>float\<close>. \<open>std::copy\<close> and \<open>std::reverse_copy\<close> are the inner loops.
\<close>

definition FillCenterWithOrigin ::
    "('a \<Rightarrow> fp) \<Rightarrow> 'a list \<Rightarrow> nat \<Rightarrow> nat \<Rightarrow> padded_patch \<Rightarrow> stride_fill \<Rightarrow> fp list \<Rightarrow> fp list res" where
  "FillCenterWithOrigin cast origin_image origin patch p st =
     copy_cells (\<lambda>_ s. bind_res (load origin_image s) (\<lambda>x. Inr (cast x)))
       (map (\<lambda>(line, i). (patch + (line * destination_line_stride st + padding_left p + i),
                           origin + ((line - padding_top p) * origin_line_stride st + i)))
          (List.product [padding_top p..<origin_patch_edge_size p + padding_top p]
                        [0..<origin_patch_edge_size p]))"

definition FillLeftPadding :: "nat \<Rightarrow> padded_patch \<Rightarrow> stride_fill \<Rightarrow> fp list \<Rightarrow> fp list res" where
  "FillLeftPadding patch p st =
     copy_cells load
       (map (\<lambda>(line, i).
          let padding_data_offset_index = line * destination_line_stride st + padding_left p
          in (patch + (padding_data_offset_index - padding_left p) + i,
              patch + padding_data_offset_index + (padding_left p - 1 - i)))
          (List.product [padding_top p..<padding_top p + origin_patch_edge_size p] [0..<padding_left p]))"

definition FillRightPadding :: "nat \<Rightarrow> padded_patch \<Rightarrow> stride_fill \<Rightarrow> fp list \<Rightarrow> fp list res" where
  "FillRightPadding patch p st =
     copy_cells load
       (map (\<lambda>(line, i).
          let padding_data_offset_index =
                line * destination_line_stride st + padding_left p + origin_patch_edge_size p
          in (patch + padding_data_offset_index + i,
              patch + (padding_data_offset_index - padding_right p) + (padding_right p - 1 - i)))
          (List.product [padding_top p..<padding_top p + origin_patch_edge_size p] [0..<padding_right p]))"

definition FillTopPadding :: "nat \<Rightarrow> padded_patch \<Rightarrow> stride_fill \<Rightarrow> fp list \<Rightarrow> fp list res" where
  "FillTopPadding patch p st =
     copy_cells load
       (map (\<lambda>(line, i).
          let padding_source_index = (2 * padding_top p - 1 - line) * destination_line_stride st;
              padding_destination_index = line * destination_line_stride st
          in (patch + padding_destination_index + i, patch + padding_source_index + i))
          (List.product [0..<padding_top p] [0..<padded_patch_edge_size p]))"

text \<open>
  The source line of the bottom padding is computed with \<open>size_t\<close>: padding that is higher than the lines above
  it would wrap around and leave the buffer.
\<close>

definition FillBottomPadding :: "nat \<Rightarrow> padded_patch \<Rightarrow> stride_fill \<Rightarrow> fp list \<Rightarrow> fp list res" where
  "FillBottomPadding patch p st =
     (let bottom_padding_start_line = padded_patch_edge_size p - padding_bottom p
      in if bottom_padding_start_line < padding_bottom p then (\<lambda>_. Inl Undefined_behaviour)
         else copy_cells load
           (map (\<lambda>(line, i).
              let padding_source_line =
                    (bottom_padding_start_line - (line - bottom_padding_start_line)) - 1;
                  padding_source_index = padding_source_line * destination_line_stride st;
                  padding_destination_index = line * destination_line_stride st
              in (patch + padding_destination_index + i, patch + padding_source_index + i))
              (List.product [bottom_padding_start_line..<padded_patch_edge_size p]
                            [0..<padded_patch_edge_size p])))"

definition FillPaddingPatch ::
    "('a \<Rightarrow> fp) \<Rightarrow> 'a list \<Rightarrow> nat \<Rightarrow> nat \<Rightarrow> padded_patch \<Rightarrow> stride_fill \<Rightarrow> fp list \<Rightarrow> fp list res" where
  "FillPaddingPatch cast origin_image origin patch p st buf =
     bind_res (FillCenterWithOrigin cast origin_image origin patch p st buf) (\<lambda>buf.
     bind_res (FillLeftPadding patch p st buf) (\<lambda>buf.
     bind_res (FillRightPadding patch p st buf) (\<lambda>buf.
     bind_res (FillTopPadding patch p st buf) (\<lambda>buf.
     FillBottomPadding patch p st buf))))"

text \<open>
  \<open>CreatePatchWithPaddingFilled\<close> works on one patch of its own; the code has a second copy of the
  fills for it, without the stride parameter.
\<close>

definition CreateEmptyPaddingPatch :: "padded_patch \<Rightarrow> fp list" where
  "CreateEmptyPaddingPatch p = replicate (padded_patch_edge_size p * padded_patch_edge_size p) (Fin 0)"

definition plain_FillCenterWithOrigin :: "('a \<Rightarrow> fp) \<Rightarrow> 'a list \<Rightarrow> padded_patch \<Rightarrow> fp list \<Rightarrow> fp list res" where
  "plain_FillCenterWithOrigin cast origin p =
     copy_cells (\<lambda>_ s. bind_res (load origin s) (\<lambda>x. Inr (cast x)))
       (map (\<lambda>(line, i). (line * padded_patch_edge_size p + padding_left p + i,
                           (line - padding_top p) * origin_patch_edge_size p + i))
          (List.product [padding_top p..<origin_patch_edge_size p + padding_top p]
                        [0..<origin_patch_edge_size p]))"

definition CreatePatchWithEmptyPadding :: "('a \<Rightarrow> fp) \<Rightarrow> 'a list \<Rightarrow> padded_patch \<Rightarrow> fp list res" where
  "CreatePatchWithEmptyPadding cast input_patch p =
     plain_FillCenterWithOrigin cast input_patch p (CreateEmptyPaddingPatch p)"

definition plain_FillLeftPadding :: "padded_patch \<Rightarrow> fp list \<Rightarrow> fp list res" where
  "plain_FillLeftPadding p =
     copy_cells load
       (map (\<lambda>(line, i).
          let row_start_offset_index = line * padded_patch_edge_size p;
              padding_data_offset_index = row_start_offset_index + padding_left p
          in (row_start_offset_index + i, padding_data_offset_index + (padding_left p - 1 - i)))
          (List.product [padding_top p..<padding_top p + origin_patch_edge_size p] [0..<padding_left p]))"

definition plain_FillRightPadding :: "padded_patch \<Rightarrow> fp list \<Rightarrow> fp list res" where
  "plain_FillRightPadding p =
     copy_cells load
       (map (\<lambda>(line, i).
          let padding_right_start_offset_index =
                line * padded_patch_edge_size p + padding_left p + origin_patch_edge_size p;
              padding_data_offset_index = padding_right_start_offset_index - padding_right p
          in (padding_right_start_offset_index + i,
              padding_data_offset_index + (padding_right p - 1 - i)))
          (List.product [padding_top p..<padding_top p + origin_patch_edge_size p] [0..<padding_right p]))"

definition plain_FillTopPadding :: "padded_patch \<Rightarrow> fp list \<Rightarrow> fp list res" where
  "plain_FillTopPadding p =
     copy_cells load
       (map (\<lambda>(line, i).
          let padding_source_index = (2 * padding_top p - 1 - line) * padded_patch_edge_size p;
              padding_destination_index = line * padded_patch_edge_size p
          in (padding_destination_index + i, padding_source_index + i))
          (List.product [0..<padding_top p] [0..<padded_patch_edge_size p]))"

definition plain_FillBottomPadding :: "padded_patch \<Rightarrow> fp list \<Rightarrow> fp list res" where
  "plain_FillBottomPadding p =
     (let bottom_padding_start_line = padded_patch_edge_size p - padding_bottom p
      in if bottom_padding_start_line < padding_bottom p then (\<lambda>_. Inl Undefined_behaviour)
         else copy_cells load
           (map (\<lambda>(line, i).
              let padding_source_line =
                    (bottom_padding_start_line - (line - bottom_padding_start_line)) - 1;
                  padding_source_index = padding_source_line * padded_patch_edge_size p;
                  padding_destination_index = line * padded_patch_edge_size p
              in (padding_destination_index + i, padding_source_index + i))
              (List.product [bottom_padding_start_line..<padded_patch_edge_size p]
                            [0..<padded_patch_edge_size p])))"

definition CreatePatchWithPaddingFilled :: "('a \<Rightarrow> fp) \<Rightarrow> 'a list \<Rightarrow> padded_patch \<Rightarrow> fp list res" where
  "CreatePatchWithPaddingFilled cast input_patch p =
     bind_res (CreatePatchWithEmptyPadding cast input_patch p) (\<lambda>patch.
     bind_res (plain_FillLeftPadding p patch) (\<lambda>patch.
     bind_res (plain_FillRightPadding p patch) (\<lambda>patch.
     bind_res (plain_FillTopPadding p patch) (\<lambda>patch.
     plain_FillBottomPadding p patch))))"

text \<open>The second copy is the first one with the patch's own edges as strides.\<close>

definition own_stride :: "padded_patch \<Rightarrow> stride_fill" where
  "own_stride p = \<lparr>origin_line_stride = origin_patch_edge_size p,
     destination_line_stride = padded_patch_edge_size p\<rparr>"

lemma plain_fills:
  "plain_FillCenterWithOrigin cast origin p = FillCenterWithOrigin cast origin 0 0 p (own_stride p)"
  "plain_FillLeftPadding p = FillLeftPadding 0 p (own_stride p)"
  "plain_FillRightPadding p = FillRightPadding 0 p (own_stride p)"
  "plain_FillTopPadding p = FillTopPadding 0 p (own_stride p)"
  "plain_FillBottomPadding p = FillBottomPadding 0 p (own_stride p)"
  by (simp_all add: plain_FillCenterWithOrigin_def FillCenterWithOrigin_def plain_FillLeftPadding_def
      FillLeftPadding_def plain_FillRightPadding_def FillRightPadding_def plain_FillTopPadding_def
      FillTopPadding_def plain_FillBottomPadding_def FillBottomPadding_def own_stride_def Let_def)

lemma CreatePatchWithPaddingFilled_eq:
  "CreatePatchWithPaddingFilled cast input_patch p =
     FillPaddingPatch cast input_patch 0 0 p (own_stride p) (CreateEmptyPaddingPatch p)"
  by (simp add: CreatePatchWithPaddingFilled_def CreatePatchWithEmptyPadding_def FillPaddingPatch_def plain_fills)

text \<open>
  The image of one band and one filter size in \<open>PatchedImage::CreatePatchedImagesFor\<close>. The buffer's
  size is a product of two \<open>int\<close>s.
\<close>

definition patch_loop ::
    "('a \<Rightarrow> fp) \<Rightarrow> 'a list \<Rightarrow> nat \<Rightarrow> padded_patch \<Rightarrow> nat \<Rightarrow> nat \<Rightarrow> stride_fill \<Rightarrow> fp list \<Rightarrow> fp list res" where
  "patch_loop cast in_ds in_x_size pp patch_count_x patch_count_y st =
     fold_res (\<lambda>(patch_x, patch_y).
       let in_offset = patch_y * origin_patch_edge_size pp * in_x_size + patch_x * origin_patch_edge_size pp;
           out_offset = patch_y * (patch_count_x * padded_patch_edge_size pp * padded_patch_edge_size pp) +
                        patch_x * padded_patch_edge_size pp
       in FillPaddingPatch cast in_ds in_offset out_offset pp st)
       (List.product [0..<patch_count_x] [0..<patch_count_y])"

definition CreatePatchedImagesFor ::
    "('a \<Rightarrow> fp) \<Rightarrow> 'a list \<Rightarrow> nat \<Rightarrow> nat \<Rightarrow> nat \<Rightarrow> nat \<Rightarrow> (nat \<times> nat \<times> fp list) res" where
  "CreatePatchedImagesFor cast in_ds in_x_size in_y_size filter_edge_size patch_edge_size =
     bind_res (GetPaddedPatchImageDimension patch_edge_size (in_x_size, in_y_size) filter_edge_size) (\<lambda>(cols, rows).
     let padding_params = CreatePaddedPatchParameters patch_edge_size filter_edge_size
     in bind_res (GetPatchCountFor cols (padded_patch_edge_size padding_params)) (\<lambda>patch_count_x.
        bind_res (GetPatchCountFor rows (padded_patch_edge_size padding_params)) (\<lambda>patch_count_y.
        let st = \<lparr>origin_line_stride = in_x_size, destination_line_stride = cols\<rparr>
        in bind_res (guard (cols * rows < 2 ^ 31) Undefined_behaviour) (\<lambda>_.
           bind_res (patch_loop cast in_ds in_x_size padding_params patch_count_x patch_count_y st
                       (replicate (cols * rows) (Fin 0))) (\<lambda>buffer.
           Inr (cols, rows, buffer))))))"

section \<open>One copy loop\<close>

lemma copy_cells_simps:
  "copy_cells read [] buf = Inr buf"
  "copy_cells read ((d, s) # cs) buf =
     bind_res (bind_res (read buf s) (\<lambda>x. store d x buf)) (copy_cells read cs)"
  by (simp_all add: copy_cells_def)

text \<open>If no source is a destination, every destination gets the value its source had at the start.\<close>

lemma copy_cells_spec:
  assumes "distinct (map fst cells)" and "\<And>d s. (d, s) \<in> set cells \<Longrightarrow> d < length buf"
    and "\<And>d s b. (d, s) \<in> set cells \<Longrightarrow> length b = length buf \<Longrightarrow>
      (\<And>i. i < length buf \<Longrightarrow> i \<notin> fst ` set cells \<Longrightarrow> b ! i = buf ! i) \<Longrightarrow> read b s = Inr (val s)"
  shows "\<exists>b. copy_cells read cells buf = Inr b \<and> length b = length buf \<and>
    (\<forall>(d, s)\<in>set cells. b ! d = val s) \<and>
    (\<forall>i<length buf. i \<notin> fst ` set cells \<longrightarrow> b ! i = buf ! i)"
  using assms
proof (induction cells arbitrary: buf)
  case Nil
  then show ?case by (simp add: copy_cells_simps)
next
  case (Cons c cells)
  obtain d s where c: "c = (d, s)" by (cases c)
  let ?b = "buf[d := val s]"
  have d: "d < length buf" using Cons.prems(2) [of d s] by (simp add: c)
  have rd: "read buf s = Inr (val s)" using Cons.prems(3) [of d s buf] by (simp add: c)
  have "\<exists>b. copy_cells read cells ?b = Inr b \<and> length b = length ?b \<and>
    (\<forall>(d, s)\<in>set cells. b ! d = val s) \<and>
    (\<forall>i<length ?b. i \<notin> fst ` set cells \<longrightarrow> b ! i = ?b ! i)"
  proof (rule Cons.IH)
    show "distinct (map fst cells)" using Cons.prems(1) by simp
    show "d' < length ?b" if "(d', s') \<in> set cells" for d' s' using Cons.prems(2) [of d' s'] that by simp
    fix d' s' b
    assume m: "(d', s') \<in> set cells" and l: "length b = length ?b"
      and same: "\<And>i. i < length ?b \<Longrightarrow> i \<notin> fst ` set cells \<Longrightarrow> b ! i = ?b ! i"
    show "read b s' = Inr (val s')"
      using m l same by (intro Cons.prems(3) [of d' s']) (auto simp: c)
  qed
  then obtain b where b: "copy_cells read cells ?b = Inr b" "length b = length buf"
    "\<forall>(d, s)\<in>set cells. b ! d = val s"
    "\<forall>i<length buf. i \<notin> fst ` set cells \<longrightarrow> b ! i = ?b ! i" by auto
  have "d \<notin> fst ` set cells" using Cons.prems(1) by (simp add: c)
  then have "b ! d = val s" using b(4) d by simp
  moreover have "copy_cells read (c # cells) buf = Inr b"
    using b(1) d by (simp add: c copy_cells_simps rd store_def)
  ultimately show ?case using b by (intro exI [of _ b]) (auto simp: c)
qed

section \<open>Blocks of an image\<close>

text \<open>A square block of edge \<open>e\<close> at offset \<open>off\<close> in an image of line stride \<open>w\<close>.\<close>

definition at_cell :: "nat \<Rightarrow> nat \<Rightarrow> nat \<times> nat \<Rightarrow> nat" where
  "at_cell off w yx = off + fst yx * w + snd yx"

definition in_block :: "nat \<Rightarrow> nat \<times> nat \<Rightarrow> bool" where
  "in_block e yx \<longleftrightarrow> fst yx < e \<and> snd yx < e"

definition block_fits :: "nat \<Rightarrow> nat \<Rightarrow> nat \<Rightarrow> fp list \<Rightarrow> bool" where
  "block_fits off w e buf \<longleftrightarrow> e \<le> w \<and> (\<forall>yx. in_block e yx \<longrightarrow> at_cell off w yx < length buf)"

definition same_outside :: "nat \<Rightarrow> nat \<Rightarrow> nat \<Rightarrow> fp list \<Rightarrow> fp list \<Rightarrow> bool" where
  "same_outside off w e buf buf' \<longleftrightarrow> length buf' = length buf \<and>
     (\<forall>i<length buf. (\<forall>yx. in_block e yx \<longrightarrow> i \<noteq> at_cell off w yx) \<longrightarrow> buf' ! i = buf ! i)"

lemma same_outside_trans:
  "same_outside off w e a b \<Longrightarrow> same_outside off w e b c \<Longrightarrow> same_outside off w e a c"
  by (simp add: same_outside_def)

lemma block_fits_same: "same_outside off w e a b \<Longrightarrow> block_fits off w e b \<longleftrightarrow> block_fits off w e a"
  by (simp add: same_outside_def block_fits_def)

lemma row_column_unique:
  assumes "y * w + x = y' * w + x'" and "x < w" and "x' < (w::nat)"
  shows "y = y' \<and> x = x'"
proof -
  have "(y * w + x) div w = y" "(y' * w + x') div w = y'" using assms(2,3) by simp_all
  then have "y = y'" using assms(1) by metis
  then show ?thesis using assms(1) by simp
qed

lemma at_cell_inj:
  assumes "in_block e a" "in_block e b" "e \<le> w" "at_cell off w a = at_cell off w b"
  shows "a = b"
  using assms row_column_unique [of "fst a" w "snd a" "fst b" "snd b"]
  by (simp add: at_cell_def in_block_def prod_eq_iff)

text \<open>
  One fill on a block: each turn of the loop is a key with a destination and a source pixel. When no
  source is a destination, the pixels of the block are those of before, the destinations replaced.
\<close>

lemma block_copy:
  assumes fits: "block_fits off w e buf" and keys: "distinct ks"
    and dst: "\<And>k. k \<in> set ks \<Longrightarrow> in_block e (dst k)" and inj: "inj_on dst (set ks)"
    and src: "\<And>k. k \<in> set ks \<Longrightarrow> in_block e (src k)" and disj: "dst ` set ks \<inter> src ` set ks = {}"
  obtains b where "copy_cells load (map (\<lambda>k. (at_cell off w (dst k), at_cell off w (src k))) ks) buf = Inr b"
    "same_outside off w e buf b"
    "\<And>k. k \<in> set ks \<Longrightarrow> b ! at_cell off w (dst k) = buf ! at_cell off w (src k)"
    "\<And>yx. in_block e yx \<Longrightarrow> yx \<notin> dst ` set ks \<Longrightarrow> b ! at_cell off w yx = buf ! at_cell off w yx"
proof -
  let ?cells = "map (\<lambda>k. (at_cell off w (dst k), at_cell off w (src k))) ks"
  have ew: "e \<le> w" and len: "\<And>yx. in_block e yx \<Longrightarrow> at_cell off w yx < length buf"
    using fits unfolding block_fits_def by blast+
  have inj': "inj_on (\<lambda>k. at_cell off w (dst k)) (set ks)"
  proof (rule inj_onI)
    fix k k' assume k: "k \<in> set ks" "k' \<in> set ks" "at_cell off w (dst k) = at_cell off w (dst k')"
    then have "dst k = dst k'" using at_cell_inj [OF dst dst ew] by blast
    then show "k = k'" using inj k by (simp add: inj_on_def)
  qed
  have notin: "at_cell off w yx \<notin> fst ` set ?cells" if yx: "in_block e yx" "yx \<notin> dst ` set ks" for yx
  proof
    assume "at_cell off w yx \<in> fst ` set ?cells"
    then obtain k where k: "k \<in> set ks" "at_cell off w yx = at_cell off w (dst k)" by auto
    then have "yx = dst k" using at_cell_inj [OF yx(1) dst ew] by blast
    then show False using k yx(2) by blast
  qed
  have "\<exists>b. copy_cells load ?cells buf = Inr b \<and> length b = length buf \<and>
    (\<forall>(d, s)\<in>set ?cells. b ! d = buf ! s) \<and>
    (\<forall>i<length buf. i \<notin> fst ` set ?cells \<longrightarrow> b ! i = buf ! i)"
  proof (rule copy_cells_spec)
    have "map fst ?cells = map (\<lambda>k. at_cell off w (dst k)) ks" by simp
    then show "distinct (map fst ?cells)" using keys inj' by (simp only: distinct_map)
    show "d < length buf" if "(d, s) \<in> set ?cells" for d s
    proof -
      from that obtain k where k: "k \<in> set ks" "d = at_cell off w (dst k)" by auto
      show ?thesis unfolding k(2) by (rule len [OF dst [OF k(1)]])
    qed
    fix d s b
    assume ds: "(d, s) \<in> set ?cells" and l: "length b = length buf"
      and same: "\<And>i. i < length buf \<Longrightarrow> i \<notin> fst ` set ?cells \<Longrightarrow> b ! i = buf ! i"
    from ds obtain k where k: "k \<in> set ks" "s = at_cell off w (src k)" by auto
    then have "src k \<notin> dst ` set ks" using disj by blast
    then have "s \<notin> fst ` set ?cells" unfolding k(2) by (rule notin [OF src [OF k(1)]])
    moreover have "s < length buf" unfolding k(2) by (rule len [OF src [OF k(1)]])
    ultimately show "load b s = Inr (buf ! s)" using same [of s] l by (simp add: load_def)
  qed
  then obtain b where b: "copy_cells load ?cells buf = Inr b" "length b = length buf"
    "\<forall>(d, s)\<in>set ?cells. b ! d = buf ! s"
    "\<forall>i<length buf. i \<notin> fst ` set ?cells \<longrightarrow> b ! i = buf ! i" by blast
  have "same_outside off w e buf b"
    unfolding same_outside_def
  proof (intro conjI allI impI)
    show "length b = length buf" by (rule b(2))
    fix i assume i: "i < length buf" "\<forall>yx. in_block e yx \<longrightarrow> i \<noteq> at_cell off w yx"
    have "i \<notin> fst ` set ?cells"
    proof
      assume "i \<in> fst ` set ?cells"
      then obtain k where "k \<in> set ks" "i = at_cell off w (dst k)" by auto
      then show False using i(2) dst by blast
    qed
    then show "b ! i = buf ! i" using b(4) i by blast
  qed
  moreover have "b ! at_cell off w (dst k) = buf ! at_cell off w (src k)" if "k \<in> set ks" for k
    using b(3) that by auto
  moreover have "b ! at_cell off w yx = buf ! at_cell off w yx" if "in_block e yx" "yx \<notin> dst ` set ks" for yx
    using b(4) notin [OF that] len [OF that(1)] by blast
  ultimately show ?thesis using b(1) by (intro that)
qed

section \<open>The mirrored frame\<close>

text \<open>The index of a patch of edge \<open>n\<close> that shows at position \<open>i\<close> of the padded edge.\<close>

definition mirror :: "nat \<Rightarrow> nat \<Rightarrow> nat \<Rightarrow> nat" where
  "mirror n pad i = (if i < pad then pad - 1 - i else if i < pad + n then i - pad else 2 * n + pad - 1 - i)"

text \<open>The frame is not wider than the patch.\<close>

definition frame_ok :: "padded_patch \<Rightarrow> bool" where
  "frame_ok p \<longleftrightarrow>
     padding_top p \<le> origin_patch_edge_size p \<and> padding_left p \<le> origin_patch_edge_size p \<and>
     padding_bottom p \<le> origin_patch_edge_size p \<and> padding_right p \<le> origin_patch_edge_size p \<and>
     padded_patch_edge_size p = padding_top p + origin_patch_edge_size p + padding_bottom p \<and>
     padded_patch_edge_size p = padding_left p + origin_patch_edge_size p + padding_right p"

lemma mirror_range: "i < pad + n + pad' \<Longrightarrow> pad \<le> n \<Longrightarrow> pad' \<le> n \<Longrightarrow> mirror n pad i < n"
  by (auto simp: mirror_def)

definition block_shows :: "nat \<Rightarrow> nat \<Rightarrow> (nat \<times> nat) set \<Rightarrow> (nat \<times> nat \<Rightarrow> fp) \<Rightarrow> fp list \<Rightarrow> bool" where
  "block_shows off w A f buf \<longleftrightarrow> (\<forall>yx\<in>A. buf ! at_cell off w yx = f yx)"

text \<open>One fill in terms of what the block shows: the region grows by the destinations.\<close>

lemma block_fill:
  assumes fits: "block_fits off w e buf" and keys: "distinct ks"
    and dst: "\<And>k. k \<in> set ks \<Longrightarrow> in_block e (dst k)" and inj: "inj_on dst (set ks)"
    and src: "\<And>k. k \<in> set ks \<Longrightarrow> src k \<in> A \<and> f (src k) = f (dst k)"
    and A: "\<And>yx. yx \<in> A \<Longrightarrow> in_block e yx" and disj: "dst ` set ks \<inter> A = {}"
    and now: "block_shows off w A f buf"
    and cells: "cells = map (\<lambda>k. (at_cell off w (dst k), at_cell off w (src k))) ks"
  obtains b where "copy_cells load cells buf = Inr b" "same_outside off w e buf b"
    "block_shows off w (A \<union> dst ` set ks) f b"
proof -
  have "src ` set ks \<subseteq> A" by (rule image_subsetI) (rule conjunct1 [OF src])
  then have d: "dst ` set ks \<inter> src ` set ks = {}" using disj by fast
  have srcb: "in_block e (src k)" if "k \<in> set ks" for k by (rule A [OF conjunct1 [OF src [OF that]]])
  show thesis
  proof (rule block_copy [OF fits keys dst inj srcb d])
    fix b
    assume b: "copy_cells load (map (\<lambda>k. (at_cell off w (dst k), at_cell off w (src k))) ks) buf = Inr b"
      "same_outside off w e buf b"
      and at_dst: "\<And>k. k \<in> set ks \<Longrightarrow> b ! at_cell off w (dst k) = buf ! at_cell off w (src k)"
      and rest: "\<And>yx. in_block e yx \<Longrightarrow> yx \<notin> dst ` set ks \<Longrightarrow> b ! at_cell off w yx = buf ! at_cell off w yx"
    have "block_shows off w (A \<union> dst ` set ks) f b"
      unfolding block_shows_def
    proof
      fix yx assume yx: "yx \<in> A \<union> dst ` set ks"
      show "b ! at_cell off w yx = f yx"
      proof (cases "yx \<in> dst ` set ks")
        case True
        then obtain k where "k \<in> set ks" "yx = dst k" by blast
        then show ?thesis using at_dst src now by (simp add: block_shows_def)
      next
        case False
        then show ?thesis using rest yx A now by (simp add: block_shows_def)
      qed
    qed
    with b show thesis unfolding cells [symmetric] by (rule that)
  qed
qed

text \<open>The value a pixel of the block has at the end.\<close>

definition framed :: "(nat \<Rightarrow> nat \<Rightarrow> fp) \<Rightarrow> padded_patch \<Rightarrow> nat \<times> nat \<Rightarrow> fp" where
  "framed pix p yx =
     pix (mirror (origin_patch_edge_size p) (padding_top p) (fst yx))
         (mirror (origin_patch_edge_size p) (padding_left p) (snd yx))"

definition region :: "nat \<Rightarrow> nat \<Rightarrow> nat \<Rightarrow> nat \<Rightarrow> (nat \<times> nat) set" where
  "region y y' x x' = {y..<y'} \<times> {x..<x'}"

lemma FillCenter_shows:
  assumes p: "frame_ok p" and fits: "block_fits off w (padded_patch_edge_size p) buf"
    and st: "destination_line_stride st = w"
    and pix: "\<And>y x. y < origin_patch_edge_size p \<Longrightarrow> x < origin_patch_edge_size p \<Longrightarrow>
      origin + (y * origin_line_stride st + x) < length img \<and>
      cast (img ! (origin + (y * origin_line_stride st + x))) = pix y x"
  obtains b where "FillCenterWithOrigin cast img origin off p st buf = Inr b"
    "same_outside off w (padded_patch_edge_size p) buf b"
    "block_shows off w (region (padding_top p) (padding_top p + origin_patch_edge_size p)
       (padding_left p) (padding_left p + origin_patch_edge_size p)) (framed pix p) b"
proof -
  let ?n = "origin_patch_edge_size p" and ?e = "padded_patch_edge_size p"
  let ?ks = "List.product [padding_top p..<?n + padding_top p] [0..<?n]"
  let ?dst = "\<lambda>k. (fst k, padding_left p + snd k)"
  let ?src = "\<lambda>k. origin + ((fst k - padding_top p) * origin_line_stride st + snd k)"
  let ?cells = "map (\<lambda>k. (at_cell off w (?dst k), ?src k)) ?ks"
  let ?read = "\<lambda>(_ :: fp list) s. bind_res (load img s) (\<lambda>x. Inr (cast x))"
  have cells: "FillCenterWithOrigin cast img origin off p st buf = copy_cells ?read ?cells buf"
    unfolding FillCenterWithOrigin_def st
    by (rule arg_cong [where f = "\<lambda>c. copy_cells ?read c buf"]) (simp add: at_cell_def split_def ac_simps)
  have ew: "?e \<le> w" and len: "\<And>yx. in_block ?e yx \<Longrightarrow> at_cell off w yx < length buf"
    using fits unfolding block_fits_def by blast+
  have dst: "in_block ?e (?dst k)" if "k \<in> set ?ks" for k
    using that p by (auto simp: in_block_def frame_ok_def)
  have inj: "inj_on (\<lambda>k. at_cell off w (?dst k)) (set ?ks)"
  proof (rule inj_onI)
    fix k k' assume k: "k \<in> set ?ks" "k' \<in> set ?ks" "at_cell off w (?dst k) = at_cell off w (?dst k')"
    then have "?dst k = ?dst k'" using at_cell_inj [OF dst dst ew] by blast
    then show "k = k'" by (simp add: prod_eq_iff)
  qed
  have "\<exists>b. copy_cells ?read ?cells buf = Inr b \<and> length b = length buf \<and>
    (\<forall>(d, s)\<in>set ?cells. b ! d = cast (img ! s)) \<and>
    (\<forall>i<length buf. i \<notin> fst ` set ?cells \<longrightarrow> b ! i = buf ! i)"
  proof (rule copy_cells_spec)
    have "map fst ?cells = map (\<lambda>k. at_cell off w (?dst k)) ?ks" by simp
    then show "distinct (map fst ?cells)" using inj by (simp only: distinct_map distinct_product distinct_upt simp_thms)
    show "d < length buf" if "(d, s) \<in> set ?cells" for d s using that len dst by auto
    fix d s and b :: "fp list"
    assume "(d, s) \<in> set ?cells"
    then obtain k where k: "k \<in> set ?ks" "s = ?src k" by auto
    then have "?src k < length img" using pix [of "fst k - padding_top p" "snd k"] by auto
    then show "?read b s = Inr (cast (img ! s))" by (simp add: load_def k)
  qed
  then obtain b where b: "copy_cells ?read ?cells buf = Inr b" "length b = length buf"
    "\<forall>(d, s)\<in>set ?cells. b ! d = cast (img ! s)"
    "\<forall>i<length buf. i \<notin> fst ` set ?cells \<longrightarrow> b ! i = buf ! i" by blast
  have "same_outside off w ?e buf b"
    unfolding same_outside_def
  proof (intro conjI allI impI)
    show "length b = length buf" by (rule b(2))
    fix i assume i: "i < length buf" "\<forall>yx. in_block ?e yx \<longrightarrow> i \<noteq> at_cell off w yx"
    have "i \<notin> fst ` set ?cells"
    proof
      assume "i \<in> fst ` set ?cells"
      then have "\<exists>k\<in>set ?ks. i = at_cell off w (?dst k)" by (simp only: set_map image_image fst_conv image_iff)
      then show False using i(2) dst by blast
    qed
    then show "b ! i = buf ! i" using b(4) i by blast
  qed
  moreover have "block_shows off w (region (padding_top p) (padding_top p + ?n)
       (padding_left p) (padding_left p + ?n)) (framed pix p) b"
    unfolding block_shows_def
  proof
    fix yx assume yx: "yx \<in> region (padding_top p) (padding_top p + ?n) (padding_left p) (padding_left p + ?n)"
    let ?k = "(fst yx, snd yx - padding_left p)"
    have k: "?k \<in> set ?ks" "?dst ?k = yx" using yx by (auto simp: region_def)
    then have "(at_cell off w (?dst ?k), ?src ?k) \<in> set ?cells" unfolding set_map by (rule_tac image_eqI) (rule refl)
    then have "b ! at_cell off w (?dst ?k) = cast (img ! ?src ?k)" using b(3) by blast
    then have "b ! at_cell off w yx = cast (img ! ?src ?k)" by (simp only: k(2))
    also have "\<dots> = framed pix p yx"
      using yx pix [of "fst yx - padding_top p" "snd yx - padding_left p"]
      by (auto simp: region_def framed_def mirror_def)
    finally show "b ! at_cell off w yx = framed pix p yx" .
  qed
  ultimately show ?thesis using b(1) cells that by simp
qed

lemma region_block: "y' \<le> e \<Longrightarrow> x' \<le> e \<Longrightarrow> yx \<in> region y y' x x' \<Longrightarrow> in_block e yx"
  by (auto simp: region_def in_block_def)

lemma FillLeft_shows:
  assumes p: "frame_ok p" and fits: "block_fits off w (padded_patch_edge_size p) buf"
    and st: "destination_line_stride st = w"
    and now: "block_shows off w (region (padding_top p) (padding_top p + origin_patch_edge_size p)
       (padding_left p) (padding_left p + origin_patch_edge_size p)) (framed pix p) buf"
  obtains b where "FillLeftPadding off p st buf = Inr b"
    "same_outside off w (padded_patch_edge_size p) buf b"
    "block_shows off w (region (padding_top p) (padding_top p + origin_patch_edge_size p)
       0 (padding_left p + origin_patch_edge_size p)) (framed pix p) b"
proof -
  let ?n = "origin_patch_edge_size p" and ?e = "padded_patch_edge_size p" and ?l = "padding_left p"
    and ?t = "padding_top p"
  let ?A = "region ?t (?t + ?n) ?l (?l + ?n)"
  let ?ks = "List.product [?t..<?t + ?n] [0..<?l]"
  let ?dst = "\<lambda>k :: nat \<times> nat. k" and ?src = "\<lambda>k :: nat \<times> nat. (fst k, ?l + (?l - 1 - snd k))"
  have src: "?src k \<in> ?A \<and> framed pix p (?src k) = framed pix p (?dst k)" if "k \<in> set ?ks" for k
    using that p by (auto simp: region_def frame_ok_def framed_def mirror_def)
  obtain b where b: "copy_cells load (map (\<lambda>k. (at_cell off w (?dst k), at_cell off w (?src k))) ?ks) buf = Inr b"
    "same_outside off w ?e buf b" "block_shows off w (?A \<union> ?dst ` set ?ks) (framed pix p) b"
  proof (rule block_fill [where ks = ?ks and dst = ?dst and src = ?src, OF fits _ _ _ src _ _ now refl])
    show "distinct ?ks" by (simp add: distinct_product)
    show "in_block ?e (?dst k)" if "k \<in> set ?ks" for k using that p by (auto simp: in_block_def frame_ok_def)
    show "inj_on ?dst (set ?ks)" by simp
    show "in_block ?e yx" if "yx \<in> ?A" for yx
      using region_block [OF _ _ that] p by (simp add: frame_ok_def)
    show "?dst ` set ?ks \<inter> ?A = {}" by (auto simp: region_def)
  qed
  have "?A \<union> ?dst ` set ?ks = region ?t (?t + ?n) 0 (?l + ?n)" by (auto simp: region_def)
  moreover have "FillLeftPadding off p st = copy_cells load
      (map (\<lambda>k. (at_cell off w (?dst k), at_cell off w (?src k))) ?ks)"
    unfolding FillLeftPadding_def st
    by (rule arg_cong [where f = "copy_cells load"]) (simp add: at_cell_def Let_def split_def ac_simps)
  ultimately show ?thesis using b that by metis
qed

lemma FillRight_shows:
  assumes p: "frame_ok p" and fits: "block_fits off w (padded_patch_edge_size p) buf"
    and st: "destination_line_stride st = w"
    and now: "block_shows off w (region (padding_top p) (padding_top p + origin_patch_edge_size p)
       0 (padding_left p + origin_patch_edge_size p)) (framed pix p) buf"
  obtains b where "FillRightPadding off p st buf = Inr b"
    "same_outside off w (padded_patch_edge_size p) buf b"
    "block_shows off w (region (padding_top p) (padding_top p + origin_patch_edge_size p)
       0 (padded_patch_edge_size p)) (framed pix p) b"
proof -
  let ?n = "origin_patch_edge_size p" and ?e = "padded_patch_edge_size p" and ?l = "padding_left p"
    and ?t = "padding_top p" and ?r = "padding_right p"
  let ?A = "region ?t (?t + ?n) 0 (?l + ?n)"
  let ?ks = "List.product [?t..<?t + ?n] [0..<?r]"
  let ?dst = "\<lambda>k :: nat \<times> nat. (fst k, ?l + ?n + snd k)"
    and ?src = "\<lambda>k :: nat \<times> nat. (fst k, ?l + ?n - ?r + (?r - 1 - snd k))"
  have r: "?r \<le> ?n" "?e = ?l + ?n + ?r" using p by (simp_all add: frame_ok_def)
  have src: "?src k \<in> ?A \<and> framed pix p (?src k) = framed pix p (?dst k)" if "k \<in> set ?ks" for k
    using that p by (auto simp: region_def frame_ok_def framed_def mirror_def)
  obtain b where b: "copy_cells load (map (\<lambda>k. (at_cell off w (?dst k), at_cell off w (?src k))) ?ks) buf = Inr b"
    "same_outside off w ?e buf b" "block_shows off w (?A \<union> ?dst ` set ?ks) (framed pix p) b"
  proof (rule block_fill [where ks = ?ks and dst = ?dst and src = ?src, OF fits _ _ _ src _ _ now refl])
    show "distinct ?ks" by (simp add: distinct_product)
    show "in_block ?e (?dst k)" if "k \<in> set ?ks" for k using that p by (auto simp: in_block_def frame_ok_def)
    show "inj_on ?dst (set ?ks)" by (auto simp: inj_on_def)
    show "in_block ?e yx" if "yx \<in> ?A" for yx
      using region_block [OF _ _ that] p by (simp add: frame_ok_def)
    show "?dst ` set ?ks \<inter> ?A = {}" by (auto simp: region_def)
  qed
  have "?A \<union> ?dst ` set ?ks = region ?t (?t + ?n) 0 ?e"
  proof (intro set_eqI iffI)
    fix yx assume yx: "yx \<in> region ?t (?t + ?n) 0 ?e"
    show "yx \<in> ?A \<union> ?dst ` set ?ks"
    proof (cases "snd yx < ?l + ?n")
      case True
      then show ?thesis using yx by (auto simp: region_def)
    next
      case False
      then have "(fst yx, snd yx - (?l + ?n)) \<in> set ?ks" "?dst (fst yx, snd yx - (?l + ?n)) = yx"
        using yx r by (auto simp: region_def)
      then show ?thesis by (metis (no_types, lifting) UnI2 image_eqI)
    qed
  qed (use r in \<open>auto simp: region_def\<close>)
  moreover have "FillRightPadding off p st = copy_cells load
      (map (\<lambda>k. (at_cell off w (?dst k), at_cell off w (?src k))) ?ks)"
    unfolding FillRightPadding_def st using r
    by (intro arg_cong [where f = "copy_cells load"]) (auto simp: at_cell_def Let_def ac_simps)
  ultimately show ?thesis using b that by metis
qed

lemma FillTop_shows:
  assumes p: "frame_ok p" and fits: "block_fits off w (padded_patch_edge_size p) buf"
    and st: "destination_line_stride st = w"
    and now: "block_shows off w (region (padding_top p) (padding_top p + origin_patch_edge_size p)
       0 (padded_patch_edge_size p)) (framed pix p) buf"
  obtains b where "FillTopPadding off p st buf = Inr b"
    "same_outside off w (padded_patch_edge_size p) buf b"
    "block_shows off w (region 0 (padding_top p + origin_patch_edge_size p)
       0 (padded_patch_edge_size p)) (framed pix p) b"
proof -
  let ?n = "origin_patch_edge_size p" and ?e = "padded_patch_edge_size p" and ?t = "padding_top p"
  let ?A = "region ?t (?t + ?n) 0 ?e"
  let ?ks = "List.product [0..<?t] [0..<?e]"
  let ?dst = "\<lambda>k :: nat \<times> nat. k" and ?src = "\<lambda>k :: nat \<times> nat. (2 * ?t - 1 - fst k, snd k)"
  have src: "?src k \<in> ?A \<and> framed pix p (?src k) = framed pix p (?dst k)" if "k \<in> set ?ks" for k
    using that p by (auto simp: region_def frame_ok_def framed_def mirror_def)
  obtain b where b: "copy_cells load (map (\<lambda>k. (at_cell off w (?dst k), at_cell off w (?src k))) ?ks) buf = Inr b"
    "same_outside off w ?e buf b" "block_shows off w (?A \<union> ?dst ` set ?ks) (framed pix p) b"
  proof (rule block_fill [where ks = ?ks and dst = ?dst and src = ?src, OF fits _ _ _ src _ _ now refl])
    show "distinct ?ks" by (simp add: distinct_product)
    show "in_block ?e (?dst k)" if "k \<in> set ?ks" for k using that p by (auto simp: in_block_def frame_ok_def)
    show "inj_on ?dst (set ?ks)" by simp
    show "in_block ?e yx" if "yx \<in> ?A" for yx
      using region_block [OF _ _ that] p by (simp add: frame_ok_def)
    show "?dst ` set ?ks \<inter> ?A = {}" by (auto simp: region_def)
  qed
  have "?A \<union> ?dst ` set ?ks = region 0 (?t + ?n) 0 ?e" by (auto simp: region_def)
  moreover have "FillTopPadding off p st = copy_cells load
      (map (\<lambda>k. (at_cell off w (?dst k), at_cell off w (?src k))) ?ks)"
    unfolding FillTopPadding_def st
    by (rule arg_cong [where f = "copy_cells load"]) (simp add: at_cell_def Let_def split_def ac_simps)
  ultimately show ?thesis using b that by metis
qed

lemma FillBottom_shows:
  assumes p: "frame_ok p" and fits: "block_fits off w (padded_patch_edge_size p) buf"
    and st: "destination_line_stride st = w"
    and now: "block_shows off w (region 0 (padding_top p + origin_patch_edge_size p)
       0 (padded_patch_edge_size p)) (framed pix p) buf"
  obtains b where "FillBottomPadding off p st buf = Inr b"
    "same_outside off w (padded_patch_edge_size p) buf b"
    "block_shows off w (region 0 (padded_patch_edge_size p)
       0 (padded_patch_edge_size p)) (framed pix p) b"
proof -
  let ?n = "origin_patch_edge_size p" and ?e = "padded_patch_edge_size p" and ?t = "padding_top p"
    and ?s = "padded_patch_edge_size p - padding_bottom p"
  have s: "?s = ?t + ?n" "?e = ?t + ?n + padding_bottom p" "padding_bottom p \<le> ?n"
    using p by (simp_all add: frame_ok_def)
  let ?A = "region 0 (?t + ?n) 0 ?e"
  let ?ks = "List.product [?s..<?e] [0..<?e]"
  let ?dst = "\<lambda>k :: nat \<times> nat. k" and ?src = "\<lambda>k :: nat \<times> nat. (?s - (fst k - ?s) - 1, snd k)"
  have src: "?src k \<in> ?A \<and> framed pix p (?src k) = framed pix p (?dst k)" if "k \<in> set ?ks" for k
  proof -
    have k: "?s \<le> fst k" "fst k < ?e" "snd k < ?e" using that by auto
    then have "mirror ?n ?t (fst (?src k)) = mirror ?n ?t (fst k)"
      using s unfolding mirror_def by (simp, arith)
    moreover have "?src k \<in> ?A" using k s by (simp add: region_def)
    ultimately show ?thesis by (simp add: framed_def)
  qed
  obtain b where b: "copy_cells load (map (\<lambda>k. (at_cell off w (?dst k), at_cell off w (?src k))) ?ks) buf = Inr b"
    "same_outside off w ?e buf b" "block_shows off w (?A \<union> ?dst ` set ?ks) (framed pix p) b"
  proof (rule block_fill [where ks = ?ks and dst = ?dst and src = ?src, OF fits _ _ _ src _ _ now refl])
    show "distinct ?ks" by (simp add: distinct_product)
    show "in_block ?e (?dst k)" if "k \<in> set ?ks" for k using that by (auto simp: in_block_def)
    show "inj_on ?dst (set ?ks)" by simp
    show "in_block ?e yx" if "yx \<in> ?A" for yx
      using region_block [OF _ _ that] s by simp
    show "?dst ` set ?ks \<inter> ?A = {}" using s by (auto simp: region_def)
  qed
  have "?A \<union> ?dst ` set ?ks = region 0 ?e 0 ?e" using s by (auto simp: region_def)
  moreover have "FillBottomPadding off p st = copy_cells load
      (map (\<lambda>k. (at_cell off w (?dst k), at_cell off w (?src k))) ?ks)"
  proof -
    have "\<not> ?s < padding_bottom p" using s by simp
    then show ?thesis
      unfolding FillBottomPadding_def st Let_def
      by (simp only: if_False) (rule arg_cong [where f = "copy_cells load"], simp add: at_cell_def split_def ac_simps)
  qed
  ultimately show ?thesis using b that by metis
qed

lemma FillPaddingPatch_shows:
  assumes p: "frame_ok p" and fits: "block_fits off w (padded_patch_edge_size p) buf"
    and st: "destination_line_stride st = w"
    and pix: "\<And>y x. y < origin_patch_edge_size p \<Longrightarrow> x < origin_patch_edge_size p \<Longrightarrow>
      origin + (y * origin_line_stride st + x) < length img \<and>
      cast (img ! (origin + (y * origin_line_stride st + x))) = pix y x"
  obtains b where "FillPaddingPatch cast img origin off p st buf = Inr b"
    "same_outside off w (padded_patch_edge_size p) buf b"
    "\<forall>y<padded_patch_edge_size p. \<forall>x<padded_patch_edge_size p. b ! (off + y * w + x) = framed pix p (y, x)"
proof -
  obtain b1 where b1: "FillCenterWithOrigin cast img origin off p st buf = Inr b1"
    "same_outside off w (padded_patch_edge_size p) buf b1"
    "block_shows off w (region (padding_top p) (padding_top p + origin_patch_edge_size p)
       (padding_left p) (padding_left p + origin_patch_edge_size p)) (framed pix p) b1"
    by (rule FillCenter_shows [where cast = cast and img = img and origin = origin and pix = pix, OF p fits st pix])
  note f1 = fits [folded block_fits_same [OF b1(2)]]
  obtain b2 where b2: "FillLeftPadding off p st b1 = Inr b2" "same_outside off w (padded_patch_edge_size p) b1 b2"
    "block_shows off w (region (padding_top p) (padding_top p + origin_patch_edge_size p)
       0 (padding_left p + origin_patch_edge_size p)) (framed pix p) b2"
    by (rule FillLeft_shows [OF p f1 st b1(3)])
  note f2 = f1 [folded block_fits_same [OF b2(2)]]
  obtain b3 where b3: "FillRightPadding off p st b2 = Inr b3" "same_outside off w (padded_patch_edge_size p) b2 b3"
    "block_shows off w (region (padding_top p) (padding_top p + origin_patch_edge_size p)
       0 (padded_patch_edge_size p)) (framed pix p) b3"
    by (rule FillRight_shows [OF p f2 st b2(3)])
  note f3 = f2 [folded block_fits_same [OF b3(2)]]
  obtain b4 where b4: "FillTopPadding off p st b3 = Inr b4" "same_outside off w (padded_patch_edge_size p) b3 b4"
    "block_shows off w (region 0 (padding_top p + origin_patch_edge_size p)
       0 (padded_patch_edge_size p)) (framed pix p) b4"
    by (rule FillTop_shows [OF p f3 st b3(3)])
  note f4 = f3 [folded block_fits_same [OF b4(2)]]
  obtain b5 where b5: "FillBottomPadding off p st b4 = Inr b5" "same_outside off w (padded_patch_edge_size p) b4 b5"
    "block_shows off w (region 0 (padded_patch_edge_size p) 0 (padded_patch_edge_size p)) (framed pix p) b5"
    by (rule FillBottom_shows [OF p f4 st b4(3)])
  have "FillPaddingPatch cast img origin off p st buf = Inr b5"
    by (simp add: FillPaddingPatch_def b1(1) b2(1) b3(1) b4(1) b5(1))
  moreover have "same_outside off w (padded_patch_edge_size p) buf b5"
    using b1(2) b2(2) b3(2) b4(2) b5(2) by (blast intro: same_outside_trans)
  moreover have "\<forall>y<padded_patch_edge_size p. \<forall>x<padded_patch_edge_size p.
      b5 ! (off + y * w + x) = framed pix p (y, x)"
    using b5(3) by (auto simp: block_shows_def region_def at_cell_def)
  ultimately show ?thesis by (rule that)
qed

section \<open>All patches of an image\<close>

text \<open>The index of pixel \<open>(y, x)\<close> of patch \<open>(px, py)\<close> in an image of patches of edge \<open>e\<close>, \<open>c\<close> in a row.\<close>

definition patch_cell :: "nat \<Rightarrow> nat \<Rightarrow> nat \<times> nat \<Rightarrow> nat \<Rightarrow> nat \<Rightarrow> nat" where
  "patch_cell c e k y x = (snd k * e + y) * (c * e) + (fst k * e + x)"

lemma patch_cell_offset:
  "snd k * (c * e * e) + fst k * e + y * (c * e) + x = patch_cell c e k y x"
  by (simp add: patch_cell_def algebra_simps)

lemma patch_column_less: "i < c \<Longrightarrow> x < e \<Longrightarrow> i * e + x < c * (e::nat)"
proof -
  assume "i < c" "x < e"
  then have "i * e + x < (i + 1) * e" by simp
  also have "\<dots> \<le> c * e" using \<open>i < c\<close> by (intro mult_right_mono) simp_all
  finally show ?thesis .
qed

lemma patch_cell_less:
  assumes "fst k < c" "snd k < r" "y < e" "x < e"
  shows "patch_cell c e k y x < c * e * (r * e)"
proof -
  have "patch_cell c e k y x < (snd k * e + y + 1) * (c * e)"
    using patch_column_less [OF assms(1,4)] by (simp add: patch_cell_def)
  also have "\<dots> \<le> (r * e) * (c * e)"
    using patch_column_less [OF assms(2,3)] by (intro mult_right_mono) simp_all
  finally show ?thesis by (simp add: mult.commute)
qed

lemma patch_cell_inj:
  assumes "fst k < c" "fst k' < c" "y < e" "x < e" "y' < e" "x' < e"
    and "patch_cell c e k y x = patch_cell c e k' y' x'"
  shows "k = k'"
proof -
  have "snd k * e + y = snd k' * e + y' \<and> fst k * e + x = fst k' * e + x'"
    using assms(7) unfolding patch_cell_def
    by (rule row_column_unique) (intro patch_column_less assms)+
  then show ?thesis
    using row_column_unique [of "snd k" e y "snd k'" y'] row_column_unique [of "fst k" e x "fst k'" x'] assms
    by (simp add: prod_eq_iff)
qed

text \<open>What pixel \<open>(y, x)\<close> of a padded patch has to be: the mirrored pixel of its source patch.\<close>

definition source_pixel ::
    "('a \<Rightarrow> fp) \<Rightarrow> 'a list \<Rightarrow> nat \<Rightarrow> padded_patch \<Rightarrow> nat \<times> nat \<Rightarrow> nat \<Rightarrow> nat \<Rightarrow> fp" where
  "source_pixel cast img in_x p k y x =
     cast (img ! ((snd k * origin_patch_edge_size p + mirror (origin_patch_edge_size p) (padding_top p) y) * in_x +
                  (fst k * origin_patch_edge_size p + mirror (origin_patch_edge_size p) (padding_left p) x)))"

lemma patch_loop_fold:
  fixes cast :: "'a \<Rightarrow> fp" and img :: "'a list"
  assumes p: "frame_ok p" and st: "st = \<lparr>origin_line_stride = in_x, destination_line_stride = c * padded_patch_edge_size p\<rparr>"
    and img: "length img = in_x * in_y" "c * origin_patch_edge_size p \<le> in_x" "r * origin_patch_edge_size p \<le> in_y"
  defines "e \<equiv> padded_patch_edge_size p"
  defines "f \<equiv> \<lambda>(patch_x, patch_y).
       let in_offset = patch_y * origin_patch_edge_size p * in_x + patch_x * origin_patch_edge_size p;
           out_offset = patch_y * (c * padded_patch_edge_size p * padded_patch_edge_size p) +
                        patch_x * padded_patch_edge_size p
       in FillPaddingPatch cast img in_offset out_offset p st"
  shows "distinct ks \<Longrightarrow> (\<And>k. k \<in> set ks \<Longrightarrow> fst k < c \<and> snd k < r) \<Longrightarrow> length buf = c * e * (r * e) \<Longrightarrow>
    \<exists>b. fold_res f ks buf = Inr b \<and> length b = length buf \<and>
      (\<forall>k\<in>set ks. \<forall>y<e. \<forall>x<e. b ! patch_cell c e k y x = source_pixel cast img in_x p k y x) \<and>
      (\<forall>k. fst k < c \<and> snd k < r \<and> k \<notin> set ks \<longrightarrow>
         (\<forall>y<e. \<forall>x<e. b ! patch_cell c e k y x = buf ! patch_cell c e k y x))"
proof (induction ks arbitrary: buf)
  case Nil
  then show ?case by simp
next
  case (Cons k ks)
  let ?n = "origin_patch_edge_size p" and ?w = "c * padded_patch_edge_size p"
  let ?off = "snd k * (c * padded_patch_edge_size p * padded_patch_edge_size p) + fst k * padded_patch_edge_size p"
  let ?in = "snd k * ?n * in_x + fst k * ?n"
  have k: "fst k < c" "snd k < r" using Cons.prems(2) [of k] by simp_all
  have idx: "?off + y * ?w + x = patch_cell c e k y x" for y x
    unfolding e_def by (rule patch_cell_offset)
  have fits: "block_fits ?off ?w (padded_patch_edge_size p) buf"
    unfolding block_fits_def
  proof (intro conjI allI impI)
    have "1 \<le> c" using k(1) by simp
    then have "1 * padded_patch_edge_size p \<le> c * padded_patch_edge_size p" by (rule mult_right_mono) simp
    then show "padded_patch_edge_size p \<le> ?w" by simp
    show "at_cell ?off ?w yx < length buf" if "in_block (padded_patch_edge_size p) yx" for yx
      using that patch_cell_less [OF k, of "fst yx" e "snd yx"] Cons.prems(3)
      by (simp add: at_cell_def idx in_block_def e_def)
  qed
  have pix: "?in + (y * origin_line_stride st + x) < length img \<and>
      cast (img ! (?in + (y * origin_line_stride st + x))) = cast (img ! ((snd k * ?n + y) * in_x + (fst k * ?n + x)))"
    if "y < ?n" "x < ?n" for y x
  proof -
    have eq: "?in + (y * origin_line_stride st + x) = (snd k * ?n + y) * in_x + (fst k * ?n + x)"
      by (simp add: st algebra_simps)
    have "fst k * ?n + x < in_x" using patch_column_less [OF k(1) that(2)] img(2) by linarith
    then have "(snd k * ?n + y) * in_x + (fst k * ?n + x) < (snd k * ?n + y + 1) * in_x" by simp
    also have "\<dots> \<le> in_y * in_x"
      using patch_column_less [OF k(2) that(1)] img(3) by (intro mult_right_mono) linarith+
    finally show ?thesis unfolding eq by (simp add: img(1) mult.commute)
  qed
  obtain b1 where b1: "FillPaddingPatch cast img ?in ?off p st buf = Inr b1"
    and out: "same_outside ?off ?w (padded_patch_edge_size p) buf b1"
    and shown: "\<forall>y<padded_patch_edge_size p. \<forall>x<padded_patch_edge_size p.
       b1 ! (?off + y * ?w + x) =
       framed (\<lambda>y x. cast (img ! ((snd k * ?n + y) * in_x + (fst k * ?n + x)))) p (y, x)"
  proof (rule FillPaddingPatch_shows [OF p fits _ pix])
    show "destination_line_stride st = ?w" by (simp add: st)
  qed
  have f: "f k buf = Inr b1" using b1 by (simp add: f_def split_def Let_def)
  have len: "length b1 = length buf" using out by (simp add: same_outside_def)
  have here: "b1 ! patch_cell c e k y x = source_pixel cast img in_x p k y x" if "y < e" "x < e" for y x
    using shown that by (simp add: idx e_def framed_def source_pixel_def)
  have elsewhere: "b1 ! patch_cell c e k' y x = buf ! patch_cell c e k' y x"
    if k': "fst k' < c" "snd k' < r" "k' \<noteq> k" and yx: "y < e" "x < e" for k' y x
  proof -
    have "patch_cell c e k' y x \<noteq> at_cell ?off ?w yx'" if "in_block (padded_patch_edge_size p) yx'" for yx'
      using patch_cell_inj [OF k'(1) k(1) yx, of "fst yx'" "snd yx'"] k'(3) that
      by (auto simp: at_cell_def idx in_block_def e_def)
    then show ?thesis
      using out patch_cell_less [OF k'(1,2) yx] Cons.prems(3) by (simp add: same_outside_def)
  qed
  obtain b where b: "fold_res f ks b1 = Inr b" "length b = length buf"
    "\<forall>k\<in>set ks. \<forall>y<e. \<forall>x<e. b ! patch_cell c e k y x = source_pixel cast img in_x p k y x"
    "\<forall>k. fst k < c \<and> snd k < r \<and> k \<notin> set ks \<longrightarrow>
         (\<forall>y<e. \<forall>x<e. b ! patch_cell c e k y x = b1 ! patch_cell c e k y x)"
    using Cons.IH [of b1] Cons.prems len by auto
  have "k \<notin> set ks" using Cons.prems(1) by simp
  then have "b ! patch_cell c e k y x = source_pixel cast img in_x p k y x" if "y < e" "x < e" for y x
  proof -
    have "b ! patch_cell c e k y x = b1 ! patch_cell c e k y x"
      using b(4) [rule_format, OF _ that] k \<open>k \<notin> set ks\<close> by blast
    then show ?thesis using here [OF that] by simp
  qed
  then have "\<forall>k'\<in>set (k # ks). \<forall>y<e. \<forall>x<e. b ! patch_cell c e k' y x = source_pixel cast img in_x p k' y x"
    using b(3) by simp
  moreover have "\<forall>k'. fst k' < c \<and> snd k' < r \<and> k' \<notin> set (k # ks) \<longrightarrow>
         (\<forall>y<e. \<forall>x<e. b ! patch_cell c e k' y x = buf ! patch_cell c e k' y x)"
    using b(4) elsewhere by simp
  moreover have "fold_res f (k # ks) buf = Inr b" using f b(1) by simp
  ultimately show ?case using b(2) by blast
qed

section \<open>The properties\<close>

lemma frame_ok_created:
  assumes "filter_edge + filter_edge mod 2 \<le> 2 * n"
  shows "frame_ok (CreatePaddedPatchParameters n filter_edge)"
proof -
  have "2 * (filter_edge div 2) + filter_edge mod 2 = filter_edge" by simp
  then show ?thesis
    using assms by (simp add: frame_ok_def CreatePaddedPatchParameters_def Let_def) presburger
qed

text \<open>
  C11. The padded patch image of one band: when the filter is at most twice as wide as a patch (one more
  if odd), the in-place fills succeed, and every pixel of every padded patch is the pixel of its source
  patch at the mirrored position: identity in the middle, reflection in the frame, corners included.
\<close>

theorem CreatePatchedImagesFor_mirrors:
  assumes "0 < n" and "filter_edge + filter_edge mod 2 \<le> 2 * n" and "length img = in_x * in_y"
    and "in_x div n * (n + filter_edge) * (in_y div n * (n + filter_edge)) < 2 ^ 31"
  shows "\<exists>buf. CreatePatchedImagesFor cast img in_x in_y filter_edge n
      = Inr (in_x div n * (n + filter_edge), in_y div n * (n + filter_edge), buf)
    \<and> (\<forall>px<in_x div n. \<forall>py<in_y div n. \<forall>y<n + filter_edge. \<forall>x<n + filter_edge.
         buf ! ((py * (n + filter_edge) + y) * (in_x div n * (n + filter_edge)) + (px * (n + filter_edge) + x))
         = cast (img ! ((py * n + mirror n (filter_edge div 2) y) * in_x + (px * n + mirror n (filter_edge div 2) x))))"
proof -
  let ?p = "CreatePaddedPatchParameters n filter_edge" and ?c = "in_x div n" and ?r = "in_y div n"
    and ?e = "n + filter_edge"
  have p: "frame_ok ?p" by (rule frame_ok_created [OF assms(2)])
  have sel: "padded_patch_edge_size ?p = ?e" "origin_patch_edge_size ?p = n" "padding_top ?p = filter_edge div 2"
    "padding_left ?p = filter_edge div 2"
    by (simp_all add: CreatePaddedPatchParameters_def Let_def)
  let ?st = "\<lparr>origin_line_stride = in_x, destination_line_stride = ?c * ?e\<rparr>"
  let ?ks = "List.product [0..<?c] [0..<?r]"
  have le: "?c * n \<le> in_x" "?r * n \<le> in_y" by simp_all
  have "\<exists>b. patch_loop cast img in_x ?p ?c ?r ?st (replicate (?c * ?e * (?r * ?e)) (Fin 0)) = Inr b \<and>
      (\<forall>k\<in>set ?ks. \<forall>y<?e. \<forall>x<?e. b ! patch_cell ?c ?e k y x = source_pixel cast img in_x ?p k y x)"
    using patch_loop_fold [OF p, of ?st in_x ?c img in_y ?r ?ks "replicate (?c * ?e * (?r * ?e)) (Fin 0)" cast]
      assms(3) le unfolding patch_loop_def sel by (auto simp: distinct_product)
  then obtain b where b: "patch_loop cast img in_x ?p ?c ?r ?st (replicate (?c * ?e * (?r * ?e)) (Fin 0)) = Inr b"
    "\<forall>k\<in>set ?ks. \<forall>y<?e. \<forall>x<?e. b ! patch_cell ?c ?e k y x = source_pixel cast img in_x ?p k y x"
    by blast
  have "0 < ?e" using assms(1) by simp
  then have "CreatePatchedImagesFor cast img in_x in_y filter_edge n = Inr (?c * ?e, ?r * ?e, b)"
    using assms(1,4) b(1)
    by (simp add: CreatePatchedImagesFor_def GetPaddedPatchImageDimension_def GetPatchCountFor_def
        GetPaddedPatchEdgeSize_def sel Let_def)
  then show ?thesis
    using b(2) by (intro exI [of _ b]) (auto simp: patch_cell_def source_pixel_def sel)
qed

theorem CreatePatchedImagesFor_mirrors_witness:
  "\<exists>buf. CreatePatchedImagesFor id (map (\<lambda>i. Fin (of_nat i)) [0..<35]) 7 5 3 2 = Inr (15, 10, buf)
    \<and> buf ! 0 = Fin 0 \<and> buf ! 1 = Fin 0 \<and> buf ! 2 = Fin 1"
proof -
  have "\<exists>buf. CreatePatchedImagesFor id (map (\<lambda>i. Fin (of_nat i)) [0..<35]) 7 5 3 2
      = Inr (7 div 2 * (2 + 3), 5 div 2 * (2 + 3), buf)
    \<and> (\<forall>px<7 div 2. \<forall>py<5 div 2. \<forall>y<2 + 3. \<forall>x<2 + 3.
         buf ! ((py * (2 + 3) + y) * (7 div 2 * (2 + 3)) + (px * (2 + 3) + x))
         = id (map (\<lambda>i. Fin (of_nat i)) [0..<35] !
             ((py * 2 + mirror 2 (3 div 2) y) * 7 + (px * 2 + mirror 2 (3 div 2) x))))"
    by (rule CreatePatchedImagesFor_mirrors) simp_all
  then obtain buf where buf: "CreatePatchedImagesFor id (map (\<lambda>i. Fin (of_nat i)) [0..<35]) 7 5 3 2
      = Inr (7 div 2 * (2 + 3), 5 div 2 * (2 + 3), buf)"
    and all: "\<forall>px<7 div 2. \<forall>py<5 div 2. \<forall>y<2 + 3. \<forall>x<2 + 3.
         buf ! ((py * (2 + 3) + y) * (7 div 2 * (2 + 3)) + (px * (2 + 3) + x))
         = id (map (\<lambda>i. Fin (of_nat i)) [0..<35] !
             ((py * 2 + mirror 2 (3 div 2) y) * 7 + (px * 2 + mirror 2 (3 div 2) x)))" by blast
  have "buf ! 0 = Fin 0" "buf ! 1 = Fin 0" "buf ! 2 = Fin 1"
    using all [rule_format, of 0 0 0 0] all [rule_format, of 0 0 0 1] all [rule_format, of 0 0 0 2]
    by (simp_all add: mirror_def) (simp add: numeral_2_eq_2)
  moreover have "CreatePatchedImagesFor id (map (\<lambda>i. Fin (of_nat i)) [0..<35]) 7 5 3 2 = Inr (15, 10, buf)"
    using buf by simp
  ultimately show ?thesis by blast
qed

text \<open>
  The stand-alone padding of one patch agrees: it is the same fill with the patch's own strides, and
  every pixel of its result is the mirrored pixel of the patch.
\<close>

theorem CreatePatchWithPaddingFilled_mirrors:
  assumes "frame_ok p" and "length img = origin_patch_edge_size p * origin_patch_edge_size p"
  shows "\<exists>buf. CreatePatchWithPaddingFilled cast img p = Inr buf
    \<and> length buf = padded_patch_edge_size p * padded_patch_edge_size p
    \<and> (\<forall>y<padded_patch_edge_size p. \<forall>x<padded_patch_edge_size p.
         buf ! (y * padded_patch_edge_size p + x) =
         cast (img ! (mirror (origin_patch_edge_size p) (padding_top p) y * origin_patch_edge_size p
                      + mirror (origin_patch_edge_size p) (padding_left p) x)))"
proof -
  let ?n = "origin_patch_edge_size p" and ?e = "padded_patch_edge_size p"
  have pos: "y * m + x < m * m" if "y < m" "x < m" for y x m :: nat
    using patch_column_less [OF that] by simp
  have fits: "block_fits 0 ?e ?e (CreateEmptyPaddingPatch p)"
    using pos by (auto simp: block_fits_def in_block_def at_cell_def CreateEmptyPaddingPatch_def)
  obtain b where b: "FillPaddingPatch cast img 0 0 p (own_stride p) (CreateEmptyPaddingPatch p) = Inr b"
    "same_outside 0 ?e ?e (CreateEmptyPaddingPatch p) b"
    and shown: "\<forall>y<?e. \<forall>x<?e.
       b ! (0 + y * ?e + x) = framed (\<lambda>y x. cast (img ! (y * ?n + x))) p (y, x)"
  proof (rule FillPaddingPatch_shows [OF assms(1) fits, of "own_stride p" 0 img cast
        "\<lambda>y x. cast (img ! (y * ?n + x))"])
    show "destination_line_stride (own_stride p) = ?e" by (simp add: own_stride_def)
    show "0 + (y * origin_line_stride (own_stride p) + x) < length img \<and>
      cast (img ! (0 + (y * origin_line_stride (own_stride p) + x))) = cast (img ! (y * ?n + x))"
      if "y < ?n" "x < ?n" for y x
      using pos [OF that] by (simp add: own_stride_def assms(2))
  qed
  show ?thesis
    using b shown
    by (intro exI [of _ b]) (auto simp: CreatePatchWithPaddingFilled_eq same_outside_def framed_def
        CreateEmptyPaddingPatch_def)
qed

theorem CreatePatchWithPaddingFilled_mirrors_witness:
  "\<exists>buf. CreatePatchWithPaddingFilled (\<lambda>b. fp_of_int f32 (uint (b :: u8))) [1, 2, 3, 4]
      (CreatePaddedPatchParameters 2 3) = Inr buf \<and> length buf = 25"
  using CreatePatchWithPaddingFilled_mirrors [of "CreatePaddedPatchParameters 2 3" "[1, 2, 3, 4]"
      "\<lambda>b. fp_of_int f32 (uint (b :: u8))"] frame_ok_created [of 3 2]
  by (auto simp: CreatePaddedPatchParameters_def Let_def)

end
