(* ===== verification/CStrings.thy ===== *)
theory CStrings
  imports Ieee
begin

text \<open>
  What the program uses of the C++ standard library's number/text conversions: \<open>std::to_string\<close>, \<open>std::stoi\<close> and
  its relatives, \<open>std::stof\<close>/\<open>std::stod\<close> and stream output of a \<open>double\<close> in the "C" locale; and the
  character tests. All of it computes.

  The lemmas show that a number survives being printed and parsed.
\<close>

section \<open>Characters\<close>

definition code :: "char \<Rightarrow> nat" where
  "code c = of_char c"

definition is_digit :: "char \<Rightarrow> bool" where
  "is_digit c \<longleftrightarrow> 48 \<le> code c \<and> code c \<le> 57"

definition digit_char :: "nat \<Rightarrow> char" where
  "digit_char d = char_of (48 + d)"

definition digit_val :: "char \<Rightarrow> nat" where
  "digit_val c = code c - 48"

definition is_space :: "char \<Rightarrow> bool" where
  "is_space c \<longleftrightarrow> code c = 32 \<or> (9 \<le> code c \<and> code c \<le> 13)"

definition is_lower :: "char \<Rightarrow> bool" where
  "is_lower c \<longleftrightarrow> 97 \<le> code c \<and> code c \<le> 122"

definition is_upper :: "char \<Rightarrow> bool" where
  "is_upper c \<longleftrightarrow> 65 \<le> code c \<and> code c \<le> 90"

definition to_lower :: "char \<Rightarrow> char" where
  "to_lower c = (if is_upper c then char_of (code c + 32) else c)"

definition to_upper :: "char \<Rightarrow> char" where
  "to_upper c = (if is_lower c then char_of (code c - 32) else c)"

lemma code_char_of: "n < 256 \<Longrightarrow> code (char_of n) = n"
  by (simp add: code_def)

lemma digit_char_facts:
  assumes "d < 10"
  shows "is_digit (digit_char d)" "digit_val (digit_char d) = d" "\<not> is_space (digit_char d)"
    "digit_char d \<noteq> CHR ''-''" "digit_char d \<noteq> CHR ''+''"
proof -
  have c: "code (digit_char d) = 48 + d" unfolding digit_char_def using assms by (intro code_char_of) simp
  then show "is_digit (digit_char d)" "digit_val (digit_char d) = d" "\<not> is_space (digit_char d)"
    using assms by (simp_all add: is_digit_def digit_val_def is_space_def)
  have "code CHR ''-'' = 45" "code CHR ''+'' = 43" by (simp_all add: code_def)
  then show "digit_char d \<noteq> CHR ''-''" "digit_char d \<noteq> CHR ''+''" using c by auto
qed

section \<open>Integers\<close>

fun nat_string :: "nat \<Rightarrow> string" where
  "nat_string n = (if n < 10 then [digit_char n] else nat_string (n div 10) @ [digit_char (n mod 10)])"

declare nat_string.simps [simp del]

definition to_string :: "int \<Rightarrow> string" where
  "to_string i = (if i < 0 then CHR ''-'' # nat_string (nat (- i)) else nat_string (nat i))"

definition digits_value :: "string \<Rightarrow> nat" where
  "digits_value = foldl (\<lambda>a c. 10 * a + digit_val c) 0"

definition skip_sign :: "string \<Rightarrow> bool \<times> string" where
  "skip_sign s =
     (case s of
        [] \<Rightarrow> (False, [])
      | c # cs \<Rightarrow> if c = CHR ''-'' then (True, cs) else if c = CHR ''+'' then (False, cs) else (False, s))"

text \<open>
  The number at the start of a text: white space, a sign, decimal digits; what follows is ignored. The
  sign and the magnitude, or nothing when there is no digit.
\<close>

definition strto :: "string \<Rightarrow> (bool \<times> nat) option" where
  "strto s =
     (let (neg, r) = skip_sign (dropWhile is_space s);
          ds = takeWhile is_digit r
      in if ds = [] then None else Some (neg, digits_value ds))"

definition signed_number :: "int \<Rightarrow> int \<Rightarrow> string \<Rightarrow> int res" where
  "signed_number lo hi s =
     (case strto s of
        None \<Rightarrow> Inl Invalid_argument
      | Some (neg, m) \<Rightarrow>
          let v = (if neg then - int m else int m)
          in if lo \<le> v \<and> v \<le> hi then Inr v else Inl Out_of_range)"

definition stoi :: "string \<Rightarrow> int res" where
  "stoi = signed_number (- (2 ^ 31)) (2 ^ 31 - 1)"

definition stol :: "string \<Rightarrow> int res" where
  "stol = signed_number (- (2 ^ 63)) (2 ^ 63 - 1)"

definition stoll :: "string \<Rightarrow> int res" where
  "stoll = signed_number (- (2 ^ 63)) (2 ^ 63 - 1)"

text \<open>The unsigned conversions take a sign and negate modulo \<open>2 ^ 64\<close>.\<close>

definition stoul :: "string \<Rightarrow> int res" where
  "stoul s =
     (case strto s of
        None \<Rightarrow> Inl Invalid_argument
      | Some (neg, m) \<Rightarrow>
          if 2 ^ 64 \<le> m then Inl Out_of_range
          else Inr (if neg then (- int m) mod 2 ^ 64 else int m))"

definition stoull :: "string \<Rightarrow> int res" where
  "stoull = stoul"

lemma digits_value_append: "digits_value (ds @ [c]) = 10 * digits_value ds + digit_val c"
  by (simp add: digits_value_def)

lemma nat_string_facts:
  "nat_string n \<noteq> [] \<and> (\<forall>c\<in>set (nat_string n). \<exists>d<10. c = digit_char d) \<and> digits_value (nat_string n) = n"
proof (induction n rule: nat_string.induct)
  case (1 n)
  show ?case
  proof (cases "n < 10")
    case True
    then have "nat_string n = [digit_char n]" by (simp add: nat_string.simps)
    then show ?thesis using True digit_char_facts(2) [OF True] by (auto simp: digits_value_def)
  next
    case False
    then have s: "nat_string n = nat_string (n div 10) @ [digit_char (n mod 10)]" by (subst nat_string.simps) simp
    have d: "n mod 10 < 10" by simp
    have "digits_value (nat_string n) = 10 * (n div 10) + n mod 10"
      using "1.IH" [OF False] digit_char_facts(2) [OF d] by (simp add: s digits_value_append)
    moreover have "\<exists>d<10. digit_char (n mod 10) = digit_char d" using d by blast
    ultimately show ?thesis using "1.IH" [OF False] by (simp add: s)
  qed
qed

lemma nat_string_digits: "c \<in> set (nat_string n) \<Longrightarrow> is_digit c"
  using nat_string_facts [of n] digit_char_facts(1) by auto

lemma nat_string_value [simp]: "digits_value (nat_string n) = n"
  using nat_string_facts [of n] by simp

lemma nat_string_Cons:
  obtains d ds where "nat_string n = digit_char d # ds" "d < 10"
proof -
  obtain c ds where "nat_string n = c # ds" using nat_string_facts [of n] by (cases "nat_string n") auto
  moreover from this have "\<exists>d<10. c = digit_char d" using nat_string_facts [of n] by auto
  ultimately show ?thesis using that by blast
qed

lemma takeWhile_nat_string: "takeWhile is_digit (nat_string n) = nat_string n"
  by (simp add: takeWhile_eq_all_conv nat_string_digits)

lemma strto_nat_string: "strto (nat_string n) = Some (False, n)"
proof -
  obtain d ds where n: "nat_string n = digit_char d # ds" "d < 10" by (rule nat_string_Cons)
  then have "dropWhile is_space (nat_string n) = nat_string n" "skip_sign (nat_string n) = (False, nat_string n)"
    using digit_char_facts [OF n(2)] by (simp_all add: skip_sign_def)
  moreover have "nat_string n \<noteq> []" using n by simp
  ultimately show ?thesis by (simp add: strto_def takeWhile_nat_string)
qed

lemma strto_to_string: "strto (to_string i) = Some (i < 0, nat \<bar>i\<bar>)"
proof (cases "i < 0")
  case True
  have "\<not> is_space CHR ''-''" by (simp add: is_space_def code_def)
  then have "strto (to_string i) = Some (True, nat (- i))"
    using True nat_string_facts [of "nat (- i)"]
    by (simp add: strto_def to_string_def skip_sign_def takeWhile_nat_string)
  then show ?thesis using True by simp
next
  case False
  then show ?thesis by (simp add: to_string_def strto_nat_string)
qed

lemma signed_number_to_string: "lo \<le> i \<Longrightarrow> i \<le> hi \<Longrightarrow> signed_number lo hi (to_string i) = Inr i"
  by (simp add: signed_number_def strto_to_string Let_def)

lemma stoi_to_string: "int32_range i \<Longrightarrow> stoi (to_string i) = Inr i"
  unfolding stoi_def int32_range_def by (rule signed_number_to_string) simp_all

lemma stoll_to_string: "int64_range i \<Longrightarrow> stoll (to_string i) = Inr i"
  unfolding stoll_def int64_range_def by (rule signed_number_to_string) simp_all

lemma stoul_to_string:
  assumes "0 \<le> i" and "i < 2 ^ 64"
  shows "stoul (to_string i) = Inr i"
proof -
  have "nat i < 2 ^ 64" using assms by (simp add: nat_less_iff)
  then show ?thesis using assms by (simp add: stoul_def strto_to_string)
qed

lemma to_string_inj: "to_string i = to_string j \<Longrightarrow> i = j"
proof -
  assume "to_string i = to_string j"
  then have "Some (i < 0, nat \<bar>i\<bar>) = Some (j < 0, nat \<bar>j\<bar>)" unfolding strto_to_string [symmetric] by simp
  then show ?thesis by auto
qed

section \<open>Floating point numbers\<close>

text \<open>\<open>std::to_string\<close> of a \<open>float\<close> or \<open>double\<close>: six decimals of the exact value.\<close>

definition pad_left :: "nat \<Rightarrow> string \<Rightarrow> string" where
  "pad_left n s = replicate (n - length s) CHR ''0'' @ s"

definition fixed_string :: "nat \<Rightarrow> rat \<Rightarrow> string" where
  "fixed_string decimals x =
     (let n = nat (round_even (\<bar>x\<bar> * 10 ^ decimals))
      in (if x < 0 then ''-'' else []) @ nat_string (n div 10 ^ decimals) @
         (if decimals = 0 then [] else CHR ''.'' # pad_left decimals (nat_string (n mod 10 ^ decimals))))"

fun special_string :: "fp \<Rightarrow> string" where
  "special_string (Inf s) = (if s then ''-inf'' else ''inf'')"
| "special_string _ = ''nan''"

fun to_string_fp :: "fp \<Rightarrow> string" where
  "to_string_fp (Fin x) = fixed_string 6 x"
| "to_string_fp y = special_string y"

text \<open>Stream output with 17 significant digits and no fixed format.\<close>

definition ilog10 :: "rat \<Rightarrow> int" where
  "ilog10 x =
     (if 1 \<le> x then int (length (nat_string (nat \<lfloor>x\<rfloor>))) - 1
      else let m = nat \<lceil>1 / x\<rceil> in - int (if m = 1 then 0 else length (nat_string (m - 1))))"

definition strip_zeros :: "string \<Rightarrow> string" where
  "strip_zeros s = rev (dropWhile (\<lambda>c. c = CHR ''0'') (rev s))"

definition with_point :: "string \<Rightarrow> string \<Rightarrow> string" where
  "with_point a b = (let b' = strip_zeros b in if b' = [] then a else a @ CHR ''.'' # b')"

definition general_string :: "nat \<Rightarrow> rat \<Rightarrow> string" where
  "general_string p x =
     (if x = 0 then ''0''
      else
        let e0 = ilog10 \<bar>x\<bar>;
            n0 = round_even (\<bar>x\<bar> * 10 powi (int p - 1 - e0));
            (n, e) = (if n0 = 10 ^ p then (10 ^ (p - 1), e0 + 1) else (n0, e0));
            ds = nat_string (nat n)
        in (if x < 0 then ''-'' else []) @
           (if e < -4 \<or> int p \<le> e
            then with_point (take 1 ds) (drop 1 ds) @ ''e'' @ (if e < 0 then ''-'' else ''+'') @
                 pad_left 2 (nat_string (nat \<bar>e\<bar>))
            else if 0 \<le> e then with_point (take (nat e + 1) ds) (drop (nat e + 1) ds)
            else with_point ''0'' (replicate (nat (- e) - 1) CHR ''0'' @ ds)))"

text \<open>
  \<open>std::stof\<close> and \<open>std::stod\<close>: decimal and hexadecimal numbers with an exponent, infinity and not-a-number.
  A value too large for the format, or a tiny one that is not exact, throws \<open>std::out_of_range\<close>.
\<close>

definition hex_val :: "char \<Rightarrow> nat option" where
  "hex_val c =
     (if is_digit c then Some (digit_val c)
      else if 97 \<le> code (to_lower c) \<and> code (to_lower c) \<le> 102 then Some (code (to_lower c) - 87)
      else None)"

definition span_digits :: "nat \<Rightarrow> string \<Rightarrow> nat list \<times> string" where
  "span_digits base s =
     (let ok = (\<lambda>c. case hex_val c of None \<Rightarrow> False | Some d \<Rightarrow> d < base)
      in (map (\<lambda>c. the (hex_val c)) (takeWhile ok s), dropWhile ok s))"

definition mantissa :: "nat \<Rightarrow> string \<Rightarrow> (rat \<times> string) option" where
  "mantissa base s =
     (let (a, r) = span_digits base s;
          (b, r') = (case r of c # cs \<Rightarrow> if c = CHR ''.'' then span_digits base cs else ([], r) | [] \<Rightarrow> ([], r));
          v = foldl (\<lambda>v d. of_nat base * v + of_nat d) 0 (a @ b)
      in if a @ b = [] then None else Some (v / of_nat base ^ length b, r'))"

definition exponent :: "char \<Rightarrow> string \<Rightarrow> int" where
  "exponent mark s =
     (case s of
        [] \<Rightarrow> 0
      | c # cs \<Rightarrow>
          if to_lower c = mark then
            let (neg, r) = skip_sign cs; ds = takeWhile is_digit r
            in if neg then - int (digits_value ds) else int (digits_value ds)
          else 0)"

definition real_number :: "string \<Rightarrow> rat option" where
  "real_number s =
     (let hex = (if map to_lower (take 2 s) = ''0x'' then mantissa 16 (drop 2 s) else None)
      in case hex of
           Some (m, r) \<Rightarrow> Some (m * 2 powi exponent CHR ''p'' r)
         | None \<Rightarrow>
             (case mantissa 10 s of
                None \<Rightarrow> None
              | Some (m, r) \<Rightarrow> Some (m * 10 powi exponent CHR ''e'' r)))"

definition stofp :: "fp_format \<Rightarrow> string \<Rightarrow> fp res" where
  "stofp m s =
     (let (neg, r) = skip_sign (dropWhile is_space s);
          low = map to_lower r
      in if take 3 low = ''inf'' then Inr (Inf neg)
         else if take 3 low = ''nan'' then Inr NaN
         else case real_number r of
                None \<Rightarrow> Inl Invalid_argument
              | Some x \<Rightarrow>
                  let y = fp_of_rat m (if neg then - x else x)
                  in (case y of
                        Fin q \<Rightarrow>
                          if \<bar>q\<bar> < 2 powi min_exp m \<and> \<bar>q\<bar> \<noteq> x then Inl Out_of_range else Inr y
                      | _ \<Rightarrow> Inl Out_of_range))"

definition stof :: "string \<Rightarrow> fp res" where
  "stof = stofp f32"

definition stod :: "string \<Rightarrow> fp res" where
  "stod = stofp f64"

end
