(* ===== verification/ProductData.thy ===== *)
theory ProductData
  imports CStrings
begin

text \<open>
  The values of the product metadata: \<open>ProductData\<close> and its subclasses
  (\<^verbatim>\<open>snap-engine/snap-core/core/datamodel/product_data*.cc\<close>). Each subclass holds an array of one
  C++ type; the model keeps the arrays at that type's width. A class is the record of its virtual
  methods, a derived class the record of its base class with the overridden methods replaced, an
  object its class, type code and array; a call on an object is dispatched by the class.

  A method that throws returns the exception; \<open>SetElems\<close> also returns the array it leaves behind,
  because its loop may fail half way. \<open>boost::lexical_cast\<close> is not part of the repository: it is a
  parameter, with its documented behaviour as hypotheses of the theorems that need it.
\<close>

section \<open>Types\<close>

definition TYPE_UNDEFINED :: int where "TYPE_UNDEFINED = 0"
definition TYPE_INT8 :: int where "TYPE_INT8 = 10"
definition TYPE_INT16 :: int where "TYPE_INT16 = 11"
definition TYPE_INT32 :: int where "TYPE_INT32 = 12"
definition TYPE_INT64 :: int where "TYPE_INT64 = 13"
definition TYPE_UINT8 :: int where "TYPE_UINT8 = 20"
definition TYPE_UINT16 :: int where "TYPE_UINT16 = 21"
definition TYPE_UINT32 :: int where "TYPE_UINT32 = 22"
definition TYPE_FLOAT32 :: int where "TYPE_FLOAT32 = 30"
definition TYPE_FLOAT64 :: int where "TYPE_FLOAT64 = 31"
definition TYPE_ASCII :: int where "TYPE_ASCII = 41"
definition TYPE_UTC :: int where "TYPE_UTC = 51"

lemmas type_codes = TYPE_UNDEFINED_def TYPE_INT8_def TYPE_INT16_def TYPE_INT32_def TYPE_INT64_def
  TYPE_UINT8_def TYPE_UINT16_def TYPE_UINT32_def TYPE_FLOAT32_def TYPE_FLOAT64_def TYPE_ASCII_def TYPE_UTC_def

definition GetTypeString :: "int \<Rightarrow> string" where
  "GetTypeString ty =
     (if ty = TYPE_INT8 then ''int8''
      else if ty = TYPE_INT16 then ''int16''
      else if ty = TYPE_INT32 then ''int32''
      else if ty = TYPE_INT64 then ''int64''
      else if ty = TYPE_UINT8 then ''uint8''
      else if ty = TYPE_UINT16 then ''uint16''
      else if ty = TYPE_UINT32 then ''uint32''
      else if ty = TYPE_FLOAT32 then ''float32''
      else if ty = TYPE_FLOAT64 then ''float64''
      else if ty = TYPE_ASCII then ''ascii''
      else if ty = TYPE_UTC then ''utc''
      else [])"

definition TypeOfString :: "string \<Rightarrow> int" where
  "TypeOfString s =
     (if s = ''int8'' then TYPE_INT8
      else if s = ''int16'' then TYPE_INT16
      else if s = ''int32'' then TYPE_INT32
      else if s = ''int64'' then TYPE_INT64
      else if s = ''uint8'' then TYPE_UINT8
      else if s = ''uint16'' then TYPE_UINT16
      else if s = ''uint32'' then TYPE_UINT32
      else if s = ''float32'' then TYPE_FLOAT32
      else if s = ''float64'' then TYPE_FLOAT64
      else if s = ''ascii'' then TYPE_ASCII
      else if s = ''utc'' then TYPE_UTC
      else TYPE_UNDEFINED)"

definition IsUIntType :: "int \<Rightarrow> bool" where
  "IsUIntType ty \<longleftrightarrow> ty \<ge> 20 \<and> ty < 30"

definition IsIntType :: "int \<Rightarrow> bool" where
  "IsIntType ty \<longleftrightarrow> ty \<ge> 10 \<and> ty < 30"

definition IsFloatingPointType :: "int \<Rightarrow> bool" where
  "IsFloatingPointType ty \<longleftrightarrow> ty \<ge> 30 \<and> ty < 40"

definition GetElemSize :: "int \<Rightarrow> int res" where
  "GetElemSize ty =
     (if ty = TYPE_INT8 \<or> ty = TYPE_ASCII \<or> ty = TYPE_UINT8 then Inr 1
      else if ty = TYPE_INT16 \<or> ty = TYPE_UINT16 then Inr 2
      else if ty = TYPE_INT32 \<or> ty = TYPE_UINT32 \<or> ty = TYPE_FLOAT32 then Inr 4
      else if ty = TYPE_UTC then Inr (3 * 4)
      else if ty = TYPE_INT64 \<or> ty = TYPE_FLOAT64 then Inr 8
      else Inl Invalid_argument)"

section \<open>Values of unknown type, and the classes\<close>

text \<open>The types a \<open>std::any\<close> holds in this code.\<close>

datatype any_value =
    Any_i8 "8 word list"
  | Any_u8 "8 word list"
  | Any_i16 "16 word list"
  | Any_u16 "16 word list"
  | Any_i32 "32 word list"
  | Any_u32 "32 word list"
  | Any_i64 "64 word list"
  | Any_f32 "fp list"
  | Any_f64 "fp list"
  | Any_strings "string list"
  | Any_string string
  | Any_string_view string
  | Any_cstr string

text \<open>\<open>boost::lexical_cast<T>\<close> for the types it is used with.\<close>

record lexical_cast =
  cast_i16 :: "string \<Rightarrow> int res"
  cast_u8 :: "string \<Rightarrow> int res"
  cast_u16 :: "string \<Rightarrow> int res"
  cast_i32 :: "string \<Rightarrow> int res"
  cast_u32 :: "string \<Rightarrow> int res"
  cast_i64 :: "string \<Rightarrow> int res"
  cast_f32 :: "string \<Rightarrow> fp res"
  cast_f64 :: "string \<Rightarrow> fp res"

record 'e elem_class =
  v_GetElemIntAt :: "'e list \<Rightarrow> int \<Rightarrow> int res"
  v_GetElemUIntAt :: "'e list \<Rightarrow> int \<Rightarrow> int res"
  v_GetElemLongAt :: "'e list \<Rightarrow> int \<Rightarrow> int res"
  v_GetElemFloatAt :: "'e list \<Rightarrow> int \<Rightarrow> fp res"
  v_GetElemDoubleAt :: "'e list \<Rightarrow> int \<Rightarrow> fp res"
  v_GetElemStringAt :: "'e list \<Rightarrow> int \<Rightarrow> string res"
  v_SetElemIntAt :: "'e list \<Rightarrow> int \<Rightarrow> int \<Rightarrow> 'e list res"
  v_SetElemUIntAt :: "'e list \<Rightarrow> int \<Rightarrow> int \<Rightarrow> 'e list res"
  v_SetElemLongAt :: "'e list \<Rightarrow> int \<Rightarrow> int \<Rightarrow> 'e list res"
  v_SetElemFloatAt :: "'e list \<Rightarrow> int \<Rightarrow> fp \<Rightarrow> 'e list res"
  v_SetElemDoubleAt :: "'e list \<Rightarrow> int \<Rightarrow> fp \<Rightarrow> 'e list res"
  v_SetElemStringAt :: "'e list \<Rightarrow> int \<Rightarrow> string \<Rightarrow> 'e list res"
  v_GetElems :: "'e list \<Rightarrow> any_value"
  v_SetElems :: "any_value \<Rightarrow> 'e list \<Rightarrow> 'e list \<times> unit res"
  v_EqualElems :: "'e list \<Rightarrow> bool \<Rightarrow> any_value \<Rightarrow> bool res"

text \<open>
  \<open>array_.at(index)\<close> read through a conversion, and \<open>std::transform\<close> over the strings of a list into the
  array from its beginning: a string that does not convert leaves the elements before it stored, and a
  store past the end is undefined.
\<close>

definition read_at :: "('e \<Rightarrow> 'v) \<Rightarrow> 'e list \<Rightarrow> int \<Rightarrow> 'v res" where
  "read_at conv a i = bind_res (vec_at a i) (\<lambda>x. Inr (conv x))"

fun transform_into :: "('s \<Rightarrow> 'e res) \<Rightarrow> 's list \<Rightarrow> nat \<Rightarrow> 'e list \<Rightarrow> 'e list \<times> unit res" where
  "transform_into f [] k a = (a, Inr ())"
| "transform_into f (s # ss) k a =
     (case f s of
        Inl e \<Rightarrow> (a, Inl e)
      | Inr x \<Rightarrow>
          if k < length a then transform_into f ss (Suc k) (a[k := x]) else (a, Inl Undefined_behaviour))"

text \<open>Class \<open>Byte\<close>.\<close>

definition Byte_string :: "string \<Rightarrow> 8 word res" where
  "Byte_string s = bind_res (stoi s) (\<lambda>v. if (- (2 ^ 7)) \<le> v \<and> (2 ^ 7 - 1) \<ge> v then Inr (word_of_int v) else Inl Out_of_range)"

definition Byte_class :: "lexical_cast \<Rightarrow> 8 word elem_class" where
  "Byte_class lc =
     \<lparr>v_GetElemIntAt = read_at sint,
      v_GetElemUIntAt = read_at sint,
      v_GetElemLongAt = read_at sint,
      v_GetElemFloatAt = read_at (\<lambda>x. fp_of_int f32 (sint x)),
      v_GetElemDoubleAt = read_at (\<lambda>x. fp_of_int f64 (sint x)),
      v_GetElemStringAt = read_at (\<lambda>x. to_string (sint x)),
      v_SetElemIntAt = (\<lambda>a i v. vec_put a i (word_of_int v)),
      v_SetElemUIntAt = (\<lambda>a i v. vec_put a i (word_of_int v)),
      v_SetElemLongAt = (\<lambda>a i v. vec_put a i (word_of_int v)),
      v_SetElemFloatAt = (\<lambda>a i v. bind_res (fp_to_int (- (2 ^ 7)) (2 ^ 7 - 1) (fround v)) (\<lambda>x. vec_put a i (word_of_int x))),
      v_SetElemDoubleAt = (\<lambda>a i v. bind_res (fp_to_int (- (2 ^ 7)) (2 ^ 7 - 1) (fround v)) (\<lambda>x. vec_put a i (word_of_int x))),
      v_SetElemStringAt = (\<lambda>a i s. bind_res (cast_i16 lc s) (\<lambda>x. vec_put a i (word_of_int x))),
      v_GetElems = Any_i8,
      v_SetElems = (\<lambda>data a.
        case data of
          Any_i8 b \<Rightarrow> (b, Inr ())
        | Any_strings ss \<Rightarrow> transform_into Byte_string ss 0 a
        | _ \<Rightarrow> (a, Inl Invalid_argument)),
      v_EqualElems = (\<lambda>a same other.
        if same then Inr True else case other of Any_i8 b \<Rightarrow> Inr (a = b) | _ \<Rightarrow> Inr False)\<rparr>"

text \<open>Class \<open>UByte\<close>.\<close>

definition UByte_string :: "string \<Rightarrow> 8 word res" where
  "UByte_string s = bind_res (stoul s) (\<lambda>v. if (2 ^ 8 - 1) \<ge> v then Inr (word_of_int v) else Inl Out_of_range)"

definition UByte_class :: "lexical_cast \<Rightarrow> 8 word elem_class" where
  "UByte_class lc =
     \<lparr>v_GetElemIntAt = read_at uint,
      v_GetElemUIntAt = read_at uint,
      v_GetElemLongAt = read_at uint,
      v_GetElemFloatAt = read_at (\<lambda>x. fp_of_int f32 (uint x)),
      v_GetElemDoubleAt = read_at (\<lambda>x. fp_of_int f64 (uint x)),
      v_GetElemStringAt = read_at (\<lambda>x. to_string (uint x)),
      v_SetElemIntAt = (\<lambda>a i v. vec_put a i (word_of_int v)),
      v_SetElemUIntAt = (\<lambda>a i v. vec_put a i (word_of_int v)),
      v_SetElemLongAt = (\<lambda>a i v. vec_put a i (word_of_int v)),
      v_SetElemFloatAt = (\<lambda>a i v. bind_res (fp_to_int 0 (2 ^ 8 - 1) (fround v)) (\<lambda>x. vec_put a i (word_of_int x))),
      v_SetElemDoubleAt = (\<lambda>a i v. bind_res (fp_to_int 0 (2 ^ 8 - 1) (fround v)) (\<lambda>x. vec_put a i (word_of_int x))),
      v_SetElemStringAt = (\<lambda>a i s. bind_res (cast_u8 lc s) (\<lambda>x. vec_put a i (word_of_int x))),
      v_GetElems = Any_u8,
      v_SetElems = (\<lambda>data a.
        case data of
          Any_u8 b \<Rightarrow> (b, Inr ())
        | Any_strings ss \<Rightarrow> transform_into UByte_string ss 0 a
        | _ \<Rightarrow> (a, Inl Invalid_argument)),
      v_EqualElems = (\<lambda>a same other.
        if same then Inr True else case other of Any_u8 b \<Rightarrow> Inr (a = b) | _ \<Rightarrow> Inr False)\<rparr>"

text \<open>Class \<open>Short\<close>.\<close>

definition Short_string :: "string \<Rightarrow> 16 word res" where
  "Short_string s = bind_res (stoi s) (\<lambda>v. if (- (2 ^ 15)) \<le> v \<and> (2 ^ 15 - 1) \<ge> v then Inr (word_of_int v) else Inl Out_of_range)"

definition Short_class :: "lexical_cast \<Rightarrow> 16 word elem_class" where
  "Short_class lc =
     \<lparr>v_GetElemIntAt = read_at sint,
      v_GetElemUIntAt = read_at sint,
      v_GetElemLongAt = read_at sint,
      v_GetElemFloatAt = read_at (\<lambda>x. fp_of_int f32 (sint x)),
      v_GetElemDoubleAt = read_at (\<lambda>x. fp_of_int f64 (sint x)),
      v_GetElemStringAt = read_at (\<lambda>x. to_string (sint x)),
      v_SetElemIntAt = (\<lambda>a i v. vec_put a i (word_of_int v)),
      v_SetElemUIntAt = (\<lambda>a i v. vec_put a i (word_of_int v)),
      v_SetElemLongAt = (\<lambda>a i v. vec_put a i (word_of_int v)),
      v_SetElemFloatAt = (\<lambda>a i v. bind_res (fp_to_int (- (2 ^ 15)) (2 ^ 15 - 1) (fround v)) (\<lambda>x. vec_put a i (word_of_int x))),
      v_SetElemDoubleAt = (\<lambda>a i v. bind_res (fp_to_int (- (2 ^ 15)) (2 ^ 15 - 1) (fround v)) (\<lambda>x. vec_put a i (word_of_int x))),
      v_SetElemStringAt = (\<lambda>a i s. bind_res (cast_i16 lc s) (\<lambda>x. vec_put a i (word_of_int x))),
      v_GetElems = Any_i16,
      v_SetElems = (\<lambda>data a.
        case data of
          Any_i16 b \<Rightarrow> (b, Inr ())
        | Any_strings ss \<Rightarrow> transform_into Short_string ss 0 a
        | _ \<Rightarrow> (a, Inl Invalid_argument)),
      v_EqualElems = (\<lambda>a same other.
        if same then Inr True else case other of Any_i16 b \<Rightarrow> Inr (a = b) | _ \<Rightarrow> Inr False)\<rparr>"

text \<open>Class \<open>UShort\<close>.\<close>

definition UShort_string :: "string \<Rightarrow> 16 word res" where
  "UShort_string s = bind_res (stoul s) (\<lambda>v. if (2 ^ 16 - 1) \<ge> v then Inr (word_of_int v) else Inl Out_of_range)"

definition UShort_class :: "lexical_cast \<Rightarrow> 16 word elem_class" where
  "UShort_class lc =
     \<lparr>v_GetElemIntAt = read_at uint,
      v_GetElemUIntAt = read_at uint,
      v_GetElemLongAt = read_at uint,
      v_GetElemFloatAt = read_at (\<lambda>x. fp_of_int f32 (uint x)),
      v_GetElemDoubleAt = read_at (\<lambda>x. fp_of_int f64 (uint x)),
      v_GetElemStringAt = read_at (\<lambda>x. to_string (uint x)),
      v_SetElemIntAt = (\<lambda>a i v. vec_put a i (word_of_int v)),
      v_SetElemUIntAt = (\<lambda>a i v. vec_put a i (word_of_int v)),
      v_SetElemLongAt = (\<lambda>a i v. vec_put a i (word_of_int v)),
      v_SetElemFloatAt = (\<lambda>a i v. bind_res (fp_to_int 0 (2 ^ 16 - 1) (fround v)) (\<lambda>x. vec_put a i (word_of_int x))),
      v_SetElemDoubleAt = (\<lambda>a i v. bind_res (fp_to_int 0 (2 ^ 16 - 1) (fround v)) (\<lambda>x. vec_put a i (word_of_int x))),
      v_SetElemStringAt = (\<lambda>a i s. bind_res (cast_u16 lc s) (\<lambda>x. vec_put a i (word_of_int x))),
      v_GetElems = Any_u16,
      v_SetElems = (\<lambda>data a.
        case data of
          Any_u16 b \<Rightarrow> (b, Inr ())
        | Any_strings ss \<Rightarrow> transform_into UShort_string ss 0 a
        | _ \<Rightarrow> (a, Inl Invalid_argument)),
      v_EqualElems = (\<lambda>a same other.
        if same then Inr True else case other of Any_u16 b \<Rightarrow> Inr (a = b) | _ \<Rightarrow> Inr False)\<rparr>"

text \<open>Class \<open>Int\<close>.\<close>

definition Int_string :: "string \<Rightarrow> 32 word res" where
  "Int_string s = bind_res (stoll s) (\<lambda>v. if (- (2 ^ 31)) \<le> v \<and> (2 ^ 31 - 1) \<ge> v
          then bind_res (stol s) (\<lambda>u. Inr (word_of_int u)) else Inl Out_of_range)"

definition Int_class :: "lexical_cast \<Rightarrow> 32 word elem_class" where
  "Int_class lc =
     \<lparr>v_GetElemIntAt = read_at sint,
      v_GetElemUIntAt = read_at sint,
      v_GetElemLongAt = read_at sint,
      v_GetElemFloatAt = read_at (\<lambda>x. fp_of_int f32 (sint x)),
      v_GetElemDoubleAt = read_at (\<lambda>x. fp_of_int f64 (sint x)),
      v_GetElemStringAt = read_at (\<lambda>x. to_string (sint x)),
      v_SetElemIntAt = (\<lambda>a i v. vec_put a i (word_of_int v)),
      v_SetElemUIntAt = (\<lambda>a i v. vec_put a i (word_of_int v)),
      v_SetElemLongAt = (\<lambda>a i v. vec_put a i (word_of_int v)),
      v_SetElemFloatAt = (\<lambda>a i v. bind_res (fp_to_int (- (2 ^ 31)) (2 ^ 31 - 1) (fround v)) (\<lambda>x. vec_put a i (word_of_int x))),
      v_SetElemDoubleAt = (\<lambda>a i v. bind_res (fp_to_int (- (2 ^ 31)) (2 ^ 31 - 1) (fround v)) (\<lambda>x. vec_put a i (word_of_int x))),
      v_SetElemStringAt = (\<lambda>a i s. bind_res (cast_i32 lc s) (\<lambda>x. vec_put a i (word_of_int x))),
      v_GetElems = Any_i32,
      v_SetElems = (\<lambda>data a.
        case data of
          Any_i32 b \<Rightarrow> (b, Inr ())
        | Any_strings ss \<Rightarrow> transform_into Int_string ss 0 a
        | _ \<Rightarrow> (a, Inl Invalid_argument)),
      v_EqualElems = (\<lambda>a same other.
        if same then Inr True else case other of Any_i32 b \<Rightarrow> Inr (a = b) | _ \<Rightarrow> Inr False)\<rparr>"

text \<open>Class \<open>UInt\<close>.\<close>

definition UInt_string :: "string \<Rightarrow> 32 word res" where
  "UInt_string s = bind_res (stoull s) (\<lambda>v. if (2 ^ 32 - 1) \<ge> v
          then bind_res (stoul s) (\<lambda>u. Inr (word_of_int u)) else Inl Out_of_range)"

definition UInt_class :: "lexical_cast \<Rightarrow> 32 word elem_class" where
  "UInt_class lc =
     \<lparr>v_GetElemIntAt = read_at (\<lambda>x. wrap_signed 32 (uint x)),
      v_GetElemUIntAt = read_at uint,
      v_GetElemLongAt = read_at uint,
      v_GetElemFloatAt = read_at (\<lambda>x. fp_of_int f32 (uint x)),
      v_GetElemDoubleAt = read_at (\<lambda>x. fp_of_int f64 (uint x)),
      v_GetElemStringAt = read_at (\<lambda>x. to_string (uint x)),
      v_SetElemIntAt = (\<lambda>a i v. vec_put a i (word_of_int v)),
      v_SetElemUIntAt = (\<lambda>a i v. vec_put a i (word_of_int v)),
      v_SetElemLongAt = (\<lambda>a i v. vec_put a i (word_of_int v)),
      v_SetElemFloatAt = (\<lambda>a i v. bind_res (fp_to_int 0 (2 ^ 32 - 1) (fround v)) (\<lambda>x. vec_put a i (word_of_int x))),
      v_SetElemDoubleAt = (\<lambda>a i v. bind_res (fp_to_int 0 (2 ^ 32 - 1) (fround v)) (\<lambda>x. vec_put a i (word_of_int x))),
      v_SetElemStringAt = (\<lambda>a i s. bind_res (cast_u32 lc s) (\<lambda>x. vec_put a i (word_of_int x))),
      v_GetElems = Any_u32,
      v_SetElems = (\<lambda>data a.
        case data of
          Any_u32 b \<Rightarrow> (b, Inr ())
        | Any_strings ss \<Rightarrow> transform_into UInt_string ss 0 a
        | _ \<Rightarrow> (a, Inl Invalid_argument)),
      v_EqualElems = (\<lambda>a same other.
        if same then Inr True else case other of Any_u32 b \<Rightarrow> Inr (a = b) | _ \<Rightarrow> Inr False)\<rparr>"

text \<open>Class \<open>Long\<close>.\<close>

definition Long_string :: "string \<Rightarrow> 64 word res" where
  "Long_string s = bind_res (stoll s) (\<lambda>v. Inr (word_of_int v))"

definition Long_class :: "lexical_cast \<Rightarrow> 64 word elem_class" where
  "Long_class lc =
     \<lparr>v_GetElemIntAt = read_at (\<lambda>x. wrap_signed 32 (sint x)),
      v_GetElemUIntAt = read_at sint,
      v_GetElemLongAt = read_at sint,
      v_GetElemFloatAt = read_at (\<lambda>x. fp_of_int f32 (sint x)),
      v_GetElemDoubleAt = read_at (\<lambda>x. fp_of_int f64 (sint x)),
      v_GetElemStringAt = read_at (\<lambda>x. to_string (sint x)),
      v_SetElemIntAt = (\<lambda>a i v. vec_put a i (word_of_int v)),
      v_SetElemUIntAt = (\<lambda>a i v. vec_put a i (word_of_int v)),
      v_SetElemLongAt = (\<lambda>a i v. vec_put a i (word_of_int v)),
      v_SetElemFloatAt = (\<lambda>a i v. bind_res (fp_to_int (- (2 ^ 63)) (2 ^ 63 - 1) (fround v)) (\<lambda>x. vec_put a i (word_of_int x))),
      v_SetElemDoubleAt = (\<lambda>a i v. bind_res (fp_to_int (- (2 ^ 63)) (2 ^ 63 - 1) (fround v)) (\<lambda>x. vec_put a i (word_of_int x))),
      v_SetElemStringAt = (\<lambda>a i s. bind_res (cast_i64 lc s) (\<lambda>x. vec_put a i (word_of_int x))),
      v_GetElems = Any_i64,
      v_SetElems = (\<lambda>data a.
        case data of
          Any_i64 b \<Rightarrow> (b, Inr ())
        | Any_strings ss \<Rightarrow> transform_into Long_string ss 0 a
        | _ \<Rightarrow> (a, Inl Invalid_argument)),
      v_EqualElems = (\<lambda>a same other.
        if same then Inr True else case other of Any_i64 b \<Rightarrow> Inr (a = b) | _ \<Rightarrow> Inr False)\<rparr>"

text \<open>Class \<open>Float\<close>.\<close>

definition Float_class :: "lexical_cast \<Rightarrow> fp elem_class" where
  "Float_class lc =
     \<lparr>v_GetElemIntAt = (\<lambda>a i. bind_res (vec_at a i) (\<lambda>x. fp_to_int32 (fround x))),
      v_GetElemUIntAt = (\<lambda>a i. bind_res (vec_at a i) (\<lambda>x. fp_to_int (- (2 ^ 63)) (2 ^ 63 - 1) (fround x))),
      v_GetElemLongAt = (\<lambda>a i. bind_res (vec_at a i) (\<lambda>x. fp_to_int (- (2 ^ 63)) (2 ^ 63 - 1) (fround x))),
      v_GetElemFloatAt = read_at (\<lambda>x. x),
      v_GetElemDoubleAt = read_at (\<lambda>x. x),
      v_GetElemStringAt = read_at to_string_fp,
      v_SetElemIntAt = (\<lambda>a i v. vec_put a i (fp_of_int f32 v)),
      v_SetElemUIntAt = (\<lambda>a i v. vec_put a i (fp_of_int f32 v)),
      v_SetElemLongAt = (\<lambda>a i v. vec_put a i (fp_of_int f32 v)),
      v_SetElemFloatAt = vec_put,
      v_SetElemDoubleAt = (\<lambda>a i v. vec_put a i (fp_convert f32 v)),
      v_SetElemStringAt = (\<lambda>a i s. bind_res (cast_f32 lc s) (vec_put a i)),
      v_GetElems = Any_f32,
      v_SetElems = (\<lambda>data a.
        case data of
          Any_f32 b \<Rightarrow> (b, Inr ())
        | Any_strings ss \<Rightarrow> transform_into stof ss 0 a
        | _ \<Rightarrow> (a, Inl Invalid_argument)),
      v_EqualElems = (\<lambda>a same other.
        if same then Inr True
        else case other of Any_f32 b \<Rightarrow> Inr (list_all2 feq a b) | _ \<Rightarrow> Inl Bad_any_cast)\<rparr>"

text \<open>
  A whole number is printed with one decimal, any other with 17 significant digits.
\<close>

fun Double_text :: "fp \<Rightarrow> string" where
  "Double_text (Fin x) = (if x = of_int \<lfloor>x\<rfloor> then fixed_string 1 x else general_string 17 x)"
| "Double_text y = special_string y"

text \<open>Class \<open>Double\<close>.\<close>

definition Double_class :: "lexical_cast \<Rightarrow> fp elem_class" where
  "Double_class lc =
     \<lparr>v_GetElemIntAt = (\<lambda>a i. bind_res (vec_at a i) (\<lambda>x. fp_to_int32 (fround x))),
      v_GetElemUIntAt = (\<lambda>a i. bind_res (vec_at a i) (\<lambda>x. fp_to_int (- (2 ^ 63)) (2 ^ 63 - 1) (fround x))),
      v_GetElemLongAt = (\<lambda>a i. bind_res (vec_at a i) (\<lambda>x. fp_to_int (- (2 ^ 63)) (2 ^ 63 - 1) (fround x))),
      v_GetElemFloatAt = read_at (fp_convert f32),
      v_GetElemDoubleAt = read_at (\<lambda>x. x),
      v_GetElemStringAt = read_at Double_text,
      v_SetElemIntAt = (\<lambda>a i v. vec_put a i (fp_of_int f64 v)),
      v_SetElemUIntAt = (\<lambda>a i v. vec_put a i (fp_of_int f64 v)),
      v_SetElemLongAt = (\<lambda>a i v. vec_put a i (fp_of_int f64 v)),
      v_SetElemFloatAt = vec_put,
      v_SetElemDoubleAt = vec_put,
      v_SetElemStringAt = (\<lambda>a i s. bind_res (cast_f64 lc s) (vec_put a i)),
      v_GetElems = Any_f64,
      v_SetElems = (\<lambda>data a.
        case data of
          Any_f64 b \<Rightarrow> (b, Inr ())
        | Any_strings ss \<Rightarrow> transform_into stod ss 0 a
        | _ \<Rightarrow> (a, Inl Invalid_argument)),
      v_EqualElems = (\<lambda>a same other.
        if same then Inr True
        else case other of Any_f64 b \<Rightarrow> Inr (list_all2 feq a b) | _ \<Rightarrow> Inl Bad_any_cast)\<rparr>"

text \<open>\<open>ASCII\<close> is derived from \<open>Byte\<close>, \<open>Utc\<close> from \<open>UInt\<close> without changing an element method.\<close>

definition char_word :: "char \<Rightarrow> 8 word" where
  "char_word c = of_nat (code c)"

definition word_char :: "8 word \<Rightarrow> char" where
  "word_char w = char_of (unat w)"

definition ASCII_class :: "lexical_cast \<Rightarrow> 8 word elem_class" where
  "ASCII_class lc = (Byte_class lc)
     \<lparr>v_GetElemStringAt := read_at (\<lambda>x. [word_char x]),
      v_SetElems := (\<lambda>data a.
        case data of
          Any_i8 b \<Rightarrow> (b, Inr ())
        | Any_strings ss \<Rightarrow> transform_into Byte_string ss 0 a
        | Any_string_view s \<Rightarrow> (map char_word s, Inr ())
        | Any_string s \<Rightarrow> (map char_word s, Inr ())
        | Any_cstr s \<Rightarrow> (map char_word s, Inr ())
        | _ \<Rightarrow> (a, Inl Invalid_argument))\<rparr>"

definition Utc_class :: "lexical_cast \<Rightarrow> 32 word elem_class" where
  "Utc_class lc = UInt_class lc"

section \<open>Objects\<close>

text \<open>An object: its class with the type code it was constructed with, and the array.\<close>

datatype product_data =
    ByteData int "8 word list"
  | UByteData int "8 word list"
  | ShortData int "16 word list"
  | UShortData int "16 word list"
  | IntData int "32 word list"
  | UIntData int "32 word list"
  | LongData "64 word list"
  | FloatData "fp list"
  | DoubleData "fp list"
  | ASCIIData "8 word list"
  | UtcData "32 word list"

fun GetType :: "product_data \<Rightarrow> int" where
  "GetType (ByteData ty _) = ty"
| "GetType (UByteData ty _) = ty"
| "GetType (ShortData ty _) = ty"
| "GetType (UShortData ty _) = ty"
| "GetType (IntData ty _) = ty"
| "GetType (UIntData ty _) = ty"
| "GetType (LongData _) = TYPE_INT64"
| "GetType (FloatData _) = TYPE_FLOAT32"
| "GetType (DoubleData _) = TYPE_FLOAT64"
| "GetType (ASCIIData _) = TYPE_ASCII"
| "GetType (UtcData _) = TYPE_UTC"

fun GetNumElems :: "product_data \<Rightarrow> int" where
  "GetNumElems (ByteData _ a) = int (length a)"
| "GetNumElems (UByteData _ a) = int (length a)"
| "GetNumElems (ShortData _ a) = int (length a)"
| "GetNumElems (UShortData _ a) = int (length a)"
| "GetNumElems (IntData _ a) = int (length a)"
| "GetNumElems (UIntData _ a) = int (length a)"
| "GetNumElems (LongData a) = int (length a)"
| "GetNumElems (FloatData a) = int (length a)"
| "GetNumElems (DoubleData a) = int (length a)"
| "GetNumElems (ASCIIData a) = int (length a)"
| "GetNumElems (UtcData a) = int (length a)"

definition IsScalar :: "product_data \<Rightarrow> bool" where
  "IsScalar p \<longleftrightarrow> GetNumElems p = 1"

fun Dispose :: "product_data \<Rightarrow> product_data" where
  "Dispose (ByteData ty a) = ByteData ty []"
| "Dispose (UByteData ty a) = UByteData ty []"
| "Dispose (ShortData ty a) = ShortData ty []"
| "Dispose (UShortData ty a) = UShortData ty []"
| "Dispose (IntData ty a) = IntData ty []"
| "Dispose (UIntData ty a) = UIntData ty []"
| "Dispose (LongData a) = LongData []"
| "Dispose (FloatData a) = FloatData []"
| "Dispose (DoubleData a) = DoubleData []"
| "Dispose (ASCIIData a) = ASCIIData []"
| "Dispose (UtcData a) = UtcData []"

fun GetElemIntAt :: "lexical_cast \<Rightarrow> product_data \<Rightarrow> int \<Rightarrow> int res" where
  "GetElemIntAt lc (ByteData _ a) i = v_GetElemIntAt (Byte_class lc) a i"
| "GetElemIntAt lc (UByteData _ a) i = v_GetElemIntAt (UByte_class lc) a i"
| "GetElemIntAt lc (ShortData _ a) i = v_GetElemIntAt (Short_class lc) a i"
| "GetElemIntAt lc (UShortData _ a) i = v_GetElemIntAt (UShort_class lc) a i"
| "GetElemIntAt lc (IntData _ a) i = v_GetElemIntAt (Int_class lc) a i"
| "GetElemIntAt lc (UIntData _ a) i = v_GetElemIntAt (UInt_class lc) a i"
| "GetElemIntAt lc (LongData a) i = v_GetElemIntAt (Long_class lc) a i"
| "GetElemIntAt lc (FloatData a) i = v_GetElemIntAt (Float_class lc) a i"
| "GetElemIntAt lc (DoubleData a) i = v_GetElemIntAt (Double_class lc) a i"
| "GetElemIntAt lc (ASCIIData a) i = v_GetElemIntAt (ASCII_class lc) a i"
| "GetElemIntAt lc (UtcData a) i = v_GetElemIntAt (Utc_class lc) a i"

fun GetElemUIntAt :: "lexical_cast \<Rightarrow> product_data \<Rightarrow> int \<Rightarrow> int res" where
  "GetElemUIntAt lc (ByteData _ a) i = v_GetElemUIntAt (Byte_class lc) a i"
| "GetElemUIntAt lc (UByteData _ a) i = v_GetElemUIntAt (UByte_class lc) a i"
| "GetElemUIntAt lc (ShortData _ a) i = v_GetElemUIntAt (Short_class lc) a i"
| "GetElemUIntAt lc (UShortData _ a) i = v_GetElemUIntAt (UShort_class lc) a i"
| "GetElemUIntAt lc (IntData _ a) i = v_GetElemUIntAt (Int_class lc) a i"
| "GetElemUIntAt lc (UIntData _ a) i = v_GetElemUIntAt (UInt_class lc) a i"
| "GetElemUIntAt lc (LongData a) i = v_GetElemUIntAt (Long_class lc) a i"
| "GetElemUIntAt lc (FloatData a) i = v_GetElemUIntAt (Float_class lc) a i"
| "GetElemUIntAt lc (DoubleData a) i = v_GetElemUIntAt (Double_class lc) a i"
| "GetElemUIntAt lc (ASCIIData a) i = v_GetElemUIntAt (ASCII_class lc) a i"
| "GetElemUIntAt lc (UtcData a) i = v_GetElemUIntAt (Utc_class lc) a i"

fun GetElemLongAt :: "lexical_cast \<Rightarrow> product_data \<Rightarrow> int \<Rightarrow> int res" where
  "GetElemLongAt lc (ByteData _ a) i = v_GetElemLongAt (Byte_class lc) a i"
| "GetElemLongAt lc (UByteData _ a) i = v_GetElemLongAt (UByte_class lc) a i"
| "GetElemLongAt lc (ShortData _ a) i = v_GetElemLongAt (Short_class lc) a i"
| "GetElemLongAt lc (UShortData _ a) i = v_GetElemLongAt (UShort_class lc) a i"
| "GetElemLongAt lc (IntData _ a) i = v_GetElemLongAt (Int_class lc) a i"
| "GetElemLongAt lc (UIntData _ a) i = v_GetElemLongAt (UInt_class lc) a i"
| "GetElemLongAt lc (LongData a) i = v_GetElemLongAt (Long_class lc) a i"
| "GetElemLongAt lc (FloatData a) i = v_GetElemLongAt (Float_class lc) a i"
| "GetElemLongAt lc (DoubleData a) i = v_GetElemLongAt (Double_class lc) a i"
| "GetElemLongAt lc (ASCIIData a) i = v_GetElemLongAt (ASCII_class lc) a i"
| "GetElemLongAt lc (UtcData a) i = v_GetElemLongAt (Utc_class lc) a i"

fun GetElemFloatAt :: "lexical_cast \<Rightarrow> product_data \<Rightarrow> int \<Rightarrow> fp res" where
  "GetElemFloatAt lc (ByteData _ a) i = v_GetElemFloatAt (Byte_class lc) a i"
| "GetElemFloatAt lc (UByteData _ a) i = v_GetElemFloatAt (UByte_class lc) a i"
| "GetElemFloatAt lc (ShortData _ a) i = v_GetElemFloatAt (Short_class lc) a i"
| "GetElemFloatAt lc (UShortData _ a) i = v_GetElemFloatAt (UShort_class lc) a i"
| "GetElemFloatAt lc (IntData _ a) i = v_GetElemFloatAt (Int_class lc) a i"
| "GetElemFloatAt lc (UIntData _ a) i = v_GetElemFloatAt (UInt_class lc) a i"
| "GetElemFloatAt lc (LongData a) i = v_GetElemFloatAt (Long_class lc) a i"
| "GetElemFloatAt lc (FloatData a) i = v_GetElemFloatAt (Float_class lc) a i"
| "GetElemFloatAt lc (DoubleData a) i = v_GetElemFloatAt (Double_class lc) a i"
| "GetElemFloatAt lc (ASCIIData a) i = v_GetElemFloatAt (ASCII_class lc) a i"
| "GetElemFloatAt lc (UtcData a) i = v_GetElemFloatAt (Utc_class lc) a i"

fun GetElemDoubleAt :: "lexical_cast \<Rightarrow> product_data \<Rightarrow> int \<Rightarrow> fp res" where
  "GetElemDoubleAt lc (ByteData _ a) i = v_GetElemDoubleAt (Byte_class lc) a i"
| "GetElemDoubleAt lc (UByteData _ a) i = v_GetElemDoubleAt (UByte_class lc) a i"
| "GetElemDoubleAt lc (ShortData _ a) i = v_GetElemDoubleAt (Short_class lc) a i"
| "GetElemDoubleAt lc (UShortData _ a) i = v_GetElemDoubleAt (UShort_class lc) a i"
| "GetElemDoubleAt lc (IntData _ a) i = v_GetElemDoubleAt (Int_class lc) a i"
| "GetElemDoubleAt lc (UIntData _ a) i = v_GetElemDoubleAt (UInt_class lc) a i"
| "GetElemDoubleAt lc (LongData a) i = v_GetElemDoubleAt (Long_class lc) a i"
| "GetElemDoubleAt lc (FloatData a) i = v_GetElemDoubleAt (Float_class lc) a i"
| "GetElemDoubleAt lc (DoubleData a) i = v_GetElemDoubleAt (Double_class lc) a i"
| "GetElemDoubleAt lc (ASCIIData a) i = v_GetElemDoubleAt (ASCII_class lc) a i"
| "GetElemDoubleAt lc (UtcData a) i = v_GetElemDoubleAt (Utc_class lc) a i"

fun GetElemStringAt :: "lexical_cast \<Rightarrow> product_data \<Rightarrow> int \<Rightarrow> string res" where
  "GetElemStringAt lc (ByteData _ a) i = v_GetElemStringAt (Byte_class lc) a i"
| "GetElemStringAt lc (UByteData _ a) i = v_GetElemStringAt (UByte_class lc) a i"
| "GetElemStringAt lc (ShortData _ a) i = v_GetElemStringAt (Short_class lc) a i"
| "GetElemStringAt lc (UShortData _ a) i = v_GetElemStringAt (UShort_class lc) a i"
| "GetElemStringAt lc (IntData _ a) i = v_GetElemStringAt (Int_class lc) a i"
| "GetElemStringAt lc (UIntData _ a) i = v_GetElemStringAt (UInt_class lc) a i"
| "GetElemStringAt lc (LongData a) i = v_GetElemStringAt (Long_class lc) a i"
| "GetElemStringAt lc (FloatData a) i = v_GetElemStringAt (Float_class lc) a i"
| "GetElemStringAt lc (DoubleData a) i = v_GetElemStringAt (Double_class lc) a i"
| "GetElemStringAt lc (ASCIIData a) i = v_GetElemStringAt (ASCII_class lc) a i"
| "GetElemStringAt lc (UtcData a) i = v_GetElemStringAt (Utc_class lc) a i"

fun SetElemIntAt :: "lexical_cast \<Rightarrow> product_data \<Rightarrow> int \<Rightarrow> int \<Rightarrow> product_data res" where
  "SetElemIntAt lc (ByteData ty a) i v =
     bind_res (v_SetElemIntAt (Byte_class lc) a i v) (\<lambda>b. Inr (ByteData ty b))"
| "SetElemIntAt lc (UByteData ty a) i v =
     bind_res (v_SetElemIntAt (UByte_class lc) a i v) (\<lambda>b. Inr (UByteData ty b))"
| "SetElemIntAt lc (ShortData ty a) i v =
     bind_res (v_SetElemIntAt (Short_class lc) a i v) (\<lambda>b. Inr (ShortData ty b))"
| "SetElemIntAt lc (UShortData ty a) i v =
     bind_res (v_SetElemIntAt (UShort_class lc) a i v) (\<lambda>b. Inr (UShortData ty b))"
| "SetElemIntAt lc (IntData ty a) i v =
     bind_res (v_SetElemIntAt (Int_class lc) a i v) (\<lambda>b. Inr (IntData ty b))"
| "SetElemIntAt lc (UIntData ty a) i v =
     bind_res (v_SetElemIntAt (UInt_class lc) a i v) (\<lambda>b. Inr (UIntData ty b))"
| "SetElemIntAt lc (LongData a) i v =
     bind_res (v_SetElemIntAt (Long_class lc) a i v) (\<lambda>b. Inr (LongData b))"
| "SetElemIntAt lc (FloatData a) i v =
     bind_res (v_SetElemIntAt (Float_class lc) a i v) (\<lambda>b. Inr (FloatData b))"
| "SetElemIntAt lc (DoubleData a) i v =
     bind_res (v_SetElemIntAt (Double_class lc) a i v) (\<lambda>b. Inr (DoubleData b))"
| "SetElemIntAt lc (ASCIIData a) i v =
     bind_res (v_SetElemIntAt (ASCII_class lc) a i v) (\<lambda>b. Inr (ASCIIData b))"
| "SetElemIntAt lc (UtcData a) i v =
     bind_res (v_SetElemIntAt (Utc_class lc) a i v) (\<lambda>b. Inr (UtcData b))"

fun SetElemUIntAt :: "lexical_cast \<Rightarrow> product_data \<Rightarrow> int \<Rightarrow> int \<Rightarrow> product_data res" where
  "SetElemUIntAt lc (ByteData ty a) i v =
     bind_res (v_SetElemUIntAt (Byte_class lc) a i v) (\<lambda>b. Inr (ByteData ty b))"
| "SetElemUIntAt lc (UByteData ty a) i v =
     bind_res (v_SetElemUIntAt (UByte_class lc) a i v) (\<lambda>b. Inr (UByteData ty b))"
| "SetElemUIntAt lc (ShortData ty a) i v =
     bind_res (v_SetElemUIntAt (Short_class lc) a i v) (\<lambda>b. Inr (ShortData ty b))"
| "SetElemUIntAt lc (UShortData ty a) i v =
     bind_res (v_SetElemUIntAt (UShort_class lc) a i v) (\<lambda>b. Inr (UShortData ty b))"
| "SetElemUIntAt lc (IntData ty a) i v =
     bind_res (v_SetElemUIntAt (Int_class lc) a i v) (\<lambda>b. Inr (IntData ty b))"
| "SetElemUIntAt lc (UIntData ty a) i v =
     bind_res (v_SetElemUIntAt (UInt_class lc) a i v) (\<lambda>b. Inr (UIntData ty b))"
| "SetElemUIntAt lc (LongData a) i v =
     bind_res (v_SetElemUIntAt (Long_class lc) a i v) (\<lambda>b. Inr (LongData b))"
| "SetElemUIntAt lc (FloatData a) i v =
     bind_res (v_SetElemUIntAt (Float_class lc) a i v) (\<lambda>b. Inr (FloatData b))"
| "SetElemUIntAt lc (DoubleData a) i v =
     bind_res (v_SetElemUIntAt (Double_class lc) a i v) (\<lambda>b. Inr (DoubleData b))"
| "SetElemUIntAt lc (ASCIIData a) i v =
     bind_res (v_SetElemUIntAt (ASCII_class lc) a i v) (\<lambda>b. Inr (ASCIIData b))"
| "SetElemUIntAt lc (UtcData a) i v =
     bind_res (v_SetElemUIntAt (Utc_class lc) a i v) (\<lambda>b. Inr (UtcData b))"

fun SetElemLongAt :: "lexical_cast \<Rightarrow> product_data \<Rightarrow> int \<Rightarrow> int \<Rightarrow> product_data res" where
  "SetElemLongAt lc (ByteData ty a) i v =
     bind_res (v_SetElemLongAt (Byte_class lc) a i v) (\<lambda>b. Inr (ByteData ty b))"
| "SetElemLongAt lc (UByteData ty a) i v =
     bind_res (v_SetElemLongAt (UByte_class lc) a i v) (\<lambda>b. Inr (UByteData ty b))"
| "SetElemLongAt lc (ShortData ty a) i v =
     bind_res (v_SetElemLongAt (Short_class lc) a i v) (\<lambda>b. Inr (ShortData ty b))"
| "SetElemLongAt lc (UShortData ty a) i v =
     bind_res (v_SetElemLongAt (UShort_class lc) a i v) (\<lambda>b. Inr (UShortData ty b))"
| "SetElemLongAt lc (IntData ty a) i v =
     bind_res (v_SetElemLongAt (Int_class lc) a i v) (\<lambda>b. Inr (IntData ty b))"
| "SetElemLongAt lc (UIntData ty a) i v =
     bind_res (v_SetElemLongAt (UInt_class lc) a i v) (\<lambda>b. Inr (UIntData ty b))"
| "SetElemLongAt lc (LongData a) i v =
     bind_res (v_SetElemLongAt (Long_class lc) a i v) (\<lambda>b. Inr (LongData b))"
| "SetElemLongAt lc (FloatData a) i v =
     bind_res (v_SetElemLongAt (Float_class lc) a i v) (\<lambda>b. Inr (FloatData b))"
| "SetElemLongAt lc (DoubleData a) i v =
     bind_res (v_SetElemLongAt (Double_class lc) a i v) (\<lambda>b. Inr (DoubleData b))"
| "SetElemLongAt lc (ASCIIData a) i v =
     bind_res (v_SetElemLongAt (ASCII_class lc) a i v) (\<lambda>b. Inr (ASCIIData b))"
| "SetElemLongAt lc (UtcData a) i v =
     bind_res (v_SetElemLongAt (Utc_class lc) a i v) (\<lambda>b. Inr (UtcData b))"

fun SetElemFloatAt :: "lexical_cast \<Rightarrow> product_data \<Rightarrow> int \<Rightarrow> fp \<Rightarrow> product_data res" where
  "SetElemFloatAt lc (ByteData ty a) i v =
     bind_res (v_SetElemFloatAt (Byte_class lc) a i v) (\<lambda>b. Inr (ByteData ty b))"
| "SetElemFloatAt lc (UByteData ty a) i v =
     bind_res (v_SetElemFloatAt (UByte_class lc) a i v) (\<lambda>b. Inr (UByteData ty b))"
| "SetElemFloatAt lc (ShortData ty a) i v =
     bind_res (v_SetElemFloatAt (Short_class lc) a i v) (\<lambda>b. Inr (ShortData ty b))"
| "SetElemFloatAt lc (UShortData ty a) i v =
     bind_res (v_SetElemFloatAt (UShort_class lc) a i v) (\<lambda>b. Inr (UShortData ty b))"
| "SetElemFloatAt lc (IntData ty a) i v =
     bind_res (v_SetElemFloatAt (Int_class lc) a i v) (\<lambda>b. Inr (IntData ty b))"
| "SetElemFloatAt lc (UIntData ty a) i v =
     bind_res (v_SetElemFloatAt (UInt_class lc) a i v) (\<lambda>b. Inr (UIntData ty b))"
| "SetElemFloatAt lc (LongData a) i v =
     bind_res (v_SetElemFloatAt (Long_class lc) a i v) (\<lambda>b. Inr (LongData b))"
| "SetElemFloatAt lc (FloatData a) i v =
     bind_res (v_SetElemFloatAt (Float_class lc) a i v) (\<lambda>b. Inr (FloatData b))"
| "SetElemFloatAt lc (DoubleData a) i v =
     bind_res (v_SetElemFloatAt (Double_class lc) a i v) (\<lambda>b. Inr (DoubleData b))"
| "SetElemFloatAt lc (ASCIIData a) i v =
     bind_res (v_SetElemFloatAt (ASCII_class lc) a i v) (\<lambda>b. Inr (ASCIIData b))"
| "SetElemFloatAt lc (UtcData a) i v =
     bind_res (v_SetElemFloatAt (Utc_class lc) a i v) (\<lambda>b. Inr (UtcData b))"

fun SetElemDoubleAt :: "lexical_cast \<Rightarrow> product_data \<Rightarrow> int \<Rightarrow> fp \<Rightarrow> product_data res" where
  "SetElemDoubleAt lc (ByteData ty a) i v =
     bind_res (v_SetElemDoubleAt (Byte_class lc) a i v) (\<lambda>b. Inr (ByteData ty b))"
| "SetElemDoubleAt lc (UByteData ty a) i v =
     bind_res (v_SetElemDoubleAt (UByte_class lc) a i v) (\<lambda>b. Inr (UByteData ty b))"
| "SetElemDoubleAt lc (ShortData ty a) i v =
     bind_res (v_SetElemDoubleAt (Short_class lc) a i v) (\<lambda>b. Inr (ShortData ty b))"
| "SetElemDoubleAt lc (UShortData ty a) i v =
     bind_res (v_SetElemDoubleAt (UShort_class lc) a i v) (\<lambda>b. Inr (UShortData ty b))"
| "SetElemDoubleAt lc (IntData ty a) i v =
     bind_res (v_SetElemDoubleAt (Int_class lc) a i v) (\<lambda>b. Inr (IntData ty b))"
| "SetElemDoubleAt lc (UIntData ty a) i v =
     bind_res (v_SetElemDoubleAt (UInt_class lc) a i v) (\<lambda>b. Inr (UIntData ty b))"
| "SetElemDoubleAt lc (LongData a) i v =
     bind_res (v_SetElemDoubleAt (Long_class lc) a i v) (\<lambda>b. Inr (LongData b))"
| "SetElemDoubleAt lc (FloatData a) i v =
     bind_res (v_SetElemDoubleAt (Float_class lc) a i v) (\<lambda>b. Inr (FloatData b))"
| "SetElemDoubleAt lc (DoubleData a) i v =
     bind_res (v_SetElemDoubleAt (Double_class lc) a i v) (\<lambda>b. Inr (DoubleData b))"
| "SetElemDoubleAt lc (ASCIIData a) i v =
     bind_res (v_SetElemDoubleAt (ASCII_class lc) a i v) (\<lambda>b. Inr (ASCIIData b))"
| "SetElemDoubleAt lc (UtcData a) i v =
     bind_res (v_SetElemDoubleAt (Utc_class lc) a i v) (\<lambda>b. Inr (UtcData b))"

fun SetElemStringAt :: "lexical_cast \<Rightarrow> product_data \<Rightarrow> int \<Rightarrow> string \<Rightarrow> product_data res" where
  "SetElemStringAt lc (ByteData ty a) i v =
     bind_res (v_SetElemStringAt (Byte_class lc) a i v) (\<lambda>b. Inr (ByteData ty b))"
| "SetElemStringAt lc (UByteData ty a) i v =
     bind_res (v_SetElemStringAt (UByte_class lc) a i v) (\<lambda>b. Inr (UByteData ty b))"
| "SetElemStringAt lc (ShortData ty a) i v =
     bind_res (v_SetElemStringAt (Short_class lc) a i v) (\<lambda>b. Inr (ShortData ty b))"
| "SetElemStringAt lc (UShortData ty a) i v =
     bind_res (v_SetElemStringAt (UShort_class lc) a i v) (\<lambda>b. Inr (UShortData ty b))"
| "SetElemStringAt lc (IntData ty a) i v =
     bind_res (v_SetElemStringAt (Int_class lc) a i v) (\<lambda>b. Inr (IntData ty b))"
| "SetElemStringAt lc (UIntData ty a) i v =
     bind_res (v_SetElemStringAt (UInt_class lc) a i v) (\<lambda>b. Inr (UIntData ty b))"
| "SetElemStringAt lc (LongData a) i v =
     bind_res (v_SetElemStringAt (Long_class lc) a i v) (\<lambda>b. Inr (LongData b))"
| "SetElemStringAt lc (FloatData a) i v =
     bind_res (v_SetElemStringAt (Float_class lc) a i v) (\<lambda>b. Inr (FloatData b))"
| "SetElemStringAt lc (DoubleData a) i v =
     bind_res (v_SetElemStringAt (Double_class lc) a i v) (\<lambda>b. Inr (DoubleData b))"
| "SetElemStringAt lc (ASCIIData a) i v =
     bind_res (v_SetElemStringAt (ASCII_class lc) a i v) (\<lambda>b. Inr (ASCIIData b))"
| "SetElemStringAt lc (UtcData a) i v =
     bind_res (v_SetElemStringAt (Utc_class lc) a i v) (\<lambda>b. Inr (UtcData b))"

fun GetElems :: "lexical_cast \<Rightarrow> product_data \<Rightarrow> any_value" where
  "GetElems lc (ByteData _ a) = v_GetElems (Byte_class lc) a"
| "GetElems lc (UByteData _ a) = v_GetElems (UByte_class lc) a"
| "GetElems lc (ShortData _ a) = v_GetElems (Short_class lc) a"
| "GetElems lc (UShortData _ a) = v_GetElems (UShort_class lc) a"
| "GetElems lc (IntData _ a) = v_GetElems (Int_class lc) a"
| "GetElems lc (UIntData _ a) = v_GetElems (UInt_class lc) a"
| "GetElems lc (LongData a) = v_GetElems (Long_class lc) a"
| "GetElems lc (FloatData a) = v_GetElems (Float_class lc) a"
| "GetElems lc (DoubleData a) = v_GetElems (Double_class lc) a"
| "GetElems lc (ASCIIData a) = v_GetElems (ASCII_class lc) a"
| "GetElems lc (UtcData a) = v_GetElems (Utc_class lc) a"

fun SetElems :: "lexical_cast \<Rightarrow> any_value \<Rightarrow> product_data \<Rightarrow> product_data \<times> unit res" where
  "SetElems lc data (ByteData ty a) =
     (case v_SetElems (Byte_class lc) data a of (b, r) \<Rightarrow> (ByteData ty b, r))"
| "SetElems lc data (UByteData ty a) =
     (case v_SetElems (UByte_class lc) data a of (b, r) \<Rightarrow> (UByteData ty b, r))"
| "SetElems lc data (ShortData ty a) =
     (case v_SetElems (Short_class lc) data a of (b, r) \<Rightarrow> (ShortData ty b, r))"
| "SetElems lc data (UShortData ty a) =
     (case v_SetElems (UShort_class lc) data a of (b, r) \<Rightarrow> (UShortData ty b, r))"
| "SetElems lc data (IntData ty a) =
     (case v_SetElems (Int_class lc) data a of (b, r) \<Rightarrow> (IntData ty b, r))"
| "SetElems lc data (UIntData ty a) =
     (case v_SetElems (UInt_class lc) data a of (b, r) \<Rightarrow> (UIntData ty b, r))"
| "SetElems lc data (LongData a) =
     (case v_SetElems (Long_class lc) data a of (b, r) \<Rightarrow> (LongData b, r))"
| "SetElems lc data (FloatData a) =
     (case v_SetElems (Float_class lc) data a of (b, r) \<Rightarrow> (FloatData b, r))"
| "SetElems lc data (DoubleData a) =
     (case v_SetElems (Double_class lc) data a of (b, r) \<Rightarrow> (DoubleData b, r))"
| "SetElems lc data (ASCIIData a) =
     (case v_SetElems (ASCII_class lc) data a of (b, r) \<Rightarrow> (ASCIIData b, r))"
| "SetElems lc data (UtcData a) =
     (case v_SetElems (Utc_class lc) data a of (b, r) \<Rightarrow> (UtcData b, r))"

text \<open>Equality of the elements; the flag tells whether both are the same object.\<close>

fun EqualElems :: "lexical_cast \<Rightarrow> product_data \<Rightarrow> bool \<Rightarrow> product_data \<Rightarrow> bool res" where
  "EqualElems lc (ByteData _ a) same other = v_EqualElems (Byte_class lc) a same (GetElems lc other)"
| "EqualElems lc (UByteData _ a) same other = v_EqualElems (UByte_class lc) a same (GetElems lc other)"
| "EqualElems lc (ShortData _ a) same other = v_EqualElems (Short_class lc) a same (GetElems lc other)"
| "EqualElems lc (UShortData _ a) same other = v_EqualElems (UShort_class lc) a same (GetElems lc other)"
| "EqualElems lc (IntData _ a) same other = v_EqualElems (Int_class lc) a same (GetElems lc other)"
| "EqualElems lc (UIntData _ a) same other = v_EqualElems (UInt_class lc) a same (GetElems lc other)"
| "EqualElems lc (LongData a) same other = v_EqualElems (Long_class lc) a same (GetElems lc other)"
| "EqualElems lc (FloatData a) same other = v_EqualElems (Float_class lc) a same (GetElems lc other)"
| "EqualElems lc (DoubleData a) same other = v_EqualElems (Double_class lc) a same (GetElems lc other)"
| "EqualElems lc (ASCIIData a) same other = v_EqualElems (ASCII_class lc) a same (GetElems lc other)"
| "EqualElems lc (UtcData a) same other = v_EqualElems (Utc_class lc) a same (GetElems lc other)"

section \<open>Functions of the base class\<close>

definition CreateInstance :: "int \<Rightarrow> int \<Rightarrow> product_data res" where
  "CreateInstance ty num_elems =
     (if num_elems < 1 \<and> ty \<noteq> TYPE_UTC then Inl Invalid_argument
      else if ty = TYPE_INT8 then Inr (ByteData TYPE_INT8 (replicate (nat num_elems) 0))
      else if ty = TYPE_INT16 then Inr (ShortData TYPE_INT16 (replicate (nat num_elems) 0))
      else if ty = TYPE_INT32 then Inr (IntData TYPE_INT32 (replicate (nat num_elems) 0))
      else if ty = TYPE_INT64 then Inr (LongData (replicate (nat num_elems) 0))
      else if ty = TYPE_UINT8 then Inr (UByteData TYPE_UINT8 (replicate (nat num_elems) 0))
      else if ty = TYPE_UINT16 then Inr (UShortData TYPE_UINT16 (replicate (nat num_elems) 0))
      else if ty = TYPE_UINT32 then Inr (UIntData TYPE_UINT32 (replicate (nat num_elems) 0))
      else if ty = TYPE_FLOAT32 then Inr (FloatData (replicate (nat num_elems) (Fin 0)))
      else if ty = TYPE_FLOAT64 then Inr (DoubleData (replicate (nat num_elems) (Fin 0)))
      else if ty = TYPE_ASCII then Inr (ASCIIData (replicate (nat num_elems) 0))
      else if ty = TYPE_UTC then Inr (UtcData (replicate 3 0))
      else Inl Invalid_argument)"

definition CreateInstance_text :: "string \<Rightarrow> product_data" where
  "CreateInstance_text data = ASCIIData (map char_word data)"

definition CreateInstance_floats :: "fp list \<Rightarrow> product_data" where
  "CreateInstance_floats elems = FloatData elems"

definition CreateInstance_ints :: "32 word list \<Rightarrow> product_data" where
  "CreateInstance_ints elems = IntData TYPE_INT32 elems"

definition SetElemBooleanAt :: "lexical_cast \<Rightarrow> product_data \<Rightarrow> int \<Rightarrow> bool \<Rightarrow> product_data res" where
  "SetElemBooleanAt lc p i value = SetElemIntAt lc p i (if value then 1 else 0)"

definition GetElemBooleanAt :: "lexical_cast \<Rightarrow> product_data \<Rightarrow> int \<Rightarrow> bool res" where
  "GetElemBooleanAt lc p i = bind_res (GetElemIntAt lc p i) (\<lambda>v. Inr (v \<noteq> 0))"

text \<open>
  \<open>GetElemString\<close> of the base class: the elements separated by commas. \<open>ASCII\<close> overrides it; \<open>Utc\<close> does so
  with its date format.
\<close>

fun join_comma :: "string list \<Rightarrow> string" where
  "join_comma [] = []"
| "join_comma [s] = s"
| "join_comma (s # ss) = s @ CHR '','' # join_comma ss"

definition base_GetElemString :: "lexical_cast \<Rightarrow> product_data \<Rightarrow> string res" where
  "base_GetElemString lc p =
     (if IsScalar p then GetElemStringAt lc p 0
      else bind_res (map_res (GetElemStringAt lc p) [0..GetNumElems p - 1]) (\<lambda>ss. Inr (join_comma ss)))"

definition ASCII_GetElemString :: "8 word list \<Rightarrow> string" where
  "ASCII_GetElemString a = map word_char a"

end
