(* ===== verification/ProductDataLaws.thy ===== *)
theory ProductDataLaws
  imports ProductData
begin

text \<open>
  The contract of the integer classes of \<open>ProductData\<close> and what follows from it: a value that fits the
  element type is read back unchanged and changes no other element, text conversion, the construction
  by type code, and the two places where the contract fails (single characters for \<open>UByte\<close>, lists of
  strings longer than the array).
\<close>

section \<open>Words as numbers\<close>

lemma sint_of_int_id:
  assumes "- (2 ^ (LENGTH('a::len) - 1)) \<le> v" and "v < 2 ^ (LENGTH('a) - 1)"
  shows "sint (word_of_int v :: 'a word) = v"
  using assms by (simp add: sint_sbintrunc' signed_take_bit_int_eq_self)

lemma uint_of_int_id:
  assumes "0 \<le> v" and "v < 2 ^ LENGTH('a::len)"
  shows "uint (word_of_int v :: 'a word) = v"
  using assms by (simp add: uint_word_of_int)

section \<open>The interface: an array of elements read and written through conversions\<close>

locale element_store =
  fixes get :: "'e list \<Rightarrow> int \<Rightarrow> 'v res"
    and set :: "'e list \<Rightarrow> int \<Rightarrow> 'v \<Rightarrow> 'e list res"
    and text_of :: "'e list \<Rightarrow> int \<Rightarrow> string res"
    and of_text :: "string \<Rightarrow> 'e res"
    and load :: "'e \<Rightarrow> 'v"
    and keep :: "'v \<Rightarrow> 'e"
    and print :: "'v \<Rightarrow> string"
    and fits :: "'v \<Rightarrow> bool"
  assumes get_eq: "get a i = read_at load a i"
    and set_eq: "set a i v = vec_put a i (keep v)"
    and text_eq: "text_of a i = read_at (\<lambda>x. print (load x)) a i"
    and load_keep: "fits v \<Longrightarrow> load (keep v) = v"
    and of_text_print: "fits v \<Longrightarrow> of_text (print v) = Inr (keep v)"
begin

lemma get_same: "set a i v = Inr b \<Longrightarrow> fits v \<Longrightarrow> get b i = Inr v"
  by (simp add: set_eq get_eq read_at_def vec_at_put_same load_keep)

lemma get_other: "set a i v = Inr b \<Longrightarrow> i \<noteq> j \<Longrightarrow> get b j = get a j"
  by (simp add: set_eq get_eq read_at_def vec_at_put_other)

lemma set_length: "set a i v = Inr b \<Longrightarrow> length b = length a"
  unfolding set_eq by (rule vec_put_length)

lemma set_fails: "set a i v = Inl e \<longleftrightarrow> get a i = Inl e"
  by (auto simp: set_eq get_eq read_at_def vec_put_Inl_iff bind_res_Inl_iff vec_at_Inl_iff)

lemma text_same: "set a i v = Inr b \<Longrightarrow> fits v \<Longrightarrow> text_of b i = Inr (print v)"
  by (simp add: set_eq text_eq read_at_def vec_at_put_same load_keep)

text \<open>Storing a list of texts from the beginning.\<close>

lemma transform_fits:
  assumes "\<forall>v\<in>List.set vs. fits v" and "k + length vs \<le> length a"
  shows "transform_into of_text (map print vs) k a = (take k a @ map keep vs @ drop (k + length vs) a, Inr ())"
  using assms
proof (induction vs arbitrary: k a)
  case Nil
  then show ?case by simp
next
  case (Cons v vs)
  then have k: "k < length a" by simp
  have "take (Suc k) (a[k := keep v]) = take k a @ [keep v]"
    using k by (simp add: take_Suc_conv_app_nth)
  moreover have "transform_into of_text (map print vs) (Suc k) (a[k := keep v])
      = (take (Suc k) (a[k := keep v]) @ map keep vs @ drop (Suc k + length vs) (a[k := keep v]), Inr ())"
    using Cons.prems by (intro Cons.IH) simp_all
  ultimately show ?case using Cons.prems k by (simp add: of_text_print)
qed

lemma transform_too_many:
  assumes "\<forall>v\<in>List.set vs. fits v" and "length a < k + length vs" and "k \<le> length a"
  shows "snd (transform_into of_text (map print vs) k a) = Inl Undefined_behaviour"
  using assms
proof (induction vs arbitrary: k a)
  case Nil
  then show ?case by simp
next
  case (Cons v vs)
  show ?case
  proof (cases "k < length a")
    case True
    then show ?thesis using Cons.prems Cons.IH [of "a[k := keep v]" "Suc k"] by (simp add: of_text_print)
  next
    case False
    then show ?thesis using Cons.prems by (simp add: of_text_print)
  qed
qed

lemma get_stored:
  assumes "\<forall>v\<in>List.set vs. fits v" and "length vs \<le> length a"
  shows "\<forall>i. 0 \<le> i \<and> i < int (length vs) \<longrightarrow> get (map keep vs @ drop (length vs) a) i = Inr (vs ! nat i)"
    and "\<forall>i. int (length vs) \<le> i \<longrightarrow> get (map keep vs @ drop (length vs) a) i = get a i"
proof -
  have f: "fits (vs ! nat i)" if "0 \<le> i" "i < int (length vs)" for i
    using assms(1) that by simp
  show "\<forall>i. 0 \<le> i \<and> i < int (length vs) \<longrightarrow> get (map keep vs @ drop (length vs) a) i = Inr (vs ! nat i)"
    using assms(2) f load_keep by (auto simp: get_eq read_at_def vec_at_def nth_append nat_less_iff)
  show "\<forall>i. int (length vs) \<le> i \<longrightarrow> get (map keep vs @ drop (length vs) a) i = get a i"
    using assms(2) by (auto simp: get_eq read_at_def vec_at_def nth_append nat_less_iff)
qed

end

section \<open>The integer classes satisfy it\<close>

abbreviation byte_range :: "int \<Rightarrow> bool" where "byte_range v \<equiv> - (2 ^ 7) \<le> v \<and> v < 2 ^ 7"
abbreviation ubyte_range :: "int \<Rightarrow> bool" where "ubyte_range v \<equiv> 0 \<le> v \<and> v < 2 ^ 8"
abbreviation short_range :: "int \<Rightarrow> bool" where "short_range v \<equiv> - (2 ^ 15) \<le> v \<and> v < 2 ^ 15"
abbreviation ushort_range :: "int \<Rightarrow> bool" where "ushort_range v \<equiv> 0 \<le> v \<and> v < 2 ^ 16"

interpretation byte: element_store "v_GetElemLongAt (Byte_class lc)" "v_SetElemLongAt (Byte_class lc)"
  "v_GetElemStringAt (Byte_class lc)" Byte_string sint word_of_int to_string byte_range
  by unfold_locales
    (auto simp: Byte_class_def Byte_string_def sint_of_int_id stoi_to_string int32_range_def)

interpretation ubyte: element_store "v_GetElemLongAt (UByte_class lc)" "v_SetElemLongAt (UByte_class lc)"
  "v_GetElemStringAt (UByte_class lc)" UByte_string uint word_of_int to_string ubyte_range
  by unfold_locales
    (auto simp: UByte_class_def UByte_string_def uint_of_int_id stoul_to_string)

interpretation short: element_store "v_GetElemLongAt (Short_class lc)" "v_SetElemLongAt (Short_class lc)"
  "v_GetElemStringAt (Short_class lc)" Short_string sint word_of_int to_string short_range
  by unfold_locales
    (auto simp: Short_class_def Short_string_def sint_of_int_id stoi_to_string int32_range_def)

interpretation ushort: element_store "v_GetElemLongAt (UShort_class lc)" "v_SetElemLongAt (UShort_class lc)"
  "v_GetElemStringAt (UShort_class lc)" UShort_string uint word_of_int to_string ushort_range
  by unfold_locales
    (auto simp: UShort_class_def UShort_string_def uint_of_int_id stoul_to_string)

interpretation int32: element_store "v_GetElemLongAt (Int_class lc)" "v_SetElemLongAt (Int_class lc)"
  "v_GetElemStringAt (Int_class lc)" Int_string sint word_of_int to_string int32_range
  by unfold_locales
    (auto simp: Int_class_def Int_string_def sint_of_int_id stoll_to_string stol_def stoll_def
      signed_number_to_string int32_range_def int64_range_def)

interpretation uint32: element_store "v_GetElemLongAt (UInt_class lc)" "v_SetElemLongAt (UInt_class lc)"
  "v_GetElemStringAt (UInt_class lc)" UInt_string uint word_of_int to_string uint32_range
  by unfold_locales
    (auto simp: UInt_class_def UInt_string_def uint_of_int_id stoul_to_string stoull_def uint32_range_def)

interpretation int64: element_store "v_GetElemLongAt (Long_class lc)" "v_SetElemLongAt (Long_class lc)"
  "v_GetElemStringAt (Long_class lc)" Long_string sint word_of_int to_string int64_range
  by unfold_locales
    (auto simp: Long_class_def Long_string_def sint_of_int_id stoll_to_string int64_range_def)

section \<open>Objects of the integer classes\<close>

fun in_type :: "product_data \<Rightarrow> int \<Rightarrow> bool" where
  "in_type (ByteData _ _) v = byte_range v"
| "in_type (UByteData _ _) v = ubyte_range v"
| "in_type (ShortData _ _) v = short_range v"
| "in_type (UShortData _ _) v = ushort_range v"
| "in_type (IntData _ _) v = int32_range v"
| "in_type (UIntData _ _) v = uint32_range v"
| "in_type (LongData _) v = int64_range v"
| "in_type _ v = False"

definition write_contract :: "lexical_cast \<Rightarrow> product_data \<Rightarrow> int \<Rightarrow> int \<Rightarrow> bool" where
  "write_contract lc pd i v \<longleftrightarrow>
     (case SetElemLongAt lc pd i v of
        Inl e \<Rightarrow> GetElemLongAt lc pd i = Inl e
      | Inr pd' \<Rightarrow> GetElemLongAt lc pd' i = Inr v \<and> GetElemStringAt lc pd' i = Inr (to_string v) \<and>
          (\<forall>j. j \<noteq> i \<longrightarrow> GetElemLongAt lc pd' j = GetElemLongAt lc pd j) \<and>
          GetNumElems pd' = GetNumElems pd \<and> GetType pd' = GetType pd)"

lemma write_contract_ByteData: "byte_range v \<Longrightarrow> write_contract lc (ByteData ty a) i v"
proof (cases "v_SetElemLongAt (Byte_class lc) a i v")
  case (Inl e)
  then show ?thesis using byte.set_fails [of lc a i v e] by (simp add: write_contract_def)
next
  case (Inr b)
  moreover assume "byte_range v"
  ultimately show ?thesis
    using byte.get_same [OF Inr] byte.text_same [OF Inr] byte.get_other [OF Inr] byte.set_length [OF Inr]
    by (auto simp: write_contract_def)
qed

lemma write_contract_UByteData: "ubyte_range v \<Longrightarrow> write_contract lc (UByteData ty a) i v"
proof (cases "v_SetElemLongAt (UByte_class lc) a i v")
  case (Inl e)
  then show ?thesis using ubyte.set_fails [of lc a i v e] by (simp add: write_contract_def)
next
  case (Inr b)
  moreover assume "ubyte_range v"
  ultimately show ?thesis
    using ubyte.get_same [OF Inr] ubyte.text_same [OF Inr] ubyte.get_other [OF Inr] ubyte.set_length [OF Inr]
    by (auto simp: write_contract_def)
qed

lemma write_contract_ShortData: "short_range v \<Longrightarrow> write_contract lc (ShortData ty a) i v"
proof (cases "v_SetElemLongAt (Short_class lc) a i v")
  case (Inl e)
  then show ?thesis using short.set_fails [of lc a i v e] by (simp add: write_contract_def)
next
  case (Inr b)
  moreover assume "short_range v"
  ultimately show ?thesis
    using short.get_same [OF Inr] short.text_same [OF Inr] short.get_other [OF Inr] short.set_length [OF Inr]
    by (auto simp: write_contract_def)
qed

lemma write_contract_UShortData: "ushort_range v \<Longrightarrow> write_contract lc (UShortData ty a) i v"
proof (cases "v_SetElemLongAt (UShort_class lc) a i v")
  case (Inl e)
  then show ?thesis using ushort.set_fails [of lc a i v e] by (simp add: write_contract_def)
next
  case (Inr b)
  moreover assume "ushort_range v"
  ultimately show ?thesis
    using ushort.get_same [OF Inr] ushort.text_same [OF Inr] ushort.get_other [OF Inr] ushort.set_length [OF Inr]
    by (auto simp: write_contract_def)
qed

lemma write_contract_IntData: "int32_range v \<Longrightarrow> write_contract lc (IntData ty a) i v"
proof (cases "v_SetElemLongAt (Int_class lc) a i v")
  case (Inl e)
  then show ?thesis using int32.set_fails [of lc a i v e] by (simp add: write_contract_def)
next
  case (Inr b)
  moreover assume "int32_range v"
  ultimately show ?thesis
    using int32.get_same [OF Inr] int32.text_same [OF Inr] int32.get_other [OF Inr] int32.set_length [OF Inr]
    by (auto simp: write_contract_def)
qed

lemma write_contract_UIntData: "uint32_range v \<Longrightarrow> write_contract lc (UIntData ty a) i v"
proof (cases "v_SetElemLongAt (UInt_class lc) a i v")
  case (Inl e)
  then show ?thesis using uint32.set_fails [of lc a i v e] by (simp add: write_contract_def)
next
  case (Inr b)
  moreover assume "uint32_range v"
  ultimately show ?thesis
    using uint32.get_same [OF Inr] uint32.text_same [OF Inr] uint32.get_other [OF Inr] uint32.set_length [OF Inr]
    by (auto simp: write_contract_def)
qed

lemma write_contract_LongData: "int64_range v \<Longrightarrow> write_contract lc (LongData a) i v"
proof (cases "v_SetElemLongAt (Long_class lc) a i v")
  case (Inl e)
  then show ?thesis using int64.set_fails [of lc a i v e] by (simp add: write_contract_def)
next
  case (Inr b)
  moreover assume "int64_range v"
  ultimately show ?thesis
    using int64.get_same [OF Inr] int64.text_same [OF Inr] int64.get_other [OF Inr] int64.set_length [OF Inr]
    by (auto simp: write_contract_def)
qed

lemmas write_contracts = write_contract_ByteData write_contract_UByteData write_contract_ShortData
  write_contract_UShortData write_contract_IntData write_contract_UIntData write_contract_LongData

definition text_contract :: "lexical_cast \<Rightarrow> product_data \<Rightarrow> int list \<Rightarrow> bool" where
  "text_contract lc pd vs \<longleftrightarrow>
     (case SetElems lc (Any_strings (map to_string vs)) pd of
        (pd', r) \<Rightarrow>
          GetType pd' = GetType pd \<and>
          (if int (length vs) \<le> GetNumElems pd
           then r = Inr () \<and> GetNumElems pd' = GetNumElems pd \<and>
                (\<forall>i. 0 \<le> i \<and> i < int (length vs) \<longrightarrow> GetElemLongAt lc pd' i = Inr (vs ! nat i)) \<and>
                (\<forall>i. int (length vs) \<le> i \<longrightarrow> GetElemLongAt lc pd' i = GetElemLongAt lc pd i)
           else r = Inl Undefined_behaviour))"

lemma SetElems_strings_simps:
  "v_SetElems (Byte_class lc) (Any_strings ss) b = transform_into Byte_string ss 0 b"
  "v_SetElems (UByte_class lc) (Any_strings ss) b = transform_into UByte_string ss 0 b"
  "v_SetElems (Short_class lc) (Any_strings ss) c = transform_into Short_string ss 0 c"
  "v_SetElems (UShort_class lc) (Any_strings ss) c = transform_into UShort_string ss 0 c"
  "v_SetElems (Int_class lc) (Any_strings ss) d = transform_into Int_string ss 0 d"
  "v_SetElems (UInt_class lc) (Any_strings ss) d = transform_into UInt_string ss 0 d"
  "v_SetElems (Long_class lc) (Any_strings ss) e = transform_into Long_string ss 0 e"
  by (simp_all add: Byte_class_def UByte_class_def Short_class_def UShort_class_def Int_class_def
      UInt_class_def Long_class_def)

lemma text_contract_ByteData: "\<forall>v\<in>set vs. byte_range v \<Longrightarrow> text_contract lc (ByteData ty a) vs"
  using byte.transform_fits [of vs 0 a] byte.transform_too_many [of vs a 0] byte.get_stored [of vs a lc]
  by (auto simp: text_contract_def SetElems_strings_simps split: prod.split)

lemma text_contract_UByteData: "\<forall>v\<in>set vs. ubyte_range v \<Longrightarrow> text_contract lc (UByteData ty a) vs"
  using ubyte.transform_fits [of vs 0 a] ubyte.transform_too_many [of vs a 0] ubyte.get_stored [of vs a lc]
  by (auto simp: text_contract_def SetElems_strings_simps split: prod.split)

lemma text_contract_ShortData: "\<forall>v\<in>set vs. short_range v \<Longrightarrow> text_contract lc (ShortData ty a) vs"
  using short.transform_fits [of vs 0 a] short.transform_too_many [of vs a 0] short.get_stored [of vs a lc]
  by (auto simp: text_contract_def SetElems_strings_simps split: prod.split)

lemma text_contract_UShortData: "\<forall>v\<in>set vs. ushort_range v \<Longrightarrow> text_contract lc (UShortData ty a) vs"
  using ushort.transform_fits [of vs 0 a] ushort.transform_too_many [of vs a 0] ushort.get_stored [of vs a lc]
  by (auto simp: text_contract_def SetElems_strings_simps split: prod.split)

lemma text_contract_IntData: "\<forall>v\<in>set vs. int32_range v \<Longrightarrow> text_contract lc (IntData ty a) vs"
  using int32.transform_fits [of vs 0 a] int32.transform_too_many [of vs a 0] int32.get_stored [of vs a lc]
  by (auto simp: text_contract_def SetElems_strings_simps split: prod.split)

lemma text_contract_UIntData: "\<forall>v\<in>set vs. uint32_range v \<Longrightarrow> text_contract lc (UIntData ty a) vs"
  using uint32.transform_fits [of vs 0 a] uint32.transform_too_many [of vs a 0] uint32.get_stored [of vs a lc]
  by (auto simp: text_contract_def SetElems_strings_simps split: prod.split)

lemma text_contract_LongData: "\<forall>v\<in>set vs. int64_range v \<Longrightarrow> text_contract lc (LongData a) vs"
  using int64.transform_fits [of vs 0 a] int64.transform_too_many [of vs a 0] int64.get_stored [of vs a lc]
  by (auto simp: text_contract_def SetElems_strings_simps split: prod.split)

lemmas text_contracts = text_contract_ByteData text_contract_UByteData text_contract_ShortData
  text_contract_UShortData text_contract_IntData text_contract_UIntData text_contract_LongData

text \<open>
  C12. Element access of the integer classes: writing a value of the element type through
  \<open>SetElemLongAt\<close> either fails exactly as reading at that index fails, or makes both \<open>GetElemLongAt\<close> and
  \<open>GetElemStringAt\<close> return that value there, and leaves every other element, the number of elements and
  the type as they were.
\<close>
theorem SetElemLongAt_contract:
  assumes "in_type pd v"
  shows "case SetElemLongAt lc pd i v of
           Inl e \<Rightarrow> GetElemLongAt lc pd i = Inl e
         | Inr pd' \<Rightarrow> GetElemLongAt lc pd' i = Inr v \<and> GetElemStringAt lc pd' i = Inr (to_string v) \<and>
             (\<forall>j. j \<noteq> i \<longrightarrow> GetElemLongAt lc pd' j = GetElemLongAt lc pd j) \<and>
             GetNumElems pd' = GetNumElems pd \<and> GetType pd' = GetType pd"
proof -
  have "write_contract lc pd i v"
    using assms by (cases pd) (auto intro: write_contracts)
  then show ?thesis by (simp add: write_contract_def)
qed

text \<open>
  A conversion as the code relies on it: \<open>boost::lexical_cast\<close> to an integer type reads the decimal
  text of a value of that type, but to a character type takes a text of one character as that character.
\<close>

definition in_range :: "int \<Rightarrow> int \<Rightarrow> int \<Rightarrow> int res" where
  "in_range lo hi v = (if lo \<le> v \<and> v < hi then Inr v else Inl Bad_lexical_cast)"

definition sample_casts :: lexical_cast where
  "sample_casts =
     \<lparr>cast_i16 = (\<lambda>s. bind_res (stoll s) (in_range (- (2 ^ 15)) (2 ^ 15))),
      cast_u8 = (\<lambda>s. case s of [c] \<Rightarrow> Inr (int (of_char c)) | _ \<Rightarrow> Inl Bad_lexical_cast),
      cast_u16 = (\<lambda>s. bind_res (stoll s) (in_range 0 (2 ^ 16))),
      cast_i32 = (\<lambda>s. bind_res (stoll s) (in_range (- (2 ^ 31)) (2 ^ 31))),
      cast_u32 = (\<lambda>s. bind_res (stoll s) (in_range 0 (2 ^ 32))),
      cast_i64 = stoll,
      cast_f32 = stof,
      cast_f64 = stod\<rparr>"

definition casts_numbers :: "lexical_cast \<Rightarrow> bool" where
  "casts_numbers lc \<longleftrightarrow>
     (\<forall>v. short_range v \<longrightarrow> cast_i16 lc (to_string v) = Inr v) \<and>
     (\<forall>v. ushort_range v \<longrightarrow> cast_u16 lc (to_string v) = Inr v) \<and>
     (\<forall>v. int32_range v \<longrightarrow> cast_i32 lc (to_string v) = Inr v) \<and>
     (\<forall>v. uint32_range v \<longrightarrow> cast_u32 lc (to_string v) = Inr v) \<and>
     (\<forall>v. int64_range v \<longrightarrow> cast_i64 lc (to_string v) = Inr v)"

lemma sample_casts_numbers: "casts_numbers sample_casts"
  by (auto simp: casts_numbers_def sample_casts_def in_range_def stoll_to_string int32_range_def
      uint32_range_def int64_range_def)

lemma SetElemLongAt_contract_witness:
  "GetElemLongAt sample_casts (ByteData TYPE_INT8 [1, -5, 3]) 1 = Inr (-5) \<and>
   GetElemStringAt sample_casts (ByteData TYPE_INT8 [1, -5, 3]) 1 = Inr ''-5''"
proof -
  have set: "SetElemLongAt sample_casts (ByteData TYPE_INT8 [1, 2, 3]) 1 (-5) = Inr (ByteData TYPE_INT8 [1, -5, 3])"
    by (simp add: Byte_class_def vec_put_def)
  have "to_string (-5) = ''-5''" by code_simp
  then show ?thesis
    using SetElemLongAt_contract [of "ByteData TYPE_INT8 [1, 2, 3]" "-5" sample_casts 1] unfolding set by simp
qed

text \<open>
  Storing a list of decimal texts (\<open>SetElems\<close> with a list of strings, as the metadata reader does):
  if there are at most as many texts as elements, the first elements take their values and the others
  keep theirs; with more texts than elements the store runs past the end of the array, since no class
  sizes its array to the list.
\<close>
theorem SetElems_texts:
  assumes "vs \<noteq> []" and "\<forall>v\<in>set vs. in_type pd v"
  shows "case SetElems lc (Any_strings (map to_string vs)) pd of
           (pd', r) \<Rightarrow>
             GetType pd' = GetType pd \<and>
             (if int (length vs) \<le> GetNumElems pd
              then r = Inr () \<and> GetNumElems pd' = GetNumElems pd \<and>
                   (\<forall>i. 0 \<le> i \<and> i < int (length vs) \<longrightarrow> GetElemLongAt lc pd' i = Inr (vs ! nat i)) \<and>
                   (\<forall>i. int (length vs) \<le> i \<longrightarrow> GetElemLongAt lc pd' i = GetElemLongAt lc pd i)
              else r = Inl Undefined_behaviour)"
proof -
  have "\<exists>v\<in>set vs. in_type pd v" using assms by (metis list.set_intros(1) neq_Nil_conv)
  with assms(2) have "text_contract lc pd vs"
    by (cases pd) (auto intro: text_contracts)
  then show ?thesis by (simp add: text_contract_def)
qed

lemma SetElems_texts_witness:
  "snd (SetElems sample_casts (Any_strings [''4'', ''5'']) (IntData TYPE_INT32 [0])) = Inl Undefined_behaviour \<and>
   GetElemLongAt sample_casts (fst (SetElems sample_casts (Any_strings [''4'']) (IntData TYPE_INT32 [0]))) 0 = Inr 4"
proof -
  have t: "map to_string [4, 5] = [''4'', ''5'']" "map to_string [4] = [''4'']" by code_simp+
  show ?thesis
    using SetElems_texts [of "[4, 5]" "IntData TYPE_INT32 [0]" sample_casts]
      SetElems_texts [of "[4]" "IntData TYPE_INT32 [0]" sample_casts]
    unfolding t by (auto simp: int32_range_def split: prod.splits)
qed

text \<open>The text of an element, read back by the conversion of its class.\<close>

fun numeric :: "product_data \<Rightarrow> bool" where
  "numeric (ByteData _ _) = True"
| "numeric (ShortData _ _) = True"
| "numeric (UShortData _ _) = True"
| "numeric (IntData _ _) = True"
| "numeric (UIntData _ _) = True"
| "numeric (LongData _) = True"
| "numeric _ = False"

lemma read_at_put: "read_at f a i = Inr s \<Longrightarrow> \<exists>x. vec_at a i = Inr x \<and> s = f x \<and> vec_put a i x = Inr a"
  by (auto simp: read_at_def bind_res_Inr_iff vec_at_def vec_put_def split: if_splits)

lemma sint_bounds:
  "- (2 ^ 7) \<le> sint (x :: 8 word)" "sint x < 2 ^ 7"
  "- (2 ^ 15) \<le> sint (y :: 16 word)" "sint y < 2 ^ 15"
  "- (2 ^ 31) \<le> sint (z :: 32 word)" "sint z < 2 ^ 31"
  "- (2 ^ 63) \<le> sint (w :: 64 word)" "sint w < 2 ^ 63"
  using sint_range_size [of x] sint_range_size [of y] sint_range_size [of z] sint_range_size [of w]
  by (simp_all add: word_size)

lemma sint_byte_bounds: "- (2 ^ 15) \<le> sint (x :: 8 word)" "sint x < 2 ^ 15"
  using sint_bounds(1,2) [of x] by simp_all

lemma uint_bounds:
  "uint (y :: 16 word) < 2 ^ 16" "uint (z :: 32 word) < 2 ^ 32"
  using uint_bounded [of y] uint_bounded [of z] by simp_all

lemma put_text:
  assumes "read_at (\<lambda>x. to_string (f x)) a i = Inr s"
    and "\<And>x. c (to_string (f x)) = Inr (f x)" and "\<And>x. word_of_int (f x) = x"
  shows "bind_res (c s) (\<lambda>v. vec_put a i (word_of_int v)) = Inr a"
  using assms by (auto dest: read_at_put)

lemma casts_numbers_words:
  assumes "casts_numbers lc"
  shows "cast_i16 lc (to_string (sint (b :: 8 word))) = Inr (sint b)"
    and "cast_i16 lc (to_string (sint (x :: 16 word))) = Inr (sint x)"
    and "cast_u16 lc (to_string (uint (x :: 16 word))) = Inr (uint x)"
    and "cast_i32 lc (to_string (sint (y :: 32 word))) = Inr (sint y)"
    and "cast_u32 lc (to_string (uint (y :: 32 word))) = Inr (uint y)"
    and "cast_i64 lc (to_string (sint (z :: 64 word))) = Inr (sint z)"
  using assms sint_byte_bounds [of b] sint_bounds(3,4) [of x] uint_bounds(1) [of x] sint_bounds(5,6) [of y]
    uint_bounds(2) [of y] sint_bounds(7,8) [of z]
  by (simp_all add: casts_numbers_def int32_range_def uint32_range_def int64_range_def)

text \<open>
  C13. Text round trip of elements: for every numeric class but \<open>UByte\<close>, what \<open>GetElemStringAt\<close> gives
  for an element is accepted by \<open>SetElemStringAt\<close> and stores the same element again, for any
  \<open>lexical_cast\<close> that reads decimal numbers.
\<close>
theorem GetElemStringAt_roundtrip:
  assumes "casts_numbers lc" and "numeric pd" and "GetElemStringAt lc pd i = Inr s"
  shows "SetElemStringAt lc pd i s = Inr pd"
  using assms(2,3,1)
  by (cases pd)
    (auto simp: Byte_class_def Short_class_def UShort_class_def Int_class_def UInt_class_def Long_class_def
      put_text casts_numbers_words)

lemma GetElemStringAt_roundtrip_witness:
  "SetElemStringAt sample_casts (ShortData TYPE_INT16 [7, -300]) 1 ''-300'' = Inr (ShortData TYPE_INT16 [7, -300])"
proof (rule GetElemStringAt_roundtrip)
  show "casts_numbers sample_casts" by (rule sample_casts_numbers)
  show "numeric (ShortData TYPE_INT16 [7, -300])" by simp
  show "GetElemStringAt sample_casts (ShortData TYPE_INT16 [7, -300]) 1 = Inr ''-300''" by code_simp
qed

lemma to_string_digit: "0 \<le> v \<Longrightarrow> v < 10 \<Longrightarrow> to_string v = [digit_char (nat v)]"
  by (simp add: to_string_def nat_string.simps [of "nat v"] nat_less_iff)

lemma to_string_long:
  assumes "10 \<le> v"
  shows "length (to_string v) \<noteq> 1"
proof -
  have "\<not> nat v < 10" using assms by simp
  then have "nat_string (nat v) = nat_string (nat v div 10) @ [digit_char (nat v mod 10)]"
    by (subst nat_string.simps) simp
  then show ?thesis using nat_string_facts [of "nat v div 10"] assms by (simp add: to_string_def)
qed

lemma digit_char_code: "d < 10 \<Longrightarrow> of_char (digit_char d) = 48 + d"
  by (simp add: digit_char_def)

text \<open>
  \<open>UByte\<close> does not read its own text: \<open>SetElemStringAt\<close> converts to a character type, so the text of
  an element below ten is stored as the code of the digit, and the text of a larger one is refused.
\<close>
theorem UByte_text_not_read:
  assumes "\<And>c. cast_u8 lc [c] = Inr (int (of_char c))"
    and "\<And>t. length t \<noteq> 1 \<Longrightarrow> cast_u8 lc t = Inl Bad_lexical_cast"
    and "GetElemLongAt lc (UByteData ty a) i = Inr v" and "GetElemStringAt lc (UByteData ty a) i = Inr s"
  shows "if v < 10
         then \<exists>pd. SetElemStringAt lc (UByteData ty a) i s = Inr pd \<and> GetElemLongAt lc pd i = Inr (v + 48)
         else SetElemStringAt lc (UByteData ty a) i s = Inl Bad_lexical_cast"
proof -
  obtain x where x: "vec_at a i = Inr x" "v = uint x" "s = to_string v" "vec_put a i x = Inr a"
    using assms(3,4) by (auto simp: UByte_class_def dest!: read_at_put)
  have v: "0 \<le> v" using x(2) by simp
  have put: "\<exists>b. vec_put a i y = Inr b" for y using x(4) by (auto simp: vec_put_def split: if_splits)
  show ?thesis
  proof (cases "v < 10")
    case True
    have c: "cast_u8 lc s = Inr (v + 48)" using True v x(3) assms(1) by (simp add: to_string_digit digit_char_code)
    obtain b where b: "vec_put a i (word_of_int (v + 48)) = Inr b" using put by blast
    have "uint (word_of_int (v + 48) :: 8 word) = v + 48" using True v by (intro uint_of_int_id) simp_all
    then have "GetElemLongAt lc (UByteData ty b) i = Inr (v + 48)"
      using vec_at_put_same [OF b] by (simp add: UByte_class_def read_at_def)
    then show ?thesis using True c b by (simp add: UByte_class_def)
  next
    case False
    then have "cast_u8 lc s = Inl Bad_lexical_cast" using x(3) assms(2) to_string_long [of v] by simp
    then show ?thesis using False by (simp add: UByte_class_def)
  qed
qed

lemma UByte_text_not_read_witness:
  "\<exists>pd. SetElemStringAt sample_casts (UByteData TYPE_UINT8 [7]) 0 ''7'' = Inr pd \<and>
     GetElemLongAt sample_casts pd 0 = Inr 55"
proof -
  have "cast_u8 sample_casts [c] = Inr (int (of_char c))" for c by (simp add: sample_casts_def)
  moreover have "cast_u8 sample_casts t = Inl Bad_lexical_cast" if "length t \<noteq> 1" for t
    using that by (auto simp: sample_casts_def split: list.split)
  moreover have "GetElemStringAt sample_casts (UByteData TYPE_UINT8 [7]) 0 = Inr ''7''" by code_simp
  moreover have "GetElemLongAt sample_casts (UByteData TYPE_UINT8 [7]) 0 = Inr 7" by code_simp
  ultimately show ?thesis
    using UByte_text_not_read [of sample_casts TYPE_UINT8 "[7]" 0 7 "''7''"] by simp
qed

text \<open>
  Construction by type code: \<open>CreateInstance\<close> returns for the eleven types and at least one element
  (any count for UTC) an object of that type and number of elements whose type name names the type
  back, and refuses everything else.
\<close>
theorem CreateInstance_contract:
  "case CreateInstance ty n of
     Inl e \<Rightarrow> e = Invalid_argument \<and> (n < 1 \<and> ty \<noteq> TYPE_UTC \<or> GetTypeString ty = [])
   | Inr pd \<Rightarrow> GetType pd = ty \<and> GetNumElems pd = (if ty = TYPE_UTC then 3 else n) \<and>
       TypeOfString (GetTypeString (GetType pd)) = ty"
  by (simp add: CreateInstance_def type_codes GetTypeString_def TypeOfString_def cong: if_cong)

end
