(* ===== verification/Utc.thy ===== *)
theory Utc
  imports ProductData
begin

text \<open>
  Dates: \<open>Utc\<close> (\<^verbatim>\<open>product_data_utc.cc\<close>), a \<open>UInt\<close> array of three elements, the days since 2000-01-01 and
  the seconds and microseconds of the day, with its conversions to and from text and to a day count
  with fraction. The calendar is \<open>boost::date_time\<close>, a parameter (\<open>date_time\<close>): the midnight of
  2000-01-01, adding days, seconds and milliseconds to a time point, the milliseconds between two of
  them, writing and reading one with a format. Cloning of \<open>ProductData\<close> objects is here too, because a
  \<open>Utc\<close> is cloned through one of its constructors.
\<close>

record 'p date_time =
  midnight_2000 :: 'p
  plus_days :: "'p \<Rightarrow> int \<Rightarrow> 'p"
  plus_seconds :: "'p \<Rightarrow> int \<Rightarrow> 'p"
  plus_millis :: "'p \<Rightarrow> int \<Rightarrow> 'p"
  millis_between :: "'p \<Rightarrow> 'p \<Rightarrow> int"
  write_time :: "string \<Rightarrow> 'p \<Rightarrow> string"
  read_time :: "string \<Rightarrow> string \<Rightarrow> 'p option"

section \<open>Construction\<close>

definition SECONDS_PER_DAY :: fp where "SECONDS_PER_DAY = Fin 86400"
definition SECONDS_TO_DAYS :: fp where "SECONDS_TO_DAYS = fdiv f64 (Fin 1) SECONDS_PER_DAY"
definition MICROS_PER_SECOND :: fp where "MICROS_PER_SECOND = Fin 1000000"
definition MICROS_TO_SECONDS :: fp where "MICROS_TO_SECONDS = fdiv f64 (Fin 1) MICROS_PER_SECOND"

text \<open>\<open>std::fmod\<close> is exact; here its divisor is a positive constant.\<close>

fun ffmod :: "fp \<Rightarrow> fp \<Rightarrow> fp" where
  "ffmod (Fin x) (Fin y) = (if y = 0 then NaN else Fin (x - of_int (rat_trunc (x / y)) * y))"
| "ffmod (Fin x) (Inf _) = Fin x"
| "ffmod _ _ = NaN"

definition Utc_default :: product_data where
  "Utc_default = UtcData [0, 0, 0]"

definition Utc_fields :: "lexical_cast \<Rightarrow> int \<Rightarrow> int \<Rightarrow> int \<Rightarrow> product_data res" where
  "Utc_fields lc days seconds microseconds =
     bind_res (SetElemIntAt lc (UtcData [0, 0, 0]) 0 days) (\<lambda>u.
     bind_res (SetElemIntAt lc u 1 seconds) (\<lambda>u.
     SetElemIntAt lc u 2 microseconds))"

definition Utc_elems :: "lexical_cast \<Rightarrow> 32 word list \<Rightarrow> product_data res" where
  "Utc_elems lc elems =
     bind_res (vec_at elems 0) (\<lambda>d. bind_res (vec_at elems 1) (\<lambda>s. bind_res (vec_at elems 2) (\<lambda>m.
       Utc_fields lc (sint d) (sint s) (sint m))))"

definition to_int64 :: "fp \<Rightarrow> int res" where
  "to_int64 = fp_to_int (- (2 ^ 63)) (2 ^ 63 - 1)"

definition Utc_mjd :: "lexical_cast \<Rightarrow> fp \<Rightarrow> product_data res" where
  "Utc_mjd lc mjd =
     (let micro_seconds = ffmod (fmul f64 (fmul f64 mjd SECONDS_PER_DAY) MICROS_PER_SECOND) MICROS_PER_SECOND;
          seconds = ffmod (fmul f64 mjd SECONDS_PER_DAY) SECONDS_PER_DAY
      in bind_res (fp_to_int32 mjd) (\<lambda>days.
           let (micro_seconds, seconds) =
                 (if flt micro_seconds (Fin 0)
                  then (fadd f64 micro_seconds MICROS_PER_SECOND, fsub f64 seconds (Fin 1))
                  else (micro_seconds, seconds))
           in bind_res (SetElemUIntAt lc (UtcData [0, 0, 0]) 0 days) (\<lambda>u.
              bind_res (to_int64 seconds) (\<lambda>s. bind_res (SetElemUIntAt lc u 1 s) (\<lambda>u.
              bind_res (to_int64 micro_seconds) (\<lambda>m. SetElemUIntAt lc u 2 m))))))"

text \<open>
  A clone is constructed from the array alone, with the default type code of its class; \<open>Utc\<close> makes an
  object from the number of elements, read as a date, and copies the array over its three elements.
\<close>

fun CreateDeepClone :: "lexical_cast \<Rightarrow> product_data \<Rightarrow> product_data res" where
  "CreateDeepClone lc (ByteData _ a) = Inr (ByteData TYPE_INT8 a)"
| "CreateDeepClone lc (UByteData _ a) = Inr (UByteData TYPE_UINT8 a)"
| "CreateDeepClone lc (ShortData _ a) = Inr (ShortData TYPE_INT16 a)"
| "CreateDeepClone lc (UShortData _ a) = Inr (UShortData TYPE_UINT16 a)"
| "CreateDeepClone lc (IntData _ a) = Inr (IntData TYPE_INT32 a)"
| "CreateDeepClone lc (UIntData _ a) = Inr (UIntData TYPE_UINT32 a)"
| "CreateDeepClone lc (LongData a) = Inr (LongData a)"
| "CreateDeepClone lc (FloatData a) = Inr (FloatData a)"
| "CreateDeepClone lc (DoubleData a) = Inr (DoubleData a)"
| "CreateDeepClone lc (ASCIIData a) = Inr (ASCIIData a)"
| "CreateDeepClone lc (UtcData a) =
     bind_res (Utc_mjd lc (fp_of_int f64 (int (length a)))) (\<lambda>u.
       case u of
         UtcData b \<Rightarrow>
           if length a \<le> length b then Inr (UtcData (a @ drop (length a) b)) else Inl Undefined_behaviour
       | _ \<Rightarrow> Inl Undefined_behaviour)"

section \<open>Reading\<close>

definition GetDaysFraction :: "lexical_cast \<Rightarrow> product_data \<Rightarrow> int res" where
  "GetDaysFraction lc u = GetElemIntAt lc u 0"

definition GetSecondsFraction :: "lexical_cast \<Rightarrow> product_data \<Rightarrow> int res" where
  "GetSecondsFraction lc u = GetElemIntAt lc u 1"

definition GetMicroSecondsFraction :: "lexical_cast \<Rightarrow> product_data \<Rightarrow> int res" where
  "GetMicroSecondsFraction lc u = GetElemIntAt lc u 2"

definition GetMjd :: "lexical_cast \<Rightarrow> product_data \<Rightarrow> fp res" where
  "GetMjd lc u =
     bind_res (GetDaysFraction lc u) (\<lambda>d. bind_res (GetSecondsFraction lc u) (\<lambda>s.
     bind_res (GetMicroSecondsFraction lc u) (\<lambda>m.
       Inr (fadd f64 (fp_of_int f64 d)
              (fmul f64 SECONDS_TO_DAYS
                 (fadd f64 (fp_of_int f64 s) (fmul f64 MICROS_TO_SECONDS (fp_of_int f64 m))))))))"

definition GetAsCalendar :: "lexical_cast \<Rightarrow> 'p date_time \<Rightarrow> product_data \<Rightarrow> 'p res" where
  "GetAsCalendar lc dt u =
     bind_res (GetSecondsFraction lc u) (\<lambda>s.
     bind_res (GetMicroSecondsFraction lc u) (\<lambda>m.
     bind_res (fp_to_int32 (fround (fdiv f64 (fp_of_int f64 m) (Fin 1000)))) (\<lambda>ms.
     bind_res (GetDaysFraction lc u) (\<lambda>d.
       Inr (plus_millis dt (plus_seconds dt (plus_days dt (midnight_2000 dt) d) s) ms)))))"

section \<open>Text\<close>

definition DATE_FORMAT_PATTERN :: string where
  "DATE_FORMAT_PATTERN = ''%d-%b-%Y %H:%M:%S''"

definition Format_pattern :: "lexical_cast \<Rightarrow> 'p date_time \<Rightarrow> product_data \<Rightarrow> string \<Rightarrow> string res" where
  "Format_pattern lc dt u format =
     bind_res (GetDaysFraction lc u) (\<lambda>d. bind_res (GetSecondsFraction lc u) (\<lambda>s.
     bind_res (GetMicroSecondsFraction lc u) (\<lambda>m.
       let micros_string = to_string m;
           out = write_time dt format (plus_seconds dt (plus_days dt (midnight_2000 dt) d) s) @ ''.'' @
                 replicate (6 - length micros_string) CHR ''0'' @ micros_string
       in Inr (map to_upper out))))"

definition Format :: "lexical_cast \<Rightarrow> 'p date_time \<Rightarrow> product_data \<Rightarrow> string res" where
  "Format lc dt u = Format_pattern lc dt u DATE_FORMAT_PATTERN"

definition Create :: "lexical_cast \<Rightarrow> 'p date_time \<Rightarrow> 'p \<Rightarrow> int \<Rightarrow> product_data res" where
  "Create lc dt p micros =
     (let diff = millis_between dt (midnight_2000 dt) p;
          millis_per_second = 1000;
          millis_per_day = 24 * 60 * 60 * millis_per_second;
          days = diff sdiv millis_per_day;
          seconds = (diff - days * millis_per_day) sdiv millis_per_second
      in Utc_fields lc (wrap_signed 32 days) (wrap_signed 32 seconds) (wrap_signed 32 micros))"

text \<open>The text is split at its last dot, if it has one.\<close>

fun find_last_of :: "char \<Rightarrow> string \<Rightarrow> nat option" where
  "find_last_of c [] = None"
| "find_last_of c (d # s) =
     (case find_last_of c s of
        Some i \<Rightarrow> Some (Suc i)
      | None \<Rightarrow> if d = c then Some 0 else None)"

definition Parse_pattern :: "lexical_cast \<Rightarrow> 'p date_time \<Rightarrow> string \<Rightarrow> string \<Rightarrow> product_data res" where
  "Parse_pattern lc dt txt pattern =
     bind_res (guard (txt \<noteq> []) Invalid_argument) (\<lambda>_.
     bind_res
       (case find_last_of CHR ''.'' txt of
          None \<Rightarrow> Inr (txt, 0)
        | Some dot_pos \<Rightarrow>
            let fraction = drop (dot_pos + 1) txt
            in if length fraction > 6 then Inl Parse_exception
               else case stoi fraction of
                      Inl _ \<Rightarrow> Inl Parse_exception
                    | Inr micros \<Rightarrow> Inr (take dot_pos txt, micros * 10 ^ (6 - length fraction)))
       (\<lambda>(no_fraction, micros).
          case read_time dt pattern no_fraction of
            None \<Rightarrow> Inl Parse_exception
          | Some date \<Rightarrow> Create lc dt date micros))"

definition Parse :: "lexical_cast \<Rightarrow> 'p date_time \<Rightarrow> string \<Rightarrow> product_data res" where
  "Parse lc dt txt = Parse_pattern lc dt txt DATE_FORMAT_PATTERN"

section \<open>Facts about the text form\<close>

lemma to_upper_nondigit: "is_digit c \<Longrightarrow> to_upper c = c"
  by (simp add: to_upper_def is_lower_def is_digit_def)

lemma strto_digits:
  assumes "s \<noteq> []" and "\<forall>c\<in>set s. is_digit c"
  shows "strto s = Some (False, digits_value s)"
proof -
  obtain c cs where s: "s = c # cs" using assms(1) by (cases s) auto
  have c: "is_digit c" using assms(2) s by simp
  then have "\<not> is_space c" "c \<noteq> CHR ''-''" "c \<noteq> CHR ''+''" by (auto simp: is_digit_def is_space_def code_def)
  then have "dropWhile is_space s = s" "skip_sign s = (False, s)" by (simp_all add: s skip_sign_def)
  moreover have "takeWhile is_digit s = s" using assms(2) by (simp add: takeWhile_eq_all_conv)
  ultimately show ?thesis using assms(1) by (simp add: strto_def Let_def del: takeWhile_eq_all_conv)
qed

lemma digits_value_zeros: "digits_value (replicate k CHR ''0'' @ s) = digits_value s"
  by (induction k) (simp_all add: digits_value_def digit_val_def code_def)

lemma length_nat_string: "n < 10 ^ k \<Longrightarrow> 0 < k \<Longrightarrow> length (nat_string n) \<le> k"
proof (induction k arbitrary: n)
  case (Suc k)
  show ?case
  proof (cases "n < 10")
    case True
    then show ?thesis by (simp add: nat_string.simps [of n])
  next
    case False
    then have k: "0 < k" using Suc.prems(1) by (cases k) auto
    have "n div 10 < 10 ^ k" using Suc.prems(1) by (simp add: less_mult_imp_div_less mult.commute)
    from Suc.IH [OF this k] False show ?thesis by (subst nat_string.simps) simp
  qed
qed simp

lemma padded_number:
  assumes "0 \<le> v" and "v < 10 ^ 6"
  defines "s \<equiv> replicate (6 - length (to_string v)) CHR ''0'' @ to_string v"
  shows "length s = 6" and "stoi s = Inr v" and "\<forall>c\<in>set s. is_digit c"
proof -
  have t: "to_string v = nat_string (nat v)" using assms(1) by (simp add: to_string_def)
  have "nat v < 10 ^ 6" using assms(1,2) by (simp add: nat_less_iff)
  from length_nat_string [OF this] show l: "length s = 6" by (simp add: s_def t)
  have "is_digit CHR ''0''" by (simp add: is_digit_def code_def)
  then show d: "\<forall>c\<in>set s. is_digit c" by (auto simp: s_def t nat_string_digits)
  have "strto s = Some (False, nat v)"
  proof -
    have "s \<noteq> []" using l by auto
    from strto_digits [OF this d] show ?thesis unfolding s_def digits_value_zeros by (simp add: t)
  qed
  then show "stoi s = Inr v" using assms(1,2) by (simp add: stoi_def signed_number_def Let_def)
qed

lemma find_last_of_absent: "c \<notin> set s \<Longrightarrow> find_last_of c s = None"
  by (induction s) auto

lemma find_last_of_split: "c \<notin> set t \<Longrightarrow> find_last_of c (s @ c # t) = Some (length s)"
  by (induction s) (simp_all add: find_last_of_absent)

lemma word_of_int_read:
  assumes "int32_range v"
  shows "wrap_signed 32 (uint (word_of_int v :: 32 word)) = v"
proof -
  have "wrap_signed 32 (v mod 2 ^ 32) = wrap_signed 32 v" by (simp add: wrap_signed_def mod_simps)
  also have "\<dots> = v" using assms by (intro wrap_signed_id) (simp_all add: int32_range_def)
  finally show ?thesis by (simp add: uint_word_of_int)
qed

abbreviation utc :: "int \<Rightarrow> int \<Rightarrow> int \<Rightarrow> product_data" where
  "utc d s m \<equiv> UtcData [word_of_int d, word_of_int s, word_of_int m]"

lemma Utc_fields_eq [simp]: "Utc_fields lc d s m = Inr (utc d s m)"
  by (simp add: Utc_fields_def Utc_class_def UInt_class_def vec_put_def)

lemma utc_fractions:
  "int32_range d \<Longrightarrow> GetDaysFraction lc (utc d s m) = Inr d"
  "int32_range s \<Longrightarrow> GetSecondsFraction lc (utc d s m) = Inr s"
  "int32_range m \<Longrightarrow> GetMicroSecondsFraction lc (utc d s m) = Inr m"
  by (simp_all add: GetDaysFraction_def GetSecondsFraction_def GetMicroSecondsFraction_def Utc_class_def
      UInt_class_def read_at_def vec_at_def word_of_int_read)

text \<open>
  The calendar of \<open>boost::date_time\<close>, from 2000-01-01 up to its last day 9999-12-31: the time points are
  as far apart as the added days and seconds say, and a written time is read back, whatever the case
  of its letters (the names of the months).
\<close>

definition last_day :: int where "last_day = 2921939"

definition calendar :: "'p date_time \<Rightarrow> bool" where
  "calendar dt \<longleftrightarrow>
     (\<forall>d s. 0 \<le> d \<and> d \<le> last_day \<and> 0 \<le> s \<and> s < 86400 \<longrightarrow>
        (let p = plus_seconds dt (plus_days dt (midnight_2000 dt) d) s
         in millis_between dt (midnight_2000 dt) p = (d * 86400 + s) * 1000 \<and>
            read_time dt DATE_FORMAT_PATTERN (map to_upper (write_time dt DATE_FORMAT_PATTERN p)) = Some p))"

definition sample_calendar :: "int date_time" where
  "sample_calendar =
     \<lparr>midnight_2000 = 0, plus_days = (\<lambda>p d. p + d * 86400000), plus_seconds = (\<lambda>p s. p + s * 1000),
      plus_millis = (\<lambda>p m. p + m), millis_between = (\<lambda>p q. q - p), write_time = (\<lambda>_ p. to_string p),
      read_time = (\<lambda>_ t. case stoll t of Inl _ \<Rightarrow> None | Inr p \<Rightarrow> Some p)\<rparr>"

lemma sample_calendar_ok: "calendar sample_calendar"
proof -
  have u: "map to_upper (to_string v) = to_string v" if "0 \<le> v" for v
    using that by (simp add: to_string_def map_idI to_upper_nondigit nat_string_digits)
  have r: "stoll (to_string v) = Inr v" if "0 \<le> v" "v < 10 ^ 18" for v
    using that by (intro stoll_to_string) (simp add: int64_range_def)
  have "d * 86400000 + s * 1000 < 10 ^ 18" if "d \<le> last_day" "s < 86400" for d s :: int
    using that by (simp add: last_day_def)
  then show ?thesis by (simp add: calendar_def sample_calendar_def u r Let_def)
qed

lemma Create_utc:
  assumes "calendar dt" and "0 \<le> d" and "d \<le> last_day" and "0 \<le> s" and "s < 86400" and "int32_range m"
  shows "Create lc dt (plus_seconds dt (plus_days dt (midnight_2000 dt) d) s) m = Inr (utc d s m)"
proof -
  have "millis_between dt (midnight_2000 dt) (plus_seconds dt (plus_days dt (midnight_2000 dt) d) s)
        = (d * 86400 + s) * 1000"
    using assms by (simp add: calendar_def Let_def)
  moreover have "((d * 86400 + s) * 1000) sdiv (24 * 60 * 60 * 1000) = d"
    using assms by (simp add: signed_divide_int_def sgn_if)
  moreover have "((d * 86400 + s) * 1000 - d * (24 * 60 * 60 * 1000)) sdiv 1000 = s"
    using assms by (simp add: signed_divide_int_def sgn_if)
  moreover have "wrap_signed 32 d = d" "wrap_signed 32 s = s" "wrap_signed 32 m = m"
    using assms by (simp_all add: wrap_signed_id last_day_def int32_range_def)
  ultimately show ?thesis by (simp add: Create_def Let_def)
qed

lemma Parse_split:
  assumes "txt = a @ CHR ''.'' # f" and "CHR ''.'' \<notin> set f" and "length f \<le> 6" and "stoi f = Inr m"
    and "read_time dt DATE_FORMAT_PATTERN a = Some p"
  shows "Parse lc dt txt = Create lc dt p (m * 10 ^ (6 - length f))"
proof -
  have "find_last_of CHR ''.'' txt = Some (length a)" using assms(1,2) by (simp add: find_last_of_split)
  then show ?thesis using assms by (simp add: Parse_def Parse_pattern_def)
qed

text \<open>
  C14. Dates survive being printed and parsed: for any calendar that does so for whole seconds, the text
  \<open>Format\<close> gives for a date between 2000-01-01 and 9999-12-31 is parsed to the same days, seconds and
  microseconds.
\<close>
theorem Parse_Format:
  assumes "calendar dt" and "0 \<le> d" and "d \<le> last_day" and "0 \<le> s" and "s < 86400" and "0 \<le> m" and "m < 10 ^ 6"
  shows "\<exists>txt. Format lc dt (utc d s m) = Inr txt \<and> Parse lc dt txt = Inr (utc d s m)"
proof -
  let ?p = "plus_seconds dt (plus_days dt (midnight_2000 dt) d) s"
  let ?a = "map to_upper (write_time dt DATE_FORMAT_PATTERN ?p)"
  let ?f = "replicate (6 - length (to_string m)) CHR ''0'' @ to_string m"
  note f = padded_number [OF assms(6,7)]
  have r: "int32_range d" "int32_range s" "int32_range m"
    using assms by (simp_all add: int32_range_def last_day_def)
  have up: "map to_upper ?f = ?f" using f(3) by (intro map_idI) (auto intro: to_upper_nondigit)
  have "\<not> is_digit CHR ''.''" by (simp add: is_digit_def code_def)
  with f(3) have dot: "CHR ''.'' \<notin> set ?f" by blast
  have "to_upper CHR ''.'' = CHR ''.''" by (simp add: to_upper_def is_lower_def code_def)
  with up have F: "Format lc dt (utc d s m) = Inr (?a @ CHR ''.'' # ?f)"
    by (simp add: Format_def Format_pattern_def utc_fractions r Let_def)
  have "read_time dt DATE_FORMAT_PATTERN ?a = Some ?p" using assms by (simp add: calendar_def Let_def)
  from Parse_split [OF refl dot _ f(2) this] f(1)
  have "Parse lc dt (?a @ CHR ''.'' # ?f) = Create lc dt ?p m" by simp
  also have "\<dots> = Inr (utc d s m)" using assms r by (intro Create_utc)
  finally show ?thesis using F by blast
qed

lemma Parse_Format_witness:
  "\<forall>lc. \<exists>txt. Format lc sample_calendar (utc 7305 43200 1250) = Inr txt \<and>
     Parse lc sample_calendar txt = Inr (utc 7305 43200 1250)"
  by (intro allI Parse_Format [OF sample_calendar_ok]) (simp_all add: last_day_def)

text \<open>
  The fraction of a date text: with more than six characters after the last dot, or none that start
  a number, parsing throws a parse exception; otherwise they are read as a number and scaled to
  microseconds, whatever follows the number.
\<close>
theorem Parse_fraction:
  assumes "calendar dt" and "0 \<le> d" and "d \<le> last_day" and "0 \<le> s" and "s < 86400"
    and "a = map to_upper (write_time dt DATE_FORMAT_PATTERN
               (plus_seconds dt (plus_days dt (midnight_2000 dt) d) s))"
    and "CHR ''.'' \<notin> set f"
  shows "Parse lc dt (a @ ''.'' @ f) =
           (if length f > 6 then Inl Parse_exception
            else case stoi f of
                   Inl _ \<Rightarrow> Inl Parse_exception
                 | Inr v \<Rightarrow> Inr (utc d s (wrap_signed 32 (v * 10 ^ (6 - length f)))))"
proof -
  let ?p = "plus_seconds dt (plus_days dt (midnight_2000 dt) d) s"
  have dot: "find_last_of CHR ''.'' (a @ CHR ''.'' # f) = Some (length a)"
    using assms(7) by (simp add: find_last_of_split)
  have r: "read_time dt DATE_FORMAT_PATTERN a = Some ?p" using assms by (simp add: calendar_def Let_def)
  have c: "Create lc dt ?p v = Inr (utc d s (wrap_signed 32 v))" for v
  proof -
    have "int32_range (wrap_signed 32 v)"
      using pos_mod_bound [of "2 ^ 32" "v + 2 ^ 31"] pos_mod_sign [of "2 ^ 32" "v + 2 ^ 31"]
      by (simp add: int32_range_def wrap_signed_def)
    from Create_utc [OF assms(1-5) this] have "Create lc dt ?p (wrap_signed 32 v) = Inr (utc d s (wrap_signed 32 v))" .
    moreover have "Create lc dt ?p (wrap_signed 32 v) = Create lc dt ?p v"
      by (simp add: Create_def Let_def wrap_signed_def mod_simps)
    ultimately show ?thesis by simp
  qed
  show ?thesis by (simp add: Parse_def Parse_pattern_def dot r c Let_def split: sum.split)
qed

lemma Parse_fraction_witness:
  "\<forall>lc. Parse lc sample_calendar ''0.1x'' = Inr (utc 0 0 10000) \<and>
     Parse lc sample_calendar ''0.-5'' = Inr (utc 0 0 (-50000)) \<and> Parse lc sample_calendar ''0.x'' = Inl Parse_exception"
proof -
  have a: "''0'' = map to_upper (write_time sample_calendar DATE_FORMAT_PATTERN
      (plus_seconds sample_calendar (plus_days sample_calendar (midnight_2000 sample_calendar) 0) 0))"
    by code_simp
  note p = Parse_fraction [OF sample_calendar_ok _ _ _ _ a, of f for f, simplified last_day_def, simplified]
  have "stoi ''1x'' = Inr 1" "stoi ''-5'' = Inr (-5)" "stoi ''x'' = Inl Invalid_argument" by code_simp+
  moreover have "wrap_signed 32 10000 = 10000" "wrap_signed 32 (-50000) = -50000" by code_simp+
  ultimately show ?thesis using p [of "''1x''"] p [of "''-5''"] p [of "''x''"] by simp
qed

section \<open>Day counts\<close>

lemma finite_constants: "\<exists>x. SECONDS_TO_DAYS = Fin x" "\<exists>x. MICROS_TO_SECONDS = Fin x"
  using f64_finite_fraction [of "1 / 86400"] f64_finite_fraction [of "1 / 1000000"]
  by (simp_all add: SECONDS_TO_DAYS_def MICROS_TO_SECONDS_def SECONDS_PER_DAY_def MICROS_PER_SECOND_def)

lemma whole_day_products:
  assumes "\<bar>d\<bar> < 2 ^ 29"
  shows "fmul f64 (Fin (of_int d)) SECONDS_PER_DAY = Fin (of_int (d * 86400))"
    and "fmul f64 (Fin (of_int (d * 86400))) MICROS_PER_SECOND = Fin (of_int (d * 86400 * 1000000))"
proof -
  have "fp_of_rat f64 (of_int ((d * 675) * 2 ^ 7)) = Fin (of_int ((d * 675) * 2 ^ 7))"
    using assms by (intro f64_exact) simp_all
  then show "fmul f64 (Fin (of_int d)) SECONDS_PER_DAY = Fin (of_int (d * 86400))"
    by (simp add: SECONDS_PER_DAY_def mult.commute)
  have "fp_of_rat f64 (of_int ((d * 10546875) * 2 ^ 13)) = Fin (of_int ((d * 10546875) * 2 ^ 13))"
    using assms by (intro f64_exact) simp_all
  then show "fmul f64 (Fin (of_int (d * 86400))) MICROS_PER_SECOND = Fin (of_int (d * 86400 * 1000000))"
    by (simp add: MICROS_PER_SECOND_def mult.commute)
qed

lemma rat_trunc_int [simp]: "rat_trunc (of_int k) = k"
  unfolding rat_trunc_def by (metis floor_of_int minus_minus of_int_minus)

lemma ffmod_multiple: "0 < n \<Longrightarrow> ffmod (Fin (of_int (k * n))) (Fin (of_int n)) = Fin 0"
  by simp

lemma Utc_mjd_whole:
  assumes "\<bar>d\<bar> < 2 ^ 29"
  shows "Utc_mjd lc (Fin (of_int d)) = Inr (utc d 0 0)"
proof -
  note prod = whole_day_products [OF assms]
  have "ffmod (Fin (of_int (d * 86400 * 1000000))) MICROS_PER_SECOND = Fin 0"
    using ffmod_multiple [of 1000000 "d * 86400"] by (simp add: MICROS_PER_SECOND_def)
  moreover have "ffmod (Fin (of_int (d * 86400))) SECONDS_PER_DAY = Fin 0"
    using ffmod_multiple [of 86400 d] by (simp add: SECONDS_PER_DAY_def)
  moreover have "fp_to_int32 (Fin (of_int d)) = Inr d" using assms by (auto simp: fp_to_int32_def)
  moreover have "to_int64 (Fin 0) = Inr 0" by (simp add: to_int64_def rat_trunc_def)
  ultimately show ?thesis
    by (simp add: Utc_mjd_def prod Let_def Utc_class_def UInt_class_def vec_put_def del: of_int_mult)
qed

text \<open>
  Whole days: a day count below \<open>2 ^ 29\<close> in magnitude, before or after 2000, gives a date of that
  many days and no seconds, since none of the roundings of its products loses anything, and the date
  gives the same day count back.
\<close>
theorem Utc_mjd_days:
  assumes "\<bar>d\<bar> < 2 ^ 29"
  shows "\<exists>u. Utc_mjd lc (Fin (of_int d)) = Inr u \<and> GetMjd lc u = Inr (Fin (of_int d)) \<and>
             GetDaysFraction lc u = Inr d \<and> GetSecondsFraction lc u = Inr 0 \<and> GetMicroSecondsFraction lc u = Inr 0"
proof -
  have r: "int32_range d" "int32_range 0" using assms by (auto simp: int32_range_def)
  obtain x y where c: "SECONDS_TO_DAYS = Fin x" "MICROS_TO_SECONDS = Fin y" using finite_constants by blast
  have d: "fp_of_rat f64 (of_int d) = Fin (of_int d)" using f64_exact [of d 0] assms by simp
  have "GetMjd lc (utc d 0 0) = Inr (Fin (of_int d))"
    using utc_fractions [OF r(1), of lc 0 0] utc_fractions [OF r(2), of lc d 0] utc_fractions(3) [OF r(2), of lc d 0]
    by (simp add: GetMjd_def c fp_of_int_def d)
  then show ?thesis
    using Utc_mjd_whole [OF assms, of lc] utc_fractions(1) [OF r(1), of lc 0 0] utc_fractions(2) [OF r(2), of lc d 0]
      utc_fractions(3) [OF r(2), of lc d 0]
    by simp
qed

lemma Utc_mjd_days_witness:
  "\<forall>lc. \<exists>u. Utc_mjd lc (Fin (-400)) = Inr u \<and> GetMjd lc u = Inr (Fin (-400))"
proof
  fix lc
  show "\<exists>u. Utc_mjd lc (Fin (-400)) = Inr u \<and> GetMjd lc u = Inr (Fin (-400))"
    using Utc_mjd_days [of "-400" lc] by auto
qed

lemma clone_utc: "length a = 3 \<Longrightarrow> CreateDeepClone lc (UtcData a) = Inr (UtcData a)"
  using Utc_mjd_whole [of 3 lc] f64_exact [of 3 0] by (simp add: fp_of_int_def)

end
