(* ===== verification/SubsetDef.thy ===== *)
theory SubsetDef
  imports Ieee
begin

text \<open>
  What part of a product is read: \<open>ProductSubsetDef\<close> (\<^verbatim>\<open>product_subset_def.cc\<close>) with its list of node names,
  sub-sampling and regions, and the pixel regions (\<^verbatim>\<open>pixel_subset_region.cc\<close>, \<^verbatim>\<open>abstract_subset_region.cc\<close>).
  Names are compared with \<open>boost::iequals\<close>, a parameter \<open>ieq\<close> of which only that it is an equivalence is used.
\<close>

section \<open>Pixel regions\<close>

record custom_rectangle =
  cx :: int
  cy :: int
  cwidth :: int
  cheight :: int

record pixel_region =
  border_pixels :: int
  GetPixelRegion :: custom_rectangle

definition AbstractSubsetRegion :: "int \<Rightarrow> int res" where
  "AbstractSubsetRegion border = (if border < 0 then Inl Invalid_argument else Inr border)"

definition PixelSubsetRegion :: "int \<Rightarrow> int \<Rightarrow> int \<Rightarrow> int \<Rightarrow> int \<Rightarrow> pixel_region res" where
  "PixelSubsetRegion x y width height border =
     bind_res (AbstractSubsetRegion border) (\<lambda>b.
       if x < 0 \<or> y < 0 \<or> width < 1 \<or> height < 1 then Inl Invalid_argument
       else Inr \<lparr>border_pixels = b, GetPixelRegion = \<lparr>cx = x, cy = y, cwidth = width, cheight = height\<rparr>\<rparr>)"

definition PixelSubsetRegion_of :: "custom_rectangle option \<Rightarrow> int \<Rightarrow> pixel_region res" where
  "PixelSubsetRegion_of region border =
     bind_res (AbstractSubsetRegion border) (\<lambda>b.
       case region of
         None \<Rightarrow> Inl Runtime_error
       | Some r \<Rightarrow>
           if cx r < 0 \<or> cy r < 0 \<or> cwidth r < 1 \<or> cheight r < 1 then Inl Invalid_argument
           else Inr \<lparr>border_pixels = b, GetPixelRegion = r\<rparr>)"

definition base_ValidateDefaultSize :: "int \<Rightarrow> int \<Rightarrow> unit res" where
  "base_ValidateDefaultSize width height =
     (if width < 1 then Inl Invalid_argument else if height < 1 then Inl Invalid_argument else Inr ())"

definition ValidateDefaultSize :: "pixel_region \<Rightarrow> int \<Rightarrow> int \<Rightarrow> unit res" where
  "ValidateDefaultSize p width height =
     bind_res (base_ValidateDefaultSize width height) (\<lambda>_.
       if width < cwidth (GetPixelRegion p) then Inl Invalid_argument
       else if height < cheight (GetPixelRegion p) then Inl Invalid_argument
       else Inr ())"

definition ComputeProductPixelRegion :: "pixel_region \<Rightarrow> int \<Rightarrow> int \<Rightarrow> custom_rectangle res" where
  "ComputeProductPixelRegion p width height =
     bind_res (ValidateDefaultSize p width height) (\<lambda>_. Inr (GetPixelRegion p))"

definition percent_of :: "int \<Rightarrow> int \<Rightarrow> int \<Rightarrow> int res" where
  "percent_of part whole extent =
     fp_to_int32 (fmul f32 (fdiv f32 (fp_of_int f32 part) (fp_of_int f32 whole)) (fp_of_int f32 extent))"

definition ComputeBandBoundsBasedOnPercent ::
  "custom_rectangle \<Rightarrow> int \<Rightarrow> int \<Rightarrow> int \<Rightarrow> int \<Rightarrow> custom_rectangle res" where
  "ComputeBandBoundsBasedOnPercent bounds product_width product_height band_width band_height =
     bind_res (percent_of (cx bounds) product_width band_width) (\<lambda>x.
     bind_res (percent_of (cy bounds) product_height band_height) (\<lambda>y.
     bind_res (percent_of (cwidth bounds) product_width band_width) (\<lambda>w.
     bind_res (percent_of (cheight bounds) product_height band_height) (\<lambda>h.
       Inr \<lparr>cx = x, cy = y, cwidth = w, cheight = h\<rparr>))))"

section \<open>The subset definition\<close>

record subset_def =
  subset_name :: string
  region_map :: "(string \<times> custom_rectangle) list"
  sub_sampling_x :: int
  sub_sampling_y :: int
  node_name_list :: "string list"
  ignore_metadata :: bool
  treat_virtual_bands_as_real_bands :: bool
  subset_region :: "pixel_region option"

definition ProductSubsetDef :: "string \<Rightarrow> subset_def" where
  "ProductSubsetDef name =
     \<lparr>subset_name = name, region_map = [], sub_sampling_x = 1, sub_sampling_y = 1, node_name_list = [],
      ignore_metadata = False, treat_virtual_bands_as_real_bands = False, subset_region = None\<rparr>"

definition GetNodeNameIndex :: "(string \<Rightarrow> string \<Rightarrow> bool) \<Rightarrow> subset_def \<Rightarrow> string \<Rightarrow> int" where
  "GetNodeNameIndex ieq d name = first_index (\<lambda>n. ieq n name) (node_name_list d)"

definition GetNodeNames :: "subset_def \<Rightarrow> string list" where
  "GetNodeNames d = node_name_list d"

definition ContainsNodeName :: "(string \<Rightarrow> string \<Rightarrow> bool) \<Rightarrow> subset_def \<Rightarrow> string \<Rightarrow> bool" where
  "ContainsNodeName ieq d name \<longleftrightarrow> GetNodeNameIndex ieq d name \<ge> 0"

definition IsNodeAccepted :: "(string \<Rightarrow> string \<Rightarrow> bool) \<Rightarrow> subset_def \<Rightarrow> string \<Rightarrow> bool" where
  "IsNodeAccepted ieq d name \<longleftrightarrow> node_name_list d = [] \<or> ContainsNodeName ieq d name"

definition AddNodeName :: "(string \<Rightarrow> string \<Rightarrow> bool) \<Rightarrow> subset_def \<Rightarrow> string \<Rightarrow> subset_def res" where
  "AddNodeName ieq d name =
     bind_res (guard (name \<noteq> []) Invalid_argument) (\<lambda>_.
       if ContainsNodeName ieq d name then Inr d
       else Inr (d\<lparr>node_name_list := node_name_list d @ [name]\<rparr>))"

text \<open>The names before an empty one stay added when it throws.\<close>

fun AddNodeNames :: "(string \<Rightarrow> string \<Rightarrow> bool) \<Rightarrow> subset_def \<Rightarrow> string list \<Rightarrow> subset_def \<times> unit res" where
  "AddNodeNames ieq d [] = (d, Inr ())"
| "AddNodeNames ieq d (name # names) =
     (case AddNodeName ieq d name of
        Inl e \<Rightarrow> (d, Inl e)
      | Inr d' \<Rightarrow> AddNodeNames ieq d' names)"

definition SetNodeNames :: "(string \<Rightarrow> string \<Rightarrow> bool) \<Rightarrow> subset_def \<Rightarrow> string list \<Rightarrow> subset_def \<times> unit res" where
  "SetNodeNames ieq d names =
     (if names \<noteq> [] then
        let d = (if node_name_list d \<noteq> [] then d\<lparr>node_name_list := []\<rparr> else d)
        in AddNodeNames ieq d names
      else (d\<lparr>node_name_list := []\<rparr>, Inr ()))"

definition RemoveNodeName :: "(string \<Rightarrow> string \<Rightarrow> bool) \<Rightarrow> subset_def \<Rightarrow> string \<Rightarrow> subset_def \<times> bool" where
  "RemoveNodeName ieq d name =
     (let index = GetNodeNameIndex ieq d name
      in if index < 0 then (d, False)
         else (d\<lparr>node_name_list := take (nat index) (node_name_list d) @ drop (nat index + 1) (node_name_list d)\<rparr>, True))"

definition SetSubSampling :: "subset_def \<Rightarrow> int \<Rightarrow> int \<Rightarrow> subset_def res" where
  "SetSubSampling d x y =
     (if x < 1 \<or> y < 1 then Inl Invalid_argument else Inr (d\<lparr>sub_sampling_x := x, sub_sampling_y := y\<rparr>))"

definition IsEntireProductSelected :: "subset_def \<Rightarrow> bool" where
  "IsEntireProductSelected d \<longleftrightarrow>
     subset_region d = None \<and> sub_sampling_x d = 1 \<and> sub_sampling_y d = 1 \<and> node_name_list d = [] \<and>
     \<not> ignore_metadata d"

definition SetSubsetRegion :: "subset_def \<Rightarrow> pixel_region option \<Rightarrow> subset_def" where
  "SetSubsetRegion d r = d\<lparr>subset_region := r\<rparr>"

definition SetIgnoreMetadata :: "subset_def \<Rightarrow> bool \<Rightarrow> subset_def" where
  "SetIgnoreMetadata d b = d\<lparr>ignore_metadata := b\<rparr>"

definition SetRegionMap :: "subset_def \<Rightarrow> (string \<times> custom_rectangle) list \<Rightarrow> subset_def" where
  "SetRegionMap d m = d\<lparr>region_map := m\<rparr>"

definition GetRegion :: "subset_def \<Rightarrow> custom_rectangle option" where
  "GetRegion d = map_option GetPixelRegion (subset_region d)"

text \<open>The size of the highest region among the selected nodes.\<close>

definition highest_region :: "subset_def \<Rightarrow> int \<times> int" where
  "highest_region d =
     fold (\<lambda>node_name (aux_width, aux_height).
             case map_of (region_map d) node_name of
               None \<Rightarrow> (aux_width, aux_height)
             | Some rec \<Rightarrow> if aux_height < cheight rec then (cwidth rec, cheight rec) else (aux_width, aux_height))
       (node_name_list d) (-1, -1)"

definition GetSceneRasterSize :: "subset_def \<Rightarrow> int \<Rightarrow> int \<Rightarrow> string \<Rightarrow> int \<times> int" where
  "GetSceneRasterSize d max_width max_height band_name =
     (let (width, height) =
            (case subset_region d of
               Some p \<Rightarrow> (cwidth (GetPixelRegion p), cheight (GetPixelRegion p))
             | None \<Rightarrow> (max_width, max_height));
          the_band = map_of (region_map d) band_name;
          (width, height) =
            (if band_name \<noteq> [] \<and> region_map d \<noteq> [] \<and> the_band \<noteq> None
             then (cwidth (the the_band), cheight (the the_band))
             else if region_map d \<noteq> [] then
               let (aux_width, aux_height) = highest_region d
               in if aux_height \<noteq> -1 \<and> aux_width \<noteq> -1 then (aux_width, aux_height) else (width, height)
             else (width, height))
      in (c_div (width - 1) (sub_sampling_x d) + 1, c_div (height - 1) (sub_sampling_y d) + 1))"

section \<open>The node names are a set of names\<close>

definition upper_case :: "string \<Rightarrow> string" where
  "upper_case = map (\<lambda>c. if 97 \<le> (of_char c :: nat) \<and> (of_char c :: nat) \<le> 122 then char_of ((of_char c :: nat) - 32) else c)"

definition iequals_upper :: "string \<Rightarrow> string \<Rightarrow> bool" where
  "iequals_upper a b \<longleftrightarrow> upper_case a = upper_case b"

lemma iequals_upper_equality: "equivp iequals_upper"
  by (rule equivpI) (simp_all add: reflp_def symp_def transp_def iequals_upper_def)

lemmas name_sym = equivp_symp [where R = ieq for ieq :: "string \<Rightarrow> string \<Rightarrow> bool"]
lemmas name_trans = equivp_transp [where R = ieq for ieq :: "string \<Rightarrow> string \<Rightarrow> bool"]

lemma ContainsNodeName_iff: "ContainsNodeName ieq d n \<longleftrightarrow> (\<exists>m\<in>set (node_name_list d). ieq m n)"
  by (simp add: ContainsNodeName_def GetNodeNameIndex_def first_index_nonneg)

definition different_names :: "(string \<Rightarrow> string \<Rightarrow> bool) \<Rightarrow> subset_def \<Rightarrow> bool" where
  "different_names ieq d \<longleftrightarrow>
     sorted_wrt (\<lambda>a b. \<not> ieq a b) (node_name_list d) \<and> [] \<notin> set (node_name_list d)"

lemma AddNodeName_different:
  assumes "different_names ieq d" and "AddNodeName ieq d n = Inr d'"
  shows "different_names ieq d'"
proof -
  have n: "n \<noteq> []" using assms(2) by (cases n) (simp_all add: AddNodeName_def)
  then have d': "d' = (if ContainsNodeName ieq d n then d else d\<lparr>node_name_list := node_name_list d @ [n]\<rparr>)"
    using assms(2) by (simp add: AddNodeName_def split: if_splits)
  show ?thesis using assms(1) n unfolding d'
    by (auto simp: different_names_def ContainsNodeName_iff sorted_wrt_append)
qed

lemma AddNodeName_contains:
  assumes "equivp ieq" and "AddNodeName ieq d n = Inr d'"
  shows "ContainsNodeName ieq d' m \<longleftrightarrow> ContainsNodeName ieq d m \<or> ieq m n"
proof -
  have n: "n \<noteq> []" using assms(2) by (cases n) (simp_all add: AddNodeName_def)
  then have d': "d' = (if ContainsNodeName ieq d n then d else d\<lparr>node_name_list := node_name_list d @ [n]\<rparr>)"
    using assms(2) by (simp add: AddNodeName_def split: if_splits)
  show ?thesis
  proof (cases "ContainsNodeName ieq d n")
    case True
    then obtain k where "k \<in> set (node_name_list d)" "ieq k n" by (auto simp: ContainsNodeName_iff)
    then have "ContainsNodeName ieq d m" if "ieq m n"
      using name_trans [OF assms(1) _ name_sym [OF assms(1) that]] by (auto simp: ContainsNodeName_iff)
    then show ?thesis using True d' by auto
  next
    case False
    have "ieq n m \<longleftrightarrow> ieq m n" using name_sym [OF assms(1)] by blast
    then show ?thesis using False d' by (auto simp: ContainsNodeName_iff)
  qed
qed

lemma AddNodeName_fails: "AddNodeName ieq d n = Inl e \<longleftrightarrow> n = [] \<and> e = Invalid_argument"
  by (cases n) (auto simp: AddNodeName_def)

lemma sorted_wrt_middle:
  "sorted_wrt P (a @ x # b) \<Longrightarrow> (\<forall>y\<in>set a. P y x) \<and> (\<forall>y\<in>set b. P x y) \<and> sorted_wrt P (a @ b)"
  by (auto simp: sorted_wrt_append)

lemma RemoveNodeName_spec:
  assumes "equivp ieq" and "different_names ieq d" and "RemoveNodeName ieq d n = (d', b)"
  shows "different_names ieq d'" and "b = ContainsNodeName ieq d n"
    and "ContainsNodeName ieq d' m \<longleftrightarrow> ContainsNodeName ieq d m \<and> \<not> ieq m n"
proof -
  let ?i = "first_index (\<lambda>k. ieq k n) (node_name_list d)"
  have spec: "different_names ieq d' \<and> b = ContainsNodeName ieq d n \<and>
      (ContainsNodeName ieq d' m \<longleftrightarrow> ContainsNodeName ieq d m \<and> \<not> ieq m n)"
  proof (cases "?i < 0")
    case True
    then have no: "\<forall>k\<in>set (node_name_list d). \<not> ieq k n" by (simp add: first_index_less_0)
    have "d' = d" "\<not> b" using assms(3) True by (auto simp: RemoveNodeName_def GetNodeNameIndex_def Let_def)
    moreover have "\<not> ContainsNodeName ieq d n" using no by (simp add: ContainsNodeName_iff)
    moreover have "\<not> ieq m n" if "ContainsNodeName ieq d m"
      using that no name_trans [OF assms(1)] unfolding ContainsNodeName_iff by blast
    ultimately show ?thesis using assms(2) by auto
  next
    case False
    let ?k = "nat ?i" and ?xs = "node_name_list d"
    have hit: "?k < length ?xs" "ieq (?xs ! ?k) n" using first_index_hit [of "\<lambda>k. ieq k n" ?xs] False by auto
    have split: "?xs = take ?k ?xs @ (?xs ! ?k) # drop (?k + 1) ?xs"
      using hit(1) by (simp add: id_take_nth_drop)
    have d': "d' = d\<lparr>node_name_list := take ?k ?xs @ drop (?k + 1) ?xs\<rparr>" "b"
      using assms(3) False by (auto simp: RemoveNodeName_def GetNodeNameIndex_def Let_def)
    have w: "sorted_wrt (\<lambda>a b. \<not> ieq a b) (take ?k ?xs @ (?xs ! ?k) # drop (?k + 1) ?xs)"
      using assms(2) split unfolding different_names_def by metis
    let ?rest = "take ?k ?xs @ drop (?k + 1) ?xs"
    note mid = sorted_wrt_middle [OF w]
    have apart: "\<not> ieq x (?xs ! ?k)" if "x \<in> set ?rest" for x
    proof
      assume "ieq x (?xs ! ?k)"
      moreover from this have "ieq (?xs ! ?k) x" by (rule name_sym [OF assms(1)])
      moreover have "x \<in> set (take ?k ?xs) \<or> x \<in> set (drop (?k + 1) ?xs)" using that by simp
      ultimately show False using mid by blast
    qed
    have others: "\<not> ieq x n" if "x \<in> set ?rest" for x
    proof
      assume "ieq x n"
      from name_trans [OF assms(1) this name_sym [OF assms(1) hit(2)]] apart [OF that] show False by simp
    qed
    have members: "x \<in> set ?xs \<longleftrightarrow> x = ?xs ! ?k \<or> x \<in> set ?rest" for x
      using arg_cong [OF split, of set] by auto
    have "ContainsNodeName ieq d' m \<longleftrightarrow> (\<exists>x\<in>set ?rest. ieq x m)"
      by (simp add: ContainsNodeName_iff d'(1))
    also have "\<dots> \<longleftrightarrow> ContainsNodeName ieq d m \<and> \<not> ieq m n"
    proof
      assume "\<exists>x\<in>set ?rest. ieq x m"
      then obtain x where x: "x \<in> set ?rest" "ieq x m" by blast
      then have "ContainsNodeName ieq d m" using members unfolding ContainsNodeName_iff by blast
      moreover have "\<not> ieq m n"
      proof
        assume "ieq m n"
        from name_trans [OF assms(1) x(2) this] others [OF x(1)] show False by simp
      qed
      ultimately show "ContainsNodeName ieq d m \<and> \<not> ieq m n" ..
    next
      assume m: "ContainsNodeName ieq d m \<and> \<not> ieq m n"
      then obtain x where x: "x \<in> set ?xs" "ieq x m" by (auto simp: ContainsNodeName_iff)
      have "x \<noteq> ?xs ! ?k"
      proof
        assume "x = ?xs ! ?k"
        then have "ieq m (?xs ! ?k)" using name_sym [OF assms(1) x(2)] by simp
        from name_trans [OF assms(1) this hit(2)] m show False by simp
      qed
      then have "x \<in> set ?rest" using x(1) members by blast
      then show "\<exists>x\<in>set ?rest. ieq x m" using x(2) by blast
    qed
    finally have "ContainsNodeName ieq d' m \<longleftrightarrow> ContainsNodeName ieq d m \<and> \<not> ieq m n" .
    moreover have "different_names ieq d'"
      using mid assms(2) members unfolding different_names_def d'(1) by simp
    moreover have "ContainsNodeName ieq d n" using hit by (auto simp: ContainsNodeName_iff)
    ultimately show ?thesis using d'(2) by simp
  qed
  then show "different_names ieq d'" "b = ContainsNodeName ieq d n"
    "ContainsNodeName ieq d' m \<longleftrightarrow> ContainsNodeName ieq d m \<and> \<not> ieq m n" by blast+
qed

text \<open>The operations on the names, and what each means for the set of selected names.\<close>

datatype name_op = Op_add string | Op_add_all "string list" | Op_set "string list" | Op_remove string

fun run_op :: "(string \<Rightarrow> string \<Rightarrow> bool) \<Rightarrow> name_op \<Rightarrow> subset_def \<Rightarrow> subset_def" where
  "run_op ieq (Op_add n) d = (case AddNodeName ieq d n of Inl _ \<Rightarrow> d | Inr d' \<Rightarrow> d')"
| "run_op ieq (Op_add_all ns) d = fst (AddNodeNames ieq d ns)"
| "run_op ieq (Op_set ns) d = fst (SetNodeNames ieq d ns)"
| "run_op ieq (Op_remove n) d = fst (RemoveNodeName ieq d n)"

definition named :: "(string \<Rightarrow> string \<Rightarrow> bool) \<Rightarrow> string list \<Rightarrow> string set" where
  "named ieq ns = {m. \<exists>n\<in>set (takeWhile (\<lambda>n. n \<noteq> []) ns). ieq m n}"

fun meant :: "(string \<Rightarrow> string \<Rightarrow> bool) \<Rightarrow> name_op \<Rightarrow> string set \<Rightarrow> string set" where
  "meant ieq (Op_add n) S = S \<union> named ieq [n]"
| "meant ieq (Op_add_all ns) S = S \<union> named ieq ns"
| "meant ieq (Op_set ns) S = named ieq ns"
| "meant ieq (Op_remove n) S = S - {m. ieq m n}"

abbreviation selected :: "(string \<Rightarrow> string \<Rightarrow> bool) \<Rightarrow> subset_def \<Rightarrow> string set" where
  "selected ieq d \<equiv> {m. ContainsNodeName ieq d m}"

lemma AddNodeNames_spec:
  assumes "equivp ieq"
  shows "different_names ieq d \<Longrightarrow> different_names ieq (fst (AddNodeNames ieq d ns)) \<and>
         selected ieq (fst (AddNodeNames ieq d ns)) = selected ieq d \<union> named ieq ns"
proof (induction ns arbitrary: d)
  case Nil
  then show ?case by (simp add: named_def)
next
  case (Cons n ns)
  show ?case
  proof (cases "AddNodeName ieq d n")
    case (Inl e)
    then have "n = []" by (simp add: AddNodeName_fails)
    then show ?thesis using Cons.prems Inl by (simp add: named_def)
  next
    case (Inr d')
    have n: "n \<noteq> []" using Inr by (cases n) (simp_all add: AddNodeName_def)
    have "selected ieq d' = selected ieq d \<union> {m. ieq m n}"
      using AddNodeName_contains [OF assms Inr] by blast
    moreover have "named ieq (n # ns) = {m. ieq m n} \<union> named ieq ns" using n by (auto simp: named_def)
    ultimately show ?thesis
      using Cons.IH [OF AddNodeName_different [OF Cons.prems Inr]] Inr by (simp add: Un_assoc)
  qed
qed

lemma run_op_spec:
  assumes "equivp ieq" and "different_names ieq d"
  shows "different_names ieq (run_op ieq op d) \<and> selected ieq (run_op ieq op d) = meant ieq op (selected ieq d)"
proof (cases op)
  case (Op_add n)
  have "run_op ieq op d = fst (AddNodeNames ieq d [n])" by (simp add: Op_add split: sum.split)
  then show ?thesis using AddNodeNames_spec [OF assms, of "[n]"] Op_add by simp
next
  case (Op_add_all ns)
  then show ?thesis using AddNodeNames_spec [OF assms, of ns] by simp
next
  case (Op_set ns)
  have e: "different_names ieq (d\<lparr>node_name_list := []\<rparr>)" "selected ieq (d\<lparr>node_name_list := []\<rparr>) = {}"
    by (simp_all add: different_names_def ContainsNodeName_iff)
  have f: "node_name_list d = [] \<Longrightarrow> d\<lparr>node_name_list := []\<rparr> = d" by (cases d) simp
  have "run_op ieq op d = fst (AddNodeNames ieq (d\<lparr>node_name_list := []\<rparr>) ns)"
  proof (cases "node_name_list d = []")
    case True
    show ?thesis unfolding f [OF True] by (simp add: Op_set SetNodeNames_def True)
  qed (simp add: Op_set SetNodeNames_def)
  then show ?thesis using AddNodeNames_spec [OF assms(1) e(1), of ns] Op_set e(2) by simp
next
  case (Op_remove n)
  obtain d' b where r: "RemoveNodeName ieq d n = (d', b)" by fastforce
  have "selected ieq d' = selected ieq d - {m. ieq m n}" using RemoveNodeName_spec(3) [OF assms r] by blast
  then show ?thesis using RemoveNodeName_spec(1) [OF assms r] Op_remove r by simp
qed

text \<open>
  C15. The list of node names implements a set of names that do not differ only in what \<open>iequals\<close>
  ignores: after any sequence of additions, replacements and removals on a fresh definition it holds
  no name twice and \<open>ContainsNodeName\<close> accepts exactly the names of the set the operations describe, an
  empty name ending the addition of a list.
\<close>
theorem node_names_refine_set:
  assumes "equivp ieq"
  shows "different_names ieq (fold (run_op ieq) ops (ProductSubsetDef name)) \<and>
         {m. ContainsNodeName ieq (fold (run_op ieq) ops (ProductSubsetDef name)) m} = fold (meant ieq) ops {}"
proof -
  have "different_names ieq (fold (run_op ieq) ops d) \<and>
      selected ieq (fold (run_op ieq) ops d) = fold (meant ieq) ops (selected ieq d)"
    if "different_names ieq d" for d
    using that by (induction ops arbitrary: d) (simp_all add: run_op_spec [OF assms])
  moreover have "different_names ieq (ProductSubsetDef name)" "selected ieq (ProductSubsetDef name) = {}"
    by (simp_all add: different_names_def ProductSubsetDef_def ContainsNodeName_iff)
  ultimately show ?thesis by metis
qed

lemma node_names_refine_set_witness:
  "{m. ContainsNodeName iequals_upper
         (fold (run_op iequals_upper) [Op_set [''Amplitude'', ''AMPLITUDE'', ''Phase''], Op_remove ''phase'']
            (ProductSubsetDef [])) m} = {m. iequals_upper m ''Amplitude''}"
proof -
  have u: "upper_case ''AMPLITUDE'' = upper_case ''Amplitude''" "upper_case ''phase'' = upper_case ''Phase''"
    "upper_case ''Amplitude'' \<noteq> upper_case ''Phase''"
    by code_simp+
  have e: "iequals_upper m ''AMPLITUDE'' \<longleftrightarrow> iequals_upper m ''Amplitude''"
    "iequals_upper m ''phase'' \<longleftrightarrow> iequals_upper m ''Phase''"
    "iequals_upper m ''Amplitude'' \<Longrightarrow> \<not> iequals_upper m ''Phase''" for m
    using u(3) by (simp_all add: iequals_upper_def u(1,2))
  have "fold (meant iequals_upper) [Op_set [''Amplitude'', ''AMPLITUDE'', ''Phase''], Op_remove ''phase''] {}
      = {m. iequals_upper m ''Amplitude''}"
    using e by (auto simp: named_def)
  then show ?thesis
    using node_names_refine_set [OF iequals_upper_equality, of
        "[Op_set [''Amplitude'', ''AMPLITUDE'', ''Phase''], Op_remove ''phase'']" "[]"] by simp
qed

section \<open>The size of the sub-sampled scene\<close>

text \<open>What the size is taken from.\<close>

definition scene_size :: "subset_def \<Rightarrow> int \<Rightarrow> int \<Rightarrow> string \<Rightarrow> int \<times> int \<Rightarrow> bool" where
  "scene_size d max_width max_height band wh \<longleftrightarrow>
     (case map_of (region_map d) band of
        Some r \<Rightarrow> band \<noteq> [] \<and> wh = (cwidth r, cheight r) \<or> band = []
      | None \<Rightarrow> True) \<and>
     (band = [] \<or> map_of (region_map d) band = None \<longrightarrow>
        (if \<exists>n\<in>set (node_name_list d). map_of (region_map d) n \<noteq> None
         then \<exists>n\<in>set (node_name_list d). \<exists>r. map_of (region_map d) n = Some r \<and> wh = (cwidth r, cheight r) \<and>
                (\<forall>m\<in>set (node_name_list d). \<forall>q. map_of (region_map d) m = Some q \<longrightarrow> cheight q \<le> cheight r)
         else wh = (case subset_region d of
                      Some p \<Rightarrow> (cwidth (GetPixelRegion p), cheight (GetPixelRegion p))
                    | None \<Rightarrow> (max_width, max_height))))"

lemma highest_region_spec:
  assumes "\<forall>r\<in>ran (map_of (region_map d)). 1 \<le> cheight r"
  shows "if \<exists>n\<in>set (node_name_list d). map_of (region_map d) n \<noteq> None
         then \<exists>n\<in>set (node_name_list d). \<exists>r. map_of (region_map d) n = Some r \<and>
                highest_region d = (cwidth r, cheight r) \<and>
                (\<forall>m\<in>set (node_name_list d). \<forall>q. map_of (region_map d) m = Some q \<longrightarrow> cheight q \<le> cheight r)
         else highest_region d = (-1, -1)"
proof -
  define f where "f = (\<lambda>node_name (aux_width, aux_height).
             case map_of (region_map d) node_name of
               None \<Rightarrow> (aux_width, aux_height)
             | Some rec \<Rightarrow> if aux_height < cheight rec then (cwidth rec, cheight rec) else (aux_width, aux_height))"
  have pos: "map_of (region_map d) n = Some r \<Longrightarrow> 1 \<le> cheight r" for n r using assms by (auto simp: ran_def)
  have "if \<exists>n\<in>set ns. map_of (region_map d) n \<noteq> None
        then \<exists>n\<in>set ns. \<exists>r. map_of (region_map d) n = Some r \<and> fold f ns (-1, -1) = (cwidth r, cheight r) \<and>
               (\<forall>m\<in>set ns. \<forall>q. map_of (region_map d) m = Some q \<longrightarrow> cheight q \<le> cheight r)
        else fold f ns (-1, -1) = (-1, -1)" for ns
  proof (induction ns rule: rev_induct)
    case Nil
    then show ?case by simp
  next
    case (snoc n ns)
    show ?case
    proof (cases "map_of (region_map d) n")
      case None
      then show ?thesis using snoc by (simp add: f_def split: if_splits) auto
    next
      case (Some r)
      show ?thesis
      proof (cases "\<exists>n\<in>set ns. map_of (region_map d) n \<noteq> None")
        case True
        then obtain k q where k: "k \<in> set ns" "map_of (region_map d) k = Some q"
          "fold f ns (-1, -1) = (cwidth q, cheight q)"
          "\<forall>m\<in>set ns. \<forall>q'. map_of (region_map d) m = Some q' \<longrightarrow> cheight q' \<le> cheight q"
          using snoc by auto
        show ?thesis
        proof (cases "cheight q < cheight r")
          case True
          then have "fold f (ns @ [n]) (-1, -1) = (cwidth r, cheight r)" using Some k(3) by (simp add: f_def)
          then show ?thesis using Some k(4) True by fastforce
        next
          case False
          then have "fold f (ns @ [n]) (-1, -1) = (cwidth q, cheight q)" using Some k(3) by (simp add: f_def)
          then show ?thesis using Some k(1,2,4) False by fastforce
        qed
      next
        case False
        then have "fold f (ns @ [n]) (-1, -1) = (cwidth r, cheight r)"
          using snoc Some pos [OF Some] by (simp add: f_def)
        then show ?thesis using Some False by fastforce
      qed
    qed
  qed
  from this [of "node_name_list d"] show ?thesis by (simp only: highest_region_def f_def)
qed

lemma c_div_count:
  assumes "1 \<le> n" and "1 \<le> s"
  shows "c_div (n - 1) s + 1 = int (card {k. 0 \<le> k \<and> k < n \<and> k mod s = 0})"
proof -
  let ?q = "(n - 1) div s"
  have q: "c_div (n - 1) s = ?q" using assms by (intro c_div_nonneg) simp_all
  have q0: "0 \<le> ?q" using assms by (simp add: pos_imp_zdiv_nonneg_iff)
  have "{k. 0 \<le> k \<and> k < n \<and> k mod s = 0} = (\<lambda>j. j * s) ` {0..?q}"
  proof (intro set_eqI iffI)
    fix k assume "k \<in> {k. 0 \<le> k \<and> k < n \<and> k mod s = 0}"
    then have k: "0 \<le> k" "k \<le> n - 1" "k = (k div s) * s" by auto
    then have "k div s \<le> ?q" "0 \<le> k div s"
      using assms by (simp_all add: zdiv_mono1 pos_imp_zdiv_nonneg_iff)
    then show "k \<in> (\<lambda>j. j * s) ` {0..?q}" using k(3) by auto
  next
    fix k assume "k \<in> (\<lambda>j. j * s) ` {0..?q}"
    then obtain j where "k = j * s" "j \<in> {0..?q}" by (rule imageE)
    then have j: "k = j * s" "0 \<le> j" "j \<le> ?q" by simp_all
    have "j * s \<le> ?q * s" using j assms by (intro mult_right_mono) simp_all
    also have "?q * s \<le> n - 1"
      using assms pos_mod_sign [of s "n - 1"] by (simp add: minus_mod_eq_div_mult [symmetric] del: pos_mod_sign)
    finally show "k \<in> {k. 0 \<le> k \<and> k < n \<and> k mod s = 0}" using j assms by simp
  qed
  moreover have "inj_on (\<lambda>j. j * s) {0..?q}" using assms by (intro inj_onI) simp
  ultimately have "int (card {k. 0 \<le> k \<and> k < n \<and> k mod s = 0}) = ?q + 1" using q0 by (simp add: card_image)
  then show ?thesis using q by simp
qed

text \<open>
  The size of a sub-sampled scene: with positive sizes, \<open>GetSceneRasterSize\<close> returns the number of
  columns and of rows that a step of the sub-sampling visits, of the band's region if it has one, else
  of the highest region of a selected node, else of the pixel region, else of the given maximum.
\<close>
theorem GetSceneRasterSize_counts:
  assumes "1 \<le> sub_sampling_x d" and "1 \<le> sub_sampling_y d" and "1 \<le> max_width" and "1 \<le> max_height"
    and "\<forall>r\<in>ran (map_of (region_map d)). 1 \<le> cwidth r \<and> 1 \<le> cheight r"
    and "\<forall>p. subset_region d = Some p \<longrightarrow> 1 \<le> cwidth (GetPixelRegion p) \<and> 1 \<le> cheight (GetPixelRegion p)"
  shows "\<exists>w h. scene_size d max_width max_height band (w, h) \<and>
           GetSceneRasterSize d max_width max_height band =
             (int (card {k. 0 \<le> k \<and> k < w \<and> k mod sub_sampling_x d = 0}),
              int (card {k. 0 \<le> k \<and> k < h \<and> k mod sub_sampling_y d = 0}))"
proof -
  let ?def = "case subset_region d of
                Some p \<Rightarrow> (cwidth (GetPixelRegion p), cheight (GetPixelRegion p))
              | None \<Rightarrow> (max_width, max_height)"
  let ?some = "\<exists>n\<in>set (node_name_list d). map_of (region_map d) n \<noteq> None"
  define wh where "wh = (if band \<noteq> [] \<and> map_of (region_map d) band \<noteq> None
      then (cwidth (the (map_of (region_map d) band)), cheight (the (map_of (region_map d) band)))
      else if ?some then highest_region d else ?def)"
  have h: "\<forall>r\<in>ran (map_of (region_map d)). 1 \<le> cheight r" using assms(5) by blast
  note hr = highest_region_spec [OF h]
  have ran: "map_of (region_map d) n = Some r \<Longrightarrow> 1 \<le> cwidth r \<and> 1 \<le> cheight r" for n r
    using assms(5) by (auto simp: ran_def)
  have "1 \<le> fst ?def \<and> 1 \<le> snd ?def" using assms(3,4,6) by (cases "subset_region d") simp_all
  moreover have high: "1 \<le> fst (highest_region d) \<and> 1 \<le> snd (highest_region d)" if some: ?some
  proof -
    obtain n r where "map_of (region_map d) n = Some r" "highest_region d = (cwidth r, cheight r)"
      using hr [unfolded if_P [OF some]] by blast
    then show ?thesis using ran by simp
  qed
  ultimately have pos: "1 \<le> fst wh" "1 \<le> snd wh" using ran by (auto simp: wh_def)
  have "scene_size d max_width max_height band wh"
    using hr by (auto simp: scene_size_def wh_def split: option.split)
  moreover have "GetSceneRasterSize d max_width max_height band =
      (c_div (fst wh - 1) (sub_sampling_x d) + 1, c_div (snd wh - 1) (sub_sampling_y d) + 1)"
  proof (cases "region_map d = []")
    case True
    then show ?thesis by (simp add: GetSceneRasterSize_def wh_def Let_def split: option.split)
  next
    case False
    show ?thesis
    proof (cases ?some)
      case True
      then have "fst (highest_region d) \<noteq> -1" "snd (highest_region d) \<noteq> -1" using high by auto
      then show ?thesis using True False
        by (auto simp: GetSceneRasterSize_def wh_def Let_def split: prod.split)
    next
      case no: False
      then have "highest_region d = (-1, -1)" using hr by auto
      then show ?thesis using no False
        by (auto simp: GetSceneRasterSize_def wh_def Let_def split: prod.split)
    qed
  qed
  ultimately show ?thesis
    using c_div_count [OF pos(1) assms(1)] c_div_count [OF pos(2) assms(2)]
    by (intro exI [of _ "fst wh"] exI [of _ "snd wh"]) simp
qed

lemma GetSceneRasterSize_counts_witness:
  "GetSceneRasterSize (ProductSubsetDef []\<lparr>sub_sampling_x := 3\<rparr>) 10 7 [] = (4, 7)"
proof -
  let ?d = "ProductSubsetDef []\<lparr>sub_sampling_x := 3\<rparr>"
  have "\<exists>w h. scene_size ?d 10 7 [] (w, h) \<and>
      GetSceneRasterSize ?d 10 7 [] =
        (int (card {k. 0 \<le> k \<and> k < w \<and> k mod sub_sampling_x ?d = 0}),
         int (card {k. 0 \<le> k \<and> k < h \<and> k mod sub_sampling_y ?d = 0}))"
    by (rule GetSceneRasterSize_counts) (simp_all add: ProductSubsetDef_def)
  then show ?thesis
    using c_div_count [of 10 3] c_div_count [of 7 1] by (auto simp: scene_size_def ProductSubsetDef_def)
qed

end
