(* ===== verification/Nodes.thy ===== *)
theory Nodes
  imports CStrings
begin

text \<open>
  The tree of product nodes (\<^verbatim>\<open>product_node.cc\<close>, \<^verbatim>\<open>product_node_list.cc\<close>, \<^verbatim>\<open>product_node_group.cc\<close> and the
  modification flag of \<^verbatim>\<open>product.cc\<close>). The nodes live in a store, a list of objects; a pointer is a
  position in it, so that two nodes may hold the same object. A node knows its owner by a plain
  pointer and passes on that it was modified; a group holds a list of nodes and becomes their owner.

  Names are compared with \<open>boost::iequals\<close> and trimmed with \<open>boost::algorithm::trim\<close>, both parameters.
  Of the template instantiations of the group those of the product (bands, grids, masks, codings,
  quicklooks) and of metadata elements are meant: the class of their nodes does not override
  \<open>SetModified\<close>.
\<close>

section \<open>The store\<close>

type_synonym ref = nat

record data_node =
  data_type :: int
  num_elems :: int
  read_only :: bool
  node_unit :: "string option"
  synthetic :: "bool option"
  data_ref :: "ref option"

record product_groups =
  band_group :: ref
  tie_point_grid_group :: ref
  mask_group :: ref
  quicklook_group :: ref
  flag_coding_group :: ref
  index_coding_group :: ref
  metadata_root :: ref

text \<open>
  What the classes add to a node: nothing (bands and the like), a group its list, removed nodes and
  ownership flag, a metadata element its two groups, an attribute its data, a product its members.
\<close>

datatype body =
    Plain
  | Group "ref list" "ref list" bool
  | Element "ref option" "ref option"
  | Attribute data_node
  | Product product_groups

record node =
  node_name :: string
  description :: "string option"
  owner :: "ref option"
  modified :: bool
  cached_product :: "ref option"
  body :: body

type_synonym store = "node list"

definition node_at :: "store \<Rightarrow> ref \<Rightarrow> node res" where
  "node_at ns i = (if i < length ns then Inr (ns ! i) else Inl Undefined_behaviour)"

definition update_node :: "(node \<Rightarrow> node) \<Rightarrow> ref \<Rightarrow> store \<Rightarrow> store" where
  "update_node f i ns = (if i < length ns then ns[i := f (ns ! i)] else ns)"

section \<open>ProductNode\<close>

definition ProductNode ::
  "(string \<Rightarrow> string) \<Rightarrow> string \<Rightarrow> string option \<Rightarrow> body \<Rightarrow> store \<Rightarrow> (ref \<times> store) res" where
  "ProductNode trim name descr b ns =
     bind_res (guard (trim name \<noteq> []) Invalid_argument) (\<lambda>_.
       Inr (length ns, ns @ [\<lparr>node_name = name, description = descr, owner = None, modified = False, cached_product = None, body = b\<rparr>]))"

definition SetDescription :: "ref \<Rightarrow> string option \<Rightarrow> store \<Rightarrow> store" where
  "SetDescription i descr = update_node (\<lambda>n. n\<lparr>description := descr\<rparr>) i"

definition SetOwner :: "ref \<Rightarrow> ref option \<Rightarrow> store \<Rightarrow> store" where
  "SetOwner i o' = update_node (\<lambda>n. if owner n \<noteq> o' then n\<lparr>owner := o'\<rparr> else n) i"

lemma fewer_unmodified:
  "i < length ns \<Longrightarrow> \<not> modified (ns ! i) \<Longrightarrow>
   length (filter (\<lambda>n. \<not> modified n) (ns[i := (ns ! i)\<lparr>modified := True\<rparr>])) <
   length (filter (\<lambda>n. \<not> modified n) ns)"
proof (induction ns arbitrary: i)
  case (Cons n ns)
  then show ?case by (cases i) auto
qed simp

text \<open>
  \<open>SetModified(true)\<close> on any node: the flag is set and the owner told, unless it was set before. The call
  ends because each step sets a flag.
\<close>

function SetModified_true :: "store \<Rightarrow> ref \<Rightarrow> store res" where
  "SetModified_true ns i =
     (if i < length ns then
        if modified (ns ! i) then Inr ns
        else let ns' = ns[i := (ns ! i)\<lparr>modified := True\<rparr>]
             in case owner (ns ! i) of
                  None \<Rightarrow> Inr ns'
                | Some o' \<Rightarrow> SetModified_true ns' o'
      else Inl Undefined_behaviour)"
  by pat_completeness auto

termination SetModified_true
  by (relation "measure (\<lambda>(ns, i). length (filter (\<lambda>n. \<not> modified n) ns))") (simp_all add: fewer_unmodified)

declare SetModified_true.simps [simp del]

text \<open>\<open>SetModified(false)\<close>: of \<open>ProductNode\<close>, of a group, and of a product.\<close>

definition node_SetModified_false :: "ref \<Rightarrow> store \<Rightarrow> store" where
  "node_SetModified_false = update_node (\<lambda>n. n\<lparr>modified := False\<rparr>)"

definition group_SetModified_false :: "ref \<Rightarrow> store \<Rightarrow> store res" where
  "group_SetModified_false g ns =
     bind_res (node_at ns g) (\<lambda>n.
       case body n of
         Group kids removed own \<Rightarrow>
           if modified n then
             let ns1 = fold node_SetModified_false kids ns;
                 ns2 = update_node (\<lambda>n. n\<lparr>body := Group kids [] own\<rparr>) g ns1
             in Inr (node_SetModified_false g ns2)
           else Inr ns
       | _ \<Rightarrow> Inl Undefined_behaviour)"

definition product_SetModified_false :: "ref \<Rightarrow> store \<Rightarrow> store res" where
  "product_SetModified_false p ns =
     bind_res (node_at ns p) (\<lambda>n.
       case body n of
         Product m \<Rightarrow>
           if modified n then
             bind_res (fold_res group_SetModified_false
                         [band_group m, tie_point_grid_group m, mask_group m, quicklook_group m,
                          flag_coding_group m, index_coding_group m] (node_SetModified_false p ns)) (\<lambda>ns'.
               Inr (node_SetModified_false (metadata_root m) ns'))
           else Inr ns
       | _ \<Rightarrow> Inl Undefined_behaviour)"

section \<open>ProductNodeList and ProductNodeGroup\<close>

text \<open>Names of the nodes of a list, and the searches in it.\<close>

definition GetNames :: "store \<Rightarrow> ref list \<Rightarrow> string list res" where
  "GetNames ns = map_res (\<lambda>i. bind_res (node_at ns i) (\<lambda>n. Inr (node_name n)))"

definition IndexOf_name :: "(string \<Rightarrow> string \<Rightarrow> bool) \<Rightarrow> store \<Rightarrow> ref list \<Rightarrow> string \<Rightarrow> int res" where
  "IndexOf_name ieq ns kids name =
     bind_res (guard (name \<noteq> []) Invalid_argument) (\<lambda>_.
       Inr (first_index (\<lambda>i. ieq (node_name (ns ! i)) name) kids))"

definition Get_name :: "(string \<Rightarrow> string \<Rightarrow> bool) \<Rightarrow> store \<Rightarrow> ref list \<Rightarrow> string \<Rightarrow> ref option res" where
  "Get_name ieq ns kids name =
     bind_res (IndexOf_name ieq ns kids name) (\<lambda>index.
       Inr (if index \<ge> 0 then Some (kids ! nat index) else None))"

definition Contains_name :: "(string \<Rightarrow> string \<Rightarrow> bool) \<Rightarrow> store \<Rightarrow> ref list \<Rightarrow> string \<Rightarrow> bool res" where
  "Contains_name ieq ns kids name = bind_res (IndexOf_name ieq ns kids name) (\<lambda>i. Inr (i \<ge> 0))"

definition IndexOf_node :: "ref list \<Rightarrow> ref option \<Rightarrow> int res" where
  "IndexOf_node kids node =
     (case node of None \<Rightarrow> Inl Invalid_argument | Some i \<Rightarrow> Inr (first_index (\<lambda>k. k = i) kids))"

definition list_Add :: "ref option \<Rightarrow> ref list \<Rightarrow> ref list \<times> bool" where
  "list_Add node kids = (case node of None \<Rightarrow> (kids, False) | Some i \<Rightarrow> (kids @ [i], True))"

definition list_Add_at :: "int \<Rightarrow> ref \<Rightarrow> ref list \<Rightarrow> ref list res" where
  "list_Add_at index i kids =
     (if 0 \<le> index \<and> index \<le> int (length kids)
      then Inr (take (nat index) kids @ i # drop (nat index) kids) else Inl Undefined_behaviour)"

definition list_Remove :: "ref option \<Rightarrow> ref list \<times> ref list \<Rightarrow> (ref list \<times> ref list) \<times> bool" where
  "list_Remove node nodes_and_removed =
     (case (node, nodes_and_removed) of
        (None, _) \<Rightarrow> (nodes_and_removed, False)
      | (Some i, (kids, removed)) \<Rightarrow>
          if i \<in> set kids then ((remove1 i kids, removed @ [i]), True) else (nodes_and_removed, False))"

definition list_RemoveAll :: "ref list \<times> ref list \<Rightarrow> ref list \<times> ref list" where
  "list_RemoveAll nodes_and_removed = ([], snd nodes_and_removed @ fst nodes_and_removed)"

text \<open>The group's own operations.\<close>

definition ProductNodeGroup ::
  "(string \<Rightarrow> string) \<Rightarrow> ref option \<Rightarrow> string \<Rightarrow> bool \<Rightarrow> store \<Rightarrow> (ref \<times> store) res" where
  "ProductNodeGroup trim own name taking_over ns =
     bind_res (ProductNode trim name (Some []) (Group [] [] taking_over) ns) (\<lambda>(g, ns').
       Inr (g, SetOwner g own ns'))"

definition group_at :: "store \<Rightarrow> ref \<Rightarrow> (ref list \<times> ref list \<times> bool) res" where
  "group_at ns g =
     bind_res (node_at ns g) (\<lambda>n.
       case body n of Group kids removed own \<Rightarrow> Inr (kids, removed, own) | _ \<Rightarrow> Inl Undefined_behaviour)"

definition group_Add :: "ref \<Rightarrow> ref option \<Rightarrow> store \<Rightarrow> (bool \<times> store) res" where
  "group_Add g node ns =
     (case node of
        None \<Rightarrow> Inl Invalid_argument
      | Some i \<Rightarrow>
          bind_res (group_at ns g) (\<lambda>(kids, removed, own).
            let (kids', added) = list_Add node kids;
                ns1 = update_node (\<lambda>n. n\<lparr>body := Group kids' removed own\<rparr>) g ns
            in if added then
                 let ns2 = (if own then SetOwner i (Some g) ns1 else ns1)
                 in bind_res (SetModified_true ns2 g) (\<lambda>ns3. Inr (True, ns3))
               else Inr (False, ns1)))"

definition group_Add_at :: "ref \<Rightarrow> int \<Rightarrow> ref option \<Rightarrow> store \<Rightarrow> store res" where
  "group_Add_at g index node ns =
     (case node of
        None \<Rightarrow> Inl Invalid_argument
      | Some i \<Rightarrow>
          bind_res (group_at ns g) (\<lambda>(kids, removed, own).
          bind_res (list_Add_at index i kids) (\<lambda>kids'.
            let ns1 = update_node (\<lambda>n. n\<lparr>body := Group kids' removed own\<rparr>) g ns;
                ns2 = (if own then SetOwner i (Some g) ns1 else ns1)
            in SetModified_true ns2 g)))"

definition group_Remove :: "ref \<Rightarrow> ref option \<Rightarrow> store \<Rightarrow> (bool \<times> store) res" where
  "group_Remove g node ns =
     (case node of
        None \<Rightarrow> Inl Invalid_argument
      | Some i \<Rightarrow>
          bind_res (group_at ns g) (\<lambda>(kids, removed, own).
            case list_Remove node (kids, removed) of
              ((kids', removed'), r) \<Rightarrow>
                if r then
                  let ns1 = update_node (\<lambda>n. n\<lparr>body := Group kids' removed' own\<rparr>) g ns
                  in bind_res (node_at ns1 i) (\<lambda>n.
                       let ns2 = (if own \<and> owner n = Some g then SetOwner i None ns1 else ns1)
                       in bind_res (SetModified_true ns2 g) (\<lambda>ns3. Inr (True, ns3)))
                else Inr (False, ns)))"

section \<open>Names\<close>

definition IsValidNodeName :: "(string \<Rightarrow> string \<Rightarrow> bool) \<Rightarrow> (string \<Rightarrow> string) \<Rightarrow> string \<Rightarrow> bool" where
  "IsValidNodeName ieq trim name =
     (if name = [] \<or> ieq ''or'' name \<or> ieq ''and'' name \<or> ieq ''not'' name then False
      else let bad = set [CHR 0x5C, CHR ''/'', CHR '':'', CHR ''*'', CHR ''?'', CHR 0x22, CHR ''<'', CHR ''>'', CHR ''|'']
           in case trim name of
                [] \<Rightarrow> False
              | c # cs \<Rightarrow> c \<notin> bad \<and> c \<noteq> CHR ''.'' \<and> (\<forall>d\<in>set cs. d \<notin> bad))"

text \<open>
  The product of a node is searched for along the owners, the node itself included; \<open>None\<close> means that the
  search does not end, which needs a cycle of owners. What was found is kept in \<open>product_\<close> and returned from
  then on, whoever owns the node by then.
\<close>

partial_function (option) owning_product :: "store \<Rightarrow> ref \<Rightarrow> ref option res option" where
  "owning_product ns i =
     (if i < length ns then
        case body (ns ! i) of
          Product m \<Rightarrow> Some (Inr (Some i))
        | _ \<Rightarrow> (case owner (ns ! i) of
                  None \<Rightarrow> Some (Inr None)
                | Some o' \<Rightarrow> owning_product ns o')
      else Some (Inl Undefined_behaviour))"

definition GetProduct :: "store \<Rightarrow> ref \<Rightarrow> (ref option \<times> store) res option" where
  "GetProduct ns i =
     (if i < length ns then
        case cached_product (ns ! i) of
          Some p \<Rightarrow> Some (Inr (Some p, ns))
        | None \<Rightarrow>
            (case owning_product ns i of
               None \<Rightarrow> None
             | Some found \<Rightarrow> Some (
                 bind_res found (\<lambda>p. Inr (p, update_node (\<lambda>n. n\<lparr>cached_product := p\<rparr>) i ns))))
      else Some (Inl Undefined_behaviour))"

definition ContainsRasterDataNode ::
  "(string \<Rightarrow> string \<Rightarrow> bool) \<Rightarrow> store \<Rightarrow> product_groups \<Rightarrow> string \<Rightarrow> bool res" where
  "ContainsRasterDataNode ieq ns m name =
     bind_res (group_at ns (band_group m)) (\<lambda>(bands, _).
     bind_res (Contains_name ieq ns bands name) (\<lambda>b. if b then Inr True else
     bind_res (group_at ns (tie_point_grid_group m)) (\<lambda>(grids, _).
     bind_res (Contains_name ieq ns grids name) (\<lambda>b. if b then Inr True else
     bind_res (group_at ns (mask_group m)) (\<lambda>(masks, _). Contains_name ieq ns masks name)))))"

definition SetNodeName ::
  "(string \<Rightarrow> string \<Rightarrow> bool) \<Rightarrow> (string \<Rightarrow> string) \<Rightarrow> ref \<Rightarrow> string \<Rightarrow> bool \<Rightarrow> store \<Rightarrow> store res option" where
  "SetNodeName ieq trim i trimmed_name silent ns =
     (if trimmed_name = [] then Some (Inl Invalid_argument)
      else if i < length ns \<and> node_name (ns ! i) \<noteq> trimmed_name then
        case GetProduct ns i of
          None \<Rightarrow> None
        | Some product \<Rightarrow> Some (
            bind_res product (\<lambda>(p, ns).
            bind_res
              (case p of
                 None \<Rightarrow> Inr False
               | Some q \<Rightarrow> bind_res (node_at ns q) (\<lambda>n. case body n of
                     Product m \<Rightarrow> ContainsRasterDataNode ieq ns m trimmed_name | _ \<Rightarrow> Inl Undefined_behaviour)) (\<lambda>taken.
              if taken then Inl Invalid_argument
              else if \<not> IsValidNodeName ieq trim trimmed_name then Inl Invalid_argument
              else let ns1 = update_node (\<lambda>n. n\<lparr>node_name := trimmed_name\<rparr>) i ns
                   in if silent then Inr ns1 else SetModified_true ns1 i)))
      else Some (Inr ns))"

definition SetName ::
  "(string \<Rightarrow> string \<Rightarrow> bool) \<Rightarrow> (string \<Rightarrow> string) \<Rightarrow> ref \<Rightarrow> string \<Rightarrow> store \<Rightarrow> store res option" where
  "SetName ieq trim i name ns =
     (if name = [] then Some (Inl Invalid_argument) else SetNodeName ieq trim i (trim name) False ns)"

section \<open>Products\<close>

definition METADATA_ROOT_NAME :: string where
  "METADATA_ROOT_NAME = ''metadata''"

definition InitProductMembers :: "(string \<Rightarrow> string) \<Rightarrow> ref \<Rightarrow> ref \<Rightarrow> store \<Rightarrow> store res" where
  "InitProductMembers trim p meta ns =
     (let ns = SetOwner meta (Some p) ns
      in bind_res (ProductNodeGroup trim (Some p) ''bands'' True ns) (\<lambda>(bands, ns).
         bind_res (ProductNodeGroup trim (Some p) ''tie_point_grids'' True ns) (\<lambda>(grids, ns).
         bind_res (ProductNodeGroup trim (Some p) ''index_codings'' True ns) (\<lambda>(indices, ns).
         bind_res (ProductNodeGroup trim (Some p) ''flag_codings'' True ns) (\<lambda>(flags, ns).
         bind_res (ProductNodeGroup trim (Some p) ''masks'' True ns) (\<lambda>(masks, ns).
         bind_res (ProductNodeGroup trim (Some p) ''quicklooks'' True ns) (\<lambda>(quicklooks, ns).
         bind_res (ProductNodeGroup trim (Some p) ''groups'' False ns) (\<lambda>(groups, ns).
           let m = \<lparr>band_group = bands, tie_point_grid_group = grids, mask_group = masks, quicklook_group = quicklooks,
                    flag_coding_group = flags, index_coding_group = indices, metadata_root = meta\<rparr>;
               ns = update_node (\<lambda>n. n\<lparr>body := Product m\<rparr>) p ns
           in bind_res (fold_res (\<lambda>g ns. bind_res (group_Add groups (Some g) ns) (\<lambda>(_, ns). Inr ns))
                          [bands, quicklooks, grids, indices, flags, masks] ns)
                (product_SetModified_false p)))))))))"

definition CreateProduct :: "(string \<Rightarrow> string) \<Rightarrow> string \<Rightarrow> string \<Rightarrow> store \<Rightarrow> (ref \<times> store) res" where
  "CreateProduct trim name type ns =
     bind_res (ProductNode trim name None Plain ns) (\<lambda>(p, ns).
     bind_res (guard (type \<noteq> []) Invalid_argument) (\<lambda>_.
     bind_res (ProductNode trim METADATA_ROOT_NAME None (Element None None) ns) (\<lambda>(meta, ns).
     bind_res (InitProductMembers trim p meta ns) (\<lambda>ns. Inr (p, ns)))))"

section \<open>The modification flags\<close>

text \<open>Pointers to owners lead into the store.\<close>

definition refs_ok :: "store \<Rightarrow> bool" where
  "refs_ok ns \<longleftrightarrow> (\<forall>n\<in>set ns. \<forall>q. owner n = Some q \<longrightarrow> q < length ns)"

text \<open>Two stores that differ in the flags only, no flag being taken back.\<close>

definition flags_grow :: "store \<Rightarrow> store \<Rightarrow> bool" where
  "flags_grow ns ns' \<longleftrightarrow>
     length ns' = length ns \<and>
     (\<forall>i < length ns. ns' ! i = ns ! i \<or> ns' ! i = (ns ! i)\<lparr>modified := True\<rparr>)"

lemma flags_grow_fields:
  assumes "flags_grow ns ns'" and "i < length ns"
  shows "node_name (ns' ! i) = node_name (ns ! i)" "owner (ns' ! i) = owner (ns ! i)"
    "body (ns' ! i) = body (ns ! i)" "description (ns' ! i) = description (ns ! i)"
    "modified (ns ! i) \<Longrightarrow> modified (ns' ! i)"
  using assms unfolding flags_grow_def by (auto dest!: spec [of _ i])

lemma refs_ok_nth: "refs_ok ns \<longleftrightarrow> (\<forall>j < length ns. \<forall>q. owner (ns ! j) = Some q \<longrightarrow> q < length ns)"
  by (simp add: refs_ok_def all_set_conv_all_nth)

lemma flags_grow_refs: "flags_grow ns ns' \<Longrightarrow> refs_ok ns \<Longrightarrow> refs_ok ns'"
  using flags_grow_fields(2) [of ns ns'] by (auto simp: refs_ok_nth flags_grow_def)

lemma refs_ok_owner: "refs_ok ns \<Longrightarrow> i < length ns \<Longrightarrow> owner (ns ! i) = Some q \<Longrightarrow> q < length ns"
  by (auto simp: refs_ok_nth)

text \<open>
  The nodes that learn of a change of \<open>i\<close>: the node itself and the owners above it, as long as they are
  unmodified; a node that is modified already ends the way up.
\<close>

inductive learns :: "store \<Rightarrow> ref \<Rightarrow> ref \<Rightarrow> bool" for ns i where
  Self: "i < length ns \<Longrightarrow> \<not> modified (ns ! i) \<Longrightarrow> learns ns i i"
| Owner: "learns ns i j \<Longrightarrow> owner (ns ! j) = Some q \<Longrightarrow> q < length ns \<Longrightarrow> \<not> modified (ns ! q) \<Longrightarrow> learns ns i q"

lemma learns_unmodified: "learns ns i j \<Longrightarrow> j < length ns \<and> i < length ns \<and> \<not> modified (ns ! j) \<and> \<not> modified (ns ! i)"
  by (induction rule: learns.induct) auto

lemma learns_step:
  assumes i: "i < length ns" "\<not> modified (ns ! i)" and o': "owner (ns ! i) = Some q"
  shows "learns ns i j \<longleftrightarrow> j = i \<or> learns (ns[i := (ns ! i)\<lparr>modified := True\<rparr>]) q j" (is "_ = (_ \<or> learns ?ns _ _)")
proof
  assume "learns ns i j"
  then show "j = i \<or> learns ?ns q j"
  proof (induction rule: learns.induct)
    case (Owner j r)
    show ?case
    proof (cases "r = i")
      case False
      then have r: "r < length ?ns" "\<not> modified (?ns ! r)" using Owner.hyps by simp_all
      from Owner.IH show ?thesis
      proof
        assume "j = i"
        then have "r = q" using Owner.hyps(2) o' by simp
        then show ?thesis using r learns.Self by blast
      next
        assume l: "learns ?ns q j"
        then have "j \<noteq> i" using learns_unmodified [OF l] i by auto
        then have "owner (?ns ! j) = Some r" using Owner.hyps(2) by simp
        then show ?thesis using learns.Owner [OF l _ r] by blast
      qed
    qed simp
  qed simp
next
  assume "j = i \<or> learns ?ns q j"
  moreover have "learns ns i j" if "learns ?ns q j"
    using that
  proof (induction rule: learns.induct)
    case Self
    then have "q \<noteq> i" using i by auto
    then show ?case using Self learns.Owner [OF learns.Self [OF i] o'] by simp
  next
    case (Owner j r)
    then have "r \<noteq> i" "j \<noteq> i" using i learns_unmodified [OF Owner.hyps(1)] by auto
    then show ?case using Owner learns.Owner [of ns i j r] by simp
  qed
  ultimately show "learns ns i j" using learns.Self [OF i] by blast
qed

text \<open>\<open>SetModified(true)\<close> sets the flags of exactly these nodes.\<close>

definition told_all :: "store \<Rightarrow> ref \<Rightarrow> store \<Rightarrow> bool" where
  "told_all ns i ns' \<longleftrightarrow> length ns' = length ns \<and>
     (\<forall>j < length ns. (learns ns i j \<longrightarrow> ns' ! j = (ns ! j)\<lparr>modified := True\<rparr>) \<and> (\<not> learns ns i j \<longrightarrow> ns' ! j = ns ! j))"

lemma told_allI:
  "length ns' = length ns \<Longrightarrow> (\<And>j. j < length ns \<Longrightarrow> learns ns i j \<Longrightarrow> ns' ! j = (ns ! j)\<lparr>modified := True\<rparr>) \<Longrightarrow>
   (\<And>j. j < length ns \<Longrightarrow> \<not> learns ns i j \<Longrightarrow> ns' ! j = ns ! j) \<Longrightarrow> told_all ns i ns'"
  by (simp add: told_all_def)

lemma SetModified_true_spec:
  "refs_ok ns \<Longrightarrow> i < length ns \<Longrightarrow> \<exists>ns'. SetModified_true ns i = Inr ns' \<and> told_all ns i ns'"
proof (induction ns i rule: SetModified_true.induct)
  case (1 ns i)
  note i = \<open>i < length ns\<close>
  show ?case
  proof (cases "modified (ns ! i)")
    case True
    then have "told_all ns i ns" using learns_unmodified [of ns i] by (simp add: told_all_def) blast
    then show ?thesis using True i by (simp add: SetModified_true.simps [of ns i])
  next
    case False
    let ?ns = "ns[i := (ns ! i)\<lparr>modified := True\<rparr>]"
    show ?thesis
    proof (cases "owner (ns ! i)")
      case None
      have "learns ns i j \<longleftrightarrow> j = i" for j
      proof
        show "learns ns i j \<Longrightarrow> j = i" by (induction rule: learns.induct) (auto simp: None)
      qed (use i False learns.Self in blast)
      then have "told_all ns i ?ns" using i by (simp add: told_all_def)
      then show ?thesis using None False i by (simp add: SetModified_true.simps [of ns i])
    next
      case (Some q)
      have r: "refs_ok ?ns" using \<open>refs_ok ns\<close> i by (simp add: refs_ok_nth nth_list_update)
      have q: "q < length ?ns" using refs_ok_owner [OF \<open>refs_ok ns\<close> i Some] by simp
      obtain ns' where ns': "SetModified_true ?ns q = Inr ns'" "told_all ?ns q ns'"
        using "1.IH" [OF i False refl Some r q] by blast
      have "\<not> learns ?ns q i" using learns_unmodified [of ?ns q i] i by auto
      then have "told_all ns i ns'"
        using ns'(2) i learns_step [OF i False Some] unfolding told_all_def
        by (metis length_list_update nth_list_update_eq nth_list_update_neq)
      then show ?thesis using False i Some ns'(1) by (simp add: SetModified_true.simps [of ns i])
    qed
  qed
qed

lemma told_all_self: "told_all ns i ns' \<Longrightarrow> i < length ns \<Longrightarrow> modified (ns' ! i)"
  unfolding told_all_def using learns.Self [of i ns] by force

lemma told_all_grow: "told_all ns i ns' \<Longrightarrow> flags_grow ns ns'"
  unfolding told_all_def flags_grow_def by blast

lemma SetModified_true_keeps:
  assumes "SetModified_true ns g = Inr ns'" and "refs_ok ns"
  shows "g < length ns" "flags_grow ns ns'" "refs_ok ns'" "modified (ns' ! g)" "told_all ns g ns'"
proof -
  show g: "g < length ns" using assms(1) by (rule contrapos_pp) (simp add: SetModified_true.simps [of ns g])
  from SetModified_true_spec [OF assms(2) g] assms(1) show t: "told_all ns g ns'" by auto
  then show f: "flags_grow ns ns'" by (rule told_all_grow)
  show "modified (ns' ! g)" using told_all_self [OF t g] .
  show "refs_ok ns'" by (rule flags_grow_refs [OF f assms(2)])
qed

text \<open>All owners above an unmodified node learn of its change if none of them is modified yet.\<close>

inductive ancestor :: "store \<Rightarrow> ref \<Rightarrow> ref \<Rightarrow> bool" for ns i where
  Owner: "i < length ns \<Longrightarrow> owner (ns ! i) = Some q \<Longrightarrow> ancestor ns i q"
| Step: "ancestor ns i q \<Longrightarrow> q < length ns \<Longrightarrow> owner (ns ! q) = Some r \<Longrightarrow> ancestor ns i r"

lemma ancestors_learn:
  assumes "refs_ok ns" and "i < length ns" "\<not> modified (ns ! i)" and "\<And>a. ancestor ns i a \<Longrightarrow> \<not> modified (ns ! a)"
    and "ancestor ns i a"
  shows "learns ns i a"
  using assms(5)
proof (induction rule: ancestor.induct)
  case (Owner q)
  then show ?case
    using learns.Owner [OF learns.Self [OF assms(2,3)], of q] assms(4) [of q] ancestor.Owner [of i ns q]
      refs_ok_owner [OF assms(1,2), of q] by blast
next
  case (Step q r)
  then show ?case
    using learns.Owner [of ns i q r] assms(4) [of r] ancestor.Step [of ns i q r] refs_ok_owner [OF assms(1), of q r] by blast
qed

lemma length_update_node [simp]: "length (update_node f i ns) = length ns"
  by (simp add: update_node_def)

lemma nth_update_node:
  "j < length ns \<Longrightarrow> update_node f i ns ! j = (if j = i then f (ns ! j) else ns ! j)"
  by (simp add: update_node_def)

lemma length_SetOwner [simp]: "length (SetOwner i q ns) = length ns"
  by (simp add: SetOwner_def)

lemma nth_SetOwner: "j < length ns \<Longrightarrow> SetOwner i q ns ! j = (if j = i then (ns ! j)\<lparr>owner := q\<rparr> else ns ! j)"
  by (simp add: SetOwner_def nth_update_node)

lemma update_keeps:
  assumes "refs_ok ns" and "\<And>n. owner (f n) = owner n"
  shows "refs_ok (update_node f i ns)"
  using assms by (auto simp: refs_ok_nth nth_update_node)

lemma SetOwner_keeps:
  assumes "refs_ok ns" and "o' = None \<or> (\<exists>q. o' = Some q \<and> q < length ns)"
  shows "refs_ok (SetOwner i o' ns)"
  using assms by (auto simp: refs_ok_nth nth_SetOwner)

lemma append_fresh:
  assumes "refs_ok ns" and "owner n = None \<or> (\<exists>q. owner n = Some q \<and> q \<le> length ns)"
  shows "refs_ok (ns @ [n])"
  using assms by (fastforce simp: refs_ok_nth nth_append)

section \<open>Groups that change\<close>

text \<open>A change of a group's lists and of the owner of one node, which the group then passes on.\<close>

definition regrouped :: "ref \<Rightarrow> ref list \<Rightarrow> ref list \<Rightarrow> bool \<Rightarrow> ref \<Rightarrow> ref option \<Rightarrow> store \<Rightarrow> store" where
  "regrouped g kids removed own i o' ns =
     update_node (\<lambda>n. n\<lparr>owner := o'\<rparr>) i (update_node (\<lambda>n. n\<lparr>body := Group kids removed own\<rparr>) g ns)"

lemma regrouped_nth:
  "length (regrouped g kids removed own i o' ns) = length ns"
  "j < length ns \<Longrightarrow> regrouped g kids removed own i o' ns ! j =
     (ns ! j)\<lparr>owner := if j = i then o' else owner (ns ! j), body := if j = g then Group kids removed own else body (ns ! j)\<rparr>"
  by (simp_all add: regrouped_def nth_update_node)

lemma regrouped_refs:
  "refs_ok ns \<Longrightarrow> o' = None \<or> (\<exists>q. o' = Some q \<and> q < length ns) \<Longrightarrow> refs_ok (regrouped g kids removed own i o' ns)"
  by (auto simp: refs_ok_nth regrouped_nth)

lemma regrouped_owner:
  "i < length ns \<Longrightarrow> regrouped g kids removed own i (owner (ns ! i)) ns = update_node (\<lambda>n. n\<lparr>body := Group kids removed own\<rparr>) g ns"
  by (rule nth_equalityI) (auto simp: regrouped_nth nth_update_node)

lemma group_at_range: "group_at ns g = Inr r \<Longrightarrow> g < length ns"
  by (simp add: group_at_def node_at_def split: if_splits)

text \<open>What such a change leaves: the lists, the owner, and the flags of all that learned of it.\<close>

definition group_changed :: "ref \<Rightarrow> ref list \<Rightarrow> ref list \<Rightarrow> bool \<Rightarrow> ref \<Rightarrow> ref option \<Rightarrow> store \<Rightarrow> store \<Rightarrow> bool" where
  "group_changed g kids removed own i o' ns ns' \<longleftrightarrow> refs_ok ns' \<and> told_all (regrouped g kids removed own i o' ns) g ns'"

lemma group_changed_parts:
  assumes c: "group_changed g kids removed own i o' ns ns'" and g: "g < length ns"
  shows "refs_ok ns'" "length ns' = length ns" "group_at ns' g = Inr (kids, removed, own)" "modified (ns' ! g)"
    "j < length ns \<Longrightarrow> owner (ns' ! j) = (if j = i then o' else owner (ns ! j))"
    "j < length ns \<Longrightarrow> node_name (ns' ! j) = node_name (ns ! j)"
    "j < length ns \<Longrightarrow> j \<noteq> g \<Longrightarrow> body (ns' ! j) = body (ns ! j)"
proof -
  let ?ns = "regrouped g kids removed own i o' ns"
  have t: "told_all ?ns g ns'" and "refs_ok ns'" using c by (simp_all add: group_changed_def)
  then show "refs_ok ns'" by simp
  note f = told_all_grow [OF t]
  show l: "length ns' = length ns" using t by (simp add: told_all_def regrouped_nth)
  show "modified (ns' ! g)" using told_all_self [OF t] g by (simp add: regrouped_nth)
  show "group_at ns' g = Inr (kids, removed, own)"
    using flags_grow_fields(3) [OF f, of g] g l by (simp add: regrouped_nth group_at_def node_at_def)
  show "owner (ns' ! j) = (if j = i then o' else owner (ns ! j))" "node_name (ns' ! j) = node_name (ns ! j)"
    "j \<noteq> g \<Longrightarrow> body (ns' ! j) = body (ns ! j)" if "j < length ns"
    using flags_grow_fields(1-3) [OF f, of j] that by (simp_all add: regrouped_nth)
qed

lemma group_changed_succeeds:
  assumes "refs_ok ns" and "g < length ns" and "o' = None \<or> (\<exists>q. o' = Some q \<and> q < length ns)"
  shows "\<exists>ns'. SetModified_true (regrouped g kids removed own i o' ns) g = Inr ns' \<and> group_changed g kids removed own i o' ns ns'"
proof -
  note r = regrouped_refs [OF assms(1,3), of g kids removed own i]
  obtain ns' where ns': "SetModified_true (regrouped g kids removed own i o' ns) g = Inr ns'"
    using SetModified_true_spec [OF r, of g] assms(2) by (auto simp: regrouped_nth)
  then show ?thesis using SetModified_true_keeps(3,5) [OF ns' r] by (auto simp: group_changed_def)
qed

definition new_owner :: "bool \<Rightarrow> ref \<Rightarrow> ref \<Rightarrow> store \<Rightarrow> ref option" where
  "new_owner own g i ns = (if own then Some g else owner (ns ! i))"

lemma taking_over:
  assumes "i < length ns"
  shows "(if own then SetOwner i (Some g) (update_node (\<lambda>n. n\<lparr>body := Group kids removed own\<rparr>) g ns)
          else update_node (\<lambda>n. n\<lparr>body := Group kids removed own\<rparr>) g ns) = regrouped g kids removed own i (new_owner own g i ns) ns"
  by (rule nth_equalityI) (auto simp: regrouped_nth nth_SetOwner nth_update_node new_owner_def)

lemma new_owner_range:
  "refs_ok ns \<Longrightarrow> i < length ns \<Longrightarrow> g < length ns \<Longrightarrow>
   new_owner own g i ns = None \<or> (\<exists>q. new_owner own g i ns = Some q \<and> q < length ns)"
  using refs_ok_owner [of ns i] by (cases "owner (ns ! i)") (auto simp: new_owner_def)

lemma taken_over:
  assumes "group_at ns g = Inr (kids, removed, own)" and "refs_ok ns" and "i < length ns"
  obtains ns' where "SetModified_true (regrouped g kids' removed own i (new_owner own g i ns) ns) g = Inr ns'"
    "group_changed g kids' removed own i (new_owner own g i ns) ns ns'"
  using group_changed_succeeds [OF assms(2) group_at_range [OF assms(1)]
      new_owner_range [OF assms(2,3) group_at_range [OF assms(1)], of own]] by blast

lemma group_Add_spec:
  assumes "group_at ns g = Inr (kids, removed, own)" and "refs_ok ns" and "i < length ns"
  shows "\<exists>ns'. group_Add g (Some i) ns = Inr (True, ns') \<and>
    group_changed g (kids @ [i]) removed own i (new_owner own g i ns) ns ns'"
  by (rule taken_over [OF assms, of "kids @ [i]"])
    (simp add: group_Add_def assms(1) list_Add_def Let_def taking_over [OF assms(3)])

lemma group_Add_at_spec:
  assumes "group_at ns g = Inr (kids, removed, own)" and "refs_ok ns" and "i < length ns"
    and "list_Add_at index i kids = Inr kids'"
  shows "\<exists>ns'. group_Add_at g index (Some i) ns = Inr ns' \<and>
    group_changed g kids' removed own i (new_owner own g i ns) ns ns'"
  by (rule taken_over [OF assms(1-3), of kids'])
    (simp add: group_Add_at_def assms(1,4) Let_def taking_over [OF assms(3)])

lemma group_Remove_spec:
  assumes g: "group_at ns g = Inr (kids, removed, own)" and "i \<in> set kids" "i < length ns" and "refs_ok ns"
  shows "\<exists>ns'. group_Remove g (Some i) ns = Inr (True, ns') \<and>
    group_changed g (remove1 i kids) (removed @ [i]) own i
      (if own \<and> owner (ns ! i) = Some g then None else owner (ns ! i)) ns ns'"
proof -
  let ?o = "if own \<and> owner (ns ! i) = Some g then None else owner (ns ! i)"
  let ?ns1 = "update_node (\<lambda>n. n\<lparr>body := Group (remove1 i kids) (removed @ [i]) own\<rparr>) g ns"
  have gl: "g < length ns" using g by (rule group_at_range)
  have o': "owner (?ns1 ! i) = owner (ns ! i)" using assms(3) by (simp add: nth_update_node)
  have "(if own \<and> owner (ns ! i) = Some g then SetOwner i None ?ns1 else ?ns1) =
      regrouped g (remove1 i kids) (removed @ [i]) own i ?o ns"
    by (rule nth_equalityI) (auto simp: regrouped_nth nth_SetOwner nth_update_node)
  moreover have "?o = None \<or> (\<exists>q. ?o = Some q \<and> q < length ns)"
    using refs_ok_owner [OF assms(4,3)] by (cases "owner (ns ! i)") auto
  ultimately show ?thesis
    using group_changed_succeeds [OF assms(4) gl, of ?o "remove1 i kids" "removed @ [i]" own i] assms(2,3)
    by (auto simp: group_Remove_def g list_Remove_def node_at_def Let_def o')
qed

lemma SetModified_after:
  "SetModified_true (if own then SetOwner i (Some g) ns1 else ns1) g = Inr ns' \<Longrightarrow> refs_ok ns1 \<Longrightarrow> refs_ok ns'"
  using SetModified_true_keeps(1,3) [of ns1 g ns'] SetModified_true_keeps(3) [of "SetOwner i (Some g) ns1" g ns']
    SetOwner_keeps [of ns1 "Some g" i]
  by (fastforce simp: SetModified_true.simps [of "SetOwner i (Some g) ns1" g] split: if_splits)

lemma group_Add_keeps:
  assumes "group_Add g node ns = Inr (b, ns')" and "refs_ok ns"
  shows "refs_ok ns'"
  using assms SetModified_after update_keeps [OF assms(2)]
  by (auto simp: group_Add_def list_Add_def bind_res_Inr_iff Let_def split: option.splits) 

lemma group_Add_at_keeps:
  assumes "group_Add_at g index node ns = Inr ns'" and "refs_ok ns"
  shows "refs_ok ns'"
  using assms SetModified_after update_keeps [OF assms(2)]
  by (auto simp: group_Add_at_def bind_res_Inr_iff Let_def split: option.splits)

lemma group_Remove_keeps:
  assumes "group_Remove g node ns = Inr (b, ns')" and "refs_ok ns"
  shows "refs_ok ns'"
  using assms SetModified_true_keeps(3) update_keeps [OF assms(2)] SetOwner_keeps [OF update_keeps [OF assms(2)], of _ None]
  by (auto simp: group_Remove_def list_Remove_def bind_res_Inr_iff Let_def split: option.splits if_splits)

section \<open>Products\<close>

text \<open>What the construction of a product relies on: the pointers are valid and the product is in the store.\<close>

definition product_in :: "ref \<Rightarrow> store \<Rightarrow> bool" where
  "product_in p ns \<longleftrightarrow> refs_ok ns \<and> p < length ns"

lemma ProductNode_keeps:
  "ProductNode trim name descr b ns = Inr (i, ns') \<Longrightarrow> refs_ok ns \<Longrightarrow> product_in i ns' \<and> length ns \<le> length ns'"
  using append_fresh [of ns "\<lparr>node_name = name, description = descr, owner = None, modified = False, cached_product = None, body = b\<rparr>"]
  by (auto simp: ProductNode_def bind_res_Inr_iff product_in_def)

lemma ProductNodeGroup_keeps:
  assumes "ProductNodeGroup trim own name taking_over ns = Inr (g, ns')" and "refs_ok ns"
    and "\<forall>p. own = Some p \<longrightarrow> p < length ns"
  shows "product_in g ns' \<and> length ns \<le> length ns'"
proof -
  obtain ns1 where n: "ProductNode trim name (Some []) (Group [] [] taking_over) ns = Inr (g, ns1)" "ns' = SetOwner g own ns1"
    using assms(1) by (auto simp: ProductNodeGroup_def bind_res_Inr_iff)
  then show ?thesis
    using ProductNode_keeps [OF n(1) assms(2)] SetOwner_keeps [of ns1 own g] assms(3)
    by (cases own) (auto simp: product_in_def)
qed

lemma product_group_keeps:
  "ProductNodeGroup trim (Some p) name taking_over ns = Inr (g, ns') \<Longrightarrow> product_in p ns \<Longrightarrow> product_in p ns'"
  using ProductNodeGroup_keeps [of trim "Some p" name taking_over ns g ns'] by (auto simp: product_in_def)

lemma fold_update_keeps:
  "refs_ok ns \<Longrightarrow> refs_ok (fold node_SetModified_false kids ns)"
  by (induction kids arbitrary: ns) (simp_all add: node_SetModified_false_def update_keeps)

lemma group_SetModified_false_keeps:
  assumes "group_SetModified_false g ns = Inr ns'" and "refs_ok ns"
  shows "refs_ok ns'"
proof -
  obtain n where n: "node_at ns g = Inr n"
    using assms(1) by (auto simp: group_SetModified_false_def bind_res_Inr_iff)
  show ?thesis
    using assms fold_update_keeps [OF assms(2)]
    by (cases "body n") (auto simp: group_SetModified_false_def n node_SetModified_false_def Let_def
        intro!: update_keeps split: if_splits)
qed

lemma groups_SetModified_false_keeps:
  "fold_res group_SetModified_false gs ns = Inr ns' \<Longrightarrow> refs_ok ns \<Longrightarrow> refs_ok ns'"
  by (induction gs arbitrary: ns) (auto simp: bind_res_Inr_iff dest: group_SetModified_false_keeps)

lemma node_SetModified_false_keeps: "refs_ok ns \<Longrightarrow> refs_ok (node_SetModified_false i ns)"
  by (simp add: node_SetModified_false_def update_keeps)

lemma product_SetModified_false_keeps:
  assumes "product_SetModified_false p ns = Inr ns'" and "refs_ok ns"
  shows "refs_ok ns'"
proof -
  obtain n where n: "node_at ns p = Inr n"
    using assms(1) by (auto simp: product_SetModified_false_def bind_res_Inr_iff)
  obtain m where m: "body n = Product m"
    using assms(1) by (cases "body n") (simp_all add: product_SetModified_false_def n)
  show ?thesis
  proof (cases "modified n")
    case True
    then obtain ns1 where "fold_res group_SetModified_false
        [band_group m, tie_point_grid_group m, mask_group m, quicklook_group m, flag_coding_group m, index_coding_group m]
        (node_SetModified_false p ns) = Inr ns1" "ns' = node_SetModified_false (metadata_root m) ns1"
      using assms(1) n m by (auto simp: product_SetModified_false_def bind_res_Inr_iff simp del: fold_res.simps)
    then show ?thesis
      using groups_SetModified_false_keeps node_SetModified_false_keeps assms(2) by blast
  next
    case False
    then show ?thesis using assms n m by (simp add: product_SetModified_false_def)
  qed
qed

lemma groups_Add_keeps:
  "fold_res (\<lambda>g ns. bind_res (group_Add groups (Some g) ns) (\<lambda>(_, ns). Inr ns)) gs ns = Inr ns' \<Longrightarrow> refs_ok ns \<Longrightarrow> refs_ok ns'"
  by (induction gs arbitrary: ns) (auto simp: bind_res_Inr_iff dest: group_Add_keeps)

lemma product_groupE:
  assumes "bind_res (ProductNodeGroup trim (Some p) name taking_over ns) (\<lambda>(g, ns). K g ns) = Inr ns'" and "product_in p ns"
  obtains g ns1 where "K g ns1 = Inr ns'" and "product_in p ns1"
  using assms(1) product_group_keeps [OF _ assms(2)] by (auto simp: bind_res_Inr_iff)

lemma InitProductMembers_keeps:
  assumes "InitProductMembers trim p meta ns = Inr ns'" and "product_in p ns"
  shows "refs_ok ns'"
proof -
  have "product_in p (SetOwner meta (Some p) ns)"
    using assms(2) SetOwner_keeps [of ns "Some p"] by (simp add: product_in_def)
  with assms(1) obtain groups gs m ns1 where "product_in p ns1"
    and "bind_res (fold_res (\<lambda>g ns. bind_res (group_Add groups (Some g) ns) (\<lambda>(_, ns). Inr ns)) gs
           (update_node (\<lambda>n. n\<lparr>body := Product m\<rparr>) p ns1)) (product_SetModified_false p) = Inr ns'"
    unfolding InitProductMembers_def Let_def by (elim product_groupE) blast
  then show ?thesis
    using groups_Add_keeps product_SetModified_false_keeps [of p _ ns']
      update_keeps [of ns1 "\<lambda>n. n\<lparr>body := Product m\<rparr>" p]
    by (fastforce simp: bind_res_Inr_iff product_in_def)
qed

lemma CreateProduct_keeps:
  assumes "CreateProduct trim name type ns = Inr (p, ns')" and "refs_ok ns"
  shows "refs_ok ns'"
proof -
  obtain ns1 meta ns2 where n: "ProductNode trim name None Plain ns = Inr (p, ns1)"
    "ProductNode trim METADATA_ROOT_NAME None (Element None None) ns1 = Inr (meta, ns2)"
    and init: "InitProductMembers trim p meta ns2 = Inr ns'"
    using assms(1) by (auto simp: CreateProduct_def bind_res_Inr_iff)
  have "product_in p ns1" using ProductNode_keeps [OF n(1) assms(2)] by blast
  then have "product_in p ns2" using ProductNode_keeps [OF n(2)] by (auto simp: product_in_def)
  then show ?thesis by (rule InitProductMembers_keeps [OF init])
qed

lemma GetProduct_keeps:
  "GetProduct ns i = Some (Inr (p, ns')) \<Longrightarrow> refs_ok ns \<Longrightarrow> refs_ok ns'"
  by (auto simp: GetProduct_def bind_res_Inr_iff update_keeps split: if_splits option.splits)

lemma GetProduct_cached:
  "GetProduct ns i = Some (Inr (Some p, ns')) \<Longrightarrow> GetProduct ns' i = Some (Inr (Some p, ns'))"
  by (auto simp: GetProduct_def bind_res_Inr_iff nth_update_node split: if_splits option.splits)

lemma SetName_keeps:
  assumes "SetName ieq trim i name ns = Some (Inr ns')" and "refs_ok ns"
  shows "refs_ok ns'"
  using assms GetProduct_keeps [OF _ assms(2)] SetModified_true_keeps(3)
  by (auto simp: SetName_def SetNodeName_def bind_res_Inr_iff Let_def update_keeps split: if_splits option.splits)

section \<open>Runs\<close>

text \<open>
  What a program does with nodes: it makes nodes, groups and products, adds nodes to a group, inserts and
  removes them, renames and describes nodes, sets and takes back their flags, asks for their product, and
  writes the members that the classes add (such as the groups and data of metadata).
\<close>

inductive node_step :: "store \<Rightarrow> store \<Rightarrow> bool" where
  New: "ProductNode trim name descr b ns = Inr (i, ns') \<Longrightarrow> node_step ns ns'"
| New_group: "\<forall>o'. own = Some o' \<longrightarrow> o' < length ns \<Longrightarrow>
    ProductNodeGroup trim own name taking_over ns = Inr (g, ns') \<Longrightarrow> node_step ns ns'"
| New_product: "CreateProduct trim name type ns = Inr (p, ns') \<Longrightarrow> node_step ns ns'"
| Add: "group_Add g node ns = Inr (b, ns') \<Longrightarrow> node_step ns ns'"
| Insert: "group_Add_at g index node ns = Inr ns' \<Longrightarrow> node_step ns ns'"
| Remove: "group_Remove g node ns = Inr (b, ns') \<Longrightarrow> node_step ns ns'"
| Describe: "node_step ns (SetDescription i descr ns)"
| Rename: "SetName ieq trim i name ns = Some (Inr ns') \<Longrightarrow> node_step ns ns'"
| Mark: "SetModified_true ns i = Inr ns' \<Longrightarrow> node_step ns ns'"
| Unmark: "node_step ns (node_SetModified_false i ns)"
| Unmark_group: "group_SetModified_false g ns = Inr ns' \<Longrightarrow> node_step ns ns'"
| Unmark_product: "product_SetModified_false p ns = Inr ns' \<Longrightarrow> node_step ns ns'"
| Ask: "GetProduct ns i = Some (Inr (p, ns')) \<Longrightarrow> node_step ns ns'"
| Fill: "node_step ns (update_node (\<lambda>n. n\<lparr>body := b\<rparr>) i ns)"

inductive_cases node_stepE: "node_step ns ns'"

lemma node_step_keeps: "node_step ns ns' \<Longrightarrow> refs_ok ns \<Longrightarrow> refs_ok ns'"
  by (erule node_stepE)
    (auto simp: SetDescription_def node_SetModified_false_keeps update_keeps product_in_def
      dest: ProductNode_keeps ProductNodeGroup_keeps CreateProduct_keeps group_Add_keeps group_Add_at_keeps
        group_Remove_keeps SetName_keeps SetModified_true_keeps(3) group_SetModified_false_keeps
        product_SetModified_false_keeps GetProduct_keeps)

lemma node_steps_keep: "node_step\<^sup>*\<^sup>* [] ns \<Longrightarrow> refs_ok ns"
  by (induction rule: rtranclp_induct) (auto simp: refs_ok_def dest: node_step_keeps)

lemma ancestor_same_owners:
  assumes "ancestor ns' g a" and "length ns' = length ns" and "\<And>j. j < length ns \<Longrightarrow> owner (ns' ! j) = owner (ns ! j)"
  shows "ancestor ns g a"
  using assms(1)
proof (induction rule: ancestor.induct)
  case (Owner q)
  then show ?case using assms(2,3) ancestor.Owner [of g ns q] by simp
next
  case (Step q r)
  then show ?case using assms(2,3) ancestor.Step [of ns g q r] by simp
qed

lemma ancestor_regrouped:
  assumes "ancestor (regrouped g kids removed own i (new_owner own g i ns) ns) g a"
  shows "a = g \<or> ancestor ns g a"
  using assms
proof (induction rule: ancestor.induct)
  case (Owner q)
  then show ?case
    using ancestor.Owner [of g ns q] by (auto simp: regrouped_nth new_owner_def split: if_splits)
next
  case (Step q r)
  then have "r = g \<or> owner (ns ! q) = Some r" "q < length ns" by (auto simp: regrouped_nth new_owner_def split: if_splits)
  then show ?case using Step.IH ancestor.Step [of ns g q r] ancestor.Owner [of g ns r] by blast
qed

lemma group_Add_reaches:
  assumes c: "group_changed g kids' removed own i (new_owner own g i ns) ns ns'"
    and r: "refs_ok ns" and gi: "g < length ns" "i < length ns"
    and fresh: "\<not> modified (ns ! g)" "\<And>a. ancestor ns g a \<Longrightarrow> \<not> modified (ns ! a)" and a: "ancestor ns' g a"
  shows "modified (ns' ! a)"
proof -
  let ?ns = "regrouped g kids' removed own i (new_owner own g i ns) ns"
  have t: "told_all ?ns g ns'" using c by (simp add: group_changed_def)
  note f = told_all_grow [OF t]
  have len: "length ns' = length ?ns" using t by (simp add: told_all_def)
  have anc: "ancestor ?ns g a"
    by (rule ancestor_same_owners [OF a len]) (use flags_grow_fields(2) [OF f] in simp)
  have rr: "refs_ok ?ns" by (rule regrouped_refs [OF r new_owner_range [OF r gi(2,1)]])
  have same: "modified (?ns ! j) = modified (ns ! j)" if "j < length ns" for j using that by (simp add: regrouped_nth)
  have free: "\<not> modified (?ns ! q)" if q: "ancestor ?ns g q" for q
  proof -
    have "q < length ?ns" using q rr by (induction rule: ancestor.induct) (auto dest: refs_ok_owner)
    then show ?thesis using ancestor_regrouped [OF q] fresh same [of q] by (auto simp: regrouped_nth)
  qed
  have "learns ?ns g a"
    using ancestors_learn [OF rr, of g a] gi fresh(1) same [OF gi(1)] free anc by (simp add: regrouped_nth)
  moreover from this have "a < length ?ns" using learns_unmodified by blast
  ultimately show ?thesis using t by (simp add: told_all_def)
qed


text \<open>A product as \<open>CreateProduct\<close> makes it: the list of its groups stays modified below an unmodified product.\<close>

definition new_product :: store where
  "new_product =
    [\<lparr>node_name = ''S1A'', description = None, owner = None, modified = False, cached_product = None,
        body = Product \<lparr>band_group = 2, tie_point_grid_group = 3, mask_group = 6, quicklook_group = 7,
                 flag_coding_group = 5, index_coding_group = 4, metadata_root = 1\<rparr>\<rparr>,
     \<lparr>node_name = ''metadata'', description = None, owner = Some 0, modified = False, cached_product = None, body = Element None None\<rparr>,
     \<lparr>node_name = ''bands'', description = Some [], owner = Some 0, modified = False, cached_product = None, body = Group [] [] True\<rparr>,
     \<lparr>node_name = ''tie_point_grids'', description = Some [], owner = Some 0, modified = False, cached_product = None, body = Group [] [] True\<rparr>,
     \<lparr>node_name = ''index_codings'', description = Some [], owner = Some 0, modified = False, cached_product = None, body = Group [] [] True\<rparr>,
     \<lparr>node_name = ''flag_codings'', description = Some [], owner = Some 0, modified = False, cached_product = None, body = Group [] [] True\<rparr>,
     \<lparr>node_name = ''masks'', description = Some [], owner = Some 0, modified = False, cached_product = None, body = Group [] [] True\<rparr>,
     \<lparr>node_name = ''quicklooks'', description = Some [], owner = Some 0, modified = False, cached_product = None, body = Group [] [] True\<rparr>,
     \<lparr>node_name = ''groups'', description = Some [], owner = Some 0, modified = True, cached_product = None, body = Group [2, 7, 3, 4, 5, 6] [] False\<rparr>]"

lemma CreateProduct_sample: "CreateProduct (\<lambda>s. s) ''S1A'' ''SLC'' [] = Inr (0, new_product)"
  by (simp add: CreateProduct_def InitProductMembers_def ProductNodeGroup_def ProductNode_def SetOwner_def
      update_node_def group_Add_def group_at_def node_at_def list_Add_def SetModified_true.simps
      product_SetModified_false_def group_SetModified_false_def node_SetModified_false_def METADATA_ROOT_NAME_def
      new_product_def Let_def)

text \<open>A band that is added to its product's bands.\<close>

definition band_node :: node where
  "band_node = \<lparr>node_name = ''Amplitude'', description = None, owner = None, modified = False, cached_product = None, body = Plain\<rparr>"


end
