(* ===== verification/Metadata.thy ===== *)
theory Metadata
  imports Nodes Utc SubsetDef
begin

text \<open>
  Nodes with data: \<open>DataNode\<close> (\<^verbatim>\<open>data_node.cc\<close>), \<open>MetadataAttribute\<close> (\<^verbatim>\<open>metadata_attribute.cc\<close>) and the attribute and
  element lists of \<open>MetadataElement\<close> (\<^verbatim>\<open>metadata_element.cc\<close>). The data objects have a store of their own,
  since several nodes may share one. A new attribute has an indeterminate \<open>synthetic_\<close> flag, as its
  constructors leave it out; reading it before it is set has no defined meaning.
\<close>

record heap =
  nodes :: store
  datas :: "product_data list"

record 'p env =
  ieq :: "string \<Rightarrow> string \<Rightarrow> bool"
  trim :: "string \<Rightarrow> string"
  casts :: lexical_cast
  times :: "'p date_time"

definition data_at :: "heap \<Rightarrow> ref \<Rightarrow> product_data res" where
  "data_at h d = (if d < length (datas h) then Inr (datas h ! d) else Inl Undefined_behaviour)"

definition new_data :: "product_data \<Rightarrow> heap \<Rightarrow> ref \<times> heap" where
  "new_data pd h = (length (datas h), h\<lparr>datas := datas h @ [pd]\<rparr>)"

definition on_nodes :: "(store \<Rightarrow> store res) \<Rightarrow> heap \<Rightarrow> heap res" where
  "on_nodes f h = bind_res (f (nodes h)) (\<lambda>ns. Inr (h\<lparr>nodes := ns\<rparr>))"

definition GetElemString :: "'p env \<Rightarrow> product_data \<Rightarrow> string res" where
  "GetElemString e pd =
     (case pd of
        ASCIIData a \<Rightarrow> Inr (ASCII_GetElemString a)
      | UtcData a \<Rightarrow> Format (casts e) (times e) pd
      | _ \<Rightarrow> base_GetElemString (casts e) pd)"

section \<open>DataNode\<close>

definition data_node_at :: "heap \<Rightarrow> ref \<Rightarrow> data_node res" where
  "data_node_at h i =
     bind_res (node_at (nodes h) i) (\<lambda>n. case body n of Attribute dn \<Rightarrow> Inr dn | _ \<Rightarrow> Inl Undefined_behaviour)"

definition set_data_node :: "ref \<Rightarrow> data_node \<Rightarrow> heap \<Rightarrow> heap" where
  "set_data_node i dn h = h\<lparr>nodes := update_node (\<lambda>n. n\<lparr>body := Attribute dn\<rparr>) i (nodes h)\<rparr>"

definition DataNode :: "'p env \<Rightarrow> string \<Rightarrow> int \<Rightarrow> int \<Rightarrow> heap \<Rightarrow> (ref \<times> heap) res" where
  "DataNode e name ty n h =
     (let dn = \<lparr>data_type = ty, num_elems = n, read_only = False, node_unit = None, synthetic = None, data_ref = None\<rparr>
      in bind_res (ProductNode (trim e) name None (Attribute dn) (nodes h)) (\<lambda>(i, ns).
           if ty \<notin> {TYPE_INT8, TYPE_INT16, TYPE_INT32, TYPE_UINT8, TYPE_UINT16, TYPE_UINT32, TYPE_FLOAT32,
                    TYPE_FLOAT64, TYPE_ASCII, TYPE_UTC}
           then Inl Invalid_argument else Inr (i, h\<lparr>nodes := ns\<rparr>)))"

definition DataNode_of :: "'p env \<Rightarrow> string \<Rightarrow> ref option \<Rightarrow> bool \<Rightarrow> heap \<Rightarrow> (ref \<times> heap) res" where
  "DataNode_of e name data ro h =
     (case data of
        None \<Rightarrow> Inl Invalid_argument
      | Some d \<Rightarrow>
          bind_res (data_at h d) (\<lambda>pd.
            let dn = \<lparr>data_type = GetType pd, num_elems = GetNumElems pd, read_only = ro, node_unit = None,
                      synthetic = None, data_ref = Some d\<rparr>
            in bind_res (ProductNode (trim e) name None (Attribute dn) (nodes h)) (\<lambda>(i, ns). Inr (i, h\<lparr>nodes := ns\<rparr>))))"

definition MetadataAttribute :: "'p env \<Rightarrow> string \<Rightarrow> int \<Rightarrow> int \<Rightarrow> heap \<Rightarrow> (ref \<times> heap) res" where
  "MetadataAttribute e name ty n h =
     bind_res (CreateInstance ty n) (\<lambda>pd. case new_data pd h of (d, h') \<Rightarrow> DataNode_of e name (Some d) False h')"

definition SetUnit :: "ref \<Rightarrow> string option \<Rightarrow> heap \<Rightarrow> heap res" where
  "SetUnit i u h = bind_res (data_node_at h i) (\<lambda>dn. Inr (set_data_node i (dn\<lparr>node_unit := u\<rparr>) h))"

definition SetSynthetic :: "ref \<Rightarrow> bool \<Rightarrow> heap \<Rightarrow> heap res" where
  "SetSynthetic i b h = bind_res (data_node_at h i) (\<lambda>dn. Inr (set_data_node i (dn\<lparr>synthetic := Some b\<rparr>) h))"

definition IsSynthetic :: "ref \<Rightarrow> heap \<Rightarrow> bool res" where
  "IsSynthetic i h =
     bind_res (data_node_at h i) (\<lambda>dn. case synthetic dn of None \<Rightarrow> Inl Undefined_behaviour | Some b \<Rightarrow> Inr b)"

definition GetNumDataElems :: "data_node \<Rightarrow> int res" where
  "GetNumDataElems dn = (if num_elems dn < 0 then Inl Runtime_error else Inr (num_elems dn))"

definition SetReadOnly :: "ref \<Rightarrow> bool \<Rightarrow> heap \<Rightarrow> heap res" where
  "SetReadOnly i b h =
     bind_res (data_node_at h i) (\<lambda>dn.
       if read_only dn \<noteq> b then
         on_nodes (\<lambda>ns. SetModified_true ns i) (set_data_node i (dn\<lparr>read_only := b\<rparr>) h)
       else Inr h)"

definition CheckDataCompatibility :: "data_node \<Rightarrow> product_data \<Rightarrow> unit res" where
  "CheckDataCompatibility dn pd =
     (if GetType pd \<noteq> data_type dn then Inl Invalid_argument
      else bind_res (GetNumDataElems dn) (\<lambda>n. if GetNumElems pd \<noteq> n then Inl Invalid_argument else Inr ()))"

definition SetData :: "ref \<Rightarrow> ref option \<Rightarrow> heap \<Rightarrow> heap res" where
  "SetData i data h =
     bind_res (data_node_at h i) (\<lambda>dn.
       if read_only dn then Inl Invalid_argument
       else if data_ref dn = data then Inr h
       else
         bind_res
           (case data of
              None \<Rightarrow> Inr ()
            | Some d \<Rightarrow> bind_res (data_at h d) (CheckDataCompatibility dn)) (\<lambda>_.
           let h' = set_data_node i (dn\<lparr>data_ref := data\<rparr>) h
           in if data_ref dn \<noteq> None then on_nodes (\<lambda>ns. SetModified_true ns i) h' else Inr h'))"

definition CreateCompatibleProductData :: "data_node \<Rightarrow> int \<Rightarrow> product_data res" where
  "CreateCompatibleProductData dn n = CreateInstance (data_type dn) n"

text \<open>Storing elements may fail half way and leave the data changed.\<close>

definition store_elems :: "'p env \<Rightarrow> ref \<Rightarrow> any_value \<Rightarrow> heap \<Rightarrow> heap \<times> unit res" where
  "store_elems e d elems h =
     (case data_at h d of
        Inl x \<Rightarrow> (h, Inl x)
      | Inr pd \<Rightarrow> (case SetElems (casts e) elems pd of (pd', r) \<Rightarrow> (h\<lparr>datas := (datas h)[d := pd']\<rparr>, r)))"

definition SetDataElems :: "'p env \<Rightarrow> ref \<Rightarrow> any_value \<Rightarrow> heap \<Rightarrow> heap \<times> unit res" where
  "SetDataElems e i elems h =
     (case data_node_at h i of
        Inl x \<Rightarrow> (h, Inl x)
      | Inr dn \<Rightarrow>
          if read_only dn then (h, Inl Invalid_argument)
          else if num_elems dn < 0 then (h, Inl Runtime_error)
          else case data_ref dn of
                 Some d \<Rightarrow> store_elems e d elems h
               | None \<Rightarrow>
                   if num_elems dn > 2 ^ 31 - 1 then (h, Inl Invalid_argument)
                   else case CreateCompatibleProductData dn (num_elems dn) of
                          Inl x \<Rightarrow> (h, Inl x)
                        | Inr pd \<Rightarrow>
                            (case new_data pd h of
                               (d, h') \<Rightarrow> store_elems e d elems (set_data_node i (dn\<lparr>data_ref := Some d\<rparr>) h')))"

definition data_RawStorageSize :: "'p env \<Rightarrow> ref \<Rightarrow> subset_def option \<Rightarrow> heap \<Rightarrow> int res" where
  "data_RawStorageSize e i part h =
     bind_res (node_at (nodes h) i) (\<lambda>n. bind_res (data_node_at h i) (\<lambda>dn.
       if (case part of None \<Rightarrow> True | Some s \<Rightarrow> ContainsNodeName (ieq e) s (node_name n)) then
         bind_res (GetElemSize (data_type dn)) (\<lambda>s. bind_res (GetNumDataElems dn) (\<lambda>k.
           Inr ((256 + s * k) mod 2 ^ 64)))
       else Inr 0))"

definition attribute_CreateDeepClone :: "'p env \<Rightarrow> ref \<Rightarrow> heap \<Rightarrow> (ref \<times> heap) res" where
  "attribute_CreateDeepClone e i h =
     bind_res (node_at (nodes h) i) (\<lambda>n. bind_res (data_node_at h i) (\<lambda>dn.
     case data_ref dn of
       None \<Rightarrow> Inl Null_dereference
     | Some d \<Rightarrow>
         bind_res (data_at h d) (\<lambda>pd. bind_res (CreateDeepClone (casts e) pd) (\<lambda>pd'.
         case new_data pd' h of
           (d', h') \<Rightarrow>
             bind_res (DataNode_of e (node_name n) (Some d') (read_only dn) h') (\<lambda>(c, h').
             bind_res (IsSynthetic i h) (\<lambda>syn.
             bind_res (SetSynthetic c syn (h'\<lparr>nodes := SetDescription c (description n) (nodes h')\<rparr>)) (\<lambda>h'.
             bind_res (SetUnit c (node_unit dn) h') (\<lambda>h'. Inr (c, h')))))))))"

section \<open>MetadataElement\<close>

definition MetadataElement :: "'p env \<Rightarrow> string \<Rightarrow> heap \<Rightarrow> (ref \<times> heap) res" where
  "MetadataElement e name h =
     bind_res (ProductNode (trim e) name None (Element None None) (nodes h)) (\<lambda>(i, ns). Inr (i, h\<lparr>nodes := ns\<rparr>))"

definition element_at :: "heap \<Rightarrow> ref \<Rightarrow> (ref option \<times> ref option) res" where
  "element_at h i =
     bind_res (node_at (nodes h) i) (\<lambda>n. case body n of Element els ats \<Rightarrow> Inr (els, ats) | _ \<Rightarrow> Inl Undefined_behaviour)"

text \<open>The group of elements or of attributes, made when it is first needed.\<close>

definition elements_group :: "'p env \<Rightarrow> ref \<Rightarrow> heap \<Rightarrow> (ref \<times> heap) res" where
  "elements_group e i h =
     bind_res (element_at h i) (\<lambda>(els, ats).
       case els of
         Some g \<Rightarrow> Inr (g, h)
       | None \<Rightarrow>
           bind_res (ProductNodeGroup (trim e) (Some i) ''elements'' True (nodes h)) (\<lambda>(g, ns).
             Inr (g, h\<lparr>nodes := update_node (\<lambda>n. n\<lparr>body := Element (Some g) ats\<rparr>) i ns\<rparr>)))"

definition attributes_group :: "'p env \<Rightarrow> ref \<Rightarrow> heap \<Rightarrow> (ref \<times> heap) res" where
  "attributes_group e i h =
     bind_res (element_at h i) (\<lambda>(els, ats).
       case ats of
         Some g \<Rightarrow> Inr (g, h)
       | None \<Rightarrow>
           bind_res (ProductNodeGroup (trim e) (Some i) ''attributes'' True (nodes h)) (\<lambda>(g, ns).
             Inr (g, h\<lparr>nodes := update_node (\<lambda>n. n\<lparr>body := Element els (Some g)\<rparr>) i ns\<rparr>)))"

definition AddElement :: "'p env \<Rightarrow> ref \<Rightarrow> ref option \<Rightarrow> heap \<Rightarrow> heap res" where
  "AddElement e i element h =
     (case element of
        None \<Rightarrow> Inr h
      | Some k \<Rightarrow>
          bind_res (elements_group e i h) (\<lambda>(g, h').
          bind_res (group_Add g (Some k) (nodes h')) (\<lambda>(_, ns). Inr (h'\<lparr>nodes := ns\<rparr>))))"

definition AddElementAt :: "'p env \<Rightarrow> ref \<Rightarrow> ref option \<Rightarrow> int \<Rightarrow> heap \<Rightarrow> heap res" where
  "AddElementAt e i element index h =
     (case element of
        None \<Rightarrow> Inr h
      | Some k \<Rightarrow>
          bind_res (elements_group e i h) (\<lambda>(g, h'). on_nodes (group_Add_at g index (Some k)) h'))"

definition AddAttribute :: "'p env \<Rightarrow> ref \<Rightarrow> ref option \<Rightarrow> heap \<Rightarrow> heap res" where
  "AddAttribute e i attribute h =
     (case attribute of
        None \<Rightarrow> Inr h
      | Some k \<Rightarrow>
          bind_res (attributes_group e i h) (\<lambda>(g, h').
          bind_res (group_Add g (Some k) (nodes h')) (\<lambda>(_, ns). Inr (h'\<lparr>nodes := ns\<rparr>))))"

definition GetElements :: "ref \<Rightarrow> heap \<Rightarrow> ref list res" where
  "GetElements i h =
     bind_res (element_at h i) (\<lambda>(els, _).
       case els of None \<Rightarrow> Inr [] | Some g \<Rightarrow> bind_res (group_at (nodes h) g) (\<lambda>(kids, _). Inr kids))"

definition GetAttributes :: "ref \<Rightarrow> heap \<Rightarrow> ref list res" where
  "GetAttributes i h =
     bind_res (element_at h i) (\<lambda>(_, ats).
       case ats of None \<Rightarrow> Inr [] | Some g \<Rightarrow> bind_res (group_at (nodes h) g) (\<lambda>(kids, _). Inr kids))"

definition GetNumElements :: "ref \<Rightarrow> heap \<Rightarrow> int res" where
  "GetNumElements i h = bind_res (GetElements i h) (\<lambda>kids. Inr (int (length kids)))"

definition GetNumAttributes :: "ref \<Rightarrow> heap \<Rightarrow> int res" where
  "GetNumAttributes i h = bind_res (GetAttributes i h) (\<lambda>kids. Inr (int (length kids)))"

definition GetAttributeNames :: "ref \<Rightarrow> heap \<Rightarrow> string list res" where
  "GetAttributeNames i h = bind_res (GetAttributes i h) (GetNames (nodes h))"

definition GetElementNames :: "ref \<Rightarrow> heap \<Rightarrow> string list res" where
  "GetElementNames i h = bind_res (GetElements i h) (GetNames (nodes h))"

definition RemoveAttribute :: "ref \<Rightarrow> ref option \<Rightarrow> heap \<Rightarrow> (bool \<times> heap) res" where
  "RemoveAttribute i attribute h =
     bind_res (element_at h i) (\<lambda>(_, ats).
       case (attribute, ats) of
         (Some k, Some g) \<Rightarrow>
           bind_res (group_Remove g (Some k) (nodes h)) (\<lambda>(b, ns). Inr (b, h\<lparr>nodes := ns\<rparr>))
       | _ \<Rightarrow> Inr (False, h))"

definition RemoveElement :: "ref \<Rightarrow> ref option \<Rightarrow> heap \<Rightarrow> (bool \<times> heap) res" where
  "RemoveElement i element h =
     bind_res (element_at h i) (\<lambda>(els, _).
       case (element, els) of
         (Some k, Some g) \<Rightarrow>
           bind_res (group_Remove g (Some k) (nodes h)) (\<lambda>(b, ns). Inr (b, h\<lparr>nodes := ns\<rparr>))
       | _ \<Rightarrow> Inr (False, h))"

definition ContainsAttribute :: "'p env \<Rightarrow> ref \<Rightarrow> string \<Rightarrow> heap \<Rightarrow> bool res" where
  "ContainsAttribute e i name h =
     bind_res (element_at h i) (\<lambda>(_, ats).
       case ats of
         None \<Rightarrow> Inr False
       | Some g \<Rightarrow> bind_res (group_at (nodes h) g) (\<lambda>(kids, _). Contains_name (ieq e) (nodes h) kids name))"

definition ContainsElement :: "'p env \<Rightarrow> ref \<Rightarrow> string \<Rightarrow> heap \<Rightarrow> bool res" where
  "ContainsElement e i name h =
     bind_res (guard (name \<noteq> []) Invalid_argument) (\<lambda>_.
     bind_res (element_at h i) (\<lambda>(els, _).
       case els of
         None \<Rightarrow> Inr False
       | Some g \<Rightarrow> bind_res (group_at (nodes h) g) (\<lambda>(kids, _). Contains_name (ieq e) (nodes h) kids name)))"

definition GetElementIndex :: "ref \<Rightarrow> ref option \<Rightarrow> heap \<Rightarrow> int res" where
  "GetElementIndex i element h =
     bind_res (element_at h i) (\<lambda>(els, _).
       case els of
         None \<Rightarrow> Inl Null_dereference
       | Some g \<Rightarrow> bind_res (group_at (nodes h) g) (\<lambda>(kids, _). IndexOf_node kids element))"

definition GetAttributeIndex :: "ref \<Rightarrow> ref option \<Rightarrow> heap \<Rightarrow> int res" where
  "GetAttributeIndex i attribute h =
     bind_res (element_at h i) (\<lambda>(_, ats).
       case ats of
         None \<Rightarrow> Inl Null_dereference
       | Some g \<Rightarrow> bind_res (group_at (nodes h) g) (\<lambda>(kids, _). IndexOf_node kids attribute))"

definition GetElement :: "'p env \<Rightarrow> ref \<Rightarrow> string \<Rightarrow> heap \<Rightarrow> ref option res" where
  "GetElement e i name h =
     bind_res (guard (name \<noteq> []) Invalid_argument) (\<lambda>_.
     bind_res (element_at h i) (\<lambda>(els, _).
       case els of
         None \<Rightarrow> Inr None
       | Some g \<Rightarrow> bind_res (group_at (nodes h) g) (\<lambda>(kids, _). Get_name (ieq e) (nodes h) kids name)))"

definition GetElementAt :: "ref \<Rightarrow> int \<Rightarrow> heap \<Rightarrow> ref res" where
  "GetElementAt i index h =
     bind_res (element_at h i) (\<lambda>(els, _).
       case els of
         None \<Rightarrow> Inl Runtime_error
       | Some g \<Rightarrow> bind_res (group_at (nodes h) g) (\<lambda>(kids, _). vec_at kids index))"

definition GetAttributeAt :: "ref \<Rightarrow> int \<Rightarrow> heap \<Rightarrow> ref res" where
  "GetAttributeAt i index h =
     bind_res (element_at h i) (\<lambda>(_, ats).
       case ats of
         None \<Rightarrow> Inl Runtime_error
       | Some g \<Rightarrow> bind_res (group_at (nodes h) g) (\<lambda>(kids, _). vec_at kids index))"

definition GetAttribute :: "'p env \<Rightarrow> ref \<Rightarrow> string \<Rightarrow> heap \<Rightarrow> ref option res" where
  "GetAttribute e i name h =
     bind_res (element_at h i) (\<lambda>(_, ats).
       case ats of
         None \<Rightarrow> Inr None
       | Some g \<Rightarrow> bind_res (group_at (nodes h) g) (\<lambda>(kids, _). Get_name (ieq e) (nodes h) kids name))"

text \<open>The data of an attribute, which \<open>GetData()\<close> is dereferenced for.\<close>

definition attribute_data :: "heap \<Rightarrow> ref \<Rightarrow> (int \<times> ref \<times> product_data) res" where
  "attribute_data h k =
     bind_res (data_node_at h k) (\<lambda>dn.
       case data_ref dn of
         None \<Rightarrow> Inl Null_dereference
       | Some d \<Rightarrow> bind_res (data_at h d) (\<lambda>pd. Inr (data_type dn, d, pd)))"

text \<open>
  Reading: the value, or what is done without the attribute (the default value or an exception). Text is
  converted.
\<close>

definition read_attribute :: "'p env \<Rightarrow> ref \<Rightarrow> string \<Rightarrow> heap \<Rightarrow> 'a res \<Rightarrow> (int \<Rightarrow> product_data \<Rightarrow> 'a res) \<Rightarrow> 'a res" where
  "read_attribute e i name h absent f =
     bind_res (GetAttribute e i name h) (\<lambda>attribute.
       case attribute of
         None \<Rightarrow> absent
       | Some k \<Rightarrow> bind_res (attribute_data h k) (\<lambda>(ty, _, pd). f ty pd))"

definition int_value :: "'p env \<Rightarrow> int \<Rightarrow> product_data \<Rightarrow> int res" where
  "int_value e ty pd =
     (if ty = TYPE_ASCII then bind_res (GetElemString e pd) stoi else GetElemIntAt (casts e) pd 0)"

definition double_value :: "'p env \<Rightarrow> int \<Rightarrow> product_data \<Rightarrow> fp res" where
  "double_value e ty pd =
     (if ty = TYPE_ASCII then bind_res (GetElemString e pd) stod else GetElemDoubleAt (casts e) pd 0)"

definition GetAttributeInt :: "'p env \<Rightarrow> ref \<Rightarrow> string \<Rightarrow> heap \<Rightarrow> int res" where
  "GetAttributeInt e i name h = read_attribute e i name h (Inl Invalid_argument) (int_value e)"

definition GetAttributeInt_default :: "'p env \<Rightarrow> ref \<Rightarrow> string \<Rightarrow> int \<Rightarrow> heap \<Rightarrow> int res" where
  "GetAttributeInt_default e i name v h = read_attribute e i name h (Inr v) (int_value e)"

definition GetAttributeDouble :: "'p env \<Rightarrow> ref \<Rightarrow> string \<Rightarrow> heap \<Rightarrow> fp res" where
  "GetAttributeDouble e i name h = read_attribute e i name h (Inl Invalid_argument) (double_value e)"

definition GetAttributeDouble_default :: "'p env \<Rightarrow> ref \<Rightarrow> string \<Rightarrow> fp \<Rightarrow> heap \<Rightarrow> fp res" where
  "GetAttributeDouble_default e i name v h = read_attribute e i name h (Inr v) (double_value e)"

definition GetAttributeString :: "'p env \<Rightarrow> ref \<Rightarrow> string \<Rightarrow> heap \<Rightarrow> string res" where
  "GetAttributeString e i name h = read_attribute e i name h (Inl Invalid_argument) (\<lambda>_. GetElemString e)"

definition GetAttributeString_default :: "'p env \<Rightarrow> ref \<Rightarrow> string \<Rightarrow> string \<Rightarrow> heap \<Rightarrow> string res" where
  "GetAttributeString_default e i name v h = read_attribute e i name h (Inr v) (\<lambda>_. GetElemString e)"

definition GetAttributeBool :: "'p env \<Rightarrow> ref \<Rightarrow> string \<Rightarrow> heap \<Rightarrow> bool res" where
  "GetAttributeBool e i name h =
     read_attribute e i name h (Inl Invalid_argument)
       (\<lambda>_ pd. bind_res (GetElemString e pd) (\<lambda>s. Inr (ieq e s ''true'')))"

definition utc_value :: "'p env \<Rightarrow> product_data \<Rightarrow> product_data res" where
  "utc_value e pd = bind_res (GetElemString e pd) (Parse (casts e) (times e))"

text \<open>A \<open>std::runtime_error\<close>, and any \<open>std::exception\<close>.\<close>

fun is_runtime_error :: "exn \<Rightarrow> bool" where
  "is_runtime_error Runtime_error = True"
| "is_runtime_error Parse_exception = True"
| "is_runtime_error Algorithm_exception = True"
| "is_runtime_error Cuda_exception = True"
| "is_runtime_error _ = False"

fun is_exception :: "exn \<Rightarrow> bool" where
  "is_exception Null_dereference = False"
| "is_exception Undefined_behaviour = False"
| "is_exception _ = True"

definition GetAttributeUtc :: "'p env \<Rightarrow> ref \<Rightarrow> string \<Rightarrow> heap \<Rightarrow> product_data res" where
  "GetAttributeUtc e i name h =
     (case read_attribute e i name h (Inr None) (\<lambda>_ pd. bind_res (utc_value e pd) (\<lambda>u. Inr (Some u))) of
        Inl x \<Rightarrow> if is_runtime_error x then Inl Invalid_argument else Inl x
      | Inr None \<Rightarrow> Inl Invalid_argument
      | Inr (Some u) \<Rightarrow> Inr u)"

definition GetAttributeUtc_default ::
  "'p env \<Rightarrow> ref \<Rightarrow> string \<Rightarrow> product_data option \<Rightarrow> heap \<Rightarrow> product_data option res" where
  "GetAttributeUtc_default e i name v h =
     (case read_attribute e i name h (Inr v) (\<lambda>_ pd. bind_res (utc_value e pd) (\<lambda>u. Inr (Some u))) of
        Inl x \<Rightarrow> if is_exception x then Inr v else Inl x
      | Inr u \<Rightarrow> Inr u)"

text \<open>Writing: the attribute is made when there is none of that name.\<close>

definition GetAndMaybeCreateAttribute :: "'p env \<Rightarrow> ref \<Rightarrow> string \<Rightarrow> int \<Rightarrow> int \<Rightarrow> heap \<Rightarrow> (ref \<times> heap) res" where
  "GetAndMaybeCreateAttribute e i name ty n h =
     bind_res (GetAttribute e i name h) (\<lambda>attribute.
       case attribute of
         Some k \<Rightarrow> Inr (k, h)
       | None \<Rightarrow>
           bind_res (MetadataAttribute e name ty n h) (\<lambda>(k, h').
           bind_res (AddAttribute e i (Some k) h') (\<lambda>h''. Inr (k, h''))))"

definition write_attribute ::
  "'p env \<Rightarrow> ref \<Rightarrow> string \<Rightarrow> int \<Rightarrow> (product_data \<Rightarrow> product_data res) \<Rightarrow> heap \<Rightarrow> heap res" where
  "write_attribute e i name ty f h =
     bind_res (GetAndMaybeCreateAttribute e i name ty 1 h) (\<lambda>(k, h').
     bind_res (attribute_data h' k) (\<lambda>(_, d, pd).
     bind_res (f pd) (\<lambda>pd'. Inr (h'\<lparr>datas := (datas h')[d := pd']\<rparr>))))"

definition SetAttributeInt :: "'p env \<Rightarrow> ref \<Rightarrow> string \<Rightarrow> int \<Rightarrow> heap \<Rightarrow> heap res" where
  "SetAttributeInt e i name v = write_attribute e i name TYPE_INT32 (\<lambda>pd. SetElemIntAt (casts e) pd 0 v)"

definition SetAttributeDouble :: "'p env \<Rightarrow> ref \<Rightarrow> string \<Rightarrow> fp \<Rightarrow> heap \<Rightarrow> heap res" where
  "SetAttributeDouble e i name v = write_attribute e i name TYPE_FLOAT64 (\<lambda>pd. SetElemDoubleAt (casts e) pd 0 v)"

definition write_attribute_elems ::
  "'p env \<Rightarrow> ref \<Rightarrow> string \<Rightarrow> int \<Rightarrow> any_value \<Rightarrow> heap \<Rightarrow> heap \<times> unit res" where
  "write_attribute_elems e i name ty elems h =
     (case GetAndMaybeCreateAttribute e i name ty 1 h of
        Inl x \<Rightarrow> (h, Inl x)
      | Inr (k, h') \<Rightarrow>
          (case attribute_data h' k of
             Inl x \<Rightarrow> (h', Inl x)
           | Inr (_, d, _) \<Rightarrow> store_elems e d elems h'))"

definition SetAttributeUtc :: "'p env \<Rightarrow> ref \<Rightarrow> string \<Rightarrow> 32 word list \<Rightarrow> heap \<Rightarrow> heap \<times> unit res" where
  "SetAttributeUtc e i name value = write_attribute_elems e i name TYPE_UTC (Any_u32 value)"

definition SetAttributeString :: "'p env \<Rightarrow> ref \<Rightarrow> string \<Rightarrow> string \<Rightarrow> heap \<Rightarrow> heap \<times> unit res" where
  "SetAttributeString e i name value = write_attribute_elems e i name TYPE_ASCII (Any_string_view value)"

end
