(* ===== verification/MetadataLaws.thy ===== *)
theory MetadataLaws
  imports Metadata ProductDataLaws
begin

text \<open>
  What the attributes of a metadata element promise: an attribute set by name is found again under that
  name, and no other attribute changes; and where they do not: a product that was marked unmodified
  does not learn of later changes to its metadata, and an attribute cannot be cloned before its flag
  \<open>synthetic_\<close> is set.
\<close>

section \<open>Reading by name is a search in the list\<close>

lemma Get_name_find:
  "name \<noteq> [] \<Longrightarrow> Get_name eq ns kids name = Inr (List.find (\<lambda>i. eq (node_name (ns ! i)) name) kids)"
  by (simp add: Get_name_def IndexOf_name_def first_index_find)

lemma Get_name_empty: "Get_name eq ns kids [] = Inl Invalid_argument"
  by (simp add: Get_name_def IndexOf_name_def)

lemma GetAttributes_cases:
  assumes "GetAttributes i h = Inr kids"
  obtains (none) els where "element_at h i = Inr (els, None)" "kids = []"
    | (some) els g removed own where "element_at h i = Inr (els, Some g)" "group_at (nodes h) g = Inr (kids, removed, own)"
proof -
  obtain els ats where e: "element_at h i = Inr (els, ats)"
    using assms by (auto simp: GetAttributes_def bind_res_Inr_iff)
  show thesis
  proof (cases ats)
    case None
    then show thesis using e assms none by (simp add: GetAttributes_def)
  next
    case (Some g)
    then show thesis using e assms some by (auto simp: GetAttributes_def bind_res_Inr_iff)
  qed
qed

lemma GetAttribute_find:
  assumes "name \<noteq> []" and "GetAttributes i h = Inr kids"
  shows "GetAttribute e i name h = Inr (List.find (\<lambda>k. ieq e (node_name (nodes h ! k)) name) kids)"
  using assms(2) by (cases rule: GetAttributes_cases) (simp_all add: GetAttribute_def Get_name_find [OF assms(1)])

lemma GetAttributeInt_empty:
  assumes "GetAttributes i h = Inr kids"
  shows "GetAttributeInt e i [] h = Inl Invalid_argument"
  using assms by (cases rule: GetAttributes_cases)
    (simp_all add: GetAttributeInt_def read_attribute_def GetAttribute_def Get_name_empty)

lemma find_cong_Some:
  "List.find P xs = Some k \<Longrightarrow> k \<in> set xs \<and> P k"
  by (auto simp: find_Some_iff)

lemma find_append_None: "List.find P xs = None \<Longrightarrow> List.find P (xs @ ys) = List.find P ys"
  by (induction xs) (auto split: if_splits)

lemma find_append_Some: "List.find P xs = Some k \<Longrightarrow> List.find P (xs @ ys) = Some k"
  by (induction xs) (auto split: if_splits)

section \<open>The state of an element\<close>

text \<open>
  An element as its operations leave it: its attributes are attribute nodes with data of their own, and
  the pointers in the store are valid.
\<close>

definition attribute_ok :: "heap \<Rightarrow> ref \<Rightarrow> bool" where
  "attribute_ok h k \<longleftrightarrow>
     k < length (nodes h) \<and>
     (case body (nodes h ! k) of
        Attribute dn \<Rightarrow> (case data_ref dn of Some d \<Rightarrow> d < length (datas h) | None \<Rightarrow> False)
      | _ \<Rightarrow> False)"

definition data_of :: "heap \<Rightarrow> ref \<Rightarrow> ref" where
  "data_of h k = (case body (nodes h ! k) of Attribute dn \<Rightarrow> the (data_ref dn) | _ \<Rightarrow> 0)"

definition type_of :: "heap \<Rightarrow> ref \<Rightarrow> int" where
  "type_of h k = (case body (nodes h ! k) of Attribute dn \<Rightarrow> data_type dn | _ \<Rightarrow> 0)"

definition element_ok :: "heap \<Rightarrow> ref \<Rightarrow> ref list \<Rightarrow> bool" where
  "element_ok h i kids \<longleftrightarrow>
     GetAttributes i h = Inr kids \<and> (\<forall>k\<in>set kids. attribute_ok h k) \<and> inj_on (data_of h) (set kids) \<and>
     refs_ok (nodes h)"

text \<open>
  What a change of one element's attributes leaves as it was: the names of all nodes, the members of all
  but the element and its attribute group, and the element's group of elements.
\<close>

definition nodes_kept :: "ref \<Rightarrow> heap \<Rightarrow> heap \<Rightarrow> bool" where
  "nodes_kept i h h' \<longleftrightarrow> length (nodes h) \<le> length (nodes h') \<and>
     (\<forall>j < length (nodes h). node_name (nodes h' ! j) = node_name (nodes h ! j) \<and>
        (j = i \<or> (\<exists>els. element_at h i = Inr (els, Some j)) \<or> body (nodes h' ! j) = body (nodes h ! j))) \<and>
     (\<exists>els a a'. element_at h i = Inr (els, a) \<and> element_at h' i = Inr (els, a'))"

lemma attribute_data_ok:
  "attribute_ok h k \<Longrightarrow> attribute_data h k = Inr (type_of h k, data_of h k, datas h ! data_of h k)"
  by (auto simp: attribute_ok_def attribute_data_def data_node_at_def node_at_def data_of_def type_of_def data_at_def
      split: body.splits option.splits)

lemma attribute_ok_data: "attribute_ok h k \<Longrightarrow> data_of h k < length (datas h)"
  by (auto simp: attribute_ok_def data_of_def split: body.splits option.splits)

lemma GetAttributeInt_find:
  assumes "element_ok h i kids" and "name \<noteq> []"
  shows "GetAttributeInt e i name h =
           (case List.find (\<lambda>k. ieq e (node_name (nodes h ! k)) name) kids of
              None \<Rightarrow> Inl Invalid_argument
            | Some k \<Rightarrow> int_value e (type_of h k) (datas h ! data_of h k))"
proof -
  have g: "GetAttributes i h = Inr kids" and k: "\<forall>k\<in>set kids. attribute_ok h k"
    using assms(1) by (simp_all add: element_ok_def)
  show ?thesis
    unfolding GetAttributeInt_def read_attribute_def GetAttribute_find [OF assms(2) g]
    using k by (auto simp: attribute_data_ok dest: find_cong_Some split: option.split)
qed

section \<open>Writing an attribute that exists\<close>

lemma write_existing:
  assumes "element_ok h i kids" and "name \<noteq> []"
    and "List.find (\<lambda>k. ieq e (node_name (nodes h ! k)) name) kids = Some k"
    and "f (datas h ! data_of h k) = Inr pd"
  shows "write_attribute e i name ty f h = Inr (h\<lparr>datas := (datas h)[data_of h k := pd]\<rparr>)"
proof -
  have g: "GetAttributes i h = Inr kids" and k: "attribute_ok h k"
    using assms(1) find_cong_Some [OF assms(3)] by (auto simp: element_ok_def)
  have "GetAndMaybeCreateAttribute e i name ty 1 h = Inr (k, h)"
    by (simp add: GetAndMaybeCreateAttribute_def GetAttribute_find [OF assms(2) g] assms(3))
  then show ?thesis by (simp add: write_attribute_def attribute_data_ok [OF k] assms(4))
qed

lemma data_changed:
  fixes h d pd
  defines "h' \<equiv> h\<lparr>datas := (datas h)[d := pd]\<rparr>"
  shows "type_of h' k = type_of h k" "data_of h' k = data_of h k" "attribute_ok h' k = attribute_ok h k"
    "element_ok h' i kids = element_ok h i kids"
proof -
  show t: "type_of h' k = type_of h k" "data_of h' k = data_of h k" for k
    by (simp_all add: h'_def type_of_def data_of_def)
  show a: "attribute_ok h' k = attribute_ok h k" for k
    by (auto simp: h'_def attribute_ok_def split: body.splits option.splits)
  have n: "nodes h' = nodes h" by (simp add: h'_def)
  have "GetAttributes i h' = GetAttributes i h" unfolding GetAttributes_def element_at_def n by (rule refl)
  moreover have "inj_on (data_of h') S = inj_on (data_of h) S" for S by (simp add: t(2) inj_on_def)
  ultimately show "element_ok h' i kids = element_ok h i kids" by (simp add: element_ok_def a) (simp add: h'_def)
qed

section \<open>Making an attribute\<close>

text \<open>The group an attribute goes to, and the store after it was added.\<close>

lemma attributes_group_spec:
  assumes "GetAttributes i h = Inr kids" and "refs_ok (nodes h)"
    and "trim e ''attributes'' \<noteq> []"
  shows "\<exists>g h1 els removed own. attributes_group e i h = Inr (g, h1) \<and> datas h1 = datas h \<and>
           element_at h1 i = Inr (els, Some g) \<and> group_at (nodes h1) g = Inr (kids, removed, own) \<and>
           (\<exists>a. element_at h i = Inr (els, a) \<and> (a = Some g \<or> length (nodes h) \<le> g)) \<and>
           refs_ok (nodes h1) \<and> length (nodes h) \<le> length (nodes h1) \<and>
           (\<forall>j < length (nodes h). node_name (nodes h1 ! j) = node_name (nodes h ! j) \<and>
              (j \<noteq> i \<longrightarrow> body (nodes h1 ! j) = body (nodes h ! j)))"
  using assms(1)
proof (cases rule: GetAttributes_cases)
  case (none els)
  let ?grp = "\<lparr>node_name = ''attributes'', description = Some [], owner = Some i, modified = False, cached_product = None, body = Group [] [] True\<rparr>"
  let ?ns = "nodes h @ [?grp]"
  let ?g = "length (nodes h)"
  let ?h1 = "h\<lparr>nodes := update_node (\<lambda>n. n\<lparr>body := Element els (Some ?g)\<rparr>) i ?ns\<rparr>"
  have i: "i < length (nodes h)" "body (nodes h ! i) = Element els None"
    using none(1) by (auto simp: element_at_def node_at_def bind_res_Inr_iff split: if_splits body.splits)
  have "ProductNodeGroup (trim e) (Some i) ''attributes'' True (nodes h) = Inr (?g, ?ns)"
    using assms(3) by (simp add: ProductNodeGroup_def ProductNode_def SetOwner_def update_node_def)
  then have a: "attributes_group e i h = Inr (?g, ?h1)" using none by (simp add: attributes_group_def)
  have r: "refs_ok ?ns" using append_fresh [OF assms(2), of ?grp] i by auto
  have "refs_ok (nodes ?h1)" using update_keeps [OF r] by simp
  moreover have "element_at ?h1 i = Inr (els, Some ?g)"
    using i by (simp add: element_at_def node_at_def nth_update_node)
  moreover have "group_at (nodes ?h1) ?g = Inr (kids, [], True)"
    using i none by (simp add: group_at_def node_at_def nth_update_node)
  moreover have "\<forall>j < length (nodes h). node_name (nodes ?h1 ! j) = node_name (nodes h ! j) \<and>
              (j \<noteq> i \<longrightarrow> body (nodes ?h1 ! j) = body (nodes h ! j))"
    by (simp add: nth_update_node nth_append)
  ultimately show ?thesis using a none(1) by (intro exI [of _ ?g] exI [of _ ?h1]) auto
next
  case (some els g removed own)
  then have "attributes_group e i h = Inr (g, h)" by (simp add: attributes_group_def)
  then show ?thesis using some assms(2) by (intro exI [of _ g] exI [of _ h]) auto
qed

lemma attribute_ok_body:
  assumes "attribute_ok h k" and "body (nodes h' ! k) = body (nodes h ! k)" and "datas h' = datas h"
    and "length (nodes h) \<le> length (nodes h')"
  shows "attribute_ok h' k" "data_of h' k = data_of h k" "type_of h' k = type_of h k"
  using assms by (auto simp: attribute_ok_def data_of_def type_of_def split: body.splits option.splits)

lemma AddAttribute_spec:
  assumes ok: "element_ok h i kids" and k: "attribute_ok h k" "data_of h k \<notin> data_of h ` set kids"
    and "trim e ''attributes'' \<noteq> []"
  shows "\<exists>h'. AddAttribute e i (Some k) h = Inr h' \<and> element_ok h' i (kids @ [k]) \<and> datas h' = datas h \<and> nodes_kept i h h' \<and>
           (\<forall>j\<in>set (kids @ [k]). node_name (nodes h' ! j) = node_name (nodes h ! j) \<and>
              data_of h' j = data_of h j \<and> type_of h' j = type_of h j)"
proof -
  have g: "GetAttributes i h = Inr kids" "refs_ok (nodes h)" "inj_on (data_of h) (set kids)"
    and at: "\<forall>j\<in>set kids. attribute_ok h j"
    using ok by (simp_all add: element_ok_def)
  obtain g' h1 els removed own where a: "attributes_group e i h = Inr (g', h1)" "datas h1 = datas h"
    "element_at h1 i = Inr (els, Some g')" "group_at (nodes h1) g' = Inr (kids, removed, own)"
    "refs_ok (nodes h1)" "\<exists>a. element_at h i = Inr (els, a) \<and> (a = Some g' \<or> length (nodes h) \<le> g')"
    "length (nodes h) \<le> length (nodes h1)"
    "\<forall>j < length (nodes h). node_name (nodes h1 ! j) = node_name (nodes h ! j) \<and>
       (j \<noteq> i \<longrightarrow> body (nodes h1 ! j) = body (nodes h ! j))"
    using attributes_group_spec [of i h kids e] g assms(4) by blast
  have kl: "k < length (nodes h1)" using k(1) a(7) by (simp add: attribute_ok_def)
  obtain ns' where add: "group_Add g' (Some k) (nodes h1) = Inr (True, ns')"
    and c: "group_changed g' (kids @ [k]) removed own k (new_owner own g' k (nodes h1)) (nodes h1) ns'"
    using group_Add_spec [OF a(4,5) kl] by blast
  note p = group_changed_parts [OF c group_at_range [OF a(4)]]
  let ?h' = "h1\<lparr>nodes := ns'\<rparr>"
  have A: "AddAttribute e i (Some k) h = Inr ?h'" using a(1) add by (simp add: AddAttribute_def)
  have i: "i < length (nodes h1)" "body (nodes h1 ! i) = Element els (Some g')"
    using a(3) by (auto simp: element_at_def node_at_def bind_res_Inr_iff split: if_splits body.splits)
  have gb: "g' < length (nodes h1)" "\<exists>x y z. body (nodes h1 ! g') = Group x y z"
    using a(4) by (auto simp: group_at_def node_at_def bind_res_Inr_iff split: if_splits body.splits)
  have "i \<noteq> g'" using i gb by auto
  then have "element_at ?h' i = Inr (els, Some g')" using i p(2,7) by (simp add: element_at_def node_at_def)
  then have G: "GetAttributes i ?h' = Inr (kids @ [k])" using p(3) by (simp add: GetAttributes_def)
  have same: "node_name (nodes ?h' ! j) = node_name (nodes h ! j) \<and> body (nodes ?h' ! j) = body (nodes h ! j)"
    if j: "attribute_ok h j" for j
  proof -
    have jl: "j < length (nodes h)" and jb: "\<exists>dn. body (nodes h ! j) = Attribute dn"
      using j by (auto simp: attribute_ok_def split: body.splits)
    have "j \<noteq> i"
    proof
      assume "j = i"
      obtain x y where "body (nodes h ! i) = Element x y"
        using g(1) by (cases rule: GetAttributes_cases)
          (auto simp: element_at_def node_at_def bind_res_Inr_iff split: if_splits body.splits)
      then show False using jb \<open>j = i\<close> by simp
    qed
    then have b1: "body (nodes h1 ! j) = body (nodes h ! j)" "node_name (nodes h1 ! j) = node_name (nodes h ! j)"
      using a(8) jl by auto
    then have "j \<noteq> g'" using jb gb by auto
    then show ?thesis using b1 p(6,7) [of j] jl a(7) by simp
  qed
  have D: "datas ?h' = datas h" "length (nodes h) \<le> length (nodes ?h')" using a(2,7) p(2) by simp_all
  have K: "nodes_kept i h ?h'"
    unfolding nodes_kept_def
  proof (intro conjI allI impI)
    fix j assume j: "j < length (nodes h)"
    then show "node_name (nodes ?h' ! j) = node_name (nodes h ! j)" using a(7,8) p(6) [of j] by simp
    have "body (nodes ?h' ! j) = body (nodes h ! j)" if "j \<noteq> i" "j \<noteq> g'"
      using a(7,8) p(7) [of j] j that by simp
    then show "j = i \<or> (\<exists>els. element_at h i = Inr (els, Some j)) \<or> body (nodes ?h' ! j) = body (nodes h ! j)"
      using a(6) j by auto
  qed (use D(2) a(6) \<open>element_at ?h' i = Inr (els, Some g')\<close> in auto)
  have kept: "attribute_ok ?h' j" "data_of ?h' j = data_of h j" "type_of ?h' j = type_of h j"
    if "attribute_ok h j" for j
    using attribute_ok_body [OF that _ D] same [OF that] by simp_all
  have all: "\<forall>j\<in>set (kids @ [k]). attribute_ok h j" using at k(1) by simp
  have "inj_on (data_of ?h') (set (kids @ [k]))"
  proof -
    have "inj_on (data_of h) (set (kids @ [k]))" using g(3) k(2) by auto
    then show ?thesis using kept(2) all by (auto simp: inj_on_def)
  qed
  then have "element_ok ?h' i (kids @ [k])" using G kept(1) all p(1) by (simp add: element_ok_def)
  then show ?thesis using A D(1) K same kept(2,3) all by (intro exI [of _ ?h']) blast
qed

section \<open>Setting an integer attribute\<close>

lemma SetElemIntAt_reads:
  assumes "in_type pd v" and "int32_range v" and "0 < GetNumElems pd"
  shows "\<exists>pd'. SetElemIntAt lc pd 0 v = Inr pd' \<and> GetElemIntAt lc pd' 0 = Inr v"
proof (cases pd)
  case (UIntData ty a)
  then show ?thesis using assms word_of_int_read [OF assms(2)]
    by (simp add: UInt_class_def vec_put_def read_at_def vec_at_def)
next
  case (LongData a)
  have "sint (word_of_int v :: 64 word) = v"
    using assms(2) by (intro sint_of_int_id) (simp_all add: int32_range_def)
  moreover have "wrap_signed 32 v = v" using assms(2) by (intro wrap_signed_id) (simp_all add: int32_range_def)
  ultimately show ?thesis using assms LongData
    by (simp add: Long_class_def vec_put_def read_at_def vec_at_def)
qed (use assms in \<open>simp_all add: Byte_class_def UByte_class_def Short_class_def UShort_class_def Int_class_def
      vec_put_def read_at_def vec_at_def sint_of_int_id uint_of_int_id int32_range_def\<close>)

text \<open>The attribute of that name, if there is one, holds a number that \<open>v\<close> fits.\<close>

definition int_attribute :: "'p env \<Rightarrow> heap \<Rightarrow> ref list \<Rightarrow> string \<Rightarrow> int \<Rightarrow> bool" where
  "int_attribute e h kids name v \<longleftrightarrow>
     (\<forall>k. List.find (\<lambda>k. ieq e (node_name (nodes h ! k)) name) kids = Some k \<longrightarrow>
        type_of h k \<noteq> TYPE_ASCII \<and> in_type (datas h ! data_of h k) v \<and> 0 < GetNumElems (datas h ! data_of h k))"

lemma find_other:
  assumes "equivp eq" and "\<not> eq n m" and "List.find (\<lambda>k. eq (f k) m) xs = Some k"
  shows "List.find (\<lambda>k. eq (f k) n) xs \<noteq> Some k"
proof
  assume "List.find (\<lambda>k. eq (f k) n) xs = Some k"
  then have "eq (f k) n" using find_cong_Some [of "\<lambda>k. eq (f k) n" xs k] by simp
  moreover have "eq (f k) m" using find_cong_Some [OF assms(3)] by simp
  ultimately show False using assms(1,2) by (meson equivp_symp equivp_transp)
qed

text \<open>Setting an attribute changes no data but that of the attribute of the given name.\<close>

definition only_attribute_set :: "'p env \<Rightarrow> ref \<Rightarrow> ref list \<Rightarrow> string \<Rightarrow> heap \<Rightarrow> heap \<Rightarrow> bool" where
  "only_attribute_set e i kids name h h' \<longleftrightarrow> nodes_kept i h h' \<and>
     (\<forall>d < length (datas h). (\<exists>k\<in>set kids. ieq e (node_name (nodes h ! k)) name \<and> d = data_of h k) \<or> datas h' ! d = datas h ! d)"

lemma nodes_kept_same:
  assumes "GetAttributes i h = Inr kids"
  shows "nodes_kept i h (h\<lparr>datas := ds\<rparr>)"
proof -
  have "element_at (h\<lparr>datas := ds\<rparr>) i = element_at h i" by (simp add: element_at_def)
  moreover have "\<exists>els a. element_at h i = Inr (els, a)" using assms by (cases rule: GetAttributes_cases) auto
  ultimately show ?thesis by (auto simp: nodes_kept_def)
qed

lemma SetAttributeInt_existing:
  assumes ok: "element_ok h i kids" and eq: "equivp (ieq e)" and name: "name \<noteq> []" and v: "int32_range v"
    and k: "List.find (\<lambda>k. ieq e (node_name (nodes h ! k)) name) kids = Some k"
    and fits: "int_attribute e h kids name v"
  shows "\<exists>h'. SetAttributeInt e i name v h = Inr h' \<and> element_ok h' i kids \<and> only_attribute_set e i kids name h h' \<and>
           GetAttributeInt e i name h' = Inr v \<and>
           (\<forall>n. \<not> ieq e n name \<longrightarrow> GetAttributeInt e i n h' = GetAttributeInt e i n h)"
proof -
  have t: "type_of h k \<noteq> TYPE_ASCII" "in_type (datas h ! data_of h k) v" "0 < GetNumElems (datas h ! data_of h k)"
    using fits k by (simp_all add: int_attribute_def)
  obtain pd where pd: "SetElemIntAt (casts e) (datas h ! data_of h k) 0 v = Inr pd" "GetElemIntAt (casts e) pd 0 = Inr v"
    using SetElemIntAt_reads [OF t(2) v t(3)] by blast
  let ?h' = "h\<lparr>datas := (datas h)[data_of h k := pd]\<rparr>"
  have S: "SetAttributeInt e i name v h = Inr ?h'"
    unfolding SetAttributeInt_def by (rule write_existing [OF ok name k]) (rule pd(1))
  have ok': "element_ok ?h' i kids" using ok by (simp only: data_changed)
  have kk: "k \<in> set kids" and kn: "ieq e (node_name (nodes h ! k)) name" using find_cong_Some [OF k] by blast+
  have K: "only_attribute_set e i kids name h ?h'"
    unfolding only_attribute_set_def
  proof (intro conjI allI impI)
    show "nodes_kept i h ?h'" using nodes_kept_same ok by (auto simp: element_ok_def)
    show "(\<exists>k\<in>set kids. ieq e (node_name (nodes h ! k)) name \<and> d = data_of h k) \<or> datas ?h' ! d = datas h ! d" for d
      using kk kn by (cases "d = data_of h k") auto
  qed
  have d: "data_of h k < length (datas h)" using ok kk attribute_ok_data by (auto simp: element_ok_def)
  have f: "List.find (\<lambda>k. ieq e (node_name (nodes ?h' ! k)) n) kids
      = List.find (\<lambda>k. ieq e (node_name (nodes h ! k)) n) kids" for n by simp
  have "GetAttributeInt e i name ?h' = Inr v"
    using t(1) pd(2) d by (simp add: GetAttributeInt_find [OF ok' name] k data_changed int_value_def)
  moreover have "GetAttributeInt e i n ?h' = GetAttributeInt e i n h" if n: "\<not> ieq e n name" for n
  proof (cases "n = []")
    case True
    then show ?thesis using ok ok' by (simp add: GetAttributeInt_empty element_ok_def)
  next
    case False
    have "datas ?h' ! data_of h j = datas h ! data_of h j"
      if j: "List.find (\<lambda>k. ieq e (node_name (nodes h ! k)) n) kids = Some j" for j
    proof -
      have "j \<noteq> k" using find_other [OF eq n k] j by auto
      moreover have "j \<in> set kids" using find_cong_Some [OF j] by blast
      ultimately have "data_of h j \<noteq> data_of h k" using ok kk by (auto simp: element_ok_def inj_on_def)
      then show ?thesis by simp
    qed
    then show ?thesis
      by (simp add: GetAttributeInt_find [OF ok' False] GetAttributeInt_find [OF ok False] data_changed
          split: option.split)
  qed
  ultimately show ?thesis using S ok' K by blast
qed

lemma MetadataAttribute_int:
  assumes "trim e name \<noteq> []"
  shows "MetadataAttribute e name TYPE_INT32 1 h =
    (let d = length (datas h);
         dn = \<lparr>data_type = TYPE_INT32, num_elems = 1, read_only = False, node_unit = None, synthetic = None,
               data_ref = Some d\<rparr>;
         n = \<lparr>node_name = name, description = None, owner = None, modified = False, cached_product = None, body = Attribute dn\<rparr>
     in Inr (length (nodes h), \<lparr>nodes = nodes h @ [n], datas = datas h @ [IntData TYPE_INT32 [0]]\<rparr>))"
  using assms
  by (cases h) (simp add: MetadataAttribute_def CreateInstance_def type_codes new_data_def DataNode_of_def data_at_def
      ProductNode_def Let_def)

lemma new_attribute_ok:
  assumes h1: "h1 = \<lparr>nodes = nodes h @ [n], datas = datas h @ [pd]\<rparr>" and ok: "element_ok h i kids" and n: "owner n = None" "\<not> modified n" "body n = Attribute dn"
    and dn: "data_ref dn = Some (length (datas h))"
  shows "element_ok h1 i kids" "attribute_ok h1 (length (nodes h))" "data_of h1 (length (nodes h)) = length (datas h)"
    "data_of h1 (length (nodes h)) \<notin> data_of h1 ` set kids"
    "\<forall>j\<in>set kids. data_of h1 j = data_of h j \<and> type_of h1 j = type_of h j \<and> node_name (nodes h1 ! j) = node_name (nodes h ! j) \<and>
       datas h1 ! data_of h j = datas h ! data_of h j"
proof -
  have at: "attribute_ok h j" if "j \<in> set kids" for j using ok that by (simp add: element_ok_def)
  have l: "j < length (nodes h)" if "j \<in> set kids" for j using at [OF that] by (simp add: attribute_ok_def)
  have kept: "data_of h1 j = data_of h j" "type_of h1 j = type_of h j" "attribute_ok h1 j"
      "node_name (nodes h1 ! j) = node_name (nodes h ! j)"
    if "j \<in> set kids" for j
    using l [OF that] at [OF that]
    by (auto simp: h1 data_of_def type_of_def attribute_ok_def nth_append split: body.splits option.splits)
  show "\<forall>j\<in>set kids. data_of h1 j = data_of h j \<and> type_of h1 j = type_of h j \<and> node_name (nodes h1 ! j) = node_name (nodes h ! j) \<and>
       datas h1 ! data_of h j = datas h ! data_of h j"
    using kept attribute_ok_data [OF at] by (simp add: h1 nth_append)
  show "attribute_ok h1 (length (nodes h))" using n dn by (simp add: h1 attribute_ok_def)
  show new: "data_of h1 (length (nodes h)) = length (datas h)" using n dn by (simp add: h1 data_of_def)
  show "data_of h1 (length (nodes h)) \<notin> data_of h1 ` set kids"
    unfolding new using kept(1) attribute_ok_data [OF at] by force
  have G: "GetAttributes i h1 = Inr kids"
  proof -
    have "GetAttributes i h = Inr kids" using ok by (simp add: element_ok_def)
    then show ?thesis
      by (auto simp: h1 GetAttributes_def element_at_def group_at_def node_at_def bind_res_Inr_iff nth_append
          split: if_splits body.splits option.splits)
  qed
  have "inj_on (data_of h1) (set kids)" using ok kept(1) by (auto simp: element_ok_def inj_on_def)
  moreover have "refs_ok (nodes h1)"
    using append_fresh [of "nodes h" n] ok n by (simp_all add: h1 element_ok_def)
  ultimately show "element_ok h1 i kids" using G kept(3) by (simp add: element_ok_def)
qed

lemma nodes_kept_append:
  assumes "nodes_kept i h1 h2" and h1: "h1 = \<lparr>nodes = nodes h @ [n], datas = ds\<rparr>" and "GetAttributes i h = Inr kids"
  shows "nodes_kept i h (h2\<lparr>datas := ds'\<rparr>)"
proof -
  obtain els a where e: "element_at h i = Inr (els, a)"
    using assms(3) by (cases rule: GetAttributes_cases) auto
  then have i: "i < length (nodes h)" by (auto simp: element_at_def node_at_def bind_res_Inr_iff split: if_splits)
  then have same: "element_at h1 i = element_at h i" by (simp add: h1 element_at_def node_at_def nth_append)
  have set: "element_at (h2\<lparr>datas := ds'\<rparr>) i = element_at h2 i" by (simp add: element_at_def)
  have l: "length (nodes h1) = Suc (length (nodes h))" by (simp add: h1)
  have n: "nodes h1 ! j = nodes h ! j" if "j < length (nodes h)" for j using that by (simp add: h1 nth_append)
  have "\<forall>j < length (nodes h). node_name (nodes h2 ! j) = node_name (nodes h ! j) \<and>
      (j = i \<or> (\<exists>els. element_at h i = Inr (els, Some j)) \<or> body (nodes h2 ! j) = body (nodes h ! j))"
  proof (intro allI impI)
    fix j assume j: "j < length (nodes h)"
    then have "j < length (nodes h1)" using l by simp
    with assms(1) have "node_name (nodes h2 ! j) = node_name (nodes h1 ! j) \<and>
        (j = i \<or> (\<exists>els. element_at h1 i = Inr (els, Some j)) \<or> body (nodes h2 ! j) = body (nodes h1 ! j))"
      unfolding nodes_kept_def by blast
    then show "node_name (nodes h2 ! j) = node_name (nodes h ! j) \<and>
      (j = i \<or> (\<exists>els. element_at h i = Inr (els, Some j)) \<or> body (nodes h2 ! j) = body (nodes h ! j))"
      unfolding same n [OF j] .
  qed
  moreover have "length (nodes h) \<le> length (nodes h2)" "\<exists>els a a'. element_at h i = Inr (els, a) \<and> element_at h2 i = Inr (els, a')"
    using assms(1) l by (auto simp: nodes_kept_def same)
  ultimately show ?thesis unfolding nodes_kept_def set by simp
qed

lemma SetAttributeInt_new:
  assumes ok: "element_ok h i kids" and eq: "equivp (ieq e)" and name: "name \<noteq> []" and v: "int32_range v"
    and k: "List.find (\<lambda>k. ieq e (node_name (nodes h ! k)) name) kids = None"
    and trim: "trim e name \<noteq> []" "trim e ''attributes'' \<noteq> []"
  shows "\<exists>h'. SetAttributeInt e i name v h = Inr h' \<and> element_ok h' i (kids @ [length (nodes h)]) \<and>
           only_attribute_set e i kids name h h' \<and>
           GetAttributeInt e i name h' = Inr v \<and>
           (\<forall>n. \<not> ieq e n name \<longrightarrow> GetAttributeInt e i n h' = GetAttributeInt e i n h)"
proof -
  let ?k = "length (nodes h)" and ?d = "length (datas h)"
  let ?dn = "\<lparr>data_type = TYPE_INT32, num_elems = 1, read_only = False, node_unit = None, synthetic = None,
              data_ref = Some ?d\<rparr>"
  let ?n = "\<lparr>node_name = name, description = None, owner = None, modified = False, cached_product = None, body = Attribute ?dn\<rparr>"
  let ?h1 = "\<lparr>nodes = nodes h @ [?n], datas = datas h @ [IntData TYPE_INT32 [0]]\<rparr>"
  note new = new_attribute_ok [OF refl ok, where n = ?n and dn = ?dn and pd = "IntData TYPE_INT32 [0]", simplified]
  have m: "MetadataAttribute e name TYPE_INT32 1 h = Inr (?k, ?h1)"
    using MetadataAttribute_int [OF trim(1)] by (simp add: Let_def)
  obtain h2 where A: "AddAttribute e i (Some ?k) ?h1 = Inr h2" "element_ok h2 i (kids @ [?k])"
      "datas h2 = datas ?h1" "nodes_kept i ?h1 h2"
      "\<forall>j\<in>set (kids @ [?k]). node_name (nodes h2 ! j) = node_name (nodes ?h1 ! j) \<and>
         data_of h2 j = data_of ?h1 j \<and> type_of h2 j = type_of ?h1 j"
    using AddAttribute_spec [of ?h1 i kids ?k e] new(1,2,4) trim(2) by blast
  have g: "GetAttributes i h = Inr kids" using ok by (simp add: element_ok_def)
  have G: "GetAndMaybeCreateAttribute e i name TYPE_INT32 1 h = Inr (?k, h2)"
    by (simp add: GetAndMaybeCreateAttribute_def GetAttribute_find [OF name g] k m A(1))
  have dk: "data_of h2 ?k = ?d" "attribute_ok h2 ?k" using A(2,5) new(3) by (simp_all add: element_ok_def)
  let ?h' = "h2\<lparr>datas := (datas h2)[?d := IntData TYPE_INT32 [word_of_int v]]\<rparr>"
  have S: "SetAttributeInt e i name v h = Inr ?h'"
    unfolding SetAttributeInt_def write_attribute_def G
    by (simp add: attribute_data_ok [OF dk(2)] dk(1) A(3) Int_class_def vec_put_def)
  have ok': "element_ok ?h' i (kids @ [?k])" using A(2) by (simp only: data_changed)
  have names: "node_name (nodes h2 ! ?k) = name" using A(5) by simp
  have search: "List.find (\<lambda>k. ieq e (node_name (nodes h2 ! k)) n) kids
      = List.find (\<lambda>k. ieq e (node_name (nodes h ! k)) n) kids" for n
    using A(5) new(5) by (intro find_cong) auto
  have self: "ieq e name name" using eq by (simp add: equivp_reflp)
  have found: "List.find (\<lambda>k. ieq e (node_name (nodes h2 ! k)) name) (kids @ [?k]) = Some ?k"
    using find_append_None [of _ kids "[?k]"] k search [of name] names self by simp
  have "type_of h2 ?k = TYPE_INT32" using A(5) by (simp add: type_of_def)
  moreover have "sint (word_of_int v :: 32 word) = v"
    using v by (intro sint_of_int_id) (simp_all add: int32_range_def)
  ultimately have "GetAttributeInt e i name ?h' = Inr v"
    unfolding GetAttributeInt_find [OF ok' name] data_changed using found dk(1) A(3)
    by (simp add: int_value_def type_codes Int_class_def read_at_def vec_at_def)
  moreover have "GetAttributeInt e i n ?h' = GetAttributeInt e i n h" if n: "\<not> ieq e n name" for n
  proof (cases "n = []")
    case True
    have "GetAttributes i ?h' = Inr (kids @ [?k])" using ok' by (simp add: element_ok_def)
    then show ?thesis using True g by (simp add: GetAttributeInt_empty)
  next
    case False
    have "\<not> ieq e name n" using n eq by (meson equivp_symp)
    then have f: "List.find (\<lambda>k. ieq e (node_name (nodes h2 ! k)) n) (kids @ [?k])
        = List.find (\<lambda>k. ieq e (node_name (nodes h ! k)) n) kids"
      using find_append_None [of _ kids "[?k]"] find_append_Some [of _ kids _ "[?k]"] search [of n] names
      by (cases "List.find (\<lambda>k. ieq e (node_name (nodes h ! k)) n) kids") auto
    have "datas ?h' ! data_of h2 j = datas h ! data_of h j \<and> type_of h2 j = type_of h j"
      if j: "List.find (\<lambda>k. ieq e (node_name (nodes h ! k)) n) kids = Some j" for j
    proof -
      have jk: "j \<in> set kids" using find_cong_Some [OF j] by blast
      then have "attribute_ok h j" using ok by (simp add: element_ok_def)
      then show ?thesis using A(3,5) new(5) jk attribute_ok_data [of h j] by (simp add: nth_append)
    qed
    then show ?thesis
      by (simp add: GetAttributeInt_find [OF ok' False] GetAttributeInt_find [OF ok False] data_changed f
          split: option.split)
  qed
  moreover have "only_attribute_set e i kids name h ?h'"
    using nodes_kept_append [OF A(4) refl g] by (simp add: only_attribute_set_def A(3) nth_append)
  ultimately show ?thesis using S ok' by blast
qed


definition sample_env :: "int env" where
  "sample_env = \<lparr>ieq = iequals_upper, trim = (\<lambda>s. s), casts = sample_casts, times = sample_calendar\<rparr>"

definition sample_heap :: heap where
  "sample_heap =
     \<lparr>nodes = [\<lparr>node_name = ''metadata'', description = None, owner = None, modified = False, cached_product = None, body = Element None None\<rparr>],
      datas = []\<rparr>"


text \<open>
  Text attributes are not set to a number: \<open>SetAttributeInt\<close> stores the number as the code of the first
  character, so \<open>GetAttributeInt\<close> reads another number or throws.
\<close>

lemma SetElemIntAt_ASCII:
  "SetElemIntAt lc (ASCIIData (c # cs)) 0 v = Inr (ASCIIData (word_of_int v # cs))"
  "int_value e TYPE_ASCII (ASCIIData (word_of_int v # cs)) = stoi (word_char (word_of_int v) # map word_char cs)"
  by (simp_all add: ASCII_class_def Byte_class_def vec_put_def int_value_def GetElemString_def ASCII_GetElemString_def)

section \<open>What the product does not learn\<close>

text \<open>
  A product as a reader leaves it: its metadata root has one attribute and \<open>SetModified(false)\<close> was called
  on the product; and the product after another attribute was set.
\<close>

definition loaded_product :: "heap res" where
  "loaded_product =
     bind_res (CreateProduct (trim sample_env) ''S1A'' ''SLC'' []) (\<lambda>(p, ns).
     bind_res (SetAttributeInt sample_env 1 ''orbit'' 7 \<lparr>nodes = ns, datas = []\<rparr>)
       (on_nodes (product_SetModified_false p)))"

definition changed_product :: "heap res" where
  "changed_product = bind_res loaded_product (SetAttributeInt sample_env 1 ''pass'' 8)"

lemmas run_rules = SetAttributeInt_def write_attribute_def GetAndMaybeCreateAttribute_def GetAttribute_def
  MetadataAttribute_def CreateInstance_def type_codes new_data_def DataNode_of_def data_at_def
  ProductNode_def Let_def AddAttribute_def attributes_group_def element_at_def node_at_def ProductNodeGroup_def
  SetOwner_def update_node_def group_Add_def group_at_def list_Add_def SetModified_true.simps
  attribute_data_def data_node_at_def Int_class_def vec_put_def on_nodes_def product_SetModified_false_def
  group_SetModified_false_def node_SetModified_false_def Get_name_def IndexOf_name_def

lemma names: "\<not> iequals_upper ''orbit'' ''pass''" "iequals_upper ''pass'' ''pass''" by code_simp+

text \<open>
  A missed change: after \<open>SetModified(false)\<close> on a product with metadata the product and its metadata
  root are unmodified, but the attribute group of the root still is modified; so when another attribute
  is then set, the group does not pass the change on and the product stays unmodified, although its
  metadata has changed.
\<close>
theorem product_misses_change:
  "\<exists>h h'. loaded_product = Inr h \<and> changed_product = Inr h' \<and>
     \<not> modified (nodes h ! 0) \<and> \<not> modified (nodes h ! 1) \<and>
     owner (nodes h ! 10) = Some 1 \<and> owner (nodes h ! 1) = Some 0 \<and> modified (nodes h ! 10) \<and>
     GetAttributeInt sample_env 1 ''pass'' h = Inl Invalid_argument \<and>
     GetAttributeInt sample_env 1 ''pass'' h' = Inr 8 \<and> \<not> modified (nodes h' ! 0)"
  by (simp add: changed_product_def loaded_product_def sample_env_def CreateProduct_sample new_product_def names
      run_rules GetAttributeInt_def read_attribute_def int_value_def read_at_def vec_at_def)

text \<open>Cloning an attribute reads its flag \<open>synthetic_\<close>, which no constructor sets.\<close>

lemma clone_reads_synthetic:
  assumes "attribute_ok h k" and "synthetic dn = None" and "body (nodes h ! k) = Attribute dn"
    and "trim e (node_name (nodes h ! k)) \<noteq> []"
    and "CreateDeepClone (casts e) (datas h ! data_of h k) = Inr pd"
  shows "attribute_CreateDeepClone e k h = Inl Undefined_behaviour"
  using assms
  by (auto simp: attribute_CreateDeepClone_def attribute_ok_def data_of_def node_at_def data_node_at_def data_at_def
      new_data_def DataNode_of_def ProductNode_def IsSynthetic_def Let_def split: option.splits)

end
