(* ===== verification/OrbitVectors.thy ===== *)
theory OrbitVectors
  imports Utc
begin

text \<open>
  Orbit state vectors (\<^verbatim>\<open>orbit_state_vectors.cc\<close>): the list without the vectors whose time does not
  increase, and the position and velocity of the satellite at a time, interpolated by a Lagrange
  polynomial through a window of at most \<open>NV\<close> vectors around that time. \<open>GetPositionVelocity\<close> keeps what it
  computed in a map from times, which is the state of the object here.
\<close>

record orbit_state_vector =
  osv_time :: product_data
  time_mjd :: fp
  x_pos :: fp
  y_pos :: fp
  z_pos :: fp
  x_vel :: fp
  y_vel :: fp
  z_vel :: fp

record pos_vector =
  px :: fp
  py :: fp
  pz :: fp

record position_velocity =
  pv_position :: pos_vector
  pv_velocity :: pos_vector

record orbit_state_vector_computation =
  comp_time_mjd :: fp
  comp_position :: pos_vector
  comp_velocity :: pos_vector

record orbit_state_vectors =
  vectors :: "orbit_state_vector list"
  computations :: "orbit_state_vector_computation list"
  osv_dt :: fp
  sensor_position :: "pos_vector list"
  sensor_velocity :: "pos_vector list"
  time_map :: "fp \<rightharpoonup> position_velocity"

definition OrbitStateVector ::
  "lexical_cast \<Rightarrow> product_data \<Rightarrow> fp \<Rightarrow> fp \<Rightarrow> fp \<Rightarrow> fp \<Rightarrow> fp \<Rightarrow> fp \<Rightarrow> orbit_state_vector res" where
  "OrbitStateVector lc t xp yp zp xv yv zv =
     bind_res (GetMjd lc t) (\<lambda>mjd.
       Inr \<lparr>osv_time = t, time_mjd = mjd, x_pos = xp, y_pos = yp, z_pos = zp,
            x_vel = xv, y_vel = yv, z_vel = zv\<rparr>)"

definition NV :: int where "NV = 8"

definition zero_vector :: pos_vector where
  "zero_vector = \<lparr>px = Fin 0, py = Fin 0, pz = Fin 0\<rparr>"

section \<open>Operations\<close>

text \<open>A vector is kept when its time is above that of the last one kept.\<close>

definition RemoveRedundantVectors :: "orbit_state_vector list \<Rightarrow> orbit_state_vector list" where
  "RemoveRedundantVectors vs =
     snd (fold (\<lambda>(i, v) (current_time, out).
                  if i = 0 \<or> fgt (time_mjd v) current_time then (time_mjd v, out @ [v])
                  else (current_time, out))
            (zip [0..<length vs] vs) (Fin 0, []))"

text \<open>The first and the last index of the vectors the polynomial goes through.\<close>

definition vector_window :: "orbit_state_vector list \<Rightarrow> fp \<Rightarrow> fp \<Rightarrow> (int \<times> int) res" where
  "vector_window vs dt time =
     (if int (length vs) \<le> NV then Inr (0, int (length vs) - 1)
      else bind_res (vec_at vs 0) (\<lambda>v0.
           bind_res (fp_to_int32 (fdiv f64 (fsub f64 time (time_mjd v0)) dt)) (\<lambda>k.
           bind_res (int_result (k - NV div 2)) (\<lambda>k'.
           let i0 = max (k' + 1) 0
           in bind_res (int_result (i0 + NV)) (\<lambda>e.
              let i_n = min (e - 1) (int (length vs) - 1)
              in Inr (if i_n < int (length vs) - 1 then i0 else i_n - NV + 1, i_n))))))"

definition lagrange_weight :: "orbit_state_vector list \<Rightarrow> int \<Rightarrow> int \<Rightarrow> fp \<Rightarrow> int \<Rightarrow> fp \<Rightarrow> fp res" where
  "lagrange_weight vs i0 i_n time i t_i =
     fold_res (\<lambda>j weight.
        if j \<noteq> i then
          bind_res (vec_at vs j) (\<lambda>v.
            let time2 = time_mjd v
            in Inr (fmul f64 weight (fdiv f64 (fsub f64 time time2) (fsub f64 t_i time2))))
        else Inr weight)
       [i0..i_n] (Fin 1)"

definition add_position :: "fp \<Rightarrow> orbit_state_vector \<Rightarrow> pos_vector \<Rightarrow> pos_vector" where
  "add_position weight v p =
     \<lparr>px = fadd f64 (px p) (fmul f64 weight (x_pos v)),
      py = fadd f64 (py p) (fmul f64 weight (y_pos v)),
      pz = fadd f64 (pz p) (fmul f64 weight (z_pos v))\<rparr>"

definition add_velocity :: "fp \<Rightarrow> orbit_state_vector \<Rightarrow> pos_vector \<Rightarrow> pos_vector" where
  "add_velocity weight v p =
     \<lparr>px = fadd f64 (px p) (fmul f64 weight (x_vel v)),
      py = fadd f64 (py p) (fmul f64 weight (y_vel v)),
      pz = fadd f64 (pz p) (fmul f64 weight (z_vel v))\<rparr>"

definition GetPosition :: "orbit_state_vectors \<Rightarrow> fp \<Rightarrow> pos_vector res" where
  "GetPosition os time =
     bind_res (vector_window (vectors os) (osv_dt os) time) (\<lambda>(i0, i_n).
       fold_res (\<lambda>i p.
          bind_res (vec_at (vectors os) i) (\<lambda>orb_i.
          bind_res (lagrange_weight (vectors os) i0 i_n time i (time_mjd orb_i)) (\<lambda>weight.
            Inr (add_position weight orb_i p))))
         [i0..i_n] zero_vector)"

definition GetVelocity :: "orbit_state_vectors \<Rightarrow> fp \<Rightarrow> pos_vector res" where
  "GetVelocity os time =
     bind_res (vector_window (vectors os) (osv_dt os) time) (\<lambda>(i0, i_n).
       fold_res (\<lambda>i p.
          bind_res (vec_at (vectors os) i) (\<lambda>orb_i.
          bind_res (lagrange_weight (vectors os) i0 i_n time i (time_mjd orb_i)) (\<lambda>weight.
            Inr (add_velocity weight orb_i p))))
         [i0..i_n] zero_vector)"

text \<open>
  \<open>GetPositionVelocity\<close> first looks into the map; not-a-number is never found there, because it does not
  equal itself.
\<close>

definition time_find :: "(fp \<rightharpoonup> position_velocity) \<Rightarrow> fp \<Rightarrow> position_velocity option" where
  "time_find m time = (if feq time time then m time else None)"

definition GetPositionVelocity ::
  "orbit_state_vectors \<Rightarrow> fp \<Rightarrow> (position_velocity \<times> orbit_state_vectors) res" where
  "GetPositionVelocity os time =
     (case time_find (time_map os) time of
        Some pv \<Rightarrow> Inr (pv, os)
      | None \<Rightarrow>
          bind_res (vector_window (vectors os) (osv_dt os) time) (\<lambda>(i0, i_n).
          bind_res
            (fold_res (\<lambda>i pv.
               bind_res (vec_at (vectors os) i) (\<lambda>orb_i.
               bind_res (lagrange_weight (vectors os) i0 i_n time i (time_mjd orb_i)) (\<lambda>weight.
                 Inr \<lparr>pv_position = add_position weight orb_i (pv_position pv),
                      pv_velocity = add_velocity weight orb_i (pv_velocity pv)\<rparr>)))
              [i0..i_n] \<lparr>pv_position = zero_vector, pv_velocity = zero_vector\<rparr>) (\<lambda>pv.
          Inr (pv, os\<lparr>time_map := (time_map os)(time \<mapsto> pv)\<rparr>))))"

definition computation_of :: "orbit_state_vector \<Rightarrow> orbit_state_vector_computation" where
  "computation_of v =
     \<lparr>comp_time_mjd = time_mjd v,
      comp_position = \<lparr>px = x_pos v, py = y_pos v, pz = z_pos v\<rparr>,
      comp_velocity = \<lparr>px = x_vel v, py = y_vel v, pz = z_vel v\<rparr>\<rparr>"

text \<open>
  Both constructors; reading the last element of an empty list is undefined. The second one also fills
  the sensor position and velocity of every line of the image.
\<close>

definition OrbitStateVectors :: "orbit_state_vector list \<Rightarrow> orbit_state_vectors res" where
  "OrbitStateVectors vs =
     (let vs' = RemoveRedundantVectors vs
      in if vs' = [] then Inl Undefined_behaviour
         else bind_res (vec_at vs' 0) (\<lambda>v0.
           Inr \<lparr>vectors = vs', computations = map computation_of vs',
                osv_dt = fdiv f64 (fsub f64 (time_mjd (last vs')) (time_mjd v0))
                               (fsub f64 (fp_of_int f64 (int (length vs'))) (Fin 1)),
                sensor_position = [], sensor_velocity = [], time_map = Map.empty\<rparr>))"

definition OrbitStateVectors_lines ::
  "orbit_state_vector list \<Rightarrow> fp \<Rightarrow> fp \<Rightarrow> int \<Rightarrow> orbit_state_vectors res" where
  "OrbitStateVectors_lines vs first_line_utc line_time_interval source_image_height =
     bind_res (OrbitStateVectors vs) (\<lambda>os.
     if source_image_height < 0 then Inl Length_error
     else let blank = replicate (nat source_image_height) zero_vector
          in fold_res (\<lambda>i os.
               let time = fadd f64 first_line_utc (fmul f64 (fp_of_int f64 i) line_time_interval)
               in bind_res (GetPositionVelocity os time) (\<lambda>(pv, os).
                  bind_res (vec_put (sensor_position os) i (pv_position pv)) (\<lambda>ps.
                  bind_res (vec_put (sensor_velocity os) i (pv_velocity pv)) (\<lambda>vs.
                    Inr (os\<lparr>sensor_position := ps, sensor_velocity := vs\<rparr>)))))
             [0..source_image_height - 1] (os\<lparr>sensor_position := blank, sensor_velocity := blank\<rparr>))"

section \<open>Kept vectors\<close>

text \<open>The vectors kept after one of time \<open>t\<close>, as a recursive function.\<close>

fun keep_later :: "fp \<Rightarrow> orbit_state_vector list \<Rightarrow> orbit_state_vector list" where
  "keep_later t [] = []"
| "keep_later t (v # vs) =
     (if flt t (time_mjd v) then v # keep_later (time_mjd v) vs else keep_later t vs)"

lemma keep_later_fold:
  "0 < k \<Longrightarrow>
   snd (fold (\<lambda>(i, v) (t, out). if i = 0 \<or> flt t (time_mjd v) then (time_mjd v, out @ [v]) else (t, out))
          (zip [k..<k + length vs] vs) (t, out)) = out @ keep_later t vs"
proof (induction vs arbitrary: k t out)
  case (Cons v vs)
  have "zip [k..<k + length (v # vs)] (v # vs) = (k, v) # zip [Suc k..<Suc k + length vs] vs"
    by (simp add: upt_conv_Cons del: upt_Suc)
  then show ?case using Cons.prems Cons.IH [of "Suc k"] by (simp del: upt_Suc)
qed simp

lemma RemoveRedundantVectors_Nil [simp]: "RemoveRedundantVectors [] = []"
  by (simp add: RemoveRedundantVectors_def)

lemma RemoveRedundantVectors_Cons [simp]:
  "RemoveRedundantVectors (v # vs) = v # keep_later (time_mjd v) vs"
proof -
  have "zip [0..<length (v # vs)] (v # vs) = (0, v) # zip [1..<1 + length vs] vs"
    by (simp add: upt_conv_Cons del: upt_Suc)
  then show ?thesis using keep_later_fold [of 1 vs "time_mjd v" "[v]"]
    by (simp add: RemoveRedundantVectors_def del: upt_Suc)
qed

lemma keep_later_above: "v \<in> set (keep_later t vs) \<Longrightarrow> flt t (time_mjd v)"
  by (induction vs arbitrary: t) (auto split: if_splits intro: flt_trans)

lemma keep_later_sorted: "sorted_wrt (\<lambda>v w. flt (time_mjd v) (time_mjd w)) (keep_later t vs)"
  by (induction vs arbitrary: t) (auto dest: keep_later_above)

lemma keep_later_subset: "set (keep_later t vs) \<subseteq> set vs"
  by (induction vs arbitrary: t) auto

lemma RemoveRedundantVectors_subset: "set (RemoveRedundantVectors vs) \<subseteq> set vs"
  using keep_later_subset by (cases vs) fastforce+

lemma keep_later_id:
  "sorted_wrt (\<lambda>v w. flt (time_mjd v) (time_mjd w)) vs \<Longrightarrow> \<forall>v\<in>set vs. flt t (time_mjd v) \<Longrightarrow>
   keep_later t vs = vs"
  by (induction vs arbitrary: t) auto

lemma RemoveRedundantVectors_sorted:
  "sorted_wrt (\<lambda>v w. flt (time_mjd v) (time_mjd w)) (RemoveRedundantVectors vs)"
  by (cases vs) (auto simp: keep_later_sorted dest: keep_later_above)

lemma RemoveRedundantVectors_id:
  "sorted_wrt (\<lambda>v w. flt (time_mjd v) (time_mjd w)) vs \<Longrightarrow> RemoveRedundantVectors vs = vs"
  by (cases vs) (simp_all add: keep_later_id)

section \<open>The window\<close>

lemma vector_window_range:
  assumes "vector_window vs dt time = Inr (i0, i_n)"
  shows "0 \<le> i0" and "i_n < int (length vs)" and "i_n - i0 + 1 = min NV (int (length vs))"
  using assms
  by (auto simp: vector_window_def bind_res_Inr_iff int_result_Inr_iff Let_def NV_def split: if_splits)

lemma vector_window_errors: "vector_window vs dt time = Inl e \<Longrightarrow> e = Undefined_behaviour"
proof -
  assume a: "vector_window vs dt time = Inl e"
  have "fp_to_int32 x = Inl e \<Longrightarrow> e = Undefined_behaviour" for x
    by (cases x) (auto simp: fp_to_int32_def split: if_splits)
  with a show ?thesis
    by (auto simp: vector_window_def bind_res_Inl_iff int_result_def vec_simps NV_def Let_def split: if_splits)
qed

text \<open>Inside the window every access succeeds, and the loops are plain folds.\<close>

definition weight_of :: "fp list \<Rightarrow> int \<Rightarrow> int \<Rightarrow> fp \<Rightarrow> int \<Rightarrow> fp" where
  "weight_of ts i0 i_n time i =
     fold (\<lambda>j weight.
        if j \<noteq> i
        then fmul f64 weight (fdiv f64 (fsub f64 time (ts ! nat j)) (fsub f64 (ts ! nat i) (ts ! nat j)))
        else weight) [i0..i_n] (Fin 1)"

lemma lagrange_weight_eq:
  assumes "0 \<le> i0" and "i_n < int (length vs)" and "i \<in> {i0..i_n}"
  shows "lagrange_weight vs i0 i_n time i (time_mjd (vs ! nat i)) =
         Inr (weight_of (map time_mjd vs) i0 i_n time i)"
proof -
  have "lagrange_weight vs i0 i_n time i (time_mjd (vs ! nat i)) =
      Inr (fold (\<lambda>j weight. if j \<noteq> i then fmul f64 weight (fdiv f64 (fsub f64 time (time_mjd (vs ! nat j)))
        (fsub f64 (time_mjd (vs ! nat i)) (time_mjd (vs ! nat j)))) else weight) [i0..i_n] (Fin 1))"
    unfolding lagrange_weight_def by (rule fold_res_total) (use assms in \<open>auto simp: vec_at_ok Let_def\<close>)
  also have "\<dots> = Inr (weight_of (map time_mjd vs) i0 i_n time i)"
    unfolding weight_of_def by (intro arg_cong [where f = Inr] fold_cong) (use assms in \<open>auto simp: fun_eq_iff\<close>)
  finally show ?thesis .
qed

lemma interpolation_fold:
  assumes "0 \<le> i0" and "i_n < int (length vs)"
  shows "fold_res (\<lambda>i p. bind_res (vec_at vs i) (\<lambda>orb_i.
           bind_res (lagrange_weight vs i0 i_n time i (time_mjd orb_i)) (\<lambda>weight.
             Inr (add weight orb_i p)))) [i0..i_n] p =
         Inr (fold (\<lambda>i. add (weight_of (map time_mjd vs) i0 i_n time i) (vs ! nat i)) [i0..i_n] p)"
  by (rule fold_res_total) (use assms in \<open>auto simp: vec_at_ok lagrange_weight_eq\<close>)

definition position_at :: "orbit_state_vectors \<Rightarrow> fp \<Rightarrow> int \<times> int \<Rightarrow> pos_vector" where
  "position_at os time w =
     fold (\<lambda>i. add_position (weight_of (map time_mjd (vectors os)) (fst w) (snd w) time i) (vectors os ! nat i))
       [fst w..snd w] zero_vector"

definition velocity_at :: "orbit_state_vectors \<Rightarrow> fp \<Rightarrow> int \<times> int \<Rightarrow> pos_vector" where
  "velocity_at os time w =
     fold (\<lambda>i. add_velocity (weight_of (map time_mjd (vectors os)) (fst w) (snd w) time i) (vectors os ! nat i))
       [fst w..snd w] zero_vector"

lemma GetPosition_eq:
  "GetPosition os time = bind_res (vector_window (vectors os) (osv_dt os) time) (\<lambda>w. Inr (position_at os time w))"
proof (cases "vector_window (vectors os) (osv_dt os) time")
  case (Inr w)
  then show ?thesis
    using vector_window_range [of "vectors os" "osv_dt os" time "fst w" "snd w"]
    by (simp add: GetPosition_def position_at_def interpolation_fold split_beta)
qed (simp add: GetPosition_def)

lemma GetVelocity_eq:
  "GetVelocity os time = bind_res (vector_window (vectors os) (osv_dt os) time) (\<lambda>w. Inr (velocity_at os time w))"
proof (cases "vector_window (vectors os) (osv_dt os) time")
  case (Inr w)
  then show ?thesis
    using vector_window_range [of "vectors os" "osv_dt os" time "fst w" "snd w"]
    by (simp add: GetVelocity_def velocity_at_def interpolation_fold split_beta)
qed (simp add: GetVelocity_def)

lemma fold_pair:
  "fold (\<lambda>i pv. \<lparr>pv_position = f i (pv_position pv), pv_velocity = g i (pv_velocity pv)\<rparr>) is
     \<lparr>pv_position = p, pv_velocity = v\<rparr> = \<lparr>pv_position = fold f is p, pv_velocity = fold g is v\<rparr>"
  by (induction "is" arbitrary: p v) simp_all

lemma GetPositionVelocity_eq:
  "GetPositionVelocity os time =
     (case time_find (time_map os) time of
        Some pv \<Rightarrow> Inr (pv, os)
      | None \<Rightarrow>
          bind_res (vector_window (vectors os) (osv_dt os) time) (\<lambda>w.
            let pv = \<lparr>pv_position = position_at os time w, pv_velocity = velocity_at os time w\<rparr>
            in Inr (pv, os\<lparr>time_map := (time_map os)(time \<mapsto> pv)\<rparr>)))"
proof (cases "vector_window (vectors os) (osv_dt os) time")
  case (Inr w)
  obtain i0 i_n where w: "w = (i0, i_n)" by (cases w)
  note r = vector_window_range [OF Inr [unfolded w]]
  let ?g = "\<lambda>weight orb pv. \<lparr>pv_position = add_position weight orb (pv_position pv),
    pv_velocity = add_velocity weight orb (pv_velocity pv)\<rparr>"
  let ?w = "weight_of (map time_mjd (vectors os)) i0 i_n time"
  show ?thesis
    using interpolation_fold [OF r(1,2), where add = ?g]
      fold_pair [where f = "\<lambda>i. add_position (?w i) (vectors os ! nat i)"
        and g = "\<lambda>i. add_velocity (?w i) (vectors os ! nat i)"]
    by (simp add: GetPositionVelocity_def Inr w position_at_def velocity_at_def Let_def
        cong: option.case_cong)
qed (simp add: GetPositionVelocity_def cong: option.case_cong)

section \<open>The map of times\<close>

definition cache_ok :: "orbit_state_vectors \<Rightarrow> bool" where
  "cache_ok os \<longleftrightarrow>
     (\<forall>t pv. time_map os t = Some pv \<longrightarrow>
        GetPosition os t = Inr (pv_position pv) \<and> GetVelocity os t = Inr (pv_velocity pv))"

lemma interpolation_cong:
  "vectors os' = vectors os \<Longrightarrow> osv_dt os' = osv_dt os \<Longrightarrow>
   GetPosition os' = GetPosition os \<and> GetVelocity os' = GetVelocity os"
  by (simp add: GetPosition_def GetVelocity_def fun_eq_iff)

lemma GetPositionVelocity_ok:
  assumes "GetPositionVelocity os time = Inr (pv, os')" and "cache_ok os"
  shows "GetPosition os time = Inr (pv_position pv)" and "GetVelocity os time = Inr (pv_velocity pv)"
    and "cache_ok os'" and "os' = os\<lparr>time_map := time_map os'\<rparr>"
proof -
  have "GetPosition os time = Inr (pv_position pv) \<and> GetVelocity os time = Inr (pv_velocity pv) \<and>
      cache_ok os' \<and> os' = os\<lparr>time_map := time_map os'\<rparr>"
  proof (cases "time_find (time_map os) time")
    case (Some pv')
    then have "pv' = pv" and "os' = os" using assms(1) by (simp_all add: GetPositionVelocity_eq)
    moreover have "time_map os time = Some pv'" using Some by (simp add: time_find_def split: if_splits)
    ultimately show ?thesis using assms(2) by (simp add: cache_ok_def)
  next
    case None
    then obtain w where w: "vector_window (vectors os) (osv_dt os) time = Inr w"
      and pv: "pv = \<lparr>pv_position = position_at os time w, pv_velocity = velocity_at os time w\<rparr>"
      and os': "os' = os\<lparr>time_map := (time_map os)(time \<mapsto> pv)\<rparr>"
      using assms(1) by (auto simp: GetPositionVelocity_eq bind_res_Inr_iff Let_def)
    have q: "GetPosition os time = Inr (pv_position pv)" "GetVelocity os time = Inr (pv_velocity pv)"
      by (simp_all add: GetPosition_eq GetVelocity_eq w pv)
    have "GetPosition os' = GetPosition os \<and> GetVelocity os' = GetVelocity os"
      by (rule interpolation_cong) (simp_all add: os')
    then have "cache_ok os'" using q assms(2) by (simp add: cache_ok_def os')
    with q show ?thesis by (simp add: os')
  qed
  then show "GetPosition os time = Inr (pv_position pv)" and "GetVelocity os time = Inr (pv_velocity pv)"
    and "cache_ok os'" and "os' = os\<lparr>time_map := time_map os'\<rparr>" by blast+
qed

lemma OrbitStateVectors_Inr:
  "OrbitStateVectors vs = Inr os \<Longrightarrow>
   vectors os = RemoveRedundantVectors vs \<and> vectors os \<noteq> [] \<and> time_map os = Map.empty"
  by (auto simp: OrbitStateVectors_def bind_res_Inr_iff Let_def split: if_splits)

section \<open>Sensor positions of the lines\<close>

definition line_time :: "fp \<Rightarrow> fp \<Rightarrow> int \<Rightarrow> fp" where
  "line_time first_line_utc line_time_interval i =
     fadd f64 first_line_utc (fmul f64 (fp_of_int f64 i) line_time_interval)"

definition fill_line :: "fp \<Rightarrow> fp \<Rightarrow> int \<Rightarrow> orbit_state_vectors \<Rightarrow> orbit_state_vectors res" where
  "fill_line first_line_utc line_time_interval i os =
     bind_res (GetPositionVelocity os (line_time first_line_utc line_time_interval i)) (\<lambda>(pv, os).
     bind_res (vec_put (sensor_position os) i (pv_position pv)) (\<lambda>ps.
     bind_res (vec_put (sensor_velocity os) i (pv_velocity pv)) (\<lambda>vs.
       Inr (os\<lparr>sensor_position := ps, sensor_velocity := vs\<rparr>))))"

text \<open>What holds when the lines below \<open>n\<close> have been filled.\<close>

definition lines_filled :: "orbit_state_vectors \<Rightarrow> fp \<Rightarrow> fp \<Rightarrow> int \<Rightarrow> int \<Rightarrow> orbit_state_vectors \<Rightarrow> bool" where
  "lines_filled os0 t0 dt h n os \<longleftrightarrow>
     cache_ok os \<and> vectors os = vectors os0 \<and> osv_dt os = osv_dt os0 \<and>
     int (length (sensor_position os)) = h \<and> int (length (sensor_velocity os)) = h \<and>
     (\<forall>i. 0 \<le> i \<and> i < n \<longrightarrow>
        GetPosition os0 (line_time t0 dt i) = Inr (sensor_position os ! nat i) \<and>
        GetVelocity os0 (line_time t0 dt i) = Inr (sensor_velocity os ! nat i))"

lemma lines_filled_step:
  assumes "lines_filled os0 t0 dt h n os" and "0 \<le> n" and "n < h" and "fill_line t0 dt n os = Inr os'"
  shows "lines_filled os0 t0 dt h (n + 1) os'"
proof -
  have f: "cache_ok os" "vectors os = vectors os0" "osv_dt os = osv_dt os0"
    "int (length (sensor_position os)) = h" "int (length (sensor_velocity os)) = h"
    using assms(1) by (simp_all add: lines_filled_def)
  obtain pv os1 ps vs where q: "GetPositionVelocity os (line_time t0 dt n) = Inr (pv, os1)"
    and ps: "vec_put (sensor_position os1) n (pv_position pv) = Inr ps"
    and vs: "vec_put (sensor_velocity os1) n (pv_velocity pv) = Inr vs"
    and os': "os' = os1\<lparr>sensor_position := ps, sensor_velocity := vs\<rparr>"
    using assms(4) by (auto simp: fill_line_def bind_res_Inr_iff)
  note ok = GetPositionVelocity_ok [OF q f(1)]
  have os1: "vectors os1 = vectors os0" "osv_dt os1 = osv_dt os0"
    "sensor_position os1 = sensor_position os" "sensor_velocity os1 = sensor_velocity os"
    using f(2,3) by (subst ok(4), simp)+
  have g: "GetPosition os = GetPosition os0 \<and> GetVelocity os = GetVelocity os0"
    "GetPosition os' = GetPosition os1 \<and> GetVelocity os' = GetVelocity os1"
    using f(2,3) os1 by (auto simp: os' intro!: interpolation_cong)
  have "cache_ok os'" using ok(3) g(2) by (simp add: cache_ok_def os')
  moreover have "ps = (sensor_position os)[nat n := pv_position pv]" "vs = (sensor_velocity os)[nat n := pv_velocity pv]"
    using ps vs os1 by (simp_all add: vec_simps)
  moreover have "nat n < length (sensor_position os)" "nat n < length (sensor_velocity os)"
    using assms(2,3) f(4,5) by linarith+
  moreover have "\<forall>i. 0 \<le> i \<longrightarrow> (nat n = nat i \<longleftrightarrow> i = n)" using assms(2) by auto
  moreover have "\<forall>i. i < n + 1 \<longleftrightarrow> i < n \<or> i = n" by auto
  ultimately show ?thesis
    using assms(1) ok(1,2) os1 g f(4,5) unfolding lines_filled_def os'
    by (simp add: nth_list_update)
qed

lemma fill_lines:
  assumes "lines_filled os0 t0 dt h n os" and "0 \<le> n" and "n \<le> h"
    and "fold_res (fill_line t0 dt) [n..h - 1] os = Inr os'"
  shows "lines_filled os0 t0 dt h h os'"
  using assms
proof (induction "nat (h - n)" arbitrary: n os)
  case 0
  then show ?case by simp
next
  case (Suc m)
  then have "n < h" by linarith
  then have "[n..h - 1] = n # [n + 1..h - 1]" by (rule upto_less_cons)
  then obtain os1 where s: "fill_line t0 dt n os = Inr os1"
    and r: "fold_res (fill_line t0 dt) [n + 1..h - 1] os1 = Inr os'"
    using Suc.prems(4) by (auto simp: bind_res_Inr_iff)
  have "lines_filled os0 t0 dt h (n + 1) os1" using Suc.prems(1,2) \<open>n < h\<close> s by (rule lines_filled_step)
  then show ?case using Suc.hyps(1) [of "n + 1" os1] Suc.hyps(2) Suc.prems(2) \<open>n < h\<close> r by simp
qed

lemma OrbitStateVectors_lines_filled:
  assumes "OrbitStateVectors_lines vs t0 dt h = Inr os"
  obtains os0 where "OrbitStateVectors vs = Inr os0" and "0 \<le> h" and "lines_filled os0 t0 dt h h os"
proof -
  obtain os0 where c: "OrbitStateVectors vs = Inr os0"
    and h: "0 \<le> h" and r: "fold_res (fill_line t0 dt) [0..h - 1]
       (os0\<lparr>sensor_position := replicate (nat h) zero_vector, sensor_velocity := replicate (nat h) zero_vector\<rparr>) = Inr os"
    using assms
    by (auto simp: OrbitStateVectors_lines_def bind_res_Inr_iff fill_line_def [abs_def] line_time_def Let_def
        split: if_splits)
  have "lines_filled os0 t0 dt h 0
       (os0\<lparr>sensor_position := replicate (nat h) zero_vector, sensor_velocity := replicate (nat h) zero_vector\<rparr>)"
    using OrbitStateVectors_Inr [OF c] h unfolding lines_filled_def cache_ok_def by auto
  from fill_lines [OF this _ h r] show ?thesis using that c h by blast
qed

text \<open>
  C18. The object made for an image holds, for every line, exactly the position and velocity that
  \<open>GetPosition\<close> and \<open>GetVelocity\<close> compute for the time of the line; and every later call of
  \<open>GetPositionVelocity\<close>, whether it finds the time in the map or not, returns the values of these two
  functions and leaves an object of which the same holds.
\<close>

theorem sensor_lines_agree:
  assumes "OrbitStateVectors_lines vs first_line_utc interval height = Inr os"
  shows "int (length (sensor_position os)) = height \<and> int (length (sensor_velocity os)) = height \<and>
    (\<forall>i < nat height.
       GetPosition os (line_time first_line_utc interval (int i)) = Inr (sensor_position os ! i) \<and>
       GetVelocity os (line_time first_line_utc interval (int i)) = Inr (sensor_velocity os ! i)) \<and>
    (\<forall>time pv os'. GetPositionVelocity os time = Inr (pv, os') \<longrightarrow>
       GetPosition os time = Inr (pv_position pv) \<and> GetVelocity os time = Inr (pv_velocity pv) \<and>
       os' = os\<lparr>time_map := time_map os'\<rparr> \<and> cache_ok os')"
proof -
  obtain os0 where h: "0 \<le> height" and f: "lines_filled os0 first_line_utc interval height height os"
    by (rule OrbitStateVectors_lines_filled [OF assms])
  from f have "GetPosition os = GetPosition os0 \<and> GetVelocity os = GetVelocity os0"
    by (intro interpolation_cong) (simp_all add: lines_filled_def)
  moreover have "\<forall>i < nat height. 0 \<le> int i \<and> int i < height" by auto
  moreover have "cache_ok os" using f by (simp add: lines_filled_def)
  ultimately show ?thesis using f GetPositionVelocity_ok unfolding lines_filled_def
    by (metis nat_int)
qed

section \<open>The polynomial goes through its vectors\<close>

text \<open>
  Times on the grid of multiples of \<open>2 ^ -40\<close> of a day below \<open>2 ^ 14\<close> days, which holds every \<open>double\<close>
  between the years 2011 and 2044. The differences of two of them and the quotients of these stay far from the
  limits of the format, so no product of at most eight such quotients overflows.
\<close>

definition grid_time :: "fp \<Rightarrow> bool" where
  "grid_time t \<longleftrightarrow>
     (case t of Fin x \<Rightarrow> x * 2 ^ 40 = of_int \<lfloor>x * 2 ^ 40\<rfloor> \<and> \<bar>x\<bar> \<le> 2 ^ 14 | _ \<Rightarrow> False)"

lemma grid_difference:
  assumes "grid_time (Fin s)" and "grid_time (Fin t)" and "s \<noteq> t"
  shows "2 powi -40 \<le> \<bar>s - t\<bar>" and "\<bar>s - t\<bar> \<le> 2 powi 15"
proof -
  define m where "m = \<lfloor>s * 2 ^ 40\<rfloor> - \<lfloor>t * 2 ^ 40\<rfloor>"
  have "s * 2 ^ 40 = of_int \<lfloor>s * 2 ^ 40\<rfloor>" "t * 2 ^ 40 = of_int \<lfloor>t * 2 ^ 40\<rfloor>"
    using assms(1,2) by (simp_all add: grid_time_def)
  then have m: "(s - t) * 2 ^ 40 = of_int m"
    unfolding m_def left_diff_distrib of_int_diff by linarith
  then have "m \<noteq> 0" using assms(3) by auto
  then have "1 \<le> \<bar>m\<bar>" by linarith
  then have "(1::rat) \<le> \<bar>of_int m\<bar>" by (metis of_int_1_le_iff of_int_abs)
  then have "1 \<le> \<bar>s - t\<bar> * 2 ^ 40" unfolding m [symmetric] abs_mult by simp
  then show "2 powi -40 \<le> \<bar>s - t\<bar>" by (simp add: power_int_minus field_simps)
  have "\<bar>s - t\<bar> \<le> \<bar>s\<bar> + \<bar>t\<bar>" by (rule abs_triangle_ineq4)
  then show "\<bar>s - t\<bar> \<le> 2 powi 15" using assms(1,2) by (simp add: grid_time_def)
qed

lemma fsub_self: "fsub f64 (Fin t) (Fin t) = Fin 0"
  by (simp add: fsub_def)

lemma f64_bounded:
  assumes "\<bar>x\<bar> \<le> 2 powi b" and "-1022 \<le> b" and "b \<le> 1023"
  shows "\<exists>y. fp_of_rat f64 x = Fin y \<and> \<bar>y\<bar> \<le> 2 powi b"
proof -
  have f: "min_exp f64 \<le> b" "b \<le> max_exp f64" "0 < precision f64" using assms(2,3) by (simp_all add: f64_def)
  show ?thesis by (rule fp_of_rat_bounded [OF assms(1) f]) blast
qed

lemma grid_fsub:
  assumes "grid_time (Fin s)" and "grid_time (Fin t)" and "s \<noteq> t"
  obtains d where "fsub f64 (Fin s) (Fin t) = Fin d" and "2 powi -40 \<le> \<bar>d\<bar>" and "\<bar>d\<bar> \<le> 2 powi 15"
proof -
  note d = grid_difference [OF assms]
  obtain y where y: "fp_of_rat f64 (s - t) = Fin y" "\<bar>y\<bar> \<le> 2 powi 15"
    using f64_bounded [OF d(2)] by auto
  have "2 powi -40 \<le> \<bar>round_to f64 (s - t)\<bar>"
    by (rule round_to_ge_power [OF d(1)]) (simp_all add: f64_def)
  moreover have "round_to f64 (s - t) = y" using y(1) by (simp add: fp_of_rat_def Let_def split: if_splits)
  ultimately show ?thesis using y that by (simp add: fsub_def)
qed

text \<open>One factor of a weight, at the time of one of the vectors.\<close>

lemma grid_factor:
  assumes "grid_time (Fin q)" and "grid_time (Fin s)" and "grid_time (Fin t)" and "s \<noteq> t"
  obtains r where "fdiv f64 (fsub f64 (Fin q) (Fin t)) (fsub f64 (Fin s) (Fin t)) = Fin r"
    and "\<bar>r\<bar> \<le> 2 powi 55" and "q = t \<longrightarrow> r = 0" and "q = s \<longrightarrow> r = 1"
proof -
  obtain d where d: "fsub f64 (Fin s) (Fin t) = Fin d" "2 powi -40 \<le> \<bar>d\<bar>" "\<bar>d\<bar> \<le> 2 powi 15"
    by (rule grid_fsub [OF assms(2-4)])
  have d0: "d \<noteq> 0" using d(2) by (auto simp: power_int_minus)
  show ?thesis
  proof (cases "q = t")
    case True
    then show ?thesis using that [of 0] d(1) d0 assms(4) by (simp add: fsub_self)
  next
    case False
    obtain n where n: "fsub f64 (Fin q) (Fin t) = Fin n" "\<bar>n\<bar> \<le> 2 powi 15"
      by (rule grid_fsub [OF assms(1,3) False])
    have "\<bar>n\<bar> \<le> 2 powi 15 * (2 powi 40 * \<bar>d\<bar>)"
    proof -
      have "2 powi 40 * 2 powi -40 \<le> (2::rat) powi 40 * \<bar>d\<bar>" using d(2) by (rule mult_left_mono) simp
      then have "1 \<le> (2::rat) powi 40 * \<bar>d\<bar>" by (simp add: powi2_add)
      then have "2 powi 15 * 1 \<le> (2::rat) powi 15 * (2 powi 40 * \<bar>d\<bar>)" by (rule mult_left_mono) simp
      with n(2) show ?thesis by linarith
    qed
    then have "\<bar>n / d\<bar> \<le> 2 powi 55" using d0 by (simp add: abs_divide divide_le_eq)
    from f64_bounded [OF this] obtain r where r: "fp_of_rat f64 (n / d) = Fin r" "\<bar>r\<bar> \<le> 2 powi 55"
      by auto
    have "q = s \<longrightarrow> r = 1"
    proof
      assume "q = s"
      then have "n / d = 1" using n(1) d(1) d0 by simp
      moreover have "fp_of_rat f64 1 = Fin 1" using f64_exact [of 1 0] by simp
      ultimately show "r = 1" using r(1) by simp
    qed
    with r n(1) d(1) d0 False that [of r] show ?thesis by simp
  qed
qed

lemma weight_step_bounded:
  assumes "\<bar>w\<bar> \<le> 2 powi (55 * int n)" and "\<bar>r\<bar> \<le> 2 powi 55" and "n < 8"
  obtains w' where "fmul f64 (Fin w) (Fin r) = Fin w'" and "\<bar>w'\<bar> \<le> 2 powi (55 * int (Suc n))"
    and "w = 0 \<or> r = 0 \<longrightarrow> w' = 0"
proof -
  have "\<bar>w * r\<bar> \<le> 2 powi (55 * int n) * 2 powi 55"
    unfolding abs_mult using assms(1,2) by (rule mult_mono) simp_all
  also have "\<dots> = 2 powi (55 * int (Suc n))" unfolding powi2_add by (rule arg_cong [where f = "(powi) 2"]) simp
  finally have "\<bar>w * r\<bar> \<le> 2 powi (55 * int (Suc n))" .
  from f64_bounded [OF this] obtain y where "fp_of_rat f64 (w * r) = Fin y"
    "\<bar>y\<bar> \<le> 2 powi (55 * int (Suc n))" using assms(3) by auto
  moreover from this have "w = 0 \<or> r = 0 \<longrightarrow> y = 0" by auto
  ultimately show ?thesis using that by simp
qed

text \<open>The weight of a vector, at the time of vector \<open>k\<close>, over any part of the window.\<close>

lemma weight_fold_grid:
  assumes "\<forall>j\<in>set js. grid_time (ts ! nat j) \<and> (j \<noteq> i \<longrightarrow> ts ! nat j \<noteq> ts ! nat i)"
    and "grid_time (ts ! nat i)" and "grid_time (ts ! nat k)"
    and "\<bar>w\<bar> \<le> 2 powi (55 * int n)" and "n + length js \<le> 8"
  shows "\<exists>w'. fold (\<lambda>j weight. if j \<noteq> i then fmul f64 weight
             (fdiv f64 (fsub f64 (ts ! nat k) (ts ! nat j)) (fsub f64 (ts ! nat i) (ts ! nat j))) else weight)
             js (Fin w) = Fin w' \<and> (w = 0 \<or> (k \<noteq> i \<and> k \<in> set js) \<longrightarrow> w' = 0) \<and> (k = i \<and> w = 1 \<longrightarrow> w' = 1)"
  using assms(1,4,5)
proof (induction js arbitrary: w n)
  case Nil
  then show ?case by simp
next
  case (Cons j js)
  have b: "\<bar>w\<bar> \<le> 2 powi (55 * int (Suc n))"
    by (rule order_trans [OF Cons.prems(2) power_int_increasing]) simp_all
  show ?case
  proof (cases "j = i")
    case True
    have "\<exists>w'. fold (\<lambda>j weight. if j \<noteq> i then fmul f64 weight
             (fdiv f64 (fsub f64 (ts ! nat k) (ts ! nat j)) (fsub f64 (ts ! nat i) (ts ! nat j))) else weight)
             js (Fin w) = Fin w' \<and> (w = 0 \<or> (k \<noteq> i \<and> k \<in> set js) \<longrightarrow> w' = 0) \<and> (k = i \<and> w = 1 \<longrightarrow> w' = 1)"
      by (rule Cons.IH [of w "Suc n"]) (use Cons.prems b in auto)
    then show ?thesis using True by auto
  next
    case False
    obtain q s t where fin: "ts ! nat k = Fin q" "ts ! nat i = Fin s" "ts ! nat j = Fin t"
      using Cons.prems(1) assms(2,3)
      by (cases "ts ! nat k"; cases "ts ! nat i"; cases "ts ! nat j") (auto simp: grid_time_def)
    have g: "grid_time (Fin q)" "grid_time (Fin s)" "grid_time (Fin t)" "s \<noteq> t"
      using Cons.prems(1) assms(2,3) False fin by auto
    obtain r where r: "fdiv f64 (fsub f64 (Fin q) (Fin t)) (fsub f64 (Fin s) (Fin t)) = Fin r"
      "\<bar>r\<bar> \<le> 2 powi 55" "q = t \<longrightarrow> r = 0" "q = s \<longrightarrow> r = 1" by (rule grid_factor [OF g])
    obtain v where v: "fmul f64 (Fin w) (Fin r) = Fin v" "\<bar>v\<bar> \<le> 2 powi (55 * int (Suc n))"
      "w = 0 \<or> r = 0 \<longrightarrow> v = 0"
      by (rule weight_step_bounded [OF Cons.prems(2) r(2)]) (use Cons.prems(3) in simp_all)
    have one: "k = i \<and> w = 1 \<longrightarrow> v = 1"
    proof
      assume "k = i \<and> w = 1"
      then have "r = 1" "w = 1" using r(4) fin by auto
      then show "v = 1" using v(1) f64_exact [of 1 0] by simp
    qed
    have zero: "k = j \<longrightarrow> v = 0" using r(3) v(3) fin by auto
    have "\<exists>w'. fold (\<lambda>j weight. if j \<noteq> i then fmul f64 weight
             (fdiv f64 (fsub f64 (ts ! nat k) (ts ! nat j)) (fsub f64 (ts ! nat i) (ts ! nat j))) else weight)
             js (Fin v) = Fin w' \<and> (v = 0 \<or> (k \<noteq> i \<and> k \<in> set js) \<longrightarrow> w' = 0) \<and> (k = i \<and> v = 1 \<longrightarrow> w' = 1)"
      by (rule Cons.IH [of v "Suc n"]) (use Cons.prems v(2) in auto)
    then show ?thesis using False fin r(1) v one zero by auto
  qed
qed

lemma fold_weightless:
  assumes "\<forall>i\<in>set is. W i = Fin 0 \<and> (\<exists>c. C i = Fin c)" and "fp_of_rat f64 a = Fin a"
  shows "fold (\<lambda>i p. fadd f64 p (fmul f64 (W i) (C i))) is (Fin a) = Fin a"
  using assms(1)
proof (induction "is")
  case (Cons i "is")
  then obtain c where "C i = Fin c" by auto
  then have "fadd f64 (Fin a) (fmul f64 (W i) (C i)) = Fin a" using Cons.prems assms(2) by simp
  with Cons show ?case by simp
qed simp

definition exact_double :: "fp \<Rightarrow> bool" where
  "exact_double x \<longleftrightarrow> (case x of Fin r \<Rightarrow> fp_of_rat f64 r = Fin r | _ \<Rightarrow> False)"

lemma exact_double_cases: "exact_double x \<longleftrightarrow> (\<exists>r. x = Fin r \<and> fp_of_rat f64 r = Fin r)"
  by (cases x) (auto simp: exact_double_def)

lemma weighted_sum:
  assumes "k \<in> set is" and "distinct is" and "W k = Fin 1" and "\<forall>i\<in>set is. i \<noteq> k \<longrightarrow> W i = Fin 0"
    and "\<forall>i\<in>set is. exact_double (C i)"
  shows "fold (\<lambda>i p. fadd f64 p (fmul f64 (W i) (C i))) is (Fin 0) = C k"
proof -
  obtain us ws where s: "is = us @ k # ws" using assms(1) by (auto dest: split_list)
  obtain c where c: "C k = Fin c" "fp_of_rat f64 c = Fin c"
    using assms(1,5) by (auto simp: exact_double_cases)
  have u: "\<forall>i\<in>set us. W i = Fin 0 \<and> (\<exists>c. C i = Fin c)"
    and v: "\<forall>i\<in>set ws. W i = Fin 0 \<and> (\<exists>c. C i = Fin c)"
    using assms(2,4,5) s by (auto simp: exact_double_cases)
  have "fold (\<lambda>i p. fadd f64 p (fmul f64 (W i) (C i))) us (Fin 0) = Fin 0"
    by (rule fold_weightless [OF u]) simp
  moreover have "fadd f64 (Fin 0) (fmul f64 (W k) (C k)) = Fin c" using assms(3) c by simp
  moreover have "fold (\<lambda>i p. fadd f64 p (fmul f64 (W i) (C i))) ws (Fin c) = Fin c"
    by (rule fold_weightless [OF v c(2)])
  ultimately show ?thesis by (simp add: s c(1))
qed

lemma weight_at_vector:
  assumes "distinct ts" and "\<forall>t\<in>set ts. grid_time t" and "0 \<le> i0" and "i_n < int (length ts)"
    and "i_n - i0 + 1 \<le> 8" and "i \<in> {i0..i_n}" and "k \<in> {i0..i_n}"
  shows "weight_of ts i0 i_n (ts ! nat k) i = (if i = k then Fin 1 else Fin 0)"
proof -
  have grid: "grid_time (ts ! nat j)" if "j \<in> {i0..i_n}" for j
    using assms(2,3,4) that by (auto intro!: nth_mem)
  have other: "ts ! nat j \<noteq> ts ! nat i" if "j \<in> {i0..i_n}" "j \<noteq> i" for j
  proof -
    have "nat j \<noteq> nat i" "nat j < length ts" "nat i < length ts" using that assms(3,4,6) by auto
    then show ?thesis using assms(1) by (simp add: nth_eq_iff_index_eq)
  qed
  have "\<exists>w'. fold (\<lambda>j weight. if j \<noteq> i then fmul f64 weight
             (fdiv f64 (fsub f64 (ts ! nat k) (ts ! nat j)) (fsub f64 (ts ! nat i) (ts ! nat j))) else weight)
             [i0..i_n] (Fin 1) = Fin w' \<and> (1 = (0::rat) \<or> (k \<noteq> i \<and> k \<in> set [i0..i_n]) \<longrightarrow> w' = 0) \<and>
             (k = i \<and> (1::rat) = 1 \<longrightarrow> w' = 1)"
    by (rule weight_fold_grid [where n = 0]) (use grid other assms in auto)
  then show ?thesis using assms(7) by (auto simp: weight_of_def)
qed

definition exact_vector :: "orbit_state_vector \<Rightarrow> bool" where
  "exact_vector v \<longleftrightarrow> grid_time (time_mjd v) \<and> list_all exact_double [x_pos v, y_pos v, z_pos v, x_vel v, y_vel v, z_vel v]"

lemma distinct_times:
  assumes "sorted_wrt (\<lambda>v w. flt (time_mjd v) (time_mjd w)) vs"
  shows "distinct (map time_mjd vs)"
  using assms
proof (induction vs)
  case (Cons v vs)
  then have "\<forall>w\<in>set vs. flt (time_mjd v) (time_mjd w)" by simp
  then have "time_mjd v \<notin> time_mjd ` set vs" by (metis flt_irrefl imageE)
  with Cons show ?case by simp
qed simp

lemma fold_add_position:
  "fold (\<lambda>i. add_position (W i) (V i)) is p =
     \<lparr>px = fold (\<lambda>i q. fadd f64 q (fmul f64 (W i) (x_pos (V i)))) is (px p),
      py = fold (\<lambda>i q. fadd f64 q (fmul f64 (W i) (y_pos (V i)))) is (py p),
      pz = fold (\<lambda>i q. fadd f64 q (fmul f64 (W i) (z_pos (V i)))) is (pz p)\<rparr>"
  by (induction "is" arbitrary: p) (simp_all add: add_position_def)

lemma fold_add_velocity:
  "fold (\<lambda>i. add_velocity (W i) (V i)) is p =
     \<lparr>px = fold (\<lambda>i q. fadd f64 q (fmul f64 (W i) (x_vel (V i)))) is (px p),
      py = fold (\<lambda>i q. fadd f64 q (fmul f64 (W i) (y_vel (V i)))) is (py p),
      pz = fold (\<lambda>i q. fadd f64 q (fmul f64 (W i) (z_vel (V i)))) is (pz p)\<rparr>"
  by (induction "is" arbitrary: p) (simp_all add: add_velocity_def)

definition position_of :: "orbit_state_vector \<Rightarrow> pos_vector" where
  "position_of v = \<lparr>px = x_pos v, py = y_pos v, pz = z_pos v\<rparr>"

definition velocity_of :: "orbit_state_vector \<Rightarrow> pos_vector" where
  "velocity_of v = \<lparr>px = x_vel v, py = y_vel v, pz = z_vel v\<rparr>"

text \<open>At the time of a vector inside the window, the polynomial gives the values of the vector.\<close>

lemma window_reproduces:
  assumes "sorted_wrt (\<lambda>v w. flt (time_mjd v) (time_mjd w)) (vectors os)"
    and "\<forall>v\<in>set (vectors os). exact_vector v"
    and "vector_window (vectors os) (osv_dt os) (time_mjd (vectors os ! k)) = Inr (i0, i_n)"
    and "i0 \<le> int k" and "int k \<le> i_n"
  shows "GetPosition os (time_mjd (vectors os ! k)) = Inr (position_of (vectors os ! k)) \<and>
         GetVelocity os (time_mjd (vectors os ! k)) = Inr (velocity_of (vectors os ! k))"
proof -
  note r = vector_window_range [OF assms(3)]
  let ?ts = "map time_mjd (vectors os)"
  have k: "k < length (vectors os)" using assms(5) r(2) by linarith
  have t: "time_mjd (vectors os ! k) = ?ts ! nat (int k)" using k by simp
  have w: "weight_of ?ts i0 i_n (?ts ! nat (int k)) i = (if i = int k then Fin 1 else Fin 0)"
    if "i \<in> {i0..i_n}" for i
    by (rule weight_at_vector [OF distinct_times [OF assms(1)]])
      (use assms(2,4,5) r that in \<open>auto simp: exact_vector_def NV_def\<close>)
  have ex: "exact_vector (vectors os ! nat i)" if "i \<in> {i0..i_n}" for i
    using assms(2) r(1,2) that by auto
  have s: "fold (\<lambda>i q. fadd f64 q (fmul f64 (weight_of ?ts i0 i_n (?ts ! nat (int k)) i) (c (vectors os ! nat i))))
      [i0..i_n] (Fin 0) = c (vectors os ! k)"
    if "\<forall>v. exact_vector v \<longrightarrow> exact_double (c v)" for c
    using weighted_sum [of "int k" "[i0..i_n]" "weight_of ?ts i0 i_n (?ts ! nat (int k))"
        "\<lambda>i. c (vectors os ! nat i)"] that w ex assms(4,5) by auto
  have d: "\<forall>v. exact_vector v \<longrightarrow> exact_double (x_pos v)" "\<forall>v. exact_vector v \<longrightarrow> exact_double (y_pos v)"
    "\<forall>v. exact_vector v \<longrightarrow> exact_double (z_pos v)" "\<forall>v. exact_vector v \<longrightarrow> exact_double (x_vel v)"
    "\<forall>v. exact_vector v \<longrightarrow> exact_double (y_vel v)" "\<forall>v. exact_vector v \<longrightarrow> exact_double (z_vel v)"
    by (simp_all add: exact_vector_def)
  show ?thesis unfolding GetPosition_eq GetVelocity_eq assms(3)
    by (simp add: position_at_def velocity_at_def fold_add_position fold_add_velocity zero_vector_def
        position_of_def velocity_of_def s [OF d(1)] s [OF d(2)] s [OF d(3)] s [OF d(4)] s [OF d(5)] s [OF d(6)]
        t del: nth_map nat_int)
qed

section \<open>Evenly spaced vectors\<close>

lemma f64_exact_scaled:
  assumes "\<bar>k\<bar> < 2 ^ 53" and "-1000 \<le> j" and "j \<le> 100"
  shows "fp_of_rat f64 (of_int k * 2 powi j) = Fin (of_int k * 2 powi j)"
proof (cases "k = 0")
  case False
  let ?x = "of_int k * 2 powi j :: rat"
  let ?e = "ilog2 \<bar>?x\<bar>"
  have x0: "?x \<noteq> 0" using False by simp
  have "1 \<le> \<bar>k\<bar>" using False by linarith
  then have k: "(1::rat) \<le> \<bar>of_int k\<bar>" "\<bar>of_int k\<bar> < (2::rat) powi 53"
    using assms(1) by (simp_all only: of_int_abs [symmetric] of_int_1_le_iff powi2_int of_int_less_iff) simp
  have lo: "2 powi j \<le> \<bar>?x\<bar>" using mult_right_mono [OF k(1), of "2 powi j"] by (simp add: abs_mult)
  have hi: "\<bar>?x\<bar> < 2 powi (53 + j)"
    using mult_strict_right_mono [OF k(2), of "2 powi j"] by (simp only: abs_mult powi2_add) simp
  have b: "(2::rat) powi ?e \<le> \<bar>?x\<bar>" "\<bar>?x\<bar> < 2 powi (?e + 1)" using ilog2_bounds [of "\<bar>?x\<bar>"] x0 by simp_all
  have "(2::rat) powi j < 2 powi (?e + 1)" using lo b(2) by linarith
  then have e0: "-1022 \<le> ?e" using assms(2) powi2_less by fastforce
  have "(2::rat) powi ?e < 2 powi (53 + j)" using hi b(1) by linarith
  then have e1: "?e < 53 + j" by (rule powi2_less)
  have "?x * 2 powi (52 - ?e) = of_int k * (2 powi j * 2 powi (52 - ?e))" by simp
  also have "(2::rat) powi j * 2 powi (52 - ?e) = 2 powi (52 + j - ?e)"
    unfolding powi2_add by (simp add: algebra_simps)
  also have "\<dots> = of_int (2 ^ nat (52 + j - ?e))" using e1 by (simp add: powi2_int)
  finally have "?x * 2 powi (int (precision f64) - 1 - ?e) = of_int (k * 2 ^ nat (52 + j - ?e))"
    by (simp add: f64_def)
  from round_to_exact_signed [OF x0 _ this] have r: "round_to f64 ?x = ?x" using e0 by (simp add: f64_def)
  have "(2::rat) powi (53 + j) \<le> 2 powi 1024"
    using assms(3) by (intro power_int_increasing) simp_all
  with hi have "\<bar>?x\<bar> < 2 powi (max_exp f64 + 1)" by (simp add: f64_def)
  then show ?thesis using r by (simp add: fp_of_rat_def Let_def)
qed simp

text \<open>
  Times \<open>a + i * d\<close> on the grid that span less than \<open>2 ^ 13\<close> days: the spacing \<open>dt\<close> the constructor computes is \<open>d\<close>, the
  quotient \<open>GetPosition\<close> computes for vector \<open>k\<close> is \<open>k\<close>, and \<open>k\<close> is in its window.
\<close>

definition evenly_spaced :: "fp list \<Rightarrow> bool" where
  "evenly_spaced ts \<longleftrightarrow>
     (case (ts ! 0, ts ! 1) of
        (Fin a, Fin b) \<Rightarrow>
          0 < b - a \<and> of_nat (length ts) * (b - a) < 2 ^ 13 \<and> length ts < 2 ^ 31 - 16 \<and>
          (\<forall>i < length ts. ts ! i = Fin (a + of_nat i * (b - a)))
      | _ \<Rightarrow> False)"

lemma grid_multiple_exact:
  assumes "d * 2 ^ 40 = of_int m" and "0 < d" and "of_nat n * d < 2 ^ 13"
  shows "fp_of_rat f64 (of_nat n * d) = Fin (of_nat n * d)"
proof -
  have e: "of_nat n * d = of_int (int n * m) * 2 powi -40"
    unfolding of_int_mult assms(1) [symmetric] by (simp add: power_int_minus)
  have m: "0 < m" using assms(1,2) by (metis mult_pos_pos of_int_0_less_iff zero_less_numeral zero_less_power)
  have "of_nat n * d * 2 ^ 40 < 2 ^ 13 * (2::rat) ^ 40" using assms(3) by (intro mult_strict_right_mono) simp_all
  then have "of_int (int n * m) < (of_int (2 ^ 53) :: rat)"
    unfolding of_int_mult assms(1) [symmetric] by (simp add: mult.assoc)
  then have "int n * m < 2 ^ 53" by (simp only: of_int_less_iff)
  then have "\<bar>int n * m\<bar> < 2 ^ 53" using m by simp
  then show ?thesis unfolding e by (rule f64_exact_scaled) simp_all
qed

lemma even_index:
  assumes "evenly_spaced ts" and "\<forall>t\<in>set ts. grid_time t" and "k < length ts" and "2 \<le> length ts"
    and "dt = fdiv f64 (fsub f64 (last ts) (ts ! 0)) (fsub f64 (fp_of_int f64 (int (length ts))) (Fin 1))"
  shows "fp_to_int32 (fdiv f64 (fsub f64 (ts ! k) (ts ! 0)) dt) = Inr (int k)"
proof -
  obtain a b where ab: "ts ! 0 = Fin a" "ts ! 1 = Fin b" "0 < b - a"
    "of_nat (length ts) * (b - a) < 2 ^ 13" "length ts < 2 ^ 31 - 16"
    "\<forall>i < length ts. ts ! i = Fin (a + of_nat i * (b - a))"
    using assms(1) by (auto simp: evenly_spaced_def split: fp.splits)
  let ?d = "b - a"
  have "grid_time (ts ! 0)" "grid_time (ts ! 1)" using assms(2,4) by (auto intro!: bspec [OF assms(2)] nth_mem)
  then have "a * 2 ^ 40 = of_int \<lfloor>a * 2 ^ 40\<rfloor>" "b * 2 ^ 40 = of_int \<lfloor>b * 2 ^ 40\<rfloor>"
    using ab(1,2) by (simp_all add: grid_time_def)
  then have m: "?d * 2 ^ 40 = of_int (\<lfloor>b * 2 ^ 40\<rfloor> - \<lfloor>a * 2 ^ 40\<rfloor>)"
    unfolding left_diff_distrib of_int_diff by linarith
  have step: "fp_of_rat f64 (of_nat n * ?d) = Fin (of_nat n * ?d)" if "n \<le> length ts" for n
  proof (rule grid_multiple_exact [OF m ab(3)])
    have "of_nat n * ?d \<le> of_nat (length ts) * ?d" using that ab(3) by (intro mult_right_mono) simp_all
    then show "of_nat n * ?d < 2 ^ 13" using ab(4) by linarith
  qed
  let ?n = "length ts - 1"
  have n: "0 < ?n" "?n < length ts" using assms(4) by simp_all
  have sub: "fsub f64 (ts ! i) (ts ! 0) = Fin (of_nat i * ?d)" if "i < length ts" for i
    using step [of i] that ab(1,6) by (simp add: fsub_def)
  have last: "last ts = ts ! ?n" using assms(4) by (intro last_conv_nth) auto
  have "fp_of_int f64 (int (length ts)) = Fin (of_nat (length ts))"
    using f64_exact [of "int (length ts)" 0] ab(5) by (simp add: fp_of_int_def)
  moreover have "fp_of_rat f64 (of_nat (length ts) - 1) = Fin (of_nat ?n)"
    using f64_exact [of "int ?n" 0] ab(5) assms(4) by (simp add: of_nat_diff)
  ultimately have c: "fsub f64 (fp_of_int f64 (int (length ts))) (Fin 1) = Fin (of_nat ?n)"
    by (simp add: fsub_def)
  have "dt = fp_of_rat f64 ?d"
    unfolding assms(5) last sub [OF n(2)] c using n(1) by simp
  then have dt: "dt = Fin ?d" using step [of 1] assms(4) by simp
  have "fdiv f64 (fsub f64 (ts ! k) (ts ! 0)) dt = fp_of_rat f64 (of_nat k)"
    unfolding dt sub [OF assms(3)] using ab(3) by simp
  also have "\<dots> = Fin (of_nat k)" using f64_exact [of "int k" 0] ab(5) assms(3) by simp
  finally show ?thesis using ab(5) assms(3) by (simp add: fp_to_int32_def rat_trunc_def)
qed

text \<open>
  The index that \<open>GetPosition\<close> estimates from the mean spacing for the time of vector \<open>k\<close>: as long as it is at most
  three above and at most four below \<open>k\<close>, the vector is in the window of eight.
\<close>

definition index_near :: "orbit_state_vectors \<Rightarrow> nat \<Rightarrow> bool" where
  "index_near os k \<longleftrightarrow> length (vectors os) < 2 ^ 31 - 16 \<and>
     (case fp_to_int32 (fdiv f64 (fsub f64 (time_mjd (vectors os ! k)) (time_mjd (vectors os ! 0))) (osv_dt os)) of
        Inl _ \<Rightarrow> False
      | Inr m \<Rightarrow> m - 3 \<le> int k \<and> int k \<le> m + 4)"

lemma window_of_index:
  assumes "k < length (vectors os)" and "length (vectors os) \<le> 8 \<or> index_near os k"
  shows "\<exists>i0 i_n. vector_window (vectors os) (osv_dt os) (time_mjd (vectors os ! k)) = Inr (i0, i_n) \<and>
    i0 \<le> int k \<and> int k \<le> i_n"
proof (cases "length (vectors os) \<le> 8")
  case True
  then show ?thesis using assms(1) by (simp add: vector_window_def NV_def)
next
  case False
  then obtain m where m: "fp_to_int32 (fdiv f64 (fsub f64 (time_mjd (vectors os ! k)) (time_mjd (vectors os ! 0))) (osv_dt os)) = Inr m"
    "m - 3 \<le> int k" "int k \<le> m + 4" and l: "length (vectors os) < 2 ^ 31 - 16"
    using assms(2) by (auto simp: index_near_def split: sum.splits)
  have "int32_range (m - 4)" "int32_range (max (m - 4 + 1) 0 + 8)"
    using m(2,3) l assms(1) by (auto simp: int32_range_def)
  moreover have "vec_at (vectors os) 0 = Inr (vectors os ! 0)" using assms(1) by (cases "vectors os") (simp_all add: vec_at_def)
  ultimately show ?thesis using False assms(1) m
    by (auto simp: vector_window_def NV_def int_result_def Let_def)
qed

text \<open>
  C19. Interpolation reproduces the orbit vectors: at the time of a kept vector \<open>GetPosition\<close> and \<open>GetVelocity\<close>
  return, bit for bit, the position and velocity of this vector, if there are at most eight vectors, or they are
  evenly spaced, or the index estimated from the mean spacing is at most three above and at most four below that
  of the vector. The components are doubles and the times multiples of \<open>2 ^ -40\<close> days up to \<open>2 ^ 14\<close> days, which
  every double between \<open>2 ^ 12\<close> and \<open>2 ^ 14\<close> is (dates from 2011 to 2044).
\<close>

theorem vectors_reproduced:
  assumes "OrbitStateVectors vs = Inr os" and "k < length (vectors os)"
    and "\<forall>v\<in>set vs. exact_vector v"
    and "length (vectors os) \<le> 8 \<or> evenly_spaced (map time_mjd (vectors os)) \<or> index_near os k"
  shows "GetPosition os (time_mjd (vectors os ! k)) = Inr (position_of (vectors os ! k)) \<and>
         GetVelocity os (time_mjd (vectors os ! k)) = Inr (velocity_of (vectors os ! k))"
proof -
  have v: "vectors os = RemoveRedundantVectors vs" using OrbitStateVectors_Inr [OF assms(1)] by simp
  have s: "sorted_wrt (\<lambda>v w. flt (time_mjd v) (time_mjd w)) (vectors os)"
    unfolding v by (rule RemoveRedundantVectors_sorted)
  have e: "\<forall>v\<in>set (vectors os). exact_vector v"
    using assms(3) RemoveRedundantVectors_subset [of vs] v by auto
  have "index_near os k" if l: "\<not> length (vectors os) \<le> 8" and even: "evenly_spaced (map time_mjd (vectors os))"
  proof -
    have "fp_to_int32 (fdiv f64 (fsub f64 (map time_mjd (vectors os) ! k) (map time_mjd (vectors os) ! 0))
        (osv_dt os)) = Inr (int k)"
    proof (rule even_index [OF even])
      show "\<forall>t\<in>set (map time_mjd (vectors os)). grid_time t" using e by (auto simp: exact_vector_def)
      show "osv_dt os = fdiv f64 (fsub f64 (last (map time_mjd (vectors os))) (map time_mjd (vectors os) ! 0))
          (fsub f64 (fp_of_int f64 (int (length (map time_mjd (vectors os))))) (Fin 1))"
        using assms(1) l by (auto simp: OrbitStateVectors_def Let_def bind_res_Inr_iff vec_simps last_map split: if_splits)
    qed (use assms(2) l in simp_all)
    moreover have "map time_mjd (vectors os) ! 0 = time_mjd (vectors os ! 0)" using assms(2) by (cases "vectors os") simp_all
    moreover have "length (vectors os) < 2 ^ 31 - 16" using even by (auto simp: evenly_spaced_def split: fp.splits)
    ultimately show ?thesis using assms(2) by (simp add: index_near_def)
  qed
  then have "length (vectors os) \<le> 8 \<or> index_near os k" using assms(4) by blast
  then obtain i0 i_n where "vector_window (vectors os) (osv_dt os) (time_mjd (vectors os ! k)) = Inr (i0, i_n)"
    "i0 \<le> int k" "int k \<le> i_n" using window_of_index assms(2) by blast
  then show ?thesis by (rule window_reproduces [OF s e])
qed

lemma exact_double_half: "\<bar>k\<bar> < 2 ^ 53 \<Longrightarrow> exact_double (Fin (of_int k / 2))"
  using f64_exact_scaled [of k "-1"] by (simp add: exact_double_def power_int_minus)

definition sample_vector :: "nat \<Rightarrow> orbit_state_vector" where
  "sample_vector i = \<lparr>osv_time = UtcData [0, 0, 0], time_mjd = Fin (7000 + of_nat i / 1024), x_pos = Fin (of_nat (i * i)),
     y_pos = Fin 7, z_pos = Fin (of_nat i / 2), x_vel = Fin (2 * of_nat i), y_vel = Fin 0, z_vel = Fin (1 / 2)\<rparr>"

lemma sample_exact: "i < 1024 \<Longrightarrow> exact_vector (sample_vector i)"
proof -
  assume i: "i < 1024"
  have "i * i < 1024 * 1024" using i by (intro mult_strict_mono) simp_all
  then have "int (i * i) < int (1024 * 1024)" by (simp only: of_nat_less_iff)
  then have "int i * int i < 1048576" by simp
  then have v: "list_all exact_double [Fin (of_int (int (2 * (i * i))) / 2), Fin (of_int 14 / 2),
      Fin (of_int (int i) / 2), Fin (of_int (int (4 * i)) / 2), Fin (of_int 0 / 2), Fin (of_int 1 / 2)]"
    using i \<open>int i * int i < 1048576\<close> unfolding list.pred_inject by (intro conjI exact_double_half) simp_all
  have "(7000 + of_nat i / 1024) * 2 ^ 40 = (of_int (7000 * 2 ^ 40 + int i * 2 ^ 30) :: rat)" by simp
  moreover have "\<lfloor>of_int (7000 * 2 ^ 40 + int i * 2 ^ 30) :: rat\<rfloor> = 7000 * 2 ^ 40 + int i * 2 ^ 30" by (rule floor_of_int)
  ultimately have "grid_time (Fin (7000 + of_nat i / 1024))" using i by (simp add: grid_time_def)
  with v show ?thesis by (simp add: exact_vector_def sample_vector_def)
qed

theorem vectors_reproduced_witness:
  "\<exists>os. OrbitStateVectors (map sample_vector [0..<9]) = Inr os \<and> length (vectors os) = 9 \<and>
     GetPosition os (Fin (7000 + 4 / 1024)) = Inr \<lparr>px = Fin 16, py = Fin 7, pz = Fin 2\<rparr>"
proof -
  let ?vs = "map sample_vector [0..<9]"
  have s: "sorted_wrt (\<lambda>v w. flt (time_mjd v) (time_mjd w)) ?vs"
    by (simp add: sample_vector_def upt_rec)
  obtain os where c: "OrbitStateVectors ?vs = Inr os"
    by (simp add: OrbitStateVectors_def RemoveRedundantVectors_id [OF s] vec_at_def Let_def)
  have v: "vectors os = ?vs" using OrbitStateVectors_Inr [OF c] RemoveRedundantVectors_id [OF s] by simp
  have e: "\<forall>v\<in>set ?vs. exact_vector v" by (simp add: sample_exact)
  have w: "length (vectors os) \<le> 8 \<or> evenly_spaced (map time_mjd (vectors os)) \<or> index_near os 4"
    unfolding v by (simp add: evenly_spaced_def sample_vector_def)
  have "GetPosition os (time_mjd (vectors os ! 4)) = Inr (position_of (vectors os ! 4))"
    using vectors_reproduced [OF c _ e w] by (simp add: v)
  then show ?thesis using c v by (auto simp: sample_vector_def position_of_def)
qed

text \<open>With at most eight vectors every line can be filled.\<close>

lemma fill_line_total:
  assumes "lines_filled os0 t0 dt h n os" and "0 \<le> n" and "n < h" and "length (vectors os0) \<le> 8"
  shows "\<exists>os'. fill_line t0 dt n os = Inr os'"
proof -
  have f: "cache_ok os" "vectors os = vectors os0"
    "int (length (sensor_position os)) = h" "int (length (sensor_velocity os)) = h"
    using assms(1) by (simp_all add: lines_filled_def)
  have "\<exists>r. GetPositionVelocity os (line_time t0 dt n) = Inr r"
    using assms(4) f(2) by (simp add: GetPositionVelocity_eq vector_window_def NV_def Let_def split: option.split)
  then obtain pv os1 where q: "GetPositionVelocity os (line_time t0 dt n) = Inr (pv, os1)" by auto
  have "sensor_position os1 = sensor_position os" "sensor_velocity os1 = sensor_velocity os"
    by (subst GetPositionVelocity_ok(4) [OF q f(1)], simp)+
  then show ?thesis using q f(3,4) assms(2,3) by (simp add: fill_line_def vec_put_def)
qed

lemma fill_lines_total:
  assumes "lines_filled os0 t0 dt h n os" and "0 \<le> n" and "n \<le> h" and "length (vectors os0) \<le> 8"
  shows "\<exists>os'. fold_res (fill_line t0 dt) [n..h - 1] os = Inr os'"
  using assms
proof (induction "nat (h - n)" arbitrary: n os)
  case 0
  then show ?case by simp
next
  case (Suc m)
  then have n: "n < h" by linarith
  obtain os1 where s: "fill_line t0 dt n os = Inr os1"
    using fill_line_total [OF Suc.prems(1,2) n Suc.prems(4)] by blast
  have "lines_filled os0 t0 dt h (n + 1) os1" using Suc.prems(1,2) n s by (rule lines_filled_step)
  then have "\<exists>os'. fold_res (fill_line t0 dt) [n + 1..h - 1] os1 = Inr os'"
    using Suc.hyps(1) [of "n + 1" os1] Suc.hyps(2) Suc.prems(2,4) n by simp
  then show ?case using s by (simp add: upto_less_cons [OF n])
qed

lemma OrbitStateVectors_lines_total:
  assumes "vs \<noteq> []" and "length (RemoveRedundantVectors vs) \<le> 8" and "0 \<le> h"
  shows "\<exists>os. OrbitStateVectors_lines vs t0 dt h = Inr os"
proof -
  have "RemoveRedundantVectors vs \<noteq> []" using assms(1) by (cases vs) simp_all
  then obtain os0 where c: "OrbitStateVectors vs = Inr os0"
    by (simp add: OrbitStateVectors_def Let_def vec_at_def)
  let ?os = "os0\<lparr>sensor_position := replicate (nat h) zero_vector, sensor_velocity := replicate (nat h) zero_vector\<rparr>"
  have "lines_filled os0 t0 dt h 0 ?os"
    using OrbitStateVectors_Inr [OF c] assms(3) unfolding lines_filled_def cache_ok_def by auto
  moreover have "length (vectors os0) \<le> 8" using OrbitStateVectors_Inr [OF c] assms(2) by simp
  ultimately have "\<exists>os. fold_res (fill_line t0 dt) [0..h - 1] ?os = Inr os"
    using assms(3) by (intro fill_lines_total) simp_all
  then show ?thesis using c assms(3)
    by (simp add: OrbitStateVectors_lines_def fill_line_def [abs_def] line_time_def Let_def)
qed

theorem sensor_lines_agree_witness:
  "\<exists>os. OrbitStateVectors_lines (map sample_vector [0..<3]) (Fin 7000) (Fin (1 / 1024)) 3 = Inr os \<and>
     GetPosition os (line_time (Fin 7000) (Fin (1 / 1024)) 2) = Inr (sensor_position os ! 2)"
proof -
  have "RemoveRedundantVectors (map sample_vector [0..<3]) = map sample_vector [0..<3]"
    by (rule RemoveRedundantVectors_id) (simp add: sample_vector_def upt_rec)
  then have "\<exists>os. OrbitStateVectors_lines (map sample_vector [0..<3]) (Fin 7000) (Fin (1 / 1024)) 3 = Inr os"
    by (intro OrbitStateVectors_lines_total) simp_all
  then obtain os where c: "OrbitStateVectors_lines (map sample_vector [0..<3]) (Fin 7000) (Fin (1 / 1024)) 3 = Inr os"
    by blast
  have "GetPosition os (line_time (Fin 7000) (Fin (1 / 1024)) (int 2)) = Inr (sensor_position os ! 2)"
    using sensor_lines_agree [OF c, THEN conjunct2, THEN conjunct2, THEN conjunct1, rule_format, of 2] by simp
  with c show ?thesis by auto
qed

end
