(* ===== verification/StdAlgo.thy ===== *)
theory StdAlgo
  imports Prelude
begin

text \<open>
  Algorithms of the C++ standard library: \<open>std::binary_search\<close> with a comparison, by halving the range, and
  \<open>std::string::find\<close>, and the ordered map. On a range that is sorted by the comparison, the search finds a position exactly
  when the range has an element equivalent to the one searched.
\<close>

section \<open>Binary search\<close>

fun lower_bound_loop :: "('a \<Rightarrow> bool) \<Rightarrow> 'a list \<Rightarrow> nat \<Rightarrow> nat \<Rightarrow> nat" where
  "lower_bound_loop before xs i len =
     (if len = 0 then i
      else let half = len div 2; mid = i + half
           in if before (xs ! mid) then lower_bound_loop before xs (mid + 1) (len - half - 1)
              else lower_bound_loop before xs i half)"

declare lower_bound_loop.simps [simp del]

definition binary_search :: "('a \<Rightarrow> 'a \<Rightarrow> bool) \<Rightarrow> 'a list \<Rightarrow> 'a \<Rightarrow> bool" where
  "binary_search cmp xs v =
     (let i = lower_bound_loop (\<lambda>x. cmp x v) xs 0 (length xs)
      in i < length xs \<and> \<not> cmp v (xs ! i))"

text \<open>The position splits the range into the elements before and the others.\<close>

lemma lower_bound_loop_split:
  assumes "\<forall>j. i \<le> j \<and> j < i + len \<longrightarrow> (before (xs ! j) \<longleftrightarrow> j < p)" and "i \<le> p" and "p \<le> i + len"
  shows "lower_bound_loop before xs i len = p"
  using assms
proof (induction len arbitrary: i rule: less_induct)
  case (less len)
  let ?half = "len div 2"
  let ?mid = "i + ?half"
  show ?case
  proof (cases "len = 0")
    case True
    then show ?thesis using less.prems by (simp add: lower_bound_loop.simps)
  next
    case False
    then have h: "?half < len" "len - ?half - 1 < len" by simp_all
    have m: "before (xs ! ?mid) \<longleftrightarrow> ?mid < p" using less.prems(1) h by simp
    show ?thesis
    proof (cases "?mid < p")
      case True
      have "lower_bound_loop before xs (?mid + 1) (len - ?half - 1) = p"
        by (rule less.IH [OF h(2)]) (use less.prems True h in auto)
      then show ?thesis using False True m by (subst lower_bound_loop.simps) (simp add: Let_def)
    next
      case g: False
      have "lower_bound_loop before xs i ?half = p"
        by (rule less.IH [OF h(1)]) (use less.prems g h in auto)
      then show ?thesis using False g m by (subst lower_bound_loop.simps) (simp add: Let_def)
    qed
  qed
qed

lemma sorted_prefix:
  fixes a :: "'a::linorder"
  assumes "sorted ks"
  shows "\<exists>p \<le> length ks. \<forall>j < length ks. ks ! j < a \<longleftrightarrow> j < p"
  using assms
proof (induction ks)
  case Nil
  show ?case by simp
next
  case (Cons k ks)
  then obtain p where p: "p \<le> length ks" "\<forall>j < length ks. ks ! j < a \<longleftrightarrow> j < p" by auto
  show ?case
  proof (cases "k < a")
    case True
    then show ?thesis using p by (intro exI [of _ "Suc p"]) (auto simp: nth_Cons split: nat.split)
  next
    case False
    then have "\<forall>j < length (k # ks). \<not> (k # ks) ! j < a"
      using Cons.prems by (auto simp: nth_Cons split: nat.split dest!: nth_mem)
    then show ?thesis by (intro exI [of _ 0]) simp
  qed
qed

lemma binary_search_iff:
  fixes key :: "'a \<Rightarrow> 'b::linorder"
  assumes "sorted (map key xs)" and "\<forall>x\<in>set xs. cmp x v = (key x < key v) \<and> cmp v x = (key v < key x)"
  shows "binary_search cmp xs v \<longleftrightarrow> key v \<in> key ` set xs"
proof -
  obtain p where p: "p \<le> length xs" "\<forall>j < length xs. key (xs ! j) < key v \<longleftrightarrow> j < p"
    using sorted_prefix [OF assms(1), of "key v"] by auto
  have l: "lower_bound_loop (\<lambda>x. cmp x v) xs 0 (length xs) = p"
    by (rule lower_bound_loop_split) (use p assms(2) in auto)
  show ?thesis
  proof
    assume "binary_search cmp xs v"
    then have q: "p < length xs" "\<not> cmp v (xs ! p)" by (simp_all add: binary_search_def l)
    then have "key (xs ! p) = key v" using p(2) assms(2) by (metis less_irrefl_nat linorder_neqE nth_mem)
    with q show "key v \<in> key ` set xs" by (metis image_eqI nth_mem)
  next
    assume "key v \<in> key ` set xs"
    then obtain j where j: "j < length xs" "key (xs ! j) = key v" by (auto simp: in_set_conv_nth)
    then have "p \<le> j" using p(2) by (metis less_irrefl not_le)
    then have "key (xs ! p) \<le> key v" using sorted_nth_mono [OF assms(1)] j by fastforce
    then show "binary_search cmp xs v" using \<open>p \<le> j\<close> j(1) assms(2) by (auto simp: binary_search_def l)
  qed
qed
section \<open>Searching a string\<close>

fun find_sub :: "string \<Rightarrow> string \<Rightarrow> nat option" where
  "find_sub d [] = (if d = [] then Some 0 else None)"
| "find_sub d (c # s) =
     (if take (length d) (c # s) = d then Some 0 else map_option Suc (find_sub d s))"

lemma find_sub_Nil [simp]: "find_sub [] s = Some 0"
  by (cases s) simp_all

lemma find_sub_Some:
  "find_sub d s = Some p \<Longrightarrow> p + length d \<le> length s \<and> take (length d) (drop p s) = d"
proof (induction s arbitrary: p)
  case (Cons c s)
  show ?case
  proof (cases "take (length d) (c # s) = d")
    case True
    then have "length d \<le> length (c # s)" by (metis length_take min.cobounded1)
    then show ?thesis using Cons.prems True by simp
  next
    case False
    then show ?thesis using Cons by auto
  qed
qed (simp split: if_splits)

text \<open>Only the text up to the end of the first match decides where it is.\<close>

lemma find_sub_prefix:
  "find_sub d s = Some p \<Longrightarrow> find_sub d (s @ t) = Some p"
proof (induction s arbitrary: p)
  case (Cons c s)
  show ?case
  proof (cases "take (length d) (c # s) = d")
    case True
    then have "length d \<le> length (c # s)" by (metis length_take min.cobounded1)
    then have "take (length d) ((c # s) @ t) = d" using True by (simp only: take_append) simp
    then show ?thesis using Cons.prems True by simp
  next
    case False
    then obtain q where q: "find_sub d s = Some q" "p = Suc q" using Cons.prems by auto
    from find_sub_Some [OF q(1)] have "length d \<le> length (c # s)" by simp
    then have "take (length d) ((c # s) @ t) \<noteq> d" using False by (simp only: take_append) simp
    then show ?thesis using Cons.IH [OF q(1)] q(2) by simp
  qed
qed (simp split: if_splits)

section \<open>Ordered maps\<close>

text \<open>A \<open>std::map\<close> is the list of its entries in the order of their keys; \<open>insert_or_assign\<close> and \<open>upper_bound\<close>.\<close>

fun insert_or_assign :: "'k::linorder \<Rightarrow> 'v \<Rightarrow> ('k \<times> 'v) list \<Rightarrow> ('k \<times> 'v) list" where
  "insert_or_assign k v [] = [(k, v)]"
| "insert_or_assign k v ((k', v') # ps) =
     (if k < k' then (k, v) # (k', v') # ps else if k = k' then (k, v) # ps else (k', v') # insert_or_assign k v ps)"

definition upper_bound :: "('k::linorder \<times> 'v) list \<Rightarrow> 'k \<Rightarrow> ('k \<times> 'v) option" where
  "upper_bound m k = List.find (\<lambda>p. k < fst p) m"

lemma insert_or_assign_keys: "fst ` set (insert_or_assign k v m) = insert k (fst ` set m)"
  by (induction k v m rule: insert_or_assign.induct) auto

lemma insert_or_assign_entries: "set (insert_or_assign k v m) \<subseteq> insert (k, v) (set m)"
  by (induction k v m rule: insert_or_assign.induct) auto

lemma insert_or_assign_sorted:
  assumes "sorted_wrt (<) (map fst m)"
  shows "sorted_wrt (<) (map fst (insert_or_assign k v m))"
  using assms
proof (induction k v m rule: insert_or_assign.induct)
  case (2 k v k' v' ps)
  have "k' < fst p" if "\<not> k < k'" "k \<noteq> k'" "p \<in> set (insert_or_assign k v ps)" for p
  proof -
    have "fst p \<in> insert k (fst ` set ps)" using insert_or_assign_keys [of k v ps] that(3) by blast
    then show ?thesis using 2(2) that(1,2) by auto
  qed
  then show ?case using 2 by auto
qed simp

lemma upper_bound_Some:
  assumes "sorted_wrt (<) (map fst m)" and "upper_bound m k = Some p"
  shows "p \<in> set m \<and> k < fst p \<and> (\<forall>q \<in> set m. k < fst q \<longrightarrow> fst p \<le> fst q)"
  using assms unfolding upper_bound_def by (induction m) (auto split: if_splits)

end
