(* ===== verification/StringUtils.thy ===== *)
theory StringUtils
  imports StdAlgo CStrings
begin

text \<open>
  \<^verbatim>\<open>string_utils.cc\<close>: cutting a text at a delimiter and joining parts with one, padding a number, making
  a valid name. The cutting loop never ends for an empty delimiter, so it is a partial function.
\<close>

partial_function (option) split_loop :: "string \<Rightarrow> string \<Rightarrow> string list \<Rightarrow> string list option" where
  "split_loop delimiter str tokens =
     (case find_sub delimiter str of
        None \<Rightarrow> Some (tokens @ [str])
      | Some pos \<Rightarrow> split_loop delimiter (drop (pos + length delimiter) str) (tokens @ [take pos str]))"

definition StringToVectorByDelimiter :: "string \<Rightarrow> string \<Rightarrow> string list option" where
  "StringToVectorByDelimiter strv delimiter = split_loop delimiter strv []"

definition PadNum :: "int \<Rightarrow> int \<Rightarrow> char \<Rightarrow> string" where
  "PadNum num len c = replicate (nat (len mod 2 ^ 64) - length (to_string num)) c @ to_string num"

definition ArrayToString :: "string list \<Rightarrow> string \<Rightarrow> string" where
  "ArrayToString vec delimiter =
     (if vec = [] then [] else concat (map (\<lambda>s. s @ delimiter) (butlast vec)) @ last vec)"

text \<open>Characters are compared as \<open>char\<close>, which is signed.\<close>

definition char_value :: "char \<Rightarrow> int" where
  "char_value c = wrap_signed 8 (int (code c))"

definition is_alpha :: "char \<Rightarrow> bool" where
  "is_alpha c \<longleftrightarrow> is_lower c \<or> is_upper c"

definition CreateValidName :: "string \<Rightarrow> string \<Rightarrow> char \<Rightarrow> string" where
  "CreateValidName name valid_chars replace_char =
     (let sorted_valid_chars = sort_key char_value (if valid_chars = [] then [char_of (0 :: nat)] else valid_chars)
      in map (\<lambda>ch. if is_digit ch \<or> is_alpha ch \<or>
                      binary_search (\<lambda>a b. char_value a < char_value b) sorted_valid_chars ch
                   then ch else replace_char) name)"

section \<open>Termination\<close>

lemma split_loop_total:
  assumes "d \<noteq> []"
  shows "\<exists>ts. split_loop d s tokens = Some ts"
proof (induction "length s" arbitrary: s tokens rule: less_induct)
  case less
  show ?case
  proof (cases "find_sub d s")
    case None
    then show ?thesis by (simp add: split_loop.simps)
  next
    case (Some pos)
    then have "length (drop (pos + length d) s) < length s"
      using find_sub_Some [OF Some] assms by (cases d) auto
    then obtain ts where "split_loop d (drop (pos + length d) s) (tokens @ [take pos s]) = Some ts"
      using less by blast
    then show ?thesis using Some by (subst split_loop.simps) simp
  qed
qed

text \<open>With an empty delimiter each round removes nothing and adds an empty token.\<close>

lemma split_loop_Some: "split_loop d s tokens = Some ts \<Longrightarrow> d \<noteq> []"
proof (erule split_loop.raw_induct [rotated])
  fix f d s tokens ts
  assume IH: "\<And>d s tokens ts. f d s tokens = Some ts \<Longrightarrow> d \<noteq> []"
    and e: "(case find_sub d s of None \<Rightarrow> Some (tokens @ [s])
      | Some pos \<Rightarrow> f d (drop (pos + length d) s) (tokens @ [take pos s])) = Some ts"
  show "d \<noteq> []"
  proof (cases "find_sub d s")
    case None
    then show ?thesis by auto
  next
    case (Some pos)
    with e show ?thesis by (intro IH) simp
  qed
qed

text \<open>
  C21. \<open>StringToVectorByDelimiter\<close> returns exactly when the delimiter is not empty; with an empty one it
  loops forever, adding an empty token in each round.
\<close>

theorem split_returns_iff: "(\<exists>ts. StringToVectorByDelimiter strv delimiter = Some ts) \<longleftrightarrow> delimiter \<noteq> []"
  using split_loop_total [of delimiter strv "[]"] split_loop_Some [of delimiter strv "[]"]
  by (auto simp: StringToVectorByDelimiter_def)

section \<open>Cutting what was joined\<close>

lemma split_loop_join:
  assumes "\<forall>v\<in>set vs. find_sub d (v @ d) = Some (length v)" and "find_sub d v = None"
  shows "split_loop d (concat (map (\<lambda>s. s @ d) vs) @ v) tokens = Some (tokens @ vs @ [v])"
  using assms(1)
proof (induction vs arbitrary: tokens)
  case Nil
  show ?case using assms(2) by (simp add: split_loop.simps)
next
  case (Cons u vs)
  let ?rest = "concat (map (\<lambda>s. s @ d) vs) @ v"
  have "find_sub d (u @ d @ ?rest) = Some (length u)"
    using find_sub_prefix [of d "u @ d" "length u" ?rest] Cons.prems by simp
  then have "split_loop d (u @ d @ ?rest) tokens = split_loop d ?rest (tokens @ [u])"
    by (subst split_loop.simps) simp
  then show ?case using Cons by simp
qed

text \<open>
  Cutting is the inverse of joining: a non-empty vector joined by \<open>ArrayToString\<close> is cut into the same
  parts, provided that the delimiter does not occur in the last part and, in every other part followed by a
  delimiter, occurs first at the end of the part.
\<close>

theorem split_join:
  assumes "vec \<noteq> []" and "\<forall>v\<in>set (butlast vec). find_sub delimiter (v @ delimiter) = Some (length v)"
    and "find_sub delimiter (last vec) = None"
  shows "StringToVectorByDelimiter (ArrayToString vec delimiter) delimiter = Some vec"
  using split_loop_join [OF assms(2,3), of "[]"] assms(1)
  by (simp add: StringToVectorByDelimiter_def ArrayToString_def)

theorem split_join_witness:
  "StringToVectorByDelimiter (ArrayToString [''VV'', [], ''a:b''] ''::'') ''::'' = Some [''VV'', [], ''a:b'']"
  by (rule split_join) simp_all

section \<open>Valid names\<close>

text \<open>The characters of the list are found whatever their order in it.\<close>

lemma CreateValidName_chars:
  assumes "valid_chars \<noteq> []"
  shows "CreateValidName name valid_chars replace_char =
    map (\<lambda>ch. if is_digit ch \<or> is_alpha ch \<or> ch \<in> set valid_chars then ch else replace_char) name"
proof -
  have inj: "char_value a = char_value b \<longleftrightarrow> a = b" for a b
  proof
    assume "char_value a = char_value b"
    then have "(int (code a) + 128) mod 256 = (int (code b) + 128) mod 256"
      by (simp add: char_value_def wrap_signed_def)
    then have "int (code a) mod 256 = int (code b) mod 256" by (metis add_diff_cancel_right' mod_diff_left_eq)
    moreover have "code a < 256" "code b < 256" by (simp_all add: code_def)
    ultimately have "code a = code b" by simp
    then show "a = b" by (simp add: code_def of_char_eq_iff)
  qed simp
  have "binary_search (\<lambda>a b. char_value a < char_value b) (sort_key char_value valid_chars) ch \<longleftrightarrow>
      ch \<in> set valid_chars" for ch
    by (subst binary_search_iff [where key = char_value]) (auto simp: inj image_iff)
  then show ?thesis using assms by (simp add: CreateValidName_def)
qed

end
