(* ===== verification/Xml.thy ===== *)
theory Xml
  imports Prelude
begin

text \<open>
  The part of a parsed XML document the code walks through with the vendored pugixml parser: elements with
  attributes and children, and text. The operations are those of \<open>pugi::xml_node\<close>: a name (empty for text),
  the value of the first text child, the first attribute with a name, the elements of a name below a node in
  document order (the query \<open>//name\<close>).
\<close>

datatype xml_node =
    Element string "(string \<times> string) list" "xml_node list"
  | Pcdata string

fun xml_name :: "xml_node \<Rightarrow> string" where
  "xml_name (Element n as cs) = n"
| "xml_name (Pcdata s) = []"

fun xml_children :: "xml_node \<Rightarrow> xml_node list" where
  "xml_children (Element n as cs) = cs"
| "xml_children (Pcdata s) = []"

fun first_pcdata :: "xml_node list \<Rightarrow> string" where
  "first_pcdata [] = []"
| "first_pcdata (Pcdata s # ns) = s"
| "first_pcdata (Element _ _ _ # ns) = first_pcdata ns"

fun xml_text :: "xml_node \<Rightarrow> string" where
  "xml_text (Element n as cs) = first_pcdata cs"
| "xml_text (Pcdata s) = s"

fun xml_attribute :: "string \<Rightarrow> xml_node \<Rightarrow> string" where
  "xml_attribute a (Element n as cs) = (case List.find (\<lambda>(k, v). k = a) as of None \<Rightarrow> [] | Some (k, v) \<Rightarrow> v)"
| "xml_attribute a (Pcdata s) = []"

fun named_below :: "string \<Rightarrow> xml_node \<Rightarrow> xml_node list" where
  "named_below q (Element n as cs) =
     (if n = q then [Element n as cs] else []) @ concat (map (named_below q) cs)"
| "named_below q (Pcdata s) = []"

end
