(* ===== verification/Tags.thy ===== *)
theory Tags
  imports Main
begin

text \<open>
  The names of the elements and attributes of the abstracted metadata (\<^verbatim>\<open>abstract_metadata.h\<close>).
\<close>

named_theorems tag_defs \<open>the metadata names as strings\<close>

definition METADATA_VERSION :: string where [tag_defs]: "METADATA_VERSION = ''6.0''"
definition NO_METADATA_STRING :: string where [tag_defs]: "NO_METADATA_STRING = ''-''"
definition ABSTRACTED_METADATA_VERSION :: string where [tag_defs]: "ABSTRACTED_METADATA_VERSION = ''metadata_version''"
definition ABSTRACT_METADATA_ROOT :: string where [tag_defs]: "ABSTRACT_METADATA_ROOT = ''Abstracted_Metadata''"
definition ORIGINAL_PRODUCT_METADATA :: string where [tag_defs]: "ORIGINAL_PRODUCT_METADATA = ''Original_Product_Metadata''"
definition BAND_PREFIX :: string where [tag_defs]: "BAND_PREFIX = ''Band_''"
definition LATITUDE :: string where [tag_defs]: "LATITUDE = ''latitude''"
definition LONGITUDE :: string where [tag_defs]: "LONGITUDE = ''longitude''"
definition SLAVE_METADATA_ROOT :: string where [tag_defs]: "SLAVE_METADATA_ROOT = ''Slave_Metadata''"
definition PRODUCT :: string where [tag_defs]: "PRODUCT = ''PRODUCT''"
definition PRODUCT_TYPE :: string where [tag_defs]: "PRODUCT_TYPE = ''PRODUCT_TYPE''"
definition SPH_DESCRIPTOR :: string where [tag_defs]: "SPH_DESCRIPTOR = ''SPH_DESCRIPTOR''"
definition MISSION :: string where [tag_defs]: "MISSION = ''MISSION''"
definition ACQUISITION_MODE :: string where [tag_defs]: "ACQUISITION_MODE = ''ACQUISITION_MODE''"
definition ANTENNA_POINTING :: string where [tag_defs]: "ANTENNA_POINTING = ''antenna_pointing''"
definition BEAMS :: string where [tag_defs]: "BEAMS = ''BEAMS''"
definition ANNOTATION :: string where [tag_defs]: "ANNOTATION = ''annotation''"
definition BAND_NAMES :: string where [tag_defs]: "BAND_NAMES = ''band_names''"
definition SWATH :: string where [tag_defs]: "SWATH = ''SWATH''"
definition swath_tag :: string where [tag_defs]: "swath_tag = ''swath''"
definition PROC_TIME :: string where [tag_defs]: "PROC_TIME = ''PROC_TIME''"
definition PROCESSING_SYSTEM_IDENTIFIER :: string where [tag_defs]: "PROCESSING_SYSTEM_IDENTIFIER = ''Processing_system_identifier''"
definition CYCLE :: string where [tag_defs]: "CYCLE = ''orbit_cycle''"
definition REL_ORBIT :: string where [tag_defs]: "REL_ORBIT = ''REL_ORBIT''"
definition ABS_ORBIT :: string where [tag_defs]: "ABS_ORBIT = ''ABS_ORBIT''"
definition STATE_VECTOR_TIME :: string where [tag_defs]: "STATE_VECTOR_TIME = ''STATE_VECTOR_TIME''"
definition VECTOR_SOURCE :: string where [tag_defs]: "VECTOR_SOURCE = ''VECTOR_SOURCE''"
definition SLICE_NUM :: string where [tag_defs]: "SLICE_NUM = ''slice_num''"
definition DATA_TAKE_ID :: string where [tag_defs]: "DATA_TAKE_ID = ''data_take_id''"
definition FIRST_LINE_TIME :: string where [tag_defs]: "FIRST_LINE_TIME = ''first_line_time''"
definition LAST_LINE_TIME :: string where [tag_defs]: "LAST_LINE_TIME = ''last_line_time''"
definition FIRST_NEAR_LAT :: string where [tag_defs]: "FIRST_NEAR_LAT = ''first_near_lat''"
definition FIRST_NEAR_LONG :: string where [tag_defs]: "FIRST_NEAR_LONG = ''first_near_long''"
definition FIRST_FAR_LAT :: string where [tag_defs]: "FIRST_FAR_LAT = ''first_far_lat''"
definition FIRST_FAR_LONG :: string where [tag_defs]: "FIRST_FAR_LONG = ''first_far_long''"
definition LAST_NEAR_LAT :: string where [tag_defs]: "LAST_NEAR_LAT = ''last_near_lat''"
definition LAST_NEAR_LONG :: string where [tag_defs]: "LAST_NEAR_LONG = ''last_near_long''"
definition LAST_FAR_LAT :: string where [tag_defs]: "LAST_FAR_LAT = ''last_far_lat''"
definition LAST_FAR_LONG :: string where [tag_defs]: "LAST_FAR_LONG = ''last_far_long''"
definition PASS :: string where [tag_defs]: "PASS = ''PASS''"
definition SAMPLE_TYPE :: string where [tag_defs]: "SAMPLE_TYPE = ''SAMPLE_TYPE''"
definition INCIDENCE_NEAR :: string where [tag_defs]: "INCIDENCE_NEAR = ''incidence_near''"
definition INCIDENCE_FAR :: string where [tag_defs]: "INCIDENCE_FAR = ''incidence_far''"
definition MDS1_TX_RX_POLAR :: string where [tag_defs]: "MDS1_TX_RX_POLAR = ''mds1_tx_rx_polar''"
definition MDS2_TX_RX_POLAR :: string where [tag_defs]: "MDS2_TX_RX_POLAR = ''mds2_tx_rx_polar''"
definition MDS3_TX_RX_POLAR :: string where [tag_defs]: "MDS3_TX_RX_POLAR = ''mds3_tx_rx_polar''"
definition MDS4_TX_RX_POLAR :: string where [tag_defs]: "MDS4_TX_RX_POLAR = ''mds4_tx_rx_polar''"
definition POLARIZATION :: string where [tag_defs]: "POLARIZATION = ''polarization''"
definition POLSARDATA :: string where [tag_defs]: "POLSARDATA = ''polsar_data''"
definition ALGORITHM :: string where [tag_defs]: "ALGORITHM = ''algorithm''"
definition AZIMUTH_LOOKS :: string where [tag_defs]: "AZIMUTH_LOOKS = ''azimuth_looks''"
definition RANGE_LOOKS :: string where [tag_defs]: "RANGE_LOOKS = ''range_looks''"
definition RANGE_SPACING :: string where [tag_defs]: "RANGE_SPACING = ''range_spacing''"
definition AZIMUTH_SPACING :: string where [tag_defs]: "AZIMUTH_SPACING = ''azimuth_spacing''"
definition PULSE_REPETITION_FREQUENCY :: string where [tag_defs]: "PULSE_REPETITION_FREQUENCY = ''pulse_repetition_frequency''"
definition RADAR_FREQUENCY :: string where [tag_defs]: "RADAR_FREQUENCY = ''radar_frequency''"
definition LINE_TIME_INTERVAL :: string where [tag_defs]: "LINE_TIME_INTERVAL = ''line_time_interval''"
definition TOT_SIZE :: string where [tag_defs]: "TOT_SIZE = ''total_size''"
definition NUM_OUTPUT_LINES :: string where [tag_defs]: "NUM_OUTPUT_LINES = ''num_output_lines''"
definition NUM_SAMPLES_PER_LINE :: string where [tag_defs]: "NUM_SAMPLES_PER_LINE = ''num_samples_per_line''"
definition SUBSET_OFFSET_X :: string where [tag_defs]: "SUBSET_OFFSET_X = ''subset_offset_x''"
definition SUBSET_OFFSET_Y :: string where [tag_defs]: "SUBSET_OFFSET_Y = ''subset_offset_y''"
definition SRGR_FLAG :: string where [tag_defs]: "SRGR_FLAG = ''srgr_flag''"
definition MAP_PROJECTION :: string where [tag_defs]: "MAP_PROJECTION = ''map_projection''"
definition FIRST_VALID_LINE_TIME :: string where [tag_defs]: "FIRST_VALID_LINE_TIME = ''firstValidLineTime''"
definition LAST_VALID_LINE_TIME :: string where [tag_defs]: "LAST_VALID_LINE_TIME = ''lastValidLineTime''"
definition FIRST_VALID_PIXEL :: string where [tag_defs]: "FIRST_VALID_PIXEL = ''firstValidPixel''"
definition LAST_VALID_PIXEL :: string where [tag_defs]: "LAST_VALID_PIXEL = ''lastValidPixel''"
definition ANT_ELEV_CORR_FLAG :: string where [tag_defs]: "ANT_ELEV_CORR_FLAG = ''ant_elev_corr_flag''"
definition RANGE_SPREAD_COMP_FLAG :: string where [tag_defs]: "RANGE_SPREAD_COMP_FLAG = ''range_spread_comp_flag''"
definition INC_ANGLE_COMP_FLAG :: string where [tag_defs]: "INC_ANGLE_COMP_FLAG = ''inc_angle_comp_flag''"
definition ABS_CALIBRATION_FLAG :: string where [tag_defs]: "ABS_CALIBRATION_FLAG = ''abs_calibration_flag''"
definition CALIBRATION_FACTOR :: string where [tag_defs]: "CALIBRATION_FACTOR = ''calibration_factor''"
definition CHIRP_POWER :: string where [tag_defs]: "CHIRP_POWER = ''chirp_power''"
definition REPLICA_POWER_CORR_FLAG :: string where [tag_defs]: "REPLICA_POWER_CORR_FLAG = ''replica_power_corr_flag''"
definition RANGE_SAMPLING_RATE :: string where [tag_defs]: "RANGE_SAMPLING_RATE = ''range_sampling_rate''"
definition AVG_SCENE_HEIGHT :: string where [tag_defs]: "AVG_SCENE_HEIGHT = ''avg_scene_height''"
definition MULTILOOK_FLAG :: string where [tag_defs]: "MULTILOOK_FLAG = ''multilook_flag''"
definition BISTATIC_CORRECTION_APPLIED :: string where [tag_defs]: "BISTATIC_CORRECTION_APPLIED = ''bistatic_correction_applied''"
definition REF_INC_ANGLE :: string where [tag_defs]: "REF_INC_ANGLE = ''ref_inc_angle''"
definition REF_SLANT_RANGE :: string where [tag_defs]: "REF_SLANT_RANGE = ''ref_slant_range''"
definition REF_SLANT_RANGE_EXP :: string where [tag_defs]: "REF_SLANT_RANGE_EXP = ''ref_slant_range_exp''"
definition RESCALING_FACTOR :: string where [tag_defs]: "RESCALING_FACTOR = ''rescaling_factor''"
definition COREGISTERED_STACK :: string where [tag_defs]: "COREGISTERED_STACK = ''coregistered_stack''"
definition EXTERNAL_CALIBRATION_FILE :: string where [tag_defs]: "EXTERNAL_CALIBRATION_FILE = ''external_calibration_file''"
definition ORBIT_STATE_VECTOR_FILE :: string where [tag_defs]: "ORBIT_STATE_VECTOR_FILE = ''orbit_state_vector_file''"
definition ORBIT_STATE_VECTORS :: string where [tag_defs]: "ORBIT_STATE_VECTORS = ''Orbit_State_Vectors''"
definition ORBIT_VECTOR :: string where [tag_defs]: "ORBIT_VECTOR = ''orbit_vector''"
definition ORBIT_VECTOR_TIME :: string where [tag_defs]: "ORBIT_VECTOR_TIME = ''time''"
definition ORBIT_VECTOR_X_POS :: string where [tag_defs]: "ORBIT_VECTOR_X_POS = ''x_pos''"
definition ORBIT_VECTOR_Y_POS :: string where [tag_defs]: "ORBIT_VECTOR_Y_POS = ''y_pos''"
definition ORBIT_VECTOR_Z_POS :: string where [tag_defs]: "ORBIT_VECTOR_Z_POS = ''z_pos''"
definition ORBIT_VECTOR_X_VEL :: string where [tag_defs]: "ORBIT_VECTOR_X_VEL = ''x_vel''"
definition ORBIT_VECTOR_Y_VEL :: string where [tag_defs]: "ORBIT_VECTOR_Y_VEL = ''y_vel''"
definition ORBIT_VECTOR_Z_VEL :: string where [tag_defs]: "ORBIT_VECTOR_Z_VEL = ''z_vel''"
definition SRGR_COEFFICIENTS :: string where [tag_defs]: "SRGR_COEFFICIENTS = ''SRGR_Coefficients''"
definition DOP_COEFFICIENTS :: string where [tag_defs]: "DOP_COEFFICIENTS = ''Doppler_Centroid_Coefficients''"
definition IS_TERRAIN_CORRECTED :: string where [tag_defs]: "IS_TERRAIN_CORRECTED = ''is_terrain_corrected''"
definition DEM :: string where [tag_defs]: "DEM = ''DEM''"
definition GEO_REF_SYSTEM :: string where [tag_defs]: "GEO_REF_SYSTEM = ''geo_ref_system''"
definition LAT_PIXEL_RES :: string where [tag_defs]: "LAT_PIXEL_RES = ''lat_pixel_res''"
definition LON_PIXEL_RES :: string where [tag_defs]: "LON_PIXEL_RES = ''lon_pixel_res''"
definition SLANT_RANGE_TO_FIRST_PIXEL :: string where [tag_defs]: "SLANT_RANGE_TO_FIRST_PIXEL = ''slant_range_to_first_pixel''"
definition RANGE_BANDWIDTH :: string where [tag_defs]: "RANGE_BANDWIDTH = ''range_bandwidth''"
definition AZIMUTH_BANDWIDTH :: string where [tag_defs]: "AZIMUTH_BANDWIDTH = ''azimuth_bandwidth''"
definition ADS_HEADER :: string where [tag_defs]: "ADS_HEADER = ''adsHeader''"
definition START_TIME :: string where [tag_defs]: "START_TIME = ''startTime''"
definition IMAGE_ANNOTATION :: string where [tag_defs]: "IMAGE_ANNOTATION = ''imageAnnotation''"
definition IMAGE_INFORMATION :: string where [tag_defs]: "IMAGE_INFORMATION = ''imageInformation''"
definition NUMBER_OF_LINES :: string where [tag_defs]: "NUMBER_OF_LINES = ''numberOfLines''"
definition NUMBER_OF_SAMPLES :: string where [tag_defs]: "NUMBER_OF_SAMPLES = ''numberOfSamples''"
definition LINES_PER_BURST :: string where [tag_defs]: "LINES_PER_BURST = ''linesPerBurst''"
definition SAMPLES_PER_BURST :: string where [tag_defs]: "SAMPLES_PER_BURST = ''samplesPerBurst''"
definition AZIMUTH_TIME :: string where [tag_defs]: "AZIMUTH_TIME = ''azimuthTime''"
definition LINE :: string where [tag_defs]: "LINE = ''line''"
definition PIXEL :: string where [tag_defs]: "PIXEL = ''pixel''"
definition COUNT :: string where [tag_defs]: "COUNT = ''count''"
definition SIGMA_NOUGHT :: string where [tag_defs]: "SIGMA_NOUGHT = ''sigmaNought''"
definition BETA_NOUGHT :: string where [tag_defs]: "BETA_NOUGHT = ''betaNought''"
definition GAMMA :: string where [tag_defs]: "GAMMA = ''gamma''"
definition DN :: string where [tag_defs]: "DN = ''dn''"
definition NOISE :: string where [tag_defs]: "NOISE = ''noise''"
definition NOISE_AZIMUTH_VECTOR_LIST :: string where [tag_defs]: "NOISE_AZIMUTH_VECTOR_LIST = ''noiseAzimuthVectorList''"
definition NOISE_AZIMUTH_LUT :: string where [tag_defs]: "NOISE_AZIMUTH_LUT = ''noiseAzimuthLut''"
definition FIRST_AZIMUTH_LINE :: string where [tag_defs]: "FIRST_AZIMUTH_LINE = ''firstAzimuthLine''"
definition LAST_AZIMUTH_LINE :: string where [tag_defs]: "LAST_AZIMUTH_LINE = ''lastAzimuthLine''"
definition FIRST_RANGE_SAMPLE :: string where [tag_defs]: "FIRST_RANGE_SAMPLE = ''firstRangeSample''"
definition LAST_RANGE_SAMPLE :: string where [tag_defs]: "LAST_RANGE_SAMPLE = ''lastRangeSample''"
definition NOISE_RANGE_VECTOR_LIST :: string where [tag_defs]: "NOISE_RANGE_VECTOR_LIST = ''noiseRangeVectorList''"
definition NOISE_RANGE_LUT :: string where [tag_defs]: "NOISE_RANGE_LUT = ''noiseRangeLut''"
definition SWATH_TIMING :: string where [tag_defs]: "SWATH_TIMING = ''swathTiming''"
definition BURST_LIST :: string where [tag_defs]: "BURST_LIST = ''burstList''"
definition GENERAL_ANNOTATION :: string where [tag_defs]: "GENERAL_ANNOTATION = ''generalAnnotation''"
definition PRODUCT_INFORMATION :: string where [tag_defs]: "PRODUCT_INFORMATION = ''productInformation''"
definition ANTENNA_PATTERN :: string where [tag_defs]: "ANTENNA_PATTERN = ''antennaPattern''"
definition ANTENNA_PATTERN_LIST :: string where [tag_defs]: "ANTENNA_PATTERN_LIST = ''antennaPatternList''"
definition AZIMUTH_TIME_INTERVAL :: string where [tag_defs]: "AZIMUTH_TIME_INTERVAL = ''azimuthTimeInterval''"
definition RANGE_PIXEL_SPACING :: string where [tag_defs]: "RANGE_PIXEL_SPACING = ''rangePixelSpacing''"
definition PRODUCT_FIRST_LINE_UTC_TIME :: string where [tag_defs]: "PRODUCT_FIRST_LINE_UTC_TIME = ''productFirstLineUtcTime''"
definition PRODUCT_LAST_LINE_UTC_TIME :: string where [tag_defs]: "PRODUCT_LAST_LINE_UTC_TIME = ''productLastLineUtcTime''"
definition AZIMUTH_STEERING_RATE :: string where [tag_defs]: "AZIMUTH_STEERING_RATE = ''azimuthSteeringRate''"
definition FIRST_VALID_SAMPLE :: string where [tag_defs]: "FIRST_VALID_SAMPLE = ''firstValidSample''"
definition LAST_VALID_SAMPLE :: string where [tag_defs]: "LAST_VALID_SAMPLE = ''lastValidSample''"
definition GEOLOCATION_GRID :: string where [tag_defs]: "GEOLOCATION_GRID = ''geolocationGrid''"
definition GEOLOCATION_GRID_POINT_LIST :: string where [tag_defs]: "GEOLOCATION_GRID_POINT_LIST = ''geolocationGridPointList''"
definition INCIDENCE_ANGLE :: string where [tag_defs]: "INCIDENCE_ANGLE = ''incidenceAngle''"
definition ELEVATION_ANGLE :: string where [tag_defs]: "ELEVATION_ANGLE = ''elevationAngle''"
definition SLR_TIME_TO_FIRST_VALID_PIXEL :: string where [tag_defs]: "SLR_TIME_TO_FIRST_VALID_PIXEL = ''slrTimeToFirstValidPixel''"
definition SLR_TIME_TO_LAST_VALID_PIXEL :: string where [tag_defs]: "SLR_TIME_TO_LAST_VALID_PIXEL = ''slrTimeToLastValidPixel''"

end
