(* ===== verification/OrbitFile.thy ===== *)
theory OrbitFile
  imports OrbitVectors Metadata StringUtils Xml Tags "HOL-Library.Multiset"
begin

text \<open>
  The Sentinel precise orbit file (\<^verbatim>\<open>sentinel_p_o_d_orbit_file.cc\<close>, \<^verbatim>\<open>orbit_vector.cc\<close>, \<^verbatim>\<open>maths.cc\<close>): finding
  the file by the validity period in its name, reading its header and its orbit vectors from the XML tree,
  checking the period of the header against the product, and the orbit vector at a time, from a polynomial
  fitted through the vectors around it.

  Parameters: the matrix decomposition of Eigen and \<open>std::pow\<close> (\<open>orbit_math\<close>), the XML parser and the files
  (\<open>orbit_files\<close>), \<open>boost::replace_all\<close>.
\<close>

record orbit_vector =
  utc_mjd :: fp
  ov_x :: fp
  ov_y :: fp
  ov_z :: fp
  ov_vx :: fp
  ov_vy :: fp
  ov_vz :: fp

record orbit_math =
  std_pow :: "fp \<Rightarrow> fp \<Rightarrow> fp"
  householder_solve :: "fp list list \<Rightarrow> fp list \<Rightarrow> fp list"

record fixed_header =
  fh_mission :: string
  fh_file_type :: string
  fh_validity_start :: string
  fh_validity_stop :: string

record pod_orbit_file =
  poly_degree :: int
  header :: "fixed_header option"
  abs_root :: ref
  orbit_file :: "string option"
  osv_list :: "orbit_vector list"

definition SentinelPODOrbitFile :: "int \<Rightarrow> ref \<Rightarrow> pod_orbit_file" where
  "SentinelPODOrbitFile degree r =
     \<lparr>poly_degree = degree, header = None, abs_root = r, orbit_file = None, osv_list = []\<rparr>"

definition DATE_FORMAT :: string where "DATE_FORMAT = ''%Y%m%d-%H%M%S''"
definition ORBIT_DATE_FORMAT :: string where "ORBIT_DATE_FORMAT = ''%Y-%m-%d %H:%M:%S''"
definition RESTITUTED :: string where "RESTITUTED = ''Sentinel Restituted''"
definition PRECISE :: string where "PRECISE = ''Sentinel Precise''"

definition GetAvailableOrbitTypes :: "string list" where
  "GetAvailableOrbitTypes = [RESTITUTED, PRECISE]"

definition Compare :: "orbit_vector \<Rightarrow> orbit_vector \<Rightarrow> bool" where
  "Compare osv1 osv2 \<longleftrightarrow> flt (utc_mjd osv1) (utc_mjd osv2) \<and> fge (utc_mjd osv2) (utc_mjd osv1)"

section \<open>Paths\<close>

definition path_filename :: "string \<Rightarrow> string" where
  "path_filename s = rev (takeWhile (\<lambda>c. c \<noteq> CHR ''/'') (rev s))"

definition extension_start :: "string \<Rightarrow> nat" where
  "extension_start name =
     (if name = ''.'' \<or> name = ''..'' then length name
      else case find_last_of CHR ''.'' name of None \<Rightarrow> length name | Some i \<Rightarrow> i)"

definition path_extension :: "string \<Rightarrow> string" where
  "path_extension s = (let name = path_filename s in drop (extension_start name) name)"

definition path_stem :: "string \<Rightarrow> string" where
  "path_stem s = (let name = path_filename s in take (extension_start name) name)"

section \<open>Polynomials\<close>

definition CreateVandermondeMatrix :: "orbit_math \<Rightarrow> fp list \<Rightarrow> int \<Rightarrow> fp list list" where
  "CreateVandermondeMatrix om d warp_polynomial_order =
     map (\<lambda>x. map (\<lambda>j. std_pow om x (fp_of_int f64 j)) [0..warp_polynomial_order]) d"

definition PolyFit :: "orbit_math \<Rightarrow> fp list list \<Rightarrow> fp list \<Rightarrow> fp list" where
  "PolyFit om A y = householder_solve om A y"

definition PolyVal :: "fp \<Rightarrow> fp list \<Rightarrow> fp" where
  "PolyVal t coeff = fold (\<lambda>c val. fadd f64 (fmul f64 val t) c) (rev coeff) (Fin 0)"

section \<open>The vector at a time\<close>

text \<open>The indices of the vectors of the fit.\<close>

definition fit_indices :: "int \<Rightarrow> int \<Rightarrow> int \<Rightarrow> int list" where
  "fit_indices num_vec_poly_fit num_vectors vec_idx =
     (let half = num_vec_poly_fit sdiv 2
      in if vec_idx \<le> half - 1 then [0..num_vec_poly_fit - 1]
         else if vec_idx \<ge> num_vectors - half
         then map (\<lambda>i. num_vectors - num_vec_poly_fit + i) [0..num_vec_poly_fit - 1]
         else map (\<lambda>i. vec_idx - half + 1 + i) [0..num_vec_poly_fit - 1])"

definition vector_index :: "orbit_vector list \<Rightarrow> fp \<Rightarrow> int res" where
  "vector_index osvs at_utc =
     (let num_vectors = int (length osvs)
      in bind_res (vec_at osvs 0) (\<lambda>v0.
         bind_res (vec_at osvs (num_vectors - 1)) (\<lambda>vn.
         let t0 = utc_mjd v0; t_n = utc_mjd vn
         in fp_to_int32 (fmul f64 (fdiv f64 (fsub f64 at_utc t0) (fsub f64 t_n t0)) (fp_of_int f64 (num_vectors - 1))))))"

text \<open>The polynomials through the chosen vectors, at the time relative to the first vector of the list.\<close>

definition fitted_vector :: "orbit_math \<Rightarrow> int \<Rightarrow> fp \<Rightarrow> orbit_vector list \<Rightarrow> fp \<Rightarrow> orbit_vector" where
  "fitted_vector om degree t0 picked at_utc =
     (let a = CreateVandermondeMatrix om (map (\<lambda>v. fsub f64 (utc_mjd v) t0) picked) degree;
          normalized_time = fsub f64 at_utc t0;
          value = (\<lambda>component. PolyVal normalized_time (PolyFit om a (map component picked)))
      in \<lparr>utc_mjd = at_utc, ov_x = value ov_x, ov_y = value ov_y, ov_z = value ov_z,
          ov_vx = value ov_vx, ov_vy = value ov_vy, ov_vz = value ov_vz\<rparr>)"

definition GetOrbitData :: "orbit_math \<Rightarrow> pod_orbit_file \<Rightarrow> fp \<Rightarrow> orbit_vector res" where
  "GetOrbitData om f at_utc =
     (let osvs = osv_list f; num_vectors = int (length osvs)
      in bind_res (vec_at osvs 0) (\<lambda>v0.
         bind_res (vec_at osvs (num_vectors - 1)) (\<lambda>_.
         bind_res (int_result (poly_degree f + 1)) (\<lambda>num_vec_poly_fit.
         bind_res (guard (0 \<le> num_vec_poly_fit) Length_error) (\<lambda>_.
         bind_res (vector_index osvs at_utc) (\<lambda>vec_idx.
         bind_res (map_res (vec_at osvs) (fit_indices num_vec_poly_fit num_vectors vec_idx)) (\<lambda>picked.
           Inr (fitted_vector om (poly_degree f) (utc_mjd v0) picked at_utc))))))))"

text \<open>
  The vectors of a time span. \<open>std::binary_search\<close> only tells whether the time was found, and its answer
  is used as the index of the element.
\<close>

definition insertion_index :: "int \<Rightarrow> int \<Rightarrow> bool \<Rightarrow> int" where
  "insertion_index idx n is_end =
     (if idx < 0 then
        let insertion_pt = - (idx + 1)
        in if is_end
           then if insertion_pt = n then insertion_pt - 1 else if insertion_pt = 0 then 0 else insertion_pt
           else if insertion_pt = n \<or> insertion_pt > 0 then insertion_pt - 1 else 0
      else idx)"

definition search_time :: "orbit_vector list \<Rightarrow> fp \<Rightarrow> int" where
  "search_time osvs t =
     (if binary_search Compare osvs
           \<lparr>utc_mjd = t, ov_x = Fin 0, ov_y = Fin 0, ov_z = Fin 0, ov_vx = Fin 0, ov_vy = Fin 0, ov_vz = Fin 0\<rparr>
      then 1 else 0)"

definition GetOrbitData_span :: "pod_orbit_file \<Rightarrow> fp \<Rightarrow> fp \<Rightarrow> orbit_vector list res" where
  "GetOrbitData_span f start_utc end_utc =
     (let osvs = osv_list f; n = int (length osvs);
          start_idx = insertion_index (search_time osvs start_utc) n False - 3;
          end_idx = insertion_index (search_time osvs end_utc) n True + 3;
          num_osv = end_idx - start_idx + 1
      in map_res (\<lambda>i. vec_at osvs (start_idx + i)) [0..num_osv - 1])"

section \<open>Validity periods\<close>

type_synonym replacer = "string \<Rightarrow> string \<Rightarrow> string \<Rightarrow> string"

definition string_at :: "string \<Rightarrow> int \<Rightarrow> char res" where
  "string_at s i = vec_at s i"

definition substr :: "string \<Rightarrow> nat \<Rightarrow> nat \<Rightarrow> string res" where
  "substr s i n = (if i \<le> length s then Inr (take n (drop i s)) else Inl Out_of_range)"

definition ExtractTimeFromFilename :: "replacer \<Rightarrow> string \<Rightarrow> nat \<Rightarrow> string res" where
  "ExtractTimeFromFilename rep filename offset =
     bind_res (substr filename offset 15) (\<lambda>str. Inr (rep str ''T'' ''-''))"

definition GetValidityStartFromFilenameUTC ::
  "lexical_cast \<Rightarrow> 'p date_time \<Rightarrow> replacer \<Rightarrow> string \<Rightarrow> product_data option res" where
  "GetValidityStartFromFilenameUTC lc dt rep filename =
     bind_res (string_at filename 41) (\<lambda>c.
       if c = CHR ''V'' then
         bind_res (ExtractTimeFromFilename rep filename (41 + 1)) (\<lambda>val.
         bind_res (Parse_pattern lc dt val DATE_FORMAT) (\<lambda>u. Inr (Some u)))
       else Inr None)"

definition GetValidityStopFromFilenameUTC ::
  "lexical_cast \<Rightarrow> 'p date_time \<Rightarrow> replacer \<Rightarrow> string \<Rightarrow> product_data option res" where
  "GetValidityStopFromFilenameUTC lc dt rep filename =
     bind_res (string_at filename 41) (\<lambda>c.
       if c = CHR ''V'' then
         bind_res (ExtractTimeFromFilename rep filename 58) (\<lambda>val.
         bind_res (Parse_pattern lc dt val DATE_FORMAT) (\<lambda>u. Inr (Some u)))
       else Inr None)"

definition IsWithinRange :: "lexical_cast \<Rightarrow> 'p date_time \<Rightarrow> replacer \<Rightarrow> string \<Rightarrow> fp \<Rightarrow> bool res" where
  "IsWithinRange lc dt rep filename state_vector_time =
     (case bind_res (GetValidityStopFromFilenameUTC lc dt rep filename) (\<lambda>utc_end.
           bind_res (GetValidityStartFromFilenameUTC lc dt rep filename) (\<lambda>utc_start.
             case (utc_start, utc_end) of
               (Some s, Some e) \<Rightarrow>
                 bind_res (GetMjd lc s) (\<lambda>start.
                   if fge state_vector_time start
                   then bind_res (GetMjd lc e) (\<lambda>stop. Inr (flt state_vector_time stop))
                   else Inr False)
             | _ \<Rightarrow> Inr False)) of
        Inl x \<Rightarrow> if is_exception x then Inr False else Inl x
      | Inr b \<Rightarrow> Inr b)"

definition ConvertUtc :: "replacer \<Rightarrow> string \<Rightarrow> string" where
  "ConvertUtc rep at_utc = rep (rep at_utc ''UTC='' []) ''T'' '' ''"

definition ToUtc :: "lexical_cast \<Rightarrow> 'p date_time \<Rightarrow> replacer \<Rightarrow> string \<Rightarrow> product_data res" where
  "ToUtc lc dt rep str = Parse_pattern lc dt (ConvertUtc rep str) ORBIT_DATE_FORMAT"

definition GetValidityStartFromHeader :: "pod_orbit_file \<Rightarrow> string" where
  "GetValidityStartFromHeader f = (case header f of Some h \<Rightarrow> fh_validity_start h | None \<Rightarrow> [])"

definition GetValidityStopFromHeader :: "pod_orbit_file \<Rightarrow> string" where
  "GetValidityStopFromHeader f = (case header f of Some h \<Rightarrow> fh_validity_stop h | None \<Rightarrow> [])"

definition CheckOrbitFileValidity :: "'p env \<Rightarrow> replacer \<Rightarrow> heap \<Rightarrow> pod_orbit_file \<Rightarrow> unit res" where
  "CheckOrbitFileValidity e rep hp f =
     bind_res (bind_res (GetAttributeUtc e (abs_root f) STATE_VECTOR_TIME hp) (GetMjd (casts e))) (\<lambda>state_vector_time.
     bind_res (bind_res (ToUtc (casts e) (times e) rep (GetValidityStartFromHeader f)) (GetMjd (casts e))) (\<lambda>start.
     bind_res (bind_res (ToUtc (casts e) (times e) rep (GetValidityStopFromHeader f)) (GetMjd (casts e))) (\<lambda>stop.
       guard (\<not> (flt state_vector_time start \<or> fgt state_vector_time stop)) Runtime_error)))"

definition GetMissionPrefix :: "'p env \<Rightarrow> heap \<Rightarrow> ref \<Rightarrow> string res" where
  "GetMissionPrefix e hp r =
     bind_res (GetAttributeString e r MISSION hp) (\<lambda>mission.
       if mission = [] then Inl Out_of_range else Inr (''S1'' @ [last mission]))"

section \<open>Reading the file\<close>

text \<open>The header is made at the first child after which all four values are there.\<close>

definition header_step ::
  "xml_node \<Rightarrow> string \<times> string \<times> string \<times> string \<times> fixed_header option \<Rightarrow>
   string \<times> string \<times> string \<times> string \<times> fixed_header option" where
  "header_step node = (\<lambda>(mission, file_type, validity_start, validity_stop, made).
     case made of
       Some _ \<Rightarrow> (mission, file_type, validity_start, validity_stop, made)
     | None \<Rightarrow>
         (let (mission, file_type, validity_start, validity_stop) =
                (if xml_name node = ''Mission'' then (xml_text node, file_type, validity_start, validity_stop)
                 else if xml_name node = ''File_Type'' then (mission, xml_text node, validity_start, validity_stop)
                 else if xml_name node = ''Validity_Period'' then
                   (case fold (\<lambda>child (start, stop).
                              if xml_name child = ''Validity_Start'' then (xml_text child, stop)
                              else if xml_name child = ''Validity_Stop'' then (start, xml_text child)
                              else (start, stop))
                           (xml_children node) (validity_start, validity_stop) of
                      (start, stop) \<Rightarrow> (mission, file_type, start, stop))
                 else (mission, file_type, validity_start, validity_stop))
          in (mission, file_type, validity_start, validity_stop,
              if mission \<noteq> [] \<and> file_type \<noteq> [] \<and> validity_start \<noteq> [] \<and> validity_stop \<noteq> []
              then Some \<lparr>fh_mission = mission, fh_file_type = file_type,
                         fh_validity_start = validity_start, fh_validity_stop = validity_stop\<rparr>
              else None)))"

definition ReadFixedHeader :: "xml_node \<Rightarrow> pod_orbit_file \<Rightarrow> pod_orbit_file" where
  "ReadFixedHeader node f =
     (case fold header_step (xml_children node) ([], [], [], [], None) of
        (_, _, _, _, None) \<Rightarrow> f
      | (_, _, _, _, Some h) \<Rightarrow> f\<lparr>header := Some h\<rparr>)"

definition osv_step ::
  "xml_node \<Rightarrow> string \<times> fp \<times> fp \<times> fp \<times> fp \<times> fp \<times> fp \<Rightarrow> (string \<times> fp \<times> fp \<times> fp \<times> fp \<times> fp \<times> fp) res" where
  "osv_step child = (\<lambda>(at_utc, x, y, z, vx, vy, vz).
     let n = xml_name child; t = xml_text child
     in if n = ''UTC'' then Inr (t, x, y, z, vx, vy, vz)
        else if n = ''X'' then bind_res (stod t) (\<lambda>d. Inr (at_utc, d, y, z, vx, vy, vz))
        else if n = ''Y'' then bind_res (stod t) (\<lambda>d. Inr (at_utc, x, d, z, vx, vy, vz))
        else if n = ''Z'' then bind_res (stod t) (\<lambda>d. Inr (at_utc, x, y, d, vx, vy, vz))
        else if n = ''VX'' then bind_res (stod t) (\<lambda>d. Inr (at_utc, x, y, z, d, vy, vz))
        else if n = ''VY'' then bind_res (stod t) (\<lambda>d. Inr (at_utc, x, y, z, vx, d, vz))
        else if n = ''VZ'' then bind_res (stod t) (\<lambda>d. Inr (at_utc, x, y, z, vx, vy, d))
        else Inr (at_utc, x, y, z, vx, vy, vz))"

definition ReadOneOSV :: "lexical_cast \<Rightarrow> 'p date_time \<Rightarrow> replacer \<Rightarrow> xml_node \<Rightarrow> orbit_vector res" where
  "ReadOneOSV lc dt rep osv_node =
     bind_res (fold_res osv_step (xml_children osv_node) ([], Fin 0, Fin 0, Fin 0, Fin 0, Fin 0, Fin 0))
       (\<lambda>(at_utc, x, y, z, vx, vy, vz).
     bind_res (bind_res (ToUtc lc dt rep at_utc) (GetMjd lc)) (\<lambda>utc_time.
       Inr \<lparr>utc_mjd = utc_time, ov_x = x, ov_y = y, ov_z = z, ov_vx = vx, ov_vy = vy, ov_vz = vz\<rparr>))"

text \<open>
  \<open>std::sort\<close> by time. A time that is not a number has no place in an order; \<open>GetMjd\<close> never returns one.
  (Vectors of equal time may come in any order; here they keep theirs.)
\<close>

definition std_sort :: "orbit_vector list \<Rightarrow> orbit_vector list res" where
  "std_sort vs =
     (if 1 < length vs \<and> (\<exists>v\<in>set vs. utc_mjd v = NaN) then Inl Undefined_behaviour else Inr (sort_key utc_mjd vs))"

definition ReadOSVList :: "lexical_cast \<Rightarrow> 'p date_time \<Rightarrow> replacer \<Rightarrow> xml_node \<Rightarrow> orbit_vector list res" where
  "ReadOSVList lc dt rep node =
     bind_res (stoi (xml_attribute ''count'' node)) (\<lambda>_.
     bind_res (map_res (ReadOneOSV lc dt rep) (filter (\<lambda>c. xml_name c = ''OSV'') (xml_children node))) std_sort)"

text \<open>
  The nodes of the file: header parts and the list of vectors, searched until all three are found.
  The parsed orbit vectors of each file are kept in a cache.
\<close>

type_synonym file_nodes = "xml_node option \<times> xml_node option \<times> xml_node option"

definition scan_file_child :: "xml_node \<Rightarrow> file_nodes \<Rightarrow> file_nodes" where
  "scan_file_child child = (\<lambda>(fixed, variable, osvs).
     if fixed \<noteq> None \<and> variable \<noteq> None \<and> osvs \<noteq> None then (fixed, variable, osvs)
     else if xml_name child = ''Earth_Explorer_Header'' then
       fold (\<lambda>c (fixed, variable, osvs).
               if xml_name c = ''Fixed_Header'' then (Some c, variable, osvs)
               else if xml_name c = ''Variable_Header'' then (fixed, Some c, osvs)
               else (fixed, variable, osvs)) (xml_children child) (fixed, variable, osvs)
     else if xml_name child = ''Data_Block'' then
       fold (\<lambda>c (fixed, variable, osvs).
               if xml_name c = ''List_of_OSVs'' then (fixed, variable, Some c) else (fixed, variable, osvs))
         (xml_children child) (fixed, variable, osvs)
     else (fixed, variable, osvs))"

record orbit_files =
  load_file :: "string \<Rightarrow> xml_node list"
  unzip :: "string \<Rightarrow> string \<Rightarrow> string"
  path_exists :: "string \<Rightarrow> bool"
  rename_folder :: "string \<Rightarrow> string \<Rightarrow> (string \<rightharpoonup> string list) \<Rightarrow> (string \<rightharpoonup> string list) res"

type_synonym osv_cache = "string \<rightharpoonup> orbit_vector list"

definition ReadOrbitFile ::
  "'p env \<Rightarrow> replacer \<Rightarrow> orbit_files \<Rightarrow> heap \<Rightarrow> osv_cache \<Rightarrow> pod_orbit_file \<Rightarrow> (pod_orbit_file \<times> osv_cache) res" where
  "ReadOrbitFile e rep fs hp cache f =
     (case orbit_file f of
        None \<Rightarrow> Inl Undefined_behaviour
      | Some path \<Rightarrow>
          (case cache path of
             Some osvs \<Rightarrow> Inr (f\<lparr>osv_list := osvs\<rparr>, cache)
           | None \<Rightarrow>
               (let path' = (if path_extension path = ''.zip'' then unzip fs path (''tmp/'' @ path_stem path) else path);
                    f1 = f\<lparr>orbit_file := Some path'\<rparr>;
                    query_result = concat (map (named_below ''Earth_Explorer_File'') (load_file fs path'))
                in case query_result of
                     [node] \<Rightarrow>
                       (case fold scan_file_child (xml_children node) (None, None, None) of
                          (fixed, _, osvs) \<Rightarrow>
                            (let f2 = (case fixed of None \<Rightarrow> f1 | Some n \<Rightarrow> ReadFixedHeader n f1)
                             in bind_res (case osvs of
                                            None \<Rightarrow> Inr f2
                                          | Some n \<Rightarrow>
                                              bind_res (ReadOSVList (casts e) (times e) rep n) (\<lambda>l.
                                                Inr (f2\<lparr>osv_list := l\<rparr>))) (\<lambda>f3.
                                bind_res (CheckOrbitFileValidity e rep hp f3) (\<lambda>_.
                                  Inr (f3, if path' \<in> dom cache then cache
                                           else cache(path' \<mapsto> osv_list f3))))))
                   | _ \<Rightarrow> Inl Runtime_error)))"

definition path_append :: "string \<Rightarrow> string \<Rightarrow> string" where
  "path_append a b = (if a = [] \<or> last a = CHR ''/'' then a @ b else a @ ''/'' @ b)"

section \<open>Finding the file\<close>

text \<open>
  \<open>AlusUtils\<close> holds the path of an orbit file given by the user, empty when none was; the folders are those
  of the file system, with the names of their entries. In the folder of the month, and then in the auxiliary
  data path itself, the first file whose period contains the time is taken.
\<close>

record disk =
  orbit_file_path :: string
  aux_data_path :: string
  folders :: "string \<rightharpoonup> string list"

definition IsOrbitFileAssigned :: "disk \<Rightarrow> bool" where
  "IsOrbitFileAssigned d \<longleftrightarrow> orbit_file_path d \<noteq> []"

definition GetDestFolder ::
  "orbit_files \<Rightarrow> string \<Rightarrow> int \<Rightarrow> int \<Rightarrow> disk \<Rightarrow> (string \<times> disk) res" where
  "GetDestFolder fs mission_prefix year month d =
     (let dest_folder = aux_data_path d @ mission_prefix @ ''/'' @ to_string year @ ''/'' @ PadNum month 2 CHR ''0'';
          old_folder = mission_prefix @ ''/'' @ to_string year @ ''/'' @ to_string month
      in if month < 10 \<and> folders d old_folder \<noteq> None
         then bind_res (rename_folder fs old_folder dest_folder (folders d)) (\<lambda>fo.
                Inr (dest_folder, d\<lparr>folders := fo\<rparr>))
         else Inr (dest_folder, d))"

fun first_within ::
  "lexical_cast \<Rightarrow> 'p date_time \<Rightarrow> replacer \<Rightarrow> fp \<Rightarrow> string list \<Rightarrow> string option res" where
  "first_within lc dt rep t [] = Inr None"
| "first_within lc dt rep t (name # names) =
     bind_res (IsWithinRange lc dt rep name t) (\<lambda>b. if b then Inr (Some name) else first_within lc dt rep t names)"

definition FindOrbitFile ::
  "lexical_cast \<Rightarrow> 'p date_time \<Rightarrow> replacer \<Rightarrow> orbit_files \<Rightarrow> string \<Rightarrow> fp \<Rightarrow> int \<Rightarrow> int \<Rightarrow> disk \<Rightarrow>
   (string option \<times> disk) res" where
  "FindOrbitFile lc dt rep fs mission_prefix state_vector_time year month d =
     (if IsOrbitFileAssigned d then
        bind_res (IsWithinRange lc dt rep (path_filename (orbit_file_path d)) state_vector_time) (\<lambda>b.
          Inr (if b then Some (orbit_file_path d) else None, d))
      else
        bind_res (GetDestFolder fs mission_prefix year month d) (\<lambda>(folder, d).
        bind_res (case folders d folder of
                    None \<Rightarrow> Inr None
                  | Some names \<Rightarrow> first_within lc dt rep state_vector_time names) (\<lambda>found.
        case found of
          Some name \<Rightarrow> Inr (Some (path_append folder name), d)
        | None \<Rightarrow>
            (case folders d (aux_data_path d) of
               None \<Rightarrow> Inl Runtime_error
             | Some names \<Rightarrow>
                 bind_res (first_within lc dt rep state_vector_time names) (\<lambda>found.
                   Inr (map_option (path_append (aux_data_path d)) found, d))))))"

text \<open>\<open>year_month\<close> reads the calendar date of a time point.\<close>

definition RetrieveOrbitFile ::
  "'p env \<Rightarrow> ('p \<Rightarrow> int \<times> int) \<Rightarrow> replacer \<Rightarrow> orbit_files \<Rightarrow> heap \<Rightarrow> osv_cache \<Rightarrow> disk \<Rightarrow> pod_orbit_file \<Rightarrow>
   (pod_orbit_file \<times> osv_cache \<times> disk) res" where
  "RetrieveOrbitFile e year_month rep fs hp cache d f =
     bind_res (GetAttributeUtc e (abs_root f) STATE_VECTOR_TIME hp) (\<lambda>u.
     bind_res (GetMjd (casts e) u) (\<lambda>state_vector_time.
     bind_res (GetAsCalendar (casts e) (times e) u) (\<lambda>calendar.
     bind_res (GetMissionPrefix e hp (abs_root f)) (\<lambda>mission_prefix.
     case year_month calendar of
       (year, month) \<Rightarrow>
         bind_res (FindOrbitFile (casts e) (times e) rep fs mission_prefix state_vector_time year month d) (\<lambda>(found, d).
           case found of
             None \<Rightarrow>
               bind_res (Format (casts e) (times e) u) (\<lambda>_.
               bind_res (GetDestFolder fs mission_prefix year month d) (\<lambda>_. Inl Runtime_error))
           | Some path \<Rightarrow>
               bind_res (guard (path_exists fs path) Runtime_error) (\<lambda>_.
               bind_res (ReadOrbitFile e rep fs hp cache (f\<lparr>orbit_file := Some path\<rparr>)) (\<lambda>(f, cache).
                 Inr (f, cache, d))))))))"

section \<open>The time span never succeeds\<close>

text \<open>
  The vectors of a time span can never be had: because the truth value of the search, 0 or 1, is taken
  for an index and three is subtracted, the first access is at a negative index, so for every list of orbit
  vectors and any two times \<open>GetOrbitData\<close> throws \<open>std::out_of_range\<close>.
\<close>

theorem GetOrbitData_span_throws: "GetOrbitData_span f start_utc end_utc = Inl Out_of_range"
proof -
  define s where "s = insertion_index (search_time (osv_list f) start_utc) (int (length (osv_list f))) False - 3"
  define e where "e = insertion_index (search_time (osv_list f) end_utc) (int (length (osv_list f))) True + 3"
  have "s < 0" "0 \<le> e - s" by (auto simp: s_def e_def insertion_index_def search_time_def)
  then have "[0..e - s + 1 - 1] = 0 # [1..e - s + 1 - 1]" by (simp add: upto_rec1)
  moreover have "GetOrbitData_span f start_utc end_utc = map_res (\<lambda>i. vec_at (osv_list f) (s + i)) [0..e - s + 1 - 1]"
    unfolding GetOrbitData_span_def Let_def s_def e_def by (rule refl)
  ultimately show ?thesis using \<open>s < 0\<close> by simp
qed

section \<open>The vector at a time exists\<close>

lemma map_res_vec_at:
  assumes "\<forall>i\<in>set is. 0 \<le> i \<and> i < int (length xs)"
  shows "map_res (vec_at xs) is = Inr (map (\<lambda>i. xs ! nat i) is)"
  by (rule map_res_total) (use assms in \<open>auto simp: vec_at_ok\<close>)

lemma map_res_vec_at_fails:
  assumes "i \<in> set is" and "\<not> (0 \<le> i \<and> i < int (length xs))"
  shows "map_res (vec_at xs) is = Inl Out_of_range"
  using assms(1)
proof (induction "is")
  case (Cons j "is")
  show ?case
  proof (cases "0 \<le> j \<and> j < int (length xs)")
    case True
    then have "i \<in> set is" using Cons.prems assms(2) by auto
    with Cons.IH True show ?thesis by (simp add: vec_at_ok)
  next
    case False
    then have "vec_at xs j = Inl Out_of_range" by (auto simp: vec_at_def)
    then show ?thesis by simp
  qed
qed simp

text \<open>All indices of a fit of \<open>num\<close> vectors are in the list, except at one position when \<open>num\<close> is odd.\<close>

lemma fit_indices_range:
  assumes "0 < num" and "num \<le> n"
  shows "(\<forall>i\<in>set (fit_indices num n k). 0 \<le> i \<and> i < n) \<longleftrightarrow> \<not> (odd num \<and> k = n - num div 2 - 1)"
proof -
  have half: "num sdiv 2 = num div 2" using assms(1) by (simp add: c_div_nonneg)
  define h where "h = num div 2"
  have h: "num = 2 * h \<and> even num \<or> num = 2 * h + 1 \<and> odd num" unfolding h_def by presburger
  consider (low) "k \<le> h - 1" | (high) "h - 1 < k" "n - h \<le> k" | (mid) "h - 1 < k" "k < n - h" by linarith
  then show ?thesis
  proof cases
    case low
    then show ?thesis using assms h by (auto simp: fit_indices_def half h_def [symmetric])
  next
    case high
    then show ?thesis using assms h by (auto simp: fit_indices_def half h_def [symmetric])
  next
    case mid
    have e: "set (fit_indices num n k) = (\<lambda>i. k - h + 1 + i) ` {0..num - 1}"
      using mid by (simp add: fit_indices_def half h_def [symmetric])
    have "(\<forall>i\<in>set (fit_indices num n k). 0 \<le> i \<and> i < n) \<longleftrightarrow> k - h + num < n"
    proof
      assume "\<forall>i\<in>set (fit_indices num n k). 0 \<le> i \<and> i < n"
      moreover have "k - h + 1 + (num - 1) \<in> set (fit_indices num n k)"
        unfolding e using assms(1) by (intro imageI) simp
      ultimately show "k - h + num < n" by fastforce
    next
      assume "k - h + num < n"
      then show "\<forall>i\<in>set (fit_indices num n k). 0 \<le> i \<and> i < n" unfolding e using mid by auto
    qed
    also have "\<dots> \<longleftrightarrow> \<not> (odd num \<and> k = n - h - 1)" using h mid by auto
    finally show ?thesis by (simp add: h_def)
  qed
qed

text \<open>
  C20. For a list of more vectors than the degree, the orbit vector at a time is computed from accesses inside
  the list and carries that time, with one exception: for an even degree and the position
  \<open>n - 1 - (degree + 1) / 2\<close> the window reaches past the end and \<open>GetOrbitData\<close> throws. The degree the program uses is
  3, which has no such position.
\<close>

theorem GetOrbitData_defined:
  assumes "0 \<le> poly_degree f" and "poly_degree f < int (length (osv_list f))" and "poly_degree f < 2 ^ 31 - 1"
    and "vector_index (osv_list f) t = Inr k"
    and "past_end \<longleftrightarrow> even (poly_degree f) \<and> k = int (length (osv_list f)) - (poly_degree f + 1) div 2 - 1"
  shows "(past_end \<longrightarrow> GetOrbitData om f t = Inl Out_of_range) \<and>
         (\<not> past_end \<longrightarrow> (\<exists>v. GetOrbitData om f t = Inr v \<and> utc_mjd v = t))"
proof -
  let ?n = "int (length (osv_list f))"
  let ?is = "fit_indices (poly_degree f + 1) ?n k"
  have r: "(\<forall>i\<in>set ?is. 0 \<le> i \<and> i < ?n) \<longleftrightarrow> \<not> (even (poly_degree f) \<and> k = ?n - (poly_degree f + 1) div 2 - 1)"
    using fit_indices_range [of "poly_degree f + 1" ?n k] assms(1,2) by simp
  have "0 < ?n" using assms(1,2) by linarith
  then obtain a b where "vec_at (osv_list f) 0 = Inr a" "vec_at (osv_list f) (?n - 1) = Inr b"
    by (simp add: vec_at_ok)
  moreover have "int32_range (poly_degree f + 1)" using assms(1,3) by (simp add: int32_range_def)
  ultimately have g: "GetOrbitData om f t =
      bind_res (map_res (vec_at (osv_list f)) ?is) (\<lambda>picked. Inr (fitted_vector om (poly_degree f) (utc_mjd a) picked t))"
    using assms(1,4) by (simp add: GetOrbitData_def Let_def)
  have u: "utc_mjd (fitted_vector om d t0 picked t) = t" for d t0 picked by (simp add: fitted_vector_def Let_def)
  show ?thesis
  proof (cases "\<forall>i\<in>set ?is. 0 \<le> i \<and> i < ?n")
    case True
    then have "\<exists>v. GetOrbitData om f t = Inr v \<and> utc_mjd v = t" by (simp add: g map_res_vec_at u)
    moreover have "\<not> past_end" using True r assms(5) by blast
    ultimately show ?thesis by blast
  next
    case False
    then have "map_res (vec_at (osv_list f)) ?is = Inl Out_of_range" using map_res_vec_at_fails by blast
    then have "GetOrbitData om f t = Inl Out_of_range" by (simp add: g)
    moreover have past_end using False r assms(5) by blast
    ultimately show ?thesis by blast
  qed
qed

definition sample_orbit :: "int \<Rightarrow> pod_orbit_file" where
  "sample_orbit degree = (SentinelPODOrbitFile degree 0)\<lparr>osv_list :=
     map (\<lambda>i. \<lparr>utc_mjd = Fin (of_nat i), ov_x = Fin 0, ov_y = Fin 0, ov_z = Fin 0,
               ov_vx = Fin 0, ov_vy = Fin 0, ov_vz = Fin 0\<rparr>) [0..<5]\<rparr>"

lemma sample_orbit_index: "vector_index (osv_list (sample_orbit d)) (Fin 3) = Inr 3"
proof -
  have r: "fp_of_rat f64 3 = Fin 3" "fp_of_rat f64 4 = Fin 4" "fp_of_rat f64 (3 / 4) = Fin (3 / 4)"
    using f64_exact [of 3 0] f64_exact [of 4 0] f64_exact_scaled [of 3 "-2"] by (simp_all add: power_int_minus)
  show ?thesis
    by (simp add: sample_orbit_def SentinelPODOrbitFile_def vector_index_def vec_at_def Let_def fsub_def r
        fp_of_int_def fp_to_int32_def rat_trunc_def upt_rec)
qed

theorem GetOrbitData_defined_witness:
  "\<forall>om. (\<exists>v. GetOrbitData om (sample_orbit 3) (Fin 3) = Inr v \<and> utc_mjd v = Fin 3) \<and>
        GetOrbitData om (sample_orbit 2) (Fin 3) = Inl Out_of_range"
proof
  fix om
  have "poly_degree (sample_orbit d) = d" "length (osv_list (sample_orbit d)) = 5" for d
    by (simp_all add: sample_orbit_def SentinelPODOrbitFile_def)
  then show "(\<exists>v. GetOrbitData om (sample_orbit 3) (Fin 3) = Inr v \<and> utc_mjd v = Fin 3) \<and>
        GetOrbitData om (sample_orbit 2) (Fin 3) = Inl Out_of_range"
    using GetOrbitData_defined [OF _ _ _ sample_orbit_index, of 3 False om]
      GetOrbitData_defined [OF _ _ _ sample_orbit_index, of 2 True om] by simp
qed

section \<open>Reading the vectors\<close>

lemma std_sort_Inr: "std_sort vs = Inr ws \<Longrightarrow> mset ws = mset vs \<and> sorted (map utc_mjd ws)"
  by (auto simp: std_sort_def split: if_splits)

lemma Compare_less: "utc_mjd v \<noteq> NaN \<Longrightarrow> utc_mjd w \<noteq> NaN \<Longrightarrow> Compare v w \<longleftrightarrow> utc_mjd v < utc_mjd w"
  by (auto simp: Compare_def flt_less fle_less_eq)

text \<open>The list read from a file is in order, so a binary search in it finds exactly the times it has.\<close>

lemma ReadOSVList_order:
  assumes "ReadOSVList lc dt rep node = Inr vs" and "t \<noteq> NaN" and "\<forall>v\<in>set vs. utc_mjd v \<noteq> NaN"
  shows "search_time vs t = 1 \<longleftrightarrow> t \<in> utc_mjd ` set vs"
proof -
  have "sorted (map utc_mjd vs)" using assms(1) by (auto simp: ReadOSVList_def bind_res_Inr_iff dest: std_sort_Inr)
  then show ?thesis unfolding search_time_def
    by (subst binary_search_iff [where key = utc_mjd]) (use assms(2,3) in \<open>auto simp: Compare_less\<close>)
qed

section \<open>The period in a file name\<close>

lemma Parse_pattern_error: "Parse_pattern lc dt txt pattern = Inl x \<Longrightarrow> is_exception x"
  by (auto simp: Parse_pattern_def guard_def Create_def Utc_fields_eq Let_def bind_res_Inl_iff
      split: if_splits option.splits sum.splits)

lemma Parse_pattern_utc: "Parse_pattern lc dt txt pattern = Inr u \<Longrightarrow> \<exists>d s m. u = utc d s m"
  by (auto simp: Parse_pattern_def bind_res_Inr_iff Create_def Utc_fields_eq Let_def split: option.splits)

lemma GetMjd_utc: "\<exists>x. GetMjd lc (utc d s m) = Inr x"
  by (simp add: GetMjd_def GetDaysFraction_def GetSecondsFraction_def GetMicroSecondsFraction_def Utc_class_def
      UInt_class_def read_at_def vec_at_def)

text \<open>The text between two positions of the name, read as a date.\<close>

definition period_date :: "lexical_cast \<Rightarrow> 'p date_time \<Rightarrow> replacer \<Rightarrow> string \<Rightarrow> nat \<Rightarrow> fp res" where
  "period_date lc dt rep filename offset =
     bind_res (ExtractTimeFromFilename rep filename offset) (\<lambda>val.
     bind_res (Parse_pattern lc dt val DATE_FORMAT) (GetMjd lc))"

lemma ExtractTime_error: "ExtractTimeFromFilename rep filename n = Inl x \<Longrightarrow> is_exception x"
  by (auto simp: ExtractTimeFromFilename_def substr_def split: if_splits)

text \<open>
  A file name is accepted for a time exactly when it has a \<open>V\<close> at position 41, the dates at positions 42
  and 58 can be read and the time is in the half-open interval between them. A name without all of
  this, a short one included, is refused; the test never throws.
\<close>

theorem IsWithinRange_iff:
  "IsWithinRange lc dt rep filename t =
    Inr (41 < length filename \<and> filename ! 41 = CHR ''V'' \<and>
      (\<exists>start stop. period_date lc dt rep filename 42 = Inr start \<and> period_date lc dt rep filename 58 = Inr stop \<and>
         fle start t \<and> flt t stop))"
proof (cases "41 < length filename \<and> filename ! 41 = CHR ''V''")
  case False
  then show ?thesis
    by (auto simp: IsWithinRange_def GetValidityStopFromFilenameUTC_def GetValidityStartFromFilenameUTC_def
        string_at_def vec_at_def)
next
  case True
  then have at: "string_at filename 41 = Inr CHR ''V''" by (simp add: string_at_def vec_at_def)
  have date: "(\<exists>x. d n = Inl x \<and> is_exception x \<and> (\<forall>y. period_date lc dt rep filename n \<noteq> Inr y)) \<or>
      (\<exists>u y. d n = Inr (Some u) \<and> GetMjd lc u = Inr y \<and> period_date lc dt rep filename n = Inr y)"
    if "d = (\<lambda>n. bind_res (ExtractTimeFromFilename rep filename n) (\<lambda>val.
      bind_res (Parse_pattern lc dt val DATE_FORMAT) (\<lambda>u. Inr (Some u))))" for d n
  proof (cases "ExtractTimeFromFilename rep filename n")
    case (Inl x)
    then show ?thesis using ExtractTime_error that by (simp add: period_date_def)
  next
    case (Inr val)
    show ?thesis
    proof (cases "Parse_pattern lc dt val DATE_FORMAT")
      case (Inl x)
      then show ?thesis using Parse_pattern_error Inr that by (simp add: period_date_def)
    next
      case p: (Inr u)
      then obtain d' s m where u: "u = utc d' s m" using Parse_pattern_utc by blast
      then obtain y where "GetMjd lc u = Inr y" using GetMjd_utc by blast
      then show ?thesis using Inr p that by (simp add: period_date_def)
    qed
  qed
  define d where "d = (\<lambda>n. bind_res (ExtractTimeFromFilename rep filename n) (\<lambda>val.
      bind_res (Parse_pattern lc dt val DATE_FORMAT) (\<lambda>u. Inr (Some u))))"
  have w: "IsWithinRange lc dt rep filename t =
     (case bind_res (d 58) (\<lambda>utc_end. bind_res (d 42) (\<lambda>utc_start.
             case (utc_start, utc_end) of
               (Some s, Some e) \<Rightarrow>
                 bind_res (GetMjd lc s) (\<lambda>start.
                   if fge t start then bind_res (GetMjd lc e) (\<lambda>stop. Inr (flt t stop)) else Inr False)
             | _ \<Rightarrow> Inr False)) of
        Inl x \<Rightarrow> if is_exception x then Inr False else Inl x
      | Inr b \<Rightarrow> Inr b)"
    by (simp add: IsWithinRange_def GetValidityStopFromFilenameUTC_def GetValidityStartFromFilenameUTC_def at d_def)
  show ?thesis using date [OF d_def, of 58] date [OF d_def, of 42] True unfolding w by auto
qed

end
