(* ===== verification/AbstractMetadata.thy ===== *)
theory AbstractMetadata
  imports Metadata StringUtils OrbitVectors Tags
begin

text \<open>
  The abstracted metadata (\<^verbatim>\<open>abstract_metadata.cc\<close>): the element with the attributes every SAR product has,
  its default values, the orbit state vectors below it and the elements of the bands.

  Removing a text (\<open>boost::erase_all\<close>) and trimming are parameters; the values of \<open>Product\<close> that are copied into
  the header come as a record. \<open>GetProduct\<close> follows owner pointers and may not return, which is the
  value \<open>None\<close> of the operations that use it.
\<close>

definition NO_METADATA :: int where "NO_METADATA = 99999"

definition NO_METADATA_UTC :: product_data where "NO_METADATA_UTC = UtcData [0, 0, 0]"

record product_values =
  product_type :: string
  start_time :: "product_data option"
  end_time :: "product_data option"
  scene_width :: int
  scene_height :: int

section \<open>Reading values\<close>

definition GetAttributeBoolean :: "'p env \<Rightarrow> ref \<Rightarrow> string \<Rightarrow> heap \<Rightarrow> bool res" where
  "GetAttributeBoolean e element tag h =
     bind_res (GetAttributeInt e element tag h) (\<lambda>val.
       if val = NO_METADATA then Inl Runtime_error else Inr (val \<noteq> 0))"

definition abs_GetAttributeDouble :: "'p env \<Rightarrow> ref \<Rightarrow> string \<Rightarrow> heap \<Rightarrow> fp res" where
  "abs_GetAttributeDouble e element tag h =
     bind_res (GetAttributeDouble e element tag h) (\<lambda>val.
       if feq val (fp_of_int f64 NO_METADATA) then Inl Runtime_error else Inr val)"

definition abs_GetAttributeInt :: "'p env \<Rightarrow> ref \<Rightarrow> string \<Rightarrow> heap \<Rightarrow> int res" where
  "abs_GetAttributeInt e element tag h =
     bind_res (GetAttributeInt e element tag h) (\<lambda>i.
       let val = fp_of_int f64 i
       in if feq val (fp_of_int f64 NO_METADATA) then Inl Runtime_error else fp_to_int32 val)"

text \<open>
  \<open>ParseUtc\<close> tries the text, then, for some ERS products, the text without its dot and with the minus signs
  of the fraction erased; only the exception of the parser is caught.
\<close>

type_synonym eraser = "string \<Rightarrow> string \<Rightarrow> string"

definition ParseUtc :: "lexical_cast \<Rightarrow> 'p date_time \<Rightarrow> eraser \<Rightarrow> string \<Rightarrow> product_data res" where
  "ParseUtc lc dt erase_all time_str =
     (if time_str = [] then Inr NO_METADATA_UTC
      else case Parse lc dt time_str of
             Inr u \<Rightarrow> Inr u
           | Inl Parse_exception \<Rightarrow>
               (case find_last_of CHR ''.'' time_str of
                  None \<Rightarrow> Inr NO_METADATA_UTC
                | Some dot_pos \<Rightarrow>
                    if dot_pos > 0 then
                      (case Parse lc dt (take dot_pos time_str @ erase_all (drop (dot_pos + 1) time_str) ''-'') of
                         Inr u \<Rightarrow> Inr u
                       | Inl Parse_exception \<Rightarrow> Inr NO_METADATA_UTC
                       | Inl x \<Rightarrow> Inl x)
                    else Inr NO_METADATA_UTC)
           | Inl x \<Rightarrow> Inl x)"

text \<open>With a pattern, at most six digits of the fraction are kept and every exception is caught.\<close>

definition ParseUtc_pattern :: "lexical_cast \<Rightarrow> 'p date_time \<Rightarrow> string \<Rightarrow> string \<Rightarrow> product_data res" where
  "ParseUtc_pattern lc dt time_str pattern =
     (case (case find_last_of CHR ''.'' time_str of
              Some dot_pos \<Rightarrow>
                if dot_pos > 0
                then let new_time_str = take (min (dot_pos + 7) (length time_str)) time_str
                     in case Parse_pattern lc dt new_time_str pattern of
                          Inl x \<Rightarrow> if is_exception x then Parse_pattern lc dt new_time_str pattern else Inl x
                        | Inr u \<Rightarrow> Inr u
                else Parse_pattern lc dt time_str pattern
            | None \<Rightarrow> Parse_pattern lc dt time_str pattern) of
        Inl x \<Rightarrow> if is_exception x then Inr NO_METADATA_UTC else Inl x
      | Inr u \<Rightarrow> Inr u)"

definition IsNoData :: "'p env \<Rightarrow> ref \<Rightarrow> string \<Rightarrow> heap \<Rightarrow> bool res" where
  "IsNoData e elem tag h =
     bind_res (GetAttributeString_default e elem tag NO_METADATA_STRING h) (\<lambda>val.
       Inr (trim e val = NO_METADATA_STRING \<or> trim e val = []))"

section \<open>Writing values\<close>

definition stored :: "heap \<times> unit res \<Rightarrow> heap res" where
  "stored r = (case r of (h, Inl x) \<Rightarrow> Inl x | (h, Inr _) \<Rightarrow> Inr h)"

definition AddAbstractedAttribute ::
  "'p env \<Rightarrow> ref \<Rightarrow> string \<Rightarrow> int \<Rightarrow> string \<Rightarrow> string \<Rightarrow> heap \<Rightarrow> (ref \<times> heap) res" where
  "AddAbstractedAttribute e dest tag ty un desc h =
     bind_res (MetadataAttribute e tag ty 1 h) (\<lambda>(attribute, h).
     bind_res (attribute_data h attribute) (\<lambda>(_, d, _).
     bind_res
       (if ty = TYPE_ASCII then stored (store_elems e d (Any_string_view NO_METADATA_STRING) h)
        else if ty = TYPE_INT8 \<or> ty = TYPE_UINT8 then stored (store_elems e d (Any_strings []) h)
        else if ty \<noteq> TYPE_UTC then stored (store_elems e d (Any_strings [to_string NO_METADATA]) h)
        else Inr h) (\<lambda>h.
     bind_res (SetUnit attribute (Some un) h) (\<lambda>h.
     bind_res (SetReadOnly attribute False (h\<lparr>nodes := SetDescription attribute (Some desc) (nodes h)\<rparr>)) (\<lambda>h.
     bind_res (AddAttribute e dest (Some attribute) h) (\<lambda>h. Inr (attribute, h)))))))"

definition put_data :: "ref \<Rightarrow> (product_data \<Rightarrow> product_data res) \<Rightarrow> heap \<Rightarrow> heap res" where
  "put_data k f h =
     bind_res (attribute_data h k) (\<lambda>(_, d, pd).
     bind_res (f pd) (\<lambda>pd'. Inr (h\<lparr>datas := (datas h)[d := pd']\<rparr>)))"

definition put_elems :: "'p env \<Rightarrow> ref \<Rightarrow> any_value \<Rightarrow> heap \<Rightarrow> heap res" where
  "put_elems e k elems h = bind_res (attribute_data h k) (\<lambda>(_, d, _). stored (store_elems e d elems h))"

definition SetAttribute_int :: "'p env \<Rightarrow> ref option \<Rightarrow> string \<Rightarrow> int \<Rightarrow> heap \<Rightarrow> heap res" where
  "SetAttribute_int e dest tag v h =
     (case dest of
        None \<Rightarrow> Inr h
      | Some i \<Rightarrow>
          bind_res (GetAttribute e i tag h) (\<lambda>attrib.
            case attrib of
              None \<Rightarrow> Inr h
            | Some k \<Rightarrow> put_data k (\<lambda>pd. SetElemIntAt (casts e) pd 0 v) h))"

definition SetAttribute_string :: "'p env \<Rightarrow> ref option \<Rightarrow> string \<Rightarrow> string option \<Rightarrow> heap \<Rightarrow> heap res" where
  "SetAttribute_string e dest tag v h =
     (case dest of
        None \<Rightarrow> Inr h
      | Some i \<Rightarrow>
          bind_res (GetAttribute e i tag h) (\<lambda>attrib.
          bind_res
            (case attrib of
               Some k \<Rightarrow> Inr (k, h)
             | None \<Rightarrow>
                 bind_res (MetadataAttribute e tag TYPE_ASCII 1 h) (\<lambda>(k, h).
                 bind_res (AddAttribute e i (Some k) h) (\<lambda>h. Inr (k, h)))) (\<lambda>(k, h).
          case v of
            None \<Rightarrow> put_elems e k (Any_string_view NO_METADATA_STRING) h
          | Some s \<Rightarrow>
              if s = [] then put_elems e k (Any_string_view NO_METADATA_STRING) h
              else put_elems e k (Any_string s) h)))"

definition SetAttribute_double :: "'p env \<Rightarrow> ref option \<Rightarrow> string \<Rightarrow> fp \<Rightarrow> heap \<Rightarrow> heap res" where
  "SetAttribute_double e dest tag v h =
     (case dest of
        None \<Rightarrow> Inr h
      | Some i \<Rightarrow>
          bind_res (GetAttribute e i tag h) (\<lambda>attrib.
            case attrib of
              Some k \<Rightarrow> put_data k (\<lambda>pd. SetElemDoubleAt (casts e) pd 0 v) h
            | None \<Rightarrow>
                bind_res (MetadataAttribute e tag TYPE_FLOAT64 1 h) (\<lambda>(k, h).
                bind_res (AddAttribute e i (Some k) h) (\<lambda>h.
                  put_data k (\<lambda>pd. SetElemDoubleAt (casts e) pd 0 v) h))))"

fun utc_array :: "product_data \<Rightarrow> 32 word list" where
  "utc_array (UtcData a) = a"
| "utc_array _ = []"

definition SetAttribute_utc :: "'p env \<Rightarrow> ref option \<Rightarrow> string \<Rightarrow> product_data option \<Rightarrow> heap \<Rightarrow> heap res" where
  "SetAttribute_utc e dest tag v h =
     (case dest of
        None \<Rightarrow> Inr h
      | Some i \<Rightarrow>
          bind_res (GetAttribute e i tag h) (\<lambda>attrib.
            case (attrib, v) of
              (Some k, Some u) \<Rightarrow> put_elems e k (Any_u32 (utc_array u)) h
            | _ \<Rightarrow> Inr h))"

section \<open>The header\<close>

definition header_mph :: "(string \<times> int \<times> string \<times> string) list" where
  "header_mph =
     [(PRODUCT, TYPE_ASCII, [], ''Product name''),
      (PRODUCT_TYPE, TYPE_ASCII, [], ''Product type''),
      (SPH_DESCRIPTOR, TYPE_ASCII, [], ''Description''),
      (MISSION, TYPE_ASCII, [], ''Satellite mission''),
      (ACQUISITION_MODE, TYPE_ASCII, [], ''Acquisition mode''),
      (ANTENNA_POINTING, TYPE_ASCII, [], ''Right or left facing''),
      (BEAMS, TYPE_ASCII, [], ''Beams used''),
      (SWATH, TYPE_ASCII, [], ''Swath name''),
      (PROC_TIME, TYPE_UTC, ''utc'', ''Processed time''),
      (PROCESSING_SYSTEM_IDENTIFIER, TYPE_ASCII, [], ''Processing system identifier''),
      (CYCLE, TYPE_INT32, [], ''Cycle''),
      (REL_ORBIT, TYPE_INT32, [], ''Track''),
      (ABS_ORBIT, TYPE_INT32, [], ''Orbit''),
      (STATE_VECTOR_TIME, TYPE_UTC, ''utc'', ''Time of orbit state vector''),
      (VECTOR_SOURCE, TYPE_ASCII, [], ''State vector source''),
      (INCIDENCE_NEAR, TYPE_FLOAT64, ''deg'', []),
      (INCIDENCE_FAR, TYPE_FLOAT64, ''deg'', [])]"

definition header_sph :: "(string \<times> int \<times> string \<times> string) list" where
  "header_sph =
     [(SLICE_NUM, TYPE_INT32, [], ''Slice number''),
      (DATA_TAKE_ID, TYPE_INT32, [], ''Data take identifier''),
      (FIRST_LINE_TIME, TYPE_UTC, ''utc'', ''First zero doppler azimuth time''),
      (LAST_LINE_TIME, TYPE_UTC, ''utc'', ''Last zero doppler azimuth time''),
      (FIRST_NEAR_LAT, TYPE_FLOAT64, ''deg'', []),
      (FIRST_NEAR_LONG, TYPE_FLOAT64, ''deg'', []),
      (FIRST_FAR_LAT, TYPE_FLOAT64, ''deg'', []),
      (FIRST_FAR_LONG, TYPE_FLOAT64, ''deg'', []),
      (LAST_NEAR_LAT, TYPE_FLOAT64, ''deg'', []),
      (LAST_NEAR_LONG, TYPE_FLOAT64, ''deg'', []),
      (LAST_FAR_LAT, TYPE_FLOAT64, ''deg'', []),
      (LAST_FAR_LONG, TYPE_FLOAT64, ''deg'', []),
      (PASS, TYPE_ASCII, [], ''ASCENDING or DESCENDING''),
      (SAMPLE_TYPE, TYPE_ASCII, [], ''DETECTED or COMPLEX''),
      (MDS1_TX_RX_POLAR, TYPE_ASCII, [], ''Polarization''),
      (MDS2_TX_RX_POLAR, TYPE_ASCII, [], ''Polarization''),
      (MDS3_TX_RX_POLAR, TYPE_ASCII, [], ''Polarization''),
      (MDS4_TX_RX_POLAR, TYPE_ASCII, [], ''Polarization''),
      (POLSARDATA, TYPE_UINT8, ''flag'', ''Polarimetric Matrix''),
      (ALGORITHM, TYPE_ASCII, [], ''Processing algorithm''),
      (AZIMUTH_LOOKS, TYPE_FLOAT64, [], []),
      (RANGE_LOOKS, TYPE_FLOAT64, [], []),
      (RANGE_SPACING, TYPE_FLOAT64, ''m'', ''Range sample spacing''),
      (AZIMUTH_SPACING, TYPE_FLOAT64, ''m'', ''Azimuth sample spacing''),
      (PULSE_REPETITION_FREQUENCY, TYPE_FLOAT64, ''Hz'', ''PRF''),
      (RADAR_FREQUENCY, TYPE_FLOAT64, ''MHz'', ''Radar frequency''),
      (LINE_TIME_INTERVAL, TYPE_FLOAT64, ''s'', []),
      (TOT_SIZE, TYPE_UINT32, ''MB'', ''Total product size''),
      (NUM_OUTPUT_LINES, TYPE_UINT32, ''lines'', ''Raster height''),
      (NUM_SAMPLES_PER_LINE, TYPE_UINT32, ''samples'', ''Raster width'')]"

definition header_subset :: "(string \<times> int \<times> string \<times> string) list" where
  "header_subset =
     [(SUBSET_OFFSET_X, TYPE_UINT32, ''samples'', ''X coordinate of UL corner of subset in original image''),
      (SUBSET_OFFSET_Y, TYPE_UINT32, ''samples'', ''Y coordinate of UL corner of subset in original image'')]"

definition header_srgr :: "(string \<times> int \<times> string \<times> string) list" where
  "header_srgr =
     [(SRGR_FLAG, TYPE_UINT8, ''flag'', ''SRGR applied''),
      (AVG_SCENE_HEIGHT, TYPE_FLOAT64, ''m'', ''Average scene height ellipsoid'')]"

definition header_projection :: "(string \<times> int \<times> string \<times> string) list" where
  "header_projection =
     [(MAP_PROJECTION, TYPE_ASCII, [], ''Map projection applied''),
      (IS_TERRAIN_CORRECTED, TYPE_UINT8, ''flag'', ''orthorectification applied''),
      (DEM, TYPE_ASCII, [], ''Digital Elevation Model used''),
      (GEO_REF_SYSTEM, TYPE_ASCII, [], ''geographic reference system''),
      (LAT_PIXEL_RES, TYPE_FLOAT64, ''deg'', ''pixel resolution in geocoded image''),
      (LON_PIXEL_RES, TYPE_FLOAT64, ''deg'', ''pixel resolution in geocoded image''),
      (SLANT_RANGE_TO_FIRST_PIXEL, TYPE_FLOAT64, ''m'', ''Slant range to 1st data sample'')]"

definition header_calibration :: "(string \<times> int \<times> string \<times> string) list" where
  "header_calibration =
     [(ANT_ELEV_CORR_FLAG, TYPE_UINT8, ''flag'', ''Antenna elevation applied''),
      (RANGE_SPREAD_COMP_FLAG, TYPE_UINT8, ''flag'', ''range spread compensation applied''),
      (REPLICA_POWER_CORR_FLAG, TYPE_UINT8, ''flag'', ''Replica pulse power correction applied''),
      (ABS_CALIBRATION_FLAG, TYPE_UINT8, ''flag'', ''Product calibrated''),
      (CALIBRATION_FACTOR, TYPE_FLOAT64, ''dB'', ''Calibration constant''),
      (CHIRP_POWER, TYPE_FLOAT64, [], ''Chirp power''),
      (INC_ANGLE_COMP_FLAG, TYPE_UINT8, ''flag'', ''incidence angle compensation applied''),
      (REF_INC_ANGLE, TYPE_FLOAT64, [], ''Reference incidence angle''),
      (REF_SLANT_RANGE, TYPE_FLOAT64, [], ''Reference slant range''),
      (REF_SLANT_RANGE_EXP, TYPE_FLOAT64, [], ''Reference slant range exponent''),
      (RESCALING_FACTOR, TYPE_FLOAT64, [], ''Rescaling factor''),
      (BISTATIC_CORRECTION_APPLIED, TYPE_UINT8, ''flag'', []),
      (RANGE_SAMPLING_RATE, TYPE_FLOAT64, ''MHz'', ''Range Sampling Rate'')]"

definition header_insar :: "(string \<times> int \<times> string \<times> string) list" where
  "header_insar =
     [(RANGE_BANDWIDTH, TYPE_FLOAT64, ''MHz'', ''Bandwidth total in range''),
      (AZIMUTH_BANDWIDTH, TYPE_FLOAT64, ''Hz'', ''Bandwidth total in azimuth''),
      (MULTILOOK_FLAG, TYPE_UINT8, ''flag'', ''Multilook applied''),
      (COREGISTERED_STACK, TYPE_UINT8, ''flag'', ''Coregistration applied''),
      (EXTERNAL_CALIBRATION_FILE, TYPE_ASCII, [], ''External calibration file used''),
      (ORBIT_STATE_VECTOR_FILE, TYPE_ASCII, [], ''Orbit file used'')]"

definition add_all ::
  "'p env \<Rightarrow> ref \<Rightarrow> (string \<times> int \<times> string \<times> string) list \<Rightarrow> heap \<Rightarrow> heap res" where
  "add_all e dest =
     fold_res (\<lambda>(tag, ty, un, desc) h. bind_res (AddAbstractedAttribute e dest tag ty un desc h) (\<lambda>(_, h). Inr h))"

definition add_new_element :: "'p env \<Rightarrow> ref \<Rightarrow> string \<Rightarrow> heap \<Rightarrow> heap res" where
  "add_new_element e dest name h =
     bind_res (MetadataElement e name h) (\<lambda>(k, h). AddElement e dest (Some k) h)"

definition AddAbstractedMetadataHeader :: "'p env \<Rightarrow> ref option \<Rightarrow> heap \<Rightarrow> (ref \<times> heap) res" where
  "AddAbstractedMetadataHeader e parent h =
     bind_res
       (case parent of
          None \<Rightarrow> MetadataElement e ABSTRACT_METADATA_ROOT h
        | Some r \<Rightarrow>
            bind_res (GetElement e r ABSTRACT_METADATA_ROOT h) (\<lambda>found.
              case found of
                Some a \<Rightarrow> Inr (a, h)
              | None \<Rightarrow>
                  bind_res (MetadataElement e ABSTRACT_METADATA_ROOT h) (\<lambda>(a, h).
                  bind_res (AddElementAt e r (Some a) 0 h) (\<lambda>h. Inr (a, h))))) (\<lambda>(a, h).
     bind_res (add_all e a header_mph h) (\<lambda>h.
     bind_res (add_all e a header_sph h) (\<lambda>h.
     bind_res (add_all e a header_subset h) (\<lambda>h.
     bind_res (SetAttribute_int e (Some a) SUBSET_OFFSET_X 0 h) (\<lambda>h.
     bind_res (SetAttribute_int e (Some a) SUBSET_OFFSET_Y 0 h) (\<lambda>h.
     bind_res (add_all e a (butlast header_srgr) h) (\<lambda>h.
     bind_res (case last header_srgr of (tag, ty, un, desc) \<Rightarrow> AddAbstractedAttribute e a tag ty un desc h) (\<lambda>(att, h).
     bind_res (put_data att (\<lambda>pd. SetElemIntAt (casts e) pd 0 0) h) (\<lambda>h.
     bind_res (add_all e a header_projection h) (\<lambda>h.
     bind_res (add_all e a header_calibration h) (\<lambda>h.
     bind_res (add_all e a header_insar h) (\<lambda>h.
     bind_res (add_new_element e a ORBIT_STATE_VECTORS h) (\<lambda>h.
     bind_res (add_new_element e a SRGR_COEFFICIENTS h) (\<lambda>h.
     bind_res (add_new_element e a DOP_COEFFICIENTS h) (\<lambda>h.
     bind_res (AddAbstractedAttribute e a ABSTRACTED_METADATA_VERSION TYPE_ASCII [] ''AbsMetadata version'' h) (\<lambda>(att, h).
     bind_res (put_elems e att (Any_string_view METADATA_VERSION) h) (\<lambda>h. Inr (a, h))))))))))))))))))"

definition DefaultToProduct :: "'p env \<Rightarrow> ref \<Rightarrow> ref \<Rightarrow> product_values \<Rightarrow> heap \<Rightarrow> heap res" where
  "DefaultToProduct e a p pv h =
     bind_res (node_at (nodes h) p) (\<lambda>pn.
     bind_res (SetAttribute_string e (Some a) PRODUCT (Some (node_name pn)) h) (\<lambda>h.
     bind_res (SetAttribute_string e (Some a) PRODUCT_TYPE (Some (product_type pv)) h) (\<lambda>h.
     bind_res (SetAttribute_string e (Some a) SPH_DESCRIPTOR (description pn) h) (\<lambda>h.
     bind_res (SetAttribute_int e (Some a) NUM_OUTPUT_LINES (scene_height pv) h) (\<lambda>h.
     bind_res (SetAttribute_int e (Some a) NUM_SAMPLES_PER_LINE (scene_width pv) h) (\<lambda>h.
     bind_res (SetAttribute_utc e (Some a) FIRST_LINE_TIME (start_time pv) h) (\<lambda>h.
     SetAttribute_utc e (Some a) LAST_LINE_TIME (end_time pv) h)))))))"

text \<open>An older header gets the attributes it lacks, and the product counts as unmodified.\<close>

definition patch_attribute :: "'p env \<Rightarrow> ref \<Rightarrow> ref \<Rightarrow> heap \<Rightarrow> heap res option" where
  "patch_attribute e a k h =
     (case bind_res (node_at (nodes h) k) (\<lambda>n. ContainsAttribute e a (node_name n) h) of
        Inl x \<Rightarrow> Some (Inl x)
      | Inr True \<Rightarrow> Some (Inr h)
      | Inr False \<Rightarrow>
          (case AddAttribute e a (Some k) h of
             Inl x \<Rightarrow> Some (Inl x)
           | Inr h \<Rightarrow>
               (case GetProduct (nodes h) a of
                  None \<Rightarrow> None
                | Some (Inl x) \<Rightarrow> Some (Inl x)
                | Some (Inr (None, _)) \<Rightarrow> Some (Inl Null_dereference)
                | Some (Inr (Some p, ns)) \<Rightarrow> Some (on_nodes (product_SetModified_false p) (h\<lparr>nodes := ns\<rparr>)))))"

fun patch_all :: "'p env \<Rightarrow> ref \<Rightarrow> ref list \<Rightarrow> heap \<Rightarrow> heap res option" where
  "patch_all e a [] h = Some (Inr h)"
| "patch_all e a (k # ks) h =
     (case patch_attribute e a k h of
        None \<Rightarrow> None
      | Some (Inl x) \<Rightarrow> Some (Inl x)
      | Some (Inr h) \<Rightarrow> patch_all e a ks h)"

definition PatchMissingMetadata :: "'p env \<Rightarrow> ref \<Rightarrow> heap \<Rightarrow> heap res option" where
  "PatchMissingMetadata e a h =
     (case GetAttributeString_default e a ABSTRACTED_METADATA_VERSION [] h of
        Inl x \<Rightarrow> Some (Inl x)
      | Inr version \<Rightarrow>
          if version = METADATA_VERSION then Some (Inr h)
          else
            (case bind_res (MetadataElement e ''tmp'' h) (\<lambda>(tmp_elem, h).
                  bind_res (AddAbstractedMetadataHeader e (Some tmp_elem) h) (\<lambda>(complete_metadata, h).
                  bind_res (GetAttributes complete_metadata h) (\<lambda>attribs. Inr (attribs, h)))) of
               Inl x \<Rightarrow> Some (Inl x)
             | Inr (attribs, h) \<Rightarrow> patch_all e a attribs h))"

definition MigrateToCurrentVersion :: "'p env \<Rightarrow> ref \<Rightarrow> heap \<Rightarrow> unit res" where
  "MigrateToCurrentVersion e a h =
     bind_res (GetAttributeString_default e a ABSTRACTED_METADATA_VERSION [] h) (\<lambda>_. Inr ())"

definition SetModified_product :: "bool \<Rightarrow> ref \<Rightarrow> store \<Rightarrow> store res" where
  "SetModified_product b p ns = (if b then SetModified_true ns p else product_SetModified_false p ns)"

definition GetAbstractedMetadata ::
  "'p env \<Rightarrow> product_values \<Rightarrow> ref \<Rightarrow> heap \<Rightarrow> (ref \<times> heap) res option" where
  "GetAbstractedMetadata e pv p h =
     (case bind_res (node_at (nodes h) p) (\<lambda>pn.
           case body pn of
             Product m \<Rightarrow>
               (let r = metadata_root m
                in bind_res (GetElement e r ABSTRACT_METADATA_ROOT h) (\<lambda>found.
                   case found of
                     Some a \<Rightarrow> Inr (a, h)
                   | None \<Rightarrow>
                       bind_res (GetElement e r ''Abstracted Metadata'' h) (\<lambda>found.
                         case found of
                           Some a \<Rightarrow> Inr (a, h)
                         | None \<Rightarrow>
                             bind_res (AddAbstractedMetadataHeader e (Some r) h) (\<lambda>(a, h).
                             bind_res (DefaultToProduct e a p pv h) (\<lambda>h.
                             bind_res (on_nodes (SetModified_product (modified pn) p) h) (\<lambda>h. Inr (a, h)))))))
           | _ \<Rightarrow> Inl Undefined_behaviour) of
        Inl x \<Rightarrow> Some (Inl x)
      | Inr (a, h) \<Rightarrow>
          (case MigrateToCurrentVersion e a h of
             Inl x \<Rightarrow> Some (Inl x)
           | Inr _ \<Rightarrow> map_option (\<lambda>r. bind_res r (\<lambda>h. Inr (a, h))) (PatchMissingMetadata e a h)))"

definition HasAbstractedMetadata :: "'p env \<Rightarrow> ref \<Rightarrow> heap \<Rightarrow> bool res" where
  "HasAbstractedMetadata e p h =
     bind_res (node_at (nodes h) p) (\<lambda>pn.
       case body pn of
         Product m \<Rightarrow>
           bind_res (GetElement e (metadata_root m) ABSTRACT_METADATA_ROOT h) (\<lambda>found. Inr (found \<noteq> None))
       | _ \<Rightarrow> Inl Undefined_behaviour)"

section \<open>Other elements\<close>

definition find_or_add_element :: "'p env \<Rightarrow> ref \<Rightarrow> string \<Rightarrow> heap \<Rightarrow> (ref \<times> heap) res" where
  "find_or_add_element e r name h =
     bind_res (GetElement e r name h) (\<lambda>found.
       case found of
         Some k \<Rightarrow> Inr (k, h)
       | None \<Rightarrow>
           bind_res (MetadataElement e name h) (\<lambda>(k, h).
           bind_res (AddElement e r (Some k) h) (\<lambda>h. Inr (k, h))))"

definition GetSlaveMetadata :: "'p env \<Rightarrow> ref \<Rightarrow> heap \<Rightarrow> (ref \<times> heap) res" where
  "GetSlaveMetadata e target_root h = find_or_add_element e target_root ''Slave_Metadata'' h"

definition AddOriginalProductMetadata :: "'p env \<Rightarrow> ref \<Rightarrow> heap \<Rightarrow> (ref \<times> heap) res" where
  "AddOriginalProductMetadata e r h = find_or_add_element e r ORIGINAL_PRODUCT_METADATA h"

definition GetOriginalProductMetadata :: "'p env \<Rightarrow> ref \<Rightarrow> heap \<Rightarrow> ref res" where
  "GetOriginalProductMetadata e p h =
     bind_res (node_at (nodes h) p) (\<lambda>pn.
       case body pn of
         Product m \<Rightarrow>
           bind_res (GetElement e (metadata_root m) ORIGINAL_PRODUCT_METADATA h) (\<lambda>found.
             Inr (case found of Some k \<Rightarrow> k | None \<Rightarrow> metadata_root m))
       | _ \<Rightarrow> Inl Undefined_behaviour)"

section \<open>Bands\<close>

definition AddBandAbstractedMetadata :: "'p env \<Rightarrow> ref \<Rightarrow> string \<Rightarrow> heap \<Rightarrow> (ref \<times> heap) res" where
  "AddBandAbstractedMetadata e a name h =
     bind_res (find_or_add_element e a name h) (\<lambda>(band_root, h).
     bind_res (add_all e band_root
       [(SWATH, TYPE_ASCII, [], ''Swath name''),
        (POLARIZATION, TYPE_ASCII, [], ''Polarization''),
        (ANNOTATION, TYPE_ASCII, [], ''metadata file''),
        (BAND_NAMES, TYPE_ASCII, [], ''corresponding bands''),
        (FIRST_LINE_TIME, TYPE_UTC, ''utc'', ''First zero doppler azimuth time''),
        (LAST_LINE_TIME, TYPE_UTC, ''utc'', ''Last zero doppler azimuth time''),
        (LINE_TIME_INTERVAL, TYPE_FLOAT64, ''s'', ''Time per line''),
        (NUM_OUTPUT_LINES, TYPE_UINT32, ''lines'', ''Raster height''),
        (NUM_SAMPLES_PER_LINE, TYPE_UINT32, ''samples'', ''Raster width''),
        (SAMPLE_TYPE, TYPE_ASCII, [], ''DETECTED or COMPLEX''),
        (CALIBRATION_FACTOR, TYPE_FLOAT64, [], ''Calibration constant'')] h) (\<lambda>h. Inr (band_root, h)))"

definition AddBandToBandMap :: "'p env \<Rightarrow> ref \<Rightarrow> string \<Rightarrow> heap \<Rightarrow> heap res" where
  "AddBandToBandMap e band_abs_root name h =
     bind_res (GetAttributeString e band_abs_root BAND_NAMES h) (\<lambda>band_names.
       let band_names = (if band_names = NO_METADATA_STRING then [] else band_names);
           band_names = (if band_names \<noteq> [] then band_names @ '' '' else band_names)
       in stored (SetAttributeString e band_abs_root BAND_NAMES (band_names @ name) h))"

definition starts_with :: "string \<Rightarrow> string \<Rightarrow> bool" where
  "starts_with s prefix \<longleftrightarrow> take (length prefix) s = prefix"

definition GetBandAbsMetadataList :: "ref \<Rightarrow> heap \<Rightarrow> ref list res" where
  "GetBandAbsMetadataList a h =
     bind_res (GetElements a h) (\<lambda>children.
     bind_res (map_res (\<lambda>c. bind_res (node_at (nodes h) c) (\<lambda>n. Inr (c, node_name n))) children) (\<lambda>named.
       Inr (map fst (filter (\<lambda>(c, name). starts_with name BAND_PREFIX) named))))"

fun first_band_element :: "'p env \<Rightarrow> string \<Rightarrow> heap \<Rightarrow> ref list \<Rightarrow> ref option res" where
  "first_band_element e band h [] = Inr None"
| "first_band_element e band h (c # cs) =
     bind_res (node_at (nodes h) c) (\<lambda>n.
       if starts_with (node_name n) BAND_PREFIX then
         bind_res (GetAttributeString e c BAND_NAMES h) (\<lambda>names.
           if band \<in> set (the (StringToVectorByDelimiter names '' '')) then Inr (Some c)
           else first_band_element e band h cs)
       else first_band_element e band h cs)"

definition GetBandAbsMetadata :: "'p env \<Rightarrow> ref \<Rightarrow> string \<Rightarrow> heap \<Rightarrow> ref option res" where
  "GetBandAbsMetadata e a band_name h = bind_res (GetElements a h) (first_band_element e band_name h)"

section \<open>Orbit state vectors\<close>

definition GetOrbitStateVectors :: "'p env \<Rightarrow> ref \<Rightarrow> heap \<Rightarrow> orbit_state_vector list res" where
  "GetOrbitStateVectors e a h =
     bind_res (GetElement e a ORBIT_STATE_VECTORS h) (\<lambda>found.
       case found of
         None \<Rightarrow> Inr []
       | Some elem_root \<Rightarrow>
           bind_res (GetNumElements elem_root h) (\<lambda>num_elems.
             map_res (\<lambda>i.
               bind_res (GetElement e elem_root (ORBIT_VECTOR @ to_string (i + 1)) h) (\<lambda>sub.
               case sub of
                 None \<Rightarrow> Inl Null_dereference
               | Some s \<Rightarrow>
                   bind_res (GetAttributeUtc e s ORBIT_VECTOR_TIME h) (\<lambda>t.
                   bind_res (GetAttributeDouble e s ORBIT_VECTOR_X_POS h) (\<lambda>xp.
                   bind_res (GetAttributeDouble e s ORBIT_VECTOR_Y_POS h) (\<lambda>yp.
                   bind_res (GetAttributeDouble e s ORBIT_VECTOR_Z_POS h) (\<lambda>zp.
                   bind_res (GetAttributeDouble e s ORBIT_VECTOR_X_VEL h) (\<lambda>xv.
                   bind_res (GetAttributeDouble e s ORBIT_VECTOR_Y_VEL h) (\<lambda>yv.
                   bind_res (GetAttributeDouble e s ORBIT_VECTOR_Z_VEL h) (\<lambda>zv.
                     OrbitStateVector (casts e) t xp yp zp xv yv zv)))))))))
               [0..num_elems - 1]))"

definition write_orbit_vector :: "'p env \<Rightarrow> ref \<Rightarrow> orbit_state_vector \<Rightarrow> int \<Rightarrow> heap \<Rightarrow> heap res" where
  "write_orbit_vector e elem_root v i h =
     bind_res (MetadataElement e (ORBIT_VECTOR @ to_string i) h) (\<lambda>(s, h).
     bind_res (AddElement e elem_root (Some s) h) (\<lambda>h.
     bind_res (stored (SetAttributeUtc e s ORBIT_VECTOR_TIME (utc_array (osv_time v)) h)) (\<lambda>h.
     bind_res (SetAttributeDouble e s ORBIT_VECTOR_X_POS (x_pos v) h) (\<lambda>h.
     bind_res (SetAttributeDouble e s ORBIT_VECTOR_Y_POS (y_pos v) h) (\<lambda>h.
     bind_res (SetAttributeDouble e s ORBIT_VECTOR_Z_POS (z_pos v) h) (\<lambda>h.
     bind_res (SetAttributeDouble e s ORBIT_VECTOR_X_VEL (x_vel v) h) (\<lambda>h.
     bind_res (SetAttributeDouble e s ORBIT_VECTOR_Y_VEL (y_vel v) h) (\<lambda>h.
     SetAttributeDouble e s ORBIT_VECTOR_Z_VEL (z_vel v) h))))))))"

definition SetOrbitStateVectors :: "'p env \<Rightarrow> ref \<Rightarrow> orbit_state_vector list \<Rightarrow> heap \<Rightarrow> heap res" where
  "SetOrbitStateVectors e a orbit_state_vectors h =
     bind_res (GetElement e a ORBIT_STATE_VECTORS h) (\<lambda>found.
       case found of
         None \<Rightarrow> Inl Null_dereference
       | Some elem_root \<Rightarrow>
           bind_res (GetElements elem_root h) (\<lambda>old_list.
           bind_res (fold_res (\<lambda>old h. bind_res (RemoveElement elem_root (Some old) h) (\<lambda>(_, h). Inr h)) old_list h) (\<lambda>h.
           bind_res (fold_res (\<lambda>v (i, h). bind_res (write_orbit_vector e elem_root v i h) (\<lambda>h. Inr (i + 1, h)))
                       orbit_state_vectors (1, h)) (\<lambda>(_, h). Inr h))))"

end
