(* ===== verification/MetaTree.thy ===== *)
theory MetaTree
  imports Metadata MetadataLaws
begin

text \<open>
  Metadata as a tree: an element with texts as attributes and elements below it. \<open>tree_at h k t\<close> says that the
  element at \<open>k\<close> in the store \<open>h\<close> is such a tree; the operations that read metadata then depend on the tree
  only. \<open>lay\<close> builds a store for a tree, which the concrete instances of later theories use.
\<close>

datatype meta_tree = Tree (tree_name: string) (tree_attributes: "(string \<times> string) list") (tree_elements: "meta_tree list")

definition text_at :: "heap \<Rightarrow> ref \<Rightarrow> string \<times> string \<Rightarrow> bool" where
  "text_at h k = (\<lambda>(name, text).
     k < length (nodes h) \<and> node_name (nodes h ! k) = name \<and>
     (\<exists>dn d. body (nodes h ! k) = Attribute dn \<and> data_type dn = TYPE_ASCII \<and> data_ref dn = Some d \<and>
        d < length (datas h) \<and> datas h ! d = CreateInstance_text text))"

fun tree_at :: "heap \<Rightarrow> ref \<Rightarrow> meta_tree \<Rightarrow> bool" and trees_at :: "heap \<Rightarrow> ref list \<Rightarrow> meta_tree list \<Rightarrow> bool" where
  "tree_at h k (Tree name texts ts) \<longleftrightarrow>
     k < length (nodes h) \<and> node_name (nodes h ! k) = name \<and>
     (\<exists>ks ats. GetElements k h = Inr ks \<and> trees_at h ks ts \<and> GetAttributes k h = Inr ats \<and> list_all2 (text_at h) ats texts)"
| "trees_at h ks [] \<longleftrightarrow> ks = []"
| "trees_at h ks (t # ts) \<longleftrightarrow> (\<exists>k ks'. ks = k # ks' \<and> tree_at h k t \<and> trees_at h ks' ts)"

lemma trees_at_list: "trees_at h ks ts \<longleftrightarrow> list_all2 (tree_at h) ks ts"
  by (induction ts arbitrary: ks) (auto simp: list_all2_Cons2)

lemma tree_at_name: "tree_at h k t \<Longrightarrow> node_name (nodes h ! k) = tree_name t \<and> k < length (nodes h)"
  by (cases t) simp

definition tree_child :: "(string \<Rightarrow> string \<Rightarrow> bool) \<Rightarrow> meta_tree \<Rightarrow> string \<Rightarrow> meta_tree option" where
  "tree_child eq t name = List.find (\<lambda>u. eq (tree_name u) name) (tree_elements t)"

definition tree_text :: "(string \<Rightarrow> string \<Rightarrow> bool) \<Rightarrow> meta_tree \<Rightarrow> string \<Rightarrow> string option" where
  "tree_text eq t name = map_option snd (List.find (\<lambda>a. eq (fst a) name) (tree_attributes t))"

section \<open>Reading a tree\<close>

lemma tree_elements_at:
  "tree_at h k t \<Longrightarrow> \<exists>ks. GetElements k h = Inr ks \<and> list_all2 (tree_at h) ks (tree_elements t)"
  by (cases t) (auto simp: trees_at_list)

lemma find_list_all2:
  assumes "list_all2 R xs ys" and "\<And>x y. R x y \<Longrightarrow> P x = Q y"
  shows "rel_option R (List.find P xs) (List.find Q ys)"
  using assms by (induction rule: list_all2_induct) auto

lemma GetElements_group:
  "GetElements i h = Inr kids \<Longrightarrow>
   (\<exists>ats. element_at h i = Inr (None, ats) \<and> kids = []) \<or>
   (\<exists>g ats r o'. element_at h i = Inr (Some g, ats) \<and> group_at (nodes h) g = Inr (kids, r, o'))"
  by (auto simp: GetElements_def bind_res_Inr_iff split: option.splits)

lemma GetElement_find:
  assumes "GetElements i h = Inr kids" and "name \<noteq> []"
  shows "GetElement e i name h = Inr (List.find (\<lambda>k. ieq e (node_name (nodes h ! k)) name) kids)"
  using GetElements_group [OF assms(1)] assms(2)
  by (auto simp: GetElement_def Get_name_find)

lemma tree_GetElement:
  assumes "tree_at h k t" and "name \<noteq> []"
  shows "\<exists>p. GetElement e k name h = Inr p \<and> rel_option (tree_at h) p (tree_child (ieq e) t name)"
proof -
  obtain ks where ks: "GetElements k h = Inr ks" "list_all2 (tree_at h) ks (tree_elements t)"
    using tree_elements_at [OF assms(1)] by blast
  have "rel_option (tree_at h) (List.find (\<lambda>k. ieq e (node_name (nodes h ! k)) name) ks) (tree_child (ieq e) t name)"
    unfolding tree_child_def by (rule find_list_all2 [OF ks(2)]) (simp add: tree_at_name)
  then show ?thesis using GetElement_find [OF ks(1) assms(2)] by blast
qed

lemma tree_GetElement_Some:
  "tree_at h k t \<Longrightarrow> name \<noteq> [] \<Longrightarrow> tree_child (ieq e) t name = Some u \<Longrightarrow>
   \<exists>k'. GetElement e k name h = Inr (Some k') \<and> tree_at h k' u"
  using tree_GetElement [of h k t name e] by (auto simp: option_rel_Some2)

lemma text_of_data: "ASCII_GetElemString (map char_word text) = text"
proof -
  have "(of_char c :: nat) < 256" for c by simp
  then have "word_char (char_word c) = c" for c
    by (simp add: word_char_def char_word_def code_def unat_of_nat)
  then show ?thesis by (simp add: ASCII_GetElemString_def map_idI)
qed

lemma text_at_data:
  "text_at h j (n, v) \<Longrightarrow> \<exists>d. attribute_data h j = Inr (TYPE_ASCII, d, CreateInstance_text v)"
  by (auto simp: text_at_def attribute_data_def data_node_at_def node_at_def data_at_def)

lemma GetElemString_text [simp]: "GetElemString e (CreateInstance_text v) = Inr v"
  by (simp add: CreateInstance_text_def GetElemString_def text_of_data)

lemma tree_GetAttribute:
  assumes "tree_at h k t" and "name \<noteq> []"
  shows "\<exists>p. GetAttribute e k name h = Inr p \<and>
           rel_option (\<lambda>j v. \<exists>n. text_at h j (n, v)) p (tree_text (ieq e) t name)"
proof -
  obtain ats where ats: "GetAttributes k h = Inr ats" "list_all2 (text_at h) ats (tree_attributes t)"
    using assms(1) by (cases t) auto
  have "rel_option (text_at h) (List.find (\<lambda>j. ieq e (node_name (nodes h ! j)) name) ats)
          (List.find (\<lambda>a. ieq e (fst a) name) (tree_attributes t))"
    by (rule find_list_all2 [OF ats(2)]) (auto simp: text_at_def)
  then show ?thesis unfolding GetAttribute_find [OF assms(2) ats(1)] tree_text_def
    by (auto simp: option.rel_map elim!: option.rel_mono_strong)
qed

lemma tree_GetAttributeString:
  assumes "tree_at h k t" and "name \<noteq> []"
  shows "GetAttributeString e k name h =
           (case tree_text (ieq e) t name of None \<Rightarrow> Inl Invalid_argument | Some v \<Rightarrow> Inr v)"
    and "GetAttributeString_default e k name d h =
           (case tree_text (ieq e) t name of None \<Rightarrow> Inr d | Some v \<Rightarrow> Inr v)"
  using tree_GetAttribute [OF assms, of e]
  by (auto simp: GetAttributeString_def GetAttributeString_default_def read_attribute_def
      elim!: option.rel_cases dest!: text_at_data split: option.splits)

section \<open>Laying out a tree\<close>

definition lay_text :: "string \<times> string \<Rightarrow> heap \<Rightarrow> ref \<times> heap" where
  "lay_text = (\<lambda>(name, text) h.
     let dn = \<lparr>data_type = TYPE_ASCII, num_elems = int (length text), read_only = False, node_unit = None,
               synthetic = None, data_ref = Some (length (datas h))\<rparr>
     in (length (nodes h),
         \<lparr>nodes = nodes h @ [\<lparr>node_name = name, description = None, owner = None, modified = False, cached_product = None, body = Attribute dn\<rparr>],
          datas = datas h @ [CreateInstance_text text]\<rparr>))"

fun lay_texts :: "(string \<times> string) list \<Rightarrow> heap \<Rightarrow> ref list \<times> heap" where
  "lay_texts [] h = ([], h)"
| "lay_texts (a # as) h = (case lay_text a h of (k, h) \<Rightarrow> case lay_texts as h of (ks, h) \<Rightarrow> (k # ks, h))"

definition plain_node :: "string \<Rightarrow> body \<Rightarrow> node" where
  "plain_node name b = \<lparr>node_name = name, description = None, owner = None, modified = False, cached_product = None, body = b\<rparr>"

fun lay :: "meta_tree \<Rightarrow> heap \<Rightarrow> ref \<times> heap" and lay_all :: "meta_tree list \<Rightarrow> heap \<Rightarrow> ref list \<times> heap" where
  "lay (Tree name texts ts) h =
     (case lay_all ts h of (ks, h) \<Rightarrow> case lay_texts texts h of (ats, h) \<Rightarrow>
        (length (nodes h) + 2,
         h\<lparr>nodes := nodes h @ [plain_node ''elements'' (Group ks [] True), plain_node ''attributes'' (Group ats [] True),
             plain_node name (Element (Some (length (nodes h))) (Some (length (nodes h) + 1)))]\<rparr>))"
| "lay_all [] h = ([], h)"
| "lay_all (t # ts) h = (case lay t h of (k, h) \<Rightarrow> case lay_all ts h of (ks, h) \<Rightarrow> (k # ks, h))"

definition extends :: "heap \<Rightarrow> heap \<Rightarrow> bool" where
  "extends h h' \<longleftrightarrow> (\<exists>ns ds. nodes h' = nodes h @ ns \<and> datas h' = datas h @ ds)"

lemma extends_refl [simp]: "extends h h"
  by (simp add: extends_def)

lemma extends_trans: "extends a b \<Longrightarrow> extends b c \<Longrightarrow> extends a c"
  by (auto simp: extends_def)

lemma extends_node_at: "extends h h' \<Longrightarrow> node_at (nodes h) i = Inr n \<Longrightarrow> node_at (nodes h') i = Inr n"
  by (auto simp: extends_def node_at_def nth_append split: if_splits)

lemma extends_element_at:
  assumes "extends h h'" and "element_at h i = Inr p"
  shows "element_at h' i = Inr p"
proof -
  obtain n where "node_at (nodes h) i = Inr n" using assms(2) by (auto simp: element_at_def bind_res_Inr_iff)
  then show ?thesis using assms(2) extends_node_at [OF assms(1)] by (simp add: element_at_def)
qed

lemma extends_group_at:
  assumes "extends h h'" and "group_at (nodes h) g = Inr p"
  shows "group_at (nodes h') g = Inr p"
proof -
  obtain n where "node_at (nodes h) g = Inr n" using assms(2) by (auto simp: group_at_def bind_res_Inr_iff)
  then show ?thesis using assms(2) extends_node_at [OF assms(1)] by (simp add: group_at_def)
qed

lemma extends_elements:
  assumes "extends h h'"
  shows "GetElements i h = Inr ks \<Longrightarrow> GetElements i h' = Inr ks"
    and "GetAttributes i h = Inr ks \<Longrightarrow> GetAttributes i h' = Inr ks"
proof -
  show "GetElements i h' = Inr ks" if "GetElements i h = Inr ks"
    using GetElements_group [OF that] extends_element_at [OF assms] extends_group_at [OF assms]
    by (fastforce simp: GetElements_def)
  show "GetAttributes i h' = Inr ks" if "GetAttributes i h = Inr ks"
    using that extends_element_at [OF assms] extends_group_at [OF assms]
    by (cases rule: GetAttributes_cases) (simp_all add: GetAttributes_def)
qed

lemma extends_text_at: "extends h h' \<Longrightarrow> text_at h k a \<Longrightarrow> text_at h' k a"
  by (cases a) (auto simp: extends_def text_at_def nth_append)

lemma extends_tree_at:
  "tree_at h k t \<Longrightarrow> extends h h' \<Longrightarrow> tree_at h' k t"
  "trees_at h ks ts \<Longrightarrow> extends h h' \<Longrightarrow> trees_at h' ks ts"
proof (induction h k t and h ks ts rule: tree_at_trees_at.induct)
  case (1 h k name texts ts)
  from 1(2) obtain ks ats where "GetElements k h = Inr ks" "trees_at h ks ts" "GetAttributes k h = Inr ats"
      "list_all2 (text_at h) ats texts" "k < length (nodes h)" "node_name (nodes h ! k) = name" by auto
  moreover from this have "list_all2 (text_at h') ats texts"
    by (auto elim!: list_all2_mono intro: extends_text_at [OF 1(3)])
  moreover have "k < length (nodes h')" "node_name (nodes h' ! k) = name"
    using 1(3) calculation by (auto simp: extends_def nth_append)
  ultimately show ?case using extends_elements [OF 1(3)] 1(1) [OF _ 1(3)] by auto
qed auto

lemma lay_texts_at:
  "lay_texts as h = (ks, h') \<Longrightarrow> extends h h' \<and> list_all2 (text_at h') ks as"
proof (induction as arbitrary: h ks h')
  case (Cons a as)
  obtain k h1 ks1 where 1: "lay_text a h = (k, h1)" "lay_texts as h1 = (ks1, h')" "ks = k # ks1"
    using Cons.prems by (auto split: prod.splits)
  have "extends h h1" "text_at h1 k a" using 1(1)
    by (auto simp: lay_text_def extends_def text_at_def Let_def split: prod.splits)
  then show ?case using Cons.IH [OF 1(2)] 1(3) by (auto intro: extends_trans extends_text_at)
qed simp

lemma lay_at:
  "lay t h = (k, h') \<Longrightarrow> extends h h' \<and> tree_at h' k t"
  "lay_all ts h = (ks, h') \<Longrightarrow> extends h h' \<and> trees_at h' ks ts"
proof (induction t h and ts h arbitrary: k h' and ks h' rule: lay_lay_all.induct)
  case (1 name texts ts h)
  obtain ks h1 ats h2 where l: "lay_all ts h = (ks, h1)" "lay_texts texts h1 = (ats, h2)"
    by (meson surj_pair)
  note h' = 1(2) [unfolded lay.simps l prod.case]
  have e: "extends h h1" "extends h1 h2" "extends h2 h'" using 1(1) [OF l(1)] lay_texts_at [OF l(2)] h'
    by (auto simp: extends_def)
  have "trees_at h' ks ts" using 1(1) [OF l(1)] e by (blast intro: extends_tree_at extends_trans)
  moreover have "list_all2 (text_at h') ats texts"
    using lay_texts_at [OF l(2)] e(3) by (auto elim!: list_all2_mono intro: extends_text_at)
  moreover have "GetElements k h' = Inr ks" "GetAttributes k h' = Inr ats" "k < length (nodes h')" "node_name (nodes h' ! k) = name"
    using h' by (auto simp: GetElements_def GetAttributes_def element_at_def group_at_def node_at_def plain_node_def nth_append)
  ultimately show ?case using e by (auto intro: extends_trans)
next
  case (3 t ts h)
  obtain k' h1 ks' where l: "lay t h = (k', h1)" "lay_all ts h1 = (ks', h')" "ks = k' # ks'"
    using 3(3) by (auto split: prod.splits)
  then show ?case using 3(1) [OF l(1)] 3(2) [OF l(1) [symmetric] l(2)]
    by (auto intro: extends_trans extends_tree_at)
qed auto

lemma lay_tree: "tree_at (snd (lay t h)) (fst (lay t h)) t"
  using lay_at(1) [of t h "fst (lay t h)" "snd (lay t h)"] by simp

end
