(* ===== verification/SubSwath.thy ===== *)
theory SubSwath
  imports AbstractMetadata MetaTree
begin

text \<open>
  What is known about a sub-swath of a Sentinel-1 product: the record of \<^verbatim>\<open>subswath_info.h\<close> and how
  \<open>Sentinel1Utils::FillSubswathMetaData\<close> (\<^verbatim>\<open>sentinel1_utils.cc\<close>) reads it from the product's metadata: the image
  geometry, the times and the valid lines and samples of every burst, the grid of geolocation points with
  the missing lines extrapolated, and the antenna pattern.

  A pointer that may be null is an option, and using it when it is null is the value \<open>Null_dereference\<close>.
  The grids are arrays of pointers into one block; a cell that was never written has no value.
\<close>

section \<open>Two-dimensional arrays\<close>

record 'a array2 =
  a2_rows :: int
  a2_cols :: int
  a2_cells :: "'a option list"

definition Allocate2DArray :: "int \<Rightarrow> int \<Rightarrow> 'a array2 res" where
  "Allocate2DArray x y =
     bind_res (int_result (x * y)) (\<lambda>cells.
     bind_res (guard (0 \<le> x) Bad_alloc) (\<lambda>_.
     bind_res (guard (0 \<le> cells) Bad_alloc) (\<lambda>_.
       Inr \<lparr>a2_rows = x, a2_cols = y, a2_cells = replicate (nat cells) None\<rparr>)))"

text \<open>
  Cell \<open>a[i][j]\<close>: the pointer of row \<open>i\<close> has to be set, and the cell may lie in another row as long as it is
  inside the block.
\<close>

definition cell_index :: "'a array2 \<Rightarrow> int \<Rightarrow> int \<Rightarrow> nat res" where
  "cell_index a i j =
     (if 0 \<le> i \<and> i < a2_rows a \<and> 0 \<le> i * a2_cols a + j \<and> i * a2_cols a + j < a2_rows a * a2_cols a
      then Inr (nat (i * a2_cols a + j)) else Inl Undefined_behaviour)"

definition cell_at :: "'a array2 option \<Rightarrow> int \<Rightarrow> int \<Rightarrow> 'a res" where
  "cell_at p i j =
     (case p of
        None \<Rightarrow> Inl Null_dereference
      | Some a \<Rightarrow>
          bind_res (cell_index a i j) (\<lambda>k.
            case a2_cells a ! k of None \<Rightarrow> Inl Undefined_behaviour | Some v \<Rightarrow> Inr v))"

definition cell_put :: "'a array2 option \<Rightarrow> int \<Rightarrow> int \<Rightarrow> 'a \<Rightarrow> 'a array2 option res" where
  "cell_put p i j v =
     (case p of
        None \<Rightarrow> Inl Null_dereference
      | Some a \<Rightarrow>
          bind_res (cell_index a i j) (\<lambda>k. Inr (Some (a\<lparr>a2_cells := (a2_cells a)[k := Some v]\<rparr>))))"

section \<open>The record\<close>

record sub_swath_info =
  first_valid_pixel :: int
  last_valid_pixel :: int
  first_line_time :: fp
  last_line_time :: fp
  first_valid_line_time :: fp
  last_valid_line_time :: fp
  slr_time_to_first_pixel :: fp
  slr_time_to_last_pixel :: fp
  slr_time_to_first_valid_pixel :: fp
  slr_time_to_last_valid_pixel :: fp
  range_pixel_spacing :: fp
  range_sampling_rate :: fp
  azimuth_pixel_spacing :: fp
  azimuth_time_interval :: fp
  radar_frequency :: fp
  azimuth_steering_rate :: fp
  ascending_node_time :: fp
  subswath_name :: string
  lines_per_burst :: int
  num_of_bursts :: int
  samples_per_burst :: int
  num_of_samples :: int
  num_of_lines :: int
  burst_first_line_time :: "fp list"
  burst_last_line_time :: "fp list"
  first_valid_sample :: "int list list"
  last_valid_sample :: "int list list"
  burst_first_valid_line_time :: "fp list"
  burst_last_valid_line_time :: "fp list"
  first_valid_line :: "int list"
  last_valid_line :: "int list"
  doppler_rate :: "fp array2 option"
  doppler_centroid :: "fp array2 option"
  reference_time :: "fp array2 option"
  range_depend_doppler_rate :: "fp array2 option"
  ap_slant_range_time :: "fp list list"
  ap_elevation_angle :: "fp list list"
  num_of_geo_lines :: int
  num_of_geo_points_per_line :: int
  azimuth_time :: "fp array2 option"
  slant_range_time :: "fp array2 option"
  latitude :: "fp array2 option"
  longitude :: "fp array2 option"
  incidence_angle :: "fp array2 option"

definition SubSwathInfo :: sub_swath_info where
  "SubSwathInfo =
     \<lparr>first_valid_pixel = 0, last_valid_pixel = 0, first_line_time = Fin 0, last_line_time = Fin 0,
      first_valid_line_time = Fin 0, last_valid_line_time = Fin 0, slr_time_to_first_pixel = Fin 0,
      slr_time_to_last_pixel = Fin 0, slr_time_to_first_valid_pixel = Fin 0, slr_time_to_last_valid_pixel = Fin 0,
      range_pixel_spacing = Fin 0, range_sampling_rate = Fin 0, azimuth_pixel_spacing = Fin 0, azimuth_time_interval = Fin 0,
      radar_frequency = Fin 0, azimuth_steering_rate = Fin 0,
      ascending_node_time = Fin 0, subswath_name = [],
      lines_per_burst = 0, num_of_bursts = 0, samples_per_burst = 0, num_of_samples = 0, num_of_lines = 0,
      burst_first_line_time = [], burst_last_line_time = [], first_valid_sample = [], last_valid_sample = [],
      burst_first_valid_line_time = [], burst_last_valid_line_time = [], first_valid_line = [], last_valid_line = [],
      doppler_rate = None, doppler_centroid = None, reference_time = None, range_depend_doppler_rate = None,
      ap_slant_range_time = [], ap_elevation_angle = [], num_of_geo_lines = 0, num_of_geo_points_per_line = 0,
      azimuth_time = None, slant_range_time = None, latitude = None, longitude = None, incidence_angle = None\<rparr>"

definition CalcAvgIncidenceAngle :: "sub_swath_info \<Rightarrow> fp res" where
  "CalcAvgIncidenceAngle s =
     cell_at (incidence_angle s) (c_div (num_of_geo_lines s) 2) (c_div (num_of_geo_points_per_line s) 2)"

definition IsNearRangeOnLeft :: "sub_swath_info \<Rightarrow> bool res" where
  "IsNearRangeOnLeft s =
     bind_res (cell_at (incidence_angle s) 0 0) (\<lambda>angle_first_pixel.
     bind_res (cell_at (incidence_angle s) 0 (num_of_geo_points_per_line s - 1)) (\<lambda>angle_last_pixel.
       Inr (flt angle_first_pixel angle_last_pixel)))"

section \<open>Reading metadata\<close>

definition SECONDS_IN_DAY :: fp where "SECONDS_IN_DAY = Fin 86400"

definition LIGHT_SPEED :: fp where "LIGHT_SPEED = Fin 299792458"

text \<open>\<open>p->GetElement(name)\<close>, which may give a null pointer, and \<open>p->GetAttributeString(name)\<close>.\<close>

definition deref :: "'a option \<Rightarrow> 'a res" where
  "deref p = (case p of None \<Rightarrow> Inl Null_dereference | Some x \<Rightarrow> Inr x)"

definition child :: "'p env \<Rightarrow> heap \<Rightarrow> ref option \<Rightarrow> string \<Rightarrow> ref option res" where
  "child e h p name = bind_res (deref p) (\<lambda>k. GetElement e k name h)"

definition attr_string :: "'p env \<Rightarrow> heap \<Rightarrow> ref option \<Rightarrow> string \<Rightarrow> string res" where
  "attr_string e h p name = bind_res (deref p) (\<lambda>k. GetAttributeString e k name h)"

definition attr_stoi :: "'p env \<Rightarrow> heap \<Rightarrow> ref option \<Rightarrow> string \<Rightarrow> int res" where
  "attr_stoi e h p name = bind_res (attr_string e h p name) stoi"

definition attr_stod :: "'p env \<Rightarrow> heap \<Rightarrow> ref option \<Rightarrow> string \<Rightarrow> fp res" where
  "attr_stod e h p name = bind_res (attr_string e h p name) stod"

definition child_list :: "heap \<Rightarrow> ref option \<Rightarrow> ref list res" where
  "child_list h p = bind_res (deref p) (\<lambda>k. GetElements k h)"

definition GetTime :: "'p env \<Rightarrow> heap \<Rightarrow> ref option \<Rightarrow> string \<Rightarrow> product_data res" where
  "GetTime e h element tag =
     bind_res (deref element) (\<lambda>k.
     bind_res (GetAttributeString_default e k tag NO_METADATA_STRING h) (\<lambda>start.
       Parse_pattern (casts e) (times e) start ''%Y-%m-%dT%H:%M:%S''))"

definition seconds_of :: "'p env \<Rightarrow> heap \<Rightarrow> ref option \<Rightarrow> string \<Rightarrow> fp res" where
  "seconds_of e h element tag =
     bind_res (GetTime e h element tag) (\<lambda>u.
     bind_res (GetMjd (casts e) u) (\<lambda>mjd. Inr (fmul f64 mjd SECONDS_IN_DAY)))"

text \<open>
  The numbers of a text between single delimiters; other data than text gives an empty vector. An empty
  delimiter is found at the start of every text, whose empty token the conversions refuse.
\<close>

function delimited :: "(string \<Rightarrow> 'a res) \<Rightarrow> string \<Rightarrow> string \<Rightarrow> 'a list res" where
  "delimited conv delimiter data_str =
     (if delimiter = [] then bind_res (conv []) (\<lambda>_. Inl Undefined_behaviour)
      else case find_sub delimiter data_str of
        None \<Rightarrow> bind_res (conv data_str) (\<lambda>v. Inr [v])
      | Some pos \<Rightarrow>
          bind_res (conv (take pos data_str)) (\<lambda>v.
          bind_res (delimited conv delimiter (drop (pos + length delimiter) data_str)) (\<lambda>vs. Inr (v # vs))))"
  by pat_completeness auto

termination delimited
proof (relation "measure (\<lambda>(conv, delimiter, data_str). length data_str)", goal_cases)
  case (2 conv delimiter data_str pos v)
  then have "find_sub delimiter data_str = Some pos" "delimiter \<noteq> []" by (auto split: if_splits)
  then show ?case using find_sub_Some [of delimiter data_str pos] by (cases delimiter) auto
qed simp

declare delimited.simps [simp del]

definition attribute_numbers :: "(string \<Rightarrow> 'a res) \<Rightarrow> 'p env \<Rightarrow> heap \<Rightarrow> ref option \<Rightarrow> string \<Rightarrow> 'a list res" where
  "attribute_numbers conv e h attribute delimiter =
     bind_res (deref attribute) (\<lambda>k.
     bind_res (data_node_at h k) (\<lambda>dn.
       if data_type dn = TYPE_ASCII then
         bind_res (attribute_data h k) (\<lambda>(_, _, pd).
         bind_res (GetElemString e pd) (delimited conv delimiter))
       else Inr []))"

definition GetIntVector :: "'p env \<Rightarrow> heap \<Rightarrow> ref option \<Rightarrow> string \<Rightarrow> int list res" where
  "GetIntVector = attribute_numbers stoi"

definition GetDoubleVector :: "'p env \<Rightarrow> heap \<Rightarrow> ref option \<Rightarrow> string \<Rightarrow> fp list res" where
  "GetDoubleVector = attribute_numbers stod"

definition attr_pointer :: "'p env \<Rightarrow> heap \<Rightarrow> ref option \<Rightarrow> string \<Rightarrow> ref option res" where
  "attr_pointer e h p name = bind_res (deref p) (\<lambda>k. GetAttribute e k name h)"

section \<open>Bursts\<close>

text \<open>
  The lines of a burst with a valid sample: the largest first sample so far, the first such line and the
  counter that starts there and is raised by every later one.
\<close>

fun valid_lines :: "int \<Rightarrow> int list \<Rightarrow> int \<times> int \<times> int \<Rightarrow> int \<times> int \<times> int" where
  "valid_lines line_idx [] st = st"
| "valid_lines line_idx (sample # samples) (first_pixel, first_idx, last_idx) =
     valid_lines (line_idx + 1) samples
       (if sample \<noteq> -1 then
          let fp' = (if sample > first_pixel then sample else first_pixel)
          in if first_idx = -1 then (fp', line_idx, line_idx) else (fp', first_idx, last_idx + 1)
        else (first_pixel, first_idx, last_idx))"

definition smallest_last :: "int list \<Rightarrow> int \<Rightarrow> int" where
  "smallest_last samples last_pixel =
     fold (\<lambda>sample m. if sample \<noteq> -1 \<and> sample < m then sample else m) samples last_pixel"

definition read_burst ::
  "'p env \<Rightarrow> heap \<Rightarrow> ref \<Rightarrow> sub_swath_info \<times> int \<times> int \<times> int \<Rightarrow> (sub_swath_info \<times> int \<times> int \<times> int) res" where
  "read_burst e h list_elem = (\<lambda>(s, k, first_pixel, last_pixel).
     bind_res (seconds_of e h (Some list_elem) AZIMUTH_TIME) (\<lambda>t.
     let s = s\<lparr>burst_first_line_time := burst_first_line_time s @ [t]\<rparr>
     in bind_res (vec_at (burst_first_line_time s) k) (\<lambda>first_time.
     bind_res (int_result (lines_per_burst s - 1)) (\<lambda>more_lines.
     let s = s\<lparr>burst_last_line_time := burst_last_line_time s @
                  [fadd f64 first_time (fmul f64 (fp_of_int f64 more_lines) (azimuth_time_interval s))]\<rparr>
     in bind_res (child e h (Some list_elem) FIRST_VALID_SAMPLE) (\<lambda>first_elem.
     bind_res (child e h (Some list_elem) LAST_VALID_SAMPLE) (\<lambda>last_elem.
     bind_res (attr_pointer e h first_elem FIRST_VALID_SAMPLE) (\<lambda>att.
     bind_res (GetIntVector e h att '' '') (\<lambda>firsts.
     bind_res (attr_pointer e h last_elem LAST_VALID_SAMPLE) (\<lambda>att.
     bind_res (GetIntVector e h att '' '') (\<lambda>lasts.
     let s = s\<lparr>first_valid_sample := first_valid_sample s @ [firsts], last_valid_sample := last_valid_sample s @ [lasts]\<rparr>
     in bind_res (vec_at (first_valid_sample s) k) (\<lambda>first_samples.
     let (first_pixel, first_idx, last_idx) = valid_lines 0 first_samples (first_pixel, -1, -1)
     in bind_res (vec_at (last_valid_sample s) k) (\<lambda>last_samples.
     let last_pixel = smallest_last last_samples last_pixel;
         line_time = (\<lambda>idx. fadd f64 first_time (fmul f64 (fp_of_int f64 idx) (azimuth_time_interval s)));
         s = s\<lparr>burst_first_valid_line_time := burst_first_valid_line_time s @ [line_time first_idx],
               burst_last_valid_line_time := burst_last_valid_line_time s @ [line_time last_idx],
               first_valid_line := first_valid_line s @ [first_idx],
               last_valid_line := last_valid_line s @ [last_idx]\<rparr>
     in Inr (s, k + 1, first_pixel, last_pixel)))))))))))))"

definition read_bursts :: "'p env \<Rightarrow> heap \<Rightarrow> ref option \<Rightarrow> sub_swath_info \<Rightarrow> sub_swath_info res" where
  "read_bursts e h burst_list s =
     (if num_of_bursts s > 0 then
        bind_res (child_list h burst_list) (\<lambda>elems.
        bind_res (fold_res (read_burst e h) elems (s, 0, 0, num_of_samples s)) (\<lambda>(s, _, first_pixel, last_pixel).
        bind_res (vec_at (burst_first_valid_line_time s) 0) (\<lambda>first_time.
        bind_res (vec_at (burst_last_valid_line_time s) (num_of_bursts s - 1)) (\<lambda>last_time.
          Inr (s\<lparr>first_valid_pixel := first_pixel, last_valid_pixel := last_pixel,
                 first_valid_line_time := first_time, last_valid_line_time := last_time\<rparr>)))))
      else Inr s)"

section \<open>The grid of geolocation points\<close>

text \<open>The points at the start of the list that have the line of the first one.\<close>

fun points_on_line :: "'p env \<Rightarrow> heap \<Rightarrow> ref list \<Rightarrow> int \<Rightarrow> int \<Rightarrow> int res" where
  "points_on_line e h [] n line = Inr n"
| "points_on_line e h (k # ks) n line =
     bind_res (attr_stoi e h (Some k) LINE) (\<lambda>l.
       if n = 0 then points_on_line e h ks (n + 1) l
       else if line = l then points_on_line e h ks (n + 1) line
       else Inr n)"

definition read_point ::
  "'p env \<Rightarrow> heap \<Rightarrow> int \<Rightarrow> ref \<Rightarrow> sub_swath_info \<times> int \<Rightarrow> (sub_swath_info \<times> int) res" where
  "read_point e h points_per_line list_elem = (\<lambda>(s, k).
     let i = c_div k points_per_line; j = k - i * points_per_line; p = Some list_elem
     in bind_res (seconds_of e h p AZIMUTH_TIME) (\<lambda>t.
        bind_res (cell_put (azimuth_time s) i j t) (\<lambda>az.
        bind_res (attr_stod e h p ''slantRangeTime'') (\<lambda>sr.
        bind_res (cell_put (slant_range_time s) i j (fdiv f64 sr (Fin 2))) (\<lambda>sl.
        bind_res (attr_stod e h p LATITUDE) (\<lambda>v. bind_res (cell_put (latitude s) i j v) (\<lambda>la.
        bind_res (attr_stod e h p LONGITUDE) (\<lambda>v. bind_res (cell_put (longitude s) i j v) (\<lambda>lo.
        bind_res (attr_stod e h p INCIDENCE_ANGLE) (\<lambda>v. bind_res (cell_put (incidence_angle s) i j v) (\<lambda>inc.
          Inr (s\<lparr>azimuth_time := az, slant_range_time := sl, latitude := la, longitude := lo,
                 incidence_angle := inc\<rparr>, k + 1))))))))))))"

definition extrapolated :: "fp array2 option \<Rightarrow> int \<Rightarrow> int \<Rightarrow> int \<Rightarrow> fp array2 option res" where
  "extrapolated a first_missing line_idx pixel_idx =
     (let mu = fadd f64 (fp_of_int f64 (line_idx - first_missing)) (Fin 2)
      in bind_res (cell_at a (first_missing - 1) pixel_idx) (\<lambda>v1.
         bind_res (cell_at a (first_missing - 2) pixel_idx) (\<lambda>v2.
           cell_put a line_idx pixel_idx
             (fadd f64 (fmul f64 mu v1) (fmul f64 (fsub f64 (Fin 1) mu) v2)))))"

definition extrapolate_point :: "int \<Rightarrow> int \<Rightarrow> int \<Rightarrow> sub_swath_info \<Rightarrow> sub_swath_info res" where
  "extrapolate_point first_missing line_idx pixel_idx s =
     bind_res (extrapolated (azimuth_time s) first_missing line_idx pixel_idx) (\<lambda>az.
     bind_res (extrapolated (slant_range_time s) first_missing line_idx pixel_idx) (\<lambda>sl.
     bind_res (extrapolated (latitude s) first_missing line_idx pixel_idx) (\<lambda>la.
     bind_res (extrapolated (longitude s) first_missing line_idx pixel_idx) (\<lambda>lo.
     bind_res (extrapolated (incidence_angle s) first_missing line_idx pixel_idx) (\<lambda>inc.
       Inr (s\<lparr>azimuth_time := az, slant_range_time := sl, latitude := la, longitude := lo,
              incidence_angle := inc\<rparr>))))))"

definition extrapolate_lines :: "int \<Rightarrow> sub_swath_info \<Rightarrow> sub_swath_info res" where
  "extrapolate_lines first_missing s =
     fold_res (\<lambda>line_idx. fold_res (extrapolate_point first_missing line_idx)
                            [0..num_of_geo_points_per_line s - 1])
       [first_missing..num_of_geo_lines s - 1] s"

definition read_grid :: "'p env \<Rightarrow> heap \<Rightarrow> ref option \<Rightarrow> sub_swath_info \<Rightarrow> sub_swath_info res" where
  "read_grid e h point_list s =
     bind_res (attr_stoi e h point_list COUNT) (\<lambda>points.
     bind_res (child_list h point_list) (\<lambda>elems.
     bind_res (points_on_line e h elems 0 0) (\<lambda>per_line.
     if per_line = 0 then Inl Runtime_error
     else
       let found_lines = c_div points per_line;
           missing = found_lines \<le> num_of_bursts s
       in bind_res (if missing then int_result (num_of_bursts s + 1) else Inr found_lines) (\<lambda>n.
          bind_res (Allocate2DArray n per_line) (\<lambda>grid.
          let s = s\<lparr>num_of_geo_lines := n, num_of_geo_points_per_line := per_line, azimuth_time := Some grid,
                    slant_range_time := Some grid, latitude := Some grid, longitude := Some grid,
                    incidence_angle := Some grid\<rparr>
          in bind_res (fold_res (read_point e h per_line) elems (s, 0)) (\<lambda>(s, _).
             if missing \<and> 2 \<le> found_lines then extrapolate_lines found_lines s else Inr s))))))"

section \<open>The whole sub-swath\<close>

definition read_antenna ::
  "'p env \<Rightarrow> heap \<Rightarrow> ref \<Rightarrow> sub_swath_info \<Rightarrow> sub_swath_info res" where
  "read_antenna e h list_elem s =
     bind_res (child e h (Some list_elem) ''slantRangeTime'') (\<lambda>time_elem.
     bind_res (child e h (Some list_elem) ELEVATION_ANGLE) (\<lambda>angle_elem.
     bind_res (attr_pointer e h time_elem ''slantRangeTime'') (\<lambda>att.
     bind_res (GetDoubleVector e h att '' '') (\<lambda>times.
     bind_res (attr_pointer e h angle_elem ELEVATION_ANGLE) (\<lambda>att.
     bind_res (GetDoubleVector e h att '' '') (\<lambda>angles.
       Inr (s\<lparr>ap_slant_range_time := ap_slant_range_time s @ [times],
              ap_elevation_angle := ap_elevation_angle s @ [angles]\<rparr>)))))))"

text \<open>The time of a pixel: \<open>slr_time_to_first_pixel + pixel * range_pixel_spacing / LIGHT_SPEED\<close>.\<close>

definition pixel_time :: "sub_swath_info \<Rightarrow> int \<Rightarrow> fp" where
  "pixel_time s x =
     fadd f64 (slr_time_to_first_pixel s)
       (fdiv f64 (fmul f64 (fp_of_int f64 x) (range_pixel_spacing s)) LIGHT_SPEED)"

definition read_image_information ::
  "'p env \<Rightarrow> heap \<Rightarrow> ref option \<Rightarrow> ref option \<Rightarrow> ref option \<Rightarrow> ref option \<Rightarrow> sub_swath_info \<Rightarrow> sub_swath_info res" where
  "read_image_information e h image_information swath_timing burst_list product_information s =
     bind_res (attr_stod e h image_information AZIMUTH_TIME_INTERVAL) (\<lambda>interval.
     bind_res (attr_stoi e h image_information NUMBER_OF_SAMPLES) (\<lambda>samples.
     bind_res (attr_stoi e h image_information NUMBER_OF_LINES) (\<lambda>lines.
     bind_res (attr_stoi e h burst_list COUNT) (\<lambda>bursts.
     bind_res (attr_stoi e h swath_timing LINES_PER_BURST) (\<lambda>burst_lines.
     bind_res (attr_stoi e h swath_timing SAMPLES_PER_BURST) (\<lambda>burst_samples.
     bind_res (attr_stod e h image_information RANGE_PIXEL_SPACING) (\<lambda>range_spacing.
     bind_res (attr_stod e h image_information ''azimuthPixelSpacing'') (\<lambda>azimuth_spacing.
     bind_res (attr_stod e h image_information ''slantRangeTime'') (\<lambda>slant_time.
     bind_res (int_result (samples - 1)) (\<lambda>last_sample.
     let s = s\<lparr>azimuth_time_interval := interval, num_of_samples := samples, num_of_lines := lines,
               num_of_bursts := bursts, lines_per_burst := burst_lines, samples_per_burst := burst_samples,
               range_pixel_spacing := range_spacing, azimuth_pixel_spacing := azimuth_spacing,
               slr_time_to_first_pixel := fdiv f64 slant_time (Fin 2)\<rparr>;
         s = s\<lparr>slr_time_to_last_pixel := pixel_time s last_sample\<rparr>
     in bind_res (seconds_of e h image_information PRODUCT_FIRST_LINE_UTC_TIME) (\<lambda>first_time.
        bind_res (seconds_of e h image_information PRODUCT_LAST_LINE_UTC_TIME) (\<lambda>last_time.
        bind_res (attr_stod e h product_information ''radarFrequency'') (\<lambda>frequency.
        bind_res (attr_stod e h product_information AZIMUTH_STEERING_RATE) (\<lambda>steering_rate.
          Inr (s\<lparr>first_line_time := first_time, last_line_time := last_time, radar_frequency := frequency,
                 azimuth_steering_rate := steering_rate, first_valid_pixel := 0,
                 last_valid_pixel := samples\<rparr>)))))))))))))))"

definition FillSubswathMetaData ::
  "'p env \<Rightarrow> heap \<Rightarrow> ref option \<Rightarrow> sub_swath_info \<Rightarrow> sub_swath_info res" where
  "FillSubswathMetaData e h subswath_metadata s =
     bind_res (child e h subswath_metadata ''product'') (\<lambda>product.
     bind_res (child e h product IMAGE_ANNOTATION) (\<lambda>image_annotation.
     bind_res (child e h image_annotation IMAGE_INFORMATION) (\<lambda>image_information.
     bind_res (child e h product SWATH_TIMING) (\<lambda>swath_timing.
     bind_res (child e h swath_timing BURST_LIST) (\<lambda>burst_list.
     bind_res (child e h product GENERAL_ANNOTATION) (\<lambda>general_annotation.
     bind_res (child e h general_annotation PRODUCT_INFORMATION) (\<lambda>product_information.
     bind_res (child e h product ANTENNA_PATTERN) (\<lambda>antenna_pattern.
     bind_res (child e h antenna_pattern ANTENNA_PATTERN_LIST) (\<lambda>antenna_pattern_list.
     bind_res (read_image_information e h image_information swath_timing burst_list product_information s) (\<lambda>s.
     bind_res (read_bursts e h burst_list s) (\<lambda>s.
     let s = s\<lparr>slr_time_to_first_valid_pixel := pixel_time s (first_valid_pixel s),
               slr_time_to_last_valid_pixel := pixel_time s (last_valid_pixel s)\<rparr>
     in bind_res (child e h product GEOLOCATION_GRID) (\<lambda>geolocation_grid.
        bind_res (child e h geolocation_grid GEOLOCATION_GRID_POINT_LIST) (\<lambda>point_list.
        bind_res (read_grid e h point_list s) (\<lambda>s.
        bind_res (attr_stoi e h antenna_pattern_list COUNT) (\<lambda>num_ap_records.
          if num_ap_records > 0 then
            bind_res (child_list h antenna_pattern_list) (\<lambda>elems. fold_res (read_antenna e h) elems s)
          else Inr s)))))))))))))))"

section \<open>Valid lines\<close>

lemma valid_lines_counted:
  "first_idx \<noteq> -1 \<Longrightarrow>
   valid_lines i samples (p, first_idx, last_idx) = (p', f', l') \<Longrightarrow>
   f' = first_idx \<and> l' = last_idx + int (length (filter (\<lambda>v. v \<noteq> -1) samples))"
proof (induction samples arbitrary: i p last_idx)
  case (Cons v vs)
  show ?case
  proof (cases "v = -1")
    case True
    then show ?thesis using Cons.prems(2) Cons.IH [OF Cons.prems(1), of "i + 1" p last_idx] by simp
  next
    case False
    then have "valid_lines (i + 1) vs (if p < v then v else p, first_idx, last_idx + 1) = (p', f', l')"
      using Cons.prems by (simp add: Let_def)
    from Cons.IH [OF Cons.prems(1) this] show ?thesis using False by simp
  qed
qed simp

lemma valid_lines_spec:
  "valid_lines i samples (p, -1, l) = (p', f', l') \<Longrightarrow> 0 \<le> i \<Longrightarrow>
   (if \<forall>v\<in>set samples. v = -1 then f' = -1 \<and> l' = l
    else f' = i + first_index (\<lambda>v. v \<noteq> -1) samples \<and>
         l' = f' + int (length (filter (\<lambda>v. v \<noteq> -1) samples)) - 1)"
proof (induction samples arbitrary: i p)
  case (Cons v vs)
  show ?case
  proof (cases "v = -1")
    case True
    have "\<not> first_index (\<lambda>v. v \<noteq> -1) vs < 0" if "\<not> (\<forall>v\<in>set vs. v = -1)"
      using that by (simp add: first_index_less_0)
    then show ?thesis using True Cons.IH [of "i + 1" p] Cons.prems by (auto simp: Let_def)
  next
    case False
    then have "valid_lines (i + 1) vs (if p < v then v else p, i, i) = (p', f', l')"
      using Cons.prems by (simp add: Let_def)
    from valid_lines_counted [OF _ this] show ?thesis using False Cons.prems(2) by simp
  qed
qed simp

definition lines_of_samples :: "int list \<Rightarrow> int \<Rightarrow> int \<Rightarrow> bool" where
  "lines_of_samples samples f l \<longleftrightarrow>
     (if \<forall>v\<in>set samples. v = -1 then f = -1 \<and> l = -1
      else f = first_index (\<lambda>v. v \<noteq> -1) samples \<and>
           l = f + int (length (filter (\<lambda>v. v \<noteq> -1) samples)) - 1)"

lemma valid_lines_start:
  "lines_of_samples samples (fst (snd (valid_lines 0 samples (p, -1, -1)))) (snd (snd (valid_lines 0 samples (p, -1, -1))))"
  using valid_lines_spec [of 0 samples p "-1"] by (cases "valid_lines 0 samples (p, -1, -1)") (simp add: lines_of_samples_def)

definition bursts_ok :: "sub_swath_info \<Rightarrow> nat \<Rightarrow> bool" where
  "bursts_ok s n \<longleftrightarrow>
     length (burst_first_line_time s) = n \<and> length (burst_last_line_time s) = n \<and>
     length (first_valid_sample s) = n \<and> length (last_valid_sample s) = n \<and>
     length (burst_first_valid_line_time s) = n \<and> length (burst_last_valid_line_time s) = n \<and>
     length (first_valid_line s) = n \<and> length (last_valid_line s) = n \<and>
     (\<forall>k < n. lines_of_samples (first_valid_sample s ! k) (first_valid_line s ! k) (last_valid_line s ! k))"

definition same_numbers :: "sub_swath_info \<Rightarrow> sub_swath_info \<Rightarrow> bool" where
  "same_numbers s s' \<longleftrightarrow>
     num_of_bursts s' = num_of_bursts s \<and> lines_per_burst s' = lines_per_burst s \<and> subswath_name s' = subswath_name s"

lemma read_burst_ok:
  assumes "read_burst e h x (s, int n, p, q) = Inr (s', k', p', q')" and "bursts_ok s n"
  shows "bursts_ok s' (Suc n) \<and> k' = int (Suc n) \<and> same_numbers s s'"
  using assms unfolding read_burst_def bursts_ok_def same_numbers_def
  by (clarsimp simp: bind_res_Inr_iff Let_def case_prod_unfold vec_simps nth_append valid_lines_start less_Suc_eq)

lemma same_numbers_refl [simp]: "same_numbers s s"
  by (simp add: same_numbers_def)

lemma same_numbers_trans: "same_numbers a b \<Longrightarrow> same_numbers b c \<Longrightarrow> same_numbers a c"
  by (simp add: same_numbers_def)

lemma read_bursts_fold:
  assumes "bursts_ok s n"
    and "fold_res (read_burst e h) xs (s, int n, p, q) = Inr (s', k', p', q')"
  shows "bursts_ok s' (n + length xs) \<and> same_numbers s s'"
  using assms
proof (induction xs arbitrary: s n p q)
  case (Cons x xs)
  then obtain s1 k1 p1 q1 where step: "read_burst e h x (s, int n, p, q) = Inr (s1, k1, p1, q1)"
    and rest: "fold_res (read_burst e h) xs (s1, k1, p1, q1) = Inr (s', k', p', q')"
    by (auto simp: bind_res_Inr_iff)
  from read_burst_ok [OF step Cons.prems(1)] have s1: "bursts_ok s1 (Suc n)" "k1 = int (Suc n)" "same_numbers s s1"
    by auto
  from Cons.IH [OF s1(1) rest [unfolded s1(2)]] s1(3) show ?case by (auto intro: same_numbers_trans)
qed simp

definition all_bursts_ok :: "sub_swath_info \<Rightarrow> bool" where
  "all_bursts_ok s \<longleftrightarrow> (\<exists>n. bursts_ok s n \<and> num_of_bursts s \<le> int n)"

lemma read_bursts_ok:
  assumes "read_bursts e h burst_list s = Inr s'" and "bursts_ok s 0"
  shows "all_bursts_ok s' \<and> same_numbers s s'"
proof (cases "num_of_bursts s > 0")
  case False
  then show ?thesis using assms by (auto simp: read_bursts_def all_bursts_ok_def)
next
  case True
  then obtain xs s1 k p q where fold: "fold_res (read_burst e h) xs (s, 0, 0, num_of_samples s) = Inr (s1, k, p, q)"
    and last: "num_of_bursts s1 - 1 < int (length (burst_last_valid_line_time s1))"
    and s': "\<exists>t u. s' = s1\<lparr>first_valid_pixel := p, last_valid_pixel := q, first_valid_line_time := t, last_valid_line_time := u\<rparr>"
    using assms(1) by (clarsimp simp: read_bursts_def bind_res_Inr_iff vec_simps) blast
  from read_bursts_fold [OF assms(2), of e h xs 0 "num_of_samples s"] fold
  have "bursts_ok s1 (length xs)" "same_numbers s s1" by auto
  then show ?thesis using s' last by (auto simp: all_bursts_ok_def bursts_ok_def same_numbers_def)
qed

section \<open>The grids\<close>

definition grid_ok :: "int \<Rightarrow> int \<Rightarrow> 'a array2 option \<Rightarrow> bool" where
  "grid_ok rows cols p \<longleftrightarrow>
     (\<exists>a. p = Some a \<and> a2_rows a = rows \<and> a2_cols a = cols \<and> 0 \<le> rows \<and> 0 \<le> rows * cols \<and>
          int (length (a2_cells a)) = rows * cols)"

lemma Allocate2DArray_ok: "Allocate2DArray x y = Inr a \<Longrightarrow> grid_ok x y (Some a)"
  by (auto simp: Allocate2DArray_def grid_ok_def bind_res_Inr_iff guard_def int_result_def split: if_splits)

lemma cell_put_ok: "cell_put p i j v = Inr p' \<Longrightarrow> grid_ok x y p \<Longrightarrow> grid_ok x y p'"
  by (auto simp: cell_put_def grid_ok_def bind_res_Inr_iff)

lemma extrapolated_ok: "extrapolated p m i j = Inr p' \<Longrightarrow> grid_ok x y p \<Longrightarrow> grid_ok x y p'"
  by (auto simp: extrapolated_def Let_def bind_res_Inr_iff intro: cell_put_ok)

definition grids_ok :: "sub_swath_info \<Rightarrow> bool" where
  "grids_ok s \<longleftrightarrow>
     (\<forall>p \<in> {azimuth_time s, slant_range_time s, latitude s, longitude s, incidence_angle s}.
        grid_ok (num_of_geo_lines s) (num_of_geo_points_per_line s) p) \<and>
     0 < num_of_geo_points_per_line s \<and> num_of_bursts s < num_of_geo_lines s"

definition same_lists :: "sub_swath_info \<Rightarrow> sub_swath_info \<Rightarrow> bool" where
  "same_lists s s' \<longleftrightarrow> same_numbers s s' \<and> (\<forall>n. bursts_ok s' n = bursts_ok s n)"

lemma same_lists_refl [simp]: "same_lists s s"
  by (simp add: same_lists_def)

lemma same_lists_trans: "same_lists a b \<Longrightarrow> same_lists b c \<Longrightarrow> same_lists a c"
  by (auto simp: same_lists_def intro: same_numbers_trans)

lemma read_point_ok:
  assumes "read_point e h m x (s, k) = Inr (s', k')" and "grids_ok s"
  shows "grids_ok s' \<and> same_lists s s'"
  using assms unfolding read_point_def
  by (auto simp: bind_res_Inr_iff Let_def grids_ok_def same_lists_def same_numbers_def bursts_ok_def intro: cell_put_ok)

lemma extrapolate_point_ok:
  assumes "extrapolate_point m i j s = Inr s'" and "grids_ok s"
  shows "grids_ok s' \<and> same_lists s s' \<and> num_of_geo_points_per_line s' = num_of_geo_points_per_line s"
  using assms unfolding extrapolate_point_def
  by (auto simp: bind_res_Inr_iff Let_def grids_ok_def same_lists_def same_numbers_def bursts_ok_def intro: extrapolated_ok)

lemma points_on_line_nonneg: "points_on_line e h ks n line = Inr m \<Longrightarrow> 0 \<le> n \<Longrightarrow> n \<le> m"
  by (induction ks arbitrary: n line) (force simp: bind_res_Inr_iff split: if_splits)+

lemma read_grid_ok:
  assumes "read_grid e h point_list s = Inr s'"
  shows "grids_ok s' \<and> same_lists s s'"
proof -
  let ?alloc = "\<lambda>grid n m. s\<lparr>num_of_geo_lines := n, num_of_geo_points_per_line := m, azimuth_time := Some grid,
                    slant_range_time := Some grid, latitude := Some grid, longitude := Some grid,
                    incidence_angle := Some grid\<rparr>"
  from assms obtain elems m n grid s1 k d where m: "points_on_line e h elems 0 0 = Inr m" "m \<noteq> 0"
    and n: "num_of_bursts s < n" and grid: "Allocate2DArray n m = Inr grid"
    and pts: "fold_res (read_point e h m) elems (?alloc grid n m, 0) = Inr (s1, k)"
    and s': "s' = s1 \<or> extrapolate_lines d s1 = Inr s'"
    by (clarsimp simp: read_grid_def bind_res_Inr_iff int_result_Inr_iff Let_def split: if_splits) (force simp: int_result_Inr_iff)+
  have "0 < m" using points_on_line_nonneg [OF m(1)] m(2) by simp
  then have "grids_ok (?alloc grid n m)" using Allocate2DArray_ok [OF grid] n by (simp add: grids_ok_def)
  moreover have "same_lists s (?alloc grid n m)" by (simp add: same_lists_def same_numbers_def bursts_ok_def)
  moreover have "(\<lambda>(t, _). grids_ok t \<and> same_lists s t) u'"
    if "(\<lambda>(t, _). grids_ok t \<and> same_lists s t) u" "read_point e h m x u = Inr u'" for x u u'
    using that read_point_ok [of e h m x "fst u" "snd u" "fst u'" "snd u'"]
    by (auto simp: case_prod_unfold intro: same_lists_trans)
  ultimately have s1: "grids_ok s1 \<and> same_lists s s1"
    using fold_res_invariant [OF pts, of "\<lambda>(t, _). grids_ok t \<and> same_lists s t"] by simp
  show ?thesis
  proof (cases "s' = s1")
    case False
    then have ex: "extrapolate_lines d s1 = Inr s'" using s' by blast
    have step: "grids_ok t' \<and> same_lists s t'"
      if "grids_ok t \<and> same_lists s t" "extrapolate_point d i j t = Inr t'" for i j t t'
      using extrapolate_point_ok [OF that(2)] that(1) by (auto intro: same_lists_trans)
    have "grids_ok t' \<and> same_lists s t'"
      if "grids_ok t \<and> same_lists s t" "fold_res (extrapolate_point d i) js t = Inr t'" for i js t t'
      using fold_res_invariant [OF that(2), of "\<lambda>t. grids_ok t \<and> same_lists s t"] that(1) step by blast
    then show ?thesis
      using fold_res_invariant [OF ex [unfolded extrapolate_lines_def], of "\<lambda>t. grids_ok t \<and> same_lists s t"] s1
      by blast
  qed (simp add: s1)
qed

lemma read_antenna_ok:
  assumes "read_antenna e h x s = Inr s'"
  shows "same_lists s s' \<and> (grids_ok s \<longrightarrow> grids_ok s') \<and>
    (length (ap_slant_range_time s) = length (ap_elevation_angle s) \<longrightarrow>
     length (ap_slant_range_time s') = length (ap_elevation_angle s'))"
  using assms by (auto simp: read_antenna_def bind_res_Inr_iff same_lists_def same_numbers_def bursts_ok_def grids_ok_def)

definition sub_swath_ok :: "sub_swath_info \<Rightarrow> bool" where
  "sub_swath_ok s \<longleftrightarrow> all_bursts_ok s \<and> grids_ok s"

lemma FillSubswathMetaData_ok:
  assumes "FillSubswathMetaData e h m s0 = Inr s" and "bursts_ok s0 0"
  shows "sub_swath_ok s \<and> subswath_name s = subswath_name s0"
proof -
  from assms(1) obtain info with_bursts a b c bl gl s1 s2 where
      info: "read_image_information e h a b bl c s0 = Inr info"
    and with_bursts: "read_bursts e h bl info = Inr with_bursts"
    and s1: "read_grid e h gl (with_bursts\<lparr>slr_time_to_first_valid_pixel := pixel_time with_bursts (first_valid_pixel with_bursts),
               slr_time_to_last_valid_pixel := pixel_time with_bursts (last_valid_pixel with_bursts)\<rparr>) = Inr s1"
    and s2: "s = s1 \<or> (\<exists>elems. fold_res (read_antenna e h) elems s1 = Inr s)"
    by (clarsimp simp: FillSubswathMetaData_def bind_res_Inr_iff Let_def split: if_splits) blast+
  have "bursts_ok info 0" "subswath_name info = subswath_name s0" using info assms(2)
    by (auto simp: read_image_information_def bind_res_Inr_iff Let_def bursts_ok_def)
  with read_bursts_ok [OF with_bursts]
  have "all_bursts_ok with_bursts" "subswath_name with_bursts = subswath_name s0" by (auto simp: same_numbers_def)
  with read_grid_ok [OF s1] have s1: "grids_ok s1" "all_bursts_ok s1" "subswath_name s1 = subswath_name s0"
    by (auto simp: all_bursts_ok_def same_lists_def same_numbers_def bursts_ok_def)
  have "grids_ok s \<and> all_bursts_ok s \<and> subswath_name s = subswath_name s0"
  proof (cases "s = s1")
    case False
    then obtain elems where "fold_res (read_antenna e h) elems s1 = Inr s" using s2 by blast
    from fold_res_invariant [OF this, of "\<lambda>t. grids_ok t \<and> all_bursts_ok t \<and> subswath_name t = subswath_name s0"] s1 read_antenna_ok [of e h]
    show ?thesis by (auto simp: all_bursts_ok_def same_lists_def same_numbers_def)
  qed (simp add: s1)
  then show ?thesis by (simp add: sub_swath_ok_def)
qed

text \<open>
  C22. A sub-swath that was read is well formed: the eight lists of its bursts have one entry per element of the
  burst list, at least as many as the number of bursts says; the first valid line of a burst is its first
  line with a valid sample and the last one is as many lines further as there are later lines with one (both
  -1 when there is none); and the five grids of geolocation points have the recorded number of lines and of
  points per line, at least one point, and more lines than there are bursts, so that both edges of
  every burst have a line.
\<close>
theorem FillSubswathMetaData_shape:
  assumes "FillSubswathMetaData e h m SubSwathInfo = Inr s"
  shows "sub_swath_ok s"
  using FillSubswathMetaData_ok [OF assms] by (simp add: bursts_ok_def SubSwathInfo_def)

section \<open>Reading from a tree\<close>

lemma child_tree:
  assumes "tree_at h k t" and "name \<noteq> []" and "tree_child (ieq e) t name = Some u"
  obtains k' where "child e h (Some k) name = Inr (Some k')" and "tree_at h k' u"
  using tree_GetElement_Some [OF assms] by (auto simp: child_def deref_def)

lemma attr_string_tree:
  "tree_at h k t \<Longrightarrow> name \<noteq> [] \<Longrightarrow> tree_text (ieq e) t name = Some v \<Longrightarrow> attr_string e h (Some k) name = Inr v"
  by (simp add: attr_string_def deref_def tree_GetAttributeString)

lemma GetTime_tree:
  "tree_at h k t \<Longrightarrow> tag \<noteq> [] \<Longrightarrow> tree_text (ieq e) t tag = Some v \<Longrightarrow>
   GetTime e h (Some k) tag = Parse_pattern (casts e) (times e) v ''%Y-%m-%dT%H:%M:%S''"
  by (simp add: GetTime_def deref_def tree_GetAttributeString)

lemma numbers_tree:
  assumes "tree_at h k t" and "name \<noteq> []" and "tree_text (ieq e) t name = Some v"
  shows "\<exists>j. attr_pointer e h (Some k) name = Inr (Some j) \<and>
    attribute_numbers conv e h (Some j) d = delimited conv d v"
proof -
  obtain j n where j: "GetAttribute e k name h = Inr (Some j)" "text_at h j (n, v)"
    using tree_GetAttribute [OF assms(1,2), of e] assms(3) by (auto simp: option_rel_Some2)
  obtain dn where "data_node_at h j = Inr dn" "data_type dn = TYPE_ASCII"
    using j(2) by (auto simp: text_at_def data_node_at_def node_at_def)
  then show ?thesis using j(1) text_at_data [OF j(2)] by (auto simp: attr_pointer_def attribute_numbers_def deref_def)
qed

lemma child_list_tree:
  "tree_at h k t \<Longrightarrow> \<exists>ks. child_list h (Some k) = Inr ks \<and> list_all2 (tree_at h) ks (tree_elements t)"
  using tree_elements_at [of h k t] by (simp add: child_list_def deref_def)

section \<open>A product with one burst\<close>

definition sample_information :: meta_tree where
  "sample_information =
     Tree IMAGE_INFORMATION
       [(AZIMUTH_TIME_INTERVAL, ''0''), (NUMBER_OF_SAMPLES, ''9''), (NUMBER_OF_LINES, ''3''),
        (RANGE_PIXEL_SPACING, ''0''), (''azimuthPixelSpacing'', ''0''), (''slantRangeTime'', ''0''),
        (PRODUCT_FIRST_LINE_UTC_TIME, ''0''), (PRODUCT_LAST_LINE_UTC_TIME, ''0'')] []"

definition sample_burst :: meta_tree where
  "sample_burst =
     Tree ''burst'' [(AZIMUTH_TIME, ''0'')]
       [Tree FIRST_VALID_SAMPLE [(FIRST_VALID_SAMPLE, ''-1 2 3'')] [],
        Tree LAST_VALID_SAMPLE [(LAST_VALID_SAMPLE, ''-1 7 8'')] []]"

definition sample_burst_list :: meta_tree where
  "sample_burst_list = Tree BURST_LIST [(COUNT, ''1'')] [sample_burst]"

definition sample_timing :: meta_tree where
  "sample_timing = Tree SWATH_TIMING [(LINES_PER_BURST, ''3''), (SAMPLES_PER_BURST, ''9'')] [sample_burst_list]"

definition sample_product_information :: meta_tree where
  "sample_product_information = Tree PRODUCT_INFORMATION [(''radarFrequency'', ''0''), (AZIMUTH_STEERING_RATE, ''0'')] []"

definition sample_point :: "string \<Rightarrow> meta_tree" where
  "sample_point line =
     Tree ''point'' [(LINE, line), (AZIMUTH_TIME, ''0''), (''slantRangeTime'', ''0''), (LATITUDE, ''0''),
                     (LONGITUDE, ''0''), (INCIDENCE_ANGLE, ''0'')] []"

definition sample_points :: meta_tree where
  "sample_points = Tree GEOLOCATION_GRID_POINT_LIST [(COUNT, ''2'')] [sample_point ''0'', sample_point ''3'']"

definition sample_antenna :: meta_tree where
  "sample_antenna = Tree ANTENNA_PATTERN_LIST [(COUNT, ''0'')] []"

definition sample_product :: meta_tree where
  "sample_product =
     Tree ''product'' []
       [Tree IMAGE_ANNOTATION [] [sample_information], sample_timing,
        Tree GENERAL_ANNOTATION [] [sample_product_information],
        Tree ANTENNA_PATTERN [] [sample_antenna], Tree GEOLOCATION_GRID [] [sample_points]]"

definition sample_sub_swath :: meta_tree where
  "sample_sub_swath = Tree ''s1a-iw1-slc-vv'' [] [sample_product]"


lemma iequals_refl: "iequals_upper a a"
  by (simp add: iequals_upper_def)

lemma iequals_length: "length a \<noteq> length b \<Longrightarrow> \<not> iequals_upper a b"
  by (auto simp: iequals_upper_def upper_case_def dest: arg_cong [of _ _ length])

lemma iequals_clashes:
  "\<not> iequals_upper ''imageAnnotation'' ''geolocationGrid''"
  "\<not> iequals_upper ''azimuthTimeInterval'' ''azimuthPixelSpacing''"
  "\<not> iequals_upper ''slantRangeTime'' ''incidenceAngle''"
  by code_simp+

lemmas sample_lookup = tree_child_def tree_text_def sample_env_def tag_defs iequals_refl iequals_length iequals_clashes

lemma sample_children:
  "tree_child (ieq sample_env) sample_sub_swath ''product'' = Some sample_product"
  "tree_child (ieq sample_env) sample_product IMAGE_ANNOTATION = Some (Tree IMAGE_ANNOTATION [] [sample_information])"
  "tree_child (ieq sample_env) (Tree IMAGE_ANNOTATION [] [sample_information]) IMAGE_INFORMATION = Some sample_information"
  "tree_child (ieq sample_env) sample_product SWATH_TIMING = Some sample_timing"
  "tree_child (ieq sample_env) sample_timing BURST_LIST = Some sample_burst_list"
  "tree_child (ieq sample_env) sample_product GENERAL_ANNOTATION = Some (Tree GENERAL_ANNOTATION [] [sample_product_information])"
  "tree_child (ieq sample_env) (Tree GENERAL_ANNOTATION [] [sample_product_information]) PRODUCT_INFORMATION = Some sample_product_information"
  "tree_child (ieq sample_env) sample_product ANTENNA_PATTERN = Some (Tree ANTENNA_PATTERN [] [sample_antenna])"
  "tree_child (ieq sample_env) (Tree ANTENNA_PATTERN [] [sample_antenna]) ANTENNA_PATTERN_LIST = Some sample_antenna"
  "tree_child (ieq sample_env) sample_product GEOLOCATION_GRID = Some (Tree GEOLOCATION_GRID [] [sample_points])"
  "tree_child (ieq sample_env) (Tree GEOLOCATION_GRID [] [sample_points]) GEOLOCATION_GRID_POINT_LIST = Some sample_points"
  "tree_child (ieq sample_env) sample_burst FIRST_VALID_SAMPLE = Some (Tree FIRST_VALID_SAMPLE [(FIRST_VALID_SAMPLE, ''-1 2 3'')] [])"
  "tree_child (ieq sample_env) sample_burst LAST_VALID_SAMPLE = Some (Tree LAST_VALID_SAMPLE [(LAST_VALID_SAMPLE, ''-1 7 8'')] [])"
  by (simp_all add: sample_lookup sample_sub_swath_def sample_product_def sample_information_def sample_timing_def
      sample_burst_list_def sample_product_information_def sample_antenna_def sample_points_def sample_burst_def)

lemmas read_number = signed_number_def strto_def skip_sign_def is_space_def is_digit_def code_def digits_value_def digit_val_def

lemma sample_numbers: "stoi ''0'' = Inr 0" "stoi ''1'' = Inr 1" "stoi ''2'' = Inr 2" "stoi ''3'' = Inr 3" "stoi ''9'' = Inr 9"
  by (simp_all add: stoi_def read_number)

lemma sample_date: "Parse_pattern (casts sample_env) (times sample_env) ''0'' pat = Inr (utc 0 0 0)"
proof -
  have "stoll ''0'' = Inr 0" by (simp add: stoll_def read_number)
  then show ?thesis by (simp add: Parse_pattern_def sample_env_def sample_calendar_def Create_def wrap_signed_def)
qed

lemma sample_mjd: "GetMjd lc (utc 0 0 0) = Inr (Fin 0)"
proof -
  have "int32_range 0" by (simp add: int32_range_def)
  note parts = utc_fractions(1) [OF this, of lc 0 0] utc_fractions(2) [OF this, of lc 0 0] utc_fractions(3) [OF this, of lc 0 0]
  obtain x y where c: "SECONDS_TO_DAYS = Fin x" "MICROS_TO_SECONDS = Fin y" using finite_constants by blast
  show ?thesis using parts by (simp add: GetMjd_def fp_of_int_def c)
qed

lemma sample_seconds:
  "tree_at h k t \<Longrightarrow> tag \<noteq> [] \<Longrightarrow> tree_text (ieq sample_env) t tag = Some ''0'' \<Longrightarrow>
   seconds_of sample_env h (Some k) tag = Inr (Fin 0)"
  using sample_mjd [of "casts sample_env"]
  by (simp add: seconds_of_def GetTime_tree sample_date SECONDS_IN_DAY_def)

lemma attr_stoi_tree:
  "tree_at h k t \<Longrightarrow> name \<noteq> [] \<Longrightarrow> tree_text (ieq e) t name = Some v \<Longrightarrow> attr_stoi e h (Some k) name = stoi v"
  by (simp add: attr_stoi_def attr_string_tree)

lemma attr_stod_tree:
  "tree_at h k t \<Longrightarrow> name \<noteq> [] \<Longrightarrow> tree_text (ieq e) t name = Some v \<Longrightarrow> attr_stod e h (Some k) name = stod v"
  by (simp add: attr_stod_def attr_string_tree)

lemma tag_not_empty: "AZIMUTH_TIME_INTERVAL \<noteq> []"  "NUMBER_OF_SAMPLES \<noteq> []" "NUMBER_OF_LINES \<noteq> []" "COUNT \<noteq> []"
  "LINES_PER_BURST \<noteq> []" "SAMPLES_PER_BURST \<noteq> []" "RANGE_PIXEL_SPACING \<noteq> []" "PRODUCT_FIRST_LINE_UTC_TIME \<noteq> []"
  "PRODUCT_LAST_LINE_UTC_TIME \<noteq> []" "AZIMUTH_STEERING_RATE \<noteq> []" "AZIMUTH_TIME \<noteq> []" "LATITUDE \<noteq> []" "LONGITUDE \<noteq> []"
  "LINE \<noteq> []" "INCIDENCE_ANGLE \<noteq> []" "FIRST_VALID_SAMPLE \<noteq> []" "LAST_VALID_SAMPLE \<noteq> []" "IMAGE_ANNOTATION \<noteq> []"
  "IMAGE_INFORMATION \<noteq> []" "SWATH_TIMING \<noteq> []" "BURST_LIST \<noteq> []" "GENERAL_ANNOTATION \<noteq> []" "PRODUCT_INFORMATION \<noteq> []"
  "ANTENNA_PATTERN \<noteq> []" "ANTENNA_PATTERN_LIST \<noteq> []" "GEOLOCATION_GRID \<noteq> []" "GEOLOCATION_GRID_POINT_LIST \<noteq> []"
  by (simp_all add: tag_defs)

lemma sample_texts:
  "tree_text (ieq sample_env) sample_information AZIMUTH_TIME_INTERVAL = Some ''0''"
  "tree_text (ieq sample_env) sample_information NUMBER_OF_SAMPLES = Some ''9''"
  "tree_text (ieq sample_env) sample_information NUMBER_OF_LINES = Some ''3''"
  "tree_text (ieq sample_env) sample_information RANGE_PIXEL_SPACING = Some ''0''"
  "tree_text (ieq sample_env) sample_information ''azimuthPixelSpacing'' = Some ''0''"
  "tree_text (ieq sample_env) sample_information ''slantRangeTime'' = Some ''0''"
  "tree_text (ieq sample_env) sample_information PRODUCT_FIRST_LINE_UTC_TIME = Some ''0''"
  "tree_text (ieq sample_env) sample_information PRODUCT_LAST_LINE_UTC_TIME = Some ''0''"
  "tree_text (ieq sample_env) sample_burst_list COUNT = Some ''1''"
  "tree_text (ieq sample_env) sample_timing LINES_PER_BURST = Some ''3''"
  "tree_text (ieq sample_env) sample_timing SAMPLES_PER_BURST = Some ''9''"
  "tree_text (ieq sample_env) sample_product_information ''radarFrequency'' = Some ''0''"
  "tree_text (ieq sample_env) sample_product_information AZIMUTH_STEERING_RATE = Some ''0''"
  "tree_text (ieq sample_env) sample_burst AZIMUTH_TIME = Some ''0''"
  "tree_text (ieq sample_env) sample_antenna COUNT = Some ''0''"
  "tree_text (ieq sample_env) sample_points COUNT = Some ''2''"
  "tree_text (ieq sample_env) (sample_point l) LINE = Some l"
  "tree_text (ieq sample_env) (sample_point l) AZIMUTH_TIME = Some ''0''"
  "tree_text (ieq sample_env) (sample_point l) ''slantRangeTime'' = Some ''0''"
  "tree_text (ieq sample_env) (sample_point l) LATITUDE = Some ''0''"
  "tree_text (ieq sample_env) (sample_point l) LONGITUDE = Some ''0''"
  "tree_text (ieq sample_env) (sample_point l) INCIDENCE_ANGLE = Some ''0''"
  "tree_text (ieq sample_env) (Tree n [(FIRST_VALID_SAMPLE, v)] []) FIRST_VALID_SAMPLE = Some v"
  "tree_text (ieq sample_env) (Tree n [(LAST_VALID_SAMPLE, v)] []) LAST_VALID_SAMPLE = Some v"
  by (simp_all add: sample_lookup sample_information_def sample_timing_def sample_point_def
      sample_burst_list_def sample_product_information_def sample_antenna_def sample_points_def sample_burst_def)

lemma sample_zero: "stod ''0'' = Inr (Fin 0)"
  by (simp add: stod_def stofp_def real_number_def mantissa_def span_digits_def hex_val_def exponent_def to_lower_def is_upper_def
      read_number)

lemma sample_parsed: "delimited stoi '' '' ''-1 2 3'' = Inr [-1, 2, 3]" "delimited stoi '' '' ''-1 7 8'' = Inr [-1, 7, 8]"
proof -
  have "stoi ''-1'' = Inr (-1)" "stoi ''7'' = Inr 7" "stoi ''8'' = Inr 8" by (simp_all add: stoi_def read_number)
  then show "delimited stoi '' '' ''-1 2 3'' = Inr [-1, 2, 3]" "delimited stoi '' '' ''-1 7 8'' = Inr [-1, 7, 8]"
    using sample_numbers by (simp_all add: delimited.simps [of stoi])
qed

lemma sample_image_information:
  assumes "tree_at h ii sample_information" and "tree_at h st sample_timing" and "tree_at h bl sample_burst_list"
    and "tree_at h pinf sample_product_information" and "bursts_ok s0 0"
  shows "\<exists>s. read_image_information sample_env h (Some ii) (Some st) (Some bl) (Some pinf) s0 = Inr s \<and>
    num_of_bursts s = 1 \<and> num_of_samples s = 9 \<and> bursts_ok s 0 \<and> lines_per_burst s = 3"
  using assms(5) by (simp add: read_image_information_def attr_stod_tree [OF assms(1)] attr_stoi_tree [OF assms(1)]
    attr_stoi_tree [OF assms(2)] attr_stoi_tree [OF assms(3)] attr_stod_tree [OF assms(4)] sample_seconds [OF assms(1)]
    tag_not_empty sample_texts sample_numbers sample_zero Let_def int32_range_def bursts_ok_def)

lemma sample_bursts:
  assumes "tree_at h bl sample_burst_list" and "num_of_bursts s = 1" and "bursts_ok s 0" and "int32_range (lines_per_burst s - 1)"
  shows "\<exists>s'. read_bursts sample_env h (Some bl) s = Inr s' \<and> num_of_bursts s' = 1"
proof -
  obtain b where b: "child_list h (Some bl) = Inr [b]" "tree_at h b sample_burst"
    using child_list_tree [OF assms(1)] by (auto simp: sample_burst_list_def list_all2_Cons2)
  obtain f where f: "child sample_env h (Some b) FIRST_VALID_SAMPLE = Inr (Some f)"
      "tree_at h f (Tree FIRST_VALID_SAMPLE [(FIRST_VALID_SAMPLE, ''-1 2 3'')] [])"
    using child_tree [OF b(2), of FIRST_VALID_SAMPLE sample_env] sample_children tag_not_empty by metis
  obtain l where l: "child sample_env h (Some b) LAST_VALID_SAMPLE = Inr (Some l)"
      "tree_at h l (Tree LAST_VALID_SAMPLE [(LAST_VALID_SAMPLE, ''-1 7 8'')] [])"
    using child_tree [OF b(2), of LAST_VALID_SAMPLE sample_env] sample_children tag_not_empty by metis
  obtain fj where fj: "attr_pointer sample_env h (Some f) FIRST_VALID_SAMPLE = Inr (Some fj)"
      "GetIntVector sample_env h (Some fj) '' '' = Inr [-1, 2, 3]"
    using numbers_tree [OF f(2) tag_not_empty(16) sample_texts(23), of stoi "'' ''"] sample_parsed by (auto simp: GetIntVector_def)
  obtain lj where lj: "attr_pointer sample_env h (Some l) LAST_VALID_SAMPLE = Inr (Some lj)"
      "GetIntVector sample_env h (Some lj) '' '' = Inr [-1, 7, 8]"
    using numbers_tree [OF l(2) tag_not_empty(17) sample_texts(24), of stoi "'' ''"] sample_parsed by (auto simp: GetIntVector_def)
  have t: "seconds_of sample_env h (Some b) AZIMUTH_TIME = Inr (Fin 0)"
    by (rule sample_seconds [OF b(2) tag_not_empty(11) sample_texts(14)])
  show ?thesis using assms(2-4)
    by (simp add: read_bursts_def b(1) read_burst_def t f(1) l(1) fj lj bursts_ok_def vec_at_def Let_def)
qed

lemma sample_grid:
  assumes "tree_at h gl sample_points" and "num_of_bursts s = 1"
  shows "\<exists>s'. read_grid sample_env h (Some gl) s = Inr s' \<and>
    incidence_angle s' = Some \<lparr>a2_rows = 2, a2_cols = 1, a2_cells = [Some (Fin 0), Some (Fin 0)]\<rparr>"
proof -
  obtain p q where p: "child_list h (Some gl) = Inr [p, q]" "tree_at h p (sample_point ''0'')" "tree_at h q (sample_point ''3'')"
    using child_list_tree [OF assms(1)] by (auto simp: sample_points_def list_all2_Cons2)
  note point = attr_stod_tree [OF p(2)] attr_stod_tree [OF p(3)] attr_stoi_tree [OF p(2)] attr_stoi_tree [OF p(3)]
    sample_seconds [OF p(2)] sample_seconds [OF p(3)]
  have lines: "points_on_line sample_env h [p, q] 0 0 = Inr 1"
    by (simp add: point tag_not_empty sample_texts sample_numbers)
  show ?thesis
    by (simp add: read_grid_def attr_stoi_tree [OF assms(1)] tag_not_empty sample_texts sample_numbers p(1) lines assms(2)
        Allocate2DArray_def int32_range_def read_point_def point sample_zero cell_put_def cell_index_def Let_def
        c_div_nonneg eval_nat_numeral)
qed

lemma sample_filled:
  assumes "tree_at h m sample_sub_swath" and "bursts_ok s0 0"
  shows "\<exists>s. FillSubswathMetaData sample_env h (Some m) s0 = Inr s \<and>
    incidence_angle s = Some \<lparr>a2_rows = 2, a2_cols = 1, a2_cells = [Some (Fin 0), Some (Fin 0)]\<rparr>"
proof -
  note step = child_tree [where e = sample_env]
  obtain p where p: "child sample_env h (Some m) ''product'' = Inr (Some p)" "tree_at h p sample_product"
    using step [OF assms(1) _ sample_children(1)] by auto
  obtain ia where ia: "child sample_env h (Some p) IMAGE_ANNOTATION = Inr (Some ia)" "tree_at h ia (Tree IMAGE_ANNOTATION [] [sample_information])"
    using step [OF p(2) tag_not_empty(18) sample_children(2)] by auto
  obtain ii where ii: "child sample_env h (Some ia) IMAGE_INFORMATION = Inr (Some ii)" "tree_at h ii sample_information"
    using step [OF ia(2) tag_not_empty(19) sample_children(3)] by auto
  obtain st where st: "child sample_env h (Some p) SWATH_TIMING = Inr (Some st)" "tree_at h st sample_timing"
    using step [OF p(2) tag_not_empty(20) sample_children(4)] by auto
  obtain bl where bl: "child sample_env h (Some st) BURST_LIST = Inr (Some bl)" "tree_at h bl sample_burst_list"
    using step [OF st(2) tag_not_empty(21) sample_children(5)] by auto
  obtain ga where ga: "child sample_env h (Some p) GENERAL_ANNOTATION = Inr (Some ga)" "tree_at h ga (Tree GENERAL_ANNOTATION [] [sample_product_information])"
    using step [OF p(2) tag_not_empty(22) sample_children(6)] by auto
  obtain pri where pri: "child sample_env h (Some ga) PRODUCT_INFORMATION = Inr (Some pri)" "tree_at h pri sample_product_information"
    using step [OF ga(2) tag_not_empty(23) sample_children(7)] by auto
  obtain ap where ap: "child sample_env h (Some p) ANTENNA_PATTERN = Inr (Some ap)" "tree_at h ap (Tree ANTENNA_PATTERN [] [sample_antenna])"
    using step [OF p(2) tag_not_empty(24) sample_children(8)] by auto
  obtain al where al: "child sample_env h (Some ap) ANTENNA_PATTERN_LIST = Inr (Some al)" "tree_at h al sample_antenna"
    using step [OF ap(2) tag_not_empty(25) sample_children(9)] by auto
  obtain gg where gg: "child sample_env h (Some p) GEOLOCATION_GRID = Inr (Some gg)" "tree_at h gg (Tree GEOLOCATION_GRID [] [sample_points])"
    using step [OF p(2) tag_not_empty(26) sample_children(10)] by auto
  obtain gl where gl: "child sample_env h (Some gg) GEOLOCATION_GRID_POINT_LIST = Inr (Some gl)" "tree_at h gl sample_points"
    using step [OF gg(2) tag_not_empty(27) sample_children(11)] by auto
  obtain s1 where s1: "read_image_information sample_env h (Some ii) (Some st) (Some bl) (Some pri) s0 = Inr s1"
      "num_of_bursts s1 = 1" "bursts_ok s1 0" "lines_per_burst s1 = 3"
    using sample_image_information [OF ii(2) st(2) bl(2) pri(2) assms(2)] by auto
  obtain s2 where s2: "read_bursts sample_env h (Some bl) s1 = Inr s2" "num_of_bursts s2 = 1"
    using sample_bursts [OF bl(2) s1(2,3)] s1(4) by (auto simp: int32_range_def)
  let ?s = "s2\<lparr>slr_time_to_first_valid_pixel := pixel_time s2 (first_valid_pixel s2),
               slr_time_to_last_valid_pixel := pixel_time s2 (last_valid_pixel s2)\<rparr>"
  obtain s3 where "read_grid sample_env h (Some gl) ?s = Inr s3"
      "incidence_angle s3 = Some \<lparr>a2_rows = 2, a2_cols = 1, a2_cells = [Some (Fin 0), Some (Fin 0)]\<rparr>"
    using sample_grid [OF gl(2), of ?s] s2(2) by auto
  then show ?thesis
    by (simp add: FillSubswathMetaData_def p(1) ia(1) ii(1) st(1) bl(1) ga(1) pri(1) ap(1) al(1) gg(1) gl(1) s1(1) s2(1) Let_def
        attr_stoi_tree [OF al(2)] tag_not_empty sample_texts sample_numbers)
qed

lemma FillSubswathMetaData_shape_witness:
  "\<exists>h m s. FillSubswathMetaData sample_env h m SubSwathInfo = Inr s \<and> sub_swath_ok s"
proof -
  have "bursts_ok SubSwathInfo 0" by (simp add: bursts_ok_def SubSwathInfo_def)
  from sample_filled [OF lay_tree [of _ "\<lparr>nodes = [], datas = []\<rparr>"] this] FillSubswathMetaData_shape [of sample_env]
  show ?thesis by blast
qed

end
