(* ===== verification/InputValidator.thy ===== *)
theory InputValidator
  imports SubSwath
begin

text \<open>
  What the operators check of their input: the polarization and the unit of a band (\<^verbatim>\<open>operator_utils.cc\<close>,
  \<^verbatim>\<open>unit.cc\<close>) and the conditions on mission, product type, acquisition mode and processing level
  (\<^verbatim>\<open>input_product_validator.cc\<close>). Of a band its name and unit count.
\<close>

record band_values =
  band_name :: string
  band_unit :: "string option"
  is_virtual :: bool

definition contains :: "string \<Rightarrow> string \<Rightarrow> bool" where
  "contains s part \<longleftrightarrow> find_sub part s \<noteq> None"

section \<open>Band names and units\<close>

definition GetPolarizationFromBandName :: "string \<Rightarrow> string res" where
  "GetPolarizationFromBandName name =
     (let s = map to_lower name;
          pol = (if contains s ''_hh'' then ''hh'' else []) @
                (if contains s ''_vv'' then ''vv'' else []) @
                (if contains s ''_hv'' then ''hv'' else []) @
                (if contains s ''_vh'' then ''vh'' else []) @
                (if contains s ''_rh'' then ''rh'' else []) @
                (if contains s ''_rv'' then ''rv'' else []) @
                (if contains s ''_rch'' then ''rch'' else []) @
                (if contains s ''_rcv'' then ''rcv'' else [])
      in if 2 \<le> length pol \<and> length pol \<le> 3 then Inr pol
         else if length pol > 3 then Inl Runtime_error
         else Inr [])"

definition GetSourceBands :: "band_values list \<Rightarrow> (string \<Rightarrow> band_values option) \<Rightarrow> string list \<Rightarrow> bool \<Rightarrow> band_values list" where
  "GetSourceBands bands get_band source_band_names include_virtual_bands =
     List.map_filter get_band
       (if source_band_names = []
        then map band_name (filter (\<lambda>b. \<not> is_virtual b \<or> include_virtual_bands) bands)
        else source_band_names)"

text \<open>The text after the first \<open>_\<close>, else after the first \<open>-\<close>, else after the first \<open>.\<close>.\<close>

definition GetSuffixFromBandName :: "string \<Rightarrow> string" where
  "GetSuffixFromBandName name =
     (case find_sub ''_'' name of
        Some i \<Rightarrow> drop (i + 1) name
      | None \<Rightarrow>
          (case find_sub ''-'' name of
             Some i \<Rightarrow> drop (i + 1) name
           | None \<Rightarrow> (case find_sub ''.'' name of Some i \<Rightarrow> drop (i + 1) name | None \<Rightarrow> [])))"

definition GetAcquisitionDate :: "'p env \<Rightarrow> ref \<Rightarrow> heap \<Rightarrow> string res" where
  "GetAcquisitionDate e a h =
     bind_res (GetAttributeUtc e a FIRST_LINE_TIME h) (\<lambda>date.
       Format_pattern (casts e) (times e) date ''DDmmmYYYY'')"

datatype unit_type =
    AMPLITUDE | INTENSITY | REAL | IMAGINARY | PHASE | ABS_PHASE | COHERENCE | AMPLITUDE_DB | INTENSITY_DB
  | METERS | CENTIMETERS | METERS_PER_DAY | CLASS | SOIL_MOISTURE | DEGREES | NANOSECONDS | UNKNOWN

definition GetUnitType :: "band_values \<Rightarrow> unit_type" where
  "GetUnitType source_band =
     (case band_unit source_band of
        None \<Rightarrow> UNKNOWN
      | Some u \<Rightarrow>
          (let u = map to_lower u
           in if contains u ''amplitude'' then (if contains u ''db'' then AMPLITUDE_DB else AMPLITUDE)
              else if contains u ''intensity'' then (if contains u ''db'' then INTENSITY_DB else INTENSITY)
              else if contains u ''phase'' then PHASE
              else if contains u ''abs_phase'' then ABS_PHASE
              else if contains u ''real'' then REAL
              else if contains u ''imaginary'' then IMAGINARY
              else if contains u ''meters'' then METERS
              else if contains u ''centimeters'' then CENTIMETERS
              else if contains u ''m/day'' then METERS_PER_DAY
              else if contains u ''coherence'' then COHERENCE
              else if contains u ''class'' then CLASS
              else if contains u ''m^3water/m^3soil'' then SOIL_MOISTURE
              else if contains u ''deg'' then DEGREES
              else if contains u ''ns'' then NANOSECONDS
              else UNKNOWN))"

section \<open>The validator\<close>

record validator =
  val_product :: ref
  val_bands :: "band_values list"
  val_product_type :: string
  val_abs_root :: "ref option"

definition InputProductValidator ::
  "'p env \<Rightarrow> product_values \<Rightarrow> band_values list \<Rightarrow> ref \<Rightarrow> heap \<Rightarrow> (validator \<times> heap) res option" where
  "InputProductValidator e pv bs p h =
     map_option (\<lambda>r. bind_res r (\<lambda>(a, h).
         Inr (\<lparr>val_product = p, val_bands = bs, val_product_type = product_type pv, val_abs_root = Some a\<rparr>, h)))
       (GetAbstractedMetadata e pv p h)"

definition IsSARProduct :: "'p env \<Rightarrow> heap \<Rightarrow> validator \<Rightarrow> bool res" where
  "IsSARProduct e h v =
     (case val_abs_root v of
        None \<Rightarrow> Inr False
      | Some a \<Rightarrow>
          bind_res (GetAttributeDouble_default e a ''radar_frequency'' (Fin 99999) h) (\<lambda>f.
            Inr (\<not> feq f (Fin 99999))))"

definition CheckIfSARProduct :: "'p env \<Rightarrow> heap \<Rightarrow> validator \<Rightarrow> unit res" where
  "CheckIfSARProduct e h v =
     bind_res (guard (val_product_type v \<noteq> ''RAW'') Runtime_error) (\<lambda>_.
     bind_res (IsSARProduct e h v) (\<lambda>b. guard b Runtime_error))"

definition IsComplex :: "'p env \<Rightarrow> heap \<Rightarrow> validator \<Rightarrow> bool res" where
  "IsComplex e h v =
     (case val_abs_root v of
        None \<Rightarrow> Inr False
      | Some a \<Rightarrow>
          bind_res (GetAttributeString_default e a SAMPLE_TYPE NO_METADATA_STRING h) (\<lambda>t.
            Inr (ieq e (trim e t) ''complex'')))"

definition CheckIfSLC :: "'p env \<Rightarrow> heap \<Rightarrow> validator \<Rightarrow> unit res" where
  "CheckIfSLC e h v = bind_res (IsComplex e h v) (\<lambda>b. guard b Runtime_error)"

definition CheckIfGRD :: "'p env \<Rightarrow> heap \<Rightarrow> validator \<Rightarrow> unit res" where
  "CheckIfGRD e h v = bind_res (IsComplex e h v) (\<lambda>b. guard (\<not> b) Runtime_error)"

definition Contains_tag :: "validator \<Rightarrow> string \<Rightarrow> bool" where
  "Contains_tag v tag \<longleftrightarrow> (\<exists>b\<in>set (val_bands v). contains (band_name b) tag)"

definition IsMultiSwath :: "validator \<Rightarrow> bool" where
  "IsMultiSwath v \<longleftrightarrow>
     Contains_tag v ''IW1'' \<and> Contains_tag v ''IW2'' \<or> Contains_tag v ''EW1'' \<and> Contains_tag v ''EW2''"

definition IsSentinel1Product :: "'p env \<Rightarrow> heap \<Rightarrow> validator \<Rightarrow> bool res" where
  "IsSentinel1Product e h v =
     bind_res (attr_string e h (val_abs_root v) MISSION) (\<lambda>m. Inr (starts_with m ''SENTINEL-1''))"

definition CheckIfSentinel1Product :: "'p env \<Rightarrow> heap \<Rightarrow> validator \<Rightarrow> unit res" where
  "CheckIfSentinel1Product e h v = bind_res (IsSentinel1Product e h v) (\<lambda>b. guard b Runtime_error)"

definition CheckMission :: "'p env \<Rightarrow> heap \<Rightarrow> validator \<Rightarrow> string list \<Rightarrow> unit res" where
  "CheckMission e h v valid_missions =
     bind_res (deref (val_abs_root v)) (\<lambda>a.
     bind_res (GetAttributeString_default e a MISSION [] h) (\<lambda>m.
       guard (\<exists>x\<in>set valid_missions. starts_with (map to_upper m) (map to_upper x)) Runtime_error))"

definition CheckProductType :: "'p env \<Rightarrow> heap \<Rightarrow> validator \<Rightarrow> string list \<Rightarrow> unit res" where
  "CheckProductType e h v valid_product_types =
     bind_res (deref (val_abs_root v)) (\<lambda>a.
     bind_res (GetAttributeString_default e a PRODUCT_TYPE [] h) (\<lambda>t. guard (t \<in> set valid_product_types) Runtime_error))"

definition CheckAcquisitionMode :: "'p env \<Rightarrow> heap \<Rightarrow> validator \<Rightarrow> string list \<Rightarrow> unit res" where
  "CheckAcquisitionMode e h v valid_modes =
     bind_res (attr_string e h (val_abs_root v) ACQUISITION_MODE) (\<lambda>m. guard (m \<in> set valid_modes) Runtime_error)"

definition IsTOPSARProduct :: "'p env \<Rightarrow> heap \<Rightarrow> validator \<Rightarrow> bool res" where
  "IsTOPSARProduct e h v =
     bind_res (case val_abs_root v of None \<Rightarrow> Inr [] | Some a \<Rightarrow> GetAttributeString_default e a MISSION [] h) (\<lambda>m.
       Inr ((starts_with m ''SENTINEL-1'' \<or> starts_with m ''RS2'') \<and>
            (\<exists>tag\<in>set [''IW1'', ''IW2'', ''IW3'', ''EW1'', ''EW2'', ''EW3'', ''EW4'', ''EW5'']. Contains_tag v tag)))"

fun no_bursts_left :: "'p env \<Rightarrow> heap \<Rightarrow> ref list \<Rightarrow> bool res" where
  "no_bursts_left e h [] = Inr True"
| "no_bursts_left e h (elem # elems) =
     bind_res (child e h (Some elem) ''product'') (\<lambda>product.
       if product = None then no_bursts_left e h elems
       else
         bind_res (child e h product ''swathTiming'') (\<lambda>swath_timing.
         bind_res (child e h swath_timing ''burstList'') (\<lambda>burst_list.
         bind_res (attr_stoi e h burst_list ''count'') (\<lambda>n.
           if n \<noteq> 0 then Inr False else no_bursts_left e h elems))))"

definition IsDebursted :: "'p env \<Rightarrow> heap \<Rightarrow> validator \<Rightarrow> bool res" where
  "IsDebursted e h v =
     bind_res (IsSentinel1Product e h v) (\<lambda>b.
       if \<not> b then Inr True
       else
         bind_res (GetOriginalProductMetadata e (val_product v) h) (\<lambda>orig_prod_root.
         bind_res (GetElement e orig_prod_root ''annotation'' h) (\<lambda>annotation.
           case annotation of
             None \<Rightarrow> Inr True
           | Some a \<Rightarrow> bind_res (GetElements a h) (no_bursts_left e h))))"

definition CheckIfTOPSARBurstProduct :: "'p env \<Rightarrow> heap \<Rightarrow> validator \<Rightarrow> bool \<Rightarrow> unit res" where
  "CheckIfTOPSARBurstProduct e h v shouldbe =
     bind_res (IsTOPSARProduct e h v) (\<lambda>is_topsar_product.
     bind_res (guard (\<not> (shouldbe \<and> \<not> is_topsar_product)) Runtime_error) (\<lambda>_.
     bind_res (if shouldbe then bind_res (IsDebursted e h v) (\<lambda>d. guard (\<not> d) Runtime_error) else Inr ()) (\<lambda>_.
       if \<not> shouldbe \<and> is_topsar_product then bind_res (IsDebursted e h v) (\<lambda>d. guard d Runtime_error)
       else Inr ())))"

definition CheckIfMultiSwathTOPSARProduct :: "validator \<Rightarrow> unit res" where
  "CheckIfMultiSwathTOPSARProduct v = guard (IsMultiSwath v) Runtime_error"

definition counts_for_full_pol :: "band_values \<Rightarrow> bool res" where
  "counts_for_full_pol b =
     (if GetUnitType b = REAL \<or> GetUnitType b = IMAGINARY then
        bind_res (GetPolarizationFromBandName (band_name b)) (\<lambda>pol.
          Inr (pol \<noteq> [] \<and>
               (contains pol ''hh'' \<or> contains pol ''hv'' \<or> contains pol ''vh'' \<or> contains pol ''vv'')))
      else Inr False)"

definition IsFullPolSLC :: "validator \<Rightarrow> bool res" where
  "IsFullPolSLC v =
     bind_res (map_res counts_for_full_pol (val_bands v)) (\<lambda>bs. Inr (length (filter (\<lambda>b. b) bs) = 8))"

definition CheckIfQuadPolSLC :: "validator \<Rightarrow> unit res" where
  "CheckIfQuadPolSLC v = bind_res (IsFullPolSLC v) (\<lambda>b. guard b Runtime_error)"

definition IsCalibrated :: "'p env \<Rightarrow> heap \<Rightarrow> validator \<Rightarrow> bool res" where
  "IsCalibrated e h v =
     (case val_abs_root v of
        None \<Rightarrow> Inr False
      | Some a \<Rightarrow>
          bind_res (GetAttribute e a ABS_CALIBRATION_FLAG h) (\<lambda>att.
          bind_res (deref att) (\<lambda>k.
          bind_res (attribute_data h k) (\<lambda>(_, _, pd). GetElemBooleanAt (casts e) pd 0))))"

definition CheckIfCalibrated :: "'p env \<Rightarrow> heap \<Rightarrow> validator \<Rightarrow> bool \<Rightarrow> unit res" where
  "CheckIfCalibrated e h v should_be =
     bind_res (IsCalibrated e h v) (\<lambda>is_calibrated.
     bind_res (guard (\<not> (\<not> should_be \<and> is_calibrated)) Runtime_error) (\<lambda>_.
       guard (\<not> (should_be \<and> \<not> is_calibrated)) Runtime_error))"

definition CheckIfTanDEMXProduct :: "'p env \<Rightarrow> heap \<Rightarrow> validator \<Rightarrow> unit res" where
  "CheckIfTanDEMXProduct e h v =
     bind_res (case val_abs_root v of None \<Rightarrow> Inr [] | Some a \<Rightarrow> GetAttributeString e a MISSION h) (\<lambda>m.
       guard (starts_with m ''TDM'') Runtime_error)"

text \<open>A product that passes as one with bursts is refused as one without, and conversely.\<close>

lemma topsar_burst_exclusive:
  assumes "CheckIfTOPSARBurstProduct e h v True = Inr ()"
  shows "CheckIfTOPSARBurstProduct e h v False = Inl Runtime_error"
  using assms by (auto simp: CheckIfTOPSARBurstProduct_def bind_res_Inr_iff guard_Inr_iff)

lemma slc_grd_exclusive:
  "CheckIfSLC e h v = Inr () \<Longrightarrow> CheckIfGRD e h v = Inl Runtime_error"
  "CheckIfGRD e h v = Inr () \<Longrightarrow> CheckIfSLC e h v = Inl Runtime_error"
  by (auto simp: CheckIfSLC_def CheckIfGRD_def bind_res_Inr_iff guard_Inr_iff)

section \<open>Polarizations\<close>

text \<open>The tags of polarizations that a band name has.\<close>

definition polarizations :: "string list" where
  "polarizations = [''hh'', ''vv'', ''hv'', ''vh'', ''rh'', ''rv'', ''rch'', ''rcv'']"

definition polarization_tags :: "string \<Rightarrow> string list" where
  "polarization_tags name = filter (\<lambda>p. contains (map to_lower name) (''_'' @ p)) polarizations"

text \<open>
  The polarization of a band: a name with exactly one of the eight polarization tags gives that one, a
  name with none gives the empty text, and a name with two or more is refused; the case of the letters
  does not matter.
\<close>
theorem GetPolarizationFromBandName_spec:
  "GetPolarizationFromBandName name =
     (case polarization_tags name of
        [] \<Rightarrow> Inr []
      | [p] \<Rightarrow> Inr p
      | _ \<Rightarrow> Inl Runtime_error)"
proof -
  have "concat (polarization_tags name) =
      (let s = map to_lower name
       in (if contains s ''_hh'' then ''hh'' else []) @
          (if contains s ''_vv'' then ''vv'' else []) @
          (if contains s ''_hv'' then ''hv'' else []) @
          (if contains s ''_vh'' then ''vh'' else []) @
          (if contains s ''_rh'' then ''rh'' else []) @
          (if contains s ''_rv'' then ''rv'' else []) @
          (if contains s ''_rch'' then ''rch'' else []) @
          (if contains s ''_rcv'' then ''rcv'' else []))"
    by (simp add: polarization_tags_def polarizations_def Let_def)
  then have g: "GetPolarizationFromBandName name =
      (let pol = concat (polarization_tags name)
       in if 2 \<le> length pol \<and> length pol \<le> 3 then Inr pol
          else if length pol > 3 then Inl Runtime_error else Inr [])"
    unfolding GetPolarizationFromBandName_def by (simp only: Let_def)
  have tag: "length p = 2 \<or> length p = 3" if "p \<in> set (polarization_tags name)" for p
  proof -
    have "p \<in> set polarizations" using that by (simp only: polarization_tags_def filter_is_subset [THEN subsetD])
    then show ?thesis by (auto simp: polarizations_def)
  qed
  show ?thesis
  proof (cases "polarization_tags name")
    case Nil
    then show ?thesis by (simp add: g)
  next
    case (Cons p ps)
    show ?thesis
    proof (cases ps)
      case Nil
      then show ?thesis using Cons tag [of p] by (auto simp: g Let_def)
    next
      case (Cons q qs)
      then have "length p \<ge> 2" "length q \<ge> 2" using \<open>polarization_tags name = p # ps\<close> tag by fastforce+
      then show ?thesis using \<open>polarization_tags name = p # ps\<close> Cons by (simp add: g Let_def)
    qed
  qed
qed

section \<open>Units that are not told apart\<close>

lemma find_sub_iff: "find_sub d s \<noteq> None \<longleftrightarrow> (\<exists>u v. s = u @ d @ v)"
proof
  assume "find_sub d s \<noteq> None"
  then obtain p where "find_sub d s = Some p" by auto
  from find_sub_Some [OF this] have "s = take p s @ d @ drop (length d) (drop p s)"
    by (metis append_take_drop_id)
  then show "\<exists>u v. s = u @ d @ v" by blast
next
  assume "\<exists>u v. s = u @ d @ v"
  then obtain u v where s: "s = u @ d @ v" by blast
  show "find_sub d s \<noteq> None"
    unfolding s
  proof (induction u)
    case Nil
    show ?case by (cases "d @ v") (auto simp: append_eq_Cons_conv)
  next
    case (Cons c u)
    then show ?case by auto
  qed
qed

lemma contains_iff: "contains s d \<longleftrightarrow> (\<exists>u v. s = u @ d @ v)"
  by (simp only: contains_def find_sub_iff)

lemma contains_part: "contains s (a @ b @ c) \<Longrightarrow> contains s b"
  unfolding contains_iff by (metis append.assoc)

text \<open>
  Two kinds of units are never found: whatever the unit of a band is, it is not classified as absolute
  phase or as centimetres, since the tests for phase and metres come first and accept these units.
\<close>
theorem GetUnitType_never:
  "GetUnitType b \<noteq> ABS_PHASE \<and> GetUnitType b \<noteq> CENTIMETERS"
  using contains_part [of _ "''abs_''" "''phase''" "[]"] contains_part [of _ "''centi''" "''meters''" "[]"]
  by (auto simp: GetUnitType_def Let_def split: option.split)

end
