(* ===== verification/GeoIndex.thy ===== *)
theory GeoIndex
  imports SubSwath
begin

text \<open>
  Positions in a sub-swath's grid of geolocation points (\<^verbatim>\<open>sentinel1_utils.cc\<close>): \<open>ComputeIndex\<close> looks for the
  cell around a pair of slant range time and azimuth time, the \<open>Get...Value\<close> functions interpolate one of
  the grids in that cell.
\<close>

record sentinel1_index =
  i0 :: int
  i1 :: int
  j0 :: int
  j1 :: int
  mu_x :: fp
  mu_y :: fp

section \<open>The search\<close>

fun column_of :: "sub_swath_info \<Rightarrow> fp \<Rightarrow> int list \<Rightarrow> (int \<times> int) res" where
  "column_of s x [] = Inr (-1, -1)"
| "column_of s x (j # js) =
     bind_res (cell_at (slant_range_time s) 0 j) (\<lambda>left.
     bind_res
       (if fle left x then bind_res (cell_at (slant_range_time s) 0 (j + 1)) (\<lambda>right. Inr (flt x right))
        else Inr False) (\<lambda>found.
       if found then Inr (j, j + 1) else column_of s x js))"

definition find_column :: "sub_swath_info \<Rightarrow> fp \<Rightarrow> (int \<times> int) res" where
  "find_column s x =
     bind_res (cell_at (slant_range_time s) 0 0) (\<lambda>first.
     if flt x first then Inr (0, 1)
     else
       bind_res (cell_at (slant_range_time s) 0 (num_of_geo_points_per_line s - 1)) (\<lambda>last.
       if flt last x then Inr (num_of_geo_points_per_line s - 2, num_of_geo_points_per_line s - 1)
       else column_of s x [0..num_of_geo_points_per_line s - 2]))"

text \<open>The value between two columns of one line: \<open>(1 - mu) * a[i][j0] + mu * a[i][j1]\<close>.\<close>

definition between :: "fp \<Rightarrow> fp \<Rightarrow> fp \<Rightarrow> fp" where
  "between mu a b = fadd f64 (fmul f64 (fsub f64 (Fin 1) mu) a) (fmul f64 mu b)"

definition line_value :: "fp array2 option \<Rightarrow> int \<Rightarrow> int \<Rightarrow> int \<Rightarrow> fp \<Rightarrow> fp res" where
  "line_value p i c0 c1 mu =
     bind_res (cell_at p i c0) (\<lambda>a. bind_res (cell_at p i c1) (\<lambda>b. Inr (between mu a b)))"

fun row_of :: "sub_swath_info \<Rightarrow> fp \<Rightarrow> int \<Rightarrow> int \<Rightarrow> fp \<Rightarrow> int list \<Rightarrow> (int \<times> int \<times> fp) res" where
  "row_of s t c0 c1 mu [] = Inr (-1, -1, Fin 0)"
| "row_of s t c0 c1 mu (i # js) =
     bind_res (line_value (azimuth_time s) i c0 c1 mu) (\<lambda>i0_az_time.
     bind_res (line_value (azimuth_time s) (i + 1) c0 c1 mu) (\<lambda>i1_az_time.
       if i = 0 \<and> flt t i0_az_time \<or>
          i = num_of_geo_lines s - 2 \<and> fge t i1_az_time \<or>
          fle i0_az_time t \<and> fgt i1_az_time t
       then Inr (i, i + 1, fdiv f64 (fsub f64 t i0_az_time) (fsub f64 i1_az_time i0_az_time))
       else row_of s t c0 c1 mu js))"

definition ComputeIndex :: "sub_swath_info \<Rightarrow> fp \<Rightarrow> fp \<Rightarrow> sentinel1_index res" where
  "ComputeIndex s t x =
     bind_res (find_column s x) (\<lambda>(c0, c1).
     bind_res (cell_at (slant_range_time s) 0 c0) (\<lambda>left.
     bind_res (cell_at (slant_range_time s) 0 c1) (\<lambda>right.
     let mu = fdiv f64 (fsub f64 x left) (fsub f64 right left)
     in bind_res (row_of s t c0 c1 mu [0..num_of_geo_lines s - 2]) (\<lambda>(r0, r1, mu').
          Inr \<lparr>i0 = r0, i1 = r1, j0 = c0, j1 = c1, mu_x = mu, mu_y = mu'\<rparr>))))"

section \<open>Interpolation\<close>

definition grid_value :: "fp array2 option \<Rightarrow> sentinel1_index \<Rightarrow> fp res" where
  "grid_value p k =
     bind_res (cell_at p (i0 k) (j0 k)) (\<lambda>v00.
     bind_res (cell_at p (i0 k) (j1 k)) (\<lambda>v01.
     bind_res (cell_at p (i1 k) (j0 k)) (\<lambda>v10.
     bind_res (cell_at p (i1 k) (j1 k)) (\<lambda>v11.
       Inr (between (mu_y k) (between (mu_x k) v00 v01) (between (mu_x k) v10 v11))))))"

definition GetLatitudeValue :: "sentinel1_index \<Rightarrow> sub_swath_info \<Rightarrow> fp res" where
  "GetLatitudeValue k s = grid_value (latitude s) k"

definition GetLongitudeValue :: "sentinel1_index \<Rightarrow> sub_swath_info \<Rightarrow> fp res" where
  "GetLongitudeValue k s = grid_value (longitude s) k"

definition GetSlantRangeTimeValue :: "sentinel1_index \<Rightarrow> sub_swath_info \<Rightarrow> fp res" where
  "GetSlantRangeTimeValue k s = grid_value (slant_range_time s) k"

definition GetIncidenceAngleValue :: "sentinel1_index \<Rightarrow> sub_swath_info \<Rightarrow> fp res" where
  "GetIncidenceAngleValue k s = grid_value (incidence_angle s) k"

definition GetLatitude :: "fp \<Rightarrow> fp \<Rightarrow> sub_swath_info \<Rightarrow> fp res" where
  "GetLatitude t x s = bind_res (ComputeIndex s t x) (\<lambda>k. GetLatitudeValue k s)"

definition GetLongitude :: "fp \<Rightarrow> fp \<Rightarrow> sub_swath_info \<Rightarrow> fp res" where
  "GetLongitude t x s = bind_res (ComputeIndex s t x) (\<lambda>k. GetLongitudeValue k s)"

definition GetSlantRangeTime :: "fp \<Rightarrow> fp \<Rightarrow> sub_swath_info \<Rightarrow> fp res" where
  "GetSlantRangeTime t x s = bind_res (ComputeIndex s t x) (\<lambda>k. GetSlantRangeTimeValue k s)"

definition GetIncidenceAngle :: "fp \<Rightarrow> fp \<Rightarrow> sub_swath_info \<Rightarrow> fp res" where
  "GetIncidenceAngle t x s = bind_res (ComputeIndex s t x) (\<lambda>k. GetIncidenceAngleValue k s)"

section \<open>Grids that were filled\<close>

text \<open>Every cell of the grid was written, with \<open>f\<close> giving the numbers.\<close>

definition filled :: "fp array2 option \<Rightarrow> int \<Rightarrow> int \<Rightarrow> (int \<Rightarrow> int \<Rightarrow> fp) \<Rightarrow> bool" where
  "filled p n m f \<longleftrightarrow>
     (\<forall>i\<in>{0..<n}. \<forall>j\<in>{0..<m}. cell_at p i j = Inr (f i j) \<and> f i j \<noteq> NaN)"

lemma filled_cell: "filled p n m f \<Longrightarrow> 0 \<le> i \<Longrightarrow> i < n \<Longrightarrow> 0 \<le> j \<Longrightarrow> j < m \<Longrightarrow> cell_at p i j = Inr (f i j)"
  by (simp add: filled_def)

lemma filled_number: "filled p n m f \<Longrightarrow> 0 \<le> i \<Longrightarrow> i < n \<Longrightarrow> 0 \<le> j \<Longrightarrow> j < m \<Longrightarrow> f i j \<noteq> NaN"
  by (simp add: filled_def)

lemma upto_step: "a \<le> b \<Longrightarrow> [a..b] = a # [a + 1..b]"
  by (simp add: upto_rec1)

lemma column_of_found:
  assumes f: "filled (slant_range_time s) n m f" "0 < n"
    and k: "0 \<le> k" "k \<le> m - 2" and "fle (f 0 k) x" and "flt x (f 0 (m - 1))"
  shows "\<exists>j. k \<le> j \<and> j \<le> m - 2 \<and> column_of s x [k..m - 2] = Inr (j, j + 1) \<and> fle (f 0 j) x \<and> flt x (f 0 (j + 1))"
  using k assms(5)
proof (induction "nat (m - k)" arbitrary: k rule: less_induct)
  case less
  have c: "cell_at (slant_range_time s) 0 k = Inr (f 0 k)" "cell_at (slant_range_time s) 0 (k + 1) = Inr (f 0 (k + 1))"
    "f 0 (k + 1) \<noteq> NaN"
    using less.prems f by (simp_all add: filled_def)
  have here: "column_of s x [k..m - 2] = (if flt x (f 0 (k + 1)) then Inr (k, k + 1) else column_of s x [k + 1..m - 2])"
    using less.prems(2,3) c by (simp add: upto_step)
  show ?case
  proof (cases "flt x (f 0 (k + 1))")
    case True
    then show ?thesis using less.prems here by (intro exI [of _ k]) simp
  next
    case False
    have "x \<noteq> NaN" using less.prems(3) fle_not_NaN by blast
    then have le: "fle (f 0 (k + 1)) x" using False c(3) by (simp add: not_flt_iff)
    have "k + 1 \<noteq> m - 1" using False assms(6) by metis
    then have "k + 1 \<le> m - 2" using less.prems by simp
    then obtain j where "k + 1 \<le> j \<and> j \<le> m - 2 \<and> column_of s x [k + 1..m - 2] = Inr (j, j + 1) \<and> fle (f 0 j) x \<and> flt x (f 0 (j + 1))"
      using less.hyps [of "k + 1"] less.prems le by auto
    then show ?thesis using here False by (intro exI [of _ j]) auto
  qed
qed

lemma column_of_none:
  assumes "filled (slant_range_time s) n m f" and "0 < n" and "\<forall>j\<in>set js. 0 \<le> j \<and> j < m - 1"
    and "\<forall>j\<in>set js. \<not> (fle (f 0 j) x \<and> flt x (f 0 (j + 1)))"
  shows "column_of s x js = Inr (-1, -1)"
  using assms(3,4)
proof (induction js)
  case (Cons j js)
  then have "cell_at (slant_range_time s) 0 j = Inr (f 0 j)" "cell_at (slant_range_time s) 0 (j + 1) = Inr (f 0 (j + 1))"
    using assms(1,2) by (simp_all add: filled_def)
  then show ?case using Cons by auto
qed simp

text \<open>The search over the lines, with \<open>a i\<close> the azimuth time of line \<open>i\<close> between the two columns.\<close>

lemma row_of_found:
  assumes a: "\<forall>i\<in>{0..<n}. line_value (azimuth_time s) i c0 c1 mu = Inr (a i) \<and> a i \<noteq> NaN"
    and n: "num_of_geo_lines s = n" and t: "t \<noteq> NaN"
    and k: "0 \<le> k" "k \<le> n - 2" and "k = 0 \<or> fle (a k) t"
  shows "\<exists>i. k \<le> i \<and> i \<le> n - 2 \<and>
           row_of s t c0 c1 mu [k..n - 2] = Inr (i, i + 1, fdiv f64 (fsub f64 t (a i)) (fsub f64 (a (i + 1)) (a i))) \<and>
           (i = 0 \<and> flt t (a i) \<or> i = n - 2 \<and> fle (a (i + 1)) t \<or> fle (a i) t \<and> flt t (a (i + 1)))"
  using k assms(6)
proof (induction "nat (n - k)" arbitrary: k rule: less_induct)
  case less
  have c: "line_value (azimuth_time s) k c0 c1 mu = Inr (a k)" "a k \<noteq> NaN"
    "line_value (azimuth_time s) (k + 1) c0 c1 mu = Inr (a (k + 1))" "a (k + 1) \<noteq> NaN"
    using less.prems a by simp_all
  let ?hit = "k = 0 \<and> flt t (a k) \<or> k = n - 2 \<and> fle (a (k + 1)) t \<or> fle (a k) t \<and> flt t (a (k + 1))"
  have here: "row_of s t c0 c1 mu [k..n - 2] =
      (if ?hit then Inr (k, k + 1, fdiv f64 (fsub f64 t (a k)) (fsub f64 (a (k + 1)) (a k)))
       else row_of s t c0 c1 mu [k + 1..n - 2])"
    using less.prems c by (simp add: upto_step n)
  have below: "k = 0 \<or> fle (a k) t" by (rule less.prems(3))
  show ?case
  proof (cases ?hit)
    case True
    then show ?thesis using here less.prems(2) by (intro exI [of _ k]) simp
  next
    case False
    then have "fle (a k) t" using below t c(2) not_flt_iff by blast
    then have up: "fle (a (k + 1)) t" using False t c(4) not_flt_iff by blast
    then have "k \<noteq> n - 2" using False by blast
    then have "k + 1 \<le> n - 2" using less.prems by simp
    then obtain i where "k + 1 \<le> i \<and> i \<le> n - 2 \<and>
           row_of s t c0 c1 mu [k + 1..n - 2] = Inr (i, i + 1, fdiv f64 (fsub f64 t (a i)) (fsub f64 (a (i + 1)) (a i))) \<and>
           (i = 0 \<and> flt t (a i) \<or> i = n - 2 \<and> fle (a (i + 1)) t \<or> fle (a i) t \<and> flt t (a (i + 1)))"
      using less.hyps [of "k + 1"] less.prems up by auto
    then show ?thesis using here False by (intro exI [of _ i]) auto
  qed
qed

section \<open>Which cell is found\<close>

definition column_weight :: "(int \<Rightarrow> int \<Rightarrow> fp) \<Rightarrow> int \<Rightarrow> fp \<Rightarrow> fp" where
  "column_weight f j x = fdiv f64 (fsub f64 x (f 0 j)) (fsub f64 (f 0 (j + 1)) (f 0 j))"

text \<open>The grids of slant range times \<open>f\<close> and azimuth times \<open>g\<close>, with a number between any two columns.\<close>

definition search_grids :: "sub_swath_info \<Rightarrow> (int \<Rightarrow> int \<Rightarrow> fp) \<Rightarrow> (int \<Rightarrow> int \<Rightarrow> fp) \<Rightarrow> fp \<Rightarrow> bool" where
  "search_grids s f g x \<longleftrightarrow>
     2 \<le> num_of_geo_lines s \<and> 2 \<le> num_of_geo_points_per_line s \<and>
     filled (slant_range_time s) (num_of_geo_lines s) (num_of_geo_points_per_line s) f \<and>
     filled (azimuth_time s) (num_of_geo_lines s) (num_of_geo_points_per_line s) g \<and>
     (\<forall>i\<in>{0..<num_of_geo_lines s}. \<forall>j\<in>{0..<num_of_geo_points_per_line s - 1}.
        between (column_weight f j x) (g i j) (g i (j + 1)) \<noteq> NaN)"

lemma find_column_spec:
  assumes g: "search_grids s f g x" and x: "x \<noteq> NaN" "x \<noteq> f 0 (num_of_geo_points_per_line s - 1)"
  obtains j where "find_column s x = Inr (j, j + 1)" and "0 \<le> j" and "j \<le> num_of_geo_points_per_line s - 2"
    and "j = 0 \<and> flt x (f 0 0) \<or> j = num_of_geo_points_per_line s - 2 \<and> flt (f 0 (j + 1)) x \<or>
         fle (f 0 j) x \<and> flt x (f 0 (j + 1))"
proof -
  let ?m = "num_of_geo_points_per_line s"
  have f: "filled (slant_range_time s) (num_of_geo_lines s) ?m f" and n: "2 \<le> num_of_geo_lines s" "2 \<le> ?m"
    using g by (simp_all add: search_grids_def)
  have c: "cell_at (slant_range_time s) 0 0 = Inr (f 0 0)" "cell_at (slant_range_time s) 0 (?m - 1) = Inr (f 0 (?m - 1))"
    "f 0 0 \<noteq> NaN" "f 0 (?m - 1) \<noteq> NaN"
    using f n by (simp_all add: filled_def)
  consider (low) "flt x (f 0 0)" | (high) "\<not> flt x (f 0 0)" "flt (f 0 (?m - 1)) x"
    | (mid) "fle (f 0 0) x" "flt x (f 0 (?m - 1))"
    using x c(3,4) not_flt_iff fle_antisym by metis
  then show thesis
  proof cases
    case low
    then show thesis using c n by (intro that [of 0]) (simp_all add: find_column_def)
  next
    case high
    then show thesis using c n by (intro that [of "?m - 2"]) (simp_all add: find_column_def)
  next
    case mid
    then have no: "\<not> flt x (f 0 0)" "\<not> flt (f 0 (?m - 1)) x" using flt_less fle_less_eq by auto
    obtain j where "0 \<le> j \<and> j \<le> ?m - 2 \<and> column_of s x [0..?m - 2] = Inr (j, j + 1) \<and> fle (f 0 j) x \<and> flt x (f 0 (j + 1))"
      using column_of_found [OF f _ _ _ mid] n by auto
    then show thesis using c no by (intro that [of j]) (simp_all add: find_column_def)
  qed
qed

lemma ComputeIndex_cell:
  assumes "search_grids s f g x" and "x \<noteq> NaN" and "t \<noteq> NaN"
    and "x \<noteq> f 0 (num_of_geo_points_per_line s - 1)"
  shows "\<exists>k a. ComputeIndex s t x = Inr k \<and>
           0 \<le> j0 k \<and> j1 k = j0 k + 1 \<and> j1 k < num_of_geo_points_per_line s \<and>
           0 \<le> i0 k \<and> i1 k = i0 k + 1 \<and> i1 k < num_of_geo_lines s \<and>
           mu_x k = column_weight f (j0 k) x \<and>
           (j0 k = 0 \<and> flt x (f 0 0) \<or> j1 k = num_of_geo_points_per_line s - 1 \<and> flt (f 0 (j1 k)) x \<or>
            fle (f 0 (j0 k)) x \<and> flt x (f 0 (j1 k))) \<and>
           (\<forall>i. a i = between (mu_x k) (g i (j0 k)) (g i (j1 k))) \<and>
           (i0 k = 0 \<and> flt t (a 0) \<or> i1 k = num_of_geo_lines s - 1 \<and> fle (a (i1 k)) t \<or>
            fle (a (i0 k)) t \<and> flt t (a (i1 k))) \<and>
           mu_y k = fdiv f64 (fsub f64 t (a (i0 k))) (fsub f64 (a (i1 k)) (a (i0 k)))"
proof -
  let ?m = "num_of_geo_points_per_line s" and ?n = "num_of_geo_lines s"
  obtain j where j: "find_column s x = Inr (j, j + 1)" "0 \<le> j" "j \<le> ?m - 2"
    "j = 0 \<and> flt x (f 0 0) \<or> j = ?m - 2 \<and> flt (f 0 (j + 1)) x \<or> fle (f 0 j) x \<and> flt x (f 0 (j + 1))"
    using find_column_spec [OF assms(1,2,4)] by blast
  let ?mu = "column_weight f j x"
  define a where "a = (\<lambda>i. between ?mu (g i j) (g i (j + 1)))"
  have c: "cell_at (slant_range_time s) 0 j = Inr (f 0 j)" "cell_at (slant_range_time s) 0 (j + 1) = Inr (f 0 (j + 1))"
    using assms(1) j by (simp_all add: search_grids_def filled_def)
  have "\<forall>i\<in>{0..<?n}. line_value (azimuth_time s) i j (j + 1) ?mu = Inr (a i) \<and> a i \<noteq> NaN"
    using assms(1) j by (simp add: search_grids_def filled_def line_value_def a_def)
  from row_of_found [OF this refl assms(3), of 0] assms(1)
  obtain i where i: "0 \<le> i" "i \<le> ?n - 2"
    "row_of s t j (j + 1) ?mu [0..?n - 2] = Inr (i, i + 1, fdiv f64 (fsub f64 t (a i)) (fsub f64 (a (i + 1)) (a i)))"
    "i = 0 \<and> flt t (a i) \<or> i = ?n - 2 \<and> fle (a (i + 1)) t \<or> fle (a i) t \<and> flt t (a (i + 1))"
    by (auto simp: search_grids_def)
  let ?k = "\<lparr>i0 = i, i1 = i + 1, j0 = j, j1 = j + 1, mu_x = ?mu, mu_y = fdiv f64 (fsub f64 t (a i)) (fsub f64 (a (i + 1)) (a i))\<rparr>"
  have "ComputeIndex s t x = Inr ?k"
    using j(1) c i(3) by (simp add: ComputeIndex_def column_weight_def)
  then show ?thesis using i j
    by (intro exI [of _ ?k] exI [of _ a])
      (auto simp: a_def)
qed

lemma grid_value_defined:
  assumes "filled p n m f" and "0 \<le> i0 k" "i1 k = i0 k + 1" "i1 k < n" "0 \<le> j0 k" "j1 k = j0 k + 1" "j1 k < m"
  shows "grid_value p k =
    Inr (between (mu_y k) (between (mu_x k) (f (i0 k) (j0 k)) (f (i0 k) (j1 k)))
                          (between (mu_x k) (f (i1 k) (j0 k)) (f (i1 k) (j1 k))))"
  using assms by (simp add: grid_value_def filled_def)

text \<open>
  C23. Positions in the grid: for grids with at least two lines and two points per line the search always
  finds a cell, except at the slant range time of the last point. The cell has adjacent columns and
  adjacent lines of the grid; it is the one whose slant range times enclose the given one, or the first or
  last one when the given time lies before or after all of them, and likewise for the azimuth times along
  the line between the two columns. The weights are the fractions of the slant range time between the two
  columns and of the azimuth time between the two lines, and every grid that was filled gives the value that
  the two weights interpolate between its four cells.
\<close>
theorem ComputeIndex_brackets:
  assumes "search_grids s f g x" and "x \<noteq> NaN" and "t \<noteq> NaN"
    and "x \<noteq> f 0 (num_of_geo_points_per_line s - 1)"
  shows "\<exists>k a. ComputeIndex s t x = Inr k \<and>
           0 \<le> j0 k \<and> j1 k = j0 k + 1 \<and> j1 k < num_of_geo_points_per_line s \<and>
           0 \<le> i0 k \<and> i1 k = i0 k + 1 \<and> i1 k < num_of_geo_lines s \<and>
           mu_x k = column_weight f (j0 k) x \<and>
           (j0 k = 0 \<and> flt x (f 0 0) \<or> j1 k = num_of_geo_points_per_line s - 1 \<and> flt (f 0 (j1 k)) x \<or>
            fle (f 0 (j0 k)) x \<and> flt x (f 0 (j1 k))) \<and>
           (\<forall>i. a i = between (mu_x k) (g i (j0 k)) (g i (j1 k))) \<and>
           (i0 k = 0 \<and> flt t (a 0) \<or> i1 k = num_of_geo_lines s - 1 \<and> fle (a (i1 k)) t \<or>
            fle (a (i0 k)) t \<and> flt t (a (i1 k))) \<and>
           mu_y k = fdiv f64 (fsub f64 t (a (i0 k))) (fsub f64 (a (i1 k)) (a (i0 k))) \<and>
           (\<forall>p h. filled p (num_of_geo_lines s) (num_of_geo_points_per_line s) h \<longrightarrow>
              grid_value p k =
                Inr (between (mu_y k) (between (mu_x k) (h (i0 k) (j0 k)) (h (i0 k) (j1 k)))
                                      (between (mu_x k) (h (i1 k) (j0 k)) (h (i1 k) (j1 k)))))"
  using ComputeIndex_cell [OF assms] grid_value_defined by blast

text \<open>
  The last point of the grid: when the slant range times of the first line increase, the position with
  exactly the slant range time of its last point has no column, and the code then reads a column before
  the first one of the array.
\<close>
theorem ComputeIndex_last_point:
  assumes "search_grids s f g x" and "x = f 0 (num_of_geo_points_per_line s - 1)"
    and "\<forall>j\<in>{0..<num_of_geo_points_per_line s - 1}. flt (f 0 j) (f 0 (j + 1))"
  shows "ComputeIndex s t x = Inl Undefined_behaviour"
proof -
  let ?m = "num_of_geo_points_per_line s"
  have f: "filled (slant_range_time s) (num_of_geo_lines s) ?m f" and n: "2 \<le> num_of_geo_lines s" "2 \<le> ?m"
    using assms(1) by (simp_all add: search_grids_def)
  have up: "fle (f 0 j) x" if "0 \<le> j" "j \<le> ?m - 1" for j
    using that
  proof (induction "nat (?m - j)" arbitrary: j rule: less_induct)
    case less
    show ?case
    proof (cases "j = ?m - 1")
      case True
      then show ?thesis using filled_number [OF f, of 0 j] less.prems n by (simp add: assms(2))
    next
      case False
      then have "fle (f 0 (j + 1)) x" using less by simp
      moreover have "fle (f 0 j) (f 0 (j + 1))" using assms(3) less.prems False by (simp add: flt_imp_fle)
      ultimately show ?thesis using fle_trans by blast
    qed
  qed
  have no: "\<not> flt x (f 0 j)" if "0 \<le> j" "j \<le> ?m - 1" for j
    using up [OF that] by (auto simp: flt_less fle_less_eq)
  have c: "cell_at (slant_range_time s) 0 0 = Inr (f 0 0)" "cell_at (slant_range_time s) 0 (?m - 1) = Inr (f 0 (?m - 1))"
    using f n by (simp_all add: filled_def)
  have "column_of s x [0..?m - 2] = Inr (-1, -1)"
    using f n no by (intro column_of_none [where n = "num_of_geo_lines s" and m = ?m and f = f]) auto
  then have "find_column s x = Inr (-1, -1)"
    using c no [of 0] n by (simp add: find_column_def flip: assms(2))
  moreover have "cell_at (slant_range_time s) 0 (-1) = Inl Undefined_behaviour"
    using c(1) by (auto simp: cell_at_def cell_index_def split: option.splits)
  ultimately show ?thesis by (simp add: ComputeIndex_def)
qed

section \<open>Witnesses\<close>

definition sample_times :: "int \<Rightarrow> int \<Rightarrow> fp" where
  "sample_times i j = (if j = 0 then Fin 1 else Fin 2)"

definition sample_lines :: "int \<Rightarrow> int \<Rightarrow> fp" where
  "sample_lines i j = (if i = 0 then Fin 4 else Fin 8)"

definition sample_grids :: sub_swath_info where
  "sample_grids =
     SubSwathInfo\<lparr>num_of_geo_lines := 2, num_of_geo_points_per_line := 2,
       slant_range_time := Some \<lparr>a2_rows = 2, a2_cols = 2, a2_cells = map Some [Fin 1, Fin 2, Fin 1, Fin 2]\<rparr>,
       azimuth_time := Some \<lparr>a2_rows = 2, a2_cols = 2, a2_cells = map Some [Fin 4, Fin 4, Fin 8, Fin 8]\<rparr>\<rparr>"

lemma two: "{0..<2} = {0, 1 :: int}" "{0..<1} = {0 :: int}"
  by auto

lemma sample_between:
  assumes "x = Fin 1 \<or> x = Fin 2" and "y = Fin 4 \<or> y = Fin 8"
  shows "between (column_weight sample_times 0 x) y y \<noteq> NaN"
proof -
  have "fp_of_rat f64 (of_int k) = Fin (of_int k)" if "k \<in> {1, 4, 8}" for k
    using that f64_exact [of k 0] by auto
  from this [of 1] this [of 4] this [of 8] show ?thesis using assms
    by (auto simp: between_def column_weight_def sample_times_def fsub_def)
qed

lemma sample_search_grids:
  assumes "x = Fin 1 \<or> x = Fin 2"
  shows "search_grids sample_grids sample_times sample_lines x"
  using sample_between [OF assms, of "Fin 4"] sample_between [OF assms, of "Fin 8"]
  by (auto simp: search_grids_def sample_grids_def filled_def two cell_at_def cell_index_def sample_times_def
      sample_lines_def)

lemma ComputeIndex_brackets_witness:
  "\<exists>k. ComputeIndex sample_grids (Fin 5) (Fin 1) = Inr k \<and> j0 k = 0 \<and> i0 k = 0"
  using ComputeIndex_brackets [OF sample_search_grids [of "Fin 1"], of "Fin 5"]
  by (auto simp: sample_grids_def sample_times_def)

lemma ComputeIndex_last_point_witness:
  "ComputeIndex sample_grids (Fin 5) (Fin 2) = Inl Undefined_behaviour"
  by (rule ComputeIndex_last_point [OF sample_search_grids [of "Fin 2"]])
    (simp_all add: sample_grids_def sample_times_def two)

end
