(* ===== verification/CalibrationVectors.thy ===== *)
theory CalibrationVectors
  imports SubSwath StringUtils
begin

text \<open>
  Arrays of numbers in the metadata and the calibration vectors made of them (\<^verbatim>\<open>sentinel1_utils.cc\<close>,
  \<^verbatim>\<open>calibration_vector.h\<close>). Numbers separated by white space are read with \<open>std::istringstream\<close>, whose number
  extraction is described as libstdc++ does it: the longest text that can start a number is taken, and the
  extraction fails when it is not one or is out of range. The loop stops at the first failure and throws
  unless the end of the text was reached.
\<close>

section \<open>Extracting numbers from a stream\<close>

text \<open>The characters the extraction takes, and the rest.\<close>

definition integer_token :: "string \<Rightarrow> nat" where
  "integer_token s = length s - length (dropWhile is_digit (snd (skip_sign s)))"

definition exponent_length :: "string \<Rightarrow> nat" where
  "exponent_length s =
     (case s of
        [] \<Rightarrow> 0
      | c # cs \<Rightarrow> if to_lower c = CHR ''e'' then Suc (integer_token cs) else 0)"

definition real_token :: "string \<Rightarrow> nat" where
  "real_token s =
     (let r = snd (skip_sign s); whole = takeWhile is_digit r; r1 = dropWhile is_digit r;
          (frac, r2) = (case r1 of
              [] \<Rightarrow> ([], [])
            | c # cs \<Rightarrow> if c = CHR ''.'' then (takeWhile is_digit cs, dropWhile is_digit cs) else ([], r1))
      in length s - length r2 + (if whole @ frac = [] then 0 else exponent_length r2))"

text \<open>The number a token stands for.\<close>

definition integer_value :: "string \<Rightarrow> int option" where
  "integer_value token =
     (case strto token of
        None \<Rightarrow> None
      | Some (neg, m) \<Rightarrow> let v = (if neg then - int m else int m) in if int32_range v then Some v else None)"

definition float_value :: "string \<Rightarrow> fp option" where
  "float_value token =
     (let (neg, r) = skip_sign token
      in case mantissa 10 r of
           None \<Rightarrow> None
         | Some (m, e) \<Rightarrow>
             if e \<noteq> [] \<and> snd (skip_sign (tl e)) = [] then None
             else let x = m * 10 powi exponent CHR ''e'' e
                  in (case fp_of_rat f32 (if neg then - x else x) of Fin y \<Rightarrow> Some (Fin y) | _ \<Rightarrow> None))"

text \<open>The loop \<open>while (stream >> value) values.push_back(value)\<close> and the check behind it.\<close>

function stream_values :: "(string \<Rightarrow> nat) \<Rightarrow> (string \<Rightarrow> 'a option) \<Rightarrow> string \<Rightarrow> 'a list res" where
  "stream_values token conv s =
     (let t = dropWhile is_space s; n = token t; at_end = length t \<le> n
      in case (if n = 0 then None else conv (take n t)) of
           None \<Rightarrow> if at_end then Inr [] else Inl Invalid_argument
         | Some v \<Rightarrow>
             if at_end then Inr [v]
             else bind_res (stream_values token conv (drop n t)) (\<lambda>vs. Inr (v # vs)))"
  by pat_completeness auto

termination stream_values
proof (relation "measure (\<lambda>(token, conv, s). length s)", goal_cases)
  case (2 token conv s t n at_end v)
  have "length t \<le> length s" using 2(1) by (simp add: length_dropWhile_le)
  moreover have "0 < n" "n < length t" using 2(3-5) by (auto split: if_splits)
  ultimately show ?case by simp
qed simp

declare stream_values.simps [simp del]

definition AddWhitespaceSeparatedValues_int :: "int list \<Rightarrow> string \<Rightarrow> int list res" where
  "AddWhitespaceSeparatedValues_int values text =
     bind_res (stream_values integer_token integer_value text) (\<lambda>vs. Inr (values @ vs))"

definition AddWhitespaceSeparatedValues_float :: "fp list \<Rightarrow> string \<Rightarrow> fp list res" where
  "AddWhitespaceSeparatedValues_float values text =
     bind_res (stream_values real_token float_value text) (\<lambda>vs. Inr (values @ vs))"

definition ValidateMetadataCount :: "int \<Rightarrow> nat \<Rightarrow> unit res" where
  "ValidateMetadataCount declared_count parsed_count =
     guard (\<not> (declared_count < 0 \<or> int parsed_count \<noteq> declared_count)) Runtime_error"

section \<open>Calibration vectors\<close>

record calibration_vector =
  cal_time_mjd :: fp
  cal_line :: int
  cal_pixels :: "int list"
  cal_sigma_nought :: "fp list"
  cal_beta_nought :: "fp list"
  cal_gamma :: "fp list"
  cal_dn :: "fp list"
  cal_array_size :: int

text \<open>\<open>get_element\<close>: a missing element is an error.\<close>

definition required_child :: "'p env \<Rightarrow> heap \<Rightarrow> ref option \<Rightarrow> string \<Rightarrow> ref res" where
  "required_child e h parent name =
     bind_res (child e h parent name) (\<lambda>p. case p of None \<Rightarrow> Inl Runtime_error | Some k \<Rightarrow> Inr k)"

definition fetch_unit_data :: "'p env \<Rightarrow> heap \<Rightarrow> ref \<Rightarrow> int \<Rightarrow> string \<Rightarrow> fp list res" where
  "fetch_unit_data e h element n selected_type =
     bind_res (required_child e h (Some element) selected_type) (\<lambda>unit_element.
     bind_res (GetAttributeInt e unit_element COUNT h) (\<lambda>unit_count.
     bind_res (GetAttributeString e unit_element selected_type h) (\<lambda>unit_string.
     bind_res (AddWhitespaceSeparatedValues_float [] unit_string) (\<lambda>unit_vector.
     bind_res (ValidateMetadataCount unit_count (length unit_vector)) (\<lambda>_.
     bind_res (guard (unit_count = n) Runtime_error) (\<lambda>_. Inr unit_vector))))))"

definition fetch_if :: "bool \<Rightarrow> 'a list res \<Rightarrow> 'a list res" where
  "fetch_if wanted r = (if wanted then r else Inr [])"

text \<open>The selected units are fetched in the order of their names.\<close>

definition read_calibration_vector ::
  "'p env \<Rightarrow> heap \<Rightarrow> bool \<Rightarrow> bool \<Rightarrow> bool \<Rightarrow> bool \<Rightarrow> ref \<Rightarrow> calibration_vector res" where
  "read_calibration_vector e h sigma beta gamma_band dn_band element =
     bind_res (GetTime e h (Some element) AZIMUTH_TIME) (\<lambda>time.
     bind_res (GetAttributeInt e element LINE h) (\<lambda>line.
     bind_res (required_child e h (Some element) PIXEL) (\<lambda>pixel_element.
     bind_res (GetAttributeString e pixel_element PIXEL h) (\<lambda>pixel_string.
     bind_res (GetAttributeInt e pixel_element COUNT h) (\<lambda>n.
     bind_res (AddWhitespaceSeparatedValues_int [] pixel_string) (\<lambda>pixels.
     bind_res (ValidateMetadataCount n (length pixels)) (\<lambda>_.
     bind_res (fetch_if beta (fetch_unit_data e h element n BETA_NOUGHT)) (\<lambda>betas.
     bind_res (fetch_if dn_band (fetch_unit_data e h element n DN)) (\<lambda>dns.
     bind_res (fetch_if gamma_band (fetch_unit_data e h element n GAMMA)) (\<lambda>gammas.
     bind_res (fetch_if sigma (fetch_unit_data e h element n SIGMA_NOUGHT)) (\<lambda>sigmas.
     bind_res (GetMjd (casts e) time) (\<lambda>mjd.
       Inr \<lparr>cal_time_mjd = mjd, cal_line = line, cal_pixels = pixels, cal_sigma_nought = sigmas,
            cal_beta_nought = betas, cal_gamma = gammas, cal_dn = dns, cal_array_size = n\<rparr>))))))))))))"

definition GetCalibrationVectors ::
  "'p env \<Rightarrow> heap \<Rightarrow> ref option \<Rightarrow> bool \<Rightarrow> bool \<Rightarrow> bool \<Rightarrow> bool \<Rightarrow> calibration_vector list res" where
  "GetCalibrationVectors e h list_element sigma beta gamma_band dn_band =
     bind_res (child_list h list_element)
       (map_res (read_calibration_vector e h sigma beta gamma_band dn_band))"

section \<open>Reading back a list of integers\<close>

text \<open>A text that does not go on with a digit.\<close>

definition ends_number :: "string \<Rightarrow> bool" where
  "ends_number r \<longleftrightarrow> r = [] \<or> \<not> is_digit (hd r)"

lemma dropWhile_number: "ends_number r \<Longrightarrow> dropWhile is_digit (nat_string n @ r) = r"
  by (cases r) (auto simp: ends_number_def dropWhile_append nat_string_digits dropWhile_eq_Nil_conv)

lemma to_string_start:
  "dropWhile is_space (to_string i @ r) = to_string i @ r"
  "snd (skip_sign (to_string i @ r)) = nat_string (nat \<bar>i\<bar>) @ r"
  "to_string i \<noteq> []"
proof -
  obtain d ds where n: "nat_string (nat i) = digit_char d # ds" "d < 10" by (rule nat_string_Cons)
  have "\<not> is_space CHR ''-''" by (simp add: is_space_def code_def)
  then show "dropWhile is_space (to_string i @ r) = to_string i @ r"
    "snd (skip_sign (to_string i @ r)) = nat_string (nat \<bar>i\<bar>) @ r" "to_string i \<noteq> []"
    using n digit_char_facts [OF n(2)] by (auto simp: to_string_def skip_sign_def)
qed

lemma integer_token_to_string: "ends_number r \<Longrightarrow> integer_token (to_string i @ r) = length (to_string i)"
  by (simp add: integer_token_def to_string_start dropWhile_number)

lemma integer_value_to_string: "int32_range i \<Longrightarrow> integer_value (to_string i) = Some i"
  by (auto simp: integer_value_def strto_to_string Let_def)

lemma stream_integer:
  assumes "int32_range i" and "ends_number r"
  shows "stream_values integer_token integer_value (to_string i @ r) =
    (if r = [] then Inr [i] else bind_res (stream_values integer_token integer_value r) (\<lambda>vs. Inr (i # vs)))"
  using assms
  by (subst stream_values.simps)
    (simp add: to_string_start integer_token_to_string integer_value_to_string Let_def)

lemma stream_blank: "stream_values token conv (CHR '' '' # s) = stream_values token conv s"
  by (subst (1 2) stream_values.simps) (simp add: is_space_def code_def)

lemma ArrayToString_Cons: "ArrayToString (a # b # xs) d = a @ d @ ArrayToString (b # xs) d"
  by (simp add: ArrayToString_def)

lemma stream_integers:
  "\<forall>v\<in>set (i # vs). int32_range v \<Longrightarrow>
   stream_values integer_token integer_value (ArrayToString (map to_string (i # vs)) '' '') = Inr (i # vs)"
proof (induction vs arbitrary: i)
  case Nil
  then show ?case using stream_integer [of i "[]"] by (simp add: ArrayToString_def ends_number_def)
next
  case (Cons j vs)
  have "ends_number ('' '' @ r)" for r by (simp add: ends_number_def is_digit_def code_def)
  then have "stream_values integer_token integer_value (to_string i @ '' '' @ ArrayToString (map to_string (j # vs)) '' '')
      = Inr (i # j # vs)"
    using stream_integer [of i "'' '' @ ArrayToString (map to_string (j # vs)) '' ''"] Cons.prems Cons.IH [of j]
    by (simp add: stream_blank)
  then show ?case by (simp add: ArrayToString_Cons)
qed

text \<open>
  C24. Arrays of integers: the decimal texts of any list of 32-bit integers, separated by blanks, are read
  back as that list, which is put behind the values already there.
\<close>
theorem AddWhitespaceSeparatedValues_roundtrip:
  assumes "\<forall>v\<in>set vs. int32_range v"
  shows "AddWhitespaceSeparatedValues_int values (ArrayToString (map to_string vs) '' '') = Inr (values @ vs)"
proof (cases vs)
  case Nil
  have "stream_values integer_token integer_value [] = Inr []" by (subst stream_values.simps) (simp add: integer_token_def)
  then show ?thesis using Nil by (simp add: AddWhitespaceSeparatedValues_int_def ArrayToString_def)
next
  case (Cons i ws)
  then show ?thesis using stream_integers [of i ws] assms by (simp add: AddWhitespaceSeparatedValues_int_def)
qed

lemma AddWhitespaceSeparatedValues_roundtrip_witness:
  "AddWhitespaceSeparatedValues_int [5] (ArrayToString (map to_string [0, -40, 2147483647]) '' '') =
     Inr [5, 0, -40, 2147483647]"
  using AddWhitespaceSeparatedValues_roundtrip [of "[0, -40, 2147483647]" "[5]"] by (simp add: int32_range_def)

text \<open>
  A number at the very end of the text that is cut off or out of range does not make the reading fail: it is
  left out, and only the comparison with the declared count can notice it.
\<close>

lemmas read_stream = stream_values.simps integer_token_def integer_value_def skip_sign_def is_space_def is_digit_def code_def
  strto_def digits_value_def digit_val_def int32_range_def

lemma stream_drops_last:
  "AddWhitespaceSeparatedValues_int [] ''7 -'' = Inr [7]"
  "AddWhitespaceSeparatedValues_int [] ''7 2147483648'' = Inr [7]"
  "AddWhitespaceSeparatedValues_int [] ''7 x'' = Inl Invalid_argument"
  by (simp_all add: AddWhitespaceSeparatedValues_int_def read_stream)

section \<open>The counts agree\<close>

definition counts_agree :: "bool \<Rightarrow> bool \<Rightarrow> bool \<Rightarrow> bool \<Rightarrow> calibration_vector \<Rightarrow> bool" where
  "counts_agree sigma beta gamma_band dn_band v \<longleftrightarrow>
     0 \<le> cal_array_size v \<and> int (length (cal_pixels v)) = cal_array_size v \<and>
     int (length (cal_sigma_nought v)) = (if sigma then cal_array_size v else 0) \<and>
     int (length (cal_beta_nought v)) = (if beta then cal_array_size v else 0) \<and>
     int (length (cal_gamma v)) = (if gamma_band then cal_array_size v else 0) \<and>
     int (length (cal_dn v)) = (if dn_band then cal_array_size v else 0)"

lemma fetch_if_length:
  "fetch_if wanted (fetch_unit_data e h element n ty) = Inr vs \<Longrightarrow> int (length vs) = (if wanted then n else 0)"
  by (auto simp: fetch_if_def fetch_unit_data_def ValidateMetadataCount_def bind_res_Inr_iff guard_Inr_iff split: if_splits)

lemma read_calibration_vector_counts:
  assumes "read_calibration_vector e h sigma beta gamma_band dn_band element = Inr v"
  shows "counts_agree sigma beta gamma_band dn_band v"
  using assms
  by (auto simp: read_calibration_vector_def counts_agree_def ValidateMetadataCount_def bind_res_Inr_iff guard_Inr_iff
      dest!: fetch_if_length)

text \<open>
  C25. Calibration vectors: there is one for each element of the list, and in each the pixels and the values of
  every wanted unit have the same number of entries, which is the recorded size; units that were not asked
  for are empty.
\<close>
theorem GetCalibrationVectors_counts:
  assumes "GetCalibrationVectors e h list_element sigma beta gamma_band dn_band = Inr vs"
  shows "\<exists>elems. child_list h list_element = Inr elems \<and> length vs = length elems \<and>
           (\<forall>v\<in>set vs. counts_agree sigma beta gamma_band dn_band v)"
proof -
  obtain elems where elems: "child_list h list_element = Inr elems"
      "map_res (read_calibration_vector e h sigma beta gamma_band dn_band) elems = Inr vs"
    using assms by (auto simp: GetCalibrationVectors_def bind_res_Inr_iff)
  have "counts_agree sigma beta gamma_band dn_band v" if "v \<in> set vs" for v
    using that map_res_Inr_nth [OF elems(2)] map_res_Inr_length [OF elems(2)] read_calibration_vector_counts
    by (metis in_set_conv_nth)
  then show ?thesis using elems map_res_Inr_length by blast
qed

section \<open>A list with one vector\<close>

lemma tree_GetAttributeInt:
  assumes "tree_at h k t" and "name \<noteq> []" and "tree_text (ieq e) t name = Some v"
  shows "GetAttributeInt e k name h = stoi v"
proof -
  obtain j n where j: "GetAttribute e k name h = Inr (Some j)" "text_at h j (n, v)"
    using tree_GetAttribute [OF assms(1,2), of e] assms(3) by (auto simp: option_rel_Some2)
  then show ?thesis using text_at_data [OF j(2)] by (auto simp: GetAttributeInt_def read_attribute_def int_value_def)
qed

definition sample_pixels :: meta_tree where
  "sample_pixels = Tree PIXEL [(PIXEL, ''0 40''), (COUNT, ''2'')] []"

definition sample_sigma :: meta_tree where
  "sample_sigma = Tree SIGMA_NOUGHT [(SIGMA_NOUGHT, ''0 0''), (COUNT, ''2'')] []"

definition sample_vector :: meta_tree where
  "sample_vector = Tree ''calibrationVector'' [(AZIMUTH_TIME, ''0''), (LINE, ''3'')] [sample_pixels, sample_sigma]"

definition sample_vectors :: meta_tree where
  "sample_vectors = Tree ''calibrationVectorList'' [(COUNT, ''1'')] [sample_vector]"

lemma sample_vector_parts:
  "tree_child (ieq sample_env) sample_vector PIXEL = Some sample_pixels"
  "tree_child (ieq sample_env) sample_vector SIGMA_NOUGHT = Some sample_sigma"
  "tree_text (ieq sample_env) sample_vector AZIMUTH_TIME = Some ''0''"
  "tree_text (ieq sample_env) sample_vector LINE = Some ''3''"
  "tree_text (ieq sample_env) sample_pixels PIXEL = Some ''0 40''"
  "tree_text (ieq sample_env) sample_pixels COUNT = Some ''2''"
  "tree_text (ieq sample_env) sample_sigma SIGMA_NOUGHT = Some ''0 0''"
  "tree_text (ieq sample_env) sample_sigma COUNT = Some ''2''"
  "PIXEL \<noteq> []" "SIGMA_NOUGHT \<noteq> []" "AZIMUTH_TIME \<noteq> []" "LINE \<noteq> []" "COUNT \<noteq> []"
proof -
  have "\<not> iequals_upper ''pixel'' ''count''" "\<not> iequals_upper ''line'' ''azimuthTime''" by code_simp+
  then show "tree_child (ieq sample_env) sample_vector PIXEL = Some sample_pixels"
    "tree_child (ieq sample_env) sample_vector SIGMA_NOUGHT = Some sample_sigma"
    "tree_text (ieq sample_env) sample_vector AZIMUTH_TIME = Some ''0''"
    "tree_text (ieq sample_env) sample_vector LINE = Some ''3''"
    "tree_text (ieq sample_env) sample_pixels PIXEL = Some ''0 40''"
    "tree_text (ieq sample_env) sample_pixels COUNT = Some ''2''"
    "tree_text (ieq sample_env) sample_sigma SIGMA_NOUGHT = Some ''0 0''"
    "tree_text (ieq sample_env) sample_sigma COUNT = Some ''2''"
    "PIXEL \<noteq> []" "SIGMA_NOUGHT \<noteq> []" "AZIMUTH_TIME \<noteq> []" "LINE \<noteq> []" "COUNT \<noteq> []"
    by (simp_all add: sample_lookup sample_vector_def sample_pixels_def sample_sigma_def)
qed

lemma sample_arrays:
  "AddWhitespaceSeparatedValues_int [] ''0 40'' = Inr [0, 40]"
  "AddWhitespaceSeparatedValues_float [] ''0 0'' = Inr [Fin 0, Fin 0]"
  by (simp_all add: AddWhitespaceSeparatedValues_int_def AddWhitespaceSeparatedValues_float_def read_stream real_token_def
      exponent_length_def to_lower_def is_upper_def float_value_def mantissa_def span_digits_def hex_val_def exponent_def)

lemma sample_calibration_vectors:
  assumes "tree_at h k sample_vectors"
  shows "\<exists>v. GetCalibrationVectors sample_env h (Some k) True False False False = Inr [v]"
proof -
  obtain x where x: "child_list h (Some k) = Inr [x]" "tree_at h x sample_vector"
    using child_list_tree [OF assms] by (auto simp: sample_vectors_def list_all2_Cons2)
  obtain px where px: "child sample_env h (Some x) PIXEL = Inr (Some px)" "tree_at h px sample_pixels"
    using child_tree [OF x(2) sample_vector_parts(9), of sample_env] sample_vector_parts(1) by metis
  obtain sg where sg: "child sample_env h (Some x) SIGMA_NOUGHT = Inr (Some sg)" "tree_at h sg sample_sigma"
    using child_tree [OF x(2) sample_vector_parts(10), of sample_env] sample_vector_parts(2) by metis
  note read = GetTime_tree [OF x(2)] tree_GetAttributeInt [OF x(2)] tree_GetAttributeInt [OF px(2)]
    tree_GetAttributeInt [OF sg(2)] tree_GetAttributeString [OF px(2)] tree_GetAttributeString [OF sg(2)]
  show ?thesis
    by (simp add: GetCalibrationVectors_def x(1) read_calibration_vector_def required_child_def px(1) sg(1) read
        sample_vector_parts sample_numbers sample_date sample_mjd [simplified] sample_arrays ValidateMetadataCount_def fetch_if_def
        fetch_unit_data_def)
qed

lemma GetCalibrationVectors_counts_witness:
  "\<exists>h k v. GetCalibrationVectors sample_env h (Some k) True False False False = Inr [v] \<and>
     int (length (cal_sigma_nought v)) = cal_array_size v"
proof -
  let ?l = "lay sample_vectors \<lparr>nodes = [], datas = []\<rparr>"
  obtain v where v: "GetCalibrationVectors sample_env (snd ?l) (Some (fst ?l)) True False False False = Inr [v]"
    using sample_calibration_vectors lay_tree by blast
  from GetCalibrationVectors_counts [OF this] have "counts_agree True False False False v" by auto
  then show ?thesis using v by (auto simp: counts_agree_def)
qed

end
