(* ===== verification/Sentinel1Utils.thy ===== *)
theory Sentinel1Utils
  imports GeoIndex CalibrationVectors InputValidator "HOL-Library.Char_ord" "HOL-Library.List_Lexorder"
begin

text \<open>
  \<open>Sentinel1Utils\<close> (\<^verbatim>\<open>sentinel1_utils.cc\<close>): what the operators know about a Sentinel-1 product. The constructor
  from a product checks and reads its metadata: acquisition mode, polarizations, sub-swaths, orbit. The
  constructor from a metadata file is not modelled. Of the product the names of its bands and the values of
  the incidence angle grid are parameters.

  Texts are sorted by their characters as unsigned bytes, which is the order of the library on texts.
\<close>

record product_view =
  pv_values :: product_values
  pv_bands :: "band_values list"
  pv_incidence_angle :: "(int \<Rightarrow> int \<Rightarrow> fp) option"

record sentinel1_utils =
  su_subswath :: "sub_swath_info list"
  su_first_line_utc :: fp
  su_last_line_utc :: fp
  su_line_time_interval :: fp
  su_near_edge_slant_range :: fp
  su_wavelength :: fp
  su_range_spacing :: fp
  su_azimuth_spacing :: fp
  su_source_image_width :: int
  su_source_image_height :: int
  su_near_range_on_left :: bool
  su_srgr_flag :: bool
  su_abs_root :: ref
  su_orig_prod_root :: ref
  su_num_of_sub_swath :: int
  su_acquisition_mode :: string
  su_polarizations :: "string list"
  su_sub_swath_names :: "string list"
  su_doppler_centroid_available :: bool
  su_range_depend_doppler_rate_available :: bool
  su_orbit :: "orbit_state_vectors option"

section \<open>Abstracted metadata\<close>

definition GetRadarFrequency :: "'p env \<Rightarrow> ref \<Rightarrow> heap \<Rightarrow> fp res" where
  "GetRadarFrequency e a h =
     bind_res (abs_GetAttributeDouble e a RADAR_FREQUENCY h) (\<lambda>f.
       let radar_freq = fmul f64 f (Fin 1000000)
       in if fle radar_freq (Fin 0) then Inl Runtime_error else Inr (fdiv f64 LIGHT_SPEED radar_freq))"

definition GetRadarWavelength :: "'p env \<Rightarrow> ref \<Rightarrow> heap \<Rightarrow> fp res" where
  "GetRadarWavelength e a h =
     bind_res (abs_GetAttributeDouble e a RADAR_FREQUENCY h) (\<lambda>f.
       let radar_freq = fmul f64 f (Fin 1000000)
       in if fle radar_freq (Fin 0) then Inl Runtime_error else Inr (fdiv f64 LIGHT_SPEED radar_freq))"

text \<open>Sequencing of computations that may throw and may not return.\<close>

definition then_res :: "'a res option \<Rightarrow> ('a \<Rightarrow> 'b res option) \<Rightarrow> 'b res option" where
  "then_res m f = (case m of None \<Rightarrow> None | Some (Inl x) \<Rightarrow> Some (Inl x) | Some (Inr v) \<Rightarrow> f v)"

lemma then_res_Inr_iff: "then_res m f = Some (Inr y) \<longleftrightarrow> (\<exists>x. m = Some (Inr x) \<and> f x = Some (Inr y))"
  by (auto simp: then_res_def split: option.split sum.split)

lemma then_res_simps [simp]: "then_res (Some (Inr x)) f = f x"
  by (simp add: then_res_def)

definition product_root :: "ref \<Rightarrow> heap \<Rightarrow> ref res" where
  "product_root p h =
     bind_res (node_at (nodes h) p) (\<lambda>n. case body n of Product m \<Rightarrow> Inr (metadata_root m) | _ \<Rightarrow> Inl Undefined_behaviour)"

definition GetMetadataRoot :: "'p env \<Rightarrow> product_values \<Rightarrow> ref \<Rightarrow> heap \<Rightarrow> ((ref \<times> ref) \<times> heap) res option" where
  "GetMetadataRoot e pv p h =
     then_res (Some (product_root p h)) (\<lambda>r.
     then_res (GetAbstractedMetadata e pv p h) (\<lambda>(a, h). Some (
       bind_res (guard (a \<noteq> r) Runtime_error) (\<lambda>_.
       bind_res (GetOriginalProductMetadata e p h) (\<lambda>orig.
       bind_res (guard (orig \<noteq> r) Runtime_error) (\<lambda>_.
       bind_res (GetAttributeString e a MISSION h) (\<lambda>mission.
       bind_res (guard (starts_with mission ''SENTINEL-1'') Runtime_error) (\<lambda>_. Inr ((a, orig), h)))))))))"

definition utc_mjd_of :: "'p env \<Rightarrow> ref \<Rightarrow> string \<Rightarrow> heap \<Rightarrow> fp res" where
  "utc_mjd_of e a tag h = bind_res (GetAttributeUtc e a tag h) (GetMjd (casts e))"

definition read_abstracted_metadata ::
  "'p env \<Rightarrow> product_values \<Rightarrow> heap \<Rightarrow> ref \<Rightarrow> sentinel1_utils \<Rightarrow> sentinel1_utils res" where
  "read_abstracted_metadata e pv h a u =
     bind_res (GetAttributeBoolean e a SRGR_FLAG h) (\<lambda>srgr_flag.
     bind_res (GetRadarWavelength e a h) (\<lambda>wavelength.
     bind_res (abs_GetAttributeDouble e a RANGE_SPACING h) (\<lambda>range_spacing.
     bind_res (abs_GetAttributeDouble e a AZIMUTH_SPACING h) (\<lambda>azimuth_spacing.
     bind_res (utc_mjd_of e (su_abs_root u) FIRST_LINE_TIME h) (\<lambda>first_line_utc.
     bind_res (utc_mjd_of e (su_abs_root u) LAST_LINE_TIME h) (\<lambda>last_line_utc.
     bind_res (GetAttributeDouble e (su_abs_root u) LINE_TIME_INTERVAL h) (\<lambda>interval.
     let interval = fdiv f64 interval SECONDS_IN_DAY
     in bind_res (GetOrbitStateVectors e a h) (\<lambda>orbit_state_vectors.
     bind_res (OrbitStateVectors_lines orbit_state_vectors first_line_utc interval (scene_height pv)) (\<lambda>orb.
     bind_res (if srgr_flag then Inr (su_near_edge_slant_range u)
               else abs_GetAttributeDouble e a SLANT_RANGE_TO_FIRST_PIXEL h) (\<lambda>near_edge.
       Inr (u\<lparr>su_first_line_utc := first_line_utc, su_last_line_utc := last_line_utc, su_line_time_interval := interval,
              su_near_edge_slant_range := near_edge, su_wavelength := wavelength, su_range_spacing := range_spacing,
              su_azimuth_spacing := azimuth_spacing, su_source_image_width := scene_width pv,
              su_source_image_height := scene_height pv, su_srgr_flag := srgr_flag, su_orbit := Some orb\<rparr>)))))))))))"

section \<open>Polarizations and sub-swaths\<close>

definition add_new :: "string \<Rightarrow> string list \<Rightarrow> string list" where
  "add_new s found = (if s \<in> set found then found else found @ [s])"

definition attribute_of_matching ::
  "'p env \<Rightarrow> heap \<Rightarrow> string \<Rightarrow> string \<Rightarrow> ref \<Rightarrow> string list \<Rightarrow> string list res" where
  "attribute_of_matching e h part tag elem found =
     bind_res (node_at (nodes h) elem) (\<lambda>n.
       if contains (node_name n) part then
         bind_res (GetAttributeString e elem tag h) (\<lambda>v. Inr (add_new v found))
       else Inr found)"

definition band_polarization :: "string \<Rightarrow> string list \<Rightarrow> string list" where
  "band_polarization name found =
     (if contains name ''HH'' then add_new ''HH'' found
      else if contains name ''HV'' then add_new ''HV'' found
      else if contains name ''VH'' then add_new ''VH'' found
      else if contains name ''VV'' then add_new ''VV'' found
      else found)"

definition GetProductPolarizations :: "'p env \<Rightarrow> string list \<Rightarrow> heap \<Rightarrow> ref \<Rightarrow> string list res" where
  "GetProductPolarizations e band_names h a =
     bind_res (GetElements a h) (\<lambda>elems.
     bind_res (fold_res (attribute_of_matching e h ''Band_'' ''polarization'') elems []) (\<lambda>pol_list.
       Inr (sort (if pol_list \<noteq> [] then pol_list else fold band_polarization band_names []))))"

definition band_sub_swath :: "string \<Rightarrow> string \<Rightarrow> string list \<Rightarrow> string list" where
  "band_sub_swath acquisition_mode name found =
     (case find_sub acquisition_mode name of
        None \<Rightarrow> found
      | Some mode_position \<Rightarrow> add_new (take (length acquisition_mode + 1) (drop mode_position name)) found)"

definition sub_swath_names_of :: "'p env \<Rightarrow> string list \<Rightarrow> heap \<Rightarrow> ref \<Rightarrow> string list res" where
  "sub_swath_names_of e band_names h a =
     bind_res (GetAttributeString e a ACQUISITION_MODE h) (\<lambda>acquisition_mode.
     bind_res (GetElements a h) (\<lambda>elems.
     bind_res (fold_res (attribute_of_matching e h acquisition_mode SWATH) elems []) (\<lambda>names.
       Inr (sort (if names \<noteq> [] then names else fold (band_sub_swath acquisition_mode) band_names [])))))"

definition GetSubSwathNames ::
  "'p env \<Rightarrow> product_values \<Rightarrow> string list \<Rightarrow> ref \<Rightarrow> heap \<Rightarrow> (string list \<times> heap) res option" where
  "GetSubSwathNames e pv band_names p h =
     then_res (GetAbstractedMetadata e pv p h) (\<lambda>(a, h).
       Some (bind_res (sub_swath_names_of e band_names h a) (\<lambda>names. Inr (names, h))))"

text \<open>The first element below \<open>annotation\<close> with the lower-case name of the sub-swath, or a null pointer.\<close>

definition GetSubSwathMetadata :: "'p env \<Rightarrow> heap \<Rightarrow> ref \<Rightarrow> string \<Rightarrow> ref option res" where
  "GetSubSwathMetadata e h orig_prod_root sub_swath_name =
     bind_res (GetElement e orig_prod_root ''annotation'' h) (\<lambda>annotation.
       case annotation of
         None \<Rightarrow> Inl Runtime_error
       | Some k \<Rightarrow>
           bind_res (GetElements k h) (\<lambda>elems.
           bind_res (map_res (node_at (nodes h)) elems) (\<lambda>ns.
             Inr (map_option fst (List.find (\<lambda>(_, n). contains (node_name n) (map to_lower sub_swath_name)) (zip elems ns))))))"

definition GetSubSwathParameters :: "'p env \<Rightarrow> heap \<Rightarrow> ref \<Rightarrow> string list \<Rightarrow> sub_swath_info list res" where
  "GetSubSwathParameters e h orig_prod_root names =
     map_res (\<lambda>name.
       bind_res (GetSubSwathMetadata e h orig_prod_root name) (\<lambda>sub_swath_metadata.
         FillSubswathMetaData e h sub_swath_metadata (SubSwathInfo\<lparr>subswath_name := name\<rparr>))) names"

definition IsNearRangeOnLeft_grid :: "(int \<Rightarrow> int \<Rightarrow> fp) option \<Rightarrow> int \<Rightarrow> bool" where
  "IsNearRangeOnLeft_grid angles source_image_width =
     (case angles of None \<Rightarrow> True | Some pixel \<Rightarrow> fle (pixel 0 0) (pixel (source_image_width - 1) 0))"

definition near_range_side :: "product_view \<Rightarrow> sub_swath_info list \<Rightarrow> bool res" where
  "near_range_side pv sws =
     (case sws of
        [] \<Rightarrow> Inr (IsNearRangeOnLeft_grid (pv_incidence_angle pv) (scene_width (pv_values pv)))
      | s # _ \<Rightarrow>
          bind_res (cell_at (incidence_angle s) 0 0) (\<lambda>a0.
          bind_res (cell_at (incidence_angle s) 0 1) (\<lambda>a1. Inr (flt a0 a1))))"

definition empty_utils :: "ref \<Rightarrow> ref \<Rightarrow> sentinel1_utils" where
  "empty_utils a orig =
     \<lparr>su_subswath = [], su_first_line_utc = Fin 0, su_last_line_utc = Fin 0, su_line_time_interval = Fin 0,
      su_near_edge_slant_range = Fin 0, su_wavelength = Fin 0, su_range_spacing = Fin 0, su_azimuth_spacing = Fin 0,
      su_source_image_width = 0, su_source_image_height = 0, su_near_range_on_left = True, su_srgr_flag = False,
      su_abs_root = a, su_orig_prod_root = orig, su_num_of_sub_swath = 0, su_acquisition_mode = [], su_polarizations = [],
      su_sub_swath_names = [], su_doppler_centroid_available = False, su_range_depend_doppler_rate_available = False,
      su_orbit = None\<rparr>"

definition Sentinel1Utils ::
  "'p env \<Rightarrow> product_view \<Rightarrow> ref \<Rightarrow> heap \<Rightarrow> (sentinel1_utils \<times> heap) res option" where
  "Sentinel1Utils e pv p h =
     (let band_names = map band_name (pv_bands pv)
      in then_res (GetMetadataRoot e (pv_values pv) p h) (\<lambda>((a, orig), h).
         then_res (GetAbstractedMetadata e (pv_values pv) p h) (\<lambda>(a', h).
         then_res (Some (read_abstracted_metadata e (pv_values pv) h a' (empty_utils a orig))) (\<lambda>u.
         then_res (Some (GetAttributeString e a ACQUISITION_MODE h)) (\<lambda>mode.
         then_res (Some (GetProductPolarizations e band_names h a)) (\<lambda>pols.
         then_res (GetSubSwathNames e (pv_values pv) band_names p h) (\<lambda>(names, h). Some (
           bind_res (GetSubSwathParameters e h orig names) (\<lambda>sws.
           bind_res (near_range_side pv sws) (\<lambda>left.
             Inr (u\<lparr>su_acquisition_mode := mode, su_polarizations := pols, su_sub_swath_names := names,
                    su_num_of_sub_swath := int (length names), su_subswath := sws, su_near_range_on_left := left\<rparr>, h)))))))))))"

section \<open>The sub-swath of a slant range time\<close>

definition sub_swath_start :: "sentinel1_utils \<Rightarrow> int \<Rightarrow> fp res" where
  "sub_swath_start u i =
     bind_res (vec_at (su_subswath u) i) (\<lambda>s.
       if i = 0 then Inr (slr_time_to_first_pixel s)
       else bind_res (vec_at (su_subswath u) (i - 1)) (\<lambda>r.
              Inr (fmul f64 (Fin (1 / 2)) (fadd f64 (slr_time_to_first_pixel s) (slr_time_to_last_pixel r)))))"

definition sub_swath_end :: "sentinel1_utils \<Rightarrow> int \<Rightarrow> fp res" where
  "sub_swath_end u i =
     bind_res (vec_at (su_subswath u) i) (\<lambda>s.
       if i = su_num_of_sub_swath u - 1 then Inr (slr_time_to_last_pixel s)
       else bind_res (vec_at (su_subswath u) (i + 1)) (\<lambda>r.
              Inr (fmul f64 (Fin (1 / 2)) (fadd f64 (slr_time_to_last_pixel s) (slr_time_to_first_pixel r)))))"

fun sub_swath_index_from :: "sentinel1_utils \<Rightarrow> fp \<Rightarrow> int list \<Rightarrow> int res" where
  "sub_swath_index_from u x [] = Inr 0"
| "sub_swath_index_from u x (i # js) =
     bind_res (sub_swath_start u i) (\<lambda>start_time.
     bind_res (sub_swath_end u i) (\<lambda>end_time.
       if fge x start_time \<and> fle x end_time then Inr (i + 1) else sub_swath_index_from u x js))"

definition GetSubswathIndex :: "sentinel1_utils \<Rightarrow> fp \<Rightarrow> int res" where
  "GetSubswathIndex u x = sub_swath_index_from u x [0..su_num_of_sub_swath u - 1]"

definition utils_ComputeIndex :: "sentinel1_utils \<Rightarrow> fp \<Rightarrow> fp \<Rightarrow> int \<Rightarrow> sentinel1_index res" where
  "utils_ComputeIndex u t x sub_swath_index =
     bind_res (vec_at (su_subswath u) (sub_swath_index - 1)) (\<lambda>s. ComputeIndex s t x)"

definition utils_value ::
  "(sentinel1_index \<Rightarrow> sub_swath_info \<Rightarrow> fp res) \<Rightarrow> sentinel1_utils \<Rightarrow> sentinel1_index \<Rightarrow> int \<Rightarrow> fp res" where
  "utils_value get u k sub_swath_index =
     bind_res (vec_at (su_subswath u) (sub_swath_index - 1)) (get k)"

definition value_at ::
  "(sentinel1_index \<Rightarrow> sub_swath_info \<Rightarrow> fp res) \<Rightarrow> sentinel1_utils \<Rightarrow> fp \<Rightarrow> fp \<Rightarrow> fp res" where
  "value_at get u t x =
     bind_res (GetSubswathIndex u x) (\<lambda>sub_swath_index.
     bind_res (utils_ComputeIndex u t x sub_swath_index) (\<lambda>k. utils_value get u k sub_swath_index))"

definition utils_GetLatitude :: "sentinel1_utils \<Rightarrow> fp \<Rightarrow> fp \<Rightarrow> fp res" where
  "utils_GetLatitude = value_at GetLatitudeValue"

definition utils_GetLongitude :: "sentinel1_utils \<Rightarrow> fp \<Rightarrow> fp \<Rightarrow> fp res" where
  "utils_GetLongitude = value_at GetLongitudeValue"

definition utils_GetSlantRangeTime :: "sentinel1_utils \<Rightarrow> fp \<Rightarrow> fp \<Rightarrow> fp res" where
  "utils_GetSlantRangeTime = value_at GetSlantRangeTimeValue"

definition utils_GetIncidenceAngle :: "sentinel1_utils \<Rightarrow> fp \<Rightarrow> fp \<Rightarrow> fp res" where
  "utils_GetIncidenceAngle = value_at GetIncidenceAngleValue"

section \<open>Calibration metadata of a band\<close>

definition GetSourceBand :: "band_values list \<Rightarrow> string \<Rightarrow> string \<Rightarrow> band_values option" where
  "GetSourceBand bands sub_swath_name polarization =
     List.find (\<lambda>b. contains (band_name b) (sub_swath_name @ ''_'' @ polarization)) bands"

definition GetCalibrationVectorList ::
  "'p env \<Rightarrow> heap \<Rightarrow> band_values list \<Rightarrow> sentinel1_utils \<Rightarrow> int \<Rightarrow> string \<Rightarrow> ref option res" where
  "GetCalibrationVectorList e h bands u sub_swath_index polarization =
     bind_res (vec_at (su_subswath u) (sub_swath_index - 1)) (\<lambda>s.
     bind_res (deref (GetSourceBand bands (subswath_name s) polarization)) (\<lambda>src_band.
     bind_res (GetBandAbsMetadata e (su_abs_root u) (band_name src_band) h) (\<lambda>band_abs_metadata.
     bind_res (attr_string e h band_abs_metadata ANNOTATION) (\<lambda>annotation.
     bind_res (GetElement e (su_orig_prod_root u) ''calibration'' h) (\<lambda>calibration_elem.
     bind_res (child e h calibration_elem annotation) (\<lambda>band_calibration.
     bind_res (child e h band_calibration ''calibration'') (\<lambda>calibration.
       child e h calibration ''calibrationVectorList'')))))))"

definition vector_element ::
  "'p env \<Rightarrow> heap \<Rightarrow> band_values list \<Rightarrow> sentinel1_utils \<Rightarrow> int \<Rightarrow> string \<Rightarrow> int \<Rightarrow> string \<Rightarrow> ref option res" where
  "vector_element e h bands u sub_swath_index polarization vector_index name =
     bind_res (GetCalibrationVectorList e h bands u sub_swath_index polarization) (\<lambda>l.
     bind_res (child_list h l) (\<lambda>elems.
     bind_res (vec_at elems vector_index) (\<lambda>k. child e h (Some k) name)))"

definition GetCalibrationVector ::
  "'p env \<Rightarrow> heap \<Rightarrow> band_values list \<Rightarrow> sentinel1_utils \<Rightarrow> int \<Rightarrow> string \<Rightarrow> int \<Rightarrow> string \<Rightarrow> fp list res" where
  "GetCalibrationVector e h bands u sub_swath_index polarization vector_index vector_name =
     bind_res (vector_element e h bands u sub_swath_index polarization vector_index vector_name) (\<lambda>vector_elem.
     bind_res (attr_string e h vector_elem vector_name) (\<lambda>vector_str.
     bind_res (attr_stoi e h vector_elem ''count'') (\<lambda>n.
     bind_res (AddWhitespaceSeparatedValues_float [] vector_str) (\<lambda>vector_array.
     bind_res (ValidateMetadataCount n (length vector_array)) (\<lambda>_. Inr vector_array)))))"

definition GetCalibrationPixel ::
  "'p env \<Rightarrow> heap \<Rightarrow> band_values list \<Rightarrow> sentinel1_utils \<Rightarrow> int \<Rightarrow> string \<Rightarrow> int \<Rightarrow> int list res" where
  "GetCalibrationPixel e h bands u sub_swath_index polarization vector_index =
     bind_res (vector_element e h bands u sub_swath_index polarization vector_index ''pixel'') (\<lambda>pixel_elem.
     bind_res (attr_string e h pixel_elem ''pixel'') (\<lambda>pixel.
     bind_res (attr_stoi e h pixel_elem ''count'') (\<lambda>n.
     bind_res (AddWhitespaceSeparatedValues_int [] pixel) (\<lambda>pixel_array.
     bind_res (ValidateMetadataCount n (length pixel_array)) (\<lambda>_. Inr pixel_array)))))"

text \<open>The tokens of a text are written into an array from \<open>index\<close> on; empty tokens are left out.\<close>

fun char_tokens :: "char list \<Rightarrow> string \<Rightarrow> string \<Rightarrow> string list" where
  "char_tokens delim token [] = (if token = [] then [] else [token])"
| "char_tokens delim token (c # s) =
     (if c \<in> set delim then (if token = [] then [] else [token]) @ char_tokens delim [] s
      else char_tokens delim (token @ [c]) s)"

definition AddToArray :: "(string \<Rightarrow> 'a res) \<Rightarrow> 'a list \<Rightarrow> int \<Rightarrow> string \<Rightarrow> string \<Rightarrow> ('a list \<times> int) res" where
  "AddToArray conv array index csv_string delim =
     fold_res (\<lambda>token (array, index).
       bind_res (conv token) (\<lambda>v.
       bind_res (vec_put array index v) (\<lambda>array. Inr (array, index + 1))))
       (char_tokens (takeWhile (\<lambda>c. c \<noteq> CHR 0x00) delim) [] csv_string) (array, index)"

section \<open>Band names in the metadata\<close>

definition after_first :: "string \<Rightarrow> string" where
  "after_first name = (case find_sub ''_'' name of None \<Rightarrow> name | Some i \<Rightarrow> drop (i + 1) name)"

definition after_last :: "string \<Rightarrow> string" where
  "after_last name = (case find_last_of CHR ''_'' name of None \<Rightarrow> name | Some i \<Rightarrow> drop (i + 1) name)"

definition update_band_element ::
  "'p env \<Rightarrow> ref \<Rightarrow> string set \<Rightarrow> string list \<Rightarrow> ref \<Rightarrow> heap \<Rightarrow> heap res" where
  "update_band_element e a selected_pol_list band_names k h =
     bind_res (node_at (nodes h) k) (\<lambda>n.
       if starts_with (node_name n) BAND_PREFIX then
         (let polarisation = after_last (node_name n); sw_polarisation = after_first (node_name n)
          in if polarisation \<in> selected_pol_list then
               (let band_name_array =
                      concat (map (\<lambda>b. b @ '' '')
                        (filter (\<lambda>b. contains b sw_polarisation \<or> contains b polarisation) band_names))
                in if band_name_array \<noteq> [] then stored (SetAttributeString e k BAND_NAMES band_name_array h) else Inr h)
             else bind_res (RemoveElement a (Some k) h) (\<lambda>(_, h). Inr h))
       else Inr h)"

definition UpdateBandNames :: "'p env \<Rightarrow> ref \<Rightarrow> string set \<Rightarrow> string list \<Rightarrow> heap \<Rightarrow> heap res" where
  "UpdateBandNames e a selected_pol_list band_names h =
     bind_res (GetElements a h) (\<lambda>children.
       fold_res (update_band_element e a selected_pol_list band_names) children h)"

section \<open>What the constructor establishes\<close>

lemma add_new_distinct: "distinct found \<Longrightarrow> distinct (add_new s found)"
  by (simp add: add_new_def)

lemma attributes_distinct:
  assumes "fold_res (attribute_of_matching e h part tag) elems [] = Inr found"
  shows "distinct found"
  by (rule fold_res_invariant [OF assms, of distinct])
    (auto simp: attribute_of_matching_def bind_res_Inr_iff add_new_distinct split: if_splits)

lemma fold_distinct:
  assumes "\<And>x found. distinct found \<Longrightarrow> distinct (f x found)" and "distinct found"
  shows "distinct (fold f xs found)"
  using assms(2) by (induction xs arbitrary: found) (simp_all add: assms(1))

lemma band_distinct:
  "distinct found \<Longrightarrow> distinct (band_polarization name found)"
  "distinct found \<Longrightarrow> distinct (band_sub_swath mode name found)"
  by (simp_all add: band_polarization_def band_sub_swath_def add_new_distinct split: option.split)

lemma GetProductPolarizations_sorted:
  "GetProductPolarizations e band_names h a = Inr pols \<Longrightarrow> sorted pols \<and> distinct pols"
  by (auto simp: GetProductPolarizations_def bind_res_Inr_iff band_distinct(1) intro!: fold_distinct
      dest: attributes_distinct)

lemma sub_swath_names_sorted:
  "sub_swath_names_of e band_names h a = Inr names \<Longrightarrow> sorted names \<and> distinct names"
  by (auto simp: sub_swath_names_of_def bind_res_Inr_iff band_distinct(2) intro!: fold_distinct
      dest: attributes_distinct)

lemma GetSubSwathParameters_ok:
  assumes "GetSubSwathParameters e h orig names = Inr sws"
  shows "map subswath_name sws = names \<and> (\<forall>s\<in>set sws. sub_swath_ok s)"
proof -
  have "sub_swath_ok (sws ! i) \<and> subswath_name (sws ! i) = names ! i" if "i < length names" for i
  proof -
    note at_i = map_res_Inr_nth [OF assms [unfolded GetSubSwathParameters_def] that]
    have "bursts_ok (SubSwathInfo\<lparr>subswath_name := names ! i\<rparr>) 0" by (simp add: bursts_ok_def SubSwathInfo_def)
    moreover obtain m where "FillSubswathMetaData e h m (SubSwathInfo\<lparr>subswath_name := names ! i\<rparr>) = Inr (sws ! i)"
      using at_i by (auto simp: bind_res_Inr_iff)
    ultimately show ?thesis using FillSubswathMetaData_ok by fastforce
  qed
  moreover have "length sws = length names"
    using map_res_Inr_length [OF assms [unfolded GetSubSwathParameters_def]] .
  ultimately show ?thesis by (auto simp: list_eq_iff_nth_eq in_set_conv_nth)
qed

definition utils_ok :: "sentinel1_utils \<Rightarrow> bool" where
  "utils_ok u \<longleftrightarrow>
     map subswath_name (su_subswath u) = su_sub_swath_names u \<and>
     su_num_of_sub_swath u = int (length (su_subswath u)) \<and>
     sorted (su_sub_swath_names u) \<and> distinct (su_sub_swath_names u) \<and>
     sorted (su_polarizations u) \<and> distinct (su_polarizations u) \<and>
     (\<forall>s\<in>set (su_subswath u). sub_swath_ok s) \<and>
     su_orbit u \<noteq> None"

lemma map_subswath_length: "map subswath_name sws = names \<Longrightarrow> length sws = length names"
  by auto

lemma then_resE:
  assumes "then_res m f = Some (Inr y)"
  obtains x where "m = Some (Inr x)" and "f x = Some (Inr y)"
  using assms by (auto simp: then_res_Inr_iff)

lemma GetMetadataRoot_roots:
  assumes "GetMetadataRoot e pv p h = Some (Inr ((a, orig), h'))"
  shows "\<exists>r mission. product_root p h = Inr r \<and> GetAbstractedMetadata e pv p h = Some (Inr (a, h')) \<and>
    GetOriginalProductMetadata e p h' = Inr orig \<and> a \<noteq> r \<and> orig \<noteq> r \<and>
    GetAttributeString e a MISSION h' = Inr mission \<and> starts_with mission ''SENTINEL-1''"
  using assms
  by (auto simp: GetMetadataRoot_def then_res_Inr_iff bind_res_Inr_iff guard_Inr_iff)

text \<open>
  C26. What the constructor of \<open>Sentinel1Utils\<close> establishes when it returns: one description per sub-swath name, in the
  order of the names, each of them well formed; names and polarizations sorted and without duplicates; the
  number of sub-swaths as recorded; and the orbit available. The recorded roots are the abstracted metadata
  that the product gives in the store at hand and the original metadata found in the store that this
  leaves, both different from the product's metadata root; and the abstracted metadata there say that the
  mission is Sentinel-1.
\<close>
theorem Sentinel1Utils_ok:
  assumes "Sentinel1Utils e pv p h = Some (Inr (u, h'))"
  shows "utils_ok u \<and>
    (\<exists>h1 r mission. GetAbstractedMetadata e (pv_values pv) p h = Some (Inr (su_abs_root u, h1)) \<and>
       GetOriginalProductMetadata e p h1 = Inr (su_orig_prod_root u) \<and>
       product_root p h = Inr r \<and> su_abs_root u \<noteq> r \<and> su_orig_prod_root u \<noteq> r \<and>
       GetAttributeString e (su_abs_root u) MISSION h1 = Inr mission \<and> starts_with mission ''SENTINEL-1'')"
proof -
  obtain a orig h1 where root: "GetMetadataRoot e (pv_values pv) p h = Some (Inr ((a, orig), h1))"
    and more: "\<exists>a' h2 u0 pols mode names h3 sws left.
      read_abstracted_metadata e (pv_values pv) h2 a' (empty_utils a orig) = Inr u0 \<and>
      GetProductPolarizations e (map band_name (pv_bands pv)) h2 a = Inr pols \<and>
      GetSubSwathNames e (pv_values pv) (map band_name (pv_bands pv)) p h2 = Some (Inr (names, h3)) \<and>
      GetSubSwathParameters e h3 orig names = Inr sws \<and>
      u = u0\<lparr>su_acquisition_mode := mode, su_polarizations := pols, su_sub_swath_names := names,
                    su_num_of_sub_swath := int (length names), su_subswath := sws, su_near_range_on_left := left\<rparr>"
    using assms by (clarsimp simp: Sentinel1Utils_def Let_def then_res_Inr_iff bind_res_Inr_iff) blast
  then obtain a' h2 u0 pols mode names h3 sws left where
      u0: "read_abstracted_metadata e (pv_values pv) h2 a' (empty_utils a orig) = Inr u0"
    and pols: "GetProductPolarizations e (map band_name (pv_bands pv)) h2 a = Inr pols"
    and names: "GetSubSwathNames e (pv_values pv) (map band_name (pv_bands pv)) p h2 = Some (Inr (names, h3))"
    and sws: "GetSubSwathParameters e h3 orig names = Inr sws"
    and u: "u = u0\<lparr>su_acquisition_mode := mode, su_polarizations := pols, su_sub_swath_names := names,
                    su_num_of_sub_swath := int (length names), su_subswath := sws, su_near_range_on_left := left\<rparr>"
    by blast
  have "su_orbit u0 \<noteq> None \<and> su_abs_root u0 = a \<and> su_orig_prod_root u0 = orig"
    using u0 by (auto simp: read_abstracted_metadata_def bind_res_Inr_iff Let_def empty_utils_def)
  moreover have "sorted names \<and> distinct names"
    using names by (auto simp: GetSubSwathNames_def then_res_Inr_iff bind_res_Inr_iff dest!: sub_swath_names_sorted)
  ultimately have "utils_ok u" "su_abs_root u = a" "su_orig_prod_root u = orig"
    using GetSubSwathParameters_ok [OF sws] GetProductPolarizations_sorted [OF pols] map_subswath_length
    by (auto simp: utils_ok_def u)
  then show ?thesis using GetMetadataRoot_roots [OF root] by blast
qed

section \<open>Which sub-swath is found\<close>

text \<open>The borders between the sub-swaths, the first and the last one included.\<close>

definition border :: "sentinel1_utils \<Rightarrow> int \<Rightarrow> fp" where
  "border u i =
     (let sws = su_subswath u; n = int (length sws)
      in if i = 0 then slr_time_to_first_pixel (sws ! 0)
         else if i = n then slr_time_to_last_pixel (sws ! nat (n - 1))
         else fmul f64 (Fin (1 / 2))
                (fadd f64 (slr_time_to_last_pixel (sws ! nat (i - 1))) (slr_time_to_first_pixel (sws ! nat i))))"

lemma fadd_commute: "fadd m x y = fadd m y x"
  by (cases x; cases y) (auto simp: add.commute)

lemma sub_swath_borders:
  assumes "su_num_of_sub_swath u = int (length (su_subswath u))" and "0 \<le> i" and "i < su_num_of_sub_swath u"
  shows "sub_swath_start u i = Inr (border u i)" "sub_swath_end u i = Inr (border u (i + 1))"
  using assms fadd_commute
  by (auto simp: sub_swath_start_def sub_swath_end_def border_def vec_at_def Let_def nat_add_distrib)

lemma sub_swath_found:
  assumes n: "su_num_of_sub_swath u = n" "n = int (length (su_subswath u))"
    and nan: "\<forall>i\<in>{0..n}. border u i \<noteq> NaN"
    and k: "0 \<le> k" "k < n" and "fle (border u k) x" and "fle x (border u n)"
  shows "\<exists>i. k \<le> i \<and> i < n \<and> sub_swath_index_from u x [k..n - 1] = Inr (i + 1) \<and>
           fle (border u i) x \<and> fle x (border u (i + 1))"
  using k assms(6)
proof (induction "nat (n - k)" arbitrary: k rule: less_induct)
  case less
  have c: "sub_swath_start u k = Inr (border u k)" "sub_swath_end u k = Inr (border u (k + 1))"
    using sub_swath_borders [of u k] n less.prems by simp_all
  have here: "sub_swath_index_from u x [k..n - 1] =
      (if fle x (border u (k + 1)) then Inr (k + 1) else sub_swath_index_from u x [k + 1..n - 1])"
    using less.prems c by (simp add: upto_less_cons)
  show ?case
  proof (cases "fle x (border u (k + 1))")
    case True
    then show ?thesis using here less.prems by (intro exI [of _ k]) simp
  next
    case False
    have "x \<noteq> NaN" "border u (k + 1) \<noteq> NaN" using less.prems nan fle_not_NaN by auto
    then have up: "fle (border u (k + 1)) x" using False by (auto simp: fle_less_eq)
    have "k + 1 \<noteq> n" using False assms(7) by auto
    then obtain i where "k + 1 \<le> i \<and> i < n \<and> sub_swath_index_from u x [k + 1..n - 1] = Inr (i + 1) \<and>
           fle (border u i) x \<and> fle x (border u (i + 1))"
      using less.hyps [of "k + 1"] less.prems up by auto
    then show ?thesis using here False by (intro exI [of _ i]) auto
  qed
qed

definition in_sub_swath :: "sentinel1_utils \<Rightarrow> fp \<Rightarrow> int \<Rightarrow> bool" where
  "in_sub_swath u x i \<longleftrightarrow> fle (border u i) x \<and> fle x (border u (i + 1))"

lemma sub_swath_index_first:
  assumes n: "su_num_of_sub_swath u = n" "n = int (length (su_subswath u))" and k: "0 \<le> k" "k \<le> n"
  shows "\<exists>i. sub_swath_index_from u x [k..n - 1] = Inr i \<and>
    (i = 0 \<and> (\<forall>j\<in>{k..<n}. \<not> in_sub_swath u x j) \<or>
     k + 1 \<le> i \<and> i \<le> n \<and> in_sub_swath u x (i - 1) \<and> (\<forall>j\<in>{k..<i - 1}. \<not> in_sub_swath u x j))"
  using k
proof (induction "nat (n - k)" arbitrary: k)
  case 0
  then show ?case by simp
next
  case (Suc d)
  then have k: "0 \<le> k" "k < n" by simp_all
  have c: "sub_swath_start u k = Inr (border u k)" "sub_swath_end u k = Inr (border u (k + 1))"
    using sub_swath_borders [of u k] n k by simp_all
  have here: "sub_swath_index_from u x [k..n - 1] =
      (if in_sub_swath u x k then Inr (k + 1) else sub_swath_index_from u x [k + 1..n - 1])"
    using k c by (simp add: upto_less_cons in_sub_swath_def)
  show ?case
  proof (cases "in_sub_swath u x k")
    case True
    then show ?thesis using here k by (intro exI [of _ "k + 1"]) simp
  next
    case False
    have d: "d = nat (n - (k + 1))" using Suc.hyps(2) by simp
    have split: "{k..<m} = insert k {k + 1..<m}" if "k < m" for m using that by auto
    obtain i where "sub_swath_index_from u x [k + 1..n - 1] = Inr i"
      and "i = 0 \<and> (\<forall>j\<in>{k + 1..<n}. \<not> in_sub_swath u x j) \<or>
        k + 1 + 1 \<le> i \<and> i \<le> n \<and> in_sub_swath u x (i - 1) \<and> (\<forall>j\<in>{k + 1..<i - 1}. \<not> in_sub_swath u x j)"
      using Suc.hyps(1) [of "k + 1", OF d] k by auto
    then show ?thesis using here False k split [of n] split [of "i - 1"] by (intro exI [of _ i]) auto
  qed
qed

lemma borders_ordered:
  assumes "\<forall>i\<in>{0..<n}. fle (border u i) (border u (i + 1))" and "0 \<le> i" "i \<le> j" "j \<le> n" and "border u i \<noteq> NaN"
  shows "fle (border u i) (border u j)"
  using assms(3,4)
proof (induction "nat (j - i)" arbitrary: j)
  case 0
  then show ?case using assms(5) by simp
next
  case (Suc d)
  then have "fle (border u i) (border u (j - 1))" by simp
  moreover have "fle (border u (j - 1)) (border u j)" using assms(1,2) Suc.hyps(2) Suc.prems
    by (auto dest!: bspec [of _ _ "j - 1"])
  ultimately show ?case using fle_trans by blast
qed

lemma outside_borders:
  assumes "\<forall>i\<in>{0..<n}. fle (border u i) (border u (i + 1))" and "\<forall>i\<in>{0..n}. border u i \<noteq> NaN"
    and "flt x (border u 0) \<or> flt (border u n) x \<or> x = NaN" and "0 \<le> i" "i < n"
  shows "\<not> in_sub_swath u x i"
proof
  assume "in_sub_swath u x i"
  then have x: "fle (border u i) x" "fle x (border u (i + 1))" by (simp_all add: in_sub_swath_def)
  have "fle (border u 0) (border u i)" "fle (border u (i + 1)) (border u n)"
    using borders_ordered [OF assms(1), of 0 i] borders_ordered [OF assms(1), of "i + 1" n] assms(2,4,5) by auto
  then have "fle (border u 0) x" "fle x (border u n)" using x fle_trans by blast+
  then show False using assms(3) by (auto simp: flt_less fle_less_eq)
qed

text \<open>
  C27. Sub-swaths by slant range time: the intervals of the sub-swaths share their borders. The index is the
  number of the first sub-swath whose interval contains the time, and 0 if there is none; every time between
  the first pixel of the first sub-swath and the last pixel of the last one has a sub-swath, and when the
  borders are ordered every other time (and a time that is no number) has none. With index 0 reading any of
  the grids throws.
\<close>
theorem GetSubswathIndex_covers:
  assumes "su_num_of_sub_swath u = int (length (su_subswath u))" and "su_subswath u \<noteq> []"
    and "\<forall>i\<in>{0..su_num_of_sub_swath u}. border u i \<noteq> NaN"
  shows "(\<exists>k. GetSubswathIndex u x = Inr k \<and>
           (k = 0 \<and> (\<forall>i\<in>{0..<su_num_of_sub_swath u}. \<not> in_sub_swath u x i) \<or>
            1 \<le> k \<and> k \<le> su_num_of_sub_swath u \<and> in_sub_swath u x (k - 1) \<and> (\<forall>i\<in>{0..<k - 1}. \<not> in_sub_swath u x i))) \<and>
         (fle (border u 0) x \<and> fle x (border u (su_num_of_sub_swath u)) \<longrightarrow> GetSubswathIndex u x \<noteq> Inr 0) \<and>
         ((\<forall>i\<in>{0..<su_num_of_sub_swath u}. fle (border u i) (border u (i + 1))) \<and>
            (flt x (border u 0) \<or> flt (border u (su_num_of_sub_swath u)) x \<or> x = NaN) \<longrightarrow> GetSubswathIndex u x = Inr 0) \<and>
         (GetSubswathIndex u x = Inr 0 \<longrightarrow>
            utils_GetLatitude u t x = Inl Out_of_range \<and> utils_GetLongitude u t x = Inl Out_of_range \<and>
            utils_GetSlantRangeTime u t x = Inl Out_of_range \<and> utils_GetIncidenceAngle u t x = Inl Out_of_range)"
proof -
  let ?n = "su_num_of_sub_swath u"
  have n: "0 < ?n" using assms(1,2) by simp
  obtain k where k: "GetSubswathIndex u x = Inr k"
    and c: "k = 0 \<and> (\<forall>i\<in>{0..<?n}. \<not> in_sub_swath u x i) \<or>
            1 \<le> k \<and> k \<le> ?n \<and> in_sub_swath u x (k - 1) \<and> (\<forall>i\<in>{0..<k - 1}. \<not> in_sub_swath u x i)"
    using sub_swath_index_first [OF refl assms(1), of 0 x] n by (auto simp: GetSubswathIndex_def)
  have "GetSubswathIndex u x \<noteq> Inr 0" if "fle (border u 0) x \<and> fle x (border u ?n)"
    using sub_swath_found [OF refl assms(1,3), of 0 x] that n by (auto simp: GetSubswathIndex_def)
  moreover have "GetSubswathIndex u x = Inr 0"
    if "(\<forall>i\<in>{0..<?n}. fle (border u i) (border u (i + 1))) \<and> (flt x (border u 0) \<or> flt (border u ?n) x \<or> x = NaN)"
    using outside_borders [of ?n u x "k - 1"] that assms(3) c k by auto
  ultimately show ?thesis using k c
    by (auto simp: utils_GetLatitude_def utils_GetLongitude_def utils_GetSlantRangeTime_def utils_GetIncidenceAngle_def
        value_at_def utils_ComputeIndex_def)
qed

definition two_sub_swaths :: sentinel1_utils where
  "two_sub_swaths =
     (empty_utils 1 2)\<lparr>su_num_of_sub_swath := 2,
       su_subswath := [SubSwathInfo\<lparr>slr_time_to_first_pixel := Fin 1, slr_time_to_last_pixel := Fin 4\<rparr>,
                       SubSwathInfo\<lparr>slr_time_to_first_pixel := Fin 4, slr_time_to_last_pixel := Fin 8\<rparr>]\<rparr>"

lemma GetSubswathIndex_covers_witness:
  "GetSubswathIndex two_sub_swaths (Fin 6) = Inr 2 \<and> GetSubswathIndex two_sub_swaths (Fin 9) = Inr 0 \<and>
   utils_GetLatitude two_sub_swaths (Fin 0) (Fin 9) = Inl Out_of_range"
proof -
  have r: "fp_of_rat f64 (of_int k) = Fin (of_int k)" if "k \<in> {4, 8}" for k
    using that f64_exact [of k 0] by auto
  have b: "border two_sub_swaths 0 = Fin 1" "border two_sub_swaths 1 = Fin 4" "border two_sub_swaths 2 = Fin 8"
    using r [of 4] r [of 8] by (simp_all add: border_def two_sub_swaths_def Let_def)
  have n: "su_num_of_sub_swath two_sub_swaths = 2" by (simp add: two_sub_swaths_def)
  have up: "{0..2} = {0, 1, 2 :: int}" "{0..<2} = {0, 1 :: int}" by auto
  note covers = GetSubswathIndex_covers [of two_sub_swaths _ "Fin 0", unfolded n up]
  have ok: "su_subswath two_sub_swaths \<noteq> []" "(2 :: int) = int (length (su_subswath two_sub_swaths))"
    "\<forall>i\<in>{0, 1, 2}. border two_sub_swaths i \<noteq> NaN"
    using b by (simp_all add: two_sub_swaths_def)
  obtain k where k: "GetSubswathIndex two_sub_swaths (Fin 6) = Inr k"
    "k = 0 \<or> 1 \<le> k \<and> k \<le> 2 \<and> in_sub_swath two_sub_swaths (Fin 6) (k - 1)" "k \<noteq> 0"
    using covers [OF ok(2,1,3), of "Fin 6"] b by auto
  then have "k = 1 \<or> k = 2" by auto
  then have "GetSubswathIndex two_sub_swaths (Fin 6) = Inr 2" using k b by (auto simp: in_sub_swath_def)
  moreover have "GetSubswathIndex two_sub_swaths (Fin 9) = Inr 0"
    "utils_GetLatitude two_sub_swaths (Fin 0) (Fin 9) = Inl Out_of_range"
    using covers [OF ok(2,1,3), of "Fin 9"] b by auto
  ultimately show ?thesis by blast
qed

section \<open>A product\<close>

lemma tree_GetAttributeDouble:
  assumes "tree_at h k t" and "name \<noteq> []" and "tree_text (ieq e) t name = Some v"
  shows "GetAttributeDouble e k name h = stod v"
proof -
  obtain j n where j: "GetAttribute e k name h = Inr (Some j)" "text_at h j (n, v)"
    using tree_GetAttribute [OF assms(1,2), of e] assms(3) by (auto simp: option_rel_Some2)
  then show ?thesis using text_at_data [OF j(2)] by (auto simp: GetAttributeDouble_def read_attribute_def double_value_def)
qed

lemma tree_GetAttributeUtc:
  assumes "tree_at h k t" and "name \<noteq> []" and "tree_text (ieq e) t name = Some v"
    and "Parse (casts e) (times e) v = Inr u"
  shows "GetAttributeUtc e k name h = Inr u"
proof -
  obtain j n where j: "GetAttribute e k name h = Inr (Some j)" "text_at h j (n, v)"
    using tree_GetAttribute [OF assms(1,2), of e] assms(3) by (auto simp: option_rel_Some2)
  then show ?thesis using text_at_data [OF j(2)] assms(4)
    by (auto simp: GetAttributeUtc_def read_attribute_def utc_value_def)
qed

definition sample_orbit_vector :: meta_tree where
  "sample_orbit_vector =
     Tree (ORBIT_VECTOR @ ''1'')
       [(ORBIT_VECTOR_TIME, ''0''), (ORBIT_VECTOR_X_POS, ''0''), (ORBIT_VECTOR_Y_POS, ''0''), (ORBIT_VECTOR_Z_POS, ''0''),
        (ORBIT_VECTOR_X_VEL, ''0''), (ORBIT_VECTOR_Y_VEL, ''0''), (ORBIT_VECTOR_Z_VEL, ''0'')] []"

definition sample_orbit :: meta_tree where
  "sample_orbit = Tree ORBIT_STATE_VECTORS [] [sample_orbit_vector]"

definition sample_band :: meta_tree where
  "sample_band = Tree ''Band_IW1_VV'' [(''polarization'', ''VV''), (SWATH, ''IW1'')] []"

definition sample_abstracted :: meta_tree where
  "sample_abstracted =
     Tree ABSTRACT_METADATA_ROOT
       [(ABSTRACTED_METADATA_VERSION, METADATA_VERSION), (MISSION, ''SENTINEL-1A''), (ACQUISITION_MODE, ''IW''),
        (SRGR_FLAG, ''0''), (RADAR_FREQUENCY, ''1''), (RANGE_SPACING, ''0''), (AZIMUTH_SPACING, ''0''),
        (FIRST_LINE_TIME, ''0''), (LAST_LINE_TIME, ''0''), (LINE_TIME_INTERVAL, ''0''), (SLANT_RANGE_TO_FIRST_PIXEL, ''0'')]
       [sample_orbit, sample_band]"

definition sample_original :: meta_tree where
  "sample_original = Tree ORIGINAL_PRODUCT_METADATA [] [Tree ''annotation'' [] [sample_sub_swath]]"

definition sample_root :: meta_tree where
  "sample_root = Tree ''metadata'' [] [sample_abstracted, sample_original]"

lemmas look = tree_text_def tree_child_def sample_env_def tag_defs iequals_upper_def upper_case_def to_upper_def is_lower_def code_def

lemma sample_abstracted_texts:
  "tree_text (ieq sample_env) sample_abstracted ABSTRACTED_METADATA_VERSION = Some METADATA_VERSION"
  "tree_text (ieq sample_env) sample_abstracted MISSION = Some ''SENTINEL-1A''"
  "tree_text (ieq sample_env) sample_abstracted ACQUISITION_MODE = Some ''IW''"
  "tree_text (ieq sample_env) sample_abstracted SRGR_FLAG = Some ''0''"
  "tree_text (ieq sample_env) sample_abstracted RADAR_FREQUENCY = Some ''1''"
  "tree_text (ieq sample_env) sample_abstracted RANGE_SPACING = Some ''0''"
  "tree_text (ieq sample_env) sample_abstracted AZIMUTH_SPACING = Some ''0''"
  "tree_text (ieq sample_env) sample_abstracted FIRST_LINE_TIME = Some ''0''"
  "tree_text (ieq sample_env) sample_abstracted LAST_LINE_TIME = Some ''0''"
  "tree_text (ieq sample_env) sample_abstracted LINE_TIME_INTERVAL = Some ''0''"
  "tree_text (ieq sample_env) sample_abstracted SLANT_RANGE_TO_FIRST_PIXEL = Some ''0''"
  by (simp_all add: sample_abstracted_def look)

lemma sample_orbit_texts:
  "tree_text (ieq sample_env) sample_orbit_vector ORBIT_VECTOR_TIME = Some ''0''"
  "tree_text (ieq sample_env) sample_orbit_vector ORBIT_VECTOR_X_POS = Some ''0''"
  "tree_text (ieq sample_env) sample_orbit_vector ORBIT_VECTOR_Y_POS = Some ''0''"
  "tree_text (ieq sample_env) sample_orbit_vector ORBIT_VECTOR_Z_POS = Some ''0''"
  "tree_text (ieq sample_env) sample_orbit_vector ORBIT_VECTOR_X_VEL = Some ''0''"
  "tree_text (ieq sample_env) sample_orbit_vector ORBIT_VECTOR_Y_VEL = Some ''0''"
  "tree_text (ieq sample_env) sample_orbit_vector ORBIT_VECTOR_Z_VEL = Some ''0''"
  "tree_text (ieq sample_env) sample_band ''polarization'' = Some ''VV''"
  "tree_text (ieq sample_env) sample_band SWATH = Some ''IW1''"
  by (simp_all add: sample_orbit_vector_def sample_band_def look)

lemma sample_root_children:
  "tree_child (ieq sample_env) sample_root ABSTRACT_METADATA_ROOT = Some sample_abstracted"
  "tree_child (ieq sample_env) sample_root ORIGINAL_PRODUCT_METADATA = Some sample_original"
  "tree_child (ieq sample_env) sample_abstracted ORBIT_STATE_VECTORS = Some sample_orbit"
  "tree_child (ieq sample_env) sample_orbit (ORBIT_VECTOR @ ''1'') = Some sample_orbit_vector"
  "tree_child (ieq sample_env) sample_original ''annotation'' = Some (Tree ''annotation'' [] [sample_sub_swath])"
  by (simp_all add: sample_root_def sample_abstracted_def sample_original_def sample_orbit_def sample_orbit_vector_def look)

lemma sample_no_metadata: "\<not> feq (Fin 0) (fp_of_int f64 NO_METADATA)" "\<not> feq (Fin 1) (fp_of_int f64 NO_METADATA)"
proof -
  have "fp_of_int f64 NO_METADATA = Fin 99999"
    using f64_exact [of 99999 0] by (simp add: fp_of_int_def NO_METADATA_def)
  then show "\<not> feq (Fin 0) (fp_of_int f64 NO_METADATA)" "\<not> feq (Fin 1) (fp_of_int f64 NO_METADATA)" by simp_all
qed

lemma sample_one: "stod ''1'' = Inr (Fin 1)" "to_string 1 = ''1''"
proof -
  have "fp_of_rat f64 1 = Fin 1" using f64_exact [of 1 0] by simp
  moreover have "(2::rat) powi min_exp f64 \<le> 1" by (simp add: f64_def power_int_def field_simps)
  ultimately show "stod ''1'' = Inr (Fin 1)"
    by (simp add: stod_def stofp_def real_number_def mantissa_def span_digits_def hex_val_def exponent_def to_lower_def
        is_upper_def read_number)
  show "to_string 1 = ''1''" by code_simp
qed

lemma sample_wavelength:
  assumes "tree_at h a sample_abstracted"
  shows "\<exists>w. GetRadarWavelength sample_env a h = Inr w"
proof -
  have "fp_of_rat f64 1000000 = Fin 1000000" using f64_exact [of 1000000 0] by simp
  then show ?thesis
    using tree_GetAttributeDouble [OF assms _ sample_abstracted_texts(5)]
    by (simp add: GetRadarWavelength_def abs_GetAttributeDouble_def tag_defs sample_one sample_no_metadata)
qed

lemma sample_Parse: "Parse (casts sample_env) (times sample_env) ''0'' = Inr (utc 0 0 0)"
  unfolding Parse_def by (rule sample_date)

lemma sample_orbit_vectors:
  assumes "tree_at h a sample_abstracted"
  shows "\<exists>v. GetOrbitStateVectors sample_env a h = Inr [v]"
proof -
  obtain k where k: "GetElement sample_env a ORBIT_STATE_VECTORS h = Inr (Some k)" "tree_at h k sample_orbit"
    using tree_GetElement_Some [OF assms _ sample_root_children(3)] by (auto simp: tag_defs)
  obtain v where v: "GetElement sample_env k (ORBIT_VECTOR @ ''1'') h = Inr (Some v)" "tree_at h v sample_orbit_vector"
    using tree_GetElement_Some [OF k(2) _ sample_root_children(4)] by (auto simp: tag_defs)
  have n: "GetNumElements k h = Inr 1"
    using tree_elements_at [OF k(2)] by (auto simp: GetNumElements_def sample_orbit_def list_all2_Cons2)
  have names: "ORBIT_VECTOR_TIME \<noteq> []" "ORBIT_VECTOR_X_POS \<noteq> []" "ORBIT_VECTOR_Y_POS \<noteq> []" "ORBIT_VECTOR_Z_POS \<noteq> []"
    "ORBIT_VECTOR_X_VEL \<noteq> []" "ORBIT_VECTOR_Y_VEL \<noteq> []" "ORBIT_VECTOR_Z_VEL \<noteq> []"
    by (simp_all add: tag_defs)
  note read = tree_GetAttributeDouble [OF v(2) names(2) sample_orbit_texts(2)]
    tree_GetAttributeDouble [OF v(2) names(3) sample_orbit_texts(3)] tree_GetAttributeDouble [OF v(2) names(4) sample_orbit_texts(4)]
    tree_GetAttributeDouble [OF v(2) names(5) sample_orbit_texts(5)] tree_GetAttributeDouble [OF v(2) names(6) sample_orbit_texts(6)]
    tree_GetAttributeDouble [OF v(2) names(7) sample_orbit_texts(7)]
    tree_GetAttributeUtc [OF v(2) names(1) sample_orbit_texts(1) sample_Parse]
  show ?thesis
    by (simp add: GetOrbitStateVectors_def k(1) n v(1) sample_one read sample_zero OrbitStateVector_def
        sample_mjd [simplified])
qed

lemma sample_metadata_read:
  assumes a: "tree_at h a sample_abstracted" and "scene_height pv = 0" and "su_abs_root u = a"
  shows "\<exists>u'. read_abstracted_metadata sample_env pv h a u = Inr u'"
proof -
  obtain w where w: "GetRadarWavelength sample_env a h = Inr w" using sample_wavelength [OF a] by blast
  obtain v where v: "GetOrbitStateVectors sample_env a h = Inr [v]" using sample_orbit_vectors [OF a] by blast
  have names: "SRGR_FLAG \<noteq> []" "RANGE_SPACING \<noteq> []" "AZIMUTH_SPACING \<noteq> []" "FIRST_LINE_TIME \<noteq> []" "LAST_LINE_TIME \<noteq> []"
    "LINE_TIME_INTERVAL \<noteq> []" "SLANT_RANGE_TO_FIRST_PIXEL \<noteq> []"
    by (simp_all add: tag_defs)
  note read = tree_GetAttributeInt [OF a names(1) sample_abstracted_texts(4)]
    tree_GetAttributeDouble [OF a names(2) sample_abstracted_texts(6)]
    tree_GetAttributeDouble [OF a names(3) sample_abstracted_texts(7)]
    tree_GetAttributeUtc [OF a names(4) sample_abstracted_texts(8) sample_Parse]
    tree_GetAttributeUtc [OF a names(5) sample_abstracted_texts(9) sample_Parse]
    tree_GetAttributeDouble [OF a names(6) sample_abstracted_texts(10)]
    tree_GetAttributeDouble [OF a names(7) sample_abstracted_texts(11)]
  show ?thesis using assms(2,3)
    by (simp add: read_abstracted_metadata_def GetAttributeBoolean_def abs_GetAttributeDouble_def utc_mjd_of_def read w v
        sample_numbers sample_zero sample_no_metadata [unfolded NO_METADATA_def] NO_METADATA_def sample_mjd [simplified] Let_def
        OrbitStateVectors_lines_def OrbitStateVectors_def RemoveRedundantVectors_def vec_at_def)
qed

lemma sample_found:
  assumes "tree_at h a sample_abstracted"
  shows "sub_swath_names_of sample_env bands h a = Inr [''IW1'']"
    and "GetProductPolarizations sample_env bands h a = Inr [''VV'']"
proof -
  obtain o' b where els: "GetElements a h = Inr [o', b]" "tree_at h o' sample_orbit" "tree_at h b sample_band"
    using tree_elements_at [OF assms] by (auto simp: sample_abstracted_def list_all2_Cons2)
  have names: "node_at (nodes h) o' = Inr (nodes h ! o')" "node_name (nodes h ! o') = ''Orbit_State_Vectors''"
    "node_at (nodes h) b = Inr (nodes h ! b)" "node_name (nodes h ! b) = ''Band_IW1_VV''"
    using tree_at_name [OF els(2)] tree_at_name [OF els(3)]
    by (simp_all add: node_at_def sample_orbit_def sample_band_def tag_defs)
  have ne: "ACQUISITION_MODE \<noteq> []" "SWATH \<noteq> []" "''polarization'' \<noteq> []" by (simp_all add: tag_defs)
  show "sub_swath_names_of sample_env bands h a = Inr [''IW1'']"
    by (simp add: sub_swath_names_of_def tree_GetAttributeString [OF assms ne(1)] sample_abstracted_texts els(1)
        attribute_of_matching_def names contains_def tree_GetAttributeString [OF els(3) ne(2)] sample_orbit_texts add_new_def)
  show "GetProductPolarizations sample_env bands h a = Inr [''VV'']"
    by (simp add: GetProductPolarizations_def els(1) attribute_of_matching_def names contains_def
        tree_GetAttributeString [OF els(3) ne(3)] sample_orbit_texts add_new_def)
qed

lemma sample_parameters:
  assumes "tree_at h g sample_original"
  shows "\<exists>s. GetSubSwathParameters sample_env h g [''IW1''] = Inr [s] \<and>
    incidence_angle s = Some \<lparr>a2_rows = 2, a2_cols = 1, a2_cells = [Some (Fin 0), Some (Fin 0)]\<rparr>"
proof -
  obtain an where an: "GetElement sample_env g ''annotation'' h = Inr (Some an)" "tree_at h an (Tree ''annotation'' [] [sample_sub_swath])"
    using tree_GetElement_Some [OF assms _ sample_root_children(5)] by auto
  obtain x where x: "GetElements an h = Inr [x]" "tree_at h x sample_sub_swath"
    using tree_elements_at [OF an(2)] by (auto simp: list_all2_Cons2)
  have "node_at (nodes h) x = Inr (nodes h ! x)" "node_name (nodes h ! x) = ''s1a-iw1-slc-vv''"
    using tree_at_name [OF x(2)] by (simp_all add: node_at_def sample_sub_swath_def)
  moreover have "map to_lower ''IW1'' = ''iw1''" by code_simp
  ultimately have m: "GetSubSwathMetadata sample_env h g ''IW1'' = Inr (Some x)"
    by (simp add: GetSubSwathMetadata_def an(1) x(1) contains_def)
  have "bursts_ok (SubSwathInfo\<lparr>subswath_name := ''IW1''\<rparr>) 0" by (simp add: bursts_ok_def SubSwathInfo_def)
  from sample_filled [OF x(2) this] m show ?thesis by (auto simp: GetSubSwathParameters_def)
qed

definition sample_laid :: heap where
  "sample_laid = snd (lay sample_root \<lparr>nodes = [], datas = []\<rparr>)"

definition sample_root_ref :: ref where
  "sample_root_ref = fst (lay sample_root \<lparr>nodes = [], datas = []\<rparr>)"

definition sample_members :: product_groups where
  "sample_members =
     \<lparr>band_group = 0, tie_point_grid_group = 0, mask_group = 0, quicklook_group = 0, flag_coding_group = 0,
      index_coding_group = 0, metadata_root = sample_root_ref\<rparr>"

definition product_heap :: heap where
  "product_heap = sample_laid\<lparr>nodes := nodes sample_laid @ [plain_node ''S1A'' (Product sample_members)]\<rparr>"

definition sample_product_ref :: ref where
  "sample_product_ref = length (nodes sample_laid)"

definition sample_view :: product_view where
  "sample_view =
     \<lparr>pv_values = \<lparr>product_type = ''SLC'', start_time = None, end_time = None, scene_width = 9, scene_height = 0\<rparr>,
      pv_bands = [], pv_incidence_angle = None\<rparr>"

lemma product_heap_root:
  "node_at (nodes product_heap) sample_product_ref = Inr (plain_node ''S1A'' (Product sample_members))"
  "tree_at product_heap sample_root_ref sample_root"
proof -
  show "node_at (nodes product_heap) sample_product_ref = Inr (plain_node ''S1A'' (Product sample_members))"
    by (simp add: product_heap_def sample_product_ref_def node_at_def)
  have "extends sample_laid product_heap" by (auto simp: extends_def product_heap_def)
  then show "tree_at product_heap sample_root_ref sample_root"
    using lay_tree extends_tree_at(1) unfolding sample_laid_def sample_root_ref_def by blast
qed

lemma sample_returns: "\<exists>u. Sentinel1Utils sample_env sample_view sample_product_ref product_heap = Some (Inr (u, product_heap))"
proof -
  note root = product_heap_root(2)
  obtain a where a: "GetElement sample_env sample_root_ref ABSTRACT_METADATA_ROOT product_heap = Inr (Some a)"
      "tree_at product_heap a sample_abstracted"
    using tree_GetElement_Some [OF root _ sample_root_children(1)] by (auto simp: tag_defs)
  obtain g where g: "GetElement sample_env sample_root_ref ORIGINAL_PRODUCT_METADATA product_heap = Inr (Some g)"
      "tree_at product_heap g sample_original"
    using tree_GetElement_Some [OF root _ sample_root_children(2)] by (auto simp: tag_defs)
  have names: "node_name (nodes product_heap ! a) = ''Abstracted_Metadata''" "node_name (nodes product_heap ! g) = ''Original_Product_Metadata''"
    "node_name (nodes product_heap ! sample_root_ref) = ''metadata''"
    using tree_at_name [OF a(2)] tree_at_name [OF g(2)] tree_at_name [OF root]
    by (simp_all add: sample_abstracted_def sample_original_def sample_root_def tag_defs)
  then have apart: "a \<noteq> sample_root_ref" "g \<noteq> sample_root_ref" by auto
  have ne: "ABSTRACTED_METADATA_VERSION \<noteq> []" "MISSION \<noteq> []" "ACQUISITION_MODE \<noteq> []" by (simp_all add: tag_defs)
  have abs: "GetAbstractedMetadata sample_env pv sample_product_ref product_heap = Some (Inr (a, product_heap))" for pv
    by (simp add: GetAbstractedMetadata_def product_heap_root(1) plain_node_def sample_members_def a(1) MigrateToCurrentVersion_def
        PatchMissingMetadata_def tree_GetAttributeString [OF a(2) ne(1)] sample_abstracted_texts)
  have gmr: "GetMetadataRoot sample_env pv sample_product_ref product_heap = Some (Inr ((a, g), product_heap))" for pv
    by (simp add: GetMetadataRoot_def product_root_def product_heap_root(1) plain_node_def sample_members_def abs apart
        GetOriginalProductMetadata_def g(1) tree_GetAttributeString [OF a(2) ne(2)] sample_abstracted_texts starts_with_def)
  obtain u where u: "read_abstracted_metadata sample_env (pv_values sample_view) product_heap a (empty_utils a g) = Inr u"
    using sample_metadata_read [OF a(2), of "pv_values sample_view" "empty_utils a g"]
    by (auto simp: sample_view_def empty_utils_def)
  obtain s where s: "GetSubSwathParameters sample_env product_heap g [''IW1''] = Inr [s]"
      "incidence_angle s = Some \<lparr>a2_rows = 2, a2_cols = 1, a2_cells = [Some (Fin 0), Some (Fin 0)]\<rparr>"
    using sample_parameters [OF g(2)] by blast
  show ?thesis
    by (simp add: Sentinel1Utils_def Let_def gmr abs u tree_GetAttributeString [OF a(2) ne(3)] sample_abstracted_texts
        sample_found [OF a(2)] GetSubSwathNames_def s near_range_side_def cell_at_def cell_index_def)
qed

lemma Sentinel1Utils_ok_witness:
  "\<exists>u h. Sentinel1Utils sample_env sample_view sample_product_ref product_heap = Some (Inr (u, h)) \<and> utils_ok u"
  using sample_returns Sentinel1Utils_ok [of sample_env sample_view sample_product_ref product_heap] by blast

end
