(* ===== verification/TopsarSplit.thy ===== *)
theory TopsarSplit
  imports Sentinel1Utils Tiling
begin

text \<open>
  Splitting a TOPSAR product into bursts (\<^verbatim>\<open>topsar_split.cc\<close>, \<^verbatim>\<open>aoi_burst_extract.cc\<close>): which bursts of which
  sub-swath are selected, by number or by an area of interest, the region they make, and the metadata of
  the target product. Polygons are handled by Boost.Geometry, which is a parameter; making the target product
  (\<open>ProductSubsetBuilder\<close>) is not modelled, so the selection and the update of the target's metadata are two
  functions.
\<close>

section \<open>Bursts that an area covers\<close>

type_synonym geo_point = "fp \<times> fp"

text \<open>A polygon: its outer ring and its holes.\<close>

type_synonym polygon = "geo_point list \<times> geo_point list list"

record geometry =
  read_wkt :: "string \<Rightarrow> polygon option"
  common_points :: "polygon \<Rightarrow> polygon \<Rightarrow> geo_point list"
  lies_within :: "polygon \<Rightarrow> polygon \<Rightarrow> bool"

definition GetBurstBoxFrom :: "geo_point list \<Rightarrow> geo_point list \<Rightarrow> polygon res" where
  "GetBurstBoxFrom upper_burst_edge bottom_burst_edge =
     (let last_coordinate_index = int (length upper_burst_edge) - 1
      in bind_res (vec_at upper_burst_edge 0) (\<lambda>polygon_closing_point.
         bind_res (vec_at upper_burst_edge last_coordinate_index) (\<lambda>upper_last.
         bind_res (vec_at bottom_burst_edge last_coordinate_index) (\<lambda>bottom_last.
         bind_res (vec_at bottom_burst_edge 0) (\<lambda>bottom_first.
           Inr ([polygon_closing_point, upper_last, bottom_last, bottom_first, polygon_closing_point], []))))))"

definition IsCovered :: "geometry \<Rightarrow> polygon \<Rightarrow> polygon \<Rightarrow> bool" where
  "IsCovered geo burst aoi \<longleftrightarrow>
     common_points geo aoi burst \<noteq> [] \<or> lies_within geo aoi burst \<or> lies_within geo burst aoi"

definition BURST_INDEX_OFFSET :: int where "BURST_INDEX_OFFSET = 1"

definition burst_box :: "geo_point list list \<Rightarrow> int \<Rightarrow> polygon res" where
  "burst_box edges i =
     bind_res (vec_at edges (i - BURST_INDEX_OFFSET)) (\<lambda>upper_line.
     bind_res (vec_at edges i) (\<lambda>bottom_line. GetBurstBoxFrom upper_line bottom_line))"

fun bursts_covered :: "geometry \<Rightarrow> polygon \<Rightarrow> geo_point list list \<Rightarrow> int list \<Rightarrow> int list res" where
  "bursts_covered geo aoi edges [] = Inr []"
| "bursts_covered geo aoi edges (i # js) =
     bind_res (burst_box edges i) (\<lambda>box.
     bind_res (bursts_covered geo aoi edges js) (\<lambda>rest.
       Inr (if IsCovered geo box aoi then i # rest else rest)))"

definition DetermineBurstIndexesCoveredBy :: "geometry \<Rightarrow> polygon \<Rightarrow> geo_point list list \<Rightarrow> int list res" where
  "DetermineBurstIndexesCoveredBy geo aoi burst_edge_line_points =
     bursts_covered geo aoi burst_edge_line_points [BURST_INDEX_OFFSET..int (length burst_edge_line_points) - 1]"

section \<open>The selection\<close>

record topsar_split =
  sp_subswath :: string
  sp_polarisations :: "string list"
  sp_first_burst_index :: int
  sp_last_burst_index :: int
  sp_burst_aoi_wkt :: string

record split_selection =
  sel_split :: topsar_split
  sel_utils :: sentinel1_utils
  sel_info :: sub_swath_info
  sel_bands :: "band_values list"
  sel_area :: rectangle
  sel_subset :: subset_def

text \<open>The constructors: all bursts by default; a burst number is converted to \<open>int\<close>.\<close>

definition TopsarSplit :: "string \<Rightarrow> string \<Rightarrow> string \<Rightarrow> topsar_split" where
  "TopsarSplit selected_subswath selected_polarisation aoi_polygon_wkt =
     \<lparr>sp_subswath = selected_subswath, sp_polarisations = [selected_polarisation],
      sp_first_burst_index = BURST_INDEX_OFFSET, sp_last_burst_index = 9999, sp_burst_aoi_wkt = aoi_polygon_wkt\<rparr>"

definition TopsarSplit_bursts :: "string \<Rightarrow> string \<Rightarrow> u64 \<Rightarrow> u64 \<Rightarrow> topsar_split" where
  "TopsarSplit_bursts selected_subswath selected_polarisation first_burst last_burst =
     (TopsarSplit selected_subswath selected_polarisation [])
       \<lparr>sp_first_burst_index := wrap_signed 32 (uint first_burst), sp_last_burst_index := wrap_signed 32 (uint last_burst)\<rparr>"

definition check_input :: "'p env \<Rightarrow> product_view \<Rightarrow> ref \<Rightarrow> heap \<Rightarrow> (unit \<times> heap) res option" where
  "check_input e pv p h =
     then_res (InputProductValidator e (pv_values pv) (pv_bands pv) p h) (\<lambda>(v, h). Some (
       bind_res (CheckIfSARProduct e h v) (\<lambda>_.
       bind_res (CheckIfSentinel1Product e h v) (\<lambda>_.
       bind_res (CheckProductType e h v [''SLC'']) (\<lambda>_.
       bind_res (CheckAcquisitionMode e h v [''IW'', ''EW'']) (\<lambda>_. Inr ((), h)))))))"

definition choose_subswath :: "sentinel1_utils \<Rightarrow> string \<Rightarrow> (string \<times> sub_swath_info) res" where
  "choose_subswath u name =
     bind_res
       (if name = [] then
          (case su_sub_swath_names u of [] \<Rightarrow> Inl Algorithm_exception | n # _ \<Rightarrow> Inr n)
        else Inr name) (\<lambda>name.
       case List.find (\<lambda>s. contains (subswath_name s) name) (su_subswath u) of
         None \<Rightarrow> Inl Algorithm_exception
       | Some s \<Rightarrow> Inr (name, s))"

definition bands_of :: "string \<Rightarrow> string list \<Rightarrow> band_values list \<Rightarrow> band_values list" where
  "bands_of subswath pols bands =
     concat (map (\<lambda>b. if contains (band_name b) subswath
                      then map (\<lambda>_. b) (filter (contains (band_name b)) pols) else []) bands)"

definition choose_bands :: "sentinel1_utils \<Rightarrow> band_values list \<Rightarrow> string \<Rightarrow> string list \<Rightarrow> string list \<times> band_values list" where
  "choose_bands u bands subswath pols =
     (let pols = (if pols = [] then su_polarizations u else pols);
          chosen = bands_of subswath pols bands
      in if chosen = [] then (su_polarizations u, bands_of subswath (su_polarizations u) bands) else (pols, chosen))"

definition burst_edges :: "sub_swath_info \<Rightarrow> geo_point list list res" where
  "burst_edges s =
     map_res (\<lambda>line_i.
       map_res (\<lambda>coordinate_i.
         bind_res (cell_at (longitude s) line_i coordinate_i) (\<lambda>lon.
         bind_res (cell_at (latitude s) line_i coordinate_i) (\<lambda>lat. Inr (lon, lat))))
         [0..num_of_geo_points_per_line s - 1])
       [0..num_of_geo_lines s - 1]"

definition choose_bursts :: "geometry \<Rightarrow> sub_swath_info \<Rightarrow> topsar_split \<Rightarrow> topsar_split res" where
  "choose_bursts geo s sp =
     (let max_bursts = num_of_bursts s;
          sp = (if sp_last_burst_index sp > max_bursts then sp\<lparr>sp_last_burst_index := max_bursts\<rparr> else sp)
      in bind_res
           (if sp_burst_aoi_wkt sp = [] then Inr sp
            else case read_wkt geo (sp_burst_aoi_wkt sp) of
              None \<Rightarrow> Inl Algorithm_exception
            | Some aoi_polygon \<Rightarrow>
                bind_res (burst_edges s) (\<lambda>edges.
                bind_res (DetermineBurstIndexesCoveredBy geo aoi_polygon edges) (\<lambda>bursts.
                  if bursts = [] then Inl Algorithm_exception
                  else if hd bursts > last bursts \<or> last bursts > max_bursts then Inl Algorithm_exception
                  else Inr (sp\<lparr>sp_first_burst_index := hd bursts, sp_last_burst_index := last bursts\<rparr>)))) (\<lambda>sp.
           if sp_first_burst_index sp < BURST_INDEX_OFFSET then Inl Algorithm_exception else Inr sp))"

text \<open>An operation that may stop half way with an exception.\<close>

definition added :: "subset_def \<times> unit res \<Rightarrow> subset_def res" where
  "added r = (case r of (d, Inl x) \<Rightarrow> Inl x | (d, Inr _) \<Rightarrow> Inr d)"

definition split_region ::
  "'p env \<Rightarrow> string list \<Rightarrow> (band_values \<Rightarrow> int) \<Rightarrow> sub_swath_info \<Rightarrow> topsar_split \<Rightarrow> band_values list \<Rightarrow>
   (rectangle \<times> subset_def) res" where
  "split_region e grid_names raster_width s sp bands =
     bind_res (added (AddNodeNames (ieq e) (ProductSubsetDef []) (filter (\<lambda>n. contains n (sp_subswath sp)) grid_names))) (\<lambda>d.
     bind_res (int_result ((sp_first_burst_index sp - BURST_INDEX_OFFSET) * lines_per_burst s)) (\<lambda>y.
     bind_res (vec_at bands 0) (\<lambda>band.
     bind_res (int_result (sp_last_burst_index sp - sp_first_burst_index sp)) (\<lambda>more.
     bind_res (int_result ((more + BURST_INDEX_OFFSET) * lines_per_burst s)) (\<lambda>lines.
     bind_res (PixelSubsetRegion 0 y (raster_width band) lines 0) (\<lambda>region.
     bind_res (SetSubSampling (SetSubsetRegion d (Some region)) 1 1) (\<lambda>d.
     bind_res (added (AddNodeNames (ieq e) (SetIgnoreMetadata d False) (map band_name bands))) (\<lambda>d.
       Inr (mk_rect 0 y (raster_width band) lines, d)))))))))"

definition select_bursts ::
  "'p env \<Rightarrow> geometry \<Rightarrow> string list \<Rightarrow> (band_values \<Rightarrow> int) \<Rightarrow> sub_swath_info \<Rightarrow> band_values list \<Rightarrow> topsar_split \<Rightarrow>
   (topsar_split \<times> rectangle \<times> subset_def) res" where
  "select_bursts e geo grid_names raster_width s bands sp =
     bind_res (choose_bursts geo s sp) (\<lambda>sp.
     bind_res (split_region e grid_names raster_width s sp bands) (\<lambda>(area, d). Inr (sp, area, d)))"

definition Initialize_selection ::
  "'p env \<Rightarrow> geometry \<Rightarrow> product_view \<Rightarrow> string list \<Rightarrow> (band_values \<Rightarrow> int) \<Rightarrow> ref \<Rightarrow> topsar_split \<Rightarrow> heap \<Rightarrow>
   (split_selection \<times> heap) res option" where
  "Initialize_selection e geo pv grid_names raster_width p sp h =
     then_res (check_input e pv p h) (\<lambda>(_, h).
     then_res (Sentinel1Utils e pv p h) (\<lambda>(u, h). Some (
       bind_res (choose_subswath u (sp_subswath sp)) (\<lambda>(name, s).
       let (pols, bands) = choose_bands u (pv_bands pv) name (sp_polarisations sp)
       in bind_res (select_bursts e geo grid_names raster_width s bands
                       (sp\<lparr>sp_subswath := name, sp_polarisations := pols\<rparr>)) (\<lambda>(sp, area, d).
            Inr (\<lparr>sel_split = sp, sel_utils = u, sel_info = s, sel_bands = bands, sel_area = area, sel_subset = d\<rparr>, h))))))"

section \<open>The metadata of the target product\<close>

definition burst_utc :: "'p env \<Rightarrow> fp list \<Rightarrow> int \<Rightarrow> product_data res" where
  "burst_utc e line_times i = bind_res (vec_get line_times i) (\<lambda>t. Utc_mjd (casts e) (fdiv f64 t SECONDS_IN_DAY))"

definition set_utc :: "'p env \<Rightarrow> ref \<Rightarrow> string \<Rightarrow> product_data \<Rightarrow> heap \<Rightarrow> heap res" where
  "set_utc e a tag u h = stored (SetAttributeUtc e a tag (utc_array u) h)"

definition set_corner :: "'p env \<Rightarrow> ref \<Rightarrow> string \<Rightarrow> fp array2 option \<Rightarrow> int \<Rightarrow> int \<Rightarrow> heap \<Rightarrow> heap res" where
  "set_corner e a tag grid i j h =
     bind_res (cell_at grid i j) (\<lambda>v. SetAttribute_double e (Some a) tag v h)"

definition set_polarisations :: "'p env \<Rightarrow> ref \<Rightarrow> string list \<Rightarrow> heap \<Rightarrow> heap res" where
  "set_polarisations e a pols h =
     fold_res (\<lambda>(i, pol).
       stored \<circ> SetAttributeString e a
         (if i = 0 then MDS1_TX_RX_POLAR else if i = 1 then MDS2_TX_RX_POLAR
          else if i = 2 then MDS3_TX_RX_POLAR else MDS4_TX_RX_POLAR) pol)
       (zip [0..<length pols] pols) h"

definition remove_if_unselected :: "(string \<Rightarrow> string) \<Rightarrow> ref \<Rightarrow> string \<Rightarrow> string list \<Rightarrow> ref \<Rightarrow> heap \<Rightarrow> heap res" where
  "remove_if_unselected form parent subswath pols k h =
     bind_res (node_at (nodes h) k) (\<lambda>n.
       if contains (form (node_name n)) subswath \<and> (\<exists>pol\<in>set pols. contains (form (node_name n)) pol) then Inr h
       else bind_res (RemoveElement parent (Some k) h) (\<lambda>(_, h). Inr h))"

definition copy_orbit_time :: "'p env \<Rightarrow> ref \<Rightarrow> ref option \<Rightarrow> int \<Rightarrow> heap \<Rightarrow> heap res" where
  "copy_orbit_time e src tgt i h =
     (let elem_name = ORBIT_VECTOR @ to_string i
      in bind_res (GetElement e src elem_name h) (\<lambda>orb_elem.
         bind_res (deref orb_elem) (\<lambda>k.
         bind_res (GetAttributeUtc e k ORBIT_VECTOR_TIME h) (\<lambda>time.
         bind_res (child e h tgt elem_name) (\<lambda>tgt_elem.
         bind_res (deref tgt_elem) (\<lambda>t. set_utc e t ORBIT_VECTOR_TIME time h))))))"

definition UpdateAbstractedMetadata ::
  "'p env \<Rightarrow> topsar_split \<Rightarrow> sub_swath_info \<Rightarrow> ref \<Rightarrow> ref \<Rightarrow> heap \<Rightarrow> heap res" where
  "UpdateAbstractedMetadata e sp s abs_src abs_tgt h =
     (let first = sp_first_burst_index sp - BURST_INDEX_OFFSET; last = sp_last_burst_index sp - BURST_INDEX_OFFSET;
          cols = num_of_geo_points_per_line s
      in bind_res (burst_utc e (burst_first_line_time s) first) (\<lambda>t.
         bind_res (set_utc e abs_tgt FIRST_LINE_TIME t h) (\<lambda>h.
         bind_res (burst_utc e (burst_last_line_time s) last) (\<lambda>t.
         bind_res (set_utc e abs_tgt LAST_LINE_TIME t h) (\<lambda>h.
         bind_res (SetAttributeDouble e abs_tgt LINE_TIME_INTERVAL (azimuth_time_interval s) h) (\<lambda>h.
         bind_res (SetAttributeDouble e abs_tgt SLANT_RANGE_TO_FIRST_PIXEL
                     (fmul f64 (slr_time_to_first_pixel s) LIGHT_SPEED) h) (\<lambda>h.
         bind_res (SetAttributeDouble e abs_tgt RANGE_SPACING (range_pixel_spacing s) h) (\<lambda>h.
         bind_res (SetAttributeDouble e abs_tgt AZIMUTH_SPACING (azimuth_pixel_spacing s) h) (\<lambda>h.
         bind_res (int_result (lines_per_burst s * (sp_last_burst_index sp - sp_first_burst_index sp + BURST_INDEX_OFFSET))) (\<lambda>lines.
         bind_res (SetAttributeInt e abs_tgt NUM_OUTPUT_LINES lines h) (\<lambda>h.
         bind_res (SetAttributeInt e abs_tgt NUM_SAMPLES_PER_LINE (num_of_samples s) h) (\<lambda>h.
         bind_res (set_corner e abs_tgt FIRST_NEAR_LAT (latitude s) first 0 h) (\<lambda>h.
         bind_res (set_corner e abs_tgt FIRST_NEAR_LONG (longitude s) first 0 h) (\<lambda>h.
         bind_res (set_corner e abs_tgt FIRST_FAR_LAT (latitude s) first (cols - 1) h) (\<lambda>h.
         bind_res (set_corner e abs_tgt FIRST_FAR_LONG (longitude s) first (cols - 1) h) (\<lambda>h.
         bind_res (set_corner e abs_tgt LAST_NEAR_LAT (latitude s) (sp_last_burst_index sp) 0 h) (\<lambda>h.
         bind_res (set_corner e abs_tgt LAST_NEAR_LONG (longitude s) (sp_last_burst_index sp) 0 h) (\<lambda>h.
         bind_res (set_corner e abs_tgt LAST_FAR_LAT (latitude s) (sp_last_burst_index sp) (cols - 1) h) (\<lambda>h.
         bind_res (set_corner e abs_tgt LAST_FAR_LONG (longitude s) (sp_last_burst_index sp) (cols - 1) h) (\<lambda>h.
         bind_res (stored (SetAttributeString e abs_tgt swath_tag (sp_subswath sp) h)) (\<lambda>h.
         bind_res (set_polarisations e abs_tgt (sp_polarisations sp) h) (\<lambda>h.
         bind_res (GetBandAbsMetadataList abs_tgt h) (\<lambda>band_metadata_list.
         bind_res (fold_res (remove_if_unselected (\<lambda>n. n) abs_tgt (sp_subswath sp) (sp_polarisations sp))
                     band_metadata_list h) (\<lambda>h.
         bind_res (GetElement e abs_tgt ORBIT_STATE_VECTORS h) (\<lambda>tgt_orbit_vectors_elem.
         bind_res (GetElement e abs_src ORBIT_STATE_VECTORS h) (\<lambda>src_orbit_vectors_elem.
         bind_res (deref src_orbit_vectors_elem) (\<lambda>src.
         bind_res (GetNumElements src h) (\<lambda>num_orbit_vectors.
           fold_res (copy_orbit_time e src tgt_orbit_vectors_elem) [1..num_orbit_vectors] h))))))))))))))))))))))))))))"

definition RemoveElements :: "'p env \<Rightarrow> topsar_split \<Rightarrow> ref \<Rightarrow> string \<Rightarrow> heap \<Rightarrow> heap res" where
  "RemoveElements e sp orig_meta parent h =
     bind_res (GetElement e orig_meta parent h) (\<lambda>parent_elem.
       case parent_elem of
         None \<Rightarrow> Inr h
       | Some k \<Rightarrow>
           bind_res (GetElements k h) (\<lambda>elem_list.
             fold_res (remove_if_unselected (map to_upper) k (sp_subswath sp) (sp_polarisations sp)) elem_list h))"

definition burst_out_of_selection :: "topsar_split \<Rightarrow> int \<Rightarrow> bool" where
  "burst_out_of_selection sp i \<longleftrightarrow>
     i < sp_first_burst_index sp - BURST_INDEX_OFFSET \<or> i > sp_last_burst_index sp - BURST_INDEX_OFFSET"

definition remove_unselected_burst :: "topsar_split \<Rightarrow> ref \<Rightarrow> int \<times> ref \<Rightarrow> heap \<Rightarrow> heap res" where
  "remove_unselected_burst sp burst_list = (\<lambda>(i, k) h.
     if burst_out_of_selection sp i then bind_res (RemoveElement burst_list (Some k) h) (\<lambda>(_, h). Inr h)
     else Inr h)"

definition remove_bursts_of :: "topsar_split \<Rightarrow> ref \<Rightarrow> heap \<Rightarrow> heap res" where
  "remove_bursts_of sp burst_list h =
     bind_res (GetElements burst_list h) (\<lambda>burst_list_elem.
       fold_res (remove_unselected_burst sp burst_list)
         (zip (map int [0..<length burst_list_elem]) burst_list_elem) h)"

definition annotation_elements :: "'p env \<Rightarrow> ref \<Rightarrow> heap \<Rightarrow> ref list res" where
  "annotation_elements e orig_meta h =
     bind_res (GetElement e orig_meta ''annotation'' h) (\<lambda>annotation.
       case annotation of None \<Rightarrow> Inl Algorithm_exception | Some k \<Rightarrow> GetElements k h)"

definition remove_bursts_below :: "'p env \<Rightarrow> topsar_split \<Rightarrow> ref \<Rightarrow> heap \<Rightarrow> heap res" where
  "remove_bursts_below e sp elem h =
     bind_res (child e h (Some elem) ''product'') (\<lambda>product.
     bind_res (child e h product ''swathTiming'') (\<lambda>swath_timing.
     bind_res (child e h swath_timing ''burstList'') (\<lambda>burst_list.
     bind_res (deref burst_list) (\<lambda>b.
     bind_res (int_result (sp_last_burst_index sp - sp_first_burst_index sp + BURST_INDEX_OFFSET)) (\<lambda>n.
     bind_res (stored (SetAttributeString e b ''count'' (to_string n) h)) (\<lambda>h. remove_bursts_of sp b h))))))"

definition RemoveBursts :: "'p env \<Rightarrow> topsar_split \<Rightarrow> ref \<Rightarrow> heap \<Rightarrow> heap res" where
  "RemoveBursts e sp orig_meta h =
     bind_res (annotation_elements e orig_meta h) (\<lambda>elems. fold_res (remove_bursts_below e sp) elems h)"

definition update_image_information_below ::
  "'p env \<Rightarrow> topsar_split \<Rightarrow> sub_swath_info \<Rightarrow> ref \<Rightarrow> heap \<Rightarrow> heap res" where
  "update_image_information_below e sp s elem h =
     bind_res (child e h (Some elem) ''product'') (\<lambda>product.
     bind_res (child e h product ''imageAnnotation'') (\<lambda>image_annotation.
     bind_res (child e h image_annotation ''imageInformation'') (\<lambda>image_information.
     bind_res (deref image_information) (\<lambda>k.
     bind_res (int_result (lines_per_burst s * (sp_last_burst_index sp - sp_first_burst_index sp + BURST_INDEX_OFFSET))) (\<lambda>lines.
     bind_res (stored (SetAttributeString e k ''numberOfLines'' (to_string lines) h)) (\<lambda>h.
     bind_res (burst_utc e (burst_first_line_time s) (sp_first_burst_index sp - BURST_INDEX_OFFSET)) (\<lambda>t.
     bind_res (Format_pattern (casts e) (times e) t ''%Y-%m-%d %H:%M:%S'') (\<lambda>text.
     bind_res (stored (SetAttributeString e k ''productFirstLineUtcTime'' text h)) (\<lambda>h.
     bind_res (burst_utc e (burst_last_line_time s) (sp_last_burst_index sp - BURST_INDEX_OFFSET)) (\<lambda>t.
     bind_res (Format_pattern (casts e) (times e) t ''%Y-%m-%d %H:%M:%S'') (\<lambda>text.
       stored (SetAttributeString e k ''productLastLineUtcTime'' text h))))))))))))"

definition UpdateImageInformation :: "'p env \<Rightarrow> topsar_split \<Rightarrow> sub_swath_info \<Rightarrow> ref \<Rightarrow> heap \<Rightarrow> heap res" where
  "UpdateImageInformation e sp s orig_meta h =
     bind_res (annotation_elements e orig_meta h) (\<lambda>elems. fold_res (update_image_information_below e sp s) elems h)"

definition UpdateOriginalMetadata :: "'p env \<Rightarrow> topsar_split \<Rightarrow> sub_swath_info \<Rightarrow> ref \<Rightarrow> heap \<Rightarrow> heap res" where
  "UpdateOriginalMetadata e sp s target h =
     bind_res (GetOriginalProductMetadata e target h) (\<lambda>orig_meta.
     bind_res (RemoveElements e sp orig_meta ''annotation'' h) (\<lambda>h.
     bind_res (RemoveElements e sp orig_meta ''calibration'' h) (\<lambda>h.
     bind_res (RemoveElements e sp orig_meta ''noise'' h) (\<lambda>h.
     bind_res (RemoveBursts e sp orig_meta h) (\<lambda>h. UpdateImageInformation e sp s orig_meta h)))))"

definition UpdateTargetProductMetadata ::
  "'p env \<Rightarrow> product_values \<Rightarrow> product_values \<Rightarrow> topsar_split \<Rightarrow> sub_swath_info \<Rightarrow> ref \<Rightarrow> ref \<Rightarrow> heap \<Rightarrow> heap res option" where
  "UpdateTargetProductMetadata e source_values target_values sp s source target h =
     then_res (GetAbstractedMetadata e source_values source h) (\<lambda>(abs_src, h).
     then_res (GetAbstractedMetadata e target_values target h) (\<lambda>(abs_tgt, h). Some (
       bind_res (UpdateAbstractedMetadata e sp s abs_src abs_tgt h) (\<lambda>h.
         UpdateOriginalMetadata e sp s target h))))"

section \<open>The selected bursts\<close>

text \<open>A burst that the area covers.\<close>

definition covered_burst :: "geometry \<Rightarrow> polygon \<Rightarrow> geo_point list list \<Rightarrow> int \<Rightarrow> bool" where
  "covered_burst geo aoi edges i \<longleftrightarrow> (case burst_box edges i of Inl _ \<Rightarrow> False | Inr box \<Rightarrow> IsCovered geo box aoi)"

lemma bursts_covered_filter:
  "bursts_covered geo aoi edges js = Inr bs \<Longrightarrow> bs = filter (covered_burst geo aoi edges) js"
  by (induction js arbitrary: bs) (auto simp: bind_res_Inr_iff covered_burst_def)

lemma ends_of_sorted:
  fixes xs :: "int list"
  assumes "sorted xs" and "x \<in> set xs"
  shows "hd xs \<le> x" "x \<le> last xs"
proof -
  obtain k where k: "k < length xs" "x = xs ! k" using assms(2) by (auto simp: in_set_conv_nth)
  then have "xs \<noteq> []" by auto
  then show "hd xs \<le> x" "x \<le> last xs"
    using k sorted_nth_mono [OF assms(1), of 0 k] sorted_nth_mono [OF assms(1), of k "length xs - 1"]
    by (auto simp: hd_conv_nth last_conv_nth)
qed

lemma choose_bursts_range:
  assumes "choose_bursts geo s sp = Inr sp'"
  shows "1 \<le> sp_first_burst_index sp'" "sp_last_burst_index sp' \<le> num_of_bursts s"
    and "sp_burst_aoi_wkt sp \<noteq> [] \<Longrightarrow>
      \<exists>aoi edges. read_wkt geo (sp_burst_aoi_wkt sp) = Some aoi \<and> burst_edges s = Inr edges \<and>
        covered_burst geo aoi edges (sp_first_burst_index sp') \<and> covered_burst geo aoi edges (sp_last_burst_index sp') \<and>
        (\<forall>i. 1 \<le> i \<and> i < int (length edges) \<and> covered_burst geo aoi edges i \<longrightarrow>
           sp_first_burst_index sp' \<le> i \<and> i \<le> sp_last_burst_index sp')"
proof -
  show "1 \<le> sp_first_burst_index sp'" "sp_last_burst_index sp' \<le> num_of_bursts s"
    using assms by (auto simp: choose_bursts_def Let_def bind_res_Inr_iff BURST_INDEX_OFFSET_def
        split: if_splits option.splits)
  assume "sp_burst_aoi_wkt sp \<noteq> []"
  then obtain aoi edges bs where r: "read_wkt geo (sp_burst_aoi_wkt sp) = Some aoi" "burst_edges s = Inr edges"
      "DetermineBurstIndexesCoveredBy geo aoi edges = Inr bs" "bs \<noteq> []"
      "sp_first_burst_index sp' = hd bs" "sp_last_burst_index sp' = last bs"
    using assms by (auto simp: choose_bursts_def Let_def bind_res_Inr_iff split: if_splits option.splits)
  have bs: "bs = filter (covered_burst geo aoi edges) [1..int (length edges) - 1]"
    using bursts_covered_filter r(3) by (simp add: DetermineBurstIndexesCoveredBy_def BURST_INDEX_OFFSET_def)
  have "sorted bs" unfolding bs by (rule sorted_wrt_filter) simp
  moreover have "hd bs \<in> set bs" "last bs \<in> set bs" using r(4) by simp_all
  ultimately show "\<exists>aoi edges. read_wkt geo (sp_burst_aoi_wkt sp) = Some aoi \<and> burst_edges s = Inr edges \<and>
        covered_burst geo aoi edges (sp_first_burst_index sp') \<and> covered_burst geo aoi edges (sp_last_burst_index sp') \<and>
        (\<forall>i. 1 \<le> i \<and> i < int (length edges) \<and> covered_burst geo aoi edges i \<longrightarrow>
           sp_first_burst_index sp' \<le> i \<and> i \<le> sp_last_burst_index sp')"
    using r ends_of_sorted [OF \<open>sorted bs\<close>] by (auto simp: bs)
qed

lemma split_region_area:
  assumes "split_region e names w s sp bands = Inr (area, d)"
  shows "0 \<le> (sp_first_burst_index sp - 1) * lines_per_burst s"
    and "1 \<le> (sp_last_burst_index sp - sp_first_burst_index sp + 1) * lines_per_burst s"
    and "bands \<noteq> []" and "area = mk_rect 0 ((sp_first_burst_index sp - 1) * lines_per_burst s) (w (hd bands))
           ((sp_last_burst_index sp - sp_first_burst_index sp + 1) * lines_per_burst s)"
  using assms
  by (auto simp: split_region_def bind_res_Inr_iff int_result_Inr_iff PixelSubsetRegion_def BURST_INDEX_OFFSET_def
      vec_at_Inr_iff hd_conv_nth split: if_splits)

text \<open>
  C28. The selected bursts are a range of the sub-swath's bursts, the region of the target product is the lines
  of exactly these bursts, and with an area of interest the range begins and ends with a burst the area covers
  and leaves none of the covered bursts out.
\<close>

theorem select_bursts_region:
  assumes "select_bursts e geo grid_names raster_width s bands sp = Inr (sp', area, d)" and "0 \<le> lines_per_burst s"
  shows "1 \<le> sp_first_burst_index sp' \<and> sp_first_burst_index sp' \<le> sp_last_burst_index sp' \<and>
    sp_last_burst_index sp' \<le> num_of_bursts s \<and>
    area = mk_rect 0 ((sp_first_burst_index sp' - 1) * lines_per_burst s) (raster_width (hd bands))
       ((sp_last_burst_index sp' - sp_first_burst_index sp' + 1) * lines_per_burst s) \<and>
    (sp_burst_aoi_wkt sp \<noteq> [] \<longrightarrow>
      (\<exists>aoi edges. read_wkt geo (sp_burst_aoi_wkt sp) = Some aoi \<and> burst_edges s = Inr edges \<and>
        covered_burst geo aoi edges (sp_first_burst_index sp') \<and> covered_burst geo aoi edges (sp_last_burst_index sp') \<and>
        (\<forall>i. 1 \<le> i \<and> i < int (length edges) \<and> covered_burst geo aoi edges i \<longrightarrow>
           sp_first_burst_index sp' \<le> i \<and> i \<le> sp_last_burst_index sp')))"
proof -
  have c: "choose_bursts geo s sp = Inr sp'" and r: "split_region e grid_names raster_width s sp' bands = Inr (area, d)"
    using assms(1) by (auto simp: select_bursts_def bind_res_Inr_iff)
  have "0 < (sp_last_burst_index sp' - sp_first_burst_index sp' + 1) * lines_per_burst s"
    using split_region_area(2) [OF r] by simp
  then have "sp_first_burst_index sp' \<le> sp_last_burst_index sp'"
    using assms(2) by (auto simp: zero_less_mult_iff)
  then show ?thesis using choose_bursts_range [OF c] split_region_area(4) [OF r] by blast
qed

section \<open>The burst list\<close>

lemma RemoveElement_spec:
  assumes "GetElements b h = Inr kids" and "k \<in> set kids" "k < length (nodes h)" and "refs_ok (nodes h)"
  shows "\<exists>h'. RemoveElement b (Some k) h = Inr (True, h') \<and> GetElements b h' = Inr (remove1 k kids) \<and>
    refs_ok (nodes h') \<and> length (nodes h') = length (nodes h) \<and>
    (\<forall>j < length (nodes h). node_name (nodes h' ! j) = node_name (nodes h ! j))"
proof -
  obtain g ats removed own where e: "element_at h b = Inr (Some g, ats)" and g: "group_at (nodes h) g = Inr (kids, removed, own)"
    using GetElements_group [OF assms(1)] assms(2) by auto
  obtain ns' where ns': "group_Remove g (Some k) (nodes h) = Inr (True, ns')"
    and c: "group_changed g (remove1 k kids) (removed @ [k]) own k
        (if own \<and> owner (nodes h ! k) = Some g then None else owner (nodes h ! k)) (nodes h) ns'"
    using group_Remove_spec [OF g assms(2-4)] by blast
  note p = group_changed_parts [OF c group_at_range [OF g]]
  have "b \<noteq> g" "b < length (nodes h)"
    using e g by (auto simp: element_at_def group_at_def node_at_def bind_res_Inr_iff split: if_splits body.splits)
  then have "element_at (h\<lparr>nodes := ns'\<rparr>) b = element_at h b"
    using p(2,7) by (simp add: element_at_def node_at_def)
  then show ?thesis using e ns' p(1,2,3,6) by (auto simp: RemoveElement_def GetElements_def)
qed

lemma remove_bursts_loop:
  assumes "GetElements b h = Inr (kept @ map snd todo)" and "distinct (kept @ map snd todo)"
    and "\<forall>k\<in>set (map snd todo). k < length (nodes h)" and "refs_ok (nodes h)"
  shows "\<exists>h'. fold_res (remove_unselected_burst sp b) todo h = Inr h' \<and>
    GetElements b h' = Inr (kept @ map snd (filter (\<lambda>(i, k). \<not> burst_out_of_selection sp i) todo)) \<and>
    (\<forall>j < length (nodes h). node_name (nodes h' ! j) = node_name (nodes h ! j))"
  using assms
proof (induction todo arbitrary: kept h)
  case Nil
  then show ?case by simp
next
  case (Cons x todo)
  obtain i k where x: "x = (i, k)" by (cases x)
  show ?case
  proof (cases "burst_out_of_selection sp i")
    case True
    obtain h1 where h1: "RemoveElement b (Some k) h = Inr (True, h1)" "GetElements b h1 = Inr (remove1 k (kept @ map snd (x # todo)))"
      "refs_ok (nodes h1)" "length (nodes h1) = length (nodes h)"
      "\<forall>j < length (nodes h). node_name (nodes h1 ! j) = node_name (nodes h ! j)"
      using RemoveElement_spec [OF Cons.prems(1), of k] Cons.prems(3,4) x by auto
    have "remove1 k (kept @ map snd (x # todo)) = kept @ map snd todo"
      using Cons.prems(2) by (simp add: x remove1_append)
    then show ?thesis
      using Cons.IH [of h1 kept] Cons.prems(2,3) h1 True by (auto simp: remove_unselected_burst_def x)
  next
    case False
    then show ?thesis
      using Cons.IH [of h "kept @ [k]"] Cons.prems by (auto simp: remove_unselected_burst_def x)
  qed
qed

lemma filter_index_range:
  "map snd (filter (\<lambda>(i, k). a \<le> i \<and> i \<le> c) (zip (map int [m..<m + length xs]) xs)) =
   take (nat (c + 1 - max a (int m))) (drop (nat (a - int m)) xs)"
proof (induction xs arbitrary: m)
  case Nil
  then show ?case by simp
next
  case (Cons x xs)
  have l: "[m..<m + length (x # xs)] = m # [Suc m..<Suc m + length xs]"
    using upt_conv_Cons [of m "m + length (x # xs)"] by simp
  show ?case
  proof (cases "int m < a")
    case True
    then have "nat (a - int m) = Suc (nat (a - int (Suc m)))" "max a (int (Suc m)) = a" "max a (int m) = a" by simp_all
    then show ?thesis using True Cons.IH [of "Suc m"] unfolding l by simp
  next
    case False
    show ?thesis
    proof (cases "int m \<le> c")
      case True
      then have "nat (c + 1 - int m) = Suc (nat (c + 1 - int (Suc m)))" by simp
      then show ?thesis using False True Cons.IH [of "Suc m"] unfolding l by simp
    next
      case m: False
      then show ?thesis using False Cons.IH [of "Suc m"] unfolding l by simp
    qed
  qed
qed

text \<open>
  C29. Removing the unselected bursts from a burst list succeeds and leaves the elements of the selected bursts,
  in their order and with their names.
\<close>

theorem remove_bursts_of_selection:
  assumes "GetElements b h = Inr bursts" and "distinct bursts" "\<forall>k\<in>set bursts. k < length (nodes h)"
    and "refs_ok (nodes h)"
    and "1 \<le> sp_first_burst_index sp" "sp_first_burst_index sp \<le> sp_last_burst_index sp"
  shows "\<exists>h'. remove_bursts_of sp b h = Inr h' \<and>
    GetElements b h' = Inr (take (nat (sp_last_burst_index sp - sp_first_burst_index sp + 1))
                              (drop (nat (sp_first_burst_index sp - 1)) bursts)) \<and>
    (\<forall>k\<in>set bursts. node_name (nodes h' ! k) = node_name (nodes h ! k))"
proof -
  let ?todo = "zip (map int [0..<length bursts]) bursts"
  have s: "map snd ?todo = bursts" by simp
  obtain h' where h': "fold_res (remove_unselected_burst sp b) ?todo h = Inr h'"
    "GetElements b h' = Inr (map snd (filter (\<lambda>(i, k). \<not> burst_out_of_selection sp i) ?todo))"
    "\<forall>j < length (nodes h). node_name (nodes h' ! j) = node_name (nodes h ! j)"
    using remove_bursts_loop [of b h "[]" ?todo sp] assms(1-4) by (auto simp: s)
  have "(\<lambda>(i, k). \<not> burst_out_of_selection sp i) = (\<lambda>(i, k :: ref). sp_first_burst_index sp - 1 \<le> i \<and> i \<le> sp_last_burst_index sp - 1)"
    by (auto simp: burst_out_of_selection_def BURST_INDEX_OFFSET_def fun_eq_iff)
  then have "map snd (filter (\<lambda>(i, k). \<not> burst_out_of_selection sp i) ?todo) =
      take (nat (sp_last_burst_index sp - sp_first_burst_index sp + 1)) (drop (nat (sp_first_burst_index sp - 1)) bursts)"
    using filter_index_range [of "sp_first_burst_index sp - 1" "sp_last_burst_index sp - 1" 0 bursts] assms(5)
    by (simp add: algebra_simps)
  then show ?thesis using h' assms(1,3) by (auto simp: remove_bursts_of_def)
qed

section \<open>Witnesses\<close>

text \<open>Three grid lines of one point; areas meet where they share a point.\<close>

definition point_geometry :: geometry where
  "point_geometry =
     \<lparr>read_wkt = (\<lambda>_. Some ([(Fin 0, Fin 2)], [])), common_points = (\<lambda>a b. filter (\<lambda>q. q \<in> set (fst b)) (fst a)),
      lies_within = (\<lambda>_ _. False)\<rparr>"

definition two_bursts :: sub_swath_info where
  "two_bursts =
     SubSwathInfo\<lparr>num_of_bursts := 2, lines_per_burst := 5, num_of_geo_lines := 3, num_of_geo_points_per_line := 1,
       latitude := Some \<lparr>a2_rows = 3, a2_cols = 1, a2_cells = [Some (Fin 0), Some (Fin 1), Some (Fin 2)]\<rparr>,
       longitude := Some \<lparr>a2_rows = 3, a2_cols = 1, a2_cells = [Some (Fin 0), Some (Fin 0), Some (Fin 0)]\<rparr>\<rparr>"

definition vv_band :: band_values where
  "vv_band = \<lparr>band_name = ''i_IW1_VV'', band_unit = None, is_virtual = False\<rparr>"

lemma two_bursts_selected:
  "\<exists>d. select_bursts sample_env point_geometry [] (\<lambda>_. 7) two_bursts [vv_band] (TopsarSplit ''IW1'' ''VV'' ''P'') =
    Inr ((TopsarSplit ''IW1'' ''VV'' ''P'')\<lparr>sp_first_burst_index := 2, sp_last_burst_index := 2\<rparr>, mk_rect 0 5 7 5, d)"
proof -
  have up: "[0..2] = [0, 1, 2::int]" "[0..0] = [0::int]" "[1..2] = [1, 2::int]"
    by (simp_all add: upto.simps)
  have e: "burst_edges two_bursts = Inr [[(Fin 0, Fin 0)], [(Fin 0, Fin 1)], [(Fin 0, Fin 2)]]"
    by (simp add: burst_edges_def two_bursts_def up cell_at_def cell_index_def)
  have "DetermineBurstIndexesCoveredBy point_geometry ([(Fin 0, Fin 2)], []) [[(Fin 0, Fin 0)], [(Fin 0, Fin 1)], [(Fin 0, Fin 2)]] = Inr [2]"
    by (simp add: DetermineBurstIndexesCoveredBy_def BURST_INDEX_OFFSET_def up burst_box_def vec_at_def GetBurstBoxFrom_def
        Let_def IsCovered_def point_geometry_def)
  then have c: "choose_bursts point_geometry two_bursts (TopsarSplit ''IW1'' ''VV'' ''P'') =
      Inr ((TopsarSplit ''IW1'' ''VV'' ''P'')\<lparr>sp_first_burst_index := 2, sp_last_burst_index := 2\<rparr>)"
    using e by (simp add: choose_bursts_def TopsarSplit_def Let_def BURST_INDEX_OFFSET_def) (simp add: point_geometry_def two_bursts_def)
  have l: "lines_per_burst two_bursts = 5" by (simp add: two_bursts_def)
  show ?thesis
    by (simp add: select_bursts_def c split_region_def added_def BURST_INDEX_OFFSET_def l vec_at_def ContainsNodeName_iff
        int_result_def int32_range_def PixelSubsetRegion_def AbstractSubsetRegion_def SetSubSampling_def
        AddNodeName_def SetSubsetRegion_def SetIgnoreMetadata_def ProductSubsetDef_def vv_band_def)
qed

lemma select_bursts_region_witness:
  "\<exists>sp' area d. select_bursts sample_env point_geometry [] (\<lambda>_. 7) two_bursts [vv_band] (TopsarSplit ''IW1'' ''VV'' ''P'') =
      Inr (sp', area, d) \<and> sp_first_burst_index sp' = 2 \<and> sp_last_burst_index sp' \<le> 2 \<and> area = mk_rect 0 5 7 5 \<and>
      (\<exists>aoi edges. burst_edges two_bursts = Inr edges \<and> covered_burst point_geometry aoi edges 2)"
proof -
  obtain d where s: "select_bursts sample_env point_geometry [] (\<lambda>_. 7) two_bursts [vv_band] (TopsarSplit ''IW1'' ''VV'' ''P'') =
    Inr ((TopsarSplit ''IW1'' ''VV'' ''P'')\<lparr>sp_first_burst_index := 2, sp_last_burst_index := 2\<rparr>, mk_rect 0 5 7 5, d)"
    using two_bursts_selected by blast
  have l: "0 \<le> lines_per_burst two_bursts" by (simp add: two_bursts_def)
  have "sp_burst_aoi_wkt (TopsarSplit ''IW1'' ''VV'' ''P'') \<noteq> []" by (simp add: TopsarSplit_def)
  then have "\<exists>aoi edges. burst_edges two_bursts = Inr edges \<and> covered_burst point_geometry aoi edges 2"
    using select_bursts_region [OF s l] by auto
  moreover have "sp_last_burst_index ((TopsarSplit ''IW1'' ''VV'' ''P'')\<lparr>sp_first_burst_index := 2, sp_last_burst_index := 2\<rparr>) \<le> 2"
    by simp
  ultimately show ?thesis unfolding s by auto
qed

definition burst_list_store :: heap where
  "burst_list_store =
     \<lparr>nodes = [plain_node ''burstList'' (Element (Some 1) None), plain_node ''elements'' (Group [2, 3, 4] [] True),
        plain_node ''burst'' (Element None None), plain_node ''burst'' (Element None None), plain_node ''burst'' (Element None None)],
      datas = []\<rparr>"

lemma remove_bursts_of_selection_witness:
  "\<exists>h'. remove_bursts_of (TopsarSplit_bursts ''IW1'' ''VV'' 2 2) 0 burst_list_store = Inr h' \<and> GetElements 0 h' = Inr [3]"
proof -
  let ?sp = "TopsarSplit_bursts ''IW1'' ''VV'' 2 2"
  have e: "GetElements 0 burst_list_store = Inr [2, 3, 4]"
    by (simp add: burst_list_store_def GetElements_def element_at_def node_at_def group_at_def plain_node_def)
  have "\<forall>k\<in>set [2, 3, 4]. k < length (nodes burst_list_store)" "refs_ok (nodes burst_list_store)"
    by (simp_all add: burst_list_store_def refs_ok_def plain_node_def)
  moreover have "sp_first_burst_index ?sp = 2" "sp_last_burst_index ?sp = 2"
    by (simp_all add: TopsarSplit_bursts_def TopsarSplit_def wrap_signed_def)
  ultimately show ?thesis
    using remove_bursts_of_selection [OF e, of ?sp] by (auto simp: numeral_2_eq_2)
qed

end
