(* ===== verification/Doppler.thy ===== *)
theory Doppler
  imports Sentinel1Utils Tiling
begin

text \<open>
  The Doppler quantities of a TOPSAR product (\<^verbatim>\<open>sentinel1_utils.cc\<close>): for every burst and range sample the
  Doppler centroid, the range dependent and the total Doppler rate and the reference time, each kept in a grid
  of the sub-swath, and the deramp and demodulation phase computed from them. The metadata reader of the
  constructor from a file is not modelled. \<open>sqrt\<close> and \<open>pow\<close> of the C library are a parameter.
\<close>

record libm =
  sqrt_fn :: "fp \<Rightarrow> fp"
  pow_fn :: "fp \<Rightarrow> fp \<Rightarrow> fp"

definition PI :: fp where
  "PI = fp_of_rat f64 (31415926535897932384626433832795028841971693993751058209749445923078164062862089986280348 / 10 ^ 88)"

definition TWO_PI :: fp where "TWO_PI = fmul f64 (Fin 2) PI"

definition DTOR :: fp where "DTOR = fdiv f64 PI (Fin 180)"

record azimuth_fm_rate =
  fm_time :: fp
  fm_t0 :: fp
  fm_c0 :: fp
  fm_c1 :: fp
  fm_c2 :: fp

record dc_polynomial =
  dc_time :: fp
  dc_t0 :: fp
  data_dc_polynomial :: "fp list"

section \<open>Reading the estimates\<close>

definition annotated_product :: "'p env \<Rightarrow> heap \<Rightarrow> sentinel1_utils \<Rightarrow> string \<Rightarrow> ref option res" where
  "annotated_product e h u name =
     bind_res (GetSubSwathMetadata e h (su_orig_prod_root u) name) (\<lambda>m. child e h m ''product'')"

definition read_dc_estimate :: "'p env \<Rightarrow> heap \<Rightarrow> string \<Rightarrow> ref \<Rightarrow> dc_polynomial res" where
  "read_dc_estimate e h dc_method list_elem =
     bind_res (seconds_of e h (Some list_elem) ''azimuthTime'') (\<lambda>t.
     bind_res (GetAttributeDouble e list_elem ''t0'' h) (\<lambda>t0.
     let tag = (if contains dc_method ''Data Analysis'' then ''dataDcPolynomial'' else ''geometryDcPolynomial'')
     in bind_res (child e h (Some list_elem) tag) (\<lambda>polynomial_elem.
        bind_res (attr_pointer e h polynomial_elem tag) (\<lambda>att.
        bind_res (GetDoubleVector e h att '' '') (\<lambda>coefficients.
          Inr \<lparr>dc_time = t, dc_t0 = t0, data_dc_polynomial = coefficients\<rparr>)))))"

definition GetDCEstimateList :: "'p env \<Rightarrow> heap \<Rightarrow> sentinel1_utils \<Rightarrow> string \<Rightarrow> dc_polynomial list res" where
  "GetDCEstimateList e h u name =
     bind_res (annotated_product e h u name) (\<lambda>product.
     bind_res (child e h product ''imageAnnotation'') (\<lambda>image_annotation.
     bind_res (child e h image_annotation ''processingInformation'') (\<lambda>processing_information.
     bind_res (attr_string e h processing_information ''dcMethod'') (\<lambda>dc_method.
     bind_res (child e h product ''dopplerCentroid'') (\<lambda>doppler_centroid_elem.
     bind_res (child e h doppler_centroid_elem ''dcEstimateList'') (\<lambda>dc_estimate_list.
     bind_res (attr_stoi e h dc_estimate_list ''count'') (\<lambda>count.
       if count > 0 then bind_res (child_list h dc_estimate_list) (map_res (read_dc_estimate e h dc_method))
       else Inr [])))))))"

definition read_azimuth_fm_rate :: "'p env \<Rightarrow> heap \<Rightarrow> ref \<Rightarrow> azimuth_fm_rate res" where
  "read_azimuth_fm_rate e h list_elem =
     bind_res (seconds_of e h (Some list_elem) ''azimuthTime'') (\<lambda>t.
     bind_res (attr_stod e h (Some list_elem) ''t0'') (\<lambda>t0.
     bind_res (child e h (Some list_elem) ''azimuthFmRatePolynomial'') (\<lambda>polynomial_elem.
       if polynomial_elem \<noteq> None then
         bind_res (attr_pointer e h polynomial_elem ''azimuthFmRatePolynomial'') (\<lambda>att.
         bind_res (GetDoubleVector e h att '' '') (\<lambda>coeffs.
         bind_res (vec_at coeffs 0) (\<lambda>c0. bind_res (vec_at coeffs 1) (\<lambda>c1. bind_res (vec_at coeffs 2) (\<lambda>c2.
           Inr \<lparr>fm_time = t, fm_t0 = t0, fm_c0 = c0, fm_c1 = c1, fm_c2 = c2\<rparr>)))))
       else
         bind_res (attr_stod e h (Some list_elem) ''c0'') (\<lambda>c0.
         bind_res (attr_stod e h (Some list_elem) ''c1'') (\<lambda>c1.
         bind_res (attr_stod e h (Some list_elem) ''c2'') (\<lambda>c2.
           Inr \<lparr>fm_time = t, fm_t0 = t0, fm_c0 = c0, fm_c1 = c1, fm_c2 = c2\<rparr>))))))"

definition GetAzimuthFmRateList :: "'p env \<Rightarrow> heap \<Rightarrow> sentinel1_utils \<Rightarrow> string \<Rightarrow> azimuth_fm_rate list res" where
  "GetAzimuthFmRateList e h u name =
     bind_res (annotated_product e h u name) (\<lambda>product.
     bind_res (child e h product ''generalAnnotation'') (\<lambda>general_annotation.
     bind_res (child e h general_annotation ''azimuthFmRateList'') (\<lambda>azimuth_fm_rate_list.
     bind_res (attr_stoi e h azimuth_fm_rate_list ''count'') (\<lambda>count.
       if count > 0 then bind_res (child_list h azimuth_fm_rate_list) (map_res (read_azimuth_fm_rate e h))
       else Inr []))))"

section \<open>Doppler centroids at the bursts\<close>

text \<open>The two estimates around a time; after the loop without a hit both indices are zero.\<close>

fun estimates_from :: "dc_polynomial list \<Rightarrow> fp \<Rightarrow> int list \<Rightarrow> (int \<times> int) res" where
  "estimates_from dcs center_time [] = Inr (0, 0)"
| "estimates_from dcs center_time (i # js) =
     bind_res (vec_at dcs i) (\<lambda>dc.
     bind_res (if fle (dc_time dc) center_time
               then bind_res (vec_at dcs (i + 1)) (\<lambda>next_dc. Inr (flt center_time (dc_time next_dc))) else Inr False) (\<lambda>here.
       if here then Inr (i, i + 1) else estimates_from dcs center_time js))"

definition estimates_around :: "dc_polynomial list \<Rightarrow> fp \<Rightarrow> (int \<times> int) res" where
  "estimates_around dcs center_time =
     (let n = int (length dcs)
      in bind_res (vec_at dcs 0) (\<lambda>dc.
         if flt center_time (dc_time dc) then Inr (0, 1)
         else bind_res (vec_at dcs (n - 1)) (\<lambda>dc.
           if flt (dc_time dc) center_time then Inr (n - 2, n - 1)
           else estimates_from dcs center_time [0..n - 2])))"

text \<open>The new polynomial reserves room for its coefficients but holds none.\<close>

definition interpolate_coefficient :: "dc_polynomial \<Rightarrow> dc_polynomial \<Rightarrow> fp \<Rightarrow> int \<Rightarrow> fp list \<Rightarrow> fp list res" where
  "interpolate_coefficient dc0 dc1 mu j coefficients =
     bind_res (vec_get (data_dc_polynomial dc0) j) (\<lambda>a.
     bind_res (vec_get (data_dc_polynomial dc1) j) (\<lambda>b.
       vec_set coefficients j (fadd f64 (fmul f64 (fsub f64 (Fin 1) mu) a) (fmul f64 mu b))))"

definition ComputeDC :: "fp \<Rightarrow> dc_polynomial list \<Rightarrow> dc_polynomial res" where
  "ComputeDC center_time dcs =
     bind_res (estimates_around dcs center_time) (\<lambda>(i0, i1).
     bind_res (vec_at dcs i0) (\<lambda>dc0.
     bind_res (vec_at dcs i1) (\<lambda>dc1.
     let mu = fdiv f64 (fsub f64 center_time (dc_time dc0)) (fsub f64 (dc_time dc1) (dc_time dc0))
     in bind_res
          (fold_res (interpolate_coefficient dc0 dc1 mu)
             [0..int (length (data_dc_polynomial dc0)) - 1] []) (\<lambda>coefficients.
          Inr \<lparr>dc_time = center_time, dc_t0 = dc_t0 dc0, data_dc_polynomial = coefficients\<rparr>))))"

definition ComputeDCForBurstCenters :: "sentinel1_utils \<Rightarrow> dc_polynomial list \<Rightarrow> int \<Rightarrow> dc_polynomial list res" where
  "ComputeDCForBurstCenters u dcs subswath_index =
     bind_res (vec_at (su_subswath u) (subswath_index - 1)) (\<lambda>s.
       if int (length dcs) \<ge> num_of_bursts s then Inr dcs
       else map_res (\<lambda>b.
              if b < int (length dcs) then vec_get dcs b
              else bind_res (vec_get (burst_first_line_time s) b) (\<lambda>first_time.
                   bind_res (vec_get (burst_last_line_time s) b) (\<lambda>last_time.
                     ComputeDC (fmul f64 (Fin (1 / 2)) (fadd f64 first_time last_time)) dcs)))
            [0..num_of_bursts s - 1])"

section \<open>The grids of a sub-swath\<close>

text \<open>A new grid, filled row by row: what a row needs is computed once.\<close>

definition fill_grid :: "int \<Rightarrow> int \<Rightarrow> (int \<Rightarrow> 'r res) \<Rightarrow> ('r \<Rightarrow> int \<Rightarrow> int \<Rightarrow> fp res) \<Rightarrow> fp array2 option res" where
  "fill_grid rows cols row cell =
     bind_res (Allocate2DArray rows cols) (\<lambda>a.
       fold_res (\<lambda>b g.
         bind_res (row b) (\<lambda>r.
           fold_res (\<lambda>x g. bind_res (cell r b x) (cell_put g b x)) [0..cols - 1] g))
         [0..rows - 1] (Some a))"

definition each_subswath ::
  "(int \<Rightarrow> sub_swath_info \<Rightarrow> sentinel1_utils \<Rightarrow> sub_swath_info res) \<Rightarrow> sentinel1_utils \<Rightarrow> sentinel1_utils res" where
  "each_subswath f u =
     fold_res (\<lambda>s u.
       bind_res (vec_at (su_subswath u) s) (\<lambda>sw.
       bind_res (f s sw u) (\<lambda>sw'. Inr (u\<lparr>su_subswath := (su_subswath u)[nat s := sw']\<rparr>))))
       [0..su_num_of_sub_swath u - 1] u"

definition fm_rate_at :: "azimuth_fm_rate list \<Rightarrow> sub_swath_info \<Rightarrow> int \<Rightarrow> int \<Rightarrow> fp res" where
  "fm_rate_at rates sw b x =
     (let slrt = fmul f64 (pixel_time sw x) (Fin 2)
      in bind_res (vec_get rates b) (\<lambda>r.
         let dt = fsub f64 slrt (fm_t0 r)
         in Inr (fadd f64 (fadd f64 (fm_c0 r) (fmul f64 (fm_c1 r) dt)) (fmul f64 (fmul f64 (fm_c2 r) dt) dt))))"

definition ComputeRangeDependentDopplerRate :: "'p env \<Rightarrow> heap \<Rightarrow> sentinel1_utils \<Rightarrow> sentinel1_utils res" where
  "ComputeRangeDependentDopplerRate e h u =
     bind_res
       (each_subswath (\<lambda>s sw u.
          bind_res (GetAzimuthFmRateList e h u (subswath_name sw)) (\<lambda>rates.
          bind_res (fill_grid (num_of_bursts sw) (samples_per_burst sw) (\<lambda>_. Inr ()) (\<lambda>_. fm_rate_at rates sw)) (\<lambda>g.
            Inr (sw\<lparr>range_depend_doppler_rate := g\<rparr>)))) u) (\<lambda>u.
     Inr (u\<lparr>su_range_depend_doppler_rate_available := True\<rparr>))"

definition dc_value_at :: "libm \<Rightarrow> dc_polynomial list \<Rightarrow> sub_swath_info \<Rightarrow> int \<Rightarrow> int \<Rightarrow> fp res" where
  "dc_value_at m dcs sw b x =
     (let slrt = fmul f64 (pixel_time sw x) (Fin 2)
      in bind_res (vec_get dcs b) (\<lambda>dc.
         let dt = fsub f64 slrt (dc_t0 dc)
         in Inr (fold (\<lambda>(i, c) v. fadd f64 v (fmul f64 c (pow_fn m dt (fp_of_int f64 (int i)))))
                  (enumerate 0 (data_dc_polynomial dc)) (Fin 0))))"

definition ComputeDopplerCentroid :: "'p env \<Rightarrow> libm \<Rightarrow> heap \<Rightarrow> sentinel1_utils \<Rightarrow> sentinel1_utils res" where
  "ComputeDopplerCentroid e m h u =
     bind_res
       (each_subswath (\<lambda>s sw u.
          bind_res (GetDCEstimateList e h u (subswath_name sw)) (\<lambda>dc_estimate_list.
          bind_res (ComputeDCForBurstCenters u dc_estimate_list (s + 1)) (\<lambda>dcs.
          bind_res (fill_grid (num_of_bursts sw) (samples_per_burst sw) (\<lambda>_. Inr ()) (\<lambda>_. dc_value_at m dcs sw)) (\<lambda>g.
            Inr (sw\<lparr>doppler_centroid := g\<rparr>))))) u) (\<lambda>u.
     Inr (u\<lparr>su_doppler_centroid_available := True\<rparr>))"

definition centroid_over_rate :: "sub_swath_info \<Rightarrow> int \<Rightarrow> int \<Rightarrow> fp res" where
  "centroid_over_rate sw b x =
     bind_res (cell_at (doppler_centroid sw) b x) (\<lambda>c.
     bind_res (cell_at (range_depend_doppler_rate sw) b x) (\<lambda>r. Inr (fdiv f64 c r)))"

definition ComputeReferenceTime :: "'p env \<Rightarrow> libm \<Rightarrow> heap \<Rightarrow> sentinel1_utils \<Rightarrow> sentinel1_utils res" where
  "ComputeReferenceTime e m h u =
     bind_res (if su_doppler_centroid_available u then Inr u else ComputeDopplerCentroid e m h u) (\<lambda>u.
     bind_res (if su_range_depend_doppler_rate_available u then Inr u else ComputeRangeDependentDopplerRate e h u) (\<lambda>u.
       each_subswath (\<lambda>s sw u.
         let tmp1 = fdiv f64 (fmul f64 (fp_of_int f64 (lines_per_burst sw)) (azimuth_time_interval sw)) (Fin 2)
         in bind_res
              (fill_grid (num_of_bursts sw) (samples_per_burst sw)
                 (\<lambda>b. bind_res (centroid_over_rate sw b (first_valid_pixel sw)) (\<lambda>q. Inr (fadd f64 tmp1 q)))
                 (\<lambda>tmp2 b x. bind_res (centroid_over_rate sw b x) (\<lambda>q. Inr (fsub f64 tmp2 q)))) (\<lambda>g.
            Inr (sw\<lparr>reference_time := g\<rparr>))) u))"

definition GetProductOrbit :: "'p env \<Rightarrow> heap \<Rightarrow> sentinel1_utils \<Rightarrow> sentinel1_utils res" where
  "GetProductOrbit e h u =
     bind_res (GetOrbitStateVectors e (su_abs_root u) h) (\<lambda>original_vectors.
     bind_res (OrbitStateVectors original_vectors) (\<lambda>orb. Inr (u\<lparr>su_orbit := Some orb\<rparr>)))"

definition utils_GetVelocity :: "libm \<Rightarrow> sentinel1_utils \<Rightarrow> fp \<Rightarrow> fp res" where
  "utils_GetVelocity m u time =
     bind_res (deref (su_orbit u)) (\<lambda>orb.
     bind_res (GetVelocity orb time) (\<lambda>v.
       Inr (sqrt_fn m (fadd f64 (fadd f64 (fmul f64 (px v) (px v)) (fmul f64 (py v) (py v))) (fmul f64 (pz v) (pz v))))))"

text \<open>The Doppler rate by the steering of the antenna.\<close>

definition steering_doppler_rate :: "libm \<Rightarrow> sentinel1_utils \<Rightarrow> fp \<Rightarrow> sub_swath_info \<Rightarrow> fp res" where
  "steering_doppler_rate m u wave_length sw =
     (let az_time = fdiv f64 (fadd f64 (first_line_time sw) (last_line_time sw)) (Fin 2)
      in bind_res (utils_GetVelocity m u (fdiv f64 az_time SECONDS_IN_DAY)) (\<lambda>v.
         let steering_rate = fmul f64 (azimuth_steering_rate sw) DTOR
         in Inr (fdiv f64 (fmul f64 (fmul f64 (Fin 2) v) steering_rate) wave_length)))"

definition total_rate_at :: "sub_swath_info \<Rightarrow> fp \<Rightarrow> int \<Rightarrow> int \<Rightarrow> fp res" where
  "total_rate_at sw krot b x =
     bind_res (cell_at (range_depend_doppler_rate sw) b x) (\<lambda>r. Inr (fdiv f64 (fmul f64 r krot) (fsub f64 r krot)))"

definition compute_doppler_rate_of :: "libm \<Rightarrow> fp \<Rightarrow> int \<Rightarrow> sub_swath_info \<Rightarrow> sentinel1_utils \<Rightarrow> sub_swath_info res" where
  "compute_doppler_rate_of m wave_length s sw u =
     bind_res (Allocate2DArray (num_of_bursts sw) (samples_per_burst sw)) (\<lambda>_ :: fp array2.
     bind_res (steering_doppler_rate m u wave_length sw) (\<lambda>krot.
     bind_res (fill_grid (num_of_bursts sw) (samples_per_burst sw) (\<lambda>_. Inr ()) (\<lambda>_. total_rate_at sw krot)) (\<lambda>g.
       Inr (sw\<lparr>doppler_rate := g\<rparr>))))"

definition ComputeDopplerRate :: "'p env \<Rightarrow> libm \<Rightarrow> heap \<Rightarrow> sentinel1_utils \<Rightarrow> sentinel1_utils res" where
  "ComputeDopplerRate e m h u =
     bind_res (if su_orbit u = None then GetProductOrbit e h u else Inr u) (\<lambda>u.
     bind_res (if su_range_depend_doppler_rate_available u then Inr u else ComputeRangeDependentDopplerRate e h u) (\<lambda>u.
     bind_res (vec_at (su_subswath u) 0) (\<lambda>sw0.
     let wave_length = fdiv f64 LIGHT_SPEED (radar_frequency sw0)
     in each_subswath (compute_doppler_rate_of m wave_length) u)))"

section \<open>The deramp and demodulation phase\<close>

definition deramp_demod_at :: "libm \<Rightarrow> sub_swath_info \<Rightarrow> int \<Rightarrow> fp \<Rightarrow> int \<Rightarrow> fp res" where
  "deramp_demod_at m sw b ta x =
     bind_res (cell_at (doppler_rate sw) b x) (\<lambda>kt.
     bind_res (cell_at (reference_time sw) b x) (\<lambda>ref_time.
     bind_res (cell_at (doppler_centroid sw) b x) (\<lambda>centroid.
       let deramp = fmul f64 (fmul f64 (fneg PI) kt) (pow_fn m (fsub f64 ta ref_time) (Fin 2));
           demod = fmul f64 (fmul f64 (fneg TWO_PI) centroid) ta
       in Inr (fadd f64 deramp demod))))"

text \<open>The block has \<open>sizeof(double)\<close> times as many cells as are used; a cell that was not written has no value.\<close>

definition ComputeDerampDemodPhase :: "libm \<Rightarrow> sentinel1_utils \<Rightarrow> int \<Rightarrow> int \<Rightarrow> rectangle \<Rightarrow> fp option list res" where
  "ComputeDerampDemodPhase m u subswath_index s_burst_index r =
     (let x0 = rx r; y0 = ry r; w = width r; h = height r
      in bind_res (int_result (x0 + w)) (\<lambda>x_max.
         bind_res (int_result (y0 + h)) (\<lambda>y_max.
         bind_res (vec_at (su_subswath u) (subswath_index - 1)) (\<lambda>sw.
         bind_res (int_result (s_burst_index * lines_per_burst sw)) (\<lambda>first_line_in_burst.
         bind_res (int_result (h * w)) (\<lambda>cells.
         bind_res (guard (0 \<le> cells) Bad_alloc) (\<lambda>_.
           fold_res (\<lambda>y result.
             bind_res (int_result (y - first_line_in_burst)) (\<lambda>line.
             let ta = fmul f64 (fp_of_int f64 line) (azimuth_time_interval sw)
             in fold_res (\<lambda>x result.
                  bind_res (deramp_demod_at m sw s_burst_index ta x) (\<lambda>v.
                  bind_res (int_result ((y - y0) * w + (x - x0))) (\<lambda>k. vec_set result k (Some v))))
                  [x0..x_max - 1] result))
             [y0..y_max - 1] (replicate (nat (cells * 8)) None))))))))"

section \<open>Filled grids\<close>

definition complete_grid :: "int \<Rightarrow> int \<Rightarrow> fp array2 option \<Rightarrow> bool" where
  "complete_grid rows cols g \<longleftrightarrow>
     grid_ok rows cols g \<and> (\<forall>b\<in>{0..<rows}. \<forall>x\<in>{0..<cols}. \<exists>v. cell_at g b x = Inr v)"

lemma cell_index_in:
  assumes "grid_ok rows cols (Some a)" and "0 \<le> b" "b < rows" "0 \<le> x" "x < cols"
  shows "cell_index a b x = Inr (nat (b * cols + x))" "nat (b * cols + x) < length (a2_cells a)"
proof -
  have "b * cols + x < (b + 1) * cols" using assms(5) by (simp add: algebra_simps)
  also have "(b + 1) * cols \<le> rows * cols" using assms by (intro mult_right_mono) auto
  finally have l: "b * cols + x < rows * cols" .
  have "0 \<le> b * cols + x" using assms by simp
  then show "cell_index a b x = Inr (nat (b * cols + x))" "nat (b * cols + x) < length (a2_cells a)"
    using assms(1-3) l by (auto simp: cell_index_def grid_ok_def nat_less_iff)
qed

lemma row_major_inj:
  fixes b :: int
  assumes "b * n + x = b' * n + x'" and "0 \<le> x" "x < n" "0 \<le> x'" "x' < n"
  shows "b = b' \<and> x = x'"
proof -
  have "(b * n + x) div n = b" using assms(2,3) by simp
  moreover have "(b' * n + x') div n = b'" using assms(4,5) by simp
  ultimately show ?thesis using assms(1) by (metis add_left_cancel)
qed

lemma int_range [simp]: "{0..n - 1} = {0..<n :: int}"
  by auto

lemma cell_put_at:
  assumes "grid_ok rows cols g" and "cell_put g b x v = Inr g'" and "b \<in> {0..<rows}" "x \<in> {0..<cols}"
  shows "grid_ok rows cols g'"
    and "b' \<in> {0..<rows} \<Longrightarrow> x' \<in> {0..<cols} \<Longrightarrow>
      cell_at g' b' x' = (if b' = b \<and> x' = x then Inr v else cell_at g b' x')"
proof -
  obtain a where a: "g = Some a" using assms(1) by (auto simp: grid_ok_def)
  note k = cell_index_in [OF assms(1) [unfolded a], of b x]
  have g': "g' = Some (a\<lparr>a2_cells := (a2_cells a)[nat (b * cols + x) := Some v]\<rparr>)"
    using assms(2-4) k by (auto simp: cell_put_def a)
  show ok: "grid_ok rows cols g'" using assms(1) a g' by (auto simp: grid_ok_def)
  assume in': "b' \<in> {0..<rows}" "x' \<in> {0..<cols}"
  note k' = cell_index_in [OF assms(1) [unfolded a], of b' x']
  have "cell_index (a\<lparr>a2_cells := cs\<rparr>) b' x' = cell_index a b' x'" for cs by (simp add: cell_index_def)
  moreover have "nat (b * cols + x) = nat (b' * cols + x') \<longleftrightarrow> b' = b \<and> x' = x"
  proof
    assume "nat (b * cols + x) = nat (b' * cols + x')"
    moreover have "0 \<le> b * cols + x" "0 \<le> b' * cols + x'" using assms(3,4) in' by auto
    ultimately have "b * cols + x = b' * cols + x'" by (simp only: eq_nat_nat_iff)
    then show "b' = b \<and> x' = x" using row_major_inj [of b cols x b' x'] assms(4) in' by auto
  qed simp
  ultimately show "cell_at g' b' x' = (if b' = b \<and> x' = x then Inr v else cell_at g b' x')"
    using k k' in' assms(3,4) by (auto simp: g' a cell_at_def nth_list_update)
qed

lemma fill_row_ok:
  assumes "fold_res (\<lambda>x g. bind_res (cell x) (cell_put g b x)) xs g = Inr g'" and "grid_ok rows cols g"
    and "distinct xs" "set xs \<subseteq> {0..<cols}" "b \<in> {0..<rows}"
  shows "grid_ok rows cols g' \<and> (\<forall>x\<in>set xs. \<exists>v. cell x = Inr v \<and> cell_at g' b x = Inr v) \<and>
    (\<forall>b'\<in>{0..<rows}. \<forall>x'\<in>{0..<cols}. b' \<noteq> b \<or> x' \<notin> set xs \<longrightarrow> cell_at g' b' x' = cell_at g b' x')"
  using assms
proof (induction xs arbitrary: g)
  case Nil
  then show ?case by simp
next
  case (Cons x xs)
  obtain v g1 where v: "cell x = Inr v" "cell_put g b x v = Inr g1"
      "fold_res (\<lambda>x g. bind_res (cell x) (cell_put g b x)) xs g1 = Inr g'"
    using Cons.prems(1) by (auto simp: bind_res_Inr_iff)
  have x: "x \<in> {0..<cols}" using Cons.prems(4) by simp
  note put = cell_put_at [OF Cons.prems(2) v(2) Cons.prems(5) x]
  have "grid_ok rows cols g' \<and> (\<forall>x\<in>set xs. \<exists>v. cell x = Inr v \<and> cell_at g' b x = Inr v) \<and>
    (\<forall>b'\<in>{0..<rows}. \<forall>x'\<in>{0..<cols}. b' \<noteq> b \<or> x' \<notin> set xs \<longrightarrow> cell_at g' b' x' = cell_at g1 b' x')"
    using Cons.IH [OF v(3) put(1)] Cons.prems(3-5) by simp
  moreover have "x \<notin> set xs" using Cons.prems(3) by simp
  ultimately show ?case using put(2) v(1) x Cons.prems(5) by auto
qed

lemma fill_rows_ok:
  assumes "fold_res (\<lambda>b g. bind_res (row b) (\<lambda>r. fold_res (\<lambda>x g. bind_res (cell r b x) (cell_put g b x)) [0..cols - 1] g)) bs g = Inr g'"
    and "grid_ok rows cols g" and "distinct bs" "set bs \<subseteq> {0..<rows}"
  shows "grid_ok rows cols g' \<and>
    (\<forall>b\<in>set bs. \<exists>r. row b = Inr r \<and> (\<forall>x\<in>{0..<cols}. \<exists>v. cell r b x = Inr v \<and> cell_at g' b x = Inr v)) \<and>
    (\<forall>b'\<in>{0..<rows}. \<forall>x'\<in>{0..<cols}. b' \<notin> set bs \<longrightarrow> cell_at g' b' x' = cell_at g b' x')"
  using assms
proof (induction bs arbitrary: g)
  case Nil
  then show ?case by simp
next
  case (Cons b bs)
  obtain r g1 where r: "row b = Inr r" "fold_res (\<lambda>x g. bind_res (cell r b x) (cell_put g b x)) [0..cols - 1] g = Inr g1"
      "fold_res (\<lambda>b g. bind_res (row b) (\<lambda>r. fold_res (\<lambda>x g. bind_res (cell r b x) (cell_put g b x)) [0..cols - 1] g)) bs g1 = Inr g'"
    using Cons.prems(1) by (auto simp: bind_res_Inr_iff)
  have b: "b \<in> {0..<rows}" "b \<notin> set bs" using Cons.prems(3,4) by auto
  have one: "grid_ok rows cols g1 \<and> (\<forall>x\<in>{0..<cols}. \<exists>v. cell r b x = Inr v \<and> cell_at g1 b x = Inr v) \<and>
    (\<forall>b'\<in>{0..<rows}. \<forall>x'\<in>{0..<cols}. b' \<noteq> b \<longrightarrow> cell_at g1 b' x' = cell_at g b' x')"
    using fill_row_ok [OF r(2) Cons.prems(2) _ _ b(1)] by auto
  with Cons.IH [OF r(3)] Cons.prems(3,4)
  have rest: "grid_ok rows cols g' \<and>
    (\<forall>b\<in>set bs. \<exists>r. row b = Inr r \<and> (\<forall>x\<in>{0..<cols}. \<exists>v. cell r b x = Inr v \<and> cell_at g' b x = Inr v)) \<and>
    (\<forall>b'\<in>{0..<rows}. \<forall>x'\<in>{0..<cols}. b' \<notin> set bs \<longrightarrow> cell_at g' b' x' = cell_at g1 b' x')" by auto
  have "\<forall>x\<in>{0..<cols}. \<exists>v. cell r b x = Inr v \<and> cell_at g' b x = Inr v" using one rest b by metis
  then show ?case using one rest r(1) by auto
qed

lemma fill_grid_ok:
  assumes "fill_grid rows cols row cell = Inr g"
  shows "grid_ok rows cols g"
    and "\<forall>b\<in>{0..<rows}. \<exists>r. row b = Inr r \<and> (\<forall>x\<in>{0..<cols}. \<exists>v. cell r b x = Inr v \<and> cell_at g b x = Inr v)"
proof -
  obtain a where "Allocate2DArray rows cols = Inr a"
    and f: "fold_res (\<lambda>b g. bind_res (row b) (\<lambda>r. fold_res (\<lambda>x g. bind_res (cell r b x) (cell_put g b x)) [0..cols - 1] g)) [0..rows - 1] (Some a) = Inr g"
    using assms by (auto simp: fill_grid_def bind_res_Inr_iff)
  then have "grid_ok rows cols (Some a)" by (simp add: Allocate2DArray_ok)
  from fill_rows_ok [OF f this] show "grid_ok rows cols g"
    and "\<forall>b\<in>{0..<rows}. \<exists>r. row b = Inr r \<and> (\<forall>x\<in>{0..<cols}. \<exists>v. cell r b x = Inr v \<and> cell_at g b x = Inr v)"
    by auto
qed

lemma fill_grid_complete: "fill_grid rows cols row cell = Inr g \<Longrightarrow> complete_grid rows cols g"
  using fill_grid_ok by (fastforce simp: complete_grid_def)

section \<open>The computed grids\<close>

lemma each_subswath_loop:
  assumes "fold_res (\<lambda>s u. bind_res (vec_at (su_subswath u) s) (\<lambda>sw.
       bind_res (f s sw u) (\<lambda>sw'. Inr (u\<lparr>su_subswath := (su_subswath u)[nat s := sw']\<rparr>)))) ss u = Inr u'"
    and "distinct ss" "set ss \<subseteq> {0..<int (length (su_subswath u))}"
    and "\<And>s sw u sw'. f s sw u = Inr sw' \<Longrightarrow> Q sw sw'"
  shows "\<exists>sws. u' = u\<lparr>su_subswath := sws\<rparr> \<and> length sws = length (su_subswath u) \<and>
    (\<forall>i < length sws. (int i \<in> set ss \<longrightarrow> Q (su_subswath u ! i) (sws ! i)) \<and> (int i \<notin> set ss \<longrightarrow> sws ! i = su_subswath u ! i))"
  using assms(1-3)
proof (induction ss arbitrary: u)
  case Nil
  then show ?case by (intro exI [of _ "su_subswath u"]) simp
next
  case (Cons s ss)
  obtain sw' where sw': "f s (su_subswath u ! nat s) u = Inr sw'" and s: "0 \<le> s" "s < int (length (su_subswath u))"
    and r: "fold_res (\<lambda>s u. bind_res (vec_at (su_subswath u) s) (\<lambda>sw.
       bind_res (f s sw u) (\<lambda>sw'. Inr (u\<lparr>su_subswath := (su_subswath u)[nat s := sw']\<rparr>)))) ss
       (u\<lparr>su_subswath := (su_subswath u)[nat s := sw']\<rparr>) = Inr u'"
    using Cons.prems(1) by (auto simp: bind_res_Inr_iff vec_at_Inr_iff)
  obtain sws where sws: "u' = u\<lparr>su_subswath := sws\<rparr>" "length sws = length (su_subswath u)"
    and each: "\<forall>i < length sws. (int i \<in> set ss \<longrightarrow> Q ((su_subswath u)[nat s := sw'] ! i) (sws ! i)) \<and>
      (int i \<notin> set ss \<longrightarrow> sws ! i = (su_subswath u)[nat s := sw'] ! i)"
    using Cons.IH [OF r] Cons.prems(2,3) by auto
  have "(int i \<in> set (s # ss) \<longrightarrow> Q (su_subswath u ! i) (sws ! i)) \<and> (int i \<notin> set (s # ss) \<longrightarrow> sws ! i = su_subswath u ! i)"
    if i: "i < length sws" for i
  proof (cases "int i = s")
    case True
    then have "int i \<notin> set ss" "nat s = i" using Cons.prems(2) by auto
    then show ?thesis using each i True assms(4) [OF sw'] sws(2) by auto
  next
    case False
    then have "i \<noteq> nat s" using s by auto
    then show ?thesis using each i False by (auto simp: nth_list_update)
  qed
  then show ?case using sws by blast
qed

lemma each_subswath_ok:
  assumes "each_subswath f u = Inr u'" and "su_num_of_sub_swath u = int (length (su_subswath u))"
    and "\<And>s sw u sw'. f s sw u = Inr sw' \<Longrightarrow> Q sw sw'"
  obtains sws where "u' = u\<lparr>su_subswath := sws\<rparr>" "list_all2 Q (su_subswath u) sws"
proof -
  have "\<exists>sws. u' = u\<lparr>su_subswath := sws\<rparr> \<and> length sws = length (su_subswath u) \<and>
    (\<forall>i < length sws. (int i \<in> set [0..su_num_of_sub_swath u - 1] \<longrightarrow> Q (su_subswath u ! i) (sws ! i)) \<and>
      (int i \<notin> set [0..su_num_of_sub_swath u - 1] \<longrightarrow> sws ! i = su_subswath u ! i))"
    by (rule each_subswath_loop [OF assms(1) [unfolded each_subswath_def] _ _ assms(3)]) (auto simp: assms(2))
  then show thesis using that by (auto simp: list_all2_conv_all_nth assms(2))
qed

definition centroids_ok :: "sub_swath_info \<Rightarrow> bool" where
  "centroids_ok sw \<longleftrightarrow> complete_grid (num_of_bursts sw) (samples_per_burst sw) (doppler_centroid sw)"

definition rates_ok :: "sub_swath_info \<Rightarrow> bool" where
  "rates_ok sw \<longleftrightarrow> complete_grid (num_of_bursts sw) (samples_per_burst sw) (range_depend_doppler_rate sw)"

definition doppler_rates_ok :: "sub_swath_info \<Rightarrow> bool" where
  "doppler_rates_ok sw \<longleftrightarrow> complete_grid (num_of_bursts sw) (samples_per_burst sw) (doppler_rate sw)"

definition reference_times_ok :: "sub_swath_info \<Rightarrow> bool" where
  "reference_times_ok sw \<longleftrightarrow> complete_grid (num_of_bursts sw) (samples_per_burst sw) (reference_time sw)"

text \<open>The flags tell the truth.\<close>

definition doppler_inv :: "sentinel1_utils \<Rightarrow> bool" where
  "doppler_inv u \<longleftrightarrow>
     su_num_of_sub_swath u = int (length (su_subswath u)) \<and>
     (su_doppler_centroid_available u \<longrightarrow> list_all centroids_ok (su_subswath u)) \<and>
     (su_range_depend_doppler_rate_available u \<longrightarrow> list_all rates_ok (su_subswath u))"

lemma Sentinel1Utils_doppler_inv:
  "u = empty_utils a orig \<Longrightarrow> doppler_inv (u\<lparr>su_num_of_sub_swath := int (length sws), su_subswath := sws\<rparr>)"
  by (simp add: doppler_inv_def empty_utils_def)

definition gives_centroids :: "sub_swath_info \<Rightarrow> sub_swath_info \<Rightarrow> bool" where
  "gives_centroids sw sw' \<longleftrightarrow> centroids_ok sw' \<and> (\<exists>g. sw' = sw\<lparr>doppler_centroid := g\<rparr>)"

definition gives_rates :: "sub_swath_info \<Rightarrow> sub_swath_info \<Rightarrow> bool" where
  "gives_rates sw sw' \<longleftrightarrow> rates_ok sw' \<and> (\<exists>g. sw' = sw\<lparr>range_depend_doppler_rate := g\<rparr>)"

lemma ComputeDopplerCentroid_ok:
  assumes "ComputeDopplerCentroid e m h u = Inr u'" and "su_num_of_sub_swath u = int (length (su_subswath u))"
  obtains sws where "u' = u\<lparr>su_subswath := sws, su_doppler_centroid_available := True\<rparr>"
    "list_all2 gives_centroids (su_subswath u) sws"
proof -
  obtain u1 where e: "each_subswath (\<lambda>s sw u.
          bind_res (GetDCEstimateList e h u (subswath_name sw)) (\<lambda>dc_estimate_list.
          bind_res (ComputeDCForBurstCenters u dc_estimate_list (s + 1)) (\<lambda>dcs.
          bind_res (fill_grid (num_of_bursts sw) (samples_per_burst sw) (\<lambda>_. Inr ()) (\<lambda>_. dc_value_at m dcs sw)) (\<lambda>g.
            Inr (sw\<lparr>doppler_centroid := g\<rparr>))))) u = Inr u1" and u': "u' = u1\<lparr>su_doppler_centroid_available := True\<rparr>"
    using assms(1) by (auto simp: ComputeDopplerCentroid_def bind_res_Inr_iff)
  obtain sws where "u1 = u\<lparr>su_subswath := sws\<rparr>"
    "list_all2 gives_centroids (su_subswath u) sws"
    by (rule each_subswath_ok [OF e assms(2), where Q = gives_centroids])
       (auto simp: bind_res_Inr_iff gives_centroids_def centroids_ok_def dest: fill_grid_complete)
  then show thesis using that u' by auto
qed

lemma ComputeRangeDependentDopplerRate_ok:
  assumes "ComputeRangeDependentDopplerRate e h u = Inr u'" and "su_num_of_sub_swath u = int (length (su_subswath u))"
  obtains sws where "u' = u\<lparr>su_subswath := sws, su_range_depend_doppler_rate_available := True\<rparr>"
    "list_all2 gives_rates (su_subswath u) sws"
proof -
  obtain u1 where e: "each_subswath (\<lambda>s sw u.
          bind_res (GetAzimuthFmRateList e h u (subswath_name sw)) (\<lambda>rates.
          bind_res (fill_grid (num_of_bursts sw) (samples_per_burst sw) (\<lambda>_. Inr ()) (\<lambda>_. fm_rate_at rates sw)) (\<lambda>g.
            Inr (sw\<lparr>range_depend_doppler_rate := g\<rparr>)))) u = Inr u1"
      and u': "u' = u1\<lparr>su_range_depend_doppler_rate_available := True\<rparr>"
    using assms(1) by (auto simp: ComputeRangeDependentDopplerRate_def bind_res_Inr_iff)
  obtain sws where "u1 = u\<lparr>su_subswath := sws\<rparr>"
    "list_all2 gives_rates (su_subswath u) sws"
    by (rule each_subswath_ok [OF e assms(2), where Q = gives_rates])
       (auto simp: bind_res_Inr_iff gives_rates_def rates_ok_def dest: fill_grid_complete)
  then show thesis using that u' by auto
qed

text \<open>The reference times agree with the centroids and the rates, which stay as they are.\<close>

definition reference_times_of :: "sub_swath_info \<Rightarrow> bool" where
  "reference_times_of sw \<longleftrightarrow>
     complete_grid (num_of_bursts sw) (samples_per_burst sw) (reference_time sw) \<and>
     (\<forall>b\<in>{0..<num_of_bursts sw}. \<forall>x\<in>{0..<samples_per_burst sw}.
        \<exists>c0 c. centroid_over_rate sw b (first_valid_pixel sw) = Inr c0 \<and> centroid_over_rate sw b x = Inr c \<and>
          cell_at (reference_time sw) b x =
            Inr (fsub f64 (fadd f64 (fdiv f64 (fmul f64 (fp_of_int f64 (lines_per_burst sw)) (azimuth_time_interval sw)) (Fin 2)) c0) c))"

lemma reference_time_step:
  assumes "fill_grid (num_of_bursts sw) (samples_per_burst sw)
                 (\<lambda>b. bind_res (centroid_over_rate sw b (first_valid_pixel sw)) (\<lambda>q. Inr (fadd f64 tmp1 q)))
                 (\<lambda>tmp2 b x. bind_res (centroid_over_rate sw b x) (\<lambda>q. Inr (fsub f64 tmp2 q))) = Inr g"
    and "tmp1 = fdiv f64 (fmul f64 (fp_of_int f64 (lines_per_burst sw)) (azimuth_time_interval sw)) (Fin 2)"
  shows "reference_times_of (sw\<lparr>reference_time := g\<rparr>)"
proof -
  have "centroid_over_rate (sw\<lparr>reference_time := g\<rparr>) = centroid_over_rate sw"
    by (simp add: centroid_over_rate_def fun_eq_iff)
  then show ?thesis
    using fill_grid_complete [OF assms(1)] fill_grid_ok(2) [OF assms(1)] assms(2)
    by (fastforce simp: reference_times_of_def bind_res_Inr_iff)
qed

definition gives_reference_times :: "sub_swath_info \<Rightarrow> sub_swath_info \<Rightarrow> bool" where
  "gives_reference_times sw sw' \<longleftrightarrow> reference_times_of sw' \<and> (\<exists>g. sw' = sw\<lparr>reference_time := g\<rparr>)"

text \<open>Everything that the reference time needs is there, and nothing else of the sub-swath has changed.\<close>

definition timed :: "sub_swath_info \<Rightarrow> sub_swath_info \<Rightarrow> bool" where
  "timed sw sw' \<longleftrightarrow> centroids_ok sw' \<and> rates_ok sw' \<and> reference_times_of sw' \<and>
     (\<exists>c r t. sw' = sw\<lparr>doppler_centroid := c, range_depend_doppler_rate := r, reference_time := t\<rparr>)"

lemma gives_self:
  "centroids_ok sw \<Longrightarrow> gives_centroids sw sw" "rates_ok sw \<Longrightarrow> gives_rates sw sw"
  unfolding gives_centroids_def gives_rates_def
  by (intro conjI exI [of _ "doppler_centroid sw"], assumption, simp)
     (intro conjI exI [of _ "range_depend_doppler_rate sw"], assumption, simp)

lemma flag_set:
  "su_doppler_centroid_available u \<Longrightarrow> u\<lparr>su_subswath := su_subswath u, su_doppler_centroid_available := True\<rparr> = u"
  "su_range_depend_doppler_rate_available u \<Longrightarrow>
    u\<lparr>su_subswath := su_subswath u, su_range_depend_doppler_rate_available := True\<rparr> = u"
  by (cases u; simp)+

lemma centroids_ensured:
  assumes "doppler_inv u" and "(if su_doppler_centroid_available u then Inr u else ComputeDopplerCentroid e m h u) = Inr u'"
  obtains sws where "u' = u\<lparr>su_subswath := sws, su_doppler_centroid_available := True\<rparr>"
    "list_all2 gives_centroids (su_subswath u) sws"
proof (cases "su_doppler_centroid_available u")
  case True
  then have "list_all2 gives_centroids (su_subswath u) (su_subswath u)"
    using assms(1) gives_self(1) by (auto simp: doppler_inv_def list_all2_conv_all_nth list_all_length)
  moreover have "u' = u\<lparr>su_subswath := su_subswath u, su_doppler_centroid_available := True\<rparr>"
    using assms(2) True flag_set(1) [OF True] by simp
  ultimately show thesis by (rule that [rotated])
next
  case False
  then have "ComputeDopplerCentroid e m h u = Inr u'" "su_num_of_sub_swath u = int (length (su_subswath u))"
    using assms by (simp_all add: doppler_inv_def)
  then show thesis by (rule ComputeDopplerCentroid_ok) (rule that)
qed

lemma rates_ensured:
  assumes "doppler_inv u"
    and "(if su_range_depend_doppler_rate_available u then Inr u else ComputeRangeDependentDopplerRate e h u) = Inr u'"
  obtains sws where "u' = u\<lparr>su_subswath := sws, su_range_depend_doppler_rate_available := True\<rparr>"
    "list_all2 gives_rates (su_subswath u) sws"
proof (cases "su_range_depend_doppler_rate_available u")
  case True
  then have "list_all2 gives_rates (su_subswath u) (su_subswath u)"
    using assms(1) gives_self(2) by (auto simp: doppler_inv_def list_all2_conv_all_nth list_all_length)
  moreover have "u' = u\<lparr>su_subswath := su_subswath u, su_range_depend_doppler_rate_available := True\<rparr>"
    using assms(2) True flag_set(2) [OF True] by simp
  ultimately show thesis by (rule that [rotated])
next
  case False
  then have "ComputeRangeDependentDopplerRate e h u = Inr u'" "su_num_of_sub_swath u = int (length (su_subswath u))"
    using assms by (simp_all add: doppler_inv_def)
  then show thesis by (rule ComputeRangeDependentDopplerRate_ok) (rule that)
qed

text \<open>The relations leave the other grids complete.\<close>

lemma gives_rates_centroids: "gives_rates sw sw' \<Longrightarrow> centroids_ok sw \<Longrightarrow> centroids_ok sw'"
  by (auto simp: gives_rates_def centroids_ok_def)

lemma gives_centroids_rates: "gives_centroids sw sw' \<Longrightarrow> rates_ok sw \<Longrightarrow> rates_ok sw'"
  by (auto simp: gives_centroids_def rates_ok_def)

lemma centroids_inv:
  assumes "doppler_inv u" and "list_all2 gives_centroids (su_subswath u) sws"
  shows "doppler_inv (u\<lparr>su_subswath := sws, su_doppler_centroid_available := True\<rparr>)"
proof -
  have "list_all rates_ok sws" if "list_all rates_ok (su_subswath u)"
    using assms(2) that gives_centroids_rates by (fastforce simp: list_all2_conv_all_nth list_all_length)
  then show ?thesis using assms by (auto simp: doppler_inv_def list_all2_conv_all_nth list_all_length gives_centroids_def)
qed

lemma rates_inv:
  assumes "doppler_inv u" and "list_all2 gives_rates (su_subswath u) sws"
  shows "doppler_inv (u\<lparr>su_subswath := sws, su_range_depend_doppler_rate_available := True\<rparr>)"
proof -
  have "list_all centroids_ok sws" if "list_all centroids_ok (su_subswath u)"
    using assms(2) that gives_rates_centroids by (fastforce simp: list_all2_conv_all_nth list_all_length)
  then show ?thesis using assms by (auto simp: doppler_inv_def list_all2_conv_all_nth list_all_length gives_rates_def)
qed

lemma timed_chain:
  assumes "gives_centroids a b" "gives_rates b c" "gives_reference_times c d"
  shows "timed a d"
  using assms
  by (fastforce simp: timed_def gives_centroids_def gives_rates_def gives_reference_times_def centroids_ok_def rates_ok_def)

lemma ComputeReferenceTime_ok:
  assumes "doppler_inv u" and "ComputeReferenceTime e m h u = Inr u'"
  shows "doppler_inv u' \<and> su_doppler_centroid_available u' \<and> su_range_depend_doppler_rate_available u' \<and>
    list_all2 timed (su_subswath u) (su_subswath u')"
proof -
  obtain u1 u2 where u1: "(if su_doppler_centroid_available u then Inr u else ComputeDopplerCentroid e m h u) = Inr u1"
    and u2: "(if su_range_depend_doppler_rate_available u1 then Inr u1 else ComputeRangeDependentDopplerRate e h u1) = Inr u2"
    and u': "each_subswath (\<lambda>s sw u.
         let tmp1 = fdiv f64 (fmul f64 (fp_of_int f64 (lines_per_burst sw)) (azimuth_time_interval sw)) (Fin 2)
         in bind_res
              (fill_grid (num_of_bursts sw) (samples_per_burst sw)
                 (\<lambda>b. bind_res (centroid_over_rate sw b (first_valid_pixel sw)) (\<lambda>q. Inr (fadd f64 tmp1 q)))
                 (\<lambda>tmp2 b x. bind_res (centroid_over_rate sw b x) (\<lambda>q. Inr (fsub f64 tmp2 q)))) (\<lambda>g.
            Inr (sw\<lparr>reference_time := g\<rparr>))) u2 = Inr u'"
    using assms(2) by (auto simp: ComputeReferenceTime_def bind_res_Inr_iff)
  obtain sws1 where s1: "u1 = u\<lparr>su_subswath := sws1, su_doppler_centroid_available := True\<rparr>"
      "list_all2 gives_centroids (su_subswath u) sws1"
    by (rule centroids_ensured [OF assms(1) u1])
  have i1: "doppler_inv u1" using centroids_inv [OF assms(1) s1(2)] s1(1) by simp
  obtain sws2 where s2: "u2 = u1\<lparr>su_subswath := sws2, su_range_depend_doppler_rate_available := True\<rparr>"
      "list_all2 gives_rates (su_subswath u1) sws2"
    by (rule rates_ensured [OF i1 u2])
  have i2: "doppler_inv u2" using rates_inv [OF i1 s2(2)] s2(1) by simp
  then have n: "su_num_of_sub_swath u2 = int (length (su_subswath u2))" by (simp add: doppler_inv_def)
  obtain sws3 where s3: "u' = u2\<lparr>su_subswath := sws3\<rparr>" "list_all2 gives_reference_times (su_subswath u2) sws3"
    by (rule each_subswath_ok [OF u' n, where Q = gives_reference_times])
       (auto simp: bind_res_Inr_iff gives_reference_times_def Let_def intro: reference_time_step)
  have t: "list_all2 timed (su_subswath u) sws3"
    using s1 s2 s3(2) timed_chain by (fastforce simp: list_all2_conv_all_nth)
  have "su_num_of_sub_swath u = int (length (su_subswath u))" using assms(1) by (simp add: doppler_inv_def)
  then have "doppler_inv u'"
    using t s1(1) s2(1) s3(1) by (auto simp: doppler_inv_def list_all2_conv_all_nth list_all_length timed_def)
  then show ?thesis using t s1(1) s2(1) s3(1) by simp
qed

definition gives_doppler_rates :: "sub_swath_info \<Rightarrow> sub_swath_info \<Rightarrow> bool" where
  "gives_doppler_rates sw sw' \<longleftrightarrow> doppler_rates_ok sw' \<and> (\<exists>g. sw' = sw\<lparr>doppler_rate := g\<rparr>)"

lemma ComputeDopplerRate_ok:
  assumes "doppler_inv u" and "ComputeDopplerRate e m h u = Inr u'"
  shows "doppler_inv u' \<and> list_all doppler_rates_ok (su_subswath u')"
proof -
  obtain u1 u2 w where u1: "(if su_orbit u = None then GetProductOrbit e h u else Inr u) = Inr u1"
    and u2: "(if su_range_depend_doppler_rate_available u1 then Inr u1 else ComputeRangeDependentDopplerRate e h u1) = Inr u2"
    and u': "each_subswath (compute_doppler_rate_of m w) u2 = Inr u'"
    using assms(2) unfolding ComputeDopplerRate_def Let_def bind_res_Inr_iff by blast
  have i1: "doppler_inv u1"
    using u1 assms(1) by (auto simp: GetProductOrbit_def bind_res_Inr_iff doppler_inv_def split: if_splits)
  obtain sws where "u2 = u1\<lparr>su_subswath := sws, su_range_depend_doppler_rate_available := True\<rparr>"
      "list_all2 gives_rates (su_subswath u1) sws"
    by (rule rates_ensured [OF i1 u2])
  then have i2: "doppler_inv u2" using rates_inv [OF i1] by simp
  then have n: "su_num_of_sub_swath u2 = int (length (su_subswath u2))" by (simp add: doppler_inv_def)
  obtain sws3 where s3: "u' = u2\<lparr>su_subswath := sws3\<rparr>" "list_all2 gives_doppler_rates (su_subswath u2) sws3"
    by (rule each_subswath_ok [OF u' n, where Q = gives_doppler_rates])
       (auto simp: compute_doppler_rate_of_def bind_res_Inr_iff gives_doppler_rates_def doppler_rates_ok_def dest: fill_grid_complete)
  have "list_all doppler_rates_ok sws3" using s3(2) by (auto simp: list_all2_conv_all_nth list_all_length gives_doppler_rates_def)
  moreover have "list_all centroids_ok sws3" if "list_all centroids_ok (su_subswath u2)"
    using that s3(2) by (fastforce simp: list_all2_conv_all_nth list_all_length gives_doppler_rates_def centroids_ok_def)
  moreover have "list_all rates_ok sws3" if "list_all rates_ok (su_subswath u2)"
    using that s3(2) by (fastforce simp: list_all2_conv_all_nth list_all_length gives_doppler_rates_def rates_ok_def)
  ultimately show ?thesis using i2 s3 by (auto simp: doppler_inv_def list_all2_lengthD)
qed

section \<open>The phase\<close>

lemma vec_writes:
  assumes "\<forall>x\<in>set xs. cell x = Inr (val x) \<and> 0 \<le> k x \<and> k x < int (length r) \<and> int32_range (k x)"
    and "inj_on k (set xs)" and "distinct xs"
  shows "\<exists>r'. fold_res (\<lambda>x r. bind_res (cell x) (\<lambda>v. bind_res (int_result (k x)) (\<lambda>j. vec_set r j (Some v)))) xs r = Inr r' \<and>
    length r' = length r \<and> (\<forall>x\<in>set xs. r' ! nat (k x) = Some (val x)) \<and>
    (\<forall>j. j \<notin> (\<lambda>x. nat (k x)) ` set xs \<longrightarrow> r' ! j = r ! j)"
  using assms
proof (induction xs arbitrary: r)
  case Nil
  then show ?case by simp
next
  case (Cons x xs)
  let ?r = "r[nat (k x) := Some (val x)]"
  obtain r' where r': "fold_res (\<lambda>x r. bind_res (cell x) (\<lambda>v. bind_res (int_result (k x)) (\<lambda>j. vec_set r j (Some v)))) xs ?r = Inr r'"
    "length r' = length r" "\<forall>x\<in>set xs. r' ! nat (k x) = Some (val x)"
    "\<forall>j. j \<notin> (\<lambda>x. nat (k x)) ` set xs \<longrightarrow> r' ! j = ?r ! j"
    using Cons.IH [of ?r] Cons.prems by auto
  have "nat (k x) \<notin> (\<lambda>x. nat (k x)) ` set xs"
  proof
    assume "nat (k x) \<in> (\<lambda>x. nat (k x)) ` set xs"
    then obtain y where y: "y \<in> set xs" "nat (k y) = nat (k x)" by auto
    then have "k y = k x" using Cons.prems(1) by (auto simp: nat_eq_iff)
    then show False using y(1) Cons.prems(2,3) by (auto simp: inj_on_def)
  qed
  then have "r' ! nat (k x) = Some (val x)" using r'(4) Cons.prems(1) by auto
  then show ?case
    using r' Cons.prems(1) by (auto simp: int_result_def vec_set_def nth_list_update)
qed

lemma vec_writes_rows:
  assumes "\<forall>y\<in>set ys. row y = Inr (t y) \<and> (\<forall>x\<in>set xs. cell (t y) x = Inr (val y x) \<and>
      0 \<le> k y x \<and> k y x < int (length r) \<and> int32_range (k y x))"
    and "inj_on (\<lambda>(y, x). k y x) (set ys \<times> set xs)" and "distinct xs" "distinct ys"
  shows "\<exists>r'. fold_res (\<lambda>y r. bind_res (row y) (\<lambda>t.
      fold_res (\<lambda>x r. bind_res (cell t x) (\<lambda>v. bind_res (int_result (k y x)) (\<lambda>j. vec_set r j (Some v)))) xs r)) ys r = Inr r' \<and>
    length r' = length r \<and> (\<forall>y\<in>set ys. \<forall>x\<in>set xs. r' ! nat (k y x) = Some (val y x)) \<and>
    (\<forall>j. j \<notin> (\<lambda>(y, x). nat (k y x)) ` (set ys \<times> set xs) \<longrightarrow> r' ! j = r ! j)"
  using assms(1,2,4)
proof (induction ys arbitrary: r)
  case Nil
  then show ?case by simp
next
  case (Cons y ys)
  have "inj_on (k y) (set xs)" using Cons.prems(2) by (auto simp: inj_on_def)
  then obtain r1 where r1: "fold_res (\<lambda>x r. bind_res (cell (t y) x) (\<lambda>v. bind_res (int_result (k y x)) (\<lambda>j. vec_set r j (Some v)))) xs r = Inr r1"
    "length r1 = length r" "\<forall>x\<in>set xs. r1 ! nat (k y x) = Some (val y x)"
    "\<forall>j. j \<notin> (\<lambda>x. nat (k y x)) ` set xs \<longrightarrow> r1 ! j = r ! j"
    using vec_writes [of xs "cell (t y)" "val y" "k y" r] assms(3) Cons.prems(1) by auto
  have "inj_on (\<lambda>(y, x). k y x) (set ys \<times> set xs)" by (rule inj_on_subset [OF Cons.prems(2)]) auto
  then obtain r' where r': "fold_res (\<lambda>y r. bind_res (row y) (\<lambda>t.
      fold_res (\<lambda>x r. bind_res (cell t x) (\<lambda>v. bind_res (int_result (k y x)) (\<lambda>j. vec_set r j (Some v)))) xs r)) ys r1 = Inr r'"
    "length r' = length r1" "\<forall>y\<in>set ys. \<forall>x\<in>set xs. r' ! nat (k y x) = Some (val y x)"
    "\<forall>j. j \<notin> (\<lambda>(y, x). nat (k y x)) ` (set ys \<times> set xs) \<longrightarrow> r' ! j = r1 ! j"
    using Cons.IH [of r1] Cons.prems(1,3) r1(2) by auto
  have "r' ! nat (k y x) = Some (val y x)" if x: "x \<in> set xs" for x
  proof -
    have "nat (k y x) \<notin> (\<lambda>(y, x). nat (k y x)) ` (set ys \<times> set xs)"
    proof
      assume "nat (k y x) \<in> (\<lambda>(y, x). nat (k y x)) ` (set ys \<times> set xs)"
      then obtain y' x' where yx: "y' \<in> set ys" "x' \<in> set xs" "nat (k y' x') = nat (k y x)" by auto
      then have "k y' x' = k y x" using Cons.prems(1) x by (simp add: eq_nat_nat_iff)
      then have "y' = y" using inj_onD [OF Cons.prems(2), of "(y', x')" "(y, x)"] yx(1,2) x by auto
      then show False using yx(1) Cons.prems(3) by simp
    qed
    then show ?thesis using r'(4) r1(3) x by simp
  qed
  moreover have "r' ! j = r ! j" if "j \<notin> (\<lambda>(y, x). nat (k y x)) ` (set (y # ys) \<times> set xs)" for j
  proof -
    have "j \<notin> (\<lambda>(y, x). nat (k y x)) ` (set ys \<times> set xs)" "j \<notin> (\<lambda>x. nat (k y x)) ` set xs"
      using that by force+
    then show ?thesis using r1(4) r'(4) by simp
  qed
  ultimately show ?case using r1(1,2) r'(1-3) Cons.prems(1) by simp
qed

text \<open>A sub-swath whose Doppler grids have been computed, and the phase at a pixel.\<close>

definition deramp_ready :: "sub_swath_info \<Rightarrow> bool" where
  "deramp_ready sw \<longleftrightarrow> doppler_rates_ok sw \<and> reference_times_ok sw \<and> centroids_ok sw"

lemma deramp_demod_defined:
  assumes "deramp_ready sw" and "0 \<le> b" "b < num_of_bursts sw" "0 \<le> x" "x < samples_per_burst sw"
  shows "\<exists>v. deramp_demod_at m sw b ta x = Inr v"
proof -
  have "\<exists>v. cell_at (doppler_rate sw) b x = Inr v" "\<exists>v. cell_at (reference_time sw) b x = Inr v"
    "\<exists>v. cell_at (doppler_centroid sw) b x = Inr v"
    using assms by (auto simp: deramp_ready_def doppler_rates_ok_def reference_times_ok_def centroids_ok_def complete_grid_def)
  then show ?thesis by (auto simp: deramp_demod_at_def)
qed

definition line_in_burst_time :: "sub_swath_info \<Rightarrow> int \<Rightarrow> int \<Rightarrow> fp" where
  "line_in_burst_time sw b y = fmul f64 (fp_of_int f64 (y - b * lines_per_burst sw)) (azimuth_time_interval sw)"

text \<open>
  C31. Once the Doppler grids of a sub-swath are there, the phase of any region of a burst inside its samples is
  computed without an access out of bounds, and cell \<open>(y - y0) * w + (x - x0)\<close> holds the phase of line \<open>y\<close> and
  sample \<open>x\<close>; the block is eight times as large as that.
\<close>

theorem ComputeDerampDemodPhase_fills:
  assumes "1 \<le> i" "i \<le> int (length (su_subswath u))" and sw: "sw = su_subswath u ! nat (i - 1)" and "deramp_ready sw"
    and b: "0 \<le> b" "b < num_of_bursts sw" "0 \<le> lines_per_burst sw" "int32_range (b * lines_per_burst sw)"
    and r: "0 \<le> rx r" "0 \<le> width r" "rx r + width r \<le> samples_per_burst sw" "int32_range (samples_per_burst sw)"
      "0 \<le> ry r" "0 \<le> height r" "int32_range (ry r + height r)" "int32_range (height r * width r)"
  shows "\<exists>cells. ComputeDerampDemodPhase m u i b r = Inr cells \<and> int (length cells) = 8 * (height r * width r) \<and>
    (\<forall>y\<in>{ry r..<ry r + height r}. \<forall>x\<in>{rx r..<rx r + width r}. \<exists>v.
       deramp_demod_at m sw b (line_in_burst_time sw b y) x = Inr v \<and>
       cells ! nat ((y - ry r) * width r + (x - rx r)) = Some v)"
proof -
  let ?w = "width r" and ?h = "height r"
  let ?k = "\<lambda>y x. (y - ry r) * ?w + (x - rx r)"
  let ?t = "\<lambda>y. line_in_burst_time sw b y"
  let ?val = "\<lambda>y x. case deramp_demod_at m sw b (?t y) x of Inr v \<Rightarrow> v"
  let ?ys = "[ry r..ry r + ?h - 1]" and ?xs = "[rx r..rx r + ?w - 1]"
  let ?r0 = "replicate (nat (?h * ?w * 8)) (None :: fp option)"
  have hw: "0 \<le> ?h * ?w" using r by simp
  have k: "0 \<le> ?k y x \<and> ?k y x < ?h * ?w" if "y \<in> set ?ys" "x \<in> set ?xs" for y x
  proof -
    have "?k y x < (y - ry r + 1) * ?w" using that(2) by (simp add: algebra_simps)
    also have "\<dots> \<le> ?h * ?w" using that(1) r by (intro mult_right_mono) auto
    finally show ?thesis using that r by auto
  qed
  have cell: "deramp_demod_at m sw b (?t y) x = Inr (?val y x)" if "x \<in> set ?xs" for y x
    using deramp_demod_defined [OF assms(4) b(1,2), of x m "?t y"] that r by fastforce
  have row: "bind_res (int_result (y - b * lines_per_burst sw)) (\<lambda>line. Inr (fmul f64 (fp_of_int f64 line) (azimuth_time_interval sw))) = Inr (?t y)"
    if "y \<in> set ?ys" for y
  proof -
    have "int32_range (y - q)" if "0 \<le> q" "int32_range q" for q
      using that \<open>y \<in> set ?ys\<close> r by (auto simp: int32_range_def)
    moreover have "0 \<le> b * lines_per_burst sw" using b by simp
    ultimately have "int32_range (y - b * lines_per_burst sw)" using b(4) by blast
    then show ?thesis by (simp add: int_result_def line_in_burst_time_def)
  qed
  have inj: "inj_on (\<lambda>(y, x). ?k y x) (set ?ys \<times> set ?xs)"
  proof (rule inj_onI)
    fix p q assume "p \<in> set ?ys \<times> set ?xs" "q \<in> set ?ys \<times> set ?xs" and e: "(\<lambda>(y, x). ?k y x) p = (\<lambda>(y, x). ?k y x) q"
    then have "0 \<le> snd p - rx r" "snd p - rx r < ?w" "0 \<le> snd q - rx r" "snd q - rx r < ?w" by auto
    moreover have "?k (fst p) (snd p) = ?k (fst q) (snd q)" using e by (simp add: case_prod_beta)
    ultimately have "fst p - ry r = fst q - ry r \<and> snd p - rx r = snd q - rx r" by (intro row_major_inj)
    then show "p = q" by (simp add: prod_eq_iff)
  qed
  have "\<forall>y\<in>set ?ys. bind_res (int_result (y - b * lines_per_burst sw)) (\<lambda>line. Inr (fmul f64 (fp_of_int f64 line) (azimuth_time_interval sw))) = Inr (?t y) \<and>
      (\<forall>x\<in>set ?xs. deramp_demod_at m sw b (?t y) x = Inr (?val y x) \<and> 0 \<le> ?k y x \<and> ?k y x < int (length ?r0) \<and> int32_range (?k y x))"
  proof (intro ballI conjI)
    fix y x assume y: "y \<in> set ?ys" and x: "x \<in> set ?xs"
    show "deramp_demod_at m sw b (?t y) x = Inr (?val y x)" by (rule cell [OF x])
    show "0 \<le> ?k y x" using k [OF y x] by blast
    show "?k y x < int (length ?r0)" using k [OF y x] by auto
    show "int32_range (?k y x)" using k [OF y x] r(8) unfolding int32_range_def by linarith
  qed (rule row)
  note written = vec_writes_rows [where row = "\<lambda>y. bind_res (int_result (y - b * lines_per_burst sw)) (\<lambda>line. Inr (fmul f64 (fp_of_int f64 line) (azimuth_time_interval sw)))"
      and t = ?t and cell = "deramp_demod_at m sw b" and val = ?val and k = ?k and r = ?r0, OF this inj distinct_upto distinct_upto]
  then obtain r' where r': "fold_res (\<lambda>y r. bind_res (bind_res (int_result (y - b * lines_per_burst sw)) (\<lambda>line. Inr (fmul f64 (fp_of_int f64 line) (azimuth_time_interval sw)))) (\<lambda>t.
      fold_res (\<lambda>x r. bind_res (deramp_demod_at m sw b t x) (\<lambda>v. bind_res (int_result (?k y x)) (\<lambda>j. vec_set r j (Some v)))) ?xs r)) ?ys ?r0 = Inr r'"
    "length r' = length ?r0" "\<forall>y\<in>set ?ys. \<forall>x\<in>set ?xs. r' ! nat (?k y x) = Some (?val y x)"
    by blast
  have "int32_range (rx r + ?w)" using r by (auto simp: int32_range_def)
  then have "ComputeDerampDemodPhase m u i b r = Inr r'"
    using r' assms(1,2) b r hw sw by (simp add: ComputeDerampDemodPhase_def Let_def int_result_def vec_at_def bind_res_assoc)
  moreover have "int (length r') = 8 * (?h * ?w)" using r'(2) hw by simp
  ultimately show ?thesis using r'(3) cell by (intro exI [of _ r']) auto
qed

text \<open>
  C30. The two computations that come before the phase, in the order in which the operators call them, leave every
  sub-swath with complete grids and with reference times that agree with the centroids and the rates.
\<close>

theorem deramp_prepared:
  assumes "doppler_inv u" and "ComputeDopplerRate e m h u = Inr u1" and "ComputeReferenceTime e m h u1 = Inr u2"
  shows "doppler_inv u2 \<and> list_all deramp_ready (su_subswath u2) \<and> list_all reference_times_of (su_subswath u2) \<and>
    map subswath_name (su_subswath u2) = map subswath_name (su_subswath u1)"
proof -
  have r: "doppler_inv u1" "list_all doppler_rates_ok (su_subswath u1)" using ComputeDopplerRate_ok [OF assms(1,2)] by blast+
  have t: "doppler_inv u2" "list_all2 timed (su_subswath u1) (su_subswath u2)"
    using ComputeReferenceTime_ok [OF r(1) assms(3)] by blast+
  have "deramp_ready b \<and> reference_times_of b \<and> subswath_name b = subswath_name a" if "timed a b" "doppler_rates_ok a" for a b
    using that by (auto simp: timed_def deramp_ready_def doppler_rates_ok_def reference_times_ok_def reference_times_of_def)
  then have "list_all2 (\<lambda>a b. deramp_ready b \<and> reference_times_of b \<and> subswath_name b = subswath_name a) (su_subswath u1) (su_subswath u2)"
    using t(2) r(2) by (auto simp: list_all2_conv_all_nth list_all_length)
  then show ?thesis using t(1) by (auto simp: list_all2_conv_all_nth list_all_length list_eq_iff_nth_eq)
qed

section \<open>Interpolated centroids\<close>

lemma map_res_fails:
  assumes "\<forall>x\<in>set xs. \<exists>v. f x = Inr v" and "f y = Inl e"
  shows "map_res f (xs @ y # ys) = Inl e"
  using assms(1) by (induction xs) (auto simp: assms(2))

lemma interpolate_undefined:
  assumes "data_dc_polynomial dc0 \<noteq> []" and "data_dc_polynomial dc1 \<noteq> []"
  shows "fold_res (interpolate_coefficient dc0 dc1 mu) [0..int (length (data_dc_polynomial dc0)) - 1] [] = Inl Undefined_behaviour"
proof -
  have "[0..int (length (data_dc_polynomial dc0)) - 1] = 0 # [1..int (length (data_dc_polynomial dc0)) - 1]"
    using assms(1) by (simp add: upto_rec1)
  then show ?thesis using assms by (simp add: interpolate_coefficient_def vec_get_def vec_set_def)
qed

lemma estimates_from_range:
  assumes "estimates_from dcs t js = r" and "\<forall>j\<in>set js. 0 \<le> j \<and> j + 1 < int (length dcs)" and "dcs \<noteq> []"
  shows "\<exists>k0 k1. r = Inr (k0, k1) \<and> 0 \<le> k0 \<and> k0 < int (length dcs) \<and> 0 \<le> k1 \<and> k1 < int (length dcs)"
  using assms(1,2)
proof (induction js)
  case Nil
  then show ?case using assms(3) by auto
next
  case (Cons j js)
  then have "vec_at dcs j = Inr (dcs ! nat j)" "vec_at dcs (j + 1) = Inr (dcs ! nat (j + 1))" by (simp_all add: vec_at_ok)
  then show ?case using Cons by (auto split: if_splits)
qed

lemma estimates_around_range:
  assumes "2 \<le> length dcs"
  shows "\<exists>k0 k1. estimates_around dcs t = Inr (k0, k1) \<and> 0 \<le> k0 \<and> k0 < int (length dcs) \<and> 0 \<le> k1 \<and> k1 < int (length dcs)"
proof -
  have "\<forall>j\<in>set [0..int (length dcs) - 2]. 0 \<le> j \<and> j + 1 < int (length dcs)" by auto
  moreover have "dcs \<noteq> []" using assms by auto
  ultimately obtain k0 k1 where "estimates_from dcs t [0..int (length dcs) - 2] = Inr (k0, k1)"
    "0 \<le> k0" "k0 < int (length dcs)" "0 \<le> k1" "k1 < int (length dcs)"
    using estimates_from_range [OF refl] by blast
  moreover have "vec_at dcs 0 = Inr (dcs ! 0)" "vec_at dcs (int (length dcs) - 1) = Inr (dcs ! nat (int (length dcs) - 1))"
    using assms by (auto simp: vec_at_def)
  ultimately show ?thesis using assms by (auto simp: estimates_around_def Let_def)
qed

lemma ComputeDC_undefined:
  assumes "\<forall>dc\<in>set dcs. data_dc_polynomial dc \<noteq> []" and "2 \<le> length dcs"
  shows "ComputeDC t dcs = Inl Undefined_behaviour"
proof -
  obtain k0 k1 where k: "estimates_around dcs t = Inr (k0, k1)"
    "0 \<le> k0" "k0 < int (length dcs)" "0 \<le> k1" "k1 < int (length dcs)"
    using estimates_around_range [OF assms(2)] by blast
  then have "nat k0 < length dcs" "nat k1 < length dcs" by simp_all
  then have "data_dc_polynomial (dcs ! nat k0) \<noteq> []" "data_dc_polynomial (dcs ! nat k1) \<noteq> []"
    using assms(1) by simp_all
  then show ?thesis using k by (simp add: ComputeDC_def vec_at_ok Let_def interpolate_undefined)
qed

lemma ComputeDC_single:
  assumes "data_dc_polynomial dc \<noteq> []"
  shows "ComputeDC t [dc] = Inl (if flt t (dc_time dc) \<or> flt (dc_time dc) t then Out_of_range else Undefined_behaviour)"
  using interpolate_undefined [OF assms assms] by (simp add: ComputeDC_def estimates_around_def vec_at_def Let_def)

definition burst_centre :: "sub_swath_info \<Rightarrow> nat \<Rightarrow> fp" where
  "burst_centre s b = fmul f64 (Fin (1 / 2)) (fadd f64 (burst_first_line_time s ! b) (burst_last_line_time s ! b))"

text \<open>
  C32. The centroids at the bursts are never interpolated. With coefficients in every estimate and the times of all
  bursts recorded, the result is the list of estimates when there are as many as bursts. With fewer it is never a
  list: with two or more estimates the interpolation writes into an empty vector, which is undefined; with none, or
  with one at another time than the centre of the second burst, an index is out of range and throws, and with one
  at no other time the write into the empty vector is reached again.
\<close>

theorem ComputeDCForBurstCenters_never_interpolates:
  assumes "vec_at (su_subswath u) (i - 1) = Inr s" and "\<forall>dc\<in>set dcs. data_dc_polynomial dc \<noteq> []"
    and "num_of_bursts s \<le> int (length (burst_first_line_time s))" "num_of_bursts s \<le> int (length (burst_last_line_time s))"
  shows "ComputeDCForBurstCenters u dcs i =
    (if num_of_bursts s \<le> int (length dcs) then Inr dcs
     else case dcs of
            [] \<Rightarrow> Inl Out_of_range
          | [dc] \<Rightarrow> Inl (if flt (burst_centre s 1) (dc_time dc) \<or> flt (dc_time dc) (burst_centre s 1)
                          then Out_of_range else Undefined_behaviour)
          | _ \<Rightarrow> Inl Undefined_behaviour)"
proof (cases "num_of_bursts s \<le> int (length dcs)")
  case True
  then show ?thesis using assms(1) by (auto simp: ComputeDCForBurstCenters_def)
next
  case False
  let ?l = "int (length dcs)"
  let ?f = "\<lambda>b. if b < ?l then vec_get dcs b
              else bind_res (vec_get (burst_first_line_time s) b) (\<lambda>first_time.
                   bind_res (vec_get (burst_last_line_time s) b) (\<lambda>last_time.
                     ComputeDC (fmul f64 (Fin (1 / 2)) (fadd f64 first_time last_time)) dcs))"
  have split: "[0..num_of_bursts s - 1] = [0..?l - 1] @ ?l # [?l + 1..num_of_bursts s - 1]"
    using False by (intro upto_split3) simp_all
  have at: "?f ?l = ComputeDC (burst_centre s (length dcs)) dcs"
    using False assms(3,4) by (simp add: vec_get_def burst_centre_def)
  have run: "ComputeDCForBurstCenters u dcs i = Inl x" if "ComputeDC (burst_centre s (length dcs)) dcs = Inl x" for x
  proof -
    have "map_res ?f [0..num_of_bursts s - 1] = Inl x"
      unfolding split by (rule map_res_fails) (use at that in \<open>auto simp: vec_get_def\<close>)
    then show ?thesis using False assms(1) by (simp add: ComputeDCForBurstCenters_def)
  qed
  show ?thesis
  proof (cases dcs)
    case Nil
    then show ?thesis using False run [of Out_of_range] by (simp add: ComputeDC_def estimates_around_def vec_at_def)
  next
    case (Cons dc rest)
    show ?thesis
    proof (cases rest)
      case Nil
      then show ?thesis using Cons False run ComputeDC_single [of dc] assms(2) by simp
    next
      case two: (Cons dc' rest')
      then show ?thesis using Cons False run ComputeDC_undefined [OF assms(2)] by simp
    qed
  qed
qed

section \<open>Witnesses\<close>

definition one_estimate :: dc_polynomial where
  "one_estimate = \<lparr>dc_time = Fin 0, dc_t0 = Fin 0, data_dc_polynomial = [Fin 1]\<rparr>"

definition three_burst_utils :: sentinel1_utils where
  "three_burst_utils = (empty_utils 0 0)\<lparr>su_num_of_sub_swath := 1,
     su_subswath := [SubSwathInfo\<lparr>num_of_bursts := 3, burst_first_line_time := [Fin 0, Fin 1, Fin 2],
                                   burst_last_line_time := [Fin 1, Fin 2, Fin 3]\<rparr>]\<rparr>"

lemma ComputeDCForBurstCenters_never_interpolates_witness:
  "ComputeDCForBurstCenters three_burst_utils [one_estimate, one_estimate] 1 = Inl Undefined_behaviour \<and>
   ComputeDCForBurstCenters three_burst_utils [one_estimate, one_estimate, one_estimate] 1 =
     Inr [one_estimate, one_estimate, one_estimate]"
proof -
  let ?s = "SubSwathInfo\<lparr>num_of_bursts := 3, burst_first_line_time := [Fin 0, Fin 1, Fin 2],
              burst_last_line_time := [Fin 1, Fin 2, Fin 3]\<rparr>"
  have s: "vec_at (su_subswath three_burst_utils) (1 - 1) = Inr ?s" by (simp add: three_burst_utils_def vec_at_def)
  show ?thesis
    using ComputeDCForBurstCenters_never_interpolates [OF s, of "[one_estimate, one_estimate]"]
      ComputeDCForBurstCenters_never_interpolates [OF s, of "[one_estimate, one_estimate, one_estimate]"]
    by (simp add: one_estimate_def)
qed

definition zero_cell :: "fp array2 option" where
  "zero_cell = Some \<lparr>a2_rows = 1, a2_cols = 1, a2_cells = [Some (Fin 0)]\<rparr>"

definition ready_sub_swath :: sub_swath_info where
  "ready_sub_swath =
     SubSwathInfo\<lparr>num_of_bursts := 1, samples_per_burst := 1, doppler_rate := zero_cell, doppler_centroid := zero_cell,
       reference_time := zero_cell, range_depend_doppler_rate := zero_cell\<rparr>"

definition plain_libm :: libm where
  "plain_libm = \<lparr>sqrt_fn = (\<lambda>x. x), pow_fn = (\<lambda>x y. x)\<rparr>"

lemma zero_cell_complete: "complete_grid 1 1 zero_cell"
  by (auto simp: complete_grid_def grid_ok_def zero_cell_def cell_at_def cell_index_def)

lemma ComputeDerampDemodPhase_fills_witness:
  "\<exists>cells v. ComputeDerampDemodPhase plain_libm ((empty_utils 0 0)\<lparr>su_subswath := [ready_sub_swath]\<rparr>) 1 0 (mk_rect 0 3 1 1) = Inr cells \<and>
     length cells = 8 \<and> cells ! 0 = Some v"
proof -
  let ?u = "(empty_utils 0 0)\<lparr>su_subswath := [ready_sub_swath]\<rparr>"
  have "deramp_ready ready_sub_swath"
    by (simp add: deramp_ready_def doppler_rates_ok_def reference_times_ok_def centroids_ok_def ready_sub_swath_def zero_cell_complete)
  moreover have "num_of_bursts ready_sub_swath = 1" "samples_per_burst ready_sub_swath = 1" "lines_per_burst ready_sub_swath = 0"
    by (simp_all add: ready_sub_swath_def SubSwathInfo_def)
  moreover have "int32_range 0" "int32_range 1" "int32_range 4" by (simp_all add: int32_range_def)
  ultimately obtain cells where c: "ComputeDerampDemodPhase plain_libm ?u 1 0 (mk_rect 0 3 1 1) = Inr cells" "length cells = 8"
    and each: "\<forall>y\<in>{3..<3 + 1}. \<forall>x\<in>{0..<0 + 1}. \<exists>v.
       deramp_demod_at plain_libm ready_sub_swath 0 (line_in_burst_time ready_sub_swath 0 y) x = Inr v \<and>
       cells ! nat ((y - 3) * 1 + (x - 0)) = Some v"
    using ComputeDerampDemodPhase_fills [of 1 ?u ready_sub_swath 0 "mk_rect 0 3 1 1" plain_libm]
    by (auto simp: mk_rect_sel)
  have "\<exists>v. deramp_demod_at plain_libm ready_sub_swath 0 (line_in_burst_time ready_sub_swath 0 3) 0 = Inr v \<and>
       cells ! nat ((3 - 3) * 1 + (0 - 0)) = Some v"
    by (rule bspec [OF bspec [OF each, of 3], of 0]) simp_all
  then show ?thesis using c by auto
qed

text \<open>The annotation of a sub-swath with one burst: one centroid estimate and one azimuth rate.\<close>

definition sample_estimate :: meta_tree where
  "sample_estimate =
     Tree ''dcEstimate'' [(''azimuthTime'', ''0''), (''t0'', ''0'')]
       [Tree ''geometryDcPolynomial'' [(''geometryDcPolynomial'', ''0'')] []]"

definition sample_estimates :: meta_tree where
  "sample_estimates = Tree ''dcEstimateList'' [(''count'', ''1'')] [sample_estimate]"

definition sample_rate :: meta_tree where
  "sample_rate =
     Tree ''azimuthFmRate'' [(''azimuthTime'', ''0''), (''t0'', ''0''), (''c0'', ''0''), (''c1'', ''0''), (''c2'', ''0'')] []"

definition sample_rates :: meta_tree where
  "sample_rates = Tree ''azimuthFmRateList'' [(''count'', ''1'')] [sample_rate]"

definition sample_processing :: meta_tree where
  "sample_processing = Tree ''processingInformation'' [(''dcMethod'', ''Geometry'')] []"

definition sample_doppler_product :: meta_tree where
  "sample_doppler_product =
     Tree ''product'' []
       [Tree ''generalAnnotation'' [] [sample_rates], Tree ''imageAnnotation'' [] [sample_processing],
        Tree ''dopplerCentroid'' [] [sample_estimates]]"

definition sample_doppler_root :: meta_tree where
  "sample_doppler_root =
     Tree ''original'' [] [Tree ''annotation'' [] [Tree ''s1a-iw1-slc'' [] [sample_doppler_product]]]"

lemma doppler_children:
  "tree_child (ieq sample_env) sample_doppler_root ''annotation'' = Some (Tree ''annotation'' [] [Tree ''s1a-iw1-slc'' [] [sample_doppler_product]])"
  "tree_child (ieq sample_env) (Tree ''s1a-iw1-slc'' [] [sample_doppler_product]) ''product'' = Some sample_doppler_product"
  "tree_child (ieq sample_env) sample_doppler_product ''generalAnnotation'' = Some (Tree ''generalAnnotation'' [] [sample_rates])"
  "tree_child (ieq sample_env) (Tree ''generalAnnotation'' [] [sample_rates]) ''azimuthFmRateList'' = Some sample_rates"
  "tree_child (ieq sample_env) sample_doppler_product ''imageAnnotation'' = Some (Tree ''imageAnnotation'' [] [sample_processing])"
  "tree_child (ieq sample_env) (Tree ''imageAnnotation'' [] [sample_processing]) ''processingInformation'' = Some sample_processing"
  "tree_child (ieq sample_env) sample_doppler_product ''dopplerCentroid'' = Some (Tree ''dopplerCentroid'' [] [sample_estimates])"
  "tree_child (ieq sample_env) (Tree ''dopplerCentroid'' [] [sample_estimates]) ''dcEstimateList'' = Some sample_estimates"
  "tree_child (ieq sample_env) sample_rate ''azimuthFmRatePolynomial'' = None"
  "tree_child (ieq sample_env) sample_estimate ''geometryDcPolynomial'' =
     Some (Tree ''geometryDcPolynomial'' [(''geometryDcPolynomial'', ''0'')] [])"
  by (simp_all add: sample_doppler_root_def sample_doppler_product_def sample_rates_def sample_estimates_def sample_rate_def
      sample_estimate_def sample_processing_def look)

lemma doppler_texts:
  "tree_text (ieq sample_env) sample_rates ''count'' = Some ''1''"
  "tree_text (ieq sample_env) sample_estimates ''count'' = Some ''1''"
  "tree_text (ieq sample_env) sample_processing ''dcMethod'' = Some ''Geometry''"
  "tree_text (ieq sample_env) sample_rate ''azimuthTime'' = Some ''0''"
  "tree_text (ieq sample_env) sample_rate ''t0'' = Some ''0''"
  "tree_text (ieq sample_env) sample_rate ''c0'' = Some ''0''"
  "tree_text (ieq sample_env) sample_rate ''c1'' = Some ''0''"
  "tree_text (ieq sample_env) sample_rate ''c2'' = Some ''0''"
  "tree_text (ieq sample_env) sample_estimate ''azimuthTime'' = Some ''0''"
  "tree_text (ieq sample_env) sample_estimate ''t0'' = Some ''0''"
  "tree_text (ieq sample_env) (Tree ''geometryDcPolynomial'' [(''geometryDcPolynomial'', ''0'')] []) ''geometryDcPolynomial'' = Some ''0''"
  by (simp_all add: sample_rates_def sample_estimates_def sample_rate_def sample_estimate_def sample_processing_def look)

lemma doppler_product:
  assumes "tree_at h (su_orig_prod_root u) sample_doppler_root"
  obtains p where "annotated_product sample_env h u ''IW1'' = Inr (Some p)" "tree_at h p sample_doppler_product"
proof -
  obtain an where an: "GetElement sample_env (su_orig_prod_root u) ''annotation'' h = Inr (Some an)"
      "tree_at h an (Tree ''annotation'' [] [Tree ''s1a-iw1-slc'' [] [sample_doppler_product]])"
    using tree_GetElement_Some [OF assms _ doppler_children(1)] by auto
  obtain x where x: "GetElements an h = Inr [x]" "tree_at h x (Tree ''s1a-iw1-slc'' [] [sample_doppler_product])"
    using tree_elements_at [OF an(2)] by (auto simp: list_all2_Cons2)
  have "node_at (nodes h) x = Inr (nodes h ! x)" "node_name (nodes h ! x) = ''s1a-iw1-slc''"
    using tree_at_name [OF x(2)] by (simp_all add: node_at_def)
  moreover have "map to_lower ''IW1'' = ''iw1''" by code_simp
  ultimately have m: "GetSubSwathMetadata sample_env h (su_orig_prod_root u) ''IW1'' = Inr (Some x)"
    by (simp add: GetSubSwathMetadata_def an(1) x(1) contains_def)
  obtain p where "child sample_env h (Some x) ''product'' = Inr (Some p)" "tree_at h p sample_doppler_product"
    using child_tree [OF x(2) _ doppler_children(2)] by auto
  then show thesis using that m by (simp add: annotated_product_def)
qed

lemma doppler_lists:
  assumes "tree_at h (su_orig_prod_root u) sample_doppler_root"
  shows "\<exists>r. GetAzimuthFmRateList sample_env h u ''IW1'' = Inr [r]"
    and "\<exists>d. GetDCEstimateList sample_env h u ''IW1'' = Inr [d]"
proof -
  note step = child_tree [where e = sample_env]
  obtain p where p: "annotated_product sample_env h u ''IW1'' = Inr (Some p)" "tree_at h p sample_doppler_product"
    by (rule doppler_product [OF assms])
  show "\<exists>r. GetAzimuthFmRateList sample_env h u ''IW1'' = Inr [r]"
  proof -
    obtain ga where ga: "child sample_env h (Some p) ''generalAnnotation'' = Inr (Some ga)" "tree_at h ga (Tree ''generalAnnotation'' [] [sample_rates])"
      using step [OF p(2) _ doppler_children(3)] by auto
    obtain rl where rl: "child sample_env h (Some ga) ''azimuthFmRateList'' = Inr (Some rl)" "tree_at h rl sample_rates"
      using step [OF ga(2) _ doppler_children(4)] by auto
    obtain k where k: "child_list h (Some rl) = Inr [k]" "tree_at h k sample_rate"
      using child_list_tree [OF rl(2)] by (auto simp: sample_rates_def list_all2_Cons2)
    obtain q where q: "GetElement sample_env k ''azimuthFmRatePolynomial'' h = Inr q"
        "rel_option (tree_at h) q (tree_child (ieq sample_env) sample_rate ''azimuthFmRatePolynomial'')"
      using tree_GetElement [OF k(2)] by blast
    then have no: "child sample_env h (Some k) ''azimuthFmRatePolynomial'' = Inr None"
      by (simp add: doppler_children child_def deref_def)
    show ?thesis
      by (simp add: GetAzimuthFmRateList_def p(1) ga(1) rl(1) attr_stoi_tree [OF rl(2)] doppler_texts sample_numbers k(1)
          read_azimuth_fm_rate_def sample_seconds [OF k(2)] attr_stod_tree [OF k(2)] sample_zero no)
  qed
  show "\<exists>d. GetDCEstimateList sample_env h u ''IW1'' = Inr [d]"
  proof -
    obtain ia where ia: "child sample_env h (Some p) ''imageAnnotation'' = Inr (Some ia)" "tree_at h ia (Tree ''imageAnnotation'' [] [sample_processing])"
      using step [OF p(2) _ doppler_children(5)] by auto
    obtain pr where pr: "child sample_env h (Some ia) ''processingInformation'' = Inr (Some pr)" "tree_at h pr sample_processing"
      using step [OF ia(2) _ doppler_children(6)] by auto
    obtain dc where dc: "child sample_env h (Some p) ''dopplerCentroid'' = Inr (Some dc)" "tree_at h dc (Tree ''dopplerCentroid'' [] [sample_estimates])"
      using step [OF p(2) _ doppler_children(7)] by auto
    obtain dl where dl: "child sample_env h (Some dc) ''dcEstimateList'' = Inr (Some dl)" "tree_at h dl sample_estimates"
      using step [OF dc(2) _ doppler_children(8)] by auto
    obtain k where k: "child_list h (Some dl) = Inr [k]" "tree_at h k sample_estimate"
      using child_list_tree [OF dl(2)] by (auto simp: sample_estimates_def list_all2_Cons2)
    obtain pe where pe: "child sample_env h (Some k) ''geometryDcPolynomial'' = Inr (Some pe)"
        "tree_at h pe (Tree ''geometryDcPolynomial'' [(''geometryDcPolynomial'', ''0'')] [])"
      using step [OF k(2) _ doppler_children(10)] by auto
    obtain j where j: "attr_pointer sample_env h (Some pe) ''geometryDcPolynomial'' = Inr (Some j)"
        "attribute_numbers stod sample_env h (Some j) '' '' = delimited stod '' '' ''0''"
      using numbers_tree [OF pe(2) _ doppler_texts(11)] by blast
    have "delimited stod '' '' ''0'' = Inr [Fin 0]" by (simp add: delimited.simps [of stod] sample_zero)
    then show ?thesis
      by (simp add: GetDCEstimateList_def p(1) ia(1) pr(1) dc(1) dl(1) attr_string_tree [OF pr(2)] attr_stoi_tree [OF dl(2)]
          doppler_texts sample_numbers k(1) read_dc_estimate_def sample_seconds [OF k(2)] tree_GetAttributeDouble [OF k(2)]
          sample_zero contains_def pe(1) j GetDoubleVector_def)
  qed
qed

definition one_burst :: sub_swath_info where
  "one_burst = SubSwathInfo\<lparr>subswath_name := ''IW1'', num_of_bursts := 1, samples_per_burst := 1\<rparr>"

definition one_burst_utils :: "ref \<Rightarrow> sentinel1_utils" where
  "one_burst_utils orig =
     (empty_utils orig orig)\<lparr>su_num_of_sub_swath := 1, su_subswath := [one_burst],
       su_orbit := Some \<lparr>vectors = [], computations = [], osv_dt = Fin 0, sensor_position = [], sensor_velocity = [], time_map = Map.empty\<rparr>\<rparr>"

lemma one_burst_sel [simp]:
  "subswath_name one_burst = ''IW1''" "num_of_bursts one_burst = 1" "samples_per_burst one_burst = 1" "first_valid_pixel one_burst = 0"
  by (simp_all add: one_burst_def SubSwathInfo_def)

lemma one_cell_filled:
  assumes "\<exists>r. row 0 = Inr r \<and> (\<exists>v. cell r 0 0 = Inr v)"
  shows "\<exists>g. fill_grid 1 1 row cell = Inr g \<and> (\<exists>v. cell_at g 0 0 = Inr v)"
  using assms by (auto simp: fill_grid_def Allocate2DArray_def int_result_def int32_range_def cell_put_def cell_at_def cell_index_def)

lemma one_sub_swath:
  "su_subswath u = [sw] \<Longrightarrow> su_num_of_sub_swath u = 1 \<Longrightarrow>
   each_subswath f u = bind_res (f 0 sw u) (\<lambda>sw'. Inr (u\<lparr>su_subswath := [sw']\<rparr>))"
  by (cases "f 0 sw u") (simp_all add: each_subswath_def vec_at_def)

lemma one_burst_rates:
  assumes "tree_at h orig sample_doppler_root"
  obtains g v where "ComputeRangeDependentDopplerRate sample_env h (one_burst_utils orig) =
      Inr ((one_burst_utils orig)\<lparr>su_subswath := [one_burst\<lparr>range_depend_doppler_rate := g\<rparr>],
        su_range_depend_doppler_rate_available := True\<rparr>)" "cell_at g 0 0 = Inr v"
proof -
  have "tree_at h (su_orig_prod_root (one_burst_utils orig)) sample_doppler_root"
    using assms by (simp add: one_burst_utils_def empty_utils_def)
  then obtain r where r: "GetAzimuthFmRateList sample_env h (one_burst_utils orig) ''IW1'' = Inr [r]"
    using doppler_lists(1) by blast
  have "\<exists>g. fill_grid 1 1 (\<lambda>_. Inr ()) (\<lambda>_. fm_rate_at [r] one_burst) = Inr g \<and> (\<exists>v. cell_at g 0 0 = Inr v)"
    by (rule one_cell_filled) (simp add: fm_rate_at_def vec_get_def Let_def)
  then obtain g v where g: "fill_grid 1 1 (\<lambda>_. Inr ()) (\<lambda>_. fm_rate_at [r] one_burst) = Inr g" "cell_at g 0 0 = Inr v" by blast
  have s: "su_subswath (one_burst_utils orig) = [one_burst]" "su_num_of_sub_swath (one_burst_utils orig) = 1"
    by (simp_all add: one_burst_utils_def empty_utils_def)
  show thesis
    by (rule that [OF _ g(2)]) (simp add: ComputeRangeDependentDopplerRate_def one_sub_swath [OF s] r g(1))
qed

lemma one_centroid:
  assumes s: "su_subswath u = [sw]" "su_num_of_sub_swath u = 1" and "num_of_bursts sw = 1" "samples_per_burst sw = 1"
    and "GetDCEstimateList e h u (subswath_name sw) = Inr [d]"
  obtains g v where "ComputeDopplerCentroid e m h u =
      Inr (u\<lparr>su_subswath := [sw\<lparr>doppler_centroid := g\<rparr>], su_doppler_centroid_available := True\<rparr>)" "cell_at g 0 0 = Inr v"
proof -
  have "\<exists>g. fill_grid 1 1 (\<lambda>_. Inr ()) (\<lambda>_. dc_value_at m [d] sw) = Inr g \<and> (\<exists>v. cell_at g 0 0 = Inr v)"
    by (rule one_cell_filled) (simp add: dc_value_at_def vec_get_def Let_def)
  then obtain g v where g: "fill_grid 1 1 (\<lambda>_. Inr ()) (\<lambda>_. dc_value_at m [d] sw) = Inr g" "cell_at g 0 0 = Inr v" by blast
  have "ComputeDCForBurstCenters u [d] (0 + 1) = Inr [d]" using assms by (simp add: ComputeDCForBurstCenters_def vec_at_def)
  then show thesis using that [OF _ g(2)] g(1) assms by (simp add: ComputeDopplerCentroid_def one_sub_swath [OF s])
qed

lemma one_reference_time:
  assumes s: "su_subswath u = [sw]" "su_num_of_sub_swath u = 1" and n: "num_of_bursts sw = 1" "samples_per_burst sw = 1" "first_valid_pixel sw = 0"
    and q: "centroid_over_rate sw 0 0 = Inr q"
    and "su_doppler_centroid_available u" "su_range_depend_doppler_rate_available u"
  shows "\<exists>u'. ComputeReferenceTime e m h u = Inr u' \<and> length (su_subswath u') = 1"
proof -
  let ?row = "\<lambda>b. bind_res (centroid_over_rate sw b 0) (\<lambda>q. Inr (fadd f64 (fdiv f64 (fmul f64 (fp_of_int f64 (lines_per_burst sw)) (azimuth_time_interval sw)) (Fin 2)) q))"
  let ?cell = "\<lambda>tmp2 b x. bind_res (centroid_over_rate sw b x) (\<lambda>q. Inr (fsub f64 tmp2 q))"
  obtain g where "fill_grid 1 1 ?row ?cell = Inr g" using one_cell_filled [of ?row ?cell] q by auto
  then show ?thesis using assms by (simp add: ComputeReferenceTime_def one_sub_swath [OF s] Let_def)
qed

lemma steering_defined:
  assumes "\<And>t. \<exists>w. utils_GetVelocity m u t = Inr w"
  shows "\<exists>k. steering_doppler_rate m u wave_length sw = Inr k"
  using assms [of "fdiv f64 (fdiv f64 (fadd f64 (first_line_time sw) (last_line_time sw)) (Fin 2)) SECONDS_IN_DAY"]
  by (auto simp: steering_doppler_rate_def Let_def)

lemma one_burst_flags: "su_orbit (one_burst_utils orig) \<noteq> None" "\<not> su_range_depend_doppler_rate_available (one_burst_utils orig)"
  by (simp_all add: one_burst_utils_def empty_utils_def)

lemma deramp_prepared_witness:
  "\<exists>h u u1 u2. ComputeDopplerRate sample_env plain_libm h u = Inr u1 \<and> ComputeReferenceTime sample_env plain_libm h u1 = Inr u2 \<and>
     length (su_subswath u2) = 1 \<and> list_all deramp_ready (su_subswath u2)"
proof -
  define h where "h = snd (lay sample_doppler_root \<lparr>nodes = [], datas = []\<rparr>)"
  define orig where "orig = fst (lay sample_doppler_root \<lparr>nodes = [], datas = []\<rparr>)"
  have orig: "tree_at h orig sample_doppler_root" using lay_tree unfolding h_def orig_def by blast
  let ?u = "one_burst_utils orig"
  obtain g v where g: "ComputeRangeDependentDopplerRate sample_env h ?u =
      Inr (?u\<lparr>su_subswath := [one_burst\<lparr>range_depend_doppler_rate := g\<rparr>], su_range_depend_doppler_rate_available := True\<rparr>)"
      "cell_at g 0 0 = Inr v"
    by (rule one_burst_rates [OF orig])
  let ?sw = "one_burst\<lparr>range_depend_doppler_rate := g\<rparr>"
  let ?ua = "?u\<lparr>su_subswath := [?sw], su_range_depend_doppler_rate_available := True\<rparr>"
  note u = one_burst_flags [of orig]
  have vel: "\<exists>w. utils_GetVelocity plain_libm ?ua t = Inr w" for t
    by (simp add: utils_GetVelocity_def one_burst_utils_def deref_def GetVelocity_def vector_window_def NV_def)
  have s0: "su_subswath ?ua = [?sw]" "su_num_of_sub_swath ?ua = 1" by (simp_all add: one_burst_utils_def)
  have "\<exists>g2. ComputeDopplerRate sample_env plain_libm h ?u = Inr (?ua\<lparr>su_subswath := [?sw\<lparr>doppler_rate := g2\<rparr>]\<rparr>)"
  proof -
    let ?w = "fdiv f64 LIGHT_SPEED (radar_frequency ?sw)"
    obtain k where k: "steering_doppler_rate plain_libm ?ua ?w ?sw = Inr k"
      using steering_defined [of plain_libm ?ua] vel by blast
    obtain g2 where "fill_grid 1 1 (\<lambda>_. Inr ()) (\<lambda>_ :: unit. total_rate_at ?sw k) = Inr g2"
      using one_cell_filled [of "\<lambda>_. Inr ()" "\<lambda>_. total_rate_at ?sw k"] g(2) by (auto simp: total_rate_at_def)
    then have "compute_doppler_rate_of plain_libm ?w 0 ?sw ?ua = Inr (?sw\<lparr>doppler_rate := g2\<rparr>)"
      using k by (simp add: compute_doppler_rate_of_def Allocate2DArray_def int_result_def int32_range_def)
    then have "each_subswath (compute_doppler_rate_of plain_libm ?w) ?ua = Inr (?ua\<lparr>su_subswath := [?sw\<lparr>doppler_rate := g2\<rparr>]\<rparr>)"
      unfolding one_sub_swath [OF s0] by (simp only: bind_res_simps)
    moreover have "vec_at (su_subswath ?ua) 0 = Inr ?sw" by (simp add: vec_at_def)
    ultimately have "ComputeDopplerRate sample_env plain_libm h ?u = Inr (?ua\<lparr>su_subswath := [?sw\<lparr>doppler_rate := g2\<rparr>]\<rparr>)"
      using u g(1) by (simp only: ComputeDopplerRate_def Let_def bind_res_simps if_False if_True)
    then show ?thesis by blast
  qed
  then obtain g2 where d: "ComputeDopplerRate sample_env plain_libm h ?u = Inr (?ua\<lparr>su_subswath := [?sw\<lparr>doppler_rate := g2\<rparr>]\<rparr>)" by blast
  let ?u1 = "?ua\<lparr>su_subswath := [?sw\<lparr>doppler_rate := g2\<rparr>]\<rparr>"
  let ?sw1 = "?sw\<lparr>doppler_rate := g2\<rparr>"
  have s1: "su_subswath ?u1 = [?sw1]" "su_num_of_sub_swath ?u1 = 1" "\<not> su_doppler_centroid_available ?u1"
    by (simp_all add: one_burst_utils_def empty_utils_def)
  have "tree_at h (su_orig_prod_root ?u1) sample_doppler_root" using orig by (simp add: one_burst_utils_def empty_utils_def)
  then obtain d1 where d1: "GetDCEstimateList sample_env h ?u1 ''IW1'' = Inr [d1]" using doppler_lists(2) by blast
  obtain g3 v3 where c: "ComputeDopplerCentroid sample_env plain_libm h ?u1 =
        Inr (?u1\<lparr>su_subswath := [?sw1\<lparr>doppler_centroid := g3\<rparr>], su_doppler_centroid_available := True\<rparr>)" "cell_at g3 0 0 = Inr v3"
    by (rule one_centroid [OF s1(1,2), of sample_env h d1 plain_libm]) (use d1 in simp_all)
  let ?sw2 = "?sw1\<lparr>doppler_centroid := g3\<rparr>"
  let ?u2 = "?u1\<lparr>su_subswath := [?sw2], su_doppler_centroid_available := True\<rparr>"
  have "centroid_over_rate ?sw2 0 0 = Inr (fdiv f64 v3 v)" using g(2) c(2) by (simp add: centroid_over_rate_def)
  then obtain u3 where u3: "ComputeReferenceTime sample_env plain_libm h ?u2 = Inr u3" "length (su_subswath u3) = 1"
    using one_reference_time [of ?u2 ?sw2 _ sample_env plain_libm h] s1(2) by auto
  have "ComputeReferenceTime sample_env plain_libm h ?u1 = ComputeReferenceTime sample_env plain_libm h ?u2"
    using s1(3) c(1) by (simp add: ComputeReferenceTime_def)
  then have "\<exists>u2. ComputeReferenceTime sample_env plain_libm h ?u1 = Inr u2 \<and> length (su_subswath u2) = 1" using u3 by auto
  moreover have "doppler_inv ?u" by (simp add: doppler_inv_def one_burst_utils_def empty_utils_def)
  ultimately show ?thesis using d deramp_prepared [OF _ d] by blast
qed

end
