(* ===== verification/Deburst.thy ===== *)
theory Deburst
  imports TopsarSplit RasterTiles
begin

text \<open>
  The TOPSAR deburst operator (\<^verbatim>\<open>topsar_deburst_op.cc\<close>): the geometry of the debursted image, which burst
  and line of the source a line of the target comes from, which sub-swath a pixel comes from, and the copying of
  the lines of a tile. Reading source pixels and writing tiles go through GDAL: the reader is a parameter, the
  writes are a list. Of the bands of a product the name, unit, kind and data type are known.
\<close>

section \<open>The geometry of the target\<close>

record deburst =
  db_utils :: sentinel1_utils
  db_num_of_sub_swath :: int
  db_acquisition_mode :: string
  db_product_type :: string
  db_selected_polarisations :: "string list"
  db_width :: int
  db_height :: int
  db_first_line_time :: fp
  db_last_line_time :: fp
  db_line_time_interval :: fp
  db_first_pixel_time :: fp
  db_last_pixel_time :: fp
  db_delta :: fp
  db_effect_pixels :: "(int \<times> int) list"

definition db_subswath :: "deburst \<Rightarrow> int \<Rightarrow> sub_swath_info res" where
  "db_subswath d i = vec_at (su_subswath (db_utils d)) i"

definition ComputeTargetStartEndTime :: "deburst \<Rightarrow> deburst res" where
  "ComputeTargetStartEndTime d =
     bind_res (db_subswath d 0) (\<lambda>s0.
     bind_res
       (fold_res (\<lambda>i (first_time, last_time).
          bind_res (db_subswath d i) (\<lambda>s.
            Inr (if flt (first_line_time s) first_time then first_line_time s else first_time,
                 if flt last_time (last_line_time s) then last_line_time s else last_time)))
          [1..db_num_of_sub_swath d - 1] (first_line_time s0, last_line_time s0)) (\<lambda>(first_time, last_time).
       Inr (d\<lparr>db_first_line_time := first_time, db_last_line_time := last_time,
              db_line_time_interval := azimuth_time_interval s0\<rparr>)))"

definition ComputeTargetSlantRangeTimeToFirstAndLastPixels :: "deburst \<Rightarrow> deburst res" where
  "ComputeTargetSlantRangeTimeToFirstAndLastPixels d =
     bind_res (db_subswath d 0) (\<lambda>s0.
     bind_res (db_subswath d (db_num_of_sub_swath d - 1)) (\<lambda>s_last.
       Inr (d\<lparr>db_first_pixel_time := slr_time_to_first_pixel s0, db_last_pixel_time := slr_time_to_last_pixel s_last,
              db_delta := fdiv f64 (range_pixel_spacing s0) LIGHT_SPEED\<rparr>)))"

definition sample_count :: "fp \<Rightarrow> fp \<Rightarrow> fp \<Rightarrow> int res" where
  "sample_count first_time last_time interval =
     fp_to_int32 (fround (fadd f64 (fdiv f64 (fsub f64 last_time first_time) interval) (Fin 1)))"

definition ComputeTargetWidthAndHeight :: "deburst \<Rightarrow> deburst res" where
  "ComputeTargetWidthAndHeight d =
     bind_res (sample_count (db_first_line_time d) (db_last_line_time d) (db_line_time_interval d)) (\<lambda>h.
     bind_res (sample_count (db_first_pixel_time d) (db_last_pixel_time d) (db_delta d)) (\<lambda>w.
       Inr (d\<lparr>db_height := h, db_width := w\<rparr>)))"

definition nearest_pixel :: "deburst \<Rightarrow> fp \<Rightarrow> fp \<Rightarrow> int res" where
  "nearest_pixel d time from = fp_to_int32 (fround (fdiv f64 (fsub f64 time from) (db_delta d)))"

definition effect_pixels :: "deburst \<Rightarrow> int \<Rightarrow> (int \<times> int) res" where
  "effect_pixels d i =
     bind_res (db_subswath d i) (\<lambda>s.
     bind_res
       (if i = 0 then Inr 0
        else bind_res (db_subswath d (i - 1)) (\<lambda>s_before.
             let mid_time = fdiv f64 (fadd f64 (slr_time_to_last_valid_pixel s_before) (slr_time_to_first_valid_pixel s)) (Fin 2)
             in nearest_pixel d mid_time (slr_time_to_first_pixel s))) (\<lambda>x_min.
     bind_res
       (if i < db_num_of_sub_swath d - 1 then
          bind_res (db_subswath d (i + 1)) (\<lambda>s_after.
          let mid_time = fdiv f64 (fadd f64 (slr_time_to_last_valid_pixel s) (slr_time_to_first_valid_pixel s_after)) (Fin 2)
          in nearest_pixel d mid_time (slr_time_to_first_pixel s))
        else nearest_pixel d (slr_time_to_last_pixel s) (slr_time_to_first_pixel s)) (\<lambda>x_max.
       Inr (x_min, x_max))))"

definition ComputeSubSwathEffectStartEndPixels :: "deburst \<Rightarrow> deburst res" where
  "ComputeSubSwathEffectStartEndPixels d =
     bind_res (map_res (effect_pixels d) [0..db_num_of_sub_swath d - 1]) (\<lambda>es. Inr (d\<lparr>db_effect_pixels := es\<rparr>))"

section \<open>Band names\<close>

text \<open>\<open>find_first_of\<close> a character from a position on, and \<open>substr(0, n)\<close>, with \<open>-1\<close> for \<open>npos\<close>.\<close>

definition find_char_from :: "char \<Rightarrow> int \<Rightarrow> string \<Rightarrow> int" where
  "find_char_from c from s =
     (let k = first_index (\<lambda>x. x = c) (drop (nat from) s) in if k < 0 then -1 else from + k)"

definition position_of_text :: "string \<Rightarrow> string \<Rightarrow> int" where
  "position_of_text part s = (case find_sub part s of None \<Rightarrow> -1 | Some k \<Rightarrow> int k)"

definition GetTargetBandNameFromSourceBandName :: "deburst \<Rightarrow> string \<Rightarrow> string" where
  "GetTargetBandNameFromSourceBandName d src_band_name =
     (if db_num_of_sub_swath d = 1 then src_band_name
      else let first_separation_idx = position_of_text (db_acquisition_mode d) src_band_name;
               second_separation_idx = find_char_from (CHR ''_'') (first_separation_idx + 1) src_band_name
           in (if first_separation_idx < 0 then src_band_name else take (nat first_separation_idx) src_band_name) @
              drop (nat (second_separation_idx + 1)) src_band_name)"

definition GetSourceBandNameFromTargetBandName ::
  "deburst \<Rightarrow> band_values list \<Rightarrow> string \<Rightarrow> string \<Rightarrow> string \<Rightarrow> string option" where
  "GetSourceBandNameFromTargetBandName d bands tgt_band_name acquisition_mode swath_index_str =
     (if db_num_of_sub_swath d = 1 then Some tgt_band_name
      else List.find (\<lambda>n. contains n (acquisition_mode @ swath_index_str) \<and>
                          GetTargetBandNameFromSourceBandName d n = tgt_band_name)
             (map band_name bands))"

definition GetPrefix :: "string \<Rightarrow> string" where
  "GetPrefix tgt_band_name = drop (nat (find_char_from (CHR ''_'') 0 tgt_band_name + 1)) tgt_band_name"

definition ContainSelectedPolarisations :: "deburst \<Rightarrow> string \<Rightarrow> bool res" where
  "ContainSelectedPolarisations d name =
     bind_res (GetPolarizationFromBandName name) (\<lambda>band_name_pol.
       Inr (band_name_pol = [] \<or> (\<exists>pol\<in>set (db_selected_polarisations d). contains name pol)))"

section \<open>Lines and samples of the source\<close>

record burst_info =
  sy0 :: int
  sy1 :: int
  swath0 :: int
  swath1 :: int
  burst_num0 :: int
  burst_num1 :: int
  target_time :: fp
  mid_time :: fp

definition BurstInfo :: burst_info where
  "BurstInfo =
     \<lparr>sy0 = -1, sy1 = -1, swath0 = 0, swath1 = 0, burst_num0 = 0, burst_num1 = 0, target_time = Fin 0, mid_time = Fin 0\<rparr>"

definition target_line_time :: "deburst \<Rightarrow> int \<Rightarrow> fp" where
  "target_line_time d y = fadd f64 (db_first_line_time d) (fmul f64 (fp_of_int f64 y) (db_line_time_interval d))"

definition target_sample_time :: "deburst \<Rightarrow> int \<Rightarrow> fp" where
  "target_sample_time d x = fadd f64 (db_first_pixel_time d) (fmul f64 (fp_of_int f64 x) (db_delta d))"

definition in_burst :: "sub_swath_info \<Rightarrow> fp \<Rightarrow> int \<Rightarrow> bool res" where
  "in_burst s t i =
     bind_res (vec_at (burst_first_line_time s) i) (\<lambda>first_time.
       if fle first_time t then bind_res (vec_at (burst_last_line_time s) i) (\<lambda>last_time. Inr (flt t last_time)) else Inr False)"

definition burst_line :: "sub_swath_info \<Rightarrow> fp \<Rightarrow> int \<Rightarrow> int res" where
  "burst_line s t i =
     bind_res (int_result (i * lines_per_burst s)) (\<lambda>first_line.
     bind_res (vec_at (burst_first_line_time s) i) (\<lambda>first_time.
     bind_res (fp_to_int32 (fadd f64 (fdiv f64 (fsub f64 t first_time) (azimuth_time_interval s)) (Fin (1 / 2)))) (\<lambda>line.
       int_result (first_line + line))))"

text \<open>The loop over the bursts; \<open>found\<close> is true once a first burst has been found.\<close>

fun find_bursts :: "sub_swath_info \<Rightarrow> fp \<Rightarrow> bool \<Rightarrow> burst_info \<Rightarrow> int list \<Rightarrow> burst_info res" where
  "find_bursts s t found info [] = Inr info"
| "find_bursts s t found info (i # js) =
     bind_res (in_burst s t i) (\<lambda>here.
       if here then
         bind_res (burst_line s t i) (\<lambda>sy.
           if found then Inr (info\<lparr>sy1 := sy, burst_num1 := i\<rparr>)
           else find_bursts s t True (info\<lparr>sy0 := sy, burst_num0 := i\<rparr>) js)
       else find_bursts s t found info js)"

definition GetLineIndicesInSourceProduct ::
  "deburst \<Rightarrow> int \<Rightarrow> sub_swath_info \<Rightarrow> burst_info \<Rightarrow> (bool \<times> burst_info) res" where
  "GetLineIndicesInSourceProduct d ty s info =
     bind_res
       (find_bursts s (target_line_time d ty) False (info\<lparr>target_time := target_line_time d ty, sy0 := -1, sy1 := -1\<rparr>)
          [0..num_of_bursts s - 1]) (\<lambda>info.
     bind_res
       (if sy0 info \<noteq> -1 \<and> sy1 info \<noteq> -1 then
          bind_res (vec_at (burst_last_line_time s) (burst_num0 info)) (\<lambda>last_time.
          bind_res (vec_at (burst_first_line_time s) (burst_num1 info)) (\<lambda>first_time.
            Inr (info\<lparr>mid_time := fdiv f64 (fadd f64 last_time first_time) (Fin 2)\<rparr>)))
        else Inr info) (\<lambda>info.
       Inr (sy0 info \<noteq> -1 \<or> sy1 info \<noteq> -1, info)))"

definition GetSampleIndexInSourceProduct :: "deburst \<Rightarrow> int \<Rightarrow> sub_swath_info \<Rightarrow> int res" where
  "GetSampleIndexInSourceProduct d tx s =
     bind_res (fp_to_int32 (fadd f64 (fdiv f64 (fsub f64 (target_sample_time d tx) (slr_time_to_first_pixel s)) (db_delta d)) (Fin (1 / 2)))) (\<lambda>sx.
     bind_res (int_result (num_of_samples s - 1)) (\<lambda>last_sample.
       Inr (if sx < 0 then 0 else if sx > last_sample then last_sample else sx)))"

definition ComputeYMin :: "deburst \<Rightarrow> sub_swath_info \<Rightarrow> int res" where
  "ComputeYMin d s = fp_to_int32 (fdiv f64 (fsub f64 (first_valid_line_time s) (db_first_line_time d)) (db_line_time_interval d))"

definition ComputeYMax :: "deburst \<Rightarrow> sub_swath_info \<Rightarrow> int res" where
  "ComputeYMax d s = fp_to_int32 (fdiv f64 (fsub f64 (last_valid_line_time s) (db_first_line_time d)) (db_line_time_interval d))"

definition ComputeXMin :: "deburst \<Rightarrow> sub_swath_info \<Rightarrow> int res" where
  "ComputeXMin d s = fp_to_int32 (fdiv f64 (fsub f64 (slr_time_to_first_valid_pixel s) (db_first_pixel_time d)) (db_delta d))"

definition ComputeXMax :: "deburst \<Rightarrow> sub_swath_info \<Rightarrow> int res" where
  "ComputeXMax d s = fp_to_int32 (fdiv f64 (fsub f64 (slr_time_to_last_valid_pixel s) (db_first_pixel_time d)) (db_delta d))"

definition GetSourceRectangle :: "deburst \<Rightarrow> int \<Rightarrow> int \<Rightarrow> int \<Rightarrow> int \<Rightarrow> int \<Rightarrow> rectangle res" where
  "GetSourceRectangle d tx0 ty0 tw th sub_swath_index =
     bind_res (db_subswath d (sub_swath_index - 1)) (\<lambda>s.
     bind_res (GetSampleIndexInSourceProduct d tx0 s) (\<lambda>x0.
     bind_res (int_result (tx0 + tw - 1)) (\<lambda>tx_last.
     bind_res (GetSampleIndexInSourceProduct d tx_last s) (\<lambda>x_max.
     bind_res (GetLineIndicesInSourceProduct d ty0 s BurstInfo) (\<lambda>(_, info).
     let y0 = (if sy0 info = -1 \<and> sy1 info = -1 then 0 else sy0 info)
     in bind_res (int_result (ty0 + th - 1)) (\<lambda>ty_last.
        bind_res (GetLineIndicesInSourceProduct d ty_last s info) (\<lambda>(_, info).
        bind_res (if sy0 info = -1 \<and> sy1 info = -1 then int_result (num_of_lines s - 1) else Inr (max (sy0 info) (sy1 info))) (\<lambda>y_max.
        bind_res (int_result (x_max - x0 + 1)) (\<lambda>w.
        bind_res (int_result (y_max - y0 + 1)) (\<lambda>h. Inr (mk_rect x0 y0 w h)))))))))))"

section \<open>The sub-swath of a pixel\<close>

definition covers_pixel :: "sub_swath_info \<Rightarrow> fp \<Rightarrow> fp \<Rightarrow> bool" where
  "covers_pixel s t slr \<longleftrightarrow>
     fle (first_valid_line_time s) t \<and> fle t (last_valid_line_time s) \<and>
     fle (slr_time_to_first_valid_pixel s) slr \<and> fle slr (slr_time_to_last_valid_pixel s)"

fun find_swaths :: "deburst \<Rightarrow> fp \<Rightarrow> fp \<Rightarrow> bool \<Rightarrow> burst_info \<Rightarrow> int list \<Rightarrow> burst_info res" where
  "find_swaths d t slr found info [] = Inr info"
| "find_swaths d t slr found info (i # js) =
     bind_res (db_subswath d (i - 1)) (\<lambda>s.
       if covers_pixel s t slr then
         if found then Inr (info\<lparr>swath1 := i\<rparr>) else find_swaths d t slr True (info\<lparr>swath0 := i\<rparr>) js
       else find_swaths d t slr found info js)"

definition GetSubSwathIndex :: "deburst \<Rightarrow> int \<Rightarrow> int \<Rightarrow> int \<Rightarrow> int \<Rightarrow> burst_info \<Rightarrow> (int \<times> burst_info) res" where
  "GetSubSwathIndex d tx ty first_sub_swath_index last_sub_swath_index info =
     bind_res (find_swaths d (target_line_time d ty) (target_sample_time d tx) False (info\<lparr>swath0 := -1, swath1 := -1\<rparr>)
                 [first_sub_swath_index..last_sub_swath_index]) (\<lambda>info.
       if swath1 info \<noteq> -1 then
         bind_res (db_subswath d (swath0 info - 1)) (\<lambda>s0.
         bind_res (db_subswath d (swath1 info - 1)) (\<lambda>s1.
           let middle_time = fdiv f64 (fadd f64 (slr_time_to_last_valid_pixel s0) (slr_time_to_first_valid_pixel s1)) (Fin 2)
           in Inr (if flt middle_time (target_sample_time d tx) then swath1 info else swath0 info, info)))
       else Inr (swath0 info, info))"

section \<open>Tiles\<close>

text \<open>A tile: its rectangle and its buffer, one row after the other.\<close>

record soft_tile =
  st_rect :: rectangle
  st_buffer :: "fp list"

text \<open>The buffer is resized to the rectangle, with zeros at the end, whenever it is used.\<close>

definition GetSimpleDataBuffer :: "rectangle \<Rightarrow> fp list \<Rightarrow> fp list res" where
  "GetSimpleDataBuffer r buffer =
     bind_res (int_result (width r * height r)) (\<lambda>cells.
     bind_res (guard (0 \<le> cells) Length_error) (\<lambda>_.
       Inr (take (nat cells) buffer @ replicate (nat cells - length buffer) (Fin 0))))"

definition TileImpl :: "rectangle \<Rightarrow> soft_tile res" where
  "TileImpl r = bind_res (GetSimpleDataBuffer r []) (\<lambda>buffer. Inr \<lparr>st_rect = r, st_buffer = buffer\<rparr>)"

definition CalculateStride :: "rectangle \<Rightarrow> int \<Rightarrow> int res" where
  "CalculateStride r ty =
     bind_res (int_result (ty - ry r)) (\<lambda>line.
     bind_res (int_result (line * width r)) (\<lambda>skipped. int_result (rx r - skipped)))"

text \<open>\<open>std::copy\<close> of \<open>n\<close> cells from one buffer into another; neither range may leave its buffer.\<close>

definition copy_cells_from :: "fp list \<Rightarrow> int \<Rightarrow> int \<Rightarrow> fp list \<Rightarrow> int \<Rightarrow> fp list res" where
  "copy_cells_from src i n dst j =
     (if 0 \<le> i \<and> 0 \<le> n \<and> i + n \<le> int (length src) \<and> 0 \<le> j \<and> j + n \<le> int (length dst)
      then Inr (take (nat j) dst @ take (nat n) (drop (nat i) src) @ drop (nat (j + n)) dst)
      else Inl Undefined_behaviour)"

text \<open>The line of the source tile that a line of the target is copied from.\<close>

definition chosen_line :: "burst_info \<Rightarrow> int" where
  "chosen_line info = (if sy1 info \<noteq> -1 \<and> flt (mid_time info) (target_time info) then sy1 info else sy0 info)"

definition copy_line ::
  "deburst \<Rightarrow> sub_swath_info \<Rightarrow> soft_tile \<Rightarrow> int \<Rightarrow> int \<Rightarrow> int \<Rightarrow> soft_tile \<times> burst_info \<Rightarrow> (soft_tile \<times> burst_info) res" where
  "copy_line d s src first_x last_x y = (\<lambda>(tgt, info).
     bind_res (GetLineIndicesInSourceProduct d y s info) (\<lambda>(found, info).
       if \<not> found then Inr (tgt, info)
       else
         bind_res (CalculateStride (st_rect tgt) y) (\<lambda>tgt_offset.
         bind_res (CalculateStride (st_rect src) (chosen_line info)) (\<lambda>src_offset.
         bind_res (fp_to_int32 (fround (fdiv f64 (fsub f64 (target_sample_time d first_x) (slr_time_to_first_pixel s)) (db_delta d)))) (\<lambda>sx.
         bind_res (int_result (sx - src_offset)) (\<lambda>from.
         bind_res (int_result (first_x - tgt_offset)) (\<lambda>to.
         bind_res (copy_cells_from (st_buffer src) from (last_x - first_x) (st_buffer tgt) to) (\<lambda>cells.
           Inr (tgt\<lparr>st_buffer := cells\<rparr>, info)))))))))"

text \<open>The source product: its bands, the size of its raster and what GDAL reads of a band, whose numbers start from one.\<close>

record source_product =
  src_bands :: "band_values list"
  raster_x_size :: int
  raster_y_size :: int
  raster_io :: "rectangle \<Rightarrow> int \<Rightarrow> fp list res"

definition GetBand :: "(string \<Rightarrow> string \<Rightarrow> bool) \<Rightarrow> band_values list \<Rightarrow> string \<Rightarrow> band_values option res" where
  "GetBand same bands name = (if name = [] then Inl Invalid_argument else Inr (List.find (\<lambda>b. same (band_name b) name) bands))"

definition GetBandIndex :: "(string \<Rightarrow> string \<Rightarrow> bool) \<Rightarrow> band_values list \<Rightarrow> string \<Rightarrow> int res" where
  "GetBandIndex same bands name = (if name = [] then Inl Invalid_argument else Inr (first_index (\<lambda>b. same (band_name b) name) bands))"

text \<open>The reader of the source (\<^verbatim>\<open>gdal_image_reader.cc\<close>) cuts the rectangle at the end of the raster; its buffer is resized
  to the cut rectangle.\<close>

definition ReadSubSampledData :: "source_product \<Rightarrow> rectangle \<Rightarrow> int \<Rightarrow> fp list res" where
  "ReadSubSampledData p r band_indx =
     bind_res (int_result (rx r + width r)) (\<lambda>x_end. bind_res (int_result (ry r + height r)) (\<lambda>y_end.
     bind_res (if x_end > raster_x_size p then int_result (raster_x_size p - rx r) else Inr (width r)) (\<lambda>w.
     bind_res (if y_end > raster_y_size p then int_result (raster_y_size p - ry r) else Inr (height r)) (\<lambda>h.
     bind_res (int_result (w * h)) (\<lambda>cells.
     bind_res (guard (0 \<le> cells) Length_error) (\<lambda>_.
     bind_res (raster_io p (mk_rect (rx r) (ry r) w h) band_indx) (\<lambda>read.
       Inr (take (nat cells) read @ replicate (nat cells - length read) (Fin 0)))))))))"

definition GetSourceTile :: "source_product \<Rightarrow> rectangle \<Rightarrow> int \<Rightarrow> soft_tile res" where
  "GetSourceTile p region band_indx =
     bind_res (GetSimpleDataBuffer region []) (\<lambda>_.
     bind_res (ReadSubSampledData p region band_indx) (\<lambda>buffer.
     bind_res (GetSimpleDataBuffer region buffer) (\<lambda>buffer.
       Inr \<lparr>st_rect = region, st_buffer = buffer\<rparr>)))"

definition copy_lines ::
  "deburst \<Rightarrow> sub_swath_info \<Rightarrow> soft_tile \<Rightarrow> int \<Rightarrow> int \<Rightarrow> int \<Rightarrow> int \<Rightarrow> soft_tile \<times> burst_info \<Rightarrow> (soft_tile \<times> burst_info) res" where
  "copy_lines d s src first_x last_x first_y last_y = fold_res (copy_line d s src first_x last_x) [first_y..last_y - 1]"

definition swath_index_text :: "deburst \<Rightarrow> int \<Rightarrow> string res" where
  "swath_index_text d i =
     (if db_num_of_sub_swath d = 1 then
        bind_res (vec_at (su_sub_swath_names (db_utils d)) 0) (\<lambda>n.
          if length n < 2 then Inl Out_of_range else Inr (drop 2 n))
      else Inr (to_string i))"

definition source_tile :: "'p env \<Rightarrow> source_product \<Rightarrow> deburst \<Rightarrow> string \<Rightarrow> string \<Rightarrow> rectangle list \<Rightarrow> soft_tile res" where
  "source_tile e p d tgt_band_name swath_index_str source_rectangle =
     bind_res (GetBand (ieq e) (src_bands p)
                 (case GetSourceBandNameFromTargetBandName d (src_bands p) tgt_band_name (db_acquisition_mode d) swath_index_str of
                    None \<Rightarrow> [] | Some n \<Rightarrow> n)) (\<lambda>src_band.
     bind_res (deref src_band) (\<lambda>b.
     bind_res (GetBandIndex (ieq e) (src_bands p) (band_name b)) (\<lambda>index.
     bind_res (vec_at source_rectangle 0) (\<lambda>region. GetSourceTile p region (index + 1)))))"

definition ComputeTileInOneSwathFloat ::
  "'p env \<Rightarrow> source_product \<Rightarrow> deburst \<Rightarrow> int \<Rightarrow> int \<Rightarrow> int \<Rightarrow> int \<Rightarrow> int \<Rightarrow> rectangle list \<Rightarrow> string \<Rightarrow> soft_tile \<times> burst_info \<Rightarrow>
   (soft_tile \<times> burst_info) res" where
  "ComputeTileInOneSwathFloat e p d tx0 ty0 tx_max ty_max swath source_rectangle tgt_band_name = (\<lambda>(tgt, info).
     bind_res (db_subswath d (swath - 1)) (\<lambda>s.
     bind_res (ComputeYMin d s) (\<lambda>y_min. bind_res (ComputeYMax d s) (\<lambda>y_max.
     bind_res (ComputeXMin d s) (\<lambda>x_min. bind_res (ComputeXMax d s) (\<lambda>x_max.
     bind_res (int_result (y_max + 1)) (\<lambda>y_end. bind_res (int_result (x_max + 1)) (\<lambda>x_end.
     let first_y = max ty0 y_min; last_y = min ty_max y_end; first_x = max tx0 x_min; last_x = min tx_max x_end
     in if first_y \<ge> last_y \<or> first_x \<ge> last_x then Inr (tgt, info)
        else
          bind_res (swath_index_text d swath) (\<lambda>swath_index_str.
          bind_res (source_tile e p d tgt_band_name swath_index_str source_rectangle) (\<lambda>src.
            copy_lines d s src first_x last_x first_y last_y (tgt, info)))))))))))"

section \<open>All bands of a tile\<close>

definition catch_runtime :: "'a res \<Rightarrow> 'a res" where
  "catch_runtime r =
     (case r of Inr v \<Rightarrow> Inr v
      | Inl x \<Rightarrow> Inl (if x = Undefined_behaviour \<or> x = Null_dereference then x else Runtime_error))"

definition lines_meet :: "sub_swath_info \<Rightarrow> fp \<Rightarrow> bool res" where
  "lines_meet s t =
     bind_res (vec_at (burst_first_valid_line_time s) 0) (\<lambda>first_time.
       if fle first_time t then
         bind_res (int_result (num_of_bursts s - 1)) (\<lambda>k.
         bind_res (vec_at (burst_last_line_time s) k) (\<lambda>last_time. Inr (flt t last_time)))
       else Inr False)"

text \<open>Whether a sub-swath has a range time among its valid ones and one of the two line times of the tile.\<close>

definition meets_tile :: "deburst \<Rightarrow> fp \<Rightarrow> fp \<Rightarrow> fp \<Rightarrow> int \<Rightarrow> bool res" where
  "meets_tile d slr first_time last_time i =
     bind_res (db_subswath d i) (\<lambda>s.
       if fle (slr_time_to_first_valid_pixel s) slr \<and> fle slr (slr_time_to_last_valid_pixel s) then
         bind_res (lines_meet s first_time) (\<lambda>m. if m then Inr True else lines_meet s last_time)
       else Inr False)"

fun first_meeting :: "deburst \<Rightarrow> fp \<Rightarrow> fp \<Rightarrow> fp \<Rightarrow> int list \<Rightarrow> int res" where
  "first_meeting d slr first_time last_time [] = Inr (-1)"
| "first_meeting d slr first_time last_time (i # js) =
     bind_res (meets_tile d slr first_time last_time i) (\<lambda>m.
       if m then Inr (i + 1) else first_meeting d slr first_time last_time js)"

definition last_meeting :: "deburst \<Rightarrow> fp \<Rightarrow> fp \<Rightarrow> fp \<Rightarrow> int list \<Rightarrow> int res" where
  "last_meeting d slr first_time last_time js =
     fold_res (\<lambda>i found. bind_res (meets_tile d slr first_time last_time i) (\<lambda>m. Inr (if m then i + 1 else found))) js (-1)"

text \<open>The first and the last sub-swath of a tile, or nothing.\<close>

definition tile_sub_swaths :: "deburst \<Rightarrow> rectangle \<Rightarrow> (int \<times> int) option res" where
  "tile_sub_swaths d r =
     bind_res (int_result (rx r + width r - 1)) (\<lambda>tx_last. bind_res (int_result (ry r + height r - 1)) (\<lambda>ty_last.
     let first_time = target_line_time d (ry r); last_time = target_line_time d ty_last; all = [0..db_num_of_sub_swath d - 1]
     in bind_res (first_meeting d (target_sample_time d (rx r)) first_time last_time all) (\<lambda>a.
        bind_res (if a = db_num_of_sub_swath d then Inr a
                  else last_meeting d (target_sample_time d tx_last) first_time last_time all) (\<lambda>b.
          Inr (if a = -1 \<and> b = -1 then None
               else if b = -1 then Some (a, a) else if a = -1 then Some (b, b) else Some (a, b))))))"

record band_write =
  wr_rect :: rectangle
  wr_buffer :: "fp list"
  wr_band :: int

definition compute_band ::
  "'p env \<Rightarrow> source_product \<Rightarrow> deburst \<Rightarrow> (band_values \<times> int) list \<Rightarrow> rectangle \<Rightarrow> int \<Rightarrow> int \<Rightarrow> rectangle list \<Rightarrow>
   band_values \<times> int \<Rightarrow> burst_info \<times> band_write list \<Rightarrow> (burst_info \<times> band_write list) res" where
  "compute_band e p d tgt_bands r a b source_rectangle = (\<lambda>(tgt_band, data_type) (info, ws).
     if is_virtual tgt_band then Inr (info, ws)
     else if b - a + 1 = 1 \<and> data_type \<noteq> TYPE_INT16 then
       bind_res (int_result (rx r + width r)) (\<lambda>tx_max. bind_res (int_result (ry r + height r)) (\<lambda>ty_max.
       bind_res (TileImpl r) (\<lambda>tgt.
       bind_res (ComputeTileInOneSwathFloat e p d (rx r) (ry r) tx_max ty_max a source_rectangle (band_name tgt_band)
                   (tgt, info)) (\<lambda>(tgt, info).
       bind_res (GetBandIndex (ieq e) (map fst tgt_bands) (band_name tgt_band)) (\<lambda>band_id.
         Inr (info, ws @ [\<lparr>wr_rect = r, wr_buffer = st_buffer tgt, wr_band = band_id + 1\<rparr>]))))))
     else Inl Runtime_error)"

definition ComputeTileStack ::
  "'p env \<Rightarrow> source_product \<Rightarrow> deburst \<Rightarrow> (band_values \<times> int) list \<Rightarrow> rectangle \<Rightarrow> band_write list \<Rightarrow> band_write list res" where
  "ComputeTileStack e p d tgt_bands r ws =
     catch_runtime
       (bind_res (tile_sub_swaths d r) (\<lambda>swaths.
          case swaths of
            None \<Rightarrow> Inr ws
          | Some (a, b) \<Rightarrow>
              bind_res (guard (0 \<le> b - a + 1) Length_error) (\<lambda>_.
              bind_res (map_res (GetSourceRectangle d (rx r) (ry r) (width r) (height r)) [a..b]) (\<lambda>source_rectangle.
              bind_res (fold_res (compute_band e p d tgt_bands r a b source_rectangle) tgt_bands (BurstInfo, ws)) (\<lambda>(_, ws).
                Inr ws)))))"

definition Compute ::
  "'p env \<Rightarrow> source_product \<Rightarrow> deburst \<Rightarrow> (band_values \<times> int) list \<Rightarrow> rectangle list \<Rightarrow> band_write list res" where
  "Compute e p d tgt_bands target_rectangles = fold_res (ComputeTileStack e p d tgt_bands) target_rectangles []"

section \<open>Metadata of the target\<close>

definition db_GetMissionPrefix :: "'p env \<Rightarrow> ref \<Rightarrow> heap \<Rightarrow> string res" where
  "db_GetMissionPrefix e abs_root h =
     bind_res (GetAttributeString e abs_root MISSION h) (\<lambda>mission.
       if mission = [] then Inl Out_of_range else Inr (''S1'' @ [last mission]))"

definition clear_elements :: "ref \<Rightarrow> heap \<Rightarrow> heap res" where
  "clear_elements b h =
     bind_res (GetElements b h) (\<lambda>kids. fold_res (\<lambda>k h. bind_res (RemoveElement b (Some k) h) (\<lambda>(_, h). Inr h)) kids h)"

definition clear_timing :: "'p env \<Rightarrow> ref \<Rightarrow> heap \<Rightarrow> heap res" where
  "clear_timing e k h =
     bind_res (child e h (Some k) ''product'') (\<lambda>prod.
     bind_res (child e h prod ''swathTiming'') (\<lambda>swath_timing.
     bind_res (deref swath_timing) (\<lambda>t.
     bind_res (stored (SetAttributeString e t ''linesPerBurst'' ''0'' h)) (\<lambda>h.
     bind_res (stored (SetAttributeString e t ''samplesPerBurst'' ''0'' h)) (\<lambda>h.
     bind_res (GetElement e t ''burstList'' h) (\<lambda>burst_list.
     bind_res (deref burst_list) (\<lambda>b.
     bind_res (stored (SetAttributeString e b ''count'' ''0'' h)) (clear_elements b))))))))"

definition UpdateSwathTiming :: "'p env \<Rightarrow> ref \<Rightarrow> heap \<Rightarrow> heap res" where
  "UpdateSwathTiming e target_product h =
     bind_res (GetOriginalProductMetadata e target_product h) (\<lambda>orig_prod_root.
     bind_res (GetElement e orig_prod_root ''annotation'' h) (\<lambda>annotation.
       case annotation of
         None \<Rightarrow> Inl Runtime_error
       | Some a \<Rightarrow> bind_res (GetElements a h) (\<lambda>elems. fold_res (clear_timing e) elems h)))"

text \<open>The calibration pixels of every sub-swath that lie between its effective pixels, counted in the target.\<close>

definition merged_pixel :: "deburst \<Rightarrow> int \<Rightarrow> int \<Rightarrow> string res" where
  "merged_pixel d s p =
     bind_res (vec_at (db_effect_pixels d) s) (\<lambda>(x_min, x_max).
       if x_min \<le> p \<and> p < x_max then
         bind_res (db_subswath d s) (\<lambda>sub.
         let slrt = fadd f64 (slr_time_to_first_pixel sub) (fmul f64 (fp_of_int f64 p) (db_delta d))
         in bind_res (nearest_pixel d slrt (db_first_pixel_time d)) (\<lambda>i. Inr (to_string i @ '' '')))
       else Inr [])"

definition GetMergedPixels :: "'p env \<Rightarrow> heap \<Rightarrow> band_values list \<Rightarrow> deburst \<Rightarrow> string \<Rightarrow> string res" where
  "GetMergedPixels e h bands d pol =
     bind_res
       (map_res (\<lambda>s.
          bind_res (GetCalibrationPixel e h bands (db_utils d) (s + 1) pol 0) (\<lambda>pixel_array.
          bind_res (map_res (merged_pixel d s) pixel_array) (\<lambda>ts. Inr (concat ts))))
          [0..db_num_of_sub_swath d - 1]) (\<lambda>ts. Inr (concat ts))"

section \<open>Lemmas\<close>

lemma find_second_swath:
  "\<forall>i\<in>set js. db_subswath d (i - 1) = Inr (sw i) \<Longrightarrow>
   find_swaths d t slr True info js =
     Inr (case filter (\<lambda>i. covers_pixel (sw i) t slr) js of [] \<Rightarrow> info | b # _ \<Rightarrow> info\<lparr>swath1 := b\<rparr>)"
  by (induction js) auto

lemma find_swaths_filter:
  "\<forall>i\<in>set js. db_subswath d (i - 1) = Inr (sw i) \<Longrightarrow>
   find_swaths d t slr False info js =
     Inr (case filter (\<lambda>i. covers_pixel (sw i) t slr) js of
            [] \<Rightarrow> info | [a] \<Rightarrow> info\<lparr>swath0 := a\<rparr> | a # b # _ \<Rightarrow> info\<lparr>swath0 := a, swath1 := b\<rparr>)"
  by (induction js) (auto simp: find_second_swath split: list.splits)

text \<open>Results of a rounding are not below zero when the exact number is not.\<close>

lemma fp_of_rat_nonneg: "0 \<le> q \<Longrightarrow> \<not> flt (fp_of_rat m q) (Fin 0)"
proof -
  assume "0 \<le> q"
  have "0 \<le> round_even x" if "0 \<le> x" for x :: rat
    using round_even_floor [of x] that by (meson le_floor_iff of_int_0_le_iff order_trans zero_le_floor)
  then have "0 \<le> round_to m q"
    using \<open>0 \<le> q\<close> by (auto simp: round_to_def Let_def)
  then show ?thesis
    by (auto simp: fp_of_rat_def Let_def)
qed

lemma burst_line_nonneg:
  assumes "burst_line s t i = Inr sy" and "in_burst s t i = Inr True"
    and "flt (Fin 0) (azimuth_time_interval s)" and "0 \<le> lines_per_burst s" and "0 \<le> i"
  shows "0 \<le> sy"
proof -
  obtain first_time line where r: "vec_at (burst_first_line_time s) i = Inr first_time" "fle first_time t"
    "fp_to_int32 (fadd f64 (fdiv f64 (fsub f64 t first_time) (azimuth_time_interval s)) (Fin (1 / 2))) = Inr line"
    "sy = i * lines_per_burst s + line"
    using assms(1,2) by (auto simp: burst_line_def in_burst_def bind_res_Inr_iff int_result_Inr_iff split: if_splits)
  have sub: "\<not> flt (fsub f64 t first_time) (Fin 0)"
    using r(2) by (cases t; cases first_time) (auto simp: fsub_def fp_of_rat_nonneg)
  have quot: "\<not> flt (fdiv f64 x (azimuth_time_interval s)) (Fin 0)" if "\<not> flt x (Fin 0)" for x
    using that assms(3) by (cases x; cases "azimuth_time_interval s") (auto simp: fp_of_rat_nonneg)
  have half: "\<not> flt (fadd f64 x (Fin (1 / 2))) (Fin 0)" if "\<not> flt x (Fin 0)" for x
    using that by (cases x) (auto simp: fp_of_rat_nonneg)
  have "0 \<le> line"
    using r(3) half [OF quot [OF sub]]
    by (cases "fadd f64 (fdiv f64 (fsub f64 t first_time) (azimuth_time_interval s)) (Fin (1 / 2))")
      (auto simp: fp_to_int32_def Let_def rat_trunc_def split: if_splits)
  then show ?thesis using r(4) assms(4,5) by simp
qed

section \<open>The line of a burst\<close>

text \<open>The bursts a time lies in, each with the line of the source it names there; \<open>n\<close> of them are wanted.\<close>

fun hits :: "sub_swath_info \<Rightarrow> fp \<Rightarrow> nat \<Rightarrow> int list \<Rightarrow> (int \<times> int) list res" where
  "hits s t 0 js = Inr []"
| "hits s t (Suc n) [] = Inr []"
| "hits s t (Suc n) (i # js) =
     bind_res (in_burst s t i) (\<lambda>here.
       if here then bind_res (burst_line s t i) (\<lambda>sy. bind_res (hits s t n js) (\<lambda>r. Inr ((sy, i) # r)))
       else hits s t (Suc n) js)"

definition second_hit :: "burst_info \<Rightarrow> (int \<times> int) list \<Rightarrow> burst_info" where
  "second_hit info h = (case h of [] \<Rightarrow> info | (sy, i) # _ \<Rightarrow> info\<lparr>sy1 := sy, burst_num1 := i\<rparr>)"

definition first_hit :: "burst_info \<Rightarrow> (int \<times> int) list \<Rightarrow> burst_info" where
  "first_hit info h = (case h of [] \<Rightarrow> info | (sy, i) # r \<Rightarrow> second_hit (info\<lparr>sy0 := sy, burst_num0 := i\<rparr>) r)"

lemma find_bursts_second:
  "find_bursts s t True info js = bind_res (hits s t 1 js) (\<lambda>h. Inr (second_hit info h))"
  by (induction js) (auto simp: second_hit_def bind_res_assoc intro!: bind_res_cong)

lemma find_bursts_hits:
  "find_bursts s t False info js = bind_res (hits s t 2 js) (\<lambda>h. Inr (first_hit info h))"
  by (induction js) (auto simp: numeral_2_eq_2 find_bursts_second first_hit_def second_hit_def bind_res_assoc
      intro!: bind_res_cong)

lemma hits_nonneg:
  assumes "hits s t n js = Inr h" and "flt (Fin 0) (azimuth_time_interval s)" and "0 \<le> lines_per_burst s"
    and "\<forall>i\<in>set js. 0 \<le> i"
  shows "length h \<le> n \<and> (\<forall>(sy, i)\<in>set h. 0 \<le> sy \<and> i \<in> set js)"
  using assms
proof (induction s t n js arbitrary: h rule: hits.induct)
  case (3 s t n i js)
  obtain here where here: "in_burst s t i = Inr here" using 3(3) by (auto simp: bind_res_Inr_iff)
  show ?case
  proof (cases here)
    case True
    then obtain sy r where r: "burst_line s t i = Inr sy" "hits s t n js = Inr r" "h = (sy, i) # r"
      using 3(3) here by (auto simp: bind_res_Inr_iff)
    have "0 \<le> sy" using burst_line_nonneg [OF r(1) _ 3(4,5)] here True 3(6) by simp
    moreover have "length r \<le> n \<and> (\<forall>(sy, i)\<in>set r. 0 \<le> sy \<and> i \<in> set js)"
      using 3(1) [OF here _ r(1) r(2) 3(4,5)] True 3(6) by simp
    ultimately show ?thesis using r(3) by auto
  next
    case False
    then show ?thesis using 3(2) [OF here] 3(3-6) here by auto
  qed
qed auto

text \<open>The line of the source that line \<open>y\<close> of the target is copied from, if there is one.\<close>

definition source_line :: "deburst \<Rightarrow> sub_swath_info \<Rightarrow> int \<Rightarrow> int option res" where
  "source_line d s y =
     bind_res (GetLineIndicesInSourceProduct d y s BurstInfo) (\<lambda>(found, info).
       Inr (if found then Some (chosen_line info) else None))"

definition overlap_middle :: "sub_swath_info \<Rightarrow> int \<Rightarrow> int \<Rightarrow> fp res" where
  "overlap_middle s i j =
     bind_res (vec_at (burst_last_line_time s) i) (\<lambda>last_time.
     bind_res (vec_at (burst_first_line_time s) j) (\<lambda>first_time.
       Inr (fdiv f64 (fadd f64 last_time first_time) (Fin 2))))"

definition line_of_hits :: "sub_swath_info \<Rightarrow> fp \<Rightarrow> (int \<times> int) list \<Rightarrow> int option res" where
  "line_of_hits s t h =
     (case h of
        [] \<Rightarrow> Inr None
      | [(a, _)] \<Rightarrow> Inr (Some a)
      | (a, i) # (b, j) # _ \<Rightarrow> bind_res (overlap_middle s i j) (\<lambda>m. Inr (Some (if flt m t then b else a))))"

lemma GetLineIndices_hits:
  assumes "flt (Fin 0) (azimuth_time_interval s)" and "0 \<le> lines_per_burst s"
  shows "bind_res (GetLineIndicesInSourceProduct d y s info) (\<lambda>(found, info). Inr (if found then Some (chosen_line info) else None)) =
    bind_res (hits s (target_line_time d y) 2 [0..num_of_bursts s - 1]) (line_of_hits s (target_line_time d y))"
proof (cases "hits s (target_line_time d y) 2 [0..num_of_bursts s - 1]")
  case (Inl a)
  then show ?thesis by (simp add: GetLineIndicesInSourceProduct_def find_bursts_hits)
next
  case (Inr h)
  have "\<forall>(sy, i)\<in>set h. sy \<noteq> -1" using hits_nonneg [OF Inr assms] by fastforce
  consider "h = []" | a i where "h = [(a, i)]" | a i b j r where "h = (a, i) # (b, j) # r"
    by (metis list.exhaust surj_pair)
  then show ?thesis
    using Inr \<open>\<forall>(sy, i)\<in>set h. sy \<noteq> -1\<close>
    by cases (simp_all add: GetLineIndicesInSourceProduct_def find_bursts_hits first_hit_def second_hit_def line_of_hits_def
        chosen_line_def overlap_middle_def bind_res_assoc cong: if_cong)
qed

lemma source_line_hits:
  assumes "flt (Fin 0) (azimuth_time_interval s)" and "0 \<le> lines_per_burst s"
  shows "source_line d s y =
    bind_res (hits s (target_line_time d y) 2 [0..num_of_bursts s - 1]) (line_of_hits s (target_line_time d y))"
  unfolding source_line_def by (rule GetLineIndices_hits [OF assms])

lemma source_line_any_info:
  assumes "flt (Fin 0) (azimuth_time_interval s)" and "0 \<le> lines_per_burst s" and "source_line d s y = Inr l"
  shows "\<exists>info'. GetLineIndicesInSourceProduct d y s info = Inr (l \<noteq> None, info') \<and> (l = Some k \<longrightarrow> chosen_line info' = k)"
proof -
  have "bind_res (GetLineIndicesInSourceProduct d y s info) (\<lambda>(found, info). Inr (if found then Some (chosen_line info) else None)) = Inr l"
    using GetLineIndices_hits [OF assms(1,2)] source_line_hits [OF assms(1,2)] assms(3) by simp
  then show ?thesis by (auto simp: bind_res_Inr_iff)
qed

section \<open>Copying the lines\<close>

definition inside :: "rectangle \<Rightarrow> int \<Rightarrow> int \<Rightarrow> bool" where
  "inside r x y \<longleftrightarrow> rx r \<le> x \<and> x < rx r + width r \<and> ry r \<le> y \<and> y < ry r + height r"

definition tile_ok :: "soft_tile \<Rightarrow> bool" where
  "tile_ok t \<longleftrightarrow>
     (let r = st_rect t in 0 \<le> rx r \<and> 0 \<le> ry r \<and> 0 < width r \<and> 0 < height r \<and> rx r + width r \<le> 2 ^ 31 - 1 \<and>
        ry r + height r \<le> 2 ^ 31 - 1 \<and> width r * height r \<le> 2 ^ 31 - 1 \<and>
        length (st_buffer t) = nat (width r * height r))"

definition tile_index :: "rectangle \<Rightarrow> int \<Rightarrow> int \<Rightarrow> int" where
  "tile_index r x y = (y - ry r) * width r + (x - rx r)"

definition cell :: "soft_tile \<Rightarrow> int \<Rightarrow> int \<Rightarrow> fp" where
  "cell t x y = st_buffer t ! nat (tile_index (st_rect t) x y)"

lemma tile_index_inside:
  assumes "tile_ok t" and "inside (st_rect t) x y"
  shows "0 \<le> tile_index (st_rect t) x y" and "tile_index (st_rect t) x y < width (st_rect t) * height (st_rect t)"
    and "CalculateStride (st_rect t) y = Inr (x - tile_index (st_rect t) x y)"
    and "tile_index (st_rect t) x y \<le> width (st_rect t) * height (st_rect t) - (width (st_rect t) - (x - rx (st_rect t)))"
proof -
  let ?r = "st_rect t"
  have in': "0 \<le> y - ry ?r" "y - ry ?r \<le> height ?r - 1" "0 \<le> x - rx ?r" "x - rx ?r < width ?r"
    using assms(2) by (auto simp: inside_def)
  have ok: "0 \<le> rx ?r" "0 \<le> ry ?r" "0 < width ?r" "rx ?r + width ?r \<le> 2 ^ 31 - 1" "ry ?r + height ?r \<le> 2 ^ 31 - 1"
    "width ?r * height ?r \<le> 2 ^ 31 - 1"
    using assms(1) by (simp_all add: tile_ok_def Let_def)
  have rows: "0 \<le> (y - ry ?r) * width ?r" "(y - ry ?r) * width ?r \<le> (height ?r - 1) * width ?r"
    using in' ok by (auto intro!: mult_right_mono)
  have size: "(height ?r - 1) * width ?r = width ?r * height ?r - width ?r" by (simp add: algebra_simps)
  show "0 \<le> tile_index ?r x y" and "tile_index ?r x y < width ?r * height ?r"
    and "tile_index ?r x y \<le> width ?r * height ?r - (width ?r - (x - rx ?r))"
    using rows size in' ok by (simp_all add: tile_index_def)
  have ranges: "int32_range (y - ry ?r)" "int32_range ((y - ry ?r) * width ?r)" "int32_range (rx ?r - (y - ry ?r) * width ?r)"
    unfolding int32_range_def using rows size in' ok by linarith+
  show "CalculateStride ?r y = Inr (x - tile_index ?r x y)"
    unfolding CalculateStride_def tile_index_def
    using ranges by simp
qed

lemma copy_cells_from_ok:
  assumes "0 \<le> i" "0 \<le> n" "i + n \<le> int (length src)" "0 \<le> j" "j + n \<le> int (length dst)"
  shows "\<exists>r. copy_cells_from src i n dst j = Inr r \<and> length r = length dst \<and>
    (\<forall>k. r ! k = (if nat j \<le> k \<and> k < nat (j + n) then src ! (k - nat j + nat i) else dst ! k))"
proof -
  obtain i' n' j' where n: "i = int i'" "n = int n'" "j = int j'" using assms(1,2,4) by (metis nonneg_int_cases)
  let ?r = "take j' dst @ take n' (drop i' src) @ drop (j' + n') dst"
  have len: "i' + n' \<le> length src" "j' + n' \<le> length dst" using assms(3,5) n by simp_all
  have "?r ! k = (if j' \<le> k \<and> k < j' + n' then src ! (k - j' + i') else dst ! k)" for k
    using len by (cases "k < j'"; cases "k < j' + n'") (auto simp: nth_append add.commute)
  moreover have "copy_cells_from src i n dst j = Inr ?r" and "length ?r = length dst"
    using len by (simp_all add: copy_cells_from_def n nat_add_distrib)
  ultimately show ?thesis using n by (intro exI [of _ ?r]) (simp add: nat_add_distrib)
qed

lemma tile_index_row:
  assumes "inside r x y" "inside r x' y'" and "tile_index r x y \<le> tile_index r x' y'" "tile_index r x' y' < tile_index r x y + n"
    and "x + n \<le> rx r + width r"
  shows "y' = y \<and> x \<le> x' \<and> x' < x + n"
proof -
  have d: "(y' - ry r) * width r + (x' - rx r) - ((y - ry r) * width r + (x - rx r)) \<in> {0..<n}"
    using assms(3,4) by (simp add: tile_index_def)
  have "y' - y = 0"
  proof (rule ccontr)
    assume "y' - y \<noteq> 0"
    then consider "y' - y \<le> -1" | "1 \<le> y' - y" by linarith
    then show False
    proof cases
      case 1
      then have "(y' - y) * width r \<le> (-1) * width r" using assms(1) by (intro mult_right_mono) (auto simp: inside_def)
      then have "(y' - ry r) * width r - (y - ry r) * width r \<le> - width r" by (simp add: algebra_simps)
      then show False using d assms(1,2) by (auto simp: inside_def)
    next
      case 2
      then have "1 * width r \<le> (y' - y) * width r" using assms(1) by (intro mult_right_mono) (auto simp: inside_def)
      then have "width r \<le> (y' - ry r) * width r - (y - ry r) * width r" by (simp add: algebra_simps)
      then show False using d assms(1,2,5) by (auto simp: inside_def)
    qed
  qed
  then show ?thesis using d by auto
qed

text \<open>What one line is copied to.\<close>

definition copied :: "soft_tile \<Rightarrow> int \<Rightarrow> (int \<Rightarrow> int option) \<Rightarrow> int \<Rightarrow> int \<Rightarrow> int set \<Rightarrow> soft_tile \<Rightarrow> int \<Rightarrow> int \<Rightarrow> fp" where
  "copied src sx from_line first_x last_x rows tgt x y =
     (case (if y \<in> rows \<and> first_x \<le> x \<and> x < last_x then from_line y else None) of
        Some l \<Rightarrow> cell src (sx + (x - first_x)) l
      | None \<Rightarrow> cell tgt x y)"

lemma copy_line_ok:
  assumes "flt (Fin 0) (azimuth_time_interval s)" and "0 \<le> lines_per_burst s" and "tile_ok src" "tile_ok tgt"
    and "source_line d s y = Inr (from_line y)"
    and "fp_to_int32 (fround (fdiv f64 (fsub f64 (target_sample_time d first_x) (slr_time_to_first_pixel s)) (db_delta d))) = Inr sx"
    and "inside (st_rect tgt) first_x y" "first_x < last_x" "last_x \<le> rx (st_rect tgt) + width (st_rect tgt)"
    and "\<forall>l. from_line y = Some l \<longrightarrow> inside (st_rect src) sx l" "sx + (last_x - first_x) \<le> rx (st_rect src) + width (st_rect src)"
  shows "\<exists>tgt' info'. copy_line d s src first_x last_x y (tgt, info) = Inr (tgt', info') \<and> st_rect tgt' = st_rect tgt \<and>
    tile_ok tgt' \<and> (\<forall>x y'. inside (st_rect tgt) x y' \<longrightarrow> cell tgt' x y' = copied src sx from_line first_x last_x {y} tgt x y')"
proof (cases "from_line y")
  case None
  then obtain info' where "GetLineIndicesInSourceProduct d y s info = Inr (False, info')"
    using source_line_any_info [OF assms(1,2,5)] by auto
  then show ?thesis using None assms(4) by (auto simp: copy_line_def copied_def)
next
  case (Some l)
  then obtain info' where info': "GetLineIndicesInSourceProduct d y s info = Inr (True, info')" "chosen_line info' = l"
    using source_line_any_info [OF assms(1,2,5)] by auto
  let ?i = "tile_index (st_rect src) sx l" and ?j = "tile_index (st_rect tgt) first_x y" and ?n = "last_x - first_x"
  have src: "inside (st_rect src) sx l" using assms(10) Some by simp
  note i = tile_index_inside [OF assms(3) src] and j = tile_index_inside [OF assms(4,7)]
  have len: "length (st_buffer src) = nat (width (st_rect src) * height (st_rect src))"
    "length (st_buffer tgt) = nat (width (st_rect tgt) * height (st_rect tgt))"
    using assms(3,4) by (simp_all add: tile_ok_def Let_def)
  have ends: "?i + ?n \<le> int (length (st_buffer src))" "?j + ?n \<le> int (length (st_buffer tgt))"
    using len i j assms(9,11) by linarith+
  obtain r where r: "copy_cells_from (st_buffer src) ?i ?n (st_buffer tgt) ?j = Inr r" "length r = length (st_buffer tgt)"
    "\<And>k. r ! k = (if nat ?j \<le> k \<and> k < nat (?j + ?n) then st_buffer src ! (k - nat ?j + nat ?i) else st_buffer tgt ! k)"
    using copy_cells_from_ok [OF i(1) _ ends(1) j(1) ends(2)] assms(8) by auto
  have "int32_range ?i" "int32_range ?j"
    using i(1,2) j(1,2) assms(3,4) by (auto simp: int32_range_def tile_ok_def Let_def)
  then have run: "copy_line d s src first_x last_x y (tgt, info) = Inr (tgt\<lparr>st_buffer := r\<rparr>, info')"
    using r(1) i(3) j(3) assms(6) info' by (simp add: copy_line_def)
  have "cell (tgt\<lparr>st_buffer := r\<rparr>) x y' = copied src sx from_line first_x last_x {y} tgt x y'" if x: "inside (st_rect tgt) x y'" for x y'
  proof (cases "y' = y \<and> first_x \<le> x \<and> x < last_x")
    case True
    have jx: "tile_index (st_rect tgt) x y = ?j + (x - first_x)" and ix: "tile_index (st_rect src) (sx + (x - first_x)) l = ?i + (x - first_x)"
      by (simp_all add: tile_index_def)
    have "nat (?j + (x - first_x)) - nat ?j + nat ?i = nat (?i + (x - first_x))"
      using True i(1) j(1) by (simp add: nat_add_distrib)
    moreover have "nat ?j \<le> nat (?j + (x - first_x))" "nat (?j + (x - first_x)) < nat (?j + ?n)"
      using True j(1) by linarith+
    ultimately show ?thesis using True j(1) Some by (simp add: cell_def r(3) copied_def jx ix)
  next
    case False
    have "\<not> (nat ?j \<le> nat (tile_index (st_rect tgt) x y') \<and> nat (tile_index (st_rect tgt) x y') < nat (?j + ?n))"
    proof
      assume "nat ?j \<le> nat (tile_index (st_rect tgt) x y') \<and> nat (tile_index (st_rect tgt) x y') < nat (?j + ?n)"
      then have "?j \<le> tile_index (st_rect tgt) x y'" "tile_index (st_rect tgt) x y' < ?j + ?n"
        using tile_index_inside(1) [OF assms(4) x] j(1) by linarith+
      then show False using False tile_index_row [OF assms(7) x, of ?n] assms(9) by auto
    qed
    then show ?thesis using False by (auto simp: cell_def r(3) copied_def)
  qed
  then show ?thesis using run r(2) assms(4) by (intro exI [of _ "tgt\<lparr>st_buffer := r\<rparr>"] exI [of _ info']) (simp add: tile_ok_def Let_def)
qed

lemma copied_rows:
  "cell t1 x z = copied src sx from_line first_x last_x {y} t x z \<Longrightarrow>
   copied src sx from_line first_x last_x rows t1 x z = copied src sx from_line first_x last_x (insert y rows) t x z"
  by (cases "from_line z") (auto simp: copied_def)

lemma copy_lines_ok:
  assumes "flt (Fin 0) (azimuth_time_interval s)" and "0 \<le> lines_per_burst s" and "tile_ok src" "tile_ok tgt"
    and "fp_to_int32 (fround (fdiv f64 (fsub f64 (target_sample_time d first_x) (slr_time_to_first_pixel s)) (db_delta d))) = Inr sx"
    and "first_x < last_x" "last_x \<le> rx (st_rect tgt) + width (st_rect tgt)"
    and "sx + (last_x - first_x) \<le> rx (st_rect src) + width (st_rect src)"
    and "\<forall>y\<in>set ys. inside (st_rect tgt) first_x y \<and> source_line d s y = Inr (from_line y) \<and>
           (\<forall>l. from_line y = Some l \<longrightarrow> inside (st_rect src) sx l)"
  shows "\<exists>tgt' info'. fold_res (copy_line d s src first_x last_x) ys (tgt, info) = Inr (tgt', info') \<and>
    st_rect tgt' = st_rect tgt \<and> tile_ok tgt' \<and>
    (\<forall>x y. inside (st_rect tgt) x y \<longrightarrow> cell tgt' x y = copied src sx from_line first_x last_x (set ys) tgt x y)"
  using assms(4,7,9)
proof (induction ys arbitrary: tgt info)
  case Nil
  then show ?case by (simp add: copied_def)
next
  case (Cons y ys)
  obtain tgt1 info1 where one: "copy_line d s src first_x last_x y (tgt, info) = Inr (tgt1, info1)" "st_rect tgt1 = st_rect tgt"
    "tile_ok tgt1" "\<And>x y'. inside (st_rect tgt) x y' \<Longrightarrow> cell tgt1 x y' = copied src sx from_line first_x last_x {y} tgt x y'"
    using copy_line_ok [OF assms(1,2,3) Cons.prems(1) _ assms(5) _ assms(6) Cons.prems(2) _ assms(8), where y = y and from_line = from_line and info = info]
      Cons.prems(3) by auto
  obtain tgt2 info2 where rest: "fold_res (copy_line d s src first_x last_x) ys (tgt1, info1) = Inr (tgt2, info2)"
    "st_rect tgt2 = st_rect tgt1" "tile_ok tgt2"
    "\<And>x y. inside (st_rect tgt1) x y \<Longrightarrow> cell tgt2 x y = copied src sx from_line first_x last_x (set ys) tgt1 x y"
    using Cons.IH [OF one(3), of info1] Cons.prems(2,3) one(2) by (auto simp del: fold_res.simps)
  have "cell tgt2 x z = copied src sx from_line first_x last_x (set (y # ys)) tgt x z" if "inside (st_rect tgt) x z" for x z
    using rest(4) [of x z] copied_rows [OF one(4) [OF that], of "set ys"] one(2) that by simp
  then show ?case using one(1-3) rest(1-3) by (intro exI [of _ tgt2] exI [of _ info2]) simp
qed

text \<open>
  C33. Debursting a tile that lies in one sub-swath: the operator returns, the tile keeps its rectangle, and every pixel
  is the pixel of the source tile at the line that the burst lookup names for its line (of two overlapping bursts the
  second one past the middle of the overlap) and at the same distance from the first copied column, where the pixel is
  among the valid lines and columns of the sub-swath and its line lies in a burst; every other pixel is left as it was.
  The lookup must return for every copied line and name a line of the source tile, and the copied columns must lie in it.
\<close>

theorem ComputeTileInOneSwathFloat_copies:
  fixes tgt src :: soft_tile and from_line :: "int \<Rightarrow> int option"
  defines "r \<equiv> st_rect tgt"
  assumes "db_subswath d (swath - 1) = Inr s" and "flt (Fin 0) (azimuth_time_interval s)" and "0 \<le> lines_per_burst s"
    and "ComputeYMin d s = Inr y_min" "ComputeYMax d s = Inr y_max" "ComputeXMin d s = Inr x_min" "ComputeXMax d s = Inr x_max"
    and "y_max < 2 ^ 31 - 1" "x_max < 2 ^ 31 - 1"
    and "swath_index_text d swath = Inr number" "source_tile e p d name number regions = Inr src"
    and "tile_ok src" "tile_ok tgt"
    and "fp_to_int32 (fround (fdiv f64 (fsub f64 (target_sample_time d (max (rx r) x_min)) (slr_time_to_first_pixel s)) (db_delta d))) = Inr sx"
    and "\<forall>y. max (ry r) y_min \<le> y \<and> y < min (ry r + height r) (y_max + 1) \<longrightarrow> source_line d s y = Inr (from_line y) \<and>
           (\<forall>l. from_line y = Some l \<longrightarrow> inside (st_rect src) sx l)"
    and "sx + (min (rx r + width r) (x_max + 1) - max (rx r) x_min) \<le> rx (st_rect src) + width (st_rect src)"
  shows "\<exists>tgt' info'. ComputeTileInOneSwathFloat e p d (rx r) (ry r) (rx r + width r) (ry r + height r) swath regions name (tgt, info) =
      Inr (tgt', info') \<and>
    st_rect tgt' = r \<and>
    (\<forall>x y. inside r x y \<longrightarrow>
       cell tgt' x y =
         (case if y_min \<le> y \<and> y \<le> y_max \<and> x_min \<le> x \<and> x \<le> x_max then from_line y else None of
            Some l \<Rightarrow> cell src (sx + (x - max (rx r) x_min)) l
          | None \<Rightarrow> cell tgt x y))"
proof -
  let ?first_y = "max (ry r) y_min" and ?last_y = "min (ry r + height r) (y_max + 1)"
  let ?first_x = "max (rx r) x_min" and ?last_x = "min (rx r + width r) (x_max + 1)"
  have ends: "int32_range (y_max + 1)" "int32_range (x_max + 1)"
    using assms(9,10) fp_to_int32_range [OF assms(6) [unfolded ComputeYMax_def]]
      fp_to_int32_range [OF assms(8) [unfolded ComputeXMax_def]]
    by (simp_all add: int32_range_def)
  note run = assms(2,5-8,11,12) ends
  show ?thesis
  proof (cases "?first_y \<ge> ?last_y \<or> ?first_x \<ge> ?last_x")
    case True
    then have "ComputeTileInOneSwathFloat e p d (rx r) (ry r) (rx r + width r) (ry r + height r) swath regions name (tgt, info) = Inr (tgt, info)"
      using run by (simp add: ComputeTileInOneSwathFloat_def)
    moreover have "\<not> (y_min \<le> y \<and> y \<le> y_max \<and> x_min \<le> x \<and> x \<le> x_max)" if "inside r x y" for x y
      using that True by (auto simp: inside_def)
    ultimately show ?thesis by (intro exI [of _ tgt] exI [of _ info]) (auto simp: r_def)
  next
    case False
    have eq: "ComputeTileInOneSwathFloat e p d (rx r) (ry r) (rx r + width r) (ry r + height r) swath regions name (tgt, info) =
        fold_res (copy_line d s src ?first_x ?last_x) [?first_y..?last_y - 1] (tgt, info)"
      using run False by (simp add: ComputeTileInOneSwathFloat_def copy_lines_def)
    have rows: "\<forall>y\<in>set [?first_y..?last_y - 1]. inside (st_rect tgt) ?first_x y \<and> source_line d s y = Inr (from_line y) \<and>
           (\<forall>l. from_line y = Some l \<longrightarrow> inside (st_rect src) sx l)"
      using assms(16) False by (auto simp: inside_def r_def)
    have columns: "?first_x < ?last_x" "?last_x \<le> rx (st_rect tgt) + width (st_rect tgt)"
      using False unfolding r_def by linarith+
    obtain tgt' info' where done': "fold_res (copy_line d s src ?first_x ?last_x) [?first_y..?last_y - 1] (tgt, info) = Inr (tgt', info')"
      "st_rect tgt' = r"
      "\<And>x y. inside r x y \<Longrightarrow> cell tgt' x y = copied src sx from_line ?first_x ?last_x (set [?first_y..?last_y - 1]) tgt x y"
      using copy_lines_ok [OF assms(3,4,13,14,15) columns assms(17) rows, where info = info] by (auto simp: r_def)
    have "copied src sx from_line ?first_x ?last_x (set [?first_y..?last_y - 1]) tgt x y =
         (case if y_min \<le> y \<and> y \<le> y_max \<and> x_min \<le> x \<and> x \<le> x_max then from_line y else None of
            Some l \<Rightarrow> cell src (sx + (x - ?first_x)) l
          | None \<Rightarrow> cell tgt x y)" if "inside r x y" for x y
      using that by (auto simp: copied_def inside_def)
    then show ?thesis using eq done' by (intro exI [of _ tgt'] exI [of _ info']) simp
  qed
qed

text \<open>A sub-swath of one burst of four lines and three samples, all times counted in lines and samples.\<close>

definition four_lines :: sub_swath_info where
  "four_lines =
     SubSwathInfo\<lparr>num_of_bursts := 1, lines_per_burst := 4, num_of_lines := 4, num_of_samples := 3,
       azimuth_time_interval := Fin 1, burst_first_line_time := [Fin 0], burst_last_line_time := [Fin 4],
       first_valid_line_time := Fin 1, last_valid_line_time := Fin 2,
       slr_time_to_first_valid_pixel := Fin 0, slr_time_to_last_valid_pixel := Fin 2\<rparr>"

definition one_swath :: deburst where
  "one_swath =
     \<lparr>db_utils = (empty_utils 0 0)\<lparr>su_subswath := [four_lines], su_sub_swath_names := [''IW1'']\<rparr>, db_num_of_sub_swath = 1,
      db_acquisition_mode = ''IW'', db_product_type = ''SLC'', db_selected_polarisations = [''VV''], db_width = 3, db_height = 3,
      db_first_line_time = Fin 0, db_last_line_time = Fin 4, db_line_time_interval = Fin 1, db_first_pixel_time = Fin 0,
      db_last_pixel_time = Fin 3, db_delta = Fin 1, db_effect_pixels = []\<rparr>"

definition grid_source :: source_product where
  "grid_source =
     \<lparr>src_bands = [\<lparr>band_name = ''i_IW1_VV'', band_unit = None, is_virtual = False\<rparr>], raster_x_size = 3, raster_y_size = 4,
      raster_io = (\<lambda>r _. Inr (map (\<lambda>k. Fin (of_int k)) [0..width r * height r - 1]))\<rparr>"

lemma small_integers_f64:
  "fp_of_rat f64 1 = Fin 1" "fp_of_rat f64 2 = Fin 2" "fp_of_rat f64 3 = Fin 3"
  using f64_exact [of 1 0] f64_exact [of 2 0] f64_exact [of 3 0] by simp_all

lemma small_halves_f64: "fp_of_rat f64 (1 / 2) = Fin (1 / 2)" "fp_of_rat f64 (3 / 2) = Fin (3 / 2)" "fp_of_rat f64 (5 / 2) = Fin (5 / 2)"
  using f64_half [of 1] f64_half [of 3] f64_half [of 5] by simp_all

lemma floor_halves: "\<lfloor>1 / 2 :: rat\<rfloor> = 0" "\<lfloor>3 / 2 :: rat\<rfloor> = 1" "\<lfloor>5 / 2 :: rat\<rfloor> = 2"
  by (simp_all add: floor_unique)

lemma one_swath_line: "y \<in> {0, 1, 2} \<Longrightarrow> source_line one_swath four_lines y = Inr (Some y)"
  by (auto simp: source_line_hits one_swath_def four_lines_def SubSwathInfo_def numeral_2_eq_2 line_of_hits_def in_burst_def
      burst_line_def target_line_time_def fp_of_int_def small_integers_f64 small_halves_f64 fsub_def vec_at_def int_result_def int32_range_def
      fp_to_int32_def rat_trunc_def floor_halves)

lemma one_swath_values:
  "db_subswath one_swath 0 = Inr four_lines"
  "ComputeYMin one_swath four_lines = Inr 1" "ComputeYMax one_swath four_lines = Inr 2"
  "ComputeXMin one_swath four_lines = Inr 0" "ComputeXMax one_swath four_lines = Inr 2"
  by (simp_all add: db_subswath_def ComputeYMin_def ComputeYMax_def ComputeXMin_def ComputeXMax_def one_swath_def four_lines_def
      SubSwathInfo_def fsub_def small_integers_f64 fp_to_int32_def rat_trunc_def vec_at_def)

lemma grid_source_tile:
  "source_tile sample_env grid_source one_swath ''i_IW1_VV'' ''1'' [mk_rect 0 0 3 4] =
     Inr \<lparr>st_rect = mk_rect 0 0 3 4, st_buffer = map (\<lambda>k. Fin (of_int k)) [0..11]\<rparr>"
  by code_simp

lemma ComputeTileInOneSwathFloat_copies_witness:
  "\<exists>tgt' info'. ComputeTileInOneSwathFloat sample_env grid_source one_swath 0 0 3 3 1 [mk_rect 0 0 3 4] ''i_IW1_VV''
      (\<lparr>st_rect = mk_rect 0 0 3 3, st_buffer = replicate 9 (Fin 0)\<rparr>, BurstInfo) = Inr (tgt', info') \<and>
    cell tgt' 2 1 = Fin 5 \<and> cell tgt' 2 0 = Fin 0"
proof -
  let ?src = "\<lparr>st_rect = mk_rect 0 0 3 4, st_buffer = map (\<lambda>k. Fin (of_int k)) [0..11]\<rparr>"
  let ?tgt = "\<lparr>st_rect = mk_rect 0 0 3 3, st_buffer = replicate 9 (Fin 0)\<rparr>"
  have "tile_ok ?src" "tile_ok ?tgt" by code_simp+
  moreover have "flt (Fin 0) (azimuth_time_interval four_lines)" "0 \<le> lines_per_burst four_lines"
    "swath_index_text one_swath 1 = Inr ''1''" by code_simp+
  moreover have "fp_to_int32 (fround (fdiv f64 (fsub f64 (target_sample_time one_swath 0) (slr_time_to_first_pixel four_lines))
    (db_delta one_swath))) = Inr 0"
    by (simp add: target_sample_time_def one_swath_def four_lines_def SubSwathInfo_def fp_of_int_def fsub_def fp_to_int32_def rat_trunc_def round_away_def
        floor_halves)
  moreover have "\<forall>y. max 0 1 \<le> y \<and> y < min (0 + 3) (2 + 1) \<longrightarrow> source_line one_swath four_lines y = Inr (Some y) \<and>
           (\<forall>l. Some y = Some l \<longrightarrow> inside (st_rect ?src) 0 l)"
  proof (intro allI impI)
    fix y :: int
    assume "max 0 1 \<le> y \<and> y < min (0 + 3) (2 + 1)"
    then have "y = 1 \<or> y = 2" by auto
    then show "source_line one_swath four_lines y = Inr (Some y) \<and> (\<forall>l. Some y = Some l \<longrightarrow> inside (st_rect ?src) 0 l)"
      using one_swath_line [of y] by (auto simp: inside_def mk_rect_def)
  qed
  ultimately obtain tgt' info' where r: "ComputeTileInOneSwathFloat sample_env grid_source one_swath 0 0 3 3 1 [mk_rect 0 0 3 4] ''i_IW1_VV''
      (?tgt, BurstInfo) = Inr (tgt', info')"
    "\<And>x y. inside (mk_rect 0 0 3 3) x y \<Longrightarrow> cell tgt' x y = (case if 1 \<le> y \<and> y \<le> 2 \<and> 0 \<le> x \<and> x \<le> 2 then Some y else None of
            Some l \<Rightarrow> cell ?src x l | None \<Rightarrow> cell ?tgt x y)"
    using ComputeTileInOneSwathFloat_copies [of one_swath 1 four_lines 1 2 0 2 "''1''" sample_env grid_source "''i_IW1_VV''"
        "[mk_rect 0 0 3 4]" ?src ?tgt 0 Some BurstInfo] one_swath_values grid_source_tile
    by (auto simp: mk_rect_def)
  have "cell tgt' 2 1 = cell ?src 2 1" "cell tgt' 2 0 = cell ?tgt 2 0"
    using r(2) [of 2 1] r(2) [of 2 0] by (simp_all add: inside_def mk_rect_def)
  moreover have "cell ?src 2 1 = Fin 5" "cell ?tgt 2 0 = Fin 0" by code_simp+
  ultimately show ?thesis using r(1) by auto
qed

section \<open>The sub-swaths of a tile\<close>

lemma first_meeting_result:
  "first_meeting d slr t0 t1 js = Inr a \<Longrightarrow> sorted js \<Longrightarrow>
   a = -1 \<or> a - 1 \<in> set js \<and> meets_tile d slr t0 t1 (a - 1) = Inr True \<and>
     (\<forall>i\<in>set js. i < a - 1 \<longrightarrow> meets_tile d slr t0 t1 i = Inr False)"
proof (induction js)
  case (Cons i js)
  obtain m where m: "meets_tile d slr t0 t1 i = Inr m" using Cons.prems(1) by (auto simp: bind_res_Inr_iff)
  show ?case
  proof (cases m)
    case True
    then show ?thesis using Cons.prems m by auto
  next
    case False
    then show ?thesis using Cons m by auto
  qed
qed simp

lemma last_meeting_result:
  "last_meeting d slr t0 t1 js = Inr b \<Longrightarrow> b = -1 \<or> b - 1 \<in> set js \<and> meets_tile d slr t0 t1 (b - 1) = Inr True"
proof -
  have "found = -1 \<or> found - 1 \<in> A \<and> meets_tile d slr t0 t1 (found - 1) = Inr True \<Longrightarrow>
    fold_res (\<lambda>i found. bind_res (meets_tile d slr t0 t1 i) (\<lambda>m. Inr (if m then i + 1 else found))) js found = Inr b \<Longrightarrow>
    b = -1 \<or> b - 1 \<in> A \<union> set js \<and> meets_tile d slr t0 t1 (b - 1) = Inr True" for A found
  proof (induction js arbitrary: A found)
    case (Cons i js)
    obtain m where m: "meets_tile d slr t0 t1 i = Inr m" using Cons.prems(2) by (auto simp: bind_res_Inr_iff)
    then show ?case using Cons.IH [of "if m then i + 1 else found" "insert i A"] Cons.prems by auto
  qed auto
  from this [of "-1" "{}"] show "last_meeting d slr t0 t1 js = Inr b \<Longrightarrow> ?thesis" by (simp add: last_meeting_def)
qed

text \<open>Whether a range time is among the valid ones is the only part of the test that depends on it.\<close>

lemma meets_tile_slr:
  "meets_tile d slr t0 t1 i = Inr True \<Longrightarrow> db_subswath d i = Inr s \<Longrightarrow>
   meets_tile d slr' t0 t1 i = Inr (fle (slr_time_to_first_valid_pixel s) slr' \<and> fle slr' (slr_time_to_last_valid_pixel s)) \<and>
   fle (slr_time_to_first_valid_pixel s) slr \<and> fle slr (slr_time_to_last_valid_pixel s)"
  by (simp add: meets_tile_def split: if_split_asm)

text \<open>
  C34. The sub-swaths of a tile are a proper range: the first is at least 1, not after the last, and the last not after the
  number of sub-swaths, so the vector of source rectangles is made with a positive size. The sub-swaths must be ordered by
  the time of their first valid pixel, and the last column of the tile must not come before the first.
\<close>

theorem tile_sub_swaths_range:
  assumes "tile_sub_swaths d r = Inr (Some (a, b))"
    and "\<forall>j < db_num_of_sub_swath d. \<forall>i. 0 \<le> i \<and> i \<le> j \<longrightarrow>
           (\<exists>s s'. db_subswath d i = Inr s \<and> db_subswath d j = Inr s' \<and>
              fle (slr_time_to_first_valid_pixel s) (slr_time_to_first_valid_pixel s'))"
    and "fle (target_sample_time d (rx r)) (target_sample_time d (rx r + width r - 1))"
  shows "1 \<le> a \<and> a \<le> b \<and> b \<le> db_num_of_sub_swath d"
proof -
  let ?n = "db_num_of_sub_swath d" and ?t0 = "target_line_time d (ry r)" and ?t1 = "target_line_time d (ry r + height r - 1)"
  let ?l = "target_sample_time d (rx r)" and ?r = "target_sample_time d (rx r + width r - 1)"
  obtain a' b' where f: "first_meeting d ?l ?t0 ?t1 [0..?n - 1] = Inr a'"
    and l: "(if a' = ?n then Inr a' else last_meeting d ?r ?t0 ?t1 [0..?n - 1]) = Inr b'"
    and ab: "(if a' = -1 \<and> b' = -1 then None else if b' = -1 then Some (a', a') else if a' = -1 then Some (b', b') else Some (a', b')) = Some (a, b)"
    using assms(1) by (auto simp: tile_sub_swaths_def bind_res_Inr_iff int_result_Inr_iff Let_def)
  have A: "a' = -1 \<or> 0 \<le> a' - 1 \<and> a' - 1 < ?n \<and> meets_tile d ?l ?t0 ?t1 (a' - 1) = Inr True \<and>
    (\<forall>i. 0 \<le> i \<and> i < a' - 1 \<longrightarrow> meets_tile d ?l ?t0 ?t1 i = Inr False)"
    using first_meeting_result [OF f] by auto
  have B: "b' = -1 \<or> a' = ?n \<and> b' = a' \<or> 0 \<le> b' - 1 \<and> b' - 1 < ?n \<and> meets_tile d ?r ?t0 ?t1 (b' - 1) = Inr True"
    using l last_meeting_result [of d ?r ?t0 ?t1 "[0..?n - 1]" b'] by (auto split: if_splits)
  have "a' \<le> b'" if "a' \<noteq> -1" "b' \<noteq> -1"
  proof (rule ccontr)
    assume less: "\<not> a' \<le> b'"
    then have b: "0 \<le> b' - 1" "b' - 1 < ?n" "meets_tile d ?r ?t0 ?t1 (b' - 1) = Inr True" using B that by auto
    have a: "0 \<le> a' - 1" "a' - 1 < ?n" "meets_tile d ?l ?t0 ?t1 (a' - 1) = Inr True" using A that by auto
    obtain s s' where s: "db_subswath d (b' - 1) = Inr s" "db_subswath d (a' - 1) = Inr s'"
      "fle (slr_time_to_first_valid_pixel s) (slr_time_to_first_valid_pixel s')"
      using assms(2) [rule_format, of "a' - 1" "b' - 1"] a b less by auto
    have "fle (slr_time_to_first_valid_pixel s') ?l" using meets_tile_slr [OF a(3) s(2)] by simp
    with s(3) have start: "fle (slr_time_to_first_valid_pixel s) ?l" by (rule fle_trans)
    note mb = meets_tile_slr [OF b(3) s(1), of ?l]
    have "fle ?l (slr_time_to_last_valid_pixel s)" using assms(3) mb fle_trans by blast
    then have "meets_tile d ?l ?t0 ?t1 (b' - 1) = Inr True" using start mb by simp
    then show False using A that less b by auto
  qed
  then show ?thesis using A B ab by (auto split: if_splits)
qed

lemma clear_elements_empties:
  assumes "GetElements b h = Inr kids" and "distinct kids" "\<forall>k\<in>set kids. k < length (nodes h)" "refs_ok (nodes h)"
  shows "\<exists>h'. clear_elements b h = Inr h' \<and> GetElements b h' = Inr []"
proof -
  have "\<exists>h'. fold_res (\<lambda>k h. bind_res (RemoveElement b (Some k) h) (\<lambda>(_, h). Inr h)) kids h = Inr h' \<and> GetElements b h' = Inr []"
    using assms
  proof (induction kids arbitrary: h)
    case (Cons k kids)
    obtain h1 where "RemoveElement b (Some k) h = Inr (True, h1)" "GetElements b h1 = Inr kids"
      "refs_ok (nodes h1)" "length (nodes h1) = length (nodes h)"
      using RemoveElement_spec [OF Cons.prems(1), of k] Cons.prems(3,4) by auto
    then show ?case using Cons.IH [of h1] Cons.prems(2,3) by auto
  qed simp
  then show ?thesis using assms(1) by (simp add: clear_elements_def)
qed

lemma compute_band_two_swaths:
  "a < b \<Longrightarrow> compute_band e p d tgt_bands r a b regions (band, ty) s = (if is_virtual band then Inr s else Inl Runtime_error)"
  by (cases s) (simp add: compute_band_def)

text \<open>C35. A tile that reaches over two sub-swaths is never debursted: with a band that is not virtual, the operator throws.\<close>

theorem ComputeTileStack_two_swaths_throws:
  assumes "tile_sub_swaths d r = Inr (Some (a, b))" and "a < b" and "\<exists>(band, ty)\<in>set tgt_bands. \<not> is_virtual band"
  shows "\<exists>x. ComputeTileStack e p d tgt_bands r ws = Inl x"
proof -
  have "\<exists>x. fold_res (compute_band e p d tgt_bands r a b regions) bs s = Inl x"
    if "\<exists>(band, ty)\<in>set bs. \<not> is_virtual band" for bs s regions
    using that
  proof (induction bs arbitrary: s)
    case (Cons x bs)
    obtain band ty where x: "x = (band, ty)" by fastforce
    then show ?case using Cons compute_band_two_swaths [OF assms(2), of e p d tgt_bands r regions band ty s] by auto
  qed simp
  then have fail: "\<exists>x. fold_res (compute_band e p d tgt_bands r a b regions) tgt_bands s = Inl x" for s regions
    using assms(3) by blast
  show ?thesis
  proof (cases "ComputeTileStack e p d tgt_bands r ws")
    case (Inr v)
    then show ?thesis
      using assms(1) fail
      by (auto simp: ComputeTileStack_def catch_runtime_def bind_res_Inr_iff split: sum.splits) (metis sum.distinct(1))
  qed auto
qed

text \<open>A second sub-swath to the right of the first one.\<close>

definition two_swaths :: deburst where
  "two_swaths =
     one_swath\<lparr>db_utils := (empty_utils 0 0)\<lparr>su_subswath :=
         [four_lines\<lparr>burst_first_valid_line_time := [Fin 0]\<rparr>,
          four_lines\<lparr>burst_first_valid_line_time := [Fin 0], slr_time_to_first_valid_pixel := Fin 2,
            slr_time_to_last_valid_pixel := Fin 4\<rparr>]\<rparr>,
       db_num_of_sub_swath := 2\<rparr>"

lemma two_swaths_times:
  "target_sample_time two_swaths 0 = Fin 0" "target_sample_time two_swaths 4 = Fin 4"
  "target_line_time two_swaths 0 = Fin 0" "target_line_time two_swaths 2 = Fin 2"
  using f64_exact [of 4 0] small_integers_f64
  by (simp_all add: target_sample_time_def target_line_time_def two_swaths_def one_swath_def fp_of_int_def)

lemma two_swaths_tile: "tile_sub_swaths two_swaths (mk_rect 0 0 5 3) = Inr (Some (1, 2))"
proof -
  have js: "[0..db_num_of_sub_swath two_swaths - 1] = [0, 1]" by (simp add: two_swaths_def upto.simps)
  have "meets_tile two_swaths (Fin 0) (Fin 0) (Fin 2) 0 = Inr True" "meets_tile two_swaths (Fin 4) (Fin 0) (Fin 2) 0 = Inr False"
    "meets_tile two_swaths (Fin 4) (Fin 0) (Fin 2) 1 = Inr True"
    by (simp_all add: meets_tile_def lines_meet_def db_subswath_def two_swaths_def one_swath_def four_lines_def SubSwathInfo_def
        vec_at_def int_result_def int32_range_def)
  then have "first_meeting two_swaths (Fin 0) (Fin 0) (Fin 2) [0, 1] = Inr 1"
    "last_meeting two_swaths (Fin 4) (Fin 0) (Fin 2) [0, 1] = Inr 2"
    by (simp_all add: last_meeting_def)
  moreover have "db_num_of_sub_swath two_swaths = 2" by (simp add: two_swaths_def)
  ultimately show ?thesis using js two_swaths_times
    by (simp add: tile_sub_swaths_def mk_rect_def Let_def int32_range_def cong: if_cong del: first_meeting.simps)
qed

lemma tile_sub_swaths_range_witness: "(1::int) \<le> 1 \<and> (1::int) \<le> 2 \<and> 2 \<le> db_num_of_sub_swath two_swaths"
proof (rule tile_sub_swaths_range [OF two_swaths_tile])
  have "\<exists>s s'. db_subswath two_swaths i = Inr s \<and> db_subswath two_swaths j = Inr s' \<and>
      fle (slr_time_to_first_valid_pixel s) (slr_time_to_first_valid_pixel s')"
    if "j < db_num_of_sub_swath two_swaths" "0 \<le> i" "i \<le> j" for i j
  proof -
    have "i = 0 \<and> j = 0 \<or> i = 0 \<and> j = 1 \<or> i = 1 \<and> j = 1" using that by (auto simp: two_swaths_def)
    then show ?thesis
      by (auto simp: db_subswath_def vec_at_def two_swaths_def one_swath_def four_lines_def SubSwathInfo_def)
  qed
  then show "\<forall>j < db_num_of_sub_swath two_swaths. \<forall>i. 0 \<le> i \<and> i \<le> j \<longrightarrow>
      (\<exists>s s'. db_subswath two_swaths i = Inr s \<and> db_subswath two_swaths j = Inr s' \<and>
         fle (slr_time_to_first_valid_pixel s) (slr_time_to_first_valid_pixel s'))"
    by blast
qed (simp add: mk_rect_def two_swaths_times)

lemma ComputeTileStack_two_swaths_throws_witness:
  "\<exists>x. ComputeTileStack sample_env grid_source two_swaths
     [(\<lparr>band_name = ''i_VV'', band_unit = None, is_virtual = False\<rparr>, TYPE_FLOAT32)] (mk_rect 0 0 5 3) [] = Inl x"
  by (rule ComputeTileStack_two_swaths_throws [OF two_swaths_tile]) auto

end
