(* ===== verification/Rounding.thy ===== *)
theory Rounding
  imports Ieee
begin

text \<open>
  Rounding keeps the order: of a number between two numbers whose roundings are finite the rounding is finite and
  lies between them. With it the order of positions survives the chains of operations that turn positions into times
  and times into positions.
\<close>

lemma round_even_mono:
  assumes "x \<le> y"
  shows "round_even x \<le> round_even y"
proof (cases "\<lfloor>x\<rfloor> = \<lfloor>y\<rfloor>")
  case True
  then show ?thesis using assms by (auto simp: round_even_def Let_def)
next
  case False
  then have "\<lfloor>x\<rfloor> + 1 \<le> \<lfloor>y\<rfloor>" using floor_mono [OF assms] by linarith
  moreover have "round_even x \<le> \<lfloor>x\<rfloor> + 1" by (simp add: round_even_def Let_def)
  ultimately show ?thesis using round_even_floor [of y] by linarith
qed

lemma round_even_minus: "round_even (- x) = - round_even x"
proof (cases "x = of_int \<lfloor>x\<rfloor>")
  case True
  then have "round_even x = \<lfloor>x\<rfloor>" "round_even (- x) = - \<lfloor>x\<rfloor>"
    by (metis round_even_int, metis of_int_minus round_even_int)
  then show ?thesis by simp
next
  case False
  then have "\<lfloor>- x\<rfloor> = - \<lfloor>x\<rfloor> - 1" by linarith
  then show ?thesis using False by (auto simp: round_even_def Let_def)
qed

lemma round_to_minus: "round_to m (- x) = - round_to m x"
  by (simp add: round_to_def Let_def round_even_minus)

lemma round_to_nonneg:
  assumes "0 \<le> x"
  shows "0 \<le> round_to m x"
proof -
  have "0 \<le> round_even y" if "0 \<le> y" for y using round_even_mono [OF that] round_even_int [of 0] by simp
  then show ?thesis using assms by (simp add: round_to_def Let_def)
qed

lemma ilog2_mono:
  assumes "0 < x" and "x \<le> y"
  shows "ilog2 x \<le> ilog2 y"
proof -
  have "(2::rat) powi ilog2 x \<le> x" "y < 2 powi (ilog2 y + 1)" using ilog2_bounds [of x] ilog2_bounds [of y] assms by simp_all
  then have "(2::rat) powi ilog2 x < 2 powi (ilog2 y + 1)" using assms(2) by linarith
  then show ?thesis by (drule_tac powi2_less) simp
qed

lemma round_to_mono_pos:
  assumes "0 < x" and "x \<le> y" and "0 < precision m"
  shows "round_to m x \<le> round_to m y"
proof -
  let ?ex = "max (ilog2 x) (min_exp m)" and ?ey = "max (ilog2 y) (min_exp m)"
  have le: "?ex \<le> ?ey" using ilog2_mono [OF assms(1,2)] by simp
  show ?thesis
  proof (cases "?ex = ?ey")
    case True
    let ?q = "?ey - (int (precision m) - 1)"
    have "x * 2 powi (- ?q) \<le> y * 2 powi (- ?q)" using assms(2) by (rule mult_right_mono) simp
    then have "(of_int (round_even (x * 2 powi (- ?q))) :: rat) \<le> of_int (round_even (y * 2 powi (- ?q)))"
      by (simp only: of_int_le_iff round_even_mono)
    then have "of_int (round_even (x * 2 powi (- ?q))) * (2::rat) powi ?q \<le> of_int (round_even (y * 2 powi (- ?q))) * 2 powi ?q"
      by (rule mult_right_mono) simp
    then show ?thesis using assms(1,2) True by (simp add: round_to_def Let_def)
  next
    case False
    let ?b = "?ex + 1"
    have b: "?b \<le> ilog2 y" using False le by linarith
    have "x < 2 powi (ilog2 x + 1)" using ilog2_bounds [OF assms(1)] by simp
    also have "(2::rat) powi (ilog2 x + 1) \<le> 2 powi ?b" by (intro power_int_increasing) simp_all
    finally have "\<bar>round_to m x\<bar> \<le> 2 powi ?b" using assms(1,3) by (intro round_to_le_power) simp_all
    moreover have "(2::rat) powi ?b \<le> 2 powi ilog2 y" using b by (intro power_int_increasing) simp_all
    then have "(2::rat) powi ?b \<le> \<bar>y\<bar>" using ilog2_bounds [of y] assms(1,2) by linarith
    then have "2 powi ?b \<le> \<bar>round_to m y\<bar>" using assms(3) by (intro round_to_ge_power) simp_all
    ultimately show ?thesis using round_to_nonneg [of y m] assms(1,2) by linarith
  qed
qed

lemma round_to_mono:
  assumes "x \<le> y" and "0 < precision m"
  shows "round_to m x \<le> round_to m y"
proof -
  consider "0 < x" | "x \<le> 0" "0 \<le> y" | "y < 0" using assms(1) by linarith
  then show ?thesis
  proof cases
    case 1
    then show ?thesis using round_to_mono_pos assms by blast
  next
    case 2
    then show ?thesis using round_to_nonneg [of y m] round_to_nonneg [of "- x" m] by (simp add: round_to_minus)
  next
    case 3
    then show ?thesis using round_to_mono_pos [of "- y" "- x" m] assms by (simp add: round_to_minus)
  qed
qed

text \<open>A finite value between two bounds.\<close>

definition fin_in :: "rat \<Rightarrow> rat \<Rightarrow> fp \<Rightarrow> bool" where
  "fin_in lo hi x \<longleftrightarrow> (\<exists>v. x = Fin v \<and> lo \<le> v \<and> v \<le> hi)"

lemma fin_in_Fin [simp]: "fin_in lo hi (Fin v) \<longleftrightarrow> lo \<le> v \<and> v \<le> hi"
  by (simp add: fin_in_def)

lemma fp_of_rat_fin_in:
  assumes "fp_of_rat m p = Fin p'" "fp_of_rat m r = Fin r'" and "p \<le> q" "q \<le> r" and "0 < precision m"
  shows "fin_in p' r' (fp_of_rat m q)"
proof -
  have r: "p' = round_to m p" "r' = round_to m r" "\<bar>p'\<bar> < 2 powi (max_exp m + 1)" "\<bar>r'\<bar> < 2 powi (max_exp m + 1)"
    using assms(1,2) by (auto simp: fp_of_rat_def Let_def split: if_splits)
  have "round_to m p \<le> round_to m q" "round_to m q \<le> round_to m r" using round_to_mono assms(3-5) by blast+
  then have "\<bar>round_to m q\<bar> < 2 powi (max_exp m + 1)" using r by linarith
  then show ?thesis using \<open>round_to m p \<le> round_to m q\<close> \<open>round_to m q \<le> round_to m r\<close> r
    by (simp add: fp_of_rat_def Let_def)
qed

text \<open>Every operation with one fixed finite operand keeps a value between two others between their results.\<close>

lemma fadd_fin_in:
  assumes "fin_in a b x" and "fadd m (Fin a) (Fin c) = Fin a'" "fadd m (Fin b) (Fin c) = Fin b'" and "0 < precision m"
  shows "fin_in a' b' (fadd m x (Fin c))"
  using assms fp_of_rat_fin_in by (auto simp: fin_in_def)

lemma fsub_fin_in:
  assumes "fin_in a b x" and "fsub m (Fin a) (Fin c) = Fin a'" "fsub m (Fin b) (Fin c) = Fin b'" and "0 < precision m"
  shows "fin_in a' b' (fsub m x (Fin c))"
proof -
  obtain v where "x = Fin v" "a \<le> v" "v \<le> b" using assms(1) by (auto simp: fin_in_def)
  then show ?thesis using assms(2-4) fp_of_rat_fin_in [of m "a - c" a' "b - c" b' "v - c"] by (simp add: fsub_def)
qed

lemma fmul_fin_in:
  assumes "fin_in a b x" and "fmul m (Fin a) (Fin c) = Fin a'" "fmul m (Fin b) (Fin c) = Fin b'" and "0 \<le> c" and "0 < precision m"
  shows "fin_in a' b' (fmul m x (Fin c))"
proof -
  obtain v where "x = Fin v" "a \<le> v" "v \<le> b" using assms(1) by (auto simp: fin_in_def)
  then show ?thesis using assms(2-5) fp_of_rat_fin_in [of m "a * c" a' "b * c" b' "v * c"] by (simp add: mult_right_mono)
qed

lemma fdiv_fin_in:
  assumes "fin_in a b x" and "fdiv m (Fin a) (Fin c) = Fin a'" "fdiv m (Fin b) (Fin c) = Fin b'" and "0 < c" and "0 < precision m"
  shows "fin_in a' b' (fdiv m x (Fin c))"
proof -
  obtain v where "x = Fin v" "a \<le> v" "v \<le> b" using assms(1) by (auto simp: fin_in_def)
  then show ?thesis using assms(2-5) fp_of_rat_fin_in [of m "a / c" a' "b / c" b' "v / c"] by (simp add: divide_right_mono)
qed

lemma rat_trunc_mono: "x \<le> y \<Longrightarrow> rat_trunc x \<le> rat_trunc y"
proof -
  assume le: "x \<le> y"
  have "- \<lfloor>- x\<rfloor> \<le> \<lfloor>y\<rfloor>" if "\<not> 0 \<le> x" "0 \<le> y"
  proof -
    have "0 \<le> \<lfloor>- x\<rfloor>" "0 \<le> \<lfloor>y\<rfloor>" using that by simp_all
    then show ?thesis by linarith
  qed
  then show ?thesis using le by (auto simp: rat_trunc_def floor_mono)
qed

lemma fp_to_int32_fin_in:
  assumes "fin_in a b x" and "fp_to_int32 (Fin a) = Inr i" "fp_to_int32 (Fin b) = Inr j"
  shows "\<exists>k. fp_to_int32 x = Inr k \<and> i \<le> k \<and> k \<le> j"
proof -
  obtain v where v: "x = Fin v" "a \<le> v" "v \<le> b" using assms(1) by (auto simp: fin_in_def)
  then have "rat_trunc a \<le> rat_trunc v" "rat_trunc v \<le> rat_trunc b" using rat_trunc_mono by blast+
  then show ?thesis using assms(2,3) v(1) by (auto simp: fp_to_int32_def split: if_splits)
qed

end
