(* ===== verification/TopsarMerge.thy ===== *)
theory TopsarMerge
  imports Deburst Rounding
begin

text \<open>
  The TOPSAR merge operator (\<^verbatim>\<open>topsar_merge.cc\<close>, \<^verbatim>\<open>topsar_merge_utils.cc\<close>): the check that the products are adjacent
  sub-swaths of one product, the geometry of the merged image, the sub-swath, line and sample a pixel comes from and the
  filling of a tile. The maps from the position of a sub-swath to its descriptions are maps; the two-way map between the
  positions of the products and the numbers of their sub-swaths is a list of pairs.
\<close>

section \<open>Parameters and descriptions\<close>

record merge_parameters =
  number_of_subswaths :: int
  mp_acquisition_mode :: string
  mp_product_type :: string
  reference_sub_swath_index :: int
  mp_first_line_time :: fp
  mp_last_line_time :: fp
  mp_line_time_interval :: fp
  mp_first_pixel_time :: fp
  mp_last_pixel_time :: fp
  mp_delta :: fp
  mp_height :: int
  mp_width :: int

record merge_info =
  mi_first_valid_pixel_time :: fp
  mi_last_valid_pixel_time :: fp
  mi_first_valid_line_time :: fp
  mi_last_valid_line_time :: fp
  mi_first_line_time :: fp
  mi_last_line_time :: fp
  mi_azimuth_time_interval :: fp
  mi_first_pixel_time :: fp
  mi_last_pixel_time :: fp
  number_of_samples :: int
  number_of_lines :: int
  mi_range_pixel_spacing :: fp

definition GetSubSwathMergeInfoFromSentinel1SubSwathInfo :: "sub_swath_info \<Rightarrow> merge_info" where
  "GetSubSwathMergeInfoFromSentinel1SubSwathInfo s =
     \<lparr>mi_first_valid_pixel_time = slr_time_to_first_valid_pixel s, mi_last_valid_pixel_time = slr_time_to_last_valid_pixel s,
      mi_first_valid_line_time = first_valid_line_time s, mi_last_valid_line_time = last_valid_line_time s,
      mi_first_line_time = first_line_time s, mi_last_line_time = last_line_time s,
      mi_azimuth_time_interval = azimuth_time_interval s, mi_first_pixel_time = slr_time_to_first_pixel s,
      mi_last_pixel_time = slr_time_to_last_pixel s, number_of_samples = num_of_samples s, number_of_lines = num_of_lines s,
      mi_range_pixel_spacing = range_pixel_spacing s\<rparr>"

text \<open>\<open>map.at(i)\<close>: an index below zero becomes a huge key.\<close>

definition at_key :: "(int \<rightharpoonup> 'a) \<Rightarrow> int \<Rightarrow> 'a res" where
  "at_key m i = (if i < 0 then Inl Out_of_range else case m i of None \<Rightarrow> Inl Out_of_range | Some v \<Rightarrow> Inr v)"

definition mp_line_time :: "merge_parameters \<Rightarrow> int \<Rightarrow> fp" where
  "mp_line_time p y = fadd f64 (mp_first_line_time p) (fmul f64 (fp_of_int f64 y) (mp_line_time_interval p))"

definition mp_sample_time :: "merge_parameters \<Rightarrow> int \<Rightarrow> fp" where
  "mp_sample_time p x = fadd f64 (mp_first_pixel_time p) (fmul f64 (fp_of_int f64 x) (mp_delta p))"

section \<open>The geometry of the target\<close>

definition mp_ComputeTargetStartEndTime :: "(int \<rightharpoonup> merge_info) \<Rightarrow> merge_parameters \<Rightarrow> merge_parameters res" where
  "mp_ComputeTargetStartEndTime infos p =
     bind_res (at_key infos 0) (\<lambda>s0.
     bind_res
       (fold_res (\<lambda>i p. bind_res (at_key infos i) (\<lambda>s.
            let p = (if flt (mi_first_line_time s) (mp_first_line_time p)
                     then p\<lparr>mp_first_line_time := mi_first_line_time s\<rparr> else p)
            in Inr (if flt (mp_last_line_time p) (mi_last_line_time s)
                    then p\<lparr>mp_last_line_time := mi_last_line_time s\<rparr> else p)))
          [0..number_of_subswaths p - 1]
          (p\<lparr>mp_first_line_time := mi_first_line_time s0, mp_last_line_time := mi_last_line_time s0\<rparr>)) (\<lambda>p.
       Inr (p\<lparr>mp_line_time_interval := mi_azimuth_time_interval s0\<rparr>)))"

definition mp_ComputeTargetSlantRangeTimeToFirstAndLastPixels ::
  "(int \<rightharpoonup> merge_info) \<Rightarrow> merge_parameters \<Rightarrow> merge_parameters res" where
  "mp_ComputeTargetSlantRangeTimeToFirstAndLastPixels infos p =
     bind_res (at_key infos 0) (\<lambda>s0.
     bind_res (at_key infos (number_of_subswaths p - 1)) (\<lambda>s_last.
       Inr (p\<lparr>mp_first_pixel_time := mi_first_valid_pixel_time s0, mp_last_pixel_time := mi_last_valid_pixel_time s_last,
              mp_delta := fdiv f64 (mi_range_pixel_spacing s0) LIGHT_SPEED\<rparr>)))"

definition mp_ComputeTargetWidthAndHeight :: "merge_parameters \<Rightarrow> merge_parameters res" where
  "mp_ComputeTargetWidthAndHeight p =
     bind_res (fp_to_int32 (fdiv f64 (fsub f64 (mp_last_line_time p) (mp_first_line_time p)) (mp_line_time_interval p))) (\<lambda>h.
     bind_res (fp_to_int32 (fdiv f64 (fsub f64 (mp_last_pixel_time p) (mp_first_pixel_time p)) (mp_delta p))) (\<lambda>w.
       Inr (p\<lparr>mp_height := h, mp_width := w\<rparr>)))"

section \<open>The source of a pixel\<close>

definition GetSubSwathIndexFromName :: "string \<Rightarrow> int res" where
  "GetSubSwathIndexFromName sub_swath_name = (if length sub_swath_name < 2 then Inl Out_of_range else stoi (drop 2 sub_swath_name))"

definition mi_covers :: "merge_info \<Rightarrow> fp \<Rightarrow> fp \<Rightarrow> bool" where
  "mi_covers s t slr \<longleftrightarrow>
     fle (mi_first_valid_line_time s) t \<and> fle t (mi_last_valid_line_time s) \<and>
     fle (mi_first_valid_pixel_time s) slr \<and> fle slr (mi_last_valid_pixel_time s)"

text \<open>The first two of the sub-swaths that cover a pixel, \<open>-1\<close> where there is none.\<close>

fun covering_swaths :: "(int \<rightharpoonup> merge_info) \<Rightarrow> fp \<Rightarrow> fp \<Rightarrow> int \<Rightarrow> int list \<Rightarrow> (int \<times> int) res" where
  "covering_swaths infos t slr swath_0 [] = Inr (swath_0, -1)"
| "covering_swaths infos t slr swath_0 (i # js) =
     bind_res (at_key infos i) (\<lambda>s.
       if mi_covers s t slr then if swath_0 = -1 then covering_swaths infos t slr i js else Inr (swath_0, i)
       else covering_swaths infos t slr swath_0 js)"

definition mp_GetSubSwathIndex :: "(int \<rightharpoonup> merge_info) \<Rightarrow> merge_parameters \<Rightarrow> int \<Rightarrow> int \<Rightarrow> int \<Rightarrow> int \<Rightarrow> int res" where
  "mp_GetSubSwathIndex infos p target_x target_y first_swath last_swath =
     bind_res (covering_swaths infos (mp_line_time p target_y) (mp_sample_time p target_x) (-1) [first_swath..last_swath]) (\<lambda>(swath_0, swath_1).
       if swath_1 \<noteq> -1 then
         bind_res (at_key infos swath_0) (\<lambda>s0. bind_res (at_key infos swath_1) (\<lambda>s1.
           let middle_time = fdiv f64 (fadd f64 (mi_last_valid_pixel_time s0) (mi_first_valid_pixel_time s1)) (Fin 2)
           in Inr (if flt middle_time (mp_sample_time p target_x) then swath_1 else swath_0)))
       else Inr swath_0)"

text \<open>A position is moved to the source grid, cut to the grid at both ends.\<close>

definition cut_index :: "int \<Rightarrow> int \<Rightarrow> int res" where
  "cut_index n i = (if i < 0 then Inr 0 else bind_res (int_result (n - 1)) (\<lambda>l. Inr (if i > l then l else i)))"

definition mp_GetSampleIndexInSourceProduct :: "merge_parameters \<Rightarrow> int \<Rightarrow> int \<Rightarrow> fp \<Rightarrow> int res" where
  "mp_GetSampleIndexInSourceProduct p target_x samples first_pixel_time =
     bind_res (fp_to_int32 (fadd f64 (fdiv f64 (fsub f64 (mp_sample_time p target_x) first_pixel_time) (mp_delta p)) (Fin (1 / 2))))
       (cut_index samples)"

definition GetLineIndexInSourceProduct :: "merge_parameters \<Rightarrow> int \<Rightarrow> merge_info \<Rightarrow> int res" where
  "GetLineIndexInSourceProduct p target_y s =
     bind_res (fp_to_int32 (fadd f64 (fdiv f64 (fsub f64 (mp_line_time p target_y) (mi_first_line_time s))
                 (mi_azimuth_time_interval s)) (Fin (1 / 2)))) (cut_index (number_of_lines s))"

definition mp_ComputeYMin :: "merge_parameters \<Rightarrow> merge_info \<Rightarrow> int res" where
  "mp_ComputeYMin p s = fp_to_int32 (fround (fdiv f64 (fsub f64 (mi_first_line_time s) (mp_first_line_time p)) (mp_line_time_interval p)))"

definition mp_ComputeYMax :: "merge_parameters \<Rightarrow> merge_info \<Rightarrow> int res" where
  "mp_ComputeYMax p s = fp_to_int32 (fround (fdiv f64 (fsub f64 (mi_last_line_time s) (mp_first_line_time p)) (mp_line_time_interval p)))"

definition mp_ComputeXMin :: "merge_parameters \<Rightarrow> merge_info \<Rightarrow> int res" where
  "mp_ComputeXMin p s = fp_to_int32 (fround (fdiv f64 (fsub f64 (mi_first_valid_pixel_time s) (mp_first_pixel_time p)) (mp_delta p)))"

definition mp_ComputeXMax :: "merge_parameters \<Rightarrow> merge_info \<Rightarrow> int res" where
  "mp_ComputeXMax p s = fp_to_int32 (fround (fdiv f64 (fsub f64 (mi_last_valid_pixel_time s) (mp_first_pixel_time p)) (mp_delta p)))"

definition source_rectangle_of :: "merge_parameters \<Rightarrow> rectangle \<Rightarrow> merge_info \<Rightarrow> rectangle res" where
  "source_rectangle_of p r s =
     bind_res (mp_GetSampleIndexInSourceProduct p (rx r) (number_of_samples s) (mi_first_pixel_time s)) (\<lambda>x_0.
     bind_res (int_result (rx r + width r - 1)) (\<lambda>tx_last.
     bind_res (mp_GetSampleIndexInSourceProduct p tx_last (number_of_samples s) (mi_first_pixel_time s)) (\<lambda>x_max.
     bind_res (GetLineIndexInSourceProduct p (ry r) s) (\<lambda>y_0.
     bind_res (int_result (ry r + height r - 1)) (\<lambda>ty_last.
     bind_res (GetLineIndexInSourceProduct p ty_last s) (\<lambda>y_max.
     bind_res (int_result (x_max - x_0 + 1)) (\<lambda>w. bind_res (int_result (y_max - y_0 + 1)) (\<lambda>h.
       Inr (mk_rect x_0 y_0 w h)))))))))"

definition GetSourceRectangles ::
  "(int \<rightharpoonup> merge_info) \<Rightarrow> merge_parameters \<Rightarrow> int \<Rightarrow> int \<Rightarrow> int \<Rightarrow> rectangle \<Rightarrow> rectangle list res" where
  "GetSourceRectangles infos p number_of_source_tiles first_swath last_swath r =
     bind_res (guard (0 \<le> number_of_source_tiles) Length_error) (\<lambda>_.
       map_res (\<lambda>i. bind_res (at_key infos i) (source_rectangle_of p r)) [first_swath..last_swath])"

definition slr_start :: "(int \<rightharpoonup> merge_info) \<Rightarrow> int \<Rightarrow> fp res" where
  "slr_start infos i =
     bind_res (at_key infos i) (\<lambda>s.
       if i = 0 then Inr (mi_first_valid_pixel_time s)
       else bind_res (at_key infos (i - 1)) (\<lambda>s_before.
              Inr (fmul f64 (Fin (1 / 2)) (fadd f64 (mi_first_valid_pixel_time s) (mi_last_pixel_time s_before)))))"

definition slr_end :: "(int \<rightharpoonup> merge_info) \<Rightarrow> merge_parameters \<Rightarrow> int \<Rightarrow> fp res" where
  "slr_end infos p i =
     bind_res (at_key infos i) (\<lambda>s.
       if i = number_of_subswaths p - 1 then Inr (mi_last_pixel_time s)
       else bind_res (at_key infos (i + 1)) (\<lambda>s_after.
              Inr (fmul f64 (Fin (1 / 2)) (fadd f64 (mi_last_pixel_time s) (mi_first_valid_pixel_time s_after)))))"

fun by_slr_time :: "(int \<rightharpoonup> merge_info) \<Rightarrow> merge_parameters \<Rightarrow> fp \<Rightarrow> int list \<Rightarrow> int res" where
  "by_slr_time infos p t [] = Inr 0"
| "by_slr_time infos p t (i # js) =
     bind_res (slr_start infos i) (\<lambda>start_time. bind_res (slr_end infos p i) (\<lambda>end_time.
       if fle start_time t \<and> flt t end_time then Inr i else by_slr_time infos p t js))"

definition GetSubSwathIndexBySlrTime :: "(int \<rightharpoonup> merge_info) \<Rightarrow> merge_parameters \<Rightarrow> fp \<Rightarrow> int res" where
  "GetSubSwathIndexBySlrTime infos p t = by_slr_time infos p t [0..number_of_subswaths p - 1]"

section \<open>The sub-swaths of a tile\<close>

text \<open>The first and the last of the indices that pass a check, a start value when none does.\<close>

fun first_passing :: "(int \<Rightarrow> bool res) \<Rightarrow> int \<Rightarrow> int list \<Rightarrow> int res" where
  "first_passing check start [] = Inr start"
| "first_passing check start (i # js) = bind_res (check i) (\<lambda>b. if b then Inr i else first_passing check start js)"

definition last_passing :: "(int \<Rightarrow> bool res) \<Rightarrow> int \<Rightarrow> int list \<Rightarrow> int res" where
  "last_passing check start js = fold_res (\<lambda>i found. bind_res (check i) (\<lambda>b. Inr (if b then i else found))) js start"

definition mi_valid_lines :: "merge_info \<Rightarrow> fp \<Rightarrow> bool" where
  "mi_valid_lines s t \<longleftrightarrow> fle (mi_first_valid_line_time s) t \<and> flt t (mi_last_valid_line_time s)"

definition is_valid_for :: "fp \<Rightarrow> fp \<Rightarrow> fp \<Rightarrow> merge_info \<Rightarrow> bool" where
  "is_valid_for slr first_time last_time s \<longleftrightarrow>
     fle (mi_first_valid_pixel_time s) slr \<and> fle slr (mi_last_valid_pixel_time s) \<and>
     (mi_valid_lines s first_time \<or> mi_valid_lines s last_time)"

definition FindFirstAndLastSubSwathIndices ::
  "(int \<rightharpoonup> merge_info) \<Rightarrow> merge_parameters \<Rightarrow> rectangle \<Rightarrow> int \<Rightarrow> int \<Rightarrow> (int \<times> int) res" where
  "FindFirstAndLastSubSwathIndices infos p r first_found last_found =
     bind_res (int_result (rx r + width r - 1)) (\<lambda>tx_last. bind_res (int_result (ry r + height r - 1)) (\<lambda>ty_last.
     let first_time = mp_line_time p (ry r); last_time = mp_line_time p ty_last; all = [0..number_of_subswaths p - 1];
         valid = (\<lambda>slr i. bind_res (at_key infos i) (\<lambda>s. Inr (is_valid_for slr first_time last_time s)))
     in bind_res (first_passing (valid (mp_sample_time p (rx r))) first_found all) (\<lambda>a.
        bind_res (last_passing (valid (mp_sample_time p tx_last)) last_found all) (\<lambda>b.
        let b = (if a \<noteq> -1 \<and> b = -1 then a else b)
        in Inr (if a = -1 \<and> b \<noteq> -1 then b else a, b)))))"

section \<open>Filling the tiles\<close>

record merge_op =
  mg_parameters :: merge_parameters
  mg_infos :: "int \<rightharpoonup> merge_info"
  mg_sub_swaths :: "int \<rightharpoonup> sub_swath_info"
  mg_products :: "source_product list"
  mg_numbers :: "(int \<times> int) list"
  mg_polarisations :: "string list"

text \<open>The product of a sub-swath number in the two-way map.\<close>

definition product_of_number :: "(int \<times> int) list \<Rightarrow> int \<Rightarrow> int res" where
  "product_of_number ps number =
     (case List.find (\<lambda>(_, s). s = number) ps of None \<Rightarrow> Inl Out_of_range | Some (p, _) \<Rightarrow> Inr p)"

definition mp_GetTargetBandNameFromSourceBandName :: "string \<Rightarrow> string \<Rightarrow> string" where
  "mp_GetTargetBandNameFromSourceBandName source_band_name acquisition_mode =
     (if \<not> contains source_band_name acquisition_mode then source_band_name
      else let first_separation = position_of_text acquisition_mode source_band_name;
               second_separation = find_char_from (CHR ''_'') (first_separation + 1) source_band_name
           in take (nat first_separation) source_band_name @ drop (nat (second_separation + 1)) source_band_name)"

fun first_hit_res :: "('a \<Rightarrow> 'b option res) \<Rightarrow> 'a list \<Rightarrow> 'b option res" where
  "first_hit_res f [] = Inr None"
| "first_hit_res f (x # xs) = bind_res (f x) (\<lambda>r. case r of None \<Rightarrow> first_hit_res f xs | Some v \<Rightarrow> Inr (Some v))"

definition GetSourceBandFromTargetBandName ::
  "(string \<Rightarrow> string \<Rightarrow> bool) \<Rightarrow> merge_op \<Rightarrow> string \<Rightarrow> string \<Rightarrow> string \<Rightarrow> band_values option res" where
  "GetSourceBandFromTargetBandName same m target_band_name acquisition_mode swath_index_string =
     first_hit_res (\<lambda>s. bind_res (vec_at (mg_products m) s) (\<lambda>product.
       case List.find (\<lambda>n. contains n (acquisition_mode @ swath_index_string) \<and>
              mp_GetTargetBandNameFromSourceBandName n (mp_acquisition_mode (mg_parameters m)) = target_band_name)
              (map band_name (src_bands product)) of
         None \<Rightarrow> Inr None
       | Some n \<Rightarrow> GetBand same (src_bands product) n))
       [0..number_of_subswaths (mg_parameters m) - 1]"

text \<open>The tile of a source: the band that was looked up is only handed on, band one of the file is read.\<close>

definition merge_source_tile :: "'p env \<Rightarrow> merge_op \<Rightarrow> string \<Rightarrow> int \<Rightarrow> rectangle \<Rightarrow> soft_tile res" where
  "merge_source_tile e m target_band_name i region =
     bind_res (at_key (mg_sub_swaths m) i) (\<lambda>s.
     bind_res (GetSubSwathIndexFromName (subswath_name s)) (\<lambda>swath_index.
     bind_res (GetSourceBandFromTargetBandName (ieq e) m target_band_name (mp_acquisition_mode (mg_parameters m))
                 (to_string swath_index)) (\<lambda>_.
     bind_res (product_of_number (mg_numbers m) swath_index) (\<lambda>product.
     bind_res (vec_at (mg_products m) product) (\<lambda>source. GetSourceTile source region 1)))))"

definition merge_line ::
  "merge_parameters \<Rightarrow> merge_info \<Rightarrow> sub_swath_info \<Rightarrow> soft_tile \<Rightarrow> int \<Rightarrow> int \<Rightarrow> int \<Rightarrow> soft_tile \<Rightarrow> soft_tile res" where
  "merge_line p info s src first_x last_x y tgt =
     bind_res (GetLineIndexInSourceProduct p y info) (\<lambda>source_y.
     bind_res (CalculateStride (st_rect tgt) y) (\<lambda>target_offset.
     bind_res (CalculateStride (st_rect src) source_y) (\<lambda>source_offset.
     bind_res (fp_to_int32 (fround (fdiv f64 (fsub f64 (mp_sample_time p first_x) (slr_time_to_first_pixel s)) (mp_delta p)))) (\<lambda>source_x.
     bind_res (int_result (source_x - source_offset)) (\<lambda>from.
     bind_res (int_result (first_x - target_offset)) (\<lambda>to.
     bind_res (copy_cells_from (st_buffer src) from (last_x - first_x) (st_buffer tgt) to) (\<lambda>cells.
       Inr (tgt\<lparr>st_buffer := cells\<rparr>))))))))"

definition mp_ComputeTileInOneSwathFloat :: "'p env \<Rightarrow> merge_op \<Rightarrow> rectangle \<Rightarrow> int \<Rightarrow> rectangle \<Rightarrow> string \<Rightarrow> soft_tile \<Rightarrow> soft_tile res" where
  "mp_ComputeTileInOneSwathFloat e m r i source_rectangle target_band_name tgt =
     (let p = mg_parameters m in
     bind_res (at_key (mg_sub_swaths m) i) (\<lambda>s.
     bind_res (at_key (mg_infos m) i) (\<lambda>info.
     bind_res (mp_ComputeYMin p info) (\<lambda>y_min. bind_res (mp_ComputeYMax p info) (\<lambda>y_max.
     bind_res (mp_ComputeXMin p info) (\<lambda>x_min. bind_res (mp_ComputeXMax p info) (\<lambda>x_max.
     bind_res (int_result (ry r + height r)) (\<lambda>y_bound. bind_res (int_result (y_max + 1)) (\<lambda>y_end.
     bind_res (int_result (rx r + width r)) (\<lambda>x_bound. bind_res (int_result (x_max + 1)) (\<lambda>x_end.
     let first_y = max (ry r) y_min; last_y = min y_bound y_end; first_x = max (rx r) x_min; last_x = min x_bound x_end
     in if first_y \<ge> last_y \<or> first_x \<ge> last_x then Inr tgt
        else bind_res (merge_source_tile e m target_band_name i source_rectangle) (\<lambda>src.
               fold_res (merge_line p info s src first_x last_x) [first_y..last_y - 1] tgt))))))))))))"

definition GetDataBufferIndex :: "soft_tile \<Rightarrow> int \<Rightarrow> int \<Rightarrow> int res" where
  "GetDataBufferIndex t x y =
     (let r = st_rect t in
      bind_res (int_result (x - rx r)) (\<lambda>column. bind_res (int_result (y - ry r)) (\<lambda>line.
      bind_res (int_result (line * width r)) (\<lambda>skipped. int_result (column + skipped)))))"

text \<open>The value of a pixel, nothing where no sub-swath covers it.\<close>

definition pixel_value :: "merge_op \<Rightarrow> int \<Rightarrow> int \<Rightarrow> soft_tile list \<Rightarrow> int \<Rightarrow> int \<Rightarrow> fp option res" where
  "pixel_value m first_swath last_swath source_tiles y x =
     (let p = mg_parameters m in
     bind_res (mp_GetSubSwathIndex (mg_infos m) p x y first_swath last_swath) (\<lambda>i.
       if i = -1 then Inr None
       else
         bind_res (at_key (mg_infos m) i) (\<lambda>info.
         bind_res (GetLineIndexInSourceProduct p y info) (\<lambda>source_y.
         bind_res (at_key (mg_sub_swaths m) i) (\<lambda>s.
         bind_res (mp_GetSampleIndexInSourceProduct p x (num_of_samples s) (slr_time_to_first_pixel s)) (\<lambda>source_x.
         bind_res (int_result (i - first_swath)) (\<lambda>k.
         bind_res (vec_at source_tiles k) (\<lambda>t.
         bind_res (GetDataBufferIndex t source_x source_y) (\<lambda>index.
         bind_res (if 0 \<le> index then vec_at (st_buffer t) index else Inr (Fin 0)) (\<lambda>v. Inr (Some v)))))))))))"

definition merge_pixel :: "merge_op \<Rightarrow> int \<Rightarrow> int \<Rightarrow> soft_tile list \<Rightarrow> int \<Rightarrow> int \<Rightarrow> int \<Rightarrow> fp list \<Rightarrow> fp list res" where
  "merge_pixel m first_swath last_swath source_tiles target_offset y x cells =
     bind_res (pixel_value m first_swath last_swath source_tiles y x) (\<lambda>v.
       case v of
         None \<Rightarrow> Inr cells
       | Some val \<Rightarrow> bind_res (int_result (x - target_offset)) (\<lambda>j. vec_put cells j val))"

definition merge_pixels :: "merge_op \<Rightarrow> int \<Rightarrow> int \<Rightarrow> soft_tile list \<Rightarrow> rectangle \<Rightarrow> rectangle \<Rightarrow> fp list \<Rightarrow> fp list res" where
  "merge_pixels m first_swath last_swath source_tiles r tile_r =
     fold_res (\<lambda>y cells. bind_res (CalculateStride tile_r y) (\<lambda>target_offset.
         fold_res (merge_pixel m first_swath last_swath source_tiles target_offset y) [rx r..rx r + width r - 1] cells))
       [ry r..ry r + height r - 1]"

definition ComputeMultipleSubSwathFloat ::
  "'p env \<Rightarrow> merge_op \<Rightarrow> rectangle \<Rightarrow> int \<Rightarrow> int \<Rightarrow> rectangle list \<Rightarrow> string \<Rightarrow> soft_tile \<Rightarrow> soft_tile res" where
  "ComputeMultipleSubSwathFloat e m r first_swath last_swath source_rectangles target_band_name tgt =
     bind_res (map_res (\<lambda>i. bind_res (vec_at source_rectangles (i - first_swath)) (merge_source_tile e m target_band_name i))
                 [first_swath..last_swath]) (\<lambda>source_tiles.
     bind_res (int_result (ry r + height r)) (\<lambda>_. bind_res (int_result (rx r + width r)) (\<lambda>_.
     bind_res (merge_pixels m first_swath last_swath source_tiles r (st_rect tgt) (st_buffer tgt)) (\<lambda>cells.
       Inr (tgt\<lparr>st_buffer := cells\<rparr>)))))"

definition merge_band ::
  "'p env \<Rightarrow> merge_op \<Rightarrow> rectangle \<Rightarrow> int \<Rightarrow> int \<Rightarrow> rectangle list \<Rightarrow> band_values \<times> int \<Rightarrow> band_write list \<Rightarrow> band_write list res" where
  "merge_band e m r first_swath last_swath source_rectangles = (\<lambda>(target_band, data_type) ws.
     bind_res (TileImpl r) (\<lambda>tgt.
     bind_res
       (if data_type = TYPE_INT16 then Inl Algorithm_exception
        else if last_swath - first_swath + 1 = 1 then
          bind_res (vec_at source_rectangles 0) (\<lambda>region.
            mp_ComputeTileInOneSwathFloat e m r first_swath region (band_name target_band) tgt)
        else ComputeMultipleSubSwathFloat e m r first_swath last_swath source_rectangles (band_name target_band) tgt) (\<lambda>tgt.
       Inr (ws @ [\<lparr>wr_rect = r, wr_buffer = st_buffer tgt, wr_band = 1\<rparr>]))))"

definition mp_ComputeTileStack ::
  "'p env \<Rightarrow> merge_op \<Rightarrow> (band_values \<times> int) list \<Rightarrow> rectangle \<Rightarrow> band_write list \<Rightarrow> band_write list res" where
  "mp_ComputeTileStack e m target_bands r ws =
     bind_res (FindFirstAndLastSubSwathIndices (mg_infos m) (mg_parameters m) r (-1) (-1)) (\<lambda>(first_swath, last_swath).
       if first_swath = -1 \<and> last_swath = -1 then Inr ws
       else
         bind_res (GetSourceRectangles (mg_infos m) (mg_parameters m) (last_swath - first_swath + 1) first_swath last_swath r) (\<lambda>rs.
           fold_res (merge_band e m r first_swath last_swath rs) target_bands ws))"

definition mp_Compute :: "'p env \<Rightarrow> merge_op \<Rightarrow> (band_values \<times> int) list \<Rightarrow> rectangle list \<Rightarrow> band_write list res" where
  "mp_Compute e m target_bands target_rectangles = fold_res (mp_ComputeTileStack e m target_bands) target_rectangles []"

section \<open>Which products can be merged\<close>

text \<open>The number in the name of the sub-swath of a product, as \<open>size_t\<close>.\<close>

definition swath_number :: "'p env \<Rightarrow> heap \<Rightarrow> ref \<Rightarrow> int res" where
  "swath_number e h tags =
     bind_res (GetAttributeString e tags swath_tag h) (\<lambda>name.
       if name = [] then Inl Algorithm_exception
       else bind_res (GetSubSwathIndexFromName name) (\<lambda>i. Inr (i mod 2 ^ 64)))"

definition bimap_insert :: "int \<times> int \<Rightarrow> (int \<times> int) list \<Rightarrow> (int \<times> int) list" where
  "bimap_insert q ps = (if fst q \<in> set (map fst ps) \<or> snd q \<in> set (map snd ps) then ps else ps @ [q])"

text \<open>A further product, given by its abstracted metadata and its number of bands, is compared with the first one.\<close>

definition check_same_product ::
  "'p env \<Rightarrow> heap \<Rightarrow> string \<Rightarrow> string \<Rightarrow> int \<Rightarrow> int \<times> ref \<times> int \<Rightarrow> int list \<times> (int \<times> int) list \<Rightarrow> (int list \<times> (int \<times> int) list) res" where
  "check_same_product e h product_0_name mode bands_0 = (\<lambda>(p, tags, bands) (numbers, ps).
     bind_res (GetAttributeString e tags PRODUCT h) (\<lambda>product_name.
     bind_res (guard (product_name = product_0_name) Algorithm_exception) (\<lambda>_.
     bind_res (GetAttributeString e tags ACQUISITION_MODE h) (\<lambda>acquisition_mode.
     bind_res (guard (acquisition_mode = mode) Algorithm_exception) (\<lambda>_.
     bind_res (guard (bands = bands_0) Algorithm_exception) (\<lambda>_.
     bind_res (swath_number e h tags) (\<lambda>s. Inr (numbers @ [s], bimap_insert (p, s) ps))))))))"

fun consecutive :: "int list \<Rightarrow> bool" where
  "consecutive (a # b # xs) \<longleftrightarrow> (b - a) mod 2 ^ 64 = 1 \<and> consecutive (b # xs)"
| "consecutive xs \<longleftrightarrow> True"

definition CheckAreSubSwathsFromSameProduct ::
  "'p env \<Rightarrow> heap \<Rightarrow> (ref \<times> int) list \<Rightarrow> merge_parameters \<Rightarrow> (merge_parameters \<times> (int \<times> int) list) res" where
  "CheckAreSubSwathsFromSameProduct e h sources p =
     bind_res (vec_at sources 0) (\<lambda>(root_0, bands_0).
     let p = p\<lparr>number_of_subswaths := int (length sources)\<rparr> in
     bind_res (GetAttributeString e root_0 PRODUCT h) (\<lambda>product_0_name.
     bind_res (GetAttributeString e root_0 ACQUISITION_MODE h) (\<lambda>mode.
     bind_res (GetAttributeString e root_0 PRODUCT_TYPE h) (\<lambda>ty.
     bind_res (swath_number e h root_0) (\<lambda>s.
     bind_res (fold_res (check_same_product e h product_0_name mode bands_0)
                 (zip [1..int (length sources) - 1] (tl sources)) ([s], bimap_insert (0, s) [])) (\<lambda>(numbers, ps).
     let numbers = sort numbers in
     bind_res (vec_at numbers 0) (\<lambda>reference.
     bind_res (guard (consecutive numbers) Algorithm_exception) (\<lambda>_.
       Inr (p\<lparr>mp_acquisition_mode := mode, mp_product_type := ty, reference_sub_swath_index := reference\<rparr>, ps)))))))))"

section \<open>The sub-swaths of the products\<close>

definition catch_exceptions :: "'a res \<Rightarrow> 'a res" where
  "catch_exceptions r =
     (case r of Inr v \<Rightarrow> Inr v
      | Inl x \<Rightarrow> Inl (if x = Undefined_behaviour \<or> x = Null_dereference then x else Algorithm_exception))"

definition number_of_product :: "(int \<times> int) list \<Rightarrow> int \<Rightarrow> int res" where
  "number_of_product ps p = (case List.find (\<lambda>(q, _). q = p) ps of None \<Rightarrow> Inl Out_of_range | Some (_, s) \<Rightarrow> Inr s)"

definition try_emplace :: "(int \<rightharpoonup> 'a) \<Rightarrow> int \<Rightarrow> 'a \<Rightarrow> (int \<rightharpoonup> 'a)" where
  "try_emplace m i v = (if m i = None then m(i \<mapsto> v) else m)"

definition with_valid_area :: "'p env \<Rightarrow> heap \<Rightarrow> ref \<Rightarrow> sub_swath_info \<Rightarrow> sub_swath_info res" where
  "with_valid_area e h tags s =
     bind_res (abs_GetAttributeInt e tags FIRST_VALID_PIXEL h) (\<lambda>first_pixel.
     bind_res (abs_GetAttributeInt e tags LAST_VALID_PIXEL h) (\<lambda>last_pixel.
     bind_res (abs_GetAttributeDouble e tags SLR_TIME_TO_FIRST_VALID_PIXEL h) (\<lambda>first_slr.
     bind_res (abs_GetAttributeDouble e tags SLR_TIME_TO_LAST_VALID_PIXEL h) (\<lambda>last_slr.
     bind_res (abs_GetAttributeDouble e tags FIRST_VALID_LINE_TIME h) (\<lambda>first_time.
     bind_res (abs_GetAttributeDouble e tags LAST_VALID_LINE_TIME h) (\<lambda>last_time.
       Inr (s\<lparr>first_valid_pixel := first_pixel, last_valid_pixel := last_pixel, slr_time_to_first_valid_pixel := first_slr,
              slr_time_to_last_valid_pixel := last_slr, first_valid_line_time := first_time, last_valid_line_time := last_time\<rparr>)))))))"

text \<open>
  One product, with its abstracted metadata and its utilities. The sub-swath object is shared with the utilities: when it
  is the one in the map, the merge information is made from the updated object.
\<close>

definition take_sub_swath :: "'p env \<Rightarrow> heap \<Rightarrow> int \<times> ref \<times> sentinel1_utils \<Rightarrow> merge_op \<Rightarrow> merge_op res" where
  "take_sub_swath e h = (\<lambda>(p, tags, u) m.
     bind_res (number_of_product (mg_numbers m) p) (\<lambda>number.
     let i = (number - reference_sub_swath_index (mg_parameters m)) mod 2 ^ 64 in
     bind_res (vec_at (su_subswath u) 0) (\<lambda>own.
     let swaths = try_emplace (mg_sub_swaths m) i own;
         pols = (if mg_polarisations m = [] then su_polarizations u else mg_polarisations m) in
     bind_res (at_key swaths i) (\<lambda>s.
     bind_res (with_valid_area e h tags s) (\<lambda>s.
     let own = (if mg_sub_swaths m i = None then s else own)
     in Inr (m\<lparr>mg_sub_swaths := swaths(i \<mapsto> s), mg_polarisations := pols,
               mg_infos := try_emplace (mg_infos m) i (GetSubSwathMergeInfoFromSentinel1SubSwathInfo own)\<rparr>))))))"

definition UpdateSubSwathParameters :: "'p env \<Rightarrow> heap \<Rightarrow> (ref \<times> sentinel1_utils) list \<Rightarrow> merge_op \<Rightarrow> merge_op res" where
  "UpdateSubSwathParameters e h sources m =
     catch_exceptions (fold_res (take_sub_swath e h) (zip [0..int (length sources) - 1] sources) m)"

section \<open>Positions keep their order\<close>

lemma fadd_FinD: "fadd m x y = Fin v \<Longrightarrow> \<exists>a b. x = Fin a \<and> y = Fin b"
  by (cases x; cases y) (auto split: if_splits)

lemma fsub_FinD: "fsub m x y = Fin v \<Longrightarrow> \<exists>a b. x = Fin a \<and> y = Fin b"
  by (cases x; cases y) (auto simp: fsub_def split: if_splits)

lemma fdiv_FinD: "fdiv m x (Fin c) = Fin v \<Longrightarrow> \<exists>a. x = Fin a"
  by (cases x) (auto split: if_splits)

lemma fmul_FinD: "fmul m x (Fin c) = Fin v \<Longrightarrow> \<exists>a. x = Fin a"
  by (cases x) (auto split: if_splits)

lemma fp_to_int32_FinD: "fp_to_int32 x = Inr i \<Longrightarrow> \<exists>a. x = Fin a"
  by (cases x) (auto simp: fp_to_int32_def)

text \<open>The chain from a position to a time and back to a position on another grid.\<close>

definition moved :: "fp \<Rightarrow> fp \<Rightarrow> fp \<Rightarrow> fp \<Rightarrow> int \<Rightarrow> int res" where
  "moved start step other_start other_step x =
     fp_to_int32 (fadd f64 (fdiv f64 (fsub f64 (fadd f64 start (fmul f64 (fp_of_int f64 x) step)) other_start) other_step) (Fin (1 / 2)))"

lemma moved_between:
  assumes "moved t (Fin d) f (Fin c) a = Inr i" and "moved t (Fin d) f (Fin c) b = Inr j" and "a \<le> x" "x \<le> b"
    and "0 \<le> d" "0 < c"
  shows "\<exists>k. moved t (Fin d) f (Fin c) x = Inr k \<and> i \<le> k \<and> k \<le> j"
proof -
  define m1 where "m1 x = fmul f64 (fp_of_int f64 x) (Fin d)" for x
  define m2 where "m2 x = fadd f64 t (m1 x)" for x
  define m3 where "m3 x = fsub f64 (m2 x) f" for x
  define m4 where "m4 x = fdiv f64 (m3 x) (Fin c)" for x
  define m5 where "m5 x = fadd f64 (m4 x) (Fin (1 / 2))" for x
  note ms = m1_def m2_def m3_def m4_def m5_def
  have m: "moved t (Fin d) f (Fin c) x = fp_to_int32 (m5 x)" for x by (simp add: moved_def ms)
  have fin: "\<exists>v0 v1 v2 v3 v4 v5 t' f'. fp_of_int f64 y = Fin v0 \<and> m1 y = Fin v1 \<and> m2 y = Fin v2 \<and> m3 y = Fin v3 \<and>
      m4 y = Fin v4 \<and> m5 y = Fin v5 \<and> t = Fin t' \<and> f = Fin f'"
    if run: "moved t (Fin d) f (Fin c) y = Inr l" for y l
  proof -
    obtain v5 where 5: "m5 y = Fin v5" using fp_to_int32_FinD [of "m5 y" l] run m by auto
    obtain v4 where 4: "m4 y = Fin v4" using fadd_FinD [OF 5 [unfolded m5_def]] by blast
    obtain v3 where 3: "m3 y = Fin v3" using fdiv_FinD [OF 4 [unfolded m4_def]] by blast
    obtain v2 f' where 2: "m2 y = Fin v2" "f = Fin f'" using fsub_FinD [OF 3 [unfolded m3_def]] by blast
    obtain v1 t' where 1: "m1 y = Fin v1" "t = Fin t'" using fadd_FinD [OF 2(1) [unfolded m2_def]] by blast
    obtain v0 where "fp_of_int f64 y = Fin v0" using fmul_FinD [OF 1(1) [unfolded m1_def]] by blast
    then show ?thesis using 1 2 3 4 5 by blast
  qed
  obtain a0 a1 a2 a3 a4 a5 t' f' where A: "fp_of_int f64 a = Fin a0" "m1 a = Fin a1" "m2 a = Fin a2" "m3 a = Fin a3"
      "m4 a = Fin a4" "m5 a = Fin a5" "t = Fin t'" "f = Fin f'"
    using fin [OF assms(1)] by blast
  obtain b0 b1 b2 b3 b4 b5 where B: "fp_of_int f64 b = Fin b0" "m1 b = Fin b1" "m2 b = Fin b2" "m3 b = Fin b3"
      "m4 b = Fin b4" "m5 b = Fin b5"
    using fin [OF assms(2)] by blast
  have p: "0 < precision f64" by (simp add: f64_def)
  have add': "fadd f64 (Fin t') z = fadd f64 z (Fin t')" for z by (cases z) (simp_all add: add.commute)
  have "fin_in a0 b0 (fp_of_int f64 x)"
    using A(1) B(1) assms(3,4) fp_of_rat_fin_in [of f64 "of_int a" a0 "of_int b" b0 "of_int x"] p by (simp add: fp_of_int_def)
  then have "fin_in a1 b1 (m1 x)" unfolding m1_def
    by (rule fmul_fin_in) (use A B assms(5) p in \<open>simp_all add: m1_def\<close>)
  then have "fin_in a2 b2 (m2 x)" unfolding m2_def A(7) add'
    by (rule fadd_fin_in) (use A B p in \<open>simp_all add: m2_def add' del: fadd.simps\<close>)
  then have "fin_in a3 b3 (m3 x)" unfolding m3_def A(8)
    by (rule fsub_fin_in) (use A B p in \<open>simp_all add: m3_def\<close>)
  then have "fin_in a4 b4 (m4 x)" unfolding m4_def
    by (rule fdiv_fin_in) (use A B assms(6) p in \<open>simp_all add: m4_def del: fdiv.simps\<close>)
  then have "fin_in a5 b5 (m5 x)" unfolding m5_def
    by (rule fadd_fin_in) (use A B p in \<open>simp_all add: m5_def del: fadd.simps\<close>)
  then show ?thesis using fp_to_int32_fin_in [of a5 b5 "m5 x" i j] assms(1,2) m A(6) B(6) by simp
qed

lemma cut_index_between:
  assumes "cut_index n i = Inr i'" and "cut_index n j = Inr j'" and "i \<le> k" "k \<le> j" and "1 \<le> n"
  shows "\<exists>k'. cut_index n k = Inr k' \<and> i' \<le> k' \<and> k' \<le> j'"
  using assms by (auto simp: cut_index_def bind_res_Inr_iff int_result_Inr_iff int32_range_def split: if_splits)

lemma cut_index_range: "cut_index n i = Inr k \<Longrightarrow> 1 \<le> n \<Longrightarrow> 0 \<le> k \<and> k < n"
  by (auto simp: cut_index_def bind_res_Inr_iff int_result_Inr_iff split: if_splits)

lemma sample_index_moved:
  "mp_GetSampleIndexInSourceProduct p x n f = bind_res (moved (mp_first_pixel_time p) (mp_delta p) f (mp_delta p) x) (cut_index n)"
  by (simp add: mp_GetSampleIndexInSourceProduct_def moved_def mp_sample_time_def)

lemma line_index_moved:
  "GetLineIndexInSourceProduct p y s =
   bind_res (moved (mp_first_line_time p) (mp_line_time_interval p) (mi_first_line_time s) (mi_azimuth_time_interval s) y)
     (cut_index (number_of_lines s))"
  by (simp add: GetLineIndexInSourceProduct_def moved_def mp_line_time_def)

lemma moved_cut_between:
  assumes "bind_res (moved t (Fin d) f (Fin c) a) (cut_index n) = Inr i" and "bind_res (moved t (Fin d) f (Fin c) b) (cut_index n) = Inr j"
    and "a \<le> x" "x \<le> b" and "0 \<le> d" "0 < c" and "1 \<le> n"
  shows "\<exists>k. bind_res (moved t (Fin d) f (Fin c) x) (cut_index n) = Inr k \<and> i \<le> k \<and> k \<le> j"
proof -
  obtain a' b' where m: "moved t (Fin d) f (Fin c) a = Inr a'" "moved t (Fin d) f (Fin c) b = Inr b'"
    "cut_index n a' = Inr i" "cut_index n b' = Inr j"
    using assms(1,2) by (auto simp: bind_res_Inr_iff)
  obtain x' where x': "moved t (Fin d) f (Fin c) x = Inr x'" "a' \<le> x'" "x' \<le> b'"
    using moved_between [OF m(1,2) assms(3-6)] by blast
  then show ?thesis using cut_index_between [OF m(3,4) x'(2,3) assms(7)] by simp
qed

text \<open>Steps of the grids that make sense: finite and above zero.\<close>

definition good_step :: "fp \<Rightarrow> bool" where
  "good_step x \<longleftrightarrow> (\<exists>v > 0. x = Fin v)"

text \<open>Every pixel of a target rectangle that is looked up in a sub-swath has its source pixel in the source rectangle.\<close>

lemma source_rectangle_covers:
  assumes "source_rectangle_of p r s = Inr rs" and "inside r x y"
    and "good_step (mp_delta p)" "good_step (mp_line_time_interval p)" "good_step (mi_azimuth_time_interval s)"
    and "1 \<le> number_of_samples s" "1 \<le> number_of_lines s"
  shows "\<exists>sx sy. mp_GetSampleIndexInSourceProduct p x (number_of_samples s) (mi_first_pixel_time s) = Inr sx \<and>
    GetLineIndexInSourceProduct p y s = Inr sy \<and> inside rs sx sy"
proof -
  obtain x_0 x_max y_0 y_max where e: "mp_GetSampleIndexInSourceProduct p (rx r) (number_of_samples s) (mi_first_pixel_time s) = Inr x_0"
    "mp_GetSampleIndexInSourceProduct p (rx r + width r - 1) (number_of_samples s) (mi_first_pixel_time s) = Inr x_max"
    "GetLineIndexInSourceProduct p (ry r) s = Inr y_0" "GetLineIndexInSourceProduct p (ry r + height r - 1) s = Inr y_max"
    "rs = mk_rect x_0 y_0 (x_max - x_0 + 1) (y_max - y_0 + 1)"
    using assms(1) by (auto simp: source_rectangle_of_def bind_res_Inr_iff int_result_Inr_iff)
  obtain d l a where steps: "mp_delta p = Fin d" "0 < d" "mp_line_time_interval p = Fin l" "0 < l"
    "mi_azimuth_time_interval s = Fin a" "0 < a"
    using assms(3-5) by (auto simp: good_step_def)
  have in': "rx r \<le> x" "x \<le> rx r + width r - 1" "ry r \<le> y" "y \<le> ry r + height r - 1" using assms(2) by (auto simp: inside_def)
  obtain sx where "mp_GetSampleIndexInSourceProduct p x (number_of_samples s) (mi_first_pixel_time s) = Inr sx" "x_0 \<le> sx" "sx \<le> x_max"
    using moved_cut_between [OF e(1,2) [unfolded sample_index_moved steps(1)] in'(1,2) _ steps(2) assms(6)] steps
    by (auto simp: sample_index_moved)
  moreover obtain sy where "GetLineIndexInSourceProduct p y s = Inr sy" "y_0 \<le> sy" "sy \<le> y_max"
    using moved_cut_between [OF e(3,4) [unfolded line_index_moved steps(3,5)] in'(3,4) _ steps(6) assms(7)] steps
    by (auto simp: line_index_moved)
  ultimately show ?thesis using e(5) by (auto simp: inside_def mk_rect_def)
qed

lemma covering_swaths_result:
  "\<forall>i\<in>set js. 0 \<le> i \<and> infos i \<noteq> None \<Longrightarrow>
   \<exists>a b. covering_swaths infos t slr s0 js = Inr (a, b) \<and> (a = s0 \<or> a \<in> set js) \<and> (b = -1 \<or> b \<in> set js) \<and> (b \<noteq> -1 \<longrightarrow> a \<noteq> -1)"
proof (induction js arbitrary: s0)
  case (Cons i js)
  obtain s where s: "at_key infos i = Inr s" using Cons.prems by (force simp: at_key_def)
  obtain a b where "covering_swaths infos t slr s0 js = Inr (a, b)" "a = s0 \<or> a \<in> set js" "b = -1 \<or> b \<in> set js" "b \<noteq> -1 \<longrightarrow> a \<noteq> -1"
    using Cons.IH [of s0] Cons.prems by auto
  moreover obtain a' b' where "covering_swaths infos t slr i js = Inr (a', b')" "a' = i \<or> a' \<in> set js" "b' = -1 \<or> b' \<in> set js"
    "b' \<noteq> -1 \<longrightarrow> a' \<noteq> -1"
    using Cons.IH [of i] Cons.prems by auto
  ultimately show ?case using s by (cases "mi_covers s t slr") auto
qed simp

lemma mp_GetSubSwathIndex_result:
  assumes "\<forall>i\<in>{first_swath..last_swath}. 0 \<le> i \<and> infos i \<noteq> None"
  shows "\<exists>i. mp_GetSubSwathIndex infos p x y first_swath last_swath = Inr i \<and> (i = -1 \<or> i \<in> {first_swath..last_swath})"
proof -
  have "\<forall>i\<in>set [first_swath..last_swath]. 0 \<le> i \<and> infos i \<noteq> None" using assms by simp
  from covering_swaths_result [OF this, of "mp_line_time p y" "mp_sample_time p x" "-1"]
  obtain a b where c: "covering_swaths infos (mp_line_time p y) (mp_sample_time p x) (-1) [first_swath..last_swath] = Inr (a, b)"
    "a = -1 \<or> a \<in> {first_swath..last_swath}" "b = -1 \<or> b \<in> {first_swath..last_swath}" "b \<noteq> -1 \<longrightarrow> a \<noteq> -1"
    by auto
  show ?thesis
  proof (cases "b = -1")
    case True
    then show ?thesis using c by (simp add: mp_GetSubSwathIndex_def)
  next
    case False
    then have "a \<in> {first_swath..last_swath}" "b \<in> {first_swath..last_swath}" using c by auto
    then obtain s0 s1 where "at_key infos a = Inr s0" "at_key infos b = Inr s1" using assms by (force simp: at_key_def)
    then show ?thesis using c False by (auto simp: mp_GetSubSwathIndex_def Let_def)
  qed
qed

section \<open>A merged tile\<close>

lemma GetDataBufferIndex_inside:
  assumes "tile_ok t" and "inside (st_rect t) x y"
  shows "GetDataBufferIndex t x y = Inr (tile_index (st_rect t) x y)"
proof -
  let ?r = "st_rect t"
  have rows: "0 \<le> (y - ry ?r) * width ?r" "(y - ry ?r) * width ?r + (x - rx ?r) < width ?r * height ?r"
    using tile_index_inside(2) [OF assms] assms by (simp_all add: tile_index_def inside_def tile_ok_def Let_def)
  have bounds: "0 \<le> x - rx ?r" "x - rx ?r \<le> 2 ^ 31 - 1" "0 \<le> y - ry ?r" "y - ry ?r \<le> 2 ^ 31 - 1" "width ?r * height ?r \<le> 2 ^ 31 - 1"
    using assms by (simp_all add: inside_def tile_ok_def Let_def)
  have "int32_range (x - rx ?r)" "int32_range (y - ry ?r)" "int32_range ((y - ry ?r) * width ?r)"
    "int32_range (x - rx ?r + (y - ry ?r) * width ?r)"
    unfolding int32_range_def using rows bounds by linarith+
  then show ?thesis by (simp add: GetDataBufferIndex_def Let_def tile_index_def add.commute)
qed

lemma vec_at_inside:
  assumes "tile_ok t" and "inside (st_rect t) x y"
  shows "vec_at (st_buffer t) (tile_index (st_rect t) x y) = Inr (cell t x y)"
  using tile_index_inside(1,2) [OF assms] assms(1) by (simp add: vec_at_def cell_def tile_ok_def Let_def)

lemma tile_index_inj: "inside r x y \<Longrightarrow> inside r x' y' \<Longrightarrow> tile_index r x y = tile_index r x' y' \<Longrightarrow> x' = x \<and> y' = y"
  using tile_index_row [of r x y x' y' 1] by (auto simp: inside_def)

text \<open>The description of a sub-swath: both of its records agree, its steps and sizes make sense.\<close>

definition merge_ready :: "merge_op \<Rightarrow> int \<Rightarrow> bool" where
  "merge_ready m i \<longleftrightarrow>
     (\<exists>s info. mg_sub_swaths m i = Some s \<and> mg_infos m i = Some info \<and> number_of_samples info = num_of_samples s \<and>
        mi_first_pixel_time info = slr_time_to_first_pixel s \<and> good_step (mi_azimuth_time_interval info) \<and>
        1 \<le> number_of_samples info \<and> number_of_samples info \<le> 2 ^ 31 - 1 \<and>
        1 \<le> number_of_lines info \<and> number_of_lines info \<le> 2 ^ 31 - 1)"

lemma source_tile_ok:
  assumes "merge_source_tile e m name i region = Inr t" and "source_rectangle_of p r info = Inr region"
    and "inside r x y" "good_step (mp_delta p)" "good_step (mp_line_time_interval p)" "good_step (mi_azimuth_time_interval info)"
    and "1 \<le> number_of_samples info" "number_of_samples info \<le> 2 ^ 31 - 1" "1 \<le> number_of_lines info" "number_of_lines info \<le> 2 ^ 31 - 1"
  shows "tile_ok t \<and> st_rect t = region"
proof -
  have t: "st_rect t = region" "int32_range (width region * height region)" "0 \<le> width region * height region"
    "length (st_buffer t) = nat (width region * height region)"
    using assms(1) by (auto simp: merge_source_tile_def GetSourceTile_def GetSimpleDataBuffer_def bind_res_Inr_iff
        int_result_Inr_iff guard_Inr_iff)
  obtain x_0 x_max y_0 y_max where e: "mp_GetSampleIndexInSourceProduct p (rx r) (number_of_samples info) (mi_first_pixel_time info) = Inr x_0"
    "mp_GetSampleIndexInSourceProduct p (rx r + width r - 1) (number_of_samples info) (mi_first_pixel_time info) = Inr x_max"
    "GetLineIndexInSourceProduct p (ry r) info = Inr y_0" "GetLineIndexInSourceProduct p (ry r + height r - 1) info = Inr y_max"
    "region = mk_rect x_0 y_0 (x_max - x_0 + 1) (y_max - y_0 + 1)"
    using assms(2) by (auto simp: source_rectangle_of_def bind_res_Inr_iff int_result_Inr_iff)
  have "0 \<le> x_0" "x_max < number_of_samples info" "0 \<le> y_0" "y_max < number_of_lines info"
    using e(1-4) assms(7,9) by (auto simp: sample_index_moved line_index_moved bind_res_Inr_iff dest: cut_index_range)
  moreover obtain sx sy where "inside region sx sy"
    using source_rectangle_covers [OF assms(2-7,9)] by blast
  ultimately show ?thesis using t assms(8,10) unfolding e(5)
    by (auto simp: tile_ok_def Let_def inside_def mk_rect_def int32_range_def)
qed

text \<open>The pixel of a merged tile, nothing where no sub-swath covers it.\<close>

definition merged_value :: "merge_op \<Rightarrow> int \<Rightarrow> int \<Rightarrow> (int \<Rightarrow> soft_tile) \<Rightarrow> int \<Rightarrow> int \<Rightarrow> fp option \<Rightarrow> bool" where
  "merged_value m first_swath last_swath src x y v \<longleftrightarrow>
     (\<exists>i. mp_GetSubSwathIndex (mg_infos m) (mg_parameters m) x y first_swath last_swath = Inr i \<and>
        (if i = -1 then v = None
         else \<exists>s info sx sy. i \<in> {first_swath..last_swath} \<and> mg_sub_swaths m i = Some s \<and> mg_infos m i = Some info \<and>
                mp_GetSampleIndexInSourceProduct (mg_parameters m) x (num_of_samples s) (slr_time_to_first_pixel s) = Inr sx \<and>
                GetLineIndexInSourceProduct (mg_parameters m) y info = Inr sy \<and>
                inside (st_rect (src i)) sx sy \<and> v = Some (cell (src i) sx sy)))"

lemma pixel_value_ok:
  assumes "\<forall>i\<in>{first_swath..last_swath}. 0 \<le> i \<and> merge_ready m i \<and> int32_range (i - first_swath) \<and> tile_ok (src i) \<and>
      (\<exists>info. mg_infos m i = Some info \<and> source_rectangle_of (mg_parameters m) r info = Inr (st_rect (src i)))"
    and "good_step (mp_delta (mg_parameters m))" "good_step (mp_line_time_interval (mg_parameters m))" and "inside r x y"
  shows "\<exists>v. pixel_value m first_swath last_swath (map src [first_swath..last_swath]) y x = Inr v \<and>
    merged_value m first_swath last_swath src x y v"
proof -
  have "\<forall>i\<in>{first_swath..last_swath}. 0 \<le> i \<and> mg_infos m i \<noteq> None" using assms(1) by auto
  then obtain i where i: "mp_GetSubSwathIndex (mg_infos m) (mg_parameters m) x y first_swath last_swath = Inr i"
    "i = -1 \<or> i \<in> {first_swath..last_swath}"
    using mp_GetSubSwathIndex_result by meson
  show ?thesis
  proof (cases "i = -1")
    case True
    then show ?thesis using i by (auto simp: pixel_value_def merged_value_def Let_def)
  next
    case False
    then have r: "i \<in> {first_swath..last_swath}" using i(2) by simp
    obtain s info where s: "mg_sub_swaths m i = Some s" "mg_infos m i = Some info" "number_of_samples info = num_of_samples s"
      "mi_first_pixel_time info = slr_time_to_first_pixel s" "good_step (mi_azimuth_time_interval info)"
      "1 \<le> number_of_samples info" "1 \<le> number_of_lines info"
      "source_rectangle_of (mg_parameters m) r info = Inr (st_rect (src i))"
      using bspec [OF assms(1) r] by (auto simp: merge_ready_def)
    obtain sx sy where p: "mp_GetSampleIndexInSourceProduct (mg_parameters m) x (number_of_samples info) (mi_first_pixel_time info) = Inr sx"
      "GetLineIndexInSourceProduct (mg_parameters m) y info = Inr sy" "inside (st_rect (src i)) sx sy"
      using source_rectangle_covers [OF s(8) assms(4,2,3) s(5-7)] by blast
    have t: "tile_ok (src i)" "int32_range (i - first_swath)" "0 \<le> i" using assms(1) r by auto
    have "vec_at (map src [first_swath..last_swath]) (i - first_swath) = Inr (src i)" using r by (simp add: vec_at_def)
    then have "pixel_value m first_swath last_swath (map src [first_swath..last_swath]) y x = Inr (Some (cell (src i) sx sy))"
      using i(1) False s(1-4) p t GetDataBufferIndex_inside [OF t(1) p(3)] vec_at_inside [OF t(1) p(3)] tile_index_inside(1) [OF t(1) p(3)]
      by (simp add: pixel_value_def Let_def at_key_def)
    moreover have "merged_value m first_swath last_swath src x y (Some (cell (src i) sx sy))"
      using i(1) False r s(1-4) p by (auto simp: merged_value_def)
    ultimately show ?thesis by blast
  qed
qed

lemma merge_row:
  assumes "tile_ok tgt" and "\<forall>x\<in>set xs. inside (st_rect tgt) x y \<and>
      pixel_value m first_swath last_swath tiles y x = Inr (val x) "
    and "CalculateStride (st_rect tgt) y = Inr off" and "length cells = length (st_buffer tgt)"
  shows "\<exists>cells'. fold_res (merge_pixel m first_swath last_swath tiles off y) xs cells = Inr cells' \<and> length cells' = length cells \<and>
    (\<forall>x' y'. inside (st_rect tgt) x' y' \<longrightarrow> cells' ! nat (tile_index (st_rect tgt) x' y') =
       (case if y' = y \<and> x' \<in> set xs then val x' else None of Some v \<Rightarrow> v | None \<Rightarrow> cells ! nat (tile_index (st_rect tgt) x' y')))"
  using assms(2,4)
proof (induction xs arbitrary: cells)
  case Nil
  then show ?case by simp
next
  case (Cons x xs)
  let ?r = "st_rect tgt" and ?i = "\<lambda>x y. nat (tile_index (st_rect tgt) x y)"
  have in': "inside ?r x y" and pv: "pixel_value m first_swath last_swath tiles y x = Inr (val x)" using Cons.prems by simp_all
  note i = tile_index_inside [OF assms(1) in']
  have len: "length (st_buffer tgt) = nat (width ?r * height ?r)" and small: "width ?r * height ?r \<le> 2 ^ 31 - 1"
    using assms(1) by (simp_all add: tile_ok_def Let_def)
  have off: "x - off = tile_index ?r x y" using i(3) assms(3) by simp
  have rng: "int32_range (tile_index ?r x y)" using i(1,2) small by (simp add: int32_range_def)
  define cells1 where "cells1 = (case val x of None \<Rightarrow> cells | Some v \<Rightarrow> cells[?i x y := v])"
  have one: "merge_pixel m first_swath last_swath tiles off y x cells = Inr cells1"
    using pv off rng i(1,2) len Cons.prems(2) by (auto simp: merge_pixel_def cells1_def vec_put_def split: option.splits)
  have len1: "length cells1 = length cells" by (simp add: cells1_def split: option.splits)
  obtain cells' where rest: "fold_res (merge_pixel m first_swath last_swath tiles off y) xs cells1 = Inr cells'" "length cells' = length cells1"
    "\<And>x' y'. inside ?r x' y' \<Longrightarrow> cells' ! ?i x' y' = (case if y' = y \<and> x' \<in> set xs then val x' else None of Some v \<Rightarrow> v | None \<Rightarrow> cells1 ! ?i x' y')"
    using Cons.IH [of cells1] Cons.prems len1 by auto
  have upd: "cells1 ! ?i x' y' = (case if y' = y \<and> x' = x then val x' else None of Some v \<Rightarrow> v | None \<Rightarrow> cells ! ?i x' y')"
    if "inside ?r x' y'" for x' y'
  proof (cases "y' = y \<and> x' = x")
    case True
    then show ?thesis using i(1,2) len Cons.prems(2) by (auto simp: cells1_def split: option.splits)
  next
    case False
    then have "tile_index ?r x y \<noteq> tile_index ?r x' y'" using tile_index_inj [OF in' that] by auto
    then have "?i x y \<noteq> ?i x' y'" using i(1) tile_index_inside(1) [OF assms(1) that] by simp
    then show ?thesis using False by (auto simp: cells1_def split: option.splits)
  qed
  have "cells' ! ?i x' y' = (case if y' = y \<and> x' \<in> set (x # xs) then val x' else None of Some v \<Rightarrow> v | None \<Rightarrow> cells ! ?i x' y')"
    if "inside ?r x' y'" for x' y'
    using rest(3) [OF that] upd [OF that] by (auto split: option.splits)
  then show ?case using one rest(1,2) len1 by auto
qed

lemma merge_rows:
  assumes "tile_ok tgt" and "\<forall>y\<in>set ys. \<forall>x\<in>set xs. inside (st_rect tgt) x y \<and>
      pixel_value m first_swath last_swath tiles y x = Inr (val x y)"
    and "xs \<noteq> []" and "length cells = length (st_buffer tgt)"
  shows "\<exists>cells'. fold_res (\<lambda>y cells. bind_res (CalculateStride (st_rect tgt) y) (\<lambda>off.
        fold_res (merge_pixel m first_swath last_swath tiles off y) xs cells)) ys cells = Inr cells' \<and> length cells' = length cells \<and>
    (\<forall>x y. inside (st_rect tgt) x y \<longrightarrow> cells' ! nat (tile_index (st_rect tgt) x y) =
       (case if y \<in> set ys \<and> x \<in> set xs then val x y else None of Some v \<Rightarrow> v | None \<Rightarrow> cells ! nat (tile_index (st_rect tgt) x y)))"
  using assms(2,4)
proof (induction ys arbitrary: cells)
  case Nil
  then show ?case by simp
next
  case (Cons y ys)
  let ?r = "st_rect tgt" and ?i = "\<lambda>x y. nat (tile_index (st_rect tgt) x y)"
  have "inside ?r (hd xs) y" using Cons.prems(1) assms(3) by simp
  then obtain off where off: "CalculateStride ?r y = Inr off" using tile_index_inside(3) [OF assms(1)] by blast
  have "\<forall>x\<in>set xs. inside ?r x y \<and> pixel_value m first_swath last_swath tiles y x = Inr (val x y)" using Cons.prems(1) by simp
  from merge_row [OF assms(1) this off Cons.prems(2)]
  obtain cells1 where row: "fold_res (merge_pixel m first_swath last_swath tiles off y) xs cells = Inr cells1" "length cells1 = length cells"
    "\<And>x' y'. inside ?r x' y' \<Longrightarrow> cells1 ! ?i x' y' = (case if y' = y \<and> x' \<in> set xs then val x' y else None of Some v \<Rightarrow> v | None \<Rightarrow> cells ! ?i x' y')"
    by blast
  obtain cells' where rest: "fold_res (\<lambda>y cells. bind_res (CalculateStride (st_rect tgt) y) (\<lambda>off.
        fold_res (merge_pixel m first_swath last_swath tiles off y) xs cells)) ys cells1 = Inr cells'" "length cells' = length cells1"
    "\<And>x y. inside ?r x y \<Longrightarrow> cells' ! ?i x y = (case if y \<in> set ys \<and> x \<in> set xs then val x y else None of Some v \<Rightarrow> v | None \<Rightarrow> cells1 ! ?i x y)"
    using Cons.IH [of cells1] Cons.prems row(2) by auto
  have "cells' ! ?i x z = (case if z \<in> set (y # ys) \<and> x \<in> set xs then val x z else None of Some v \<Rightarrow> v | None \<Rightarrow> cells ! ?i x z)"
    if "inside ?r x z" for x z
    using rest(3) [OF that] row(3) [OF that] by (auto split: option.splits)
  then show ?case using off row(1,2) rest(1,2) by auto
qed

lemma GetSourceRectangles_nth:
  assumes "GetSourceRectangles infos p n first_swath last_swath r = Inr rs" and "i \<in> {first_swath..last_swath}"
  shows "vec_at rs (i - first_swath) = Inr (rs ! nat (i - first_swath)) \<and>
    bind_res (at_key infos i) (source_rectangle_of p r) = Inr (rs ! nat (i - first_swath))"
proof -
  have m: "map_res (\<lambda>i. bind_res (at_key infos i) (source_rectangle_of p r)) [first_swath..last_swath] = Inr rs"
    using assms(1) by (auto simp: GetSourceRectangles_def bind_res_Inr_iff guard_Inr_iff)
  have len: "length rs = nat (last_swath - first_swath + 1)" using map_res_Inr_length [OF m] by simp
  have k: "nat (i - first_swath) < length [first_swath..last_swath]" using assms(2) by simp
  have "[first_swath..last_swath] ! nat (i - first_swath) = i" using assms(2) by (simp add: nth_upto)
  then show ?thesis using map_res_Inr_nth [OF m k] len assms(2) by (simp add: vec_at_def)
qed

text \<open>
  C36. Merging a tile that reaches over several sub-swaths: when the source rectangles were computed and the source tiles
  read, the operator returns. Every pixel of the tile that a sub-swath covers gets the value of the source tile of the
  sub-swath its lookup chose, at the sample and line its lookups computed, and these lie inside that source tile; the
  other pixels are left as they were. So no lookup of a pixel ever misses its source tile and no write leaves the target.
  The steps of the grids must be finite and above zero and the sub-swaths not empty.
\<close>

theorem ComputeMultipleSubSwathFloat_fills:
  assumes "tile_ok tgt" and "good_step (mp_delta (mg_parameters m))" "good_step (mp_line_time_interval (mg_parameters m))"
    and "\<forall>i\<in>{first_swath..last_swath}. merge_ready m i" and "0 \<le> first_swath" "last_swath \<le> 2 ^ 31 - 1"
    and "GetSourceRectangles (mg_infos m) (mg_parameters m) (last_swath - first_swath + 1) first_swath last_swath (st_rect tgt) = Inr rs"
    and "\<forall>i\<in>{first_swath..last_swath}. merge_source_tile e m name i (rs ! nat (i - first_swath)) = Inr (src i)"
  shows "\<exists>tgt' val. ComputeMultipleSubSwathFloat e m (st_rect tgt) first_swath last_swath rs name tgt = Inr tgt' \<and> st_rect tgt' = st_rect tgt \<and>
    (\<forall>x y. inside (st_rect tgt) x y \<longrightarrow> merged_value m first_swath last_swath src x y (val x y) \<and>
       cell tgt' x y = (case val x y of Some v \<Rightarrow> v | None \<Rightarrow> cell tgt x y))"
proof -
  let ?r = "st_rect tgt" and ?p = "mg_parameters m"
  let ?tiles = "map src [first_swath..last_swath]"
  let ?xs = "[rx ?r..rx ?r + width ?r - 1]" and ?ys = "[ry ?r..ry ?r + height ?r - 1]"
  have r: "0 < width ?r" "0 < height ?r" "int32_range (rx ?r + width ?r)" "int32_range (ry ?r + height ?r)"
    using assms(1) by (simp_all add: tile_ok_def Let_def int32_range_def)
  have corner: "inside ?r (rx ?r) (ry ?r)" using r by (simp add: inside_def)
  have ready: "0 \<le> i \<and> merge_ready m i \<and> int32_range (i - first_swath) \<and> tile_ok (src i) \<and>
      (\<exists>info. mg_infos m i = Some info \<and> source_rectangle_of ?p ?r info = Inr (st_rect (src i)))"
    if i: "i \<in> {first_swath..last_swath}" for i
  proof -
    have mr: "merge_ready m i" using assms(4) i by blast
    obtain s info where s: "mg_infos m i = Some info" "good_step (mi_azimuth_time_interval info)"
      "1 \<le> number_of_samples info" "number_of_samples info \<le> 2 ^ 31 - 1" "1 \<le> number_of_lines info" "number_of_lines info \<le> 2 ^ 31 - 1"
      using mr unfolding merge_ready_def by blast
    have "source_rectangle_of ?p ?r info = Inr (rs ! nat (i - first_swath))"
      using GetSourceRectangles_nth [OF assms(7) i] s(1) i assms(5) by (simp add: at_key_def)
    then have "tile_ok (src i) \<and> st_rect (src i) = rs ! nat (i - first_swath)" "source_rectangle_of ?p ?r info = Inr (rs ! nat (i - first_swath))"
      using source_tile_ok [OF assms(8) [rule_format, OF i] _ corner assms(2,3) s(2-6)] by blast+
    then show ?thesis using mr s(1) i assms(5,6) by (auto simp: int32_range_def)
  qed
  have tiles: "map_res (\<lambda>i. bind_res (vec_at rs (i - first_swath)) (merge_source_tile e m name i)) [first_swath..last_swath] = Inr ?tiles"
    by (rule map_res_total) (use assms(8) GetSourceRectangles_nth [OF assms(7)] in simp)
  define val where "val x y = (SOME v. pixel_value m first_swath last_swath ?tiles y x = Inr v \<and>
      merged_value m first_swath last_swath src x y v)" for x y
  have val: "pixel_value m first_swath last_swath ?tiles y x = Inr (val x y) \<and> merged_value m first_swath last_swath src x y (val x y)"
    if "inside ?r x y" for x y
    unfolding val_def by (rule someI_ex, rule pixel_value_ok [OF _ assms(2,3) that]) (use ready in blast)
  have all: "\<forall>y\<in>set ?ys. \<forall>x\<in>set ?xs. inside ?r x y \<and> pixel_value m first_swath last_swath ?tiles y x = Inr (val x y)"
    using val by (auto simp: inside_def)
  have "?xs \<noteq> []" using r(1) by simp
  from merge_rows [OF assms(1) all this refl]
  obtain cells where c: "merge_pixels m first_swath last_swath ?tiles ?r ?r (st_buffer tgt) = Inr cells"
    "\<And>x y. inside ?r x y \<Longrightarrow> cells ! nat (tile_index ?r x y) =
       (case if y \<in> set ?ys \<and> x \<in> set ?xs then val x y else None of Some v \<Rightarrow> v | None \<Rightarrow> st_buffer tgt ! nat (tile_index ?r x y))"
    unfolding merge_pixels_def by blast
  have "ComputeMultipleSubSwathFloat e m ?r first_swath last_swath rs name tgt = Inr (tgt\<lparr>st_buffer := cells\<rparr>)"
    using tiles c(1) r(3,4) by (simp add: ComputeMultipleSubSwathFloat_def)
  moreover have "cell (tgt\<lparr>st_buffer := cells\<rparr>) x y = (case val x y of Some v \<Rightarrow> v | None \<Rightarrow> cell tgt x y)" if "inside ?r x y" for x y
    using c(2) [OF that] that by (cases "val x y") (simp_all add: cell_def inside_def)
  ultimately show ?thesis using val by (intro exI [of _ "tgt\<lparr>st_buffer := cells\<rparr>"] exI [of _ val]) simp
qed

section \<open>The two-way map of the products\<close>

lemma swath_number_range: "swath_number e h tags = Inr s \<Longrightarrow> 0 \<le> s \<and> s < 2 ^ 64"
  by (auto simp: swath_number_def bind_res_Inr_iff split: if_splits)

lemma consecutive_upto:
  "sorted xs \<Longrightarrow> consecutive xs \<Longrightarrow> \<forall>x\<in>set xs. 0 \<le> x \<and> x < 2 ^ 64 \<Longrightarrow> xs \<noteq> [] \<Longrightarrow> xs = [hd xs..hd xs + int (length xs) - 1]"
proof (induction xs rule: consecutive.induct)
  case (1 a b xs)
  have "b = a + 1" using 1(2-4) by (simp add: zmod_trivial_iff)
  moreover have "b # xs = [b..b + int (length (b # xs)) - 1]" using 1 by simp
  ultimately show ?case by (simp add: upto_rec1 [of a])
qed simp_all

lemma check_same_product_Inr:
  "check_same_product e h name mode bands_0 (p, tags, bands) (numbers, ps) = Inr q \<longleftrightarrow>
   (\<exists>s. GetAttributeString e tags PRODUCT h = Inr name \<and> GetAttributeString e tags ACQUISITION_MODE h = Inr mode \<and>
      bands = bands_0 \<and> swath_number e h tags = Inr s \<and> q = (numbers @ [s], bimap_insert (p, s) ps))"
  by (auto simp: check_same_product_def bind_res_Inr_iff guard_Inr_iff)

lemma check_products:
  assumes "fold_res (check_same_product e h name mode bands_0) (zip [n..n + int (length rest) - 1] rest) (numbers, ps) = Inr (numbers', ps')"
    and "distinct numbers \<longrightarrow> map fst ps = [0..n - 1] \<and> map snd ps = numbers" and "0 \<le> n"
    and "\<forall>s\<in>set numbers. 0 \<le> s \<and> s < 2 ^ 64"
  shows "(distinct numbers' \<longrightarrow> map fst ps' = [0..n + int (length rest) - 1] \<and> map snd ps' = numbers') \<and>
    length numbers' = length numbers + length rest \<and> (\<forall>s\<in>set numbers'. 0 \<le> s \<and> s < 2 ^ 64) \<and>
    (\<forall>(tags, bands)\<in>set rest. GetAttributeString e tags PRODUCT h = Inr name \<and> GetAttributeString e tags ACQUISITION_MODE h = Inr mode \<and>
       bands = bands_0)"
  using assms
proof (induction rest arbitrary: n numbers ps)
  case Nil
  then show ?case by simp
next
  case (Cons x rest)
  obtain tags bands where x: "x = (tags, bands)" by fastforce
  have js: "[n..n + int (length (x # rest)) - 1] = n # [n + 1..n + 1 + int (length rest) - 1]"
    using Cons.prems(3) by (simp add: upto_rec1)
  obtain s where s: "GetAttributeString e tags PRODUCT h = Inr name" "GetAttributeString e tags ACQUISITION_MODE h = Inr mode" "bands = bands_0"
    "swath_number e h tags = Inr s"
    and rest: "fold_res (check_same_product e h name mode bands_0) (zip [n + 1..n + 1 + int (length rest) - 1] rest)
       (numbers @ [s], bimap_insert (n, s) ps) = Inr (numbers', ps')"
    using Cons.prems(1) [unfolded js] by (auto simp: x bind_res_Inr_iff check_same_product_Inr)
  have "distinct (numbers @ [s]) \<longrightarrow> map fst (bimap_insert (n, s) ps) = [0..n + 1 - 1] \<and> map snd (bimap_insert (n, s) ps) = numbers @ [s]"
  proof
    assume d: "distinct (numbers @ [s])"
    then have m: "map fst ps = [0..n - 1]" "map snd ps = numbers" using Cons.prems(2) by simp_all
    then have "set (map fst ps) = {0..n - 1}" "set (map snd ps) = set numbers" by simp_all
    then have "bimap_insert (n, s) ps = ps @ [(n, s)]" using d by (auto simp: bimap_insert_def simp del: set_map)
    then show "map fst (bimap_insert (n, s) ps) = [0..n + 1 - 1] \<and> map snd (bimap_insert (n, s) ps) = numbers @ [s]"
      using m Cons.prems(3) upto_rec2 [of 0 n] by simp
  qed
  note step = this
  have nonneg: "0 \<le> n + 1" "\<forall>t\<in>set (numbers @ [s]). 0 \<le> t \<and> t < 2 ^ 64"
    using Cons.prems(3,4) swath_number_range [OF s(4)] by simp_all
  have ih: "(distinct numbers' \<longrightarrow> map fst ps' = [0..n + 1 + int (length rest) - 1] \<and> map snd ps' = numbers') \<and>
    length numbers' = length (numbers @ [s]) + length rest \<and> (\<forall>s\<in>set numbers'. 0 \<le> s \<and> s < 2 ^ 64) \<and>
    (\<forall>(tags, bands)\<in>set rest. GetAttributeString e tags PRODUCT h = Inr name \<and> GetAttributeString e tags ACQUISITION_MODE h = Inr mode \<and>
       bands = bands_0)"
    by (rule Cons.IH [OF rest step nonneg])
  have n: "n + 1 + int (length rest) - 1 = n + int (length (x # rest)) - 1" by simp
  show ?case using ih [unfolded n] s(1-3) by (simp add: x)
qed

lemma vec_at_Cons_0: "vec_at (x # xs) 0 = Inr x"
  by (simp add: vec_at_def)

lemma CheckAreSubSwathsFromSameProduct_pairs:
  assumes "CheckAreSubSwathsFromSameProduct e h sources p = Inr (q, ps)"
  shows "number_of_subswaths q = int (length sources) \<and> map fst ps = [0..int (length sources) - 1] \<and>
    (\<forall>t\<in>set (map snd ps). 0 \<le> t \<and> t < 2 ^ 64) \<and>
    sort (map snd ps) = [reference_sub_swath_index q..reference_sub_swath_index q + int (length sources) - 1] \<and>
    (\<exists>name bands_0. \<forall>(tags, bands)\<in>set sources. GetAttributeString e tags PRODUCT h = Inr name \<and>
       GetAttributeString e tags ACQUISITION_MODE h = Inr (mp_acquisition_mode q) \<and> bands = bands_0)"
proof -
  obtain tags_0 bands_0 rest where sources: "sources = (tags_0, bands_0) # rest"
    using assms by (cases sources) (auto simp: CheckAreSubSwathsFromSameProduct_def vec_at_def)
  obtain name s numbers ps' where r: "GetAttributeString e tags_0 PRODUCT h = Inr name"
    "GetAttributeString e tags_0 ACQUISITION_MODE h = Inr (mp_acquisition_mode q)" "swath_number e h tags_0 = Inr s"
    "fold_res (check_same_product e h name (mp_acquisition_mode q) bands_0) (zip [1..1 + int (length rest) - 1] rest)
       ([s], bimap_insert (0, s) []) = Inr (numbers, ps)"
    "vec_at (sort numbers) 0 = Inr (reference_sub_swath_index q)" "consecutive (sort numbers)"
    "number_of_subswaths q = int (length sources)"
    using assms by (auto simp: sources CheckAreSubSwathsFromSameProduct_def bind_res_Inr_iff guard_Inr_iff Let_def vec_at_Cons_0)
  have c: "(distinct numbers \<longrightarrow> map fst ps = [0..1 + int (length rest) - 1] \<and> map snd ps = numbers) \<and>
    length numbers = length [s] + length rest \<and> (\<forall>s\<in>set numbers. 0 \<le> s \<and> s < 2 ^ 64) \<and>
    (\<forall>(tags, bands)\<in>set rest. GetAttributeString e tags PRODUCT h = Inr name \<and>
       GetAttributeString e tags ACQUISITION_MODE h = Inr (mp_acquisition_mode q) \<and> bands = bands_0)"
    by (rule check_products [OF r(4)]) (use swath_number_range [OF r(3)] in \<open>simp_all add: bimap_insert_def\<close>)
  have ne: "numbers \<noteq> []" using c by auto
  then have ne': "sort numbers \<noteq> []" by (metis length_0_conv length_sort)
  have "sort numbers = [hd (sort numbers)..hd (sort numbers) + int (length (sort numbers)) - 1]"
    by (rule consecutive_upto) (use r(6) c ne' in simp_all)
  moreover have "hd (sort numbers) = reference_sub_swath_index q"
    using r(5) ne by (cases "sort numbers") (auto simp: vec_at_def)
  ultimately have sorted: "sort numbers = [reference_sub_swath_index q..reference_sub_swath_index q + int (length sources) - 1]"
    using c sources by simp
  have "distinct (sort numbers)" unfolding sorted by simp
  then have "distinct numbers" by simp
  then show ?thesis using c r(1,2,7) sorted by (auto simp: sources)
qed

text \<open>
  C37. Products that pass the check are adjacent sub-swaths of one product: they have one product name, acquisition mode
  and number of bands, and the two-way map pairs their positions \<open>0..n - 1\<close> one to one with the sub-swath numbers from
  the reference on, without a gap.
\<close>

theorem CheckAreSubSwathsFromSameProduct_adjacent:
  assumes "CheckAreSubSwathsFromSameProduct e h sources p = Inr (q, ps)"
  shows "number_of_subswaths q = int (length sources) \<and> map fst ps = [0..int (length sources) - 1] \<and>
    sort (map snd ps) = [reference_sub_swath_index q..reference_sub_swath_index q + int (length sources) - 1] \<and>
    (\<exists>name bands_0. \<forall>(tags, bands)\<in>set sources. GetAttributeString e tags PRODUCT h = Inr name \<and>
       GetAttributeString e tags ACQUISITION_MODE h = Inr (mp_acquisition_mode q) \<and> bands = bands_0)"
  using CheckAreSubSwathsFromSameProduct_pairs [OF assms] by blast

section \<open>An example\<close>

definition left_part :: sub_swath_info where
  "left_part = four_lines\<lparr>subswath_name := ''IW1'', first_valid_line_time := Fin 0\<rparr>"

definition right_part :: sub_swath_info where
  "right_part = left_part\<lparr>subswath_name := ''IW2'', slr_time_to_first_pixel := Fin 1, slr_time_to_first_valid_pixel := Fin 1,
     slr_time_to_last_valid_pixel := Fin 3\<rparr>"

definition two_parts :: merge_op where
  "two_parts =
     \<lparr>mg_parameters =
        \<lparr>number_of_subswaths = 2, mp_acquisition_mode = ''IW'', mp_product_type = ''SLC'', reference_sub_swath_index = 1,
         mp_first_line_time = Fin 0, mp_last_line_time = Fin 2, mp_line_time_interval = Fin 1, mp_first_pixel_time = Fin 0,
         mp_last_pixel_time = Fin 3, mp_delta = Fin 1, mp_height = 2, mp_width = 3\<rparr>,
      mg_infos = [0 \<mapsto> GetSubSwathMergeInfoFromSentinel1SubSwathInfo left_part, 1 \<mapsto> GetSubSwathMergeInfoFromSentinel1SubSwathInfo right_part],
      mg_sub_swaths = [0 \<mapsto> left_part, 1 \<mapsto> right_part], mg_products = [grid_source, grid_source], mg_numbers = [(0, 1), (1, 2)],
      mg_polarisations = [''VV'']\<rparr>"

lemmas part_defs = left_part_def right_part_def four_lines_def SubSwathInfo_def GetSubSwathMergeInfoFromSentinel1SubSwathInfo_def

lemma two_parts_grid:
  "mp_sample_time (mg_parameters two_parts) 1 = Fin 1" "mp_sample_time (mg_parameters two_parts) 3 = Fin 3"
  "mp_line_time (mg_parameters two_parts) 0 = Fin 0"
  "mg_infos two_parts 0 = Some (GetSubSwathMergeInfoFromSentinel1SubSwathInfo left_part)"
  "mg_infos two_parts 1 = Some (GetSubSwathMergeInfoFromSentinel1SubSwathInfo right_part)"
  "mg_sub_swaths two_parts 0 = Some left_part" "mg_sub_swaths two_parts 1 = Some right_part"
  "mp_delta (mg_parameters two_parts) = Fin 1" "mp_line_time_interval (mg_parameters two_parts) = Fin 1"
  by (simp_all add: two_parts_def mp_sample_time_def mp_line_time_def fp_of_int_def small_integers_f64)

lemma two_parts_source:
  "GetSourceRectangles (mg_infos two_parts) (mg_parameters two_parts) 2 0 1 (mk_rect 1 0 3 1) = Inr [mk_rect 1 0 2 1, mk_rect 0 0 3 1]"
  "merge_source_tile sample_env two_parts ''i_VV'' 0 (mk_rect 1 0 2 1) = Inr \<lparr>st_rect = mk_rect 1 0 2 1, st_buffer = [Fin 0, Fin 1]\<rparr>"
  "merge_source_tile sample_env two_parts ''i_VV'' 1 (mk_rect 0 0 3 1) = Inr \<lparr>st_rect = mk_rect 0 0 3 1, st_buffer = [Fin 0, Fin 1, Fin 2]\<rparr>"
proof -
  have f: "\<lfloor>7 / 2 :: rat\<rfloor> = 3" by (simp add: floor_unique)
  have h: "fp_of_rat f64 (7 / 2) = Fin (7 / 2)" using f64_half [of 7] by simp
  show "GetSourceRectangles (mg_infos two_parts) (mg_parameters two_parts) 2 0 1 (mk_rect 1 0 3 1) = Inr [mk_rect 1 0 2 1, mk_rect 0 0 3 1]"
    by (simp add: GetSourceRectangles_def upto.simps at_key_def two_parts_grid source_rectangle_of_def mk_rect_def
        mp_GetSampleIndexInSourceProduct_def GetLineIndexInSourceProduct_def cut_index_def int_result_def int32_range_def
        part_defs fsub_def small_integers_f64 small_halves_f64 h f floor_halves fp_to_int32_def rat_trunc_def)
qed (code_simp)+

lemma ComputeMultipleSubSwathFloat_fills_witness:
  "\<exists>tgt'. ComputeMultipleSubSwathFloat sample_env two_parts (mk_rect 1 0 3 1) 0 1 [mk_rect 1 0 2 1, mk_rect 0 0 3 1] ''i_VV''
       \<lparr>st_rect = mk_rect 1 0 3 1, st_buffer = [Fin 7, Fin 7, Fin 7]\<rparr> = Inr tgt' \<and> cell tgt' 3 0 = Fin 2"
proof -
  let ?tgt = "\<lparr>st_rect = mk_rect 1 0 3 1, st_buffer = [Fin 7, Fin 7, Fin 7]\<rparr>"
  let ?src = "\<lambda>i :: int. if i = 0 then \<lparr>st_rect = mk_rect 1 0 2 1, st_buffer = [Fin 0, Fin 1]\<rparr> else \<lparr>st_rect = mk_rect 0 0 3 1, st_buffer = [Fin 0, Fin 1, Fin (2 :: rat)]\<rparr>"
  have ok: "tile_ok ?tgt" by code_simp
  have steps: "good_step (mp_delta (mg_parameters two_parts))" "good_step (mp_line_time_interval (mg_parameters two_parts))"
    by (simp_all add: good_step_def two_parts_grid)
  have range: "i = 0 \<or> i = 1" if "i \<in> {0..1}" for i :: int using that by auto
  have ready: "\<forall>i\<in>{0..1}. merge_ready two_parts i"
    using range by (auto simp: merge_ready_def two_parts_grid part_defs good_step_def dest!: range)
  have sources: "\<forall>i\<in>{0..1}. merge_source_tile sample_env two_parts ''i_VV'' i ([mk_rect 1 0 2 1, mk_rect 0 0 3 1] ! nat (i - 0)) = Inr (?src i)"
    using two_parts_source(2,3) by (auto dest!: range)
  obtain tgt' val where t: "ComputeMultipleSubSwathFloat sample_env two_parts (st_rect ?tgt) 0 1 [mk_rect 1 0 2 1, mk_rect 0 0 3 1] ''i_VV'' ?tgt = Inr tgt'"
    "\<And>x y. inside (st_rect ?tgt) x y \<Longrightarrow> merged_value two_parts 0 1 ?src x y (val x y) \<and>
       cell tgt' x y = (case val x y of Some v \<Rightarrow> v | None \<Rightarrow> cell ?tgt x y)"
    using ComputeMultipleSubSwathFloat_fills [OF ok steps ready _ _ _ sources] two_parts_source(1) by auto
  have in': "inside (st_rect ?tgt) 3 0" by (simp add: inside_def mk_rect_def)
  have i: "mp_GetSubSwathIndex (mg_infos two_parts) (mg_parameters two_parts) 3 0 0 1 = Inr 1"
    by (simp add: mp_GetSubSwathIndex_def upto.simps at_key_def two_parts_grid mi_covers_def part_defs)
  have sx: "mp_GetSampleIndexInSourceProduct (mg_parameters two_parts) 3 (num_of_samples right_part) (slr_time_to_first_pixel right_part) = Inr 2"
    by (simp add: mp_GetSampleIndexInSourceProduct_def two_parts_grid part_defs fsub_def small_integers_f64 small_halves_f64 floor_halves
        fp_to_int32_def rat_trunc_def cut_index_def int_result_def int32_range_def)
  have sy: "GetLineIndexInSourceProduct (mg_parameters two_parts) 0 (GetSubSwathMergeInfoFromSentinel1SubSwathInfo right_part) = Inr 0"
    by (simp add: GetLineIndexInSourceProduct_def two_parts_grid part_defs fsub_def small_integers_f64 small_halves_f64 floor_halves
        fp_to_int32_def rat_trunc_def cut_index_def int_result_def int32_range_def)
  have "val 3 0 = Some (cell (?src 1) 2 0)"
    using t(2) [OF in'] i sx sy by (auto simp: merged_value_def two_parts_grid)
  moreover have "cell (?src 1) 2 0 = Fin 2" by (simp add: cell_def tile_index_def mk_rect_def)
  ultimately show ?thesis using t(1) t(2) [OF in'] by auto
qed

definition part_tags :: "string \<Rightarrow> meta_tree" where
  "part_tags name =
     Tree ABSTRACT_METADATA_ROOT [(PRODUCT, ''S1A''), (ACQUISITION_MODE, ''IW''), (PRODUCT_TYPE, ''SLC''), (swath_tag, name),
        (FIRST_VALID_PIXEL, ''0''), (LAST_VALID_PIXEL, ''0''), (SLR_TIME_TO_FIRST_VALID_PIXEL, ''0''),
        (SLR_TIME_TO_LAST_VALID_PIXEL, ''0''), (FIRST_VALID_LINE_TIME, ''0''), (LAST_VALID_LINE_TIME, ''0'')] []"

lemma part_tags_texts:
  "tree_text (ieq sample_env) (part_tags name) PRODUCT = Some ''S1A''"
  "tree_text (ieq sample_env) (part_tags name) ACQUISITION_MODE = Some ''IW''"
  "tree_text (ieq sample_env) (part_tags name) PRODUCT_TYPE = Some ''SLC''"
  "tree_text (ieq sample_env) (part_tags name) swath_tag = Some name"
  "tree_text (ieq sample_env) (part_tags name) FIRST_VALID_PIXEL = Some ''0''"
  "tree_text (ieq sample_env) (part_tags name) LAST_VALID_PIXEL = Some ''0''"
  "tree_text (ieq sample_env) (part_tags name) SLR_TIME_TO_FIRST_VALID_PIXEL = Some ''0''"
  "tree_text (ieq sample_env) (part_tags name) SLR_TIME_TO_LAST_VALID_PIXEL = Some ''0''"
  "tree_text (ieq sample_env) (part_tags name) FIRST_VALID_LINE_TIME = Some ''0''"
  "tree_text (ieq sample_env) (part_tags name) LAST_VALID_LINE_TIME = Some ''0''"
  by (simp_all add: part_tags_def look)

lemma part_tags_read:
  assumes "tree_at h k (part_tags name)"
  shows "GetAttributeString sample_env k PRODUCT h = Inr ''S1A''" "GetAttributeString sample_env k ACQUISITION_MODE h = Inr ''IW''"
    "GetAttributeString sample_env k PRODUCT_TYPE h = Inr ''SLC''" "GetAttributeString sample_env k swath_tag h = Inr name"
proof -
  have "PRODUCT \<noteq> []" "ACQUISITION_MODE \<noteq> []" "PRODUCT_TYPE \<noteq> []" "swath_tag \<noteq> []" by (simp_all add: tag_defs)
  note read = this [THEN tree_GetAttributeString(1) [OF assms], of sample_env]
  show "GetAttributeString sample_env k PRODUCT h = Inr ''S1A''" "GetAttributeString sample_env k ACQUISITION_MODE h = Inr ''IW''"
    "GetAttributeString sample_env k PRODUCT_TYPE h = Inr ''SLC''" "GetAttributeString sample_env k swath_tag h = Inr name"
    by (simp_all add: read part_tags_texts)
qed

lemma two_products:
  obtains h k2 k1 q ps where "tree_at h k2 (part_tags ''IW2'')" "tree_at h k1 (part_tags ''IW1'')"
    "CheckAreSubSwathsFromSameProduct sample_env h [(k2, 4), (k1, 4)] (mg_parameters two_parts) = Inr (q, [(0, 2), (1, 1)])"
    "reference_sub_swath_index q = 1"
proof -
  obtain ks h where "lay_all [part_tags ''IW2'', part_tags ''IW1''] \<lparr>nodes = [], datas = []\<rparr> = (ks, h)" by fastforce
  then have "trees_at h ks [part_tags ''IW2'', part_tags ''IW1'']" using lay_at(2) by blast
  then obtain k2 k1 where k: "tree_at h k2 (part_tags ''IW2'')" "tree_at h k1 (part_tags ''IW1'')"
    by (auto simp: trees_at_list list_all2_Cons2)
  have n: "GetSubSwathIndexFromName ''IW2'' = Inr 2" "GetSubSwathIndexFromName ''IW1'' = Inr 1" by code_simp+
  have "swath_number sample_env h k2 = Inr 2" "swath_number sample_env h k1 = Inr 1"
    by (simp_all add: swath_number_def part_tags_read [OF k(1)] part_tags_read [OF k(2)] n)
  then obtain q where "CheckAreSubSwathsFromSameProduct sample_env h [(k2, 4), (k1, 4)] (mg_parameters two_parts) = Inr (q, [(0, 2), (1, 1)])"
    "reference_sub_swath_index q = 1"
    by (simp add: CheckAreSubSwathsFromSameProduct_def vec_at_Cons_0 part_tags_read [OF k(1)] part_tags_read [OF k(2)] upto.simps
        check_same_product_def bimap_insert_def Let_def)
  then show ?thesis using that k by blast
qed

lemma CheckAreSubSwathsFromSameProduct_adjacent_witness:
  "\<exists>h sources q ps. CheckAreSubSwathsFromSameProduct sample_env h sources (mg_parameters two_parts) = Inr (q, ps) \<and>
     length sources = 2 \<and> map fst ps = [0, 1] \<and> sort (map snd ps) = [1, 2]"
proof -
  obtain h k2 k1 q ps where q: "CheckAreSubSwathsFromSameProduct sample_env h [(k2, 4), (k1, 4)] (mg_parameters two_parts) = Inr (q, ps)"
    "reference_sub_swath_index q = 1"
    using two_products by metis
  then show ?thesis
    using CheckAreSubSwathsFromSameProduct_adjacent [OF q(1)]
    by (intro exI [of _ h] exI [of _ "[(k2, 4), (k1, 4)]"] exI [of _ q] exI [of _ ps]) (simp add: upto.simps)
qed

lemma take_sub_swath_agree:
  assumes "take_sub_swath e h (p, tags, u) m = Inr m'"
    and "mg_infos m = map_option GetSubSwathMergeInfoFromSentinel1SubSwathInfo \<circ> mg_sub_swaths m"
    and "number_of_product (mg_numbers m) p = Inr number"
    and "mg_sub_swaths m ((number - reference_sub_swath_index (mg_parameters m)) mod 2 ^ 64) = None"
  shows "mg_infos m' = map_option GetSubSwathMergeInfoFromSentinel1SubSwathInfo \<circ> mg_sub_swaths m' \<and>
    dom (mg_sub_swaths m') = insert ((number - reference_sub_swath_index (mg_parameters m)) mod 2 ^ 64) (dom (mg_sub_swaths m)) \<and>
    mg_numbers m' = mg_numbers m \<and> mg_parameters m' = mg_parameters m"
  using assms by (auto simp: take_sub_swath_def bind_res_Inr_iff Let_def try_emplace_def fun_eq_iff)

lemma take_sub_swaths:
  assumes "fold_res (take_sub_swath e h) xs m = Inr m'"
    and "mg_infos m = map_option GetSubSwathMergeInfoFromSentinel1SubSwathInfo \<circ> mg_sub_swaths m"
    and "\<forall>(p, tags, u)\<in>set xs. number_of_product (mg_numbers m) p = Inr (reference_sub_swath_index (mg_parameters m) + f p) \<and>
       0 \<le> f p \<and> f p < 2 ^ 64 \<and> f p \<notin> dom (mg_sub_swaths m)"
    and "distinct (map (f \<circ> fst) xs)"
  shows "mg_infos m' = map_option GetSubSwathMergeInfoFromSentinel1SubSwathInfo \<circ> mg_sub_swaths m' \<and>
    dom (mg_sub_swaths m') = dom (mg_sub_swaths m) \<union> f ` fst ` set xs"
  using assms
proof (induction xs arbitrary: m)
  case Nil
  then show ?case by simp
next
  case (Cons x xs)
  obtain p tags u where x: "x = (p, tags, u)" by (cases x) auto
  obtain m1 where m1: "take_sub_swath e h (p, tags, u) m = Inr m1" "fold_res (take_sub_swath e h) xs m1 = Inr m'"
    using Cons.prems(1) by (auto simp: x bind_res_Inr_iff)
  have f: "number_of_product (mg_numbers m) p = Inr (reference_sub_swath_index (mg_parameters m) + f p)" "0 \<le> f p" "f p < 2 ^ 64"
    "f p \<notin> dom (mg_sub_swaths m)"
    using Cons.prems(3) by (simp_all add: x)
  have i: "(reference_sub_swath_index (mg_parameters m) + f p - reference_sub_swath_index (mg_parameters m)) mod 2 ^ 64 = f p"
    using f(2,3) by simp
  have free: "mg_sub_swaths m ((reference_sub_swath_index (mg_parameters m) + f p - reference_sub_swath_index (mg_parameters m)) mod 2 ^ 64) = None"
    unfolding i using f(4) by (simp add: domIff)
  note a = take_sub_swath_agree [OF m1(1) Cons.prems(2) f(1) free, unfolded i]
  have "\<forall>(p, tags, u)\<in>set xs. number_of_product (mg_numbers m1) p = Inr (reference_sub_swath_index (mg_parameters m1) + f p) \<and>
       0 \<le> f p \<and> f p < 2 ^ 64 \<and> f p \<notin> dom (mg_sub_swaths m1)"
    using Cons.prems(3,4) a by (auto simp: x image_iff)
  from Cons.IH [OF m1(2) _ this] show ?case using a Cons.prems(4) by (auto simp: x)
qed

lemma number_of_product_pair:
  "distinct (map fst ps) \<Longrightarrow> (p, s) \<in> set ps \<Longrightarrow> number_of_product ps p = Inr s"
  by (induction ps) (auto simp: number_of_product_def image_iff split: option.splits)

text \<open>
  C38. The check and the reading of the sub-swaths fit together: when the products pass the check and their sub-swaths are
  read into empty maps, the maps have exactly the positions \<open>0..n - 1\<close>, one for each product, that the computations of
  the operator look up, and the merge information of every position is that of the updated sub-swath.
\<close>

theorem merge_positions_complete:
  assumes "CheckAreSubSwathsFromSameProduct e h (zip tags bands) p = Inr (q, ps)" and "length bands = length tags" "length us = length tags"
    and "UpdateSubSwathParameters e h (zip tags us)
           \<lparr>mg_parameters = q, mg_infos = Map.empty, mg_sub_swaths = Map.empty, mg_products = products, mg_numbers = ps,
            mg_polarisations = pols\<rparr> = Inr m"
  shows "dom (mg_sub_swaths m) = {0..int (length tags) - 1} \<and>
    mg_infos m = map_option GetSubSwathMergeInfoFromSentinel1SubSwathInfo \<circ> mg_sub_swaths m"
proof -
  let ?m = "\<lparr>mg_parameters = q, mg_infos = Map.empty, mg_sub_swaths = Map.empty, mg_products = products, mg_numbers = ps,
            mg_polarisations = pols\<rparr>"
  let ?n = "length tags" and ?ref = "reference_sub_swath_index q"
  let ?xs = "zip [0..int ?n - 1] (zip tags us)"
  define f where "f p = snd (ps ! nat p) - ?ref" for p
  have c: "map fst ps = [0..int ?n - 1]" "\<forall>t\<in>set (map snd ps). 0 \<le> t \<and> t < 2 ^ 64"
    "sort (map snd ps) = [?ref..?ref + int ?n - 1]"
    using CheckAreSubSwathsFromSameProduct_pairs [OF assms(1)] assms(2) by simp_all
  have run: "fold_res (take_sub_swath e h) ?xs ?m = Inr m"
    using assms(3,4) by (auto simp: UpdateSubSwathParameters_def catch_exceptions_def split: sum.splits)
  have len: "length ps = ?n" using arg_cong [OF c(1), of length] by simp
  have "set (sort (map snd ps)) = {?ref..?ref + int ?n - 1}" unfolding c(3) by simp
  then have numbers: "set (map snd ps) = {?ref..?ref + int ?n - 1}" by simp
  have "distinct (sort (map snd ps))" unfolding c(3) by simp
  then have d: "distinct (map snd ps)" by simp
  have at': "fst (ps ! j) = int j" if "j < ?n" for j
  proof -
    have "map fst ps ! j = [0..int ?n - 1] ! j" using c(1) by simp
    then show ?thesis using that len by (simp add: nth_upto)
  qed
  have f: "number_of_product ps p = Inr (?ref + f p) \<and> 0 \<le> f p \<and> f p < 2 ^ 64" if "p \<in> {0..int ?n - 1}" for p
  proof -
    have j: "nat p < ?n" using that by (simp add: nat_less_iff)
    then have "ps ! nat p \<in> set ps" using len by simp
    moreover have "ps ! nat p = (p, snd (ps ! nat p))" using at' [OF j] that by (simp add: prod_eq_iff)
    ultimately have in': "(p, snd (ps ! nat p)) \<in> set ps" by simp
    have "distinct (map fst ps)" unfolding c(1) by simp
    from number_of_product_pair [OF this in'] have "number_of_product ps p = Inr (?ref + f p)" by (simp add: f_def)
    moreover have "snd (ps ! nat p) \<in> set (map snd ps)" using imageI [OF in', of snd] by simp
    then have "snd (ps ! nat p) \<in> {?ref..?ref + int ?n - 1}" "snd (ps ! nat p) < 2 ^ 64" using numbers c(2) by auto
    moreover have "?ref \<in> set (map snd ps)" unfolding numbers using j by auto
    then have "0 \<le> ?ref" using c(2) by blast
    ultimately show ?thesis by (simp add: f_def)
  qed
  have image: "map (f \<circ> fst) ?xs = map (\<lambda>t. t - ?ref) (map snd ps)"
    by (rule nth_equalityI) (use len assms(3) in \<open>auto simp: f_def nth_upto\<close>)
  have keys: "\<forall>(p, tags, u)\<in>set ?xs. number_of_product (mg_numbers ?m) p = Inr (reference_sub_swath_index (mg_parameters ?m) + f p) \<and>
       0 \<le> f p \<and> f p < 2 ^ 64 \<and> f p \<notin> dom (mg_sub_swaths ?m)"
    using f by (auto dest!: set_zip_leftD)
  have "distinct (map (f \<circ> fst) ?xs)" unfolding image using d by (simp add: distinct_map inj_on_def)
  from take_sub_swaths [OF run _ keys this]
  have r: "mg_infos m = map_option GetSubSwathMergeInfoFromSentinel1SubSwathInfo \<circ> mg_sub_swaths m" "dom (mg_sub_swaths m) = f ` fst ` set ?xs"
    by auto
  have "f ` fst ` set ?xs = set (map (f \<circ> fst) ?xs)" by (simp add: image_image)
  also have "\<dots> = (\<lambda>t. t - ?ref) ` {?ref..?ref + int ?n - 1}"
    unfolding image numbers [symmetric] by (rule set_map)
  also have "\<dots> = {0..int ?n - 1}" by simp
  finally show ?thesis using r by simp
qed

lemma part_area:
  assumes "tree_at h k (part_tags name)"
  shows "\<exists>s'. with_valid_area sample_env h k s = Inr s'"
proof -
  have "FIRST_VALID_PIXEL \<noteq> []" "LAST_VALID_PIXEL \<noteq> []" "SLR_TIME_TO_FIRST_VALID_PIXEL \<noteq> []" "SLR_TIME_TO_LAST_VALID_PIXEL \<noteq> []"
    "FIRST_VALID_LINE_TIME \<noteq> []" "LAST_VALID_LINE_TIME \<noteq> []" by (simp_all add: tag_defs)
  note read = this [THEN tree_GetAttributeDouble [OF assms, of _ sample_env]] this [THEN tree_GetAttributeInt [OF assms, of _ sample_env]]
  show ?thesis
    by (simp add: with_valid_area_def abs_GetAttributeInt_def abs_GetAttributeDouble_def read part_tags_texts sample_zero sample_numbers
        sample_no_metadata sample_no_metadata [unfolded fp_of_int_def] fp_of_int_def Let_def fp_to_int32_def rat_trunc_def)
qed

lemma merge_positions_complete_witness:
  "\<exists>h tags bands us q ps m. CheckAreSubSwathsFromSameProduct sample_env h (zip tags bands) (mg_parameters two_parts) = Inr (q, ps) \<and>
     UpdateSubSwathParameters sample_env h (zip tags us)
       \<lparr>mg_parameters = q, mg_infos = Map.empty, mg_sub_swaths = Map.empty, mg_products = [], mg_numbers = ps, mg_polarisations = []\<rparr> = Inr m \<and>
     dom (mg_sub_swaths m) = {0..1}"
proof -
  obtain h k2 k1 q where k: "tree_at h k2 (part_tags ''IW2'')" "tree_at h k1 (part_tags ''IW1'')"
    and q: "CheckAreSubSwathsFromSameProduct sample_env h [(k2, 4), (k1, 4)] (mg_parameters two_parts) = Inr (q, [(0, 2), (1, 1)])"
    "reference_sub_swath_index q = 1"
    using two_products by metis
  let ?m = "\<lparr>mg_parameters = q, mg_infos = Map.empty, mg_sub_swaths = Map.empty, mg_products = [], mg_numbers = [(0, 2), (1, 1)],
    mg_polarisations = []\<rparr>"
  let ?u = "\<lambda>s. (empty_utils 0 0)\<lparr>su_subswath := [s]\<rparr>"
  obtain s2 s1 where "with_valid_area sample_env h k2 right_part = Inr s2" "with_valid_area sample_env h k1 left_part = Inr s1"
    using part_area k by metis
  then obtain m where m: "UpdateSubSwathParameters sample_env h (zip [k2, k1] [?u right_part, ?u left_part]) ?m = Inr m"
    by (simp add: UpdateSubSwathParameters_def catch_exceptions_def take_sub_swath_def number_of_product_def q(2) try_emplace_def at_key_def
        vec_at_Cons_0 upto.simps Let_def)
  have z: "zip [k2, k1] [4, 4] = [(k2, 4), (k1, 4 :: int)]" by simp
  have "dom (mg_sub_swaths m) = {0..1}"
    using merge_positions_complete [OF q(1) [folded z] _ _ m] by simp
  then show ?thesis using q(1) [folded z] m by blast
qed

end
