(* ===== verification/ThermalNoise.thy ===== *)
theory ThermalNoise
  imports Sentinel1Utils RasterTiles
begin

text \<open>
  Thermal noise removal (\<^verbatim>\<open>thermal_noise_utils.cc\<close>): reading the noise vectors of a product, choosing the range vectors
  of an azimuth block, interpolating both and building the noise matrix of a tile of a ground range product on the host.
  The kernels and the copies to the device are not modelled. A float widens to the same double.
\<close>

section \<open>Noise vectors\<close>

record noise_azimuth_vector =
  nav_swath :: string
  first_azimuth_line :: int
  first_range_sample :: int
  last_azimuth_line :: int
  last_range_sample :: int
  nav_lines :: "int list"
  noise_azimuth_lut :: "fp list"

record noise_vector =
  time_mjd :: fp
  nv_line :: int
  pixels :: "int list"
  noise_lut :: "fp list"

record time_maps =
  t_0_map :: "(string \<times> fp) list"
  delta_t_map :: "(string \<times> fp) list"
  swath_start_end_times_map :: "(string \<times> fp list) list"

record thermal_noise_info =
  ti_lines_per_burst :: int
  noise_azimuth_vectors :: "noise_azimuth_vector list"
  noise_range_vectors :: "noise_vector list"
  burst_to_range_vector_map :: "noise_vector list"
  tn_time_maps :: time_maps

definition ThermalNoiseInfo :: thermal_noise_info where
  "ThermalNoiseInfo =
     \<lparr>ti_lines_per_burst = 0, noise_azimuth_vectors = [], noise_range_vectors = [], burst_to_range_vector_map = [],
      tn_time_maps = \<lparr>t_0_map = [], delta_t_map = [], swath_start_end_times_map = []\<rparr>\<rparr>"

section \<open>Choosing vectors\<close>

text \<open>The first of the vectors whose distance is the smallest; the distance may fail.\<close>

fun closest_by :: "('a \<Rightarrow> 'b res) \<Rightarrow> ('b \<Rightarrow> 'b \<Rightarrow> bool) \<Rightarrow> 'a list \<Rightarrow> int \<Rightarrow> int list \<Rightarrow> int res" where
  "closest_by distance smaller xs closest [] = Inr closest"
| "closest_by distance smaller xs closest (i # js) =
     bind_res (bind_res (vec_at xs i) distance) (\<lambda>a. bind_res (bind_res (vec_at xs closest) distance) (\<lambda>b.
       closest_by distance smaller xs (if smaller a b then i else closest) js))"

definition line_distance :: "int \<Rightarrow> noise_vector \<Rightarrow> int res" where
  "line_distance l v = bind_res (int_result (l - nv_line v)) (\<lambda>d. int_result \<bar>d\<bar>)"

definition GetBurstRangeVector :: "int \<Rightarrow> noise_vector list \<Rightarrow> noise_vector res" where
  "GetBurstRangeVector burst_center_line vs =
     bind_res (closest_by (line_distance burst_center_line) (<) vs 0 [1..int (length vs) - 1]) (vec_at vs)"

definition time_distance :: "fp \<Rightarrow> noise_vector \<Rightarrow> fp res" where
  "time_distance t v = Inr (fabs (fsub f64 t (time_mjd v)))"

definition GetClosestNoiseVectorIndex :: "fp \<Rightarrow> noise_vector list \<Rightarrow> int res" where
  "GetClosestNoiseVectorIndex t vs =
     bind_res (guard (vs \<noteq> []) Runtime_error) (\<lambda>_.
       closest_by (time_distance t) flt vs 0 [1..int (length vs) - 1])"

definition segment_before :: "int \<Rightarrow> int" where
  "segment_before i = (if 0 < i then i - 1 else 0)"

definition tn_GetLineIndex :: "int \<Rightarrow> int list \<Rightarrow> int" where
  "tn_GetLineIndex l ls =
     (if length ls < 2 then 0
      else let i = first_index (\<lambda>x. l < x) ls in if 0 \<le> i then segment_before i else int (length ls) - 2)"

text \<open>The search for a sample; \<open>size() - 2\<close> is converted back to \<open>int\<close>.\<close>

definition GetSampleIndex :: "int \<Rightarrow> int list \<Rightarrow> int" where
  "GetSampleIndex sample ps =
     (let i = first_index (\<lambda>x. sample < x) ps in if 0 \<le> i then segment_before i else wrap_signed 32 (int (length ps) - 2))"

fun closest_in :: "fp \<Rightarrow> fp \<Rightarrow> fp \<Rightarrow> noise_vector list \<Rightarrow> int \<Rightarrow> int list \<Rightarrow> int res" where
  "closest_in centre front back vs closest [] = Inr closest"
| "closest_in centre front back vs closest (i # js) =
     bind_res (vec_at vs i) (\<lambda>v.
       if flt (time_mjd v) front \<or> flt back (time_mjd v) then closest_in centre front back vs closest js
       else if closest = int (length vs) then closest_in centre front back vs i js
       else bind_res (vec_at vs closest) (\<lambda>c.
              closest_in centre front back vs
                (if flt (fabs (fsub f64 centre (time_mjd v))) (fabs (fsub f64 centre (time_mjd c))) then i else closest) js))"

definition DetermineNoiseVectorIndices :: "fp \<Rightarrow> fp \<Rightarrow> noise_vector list \<Rightarrow> fp list \<Rightarrow> int list res" where
  "DetermineNoiseVectorIndices t_start t_end vs swath_times =
     (let results = filter (\<lambda>i. fle t_start (time_mjd (vs ! nat i)) \<and> fle (time_mjd (vs ! nat i)) t_end)
                      [0..int (length vs) - 1]
      in if results = [] \<and> length swath_times = 2 then
           bind_res (closest_in (fdiv f64 (fadd f64 t_start t_end) (Fin 2)) (hd swath_times) (last swath_times) vs
                       (int (length vs)) [0..int (length vs) - 1]) (\<lambda>closest.
             Inr (if closest \<noteq> int (length vs) then [closest] else []))
         else Inr results)"

section \<open>Interpolation\<close>

definition InterpolateNoise :: "int \<Rightarrow> int \<Rightarrow> fp \<Rightarrow> fp \<Rightarrow> int \<Rightarrow> fp res" where
  "InterpolateNoise p1 p2 noise1 noise2 sample_index =
     (if p1 = p2 then Inr (Fin 0)
      else bind_res (int_result (sample_index - p1)) (\<lambda>a. bind_res (int_result (p2 - p1)) (\<lambda>b.
             Inr (fadd f64 noise1 (fmul f64 (fdiv f64 (fp_of_int f64 a) (fp_of_int f64 b)) (fsub f64 noise2 noise1))))))"

definition InterpolateNoiseByTime :: "fp \<Rightarrow> fp \<Rightarrow> fp \<Rightarrow> fp \<Rightarrow> fp \<Rightarrow> fp" where
  "InterpolateNoiseByTime t1 t2 noise1 noise2 t =
     (if feq t1 t2 then Fin 0
      else fadd f64 noise1 (fmul f64 (fdiv f64 (fsub f64 t t1) (fsub f64 t2 t1)) (fsub f64 noise2 noise1)))"

text \<open>One step of the walk along the positions: the segment moves on by at most one, then the value is interpolated.\<close>

definition segment_value :: "int list \<Rightarrow> fp list \<Rightarrow> int \<Rightarrow> int \<Rightarrow> fp res" where
  "segment_value ps lut i s =
     bind_res (vec_at ps i) (\<lambda>p1. bind_res (vec_at ps (i + 1)) (\<lambda>p2.
     bind_res (vec_at lut i) (\<lambda>n1. bind_res (vec_at lut (i + 1)) (\<lambda>n2. InterpolateNoise p1 p2 n1 n2 s))))"

definition walk_step :: "int list \<Rightarrow> fp list \<Rightarrow> int \<Rightarrow> int \<Rightarrow> int \<times> fp list \<Rightarrow> (int \<times> fp list) res" where
  "walk_step ps lut s_first s = (\<lambda>(i, out).
     bind_res (vec_at ps (i + 1)) (\<lambda>q.
     let i = (if s > q \<and> i < int (length ps) - 2 then i + 1 else i)
     in bind_res (segment_value ps lut i s) (\<lambda>v.
        bind_res (vec_put out (s - s_first) v) (\<lambda>out. Inr (i, out)))))"

definition walk :: "int list \<Rightarrow> fp list \<Rightarrow> int \<Rightarrow> int \<Rightarrow> fp list \<Rightarrow> fp list res" where
  "walk ps lut s_first s_last out =
     bind_res (fold_res (walk_step ps lut s_first) [s_first..s_last] (GetSampleIndex s_first ps, out)) (\<lambda>(_, out). Inr out)"

definition FillRangeNoiseWithInterpolatedValues :: "noise_vector \<Rightarrow> int \<Rightarrow> int \<Rightarrow> fp list \<Rightarrow> fp list res" where
  "FillRangeNoiseWithInterpolatedValues nv s_first s_last to_compute =
     (if pixels nv = [] then Inl Runtime_error
      else if length (pixels nv) = 1 then bind_res (vec_get (noise_lut nv) 0) (\<lambda>v. Inr (map (\<lambda>_. v) to_compute))
      else walk (pixels nv) (noise_lut nv) s_first s_last to_compute)"

definition FillAzimuthNoiseVectorWithInterpolatedValues :: "noise_azimuth_vector \<Rightarrow> int \<Rightarrow> int \<Rightarrow> fp list \<Rightarrow> fp list res" where
  "FillAzimuthNoiseVectorWithInterpolatedValues v l_first l_last to_compute =
     (if length (nav_lines v) < 2 then
        fold_res (\<lambda>l out. bind_res (vec_get (noise_azimuth_lut v) 0) (\<lambda>x. vec_put out (l - l_first) x)) [l_first..l_last] to_compute
      else walk (nav_lines v) (noise_azimuth_lut v) l_first l_last to_compute)"

section \<open>The noise matrix of a ground range tile\<close>

definition constant_cell ::
  "int \<Rightarrow> int \<Rightarrow> int \<Rightarrow> int \<Rightarrow> fp list list \<Rightarrow> fp list \<Rightarrow> int \<Rightarrow> int \<Rightarrow> fp list list \<Rightarrow> fp list list res" where
  "constant_cell ox oy nx0 ny0 rvs azimuth x y m =
     bind_res (vec_at azimuth (y - ny0)) (\<lambda>a. bind_res (vec_get rvs 0) (\<lambda>r. bind_res (vec_at r (x - nx0)) (\<lambda>b.
     bind_res (vec_at m (y - oy)) (\<lambda>row. bind_res (vec_put row (x - ox) (fmul f64 a b)) (\<lambda>row. vec_put m (y - oy) row)))))"

definition noise_line_time :: "fp \<Rightarrow> fp \<Rightarrow> int \<Rightarrow> fp" where
  "noise_line_time t0 dt y = fadd f64 t0 (fmul f64 dt (fp_of_int f64 y))"

definition first_time_index :: "fp \<Rightarrow> fp list \<Rightarrow> int" where
  "first_time_index t vt =
     (let i = first_index (flt t) vt in if 0 \<le> i then segment_before i else if vt = [] then 0 else int (length vt) - 2)"

definition timed_value :: "fp list \<Rightarrow> fp list list \<Rightarrow> int \<Rightarrow> int \<Rightarrow> fp \<Rightarrow> fp res" where
  "timed_value vt rvs i xx t =
     bind_res (vec_get vt i) (\<lambda>t1. bind_res (vec_get vt (i + 1)) (\<lambda>t2.
     bind_res (vec_get rvs i) (\<lambda>r1. bind_res (vec_get r1 xx) (\<lambda>n1.
     bind_res (vec_get rvs (i + 1)) (\<lambda>r2. bind_res (vec_get r2 xx) (\<lambda>n2.
       Inr (InterpolateNoiseByTime t1 t2 n1 n2 t)))))))"

text \<open>With no vector vt the bound \<open>size() - 2\<close> wraps around, but the read before it is already undefined.\<close>

definition timed_cell ::
  "int \<Rightarrow> int \<Rightarrow> int \<Rightarrow> int \<Rightarrow> fp \<Rightarrow> fp \<Rightarrow> fp list \<Rightarrow> fp list list \<Rightarrow> fp list \<Rightarrow> int \<Rightarrow> int \<Rightarrow> int \<times> fp list list \<Rightarrow>
   (int \<times> fp list list) res" where
  "timed_cell ox oy nx0 ny0 t0 dt vt rvs azimuth x y = (\<lambda>(i, m).
     let t = noise_line_time t0 dt y in
     bind_res (vec_get vt (i + 1)) (\<lambda>q.
     let i = (if flt q t \<and> i < int (length vt) - 2 then i + 1 else i) in
     bind_res (vec_get azimuth (y - ny0)) (\<lambda>a.
     bind_res (timed_value vt rvs i (x - nx0) t) (\<lambda>v.
     bind_res (vec_get m (y - oy)) (\<lambda>row. bind_res (vec_set row (x - ox) (fmul f64 a v)) (\<lambda>row.
     bind_res (vec_set m (y - oy) row) (\<lambda>m. Inr (i, m))))))))"

definition ComputeNoiseMatrix ::
  "int \<Rightarrow> int \<Rightarrow> int \<Rightarrow> int \<Rightarrow> int \<Rightarrow> int \<Rightarrow> fp \<Rightarrow> fp \<Rightarrow> fp list \<Rightarrow> fp list list \<Rightarrow> fp list \<Rightarrow> fp list list \<Rightarrow> fp list list res" where
  "ComputeNoiseMatrix ox oy nx0 nx_max ny0 ny_max t0 dt vt rvs azimuth m =
     (if length vt = 1 then
        fold_res (\<lambda>x. fold_res (constant_cell ox oy nx0 ny0 rvs azimuth x) [ny0..ny_max]) [nx0..nx_max] m
      else
        fold_res (\<lambda>x m. bind_res
          (fold_res (timed_cell ox oy nx0 ny0 t0 dt vt rvs azimuth x) [ny0..ny_max]
             (first_time_index (noise_line_time t0 dt ny0) vt, m)) (\<lambda>(_, m). Inr m)) [nx0..nx_max] m)"

definition zeros :: "int \<Rightarrow> fp list" where
  "zeros n = replicate (nat n) (Fin 0)"

text \<open>The part of a block inside the tile, or nothing if it has one column or one line at most.\<close>

definition block_part :: "rectangle \<Rightarrow> int \<Rightarrow> int \<Rightarrow> noise_azimuth_vector \<Rightarrow> (int \<times> int \<times> int \<times> int) option" where
  "block_part tile x_max y_max nav =
     (let nx0 = max (rx tile) (first_range_sample nav); nx_max = min x_max (last_range_sample nav);
          ny0 = max (ry tile) (first_azimuth_line nav); ny_max = min y_max (last_azimuth_line nav)
      in if nx0 \<ge> nx_max \<or> ny0 \<ge> ny_max then None else Some (nx0, nx_max, ny0, ny_max))"

definition range_noise :: "thermal_noise_info \<Rightarrow> int \<Rightarrow> int \<Rightarrow> int \<Rightarrow> (fp \<times> fp list) res" where
  "range_noise info nx0 nx_max index =
     bind_res (vec_at (noise_range_vectors info) index) (\<lambda>nv.
     bind_res (FillRangeNoiseWithInterpolatedValues nv nx0 nx_max (zeros (nx_max - nx0 + 1))) (\<lambda>r. Inr (time_mjd nv, r)))"

definition add_block :: "rectangle \<Rightarrow> thermal_noise_info \<Rightarrow> fp \<Rightarrow> fp \<Rightarrow> int \<Rightarrow> int \<Rightarrow> noise_azimuth_vector \<Rightarrow> fp list list \<Rightarrow> fp list list res" where
  "add_block tile info t0 dt x_max y_max nav m =
     (case block_part tile x_max y_max nav of
        None \<Rightarrow> Inr m
      | Some (nx0, nx_max, ny0, ny_max) \<Rightarrow>
          bind_res (DetermineNoiseVectorIndices (noise_line_time t0 dt (first_azimuth_line nav)) (noise_line_time t0 dt (last_azimuth_line nav))
             (noise_range_vectors info)
             (case map_of (swath_start_end_times_map (tn_time_maps info)) (nav_swath nav) of Some ts \<Rightarrow> ts | None \<Rightarrow> [])) (\<lambda>indices.
          if indices = [] then Inr m
          else bind_res (int_result (nx_max - nx0 + 1)) (\<lambda>_.
               bind_res (map_res (range_noise info nx0 nx_max) indices) (\<lambda>rvs.
               bind_res (int_result (ny_max - ny0 + 1)) (\<lambda>_.
               bind_res (FillAzimuthNoiseVectorWithInterpolatedValues nav ny0 ny_max (zeros (ny_max - ny0 + 1))) (\<lambda>azimuth.
                 ComputeNoiseMatrix (rx tile) (ry tile) nx0 nx_max ny0 ny_max t0 dt (map fst rvs) (map snd rvs) azimuth m))))))"

text \<open>The matrix as the host builds it, before it is copied to the device.\<close>

definition BuildNoiseLutForTOPSGRD :: "rectangle \<Rightarrow> thermal_noise_info \<Rightarrow> fp list list res" where
  "BuildNoiseLutForTOPSGRD tile info =
     (case (t_0_map (tn_time_maps info), delta_t_map (tn_time_maps info)) of
        ((_, t0) # _, (_, dt) # _) \<Rightarrow>
          bind_res (int_result (rx tile + width tile)) (\<lambda>a. bind_res (int_result (a - 1)) (\<lambda>x_max.
          bind_res (int_result (ry tile + height tile)) (\<lambda>b. bind_res (int_result (b - 1)) (\<lambda>y_max.
          bind_res (guard (0 \<le> height tile \<and> (height tile = 0 \<or> 0 \<le> width tile)) Length_error) (\<lambda>_.
            fold_res (add_block tile info t0 dt x_max y_max) (noise_azimuth_vectors info)
              (replicate (nat (height tile)) (zeros (width tile))))))))
      | _ \<Rightarrow> Inl Runtime_error)"

section \<open>The bursts of a slant range tile\<close>

definition burst_range :: "rectangle \<Rightarrow> int \<Rightarrow> (int \<times> int) res" where
  "burst_range tile lpb =
     bind_res (if lpb = 0 then Inl Undefined_behaviour else int_result (c_div (ry tile) lpb)) (\<lambda>a.
     bind_res (int_result (ry tile + height tile)) (\<lambda>b. bind_res (int_result (b - 1)) (\<lambda>y_last.
     bind_res (int_result (c_div y_last lpb)) (\<lambda>b. Inr (a, b)))))"

definition check_bursts :: "rectangle \<Rightarrow> thermal_noise_info \<Rightarrow> unit res" where
  "check_bursts tile info =
     bind_res (burst_range tile (ti_lines_per_burst info)) (\<lambda>(a, b).
       guard (\<not> (burst_to_range_vector_map info = [] \<or> a < 0 \<or> b \<ge> int (length (burst_to_range_vector_map info)))) Runtime_error)"

definition CalculateBurstIndices :: "rectangle \<Rightarrow> int \<Rightarrow> int list res" where
  "CalculateBurstIndices tile lpb =
     bind_res (guard (0 < lpb) Runtime_error) (\<lambda>_.
     bind_res (burst_range tile lpb) (\<lambda>(a, b).
     bind_res (int_result (b - a)) (\<lambda>d. bind_res (int_result (d + 1)) (\<lambda>n.
     bind_res (guard (0 \<le> n) Length_error) (\<lambda>_. Inr [a..b])))))"

section \<open>Reading the metadata\<close>

definition optional_stoi :: "'p env \<Rightarrow> heap \<Rightarrow> ref \<Rightarrow> string \<Rightarrow> int res" where
  "optional_stoi e h k name =
     bind_res (ContainsAttribute e k name h) (\<lambda>b. if b then attr_stoi e h (Some k) name else Inr (-1))"

definition read_azimuth_noise :: "'p env \<Rightarrow> heap \<Rightarrow> ref \<Rightarrow> noise_azimuth_vector res" where
  "read_azimuth_noise e h k =
     bind_res (child e h (Some k) LINE) (\<lambda>line_element.
     bind_res (attr_string e h line_element LINE) (\<lambda>line_attribute.
     bind_res (bind_res (deref line_element) (\<lambda>l. GetAttributeInt e l COUNT h)) (\<lambda>n.
     bind_res (AddWhitespaceSeparatedValues_int [] line_attribute) (\<lambda>lines.
     bind_res (ValidateMetadataCount n (length lines)) (\<lambda>_.
     bind_res (child e h (Some k) NOISE_AZIMUTH_LUT) (\<lambda>lut_element.
     bind_res (attr_string e h lut_element NOISE_AZIMUTH_LUT) (\<lambda>lut_attribute.
     bind_res (bind_res (deref lut_element) (\<lambda>l. GetAttributeInt e l COUNT h)) (\<lambda>lut_count.
     bind_res (AddWhitespaceSeparatedValues_float [] lut_attribute) (\<lambda>lut.
     bind_res (ValidateMetadataCount lut_count (length lut)) (\<lambda>_.
     bind_res (guard (lut_count = n) Runtime_error) (\<lambda>_.
     bind_res (guard (lines \<noteq> []) Runtime_error) (\<lambda>_.
     bind_res (bind_res (ContainsAttribute e k SWATH h) (\<lambda>b. if b then GetAttributeString e k SWATH h else Inr [])) (\<lambda>swath.
     bind_res (optional_stoi e h k FIRST_AZIMUTH_LINE) (\<lambda>l0.
     bind_res (optional_stoi e h k LAST_AZIMUTH_LINE) (\<lambda>l1.
     bind_res (optional_stoi e h k FIRST_RANGE_SAMPLE) (\<lambda>s0.
     bind_res (optional_stoi e h k LAST_RANGE_SAMPLE) (\<lambda>s1.
       Inr \<lparr>nav_swath = swath, first_azimuth_line = l0, first_range_sample = s0, last_azimuth_line = l1,
            last_range_sample = s1, nav_lines = lines, noise_azimuth_lut = lut\<rparr>)))))))))))))))))"

definition GetAzimuthNoiseVectorList :: "'p env \<Rightarrow> heap \<Rightarrow> ref option \<Rightarrow> noise_azimuth_vector list res" where
  "GetAzimuthNoiseVectorList e h l = bind_res (child_list h l) (map_res (read_azimuth_noise e h))"

definition LEGACY_NOISE_LUT :: string where "LEGACY_NOISE_LUT = ''noiseLut''"

definition noise_lut_text :: "'p env \<Rightarrow> heap \<Rightarrow> ref \<Rightarrow> string res" where
  "noise_lut_text e h k =
     bind_res (ContainsAttribute e k LEGACY_NOISE_LUT h) (\<lambda>legacy.
       if legacy then GetAttributeString e k LEGACY_NOISE_LUT h
       else bind_res (ContainsAttribute e k NOISE_RANGE_LUT h) (\<lambda>current.
              if current then GetAttributeString e k NOISE_RANGE_LUT h else Inl Runtime_error))"

definition utc_time :: "'p env \<Rightarrow> heap \<Rightarrow> ref option \<Rightarrow> string \<Rightarrow> fp res" where
  "utc_time e h element tag = bind_res (GetTime e h element tag) (GetMjd (casts e))"

definition read_noise_vector :: "'p env \<Rightarrow> heap \<Rightarrow> ref \<Rightarrow> noise_vector res" where
  "read_noise_vector e h k =
     bind_res (utc_time e h (Some k) AZIMUTH_TIME) (\<lambda>time.
     bind_res (attr_stoi e h (Some k) LINE) (\<lambda>line.
     bind_res (child e h (Some k) PIXEL) (\<lambda>pixel_element.
     bind_res (attr_string e h pixel_element PIXEL) (\<lambda>pixel_attribute.
     bind_res (bind_res (deref pixel_element) (\<lambda>l. GetAttributeInt e l COUNT h)) (\<lambda>n.
     bind_res (AddWhitespaceSeparatedValues_int [] pixel_attribute) (\<lambda>ps.
     bind_res (ValidateMetadataCount n (length ps)) (\<lambda>_.
     bind_res (child e h (Some k) LEGACY_NOISE_LUT) (\<lambda>legacy_element.
     bind_res (if legacy_element \<noteq> None then Inr legacy_element else child e h (Some k) NOISE_RANGE_LUT) (\<lambda>lut_element.
     bind_res (case lut_element of None \<Rightarrow> Inl Runtime_error | Some l \<Rightarrow> Inr l) (\<lambda>l.
     bind_res (noise_lut_text e h l) (\<lambda>lut_attribute.
     bind_res (GetAttributeInt e l COUNT h) (\<lambda>lut_count.
     bind_res (AddWhitespaceSeparatedValues_float [] lut_attribute) (\<lambda>lut.
     bind_res (ValidateMetadataCount lut_count (length lut)) (\<lambda>_.
     bind_res (guard (lut_count = n) Runtime_error) (\<lambda>_.
     bind_res (guard (ps \<noteq> []) Runtime_error) (\<lambda>_.
       Inr \<lparr>time_mjd = time, nv_line = line, pixels = ps, noise_lut = lut\<rparr>))))))))))))))))"

definition GetNoiseVectorList :: "'p env \<Rightarrow> heap \<Rightarrow> ref option \<Rightarrow> noise_vector list res" where
  "GetNoiseVectorList e h l = bind_res (child_list h l) (map_res (read_noise_vector e h))"

text \<open>The two lists of noise vectors of one image.\<close>

definition read_noise_lists :: "'p env \<Rightarrow> heap \<Rightarrow> ref \<Rightarrow> thermal_noise_info \<Rightarrow> (ref option \<times> thermal_noise_info) res" where
  "read_noise_lists e h k info =
     bind_res (child e h (Some k) NOISE) (\<lambda>noise_element.
     bind_res (child e h noise_element NOISE_AZIMUTH_VECTOR_LIST) (\<lambda>al.
     bind_res (GetAzimuthNoiseVectorList e h al) (\<lambda>navs.
     bind_res (child e h noise_element NOISE_RANGE_VECTOR_LIST) (\<lambda>rl.
     bind_res (GetNoiseVectorList e h rl) (\<lambda>nvs.
       Inr (noise_element, info\<lparr>noise_azimuth_vectors := navs, noise_range_vectors := nvs\<rparr>))))))"

text \<open>Case-insensitive containment is a library function, a parameter here.\<close>

definition image_matches :: "(string \<Rightarrow> string \<Rightarrow> bool) \<Rightarrow> heap \<Rightarrow> string list \<Rightarrow> ref \<Rightarrow> bool res" where
  "image_matches icontains h parts k =
     bind_res (node_at (nodes h) k) (\<lambda>n. Inr (list_all (icontains (node_name n)) parts))"

text \<open>The loop that stops at the first matching image.\<close>

fun at_first_match :: "('a \<Rightarrow> bool res) \<Rightarrow> ('a \<Rightarrow> 'b \<Rightarrow> 'b res) \<Rightarrow> 'a list \<Rightarrow> 'b \<Rightarrow> 'b res" where
  "at_first_match test f [] s = Inr s"
| "at_first_match test f (x # xs) s =
     bind_res (test x) (\<lambda>hit. if hit then f x s else at_first_match test f xs s)"

definition read_burst_noise :: "'p env \<Rightarrow> heap \<Rightarrow> ref \<Rightarrow> thermal_noise_info \<Rightarrow> thermal_noise_info res" where
  "read_burst_noise e h k info =
     bind_res (read_noise_lists e h k info) (\<lambda>(noise_element, info).
     bind_res (child e h noise_element ADS_HEADER) (\<lambda>ads_header.
     bind_res (guard (ads_header \<noteq> None) Runtime_error) (\<lambda>_.
     bind_res (utc_time e h ads_header START_TIME) (\<lambda>t.
     bind_res (GetClosestNoiseVectorIndex t (noise_range_vectors info)) (\<lambda>vectors_to_skip.
       Inr (info\<lparr>burst_to_range_vector_map := drop (nat vectors_to_skip) (noise_range_vectors info)\<rparr>))))))"

definition read_lines_per_burst :: "'p env \<Rightarrow> heap \<Rightarrow> ref \<Rightarrow> thermal_noise_info \<Rightarrow> thermal_noise_info res" where
  "read_lines_per_burst e h k info =
     bind_res (child e h (Some k) PRODUCT) (\<lambda>product.
     bind_res (child e h product SWATH_TIMING) (\<lambda>swath_timing.
     bind_res (deref swath_timing) (\<lambda>st.
     bind_res (GetAttributeInt e st LINES_PER_BURST h) (\<lambda>n. Inr (info\<lparr>ti_lines_per_burst := n\<rparr>)))))"

definition GetThermalNoiseInfoForBursts ::
  "(string \<Rightarrow> string \<Rightarrow> bool) \<Rightarrow> 'p env \<Rightarrow> heap \<Rightarrow> string \<Rightarrow> string \<Rightarrow> ref \<Rightarrow> thermal_noise_info res" where
  "GetThermalNoiseInfoForBursts icontains e h polarisation sub_swath r =
     bind_res (child e h (Some r) NOISE) (\<lambda>noise.
     bind_res (child_list h noise) (\<lambda>noise_images.
     bind_res (at_first_match (image_matches icontains h [polarisation, sub_swath]) (read_burst_noise e h) noise_images
                 ThermalNoiseInfo) (\<lambda>info.
     bind_res (guard (burst_to_range_vector_map info \<noteq> []) Runtime_error) (\<lambda>_.
     bind_res (child e h (Some r) ANNOTATION) (\<lambda>annotation.
     bind_res (child_list h annotation) (\<lambda>images.
     bind_res (at_first_match (image_matches icontains h [polarisation, sub_swath]) (read_lines_per_burst e h) images info) (\<lambda>info.
     bind_res (guard (\<not> ti_lines_per_burst info \<le> 0) Runtime_error) (\<lambda>_. Inr info))))))))"

definition GetThermalNoiseInfoForGrd ::
  "(string \<Rightarrow> string \<Rightarrow> bool) \<Rightarrow> 'p env \<Rightarrow> heap \<Rightarrow> string \<Rightarrow> ref \<Rightarrow> thermal_noise_info res" where
  "GetThermalNoiseInfoForGrd icontains e h polarisation r =
     bind_res (child e h (Some r) NOISE) (\<lambda>noise.
     bind_res (child_list h noise) (\<lambda>images.
       fold_res (\<lambda>k info. bind_res (image_matches icontains h [polarisation] k) (\<lambda>hit.
         if hit then bind_res (read_noise_lists e h k info) (\<lambda>(_, info). Inr info) else Inr info)) images ThermalNoiseInfo))"

definition add_swath_span :: "'p env \<Rightarrow> heap \<Rightarrow> fp \<Rightarrow> fp \<Rightarrow> ref \<Rightarrow> time_maps \<Rightarrow> time_maps res" where
  "add_swath_span e h t0 dt k tm =
     bind_res (ContainsAttribute e k SWATH h) (\<lambda>b. if \<not> b then Inr tm else
     bind_res (GetElement e k ''swathBoundsList'' h) (\<lambda>bounds_list. if bounds_list = None then Inr tm else
     bind_res (child_list h bounds_list) (\<lambda>bounds. if bounds = [] then Inr tm else
     bind_res (GetAttributeInt e (hd bounds) FIRST_AZIMUTH_LINE h) (\<lambda>l0.
     bind_res (GetAttributeInt e (last bounds) LAST_AZIMUTH_LINE h) (\<lambda>l1.
     bind_res (GetAttributeString e k SWATH h) (\<lambda>swath.
       Inr (tm\<lparr>swath_start_end_times_map :=
         insert_or_assign swath [noise_line_time t0 dt l0, noise_line_time t0 dt l1] (swath_start_end_times_map tm)\<rparr>)))))))"

definition read_time_maps :: "'p env \<Rightarrow> heap \<Rightarrow> string \<Rightarrow> ref \<Rightarrow> time_maps \<Rightarrow> time_maps res" where
  "read_time_maps e h image_name k tm =
     bind_res (child e h (Some k) PRODUCT) (\<lambda>product.
     bind_res (child e h product IMAGE_ANNOTATION) (\<lambda>image_annotation.
     bind_res (child e h image_annotation IMAGE_INFORMATION) (\<lambda>info.
     bind_res (utc_time e h info PRODUCT_FIRST_LINE_UTC_TIME) (\<lambda>t0.
     let tm = tm\<lparr>t_0_map := insert_or_assign image_name t0 (t_0_map tm)\<rparr> in
     bind_res (deref info) (\<lambda>i.
     bind_res (GetAttributeDouble e i AZIMUTH_TIME_INTERVAL h) (\<lambda>interval.
     let dt = fdiv f64 interval SECONDS_IN_DAY;
         tm = tm\<lparr>delta_t_map := insert_or_assign image_name dt (delta_t_map tm)\<rparr> in
     bind_res (child e h product ''swathMerging'') (\<lambda>merging. if merging = None then Inr tm else
     bind_res (child e h merging ''swathMergeList'') (\<lambda>merge_list. if merge_list = None then Inr tm else
     bind_res (child_list h merge_list) (\<lambda>merges. fold_res (add_swath_span e h t0 dt) merges tm)))))))))"

definition FillTimeMapsWithT0AndDeltaTS :: "'p env \<Rightarrow> heap \<Rightarrow> string \<Rightarrow> ref \<Rightarrow> time_maps \<Rightarrow> time_maps res" where
  "FillTimeMapsWithT0AndDeltaTS e h image_name r tm =
     bind_res (child e h (Some r) ANNOTATION) (\<lambda>annotation.
     bind_res (child_list h annotation) (\<lambda>images.
       at_first_match (\<lambda>k. bind_res (node_at (nodes h) k) (\<lambda>n. Inr (contains (node_name n) image_name)))
         (read_time_maps e h image_name) images tm))"

section \<open>Positions and their segments\<close>

definition positions_ok :: "int list \<Rightarrow> fp list \<Rightarrow> bool" where
  "positions_ok ps lut \<longleftrightarrow> ps \<noteq> [] \<and> length lut = length ps \<and> sorted_wrt (<) ps \<and> (\<forall>p \<in> set ps. 0 \<le> p \<and> p < 2 ^ 31)"

text \<open>The segment that starts at the \<open>i\<close>-th position serves \<open>s\<close>; the first and the last also serve what lies outside.\<close>

definition serves :: "int list \<Rightarrow> int \<Rightarrow> int \<Rightarrow> bool" where
  "serves ps i s \<longleftrightarrow> 0 \<le> i \<and> i + 1 < int (length ps) \<and> (i = 0 \<or> ps ! nat i \<le> s) \<and> (i + 2 = int (length ps) \<or> s \<le> ps ! nat (i + 1))"

definition noise_on :: "int list \<Rightarrow> fp list \<Rightarrow> int \<Rightarrow> int \<Rightarrow> fp" where
  "noise_on ps lut i s =
     fadd f64 (lut ! nat i)
       (fmul f64 (fdiv f64 (fp_of_int f64 (s - ps ! nat i)) (fp_of_int f64 (ps ! nat (i + 1) - ps ! nat i)))
         (fsub f64 (lut ! nat (i + 1)) (lut ! nat i)))"

lemma fold_res_keeps:
  assumes "P s" and "\<And>x s. x \<in> set xs \<Longrightarrow> P s \<Longrightarrow> \<exists>t. f x s = Inr t \<and> P t"
  shows "\<exists>t. fold_res f xs s = Inr t \<and> P t"
  using assms
proof (induction xs arbitrary: s)
  case (Cons x xs)
  obtain t where t: "f x s = Inr t" "P t" using Cons.prems by (meson list.set_intros(1))
  have "\<exists>u. fold_res f xs t = Inr u \<and> P u" by (rule Cons.IH [OF t(2)]) (use Cons.prems(2) in auto)
  then show ?case using t(1) by simp
qed simp

lemma positions_length: "positions_ok ps lut \<Longrightarrow> length ps \<le> 2 ^ 31"
proof -
  assume ok: "positions_ok ps lut"
  then have "distinct ps" by (auto simp: positions_ok_def strict_sorted_iff)
  then have "length ps = card (set ps)" by (simp add: distinct_card)
  also have "\<dots> \<le> card {0..<2 ^ 31 :: int}" by (rule card_mono) (use ok in \<open>auto simp: positions_ok_def\<close>)
  finally show ?thesis by simp
qed

lemma positions_less: "positions_ok ps lut \<Longrightarrow> 0 \<le> i \<Longrightarrow> i < j \<Longrightarrow> j < int (length ps) \<Longrightarrow> ps ! nat i < ps ! nat j"
  by (auto simp: positions_ok_def sorted_wrt_iff_nth_less)

lemma positions_bounds: "positions_ok ps lut \<Longrightarrow> 0 \<le> i \<Longrightarrow> i < int (length ps) \<Longrightarrow> 0 \<le> ps ! nat i \<and> ps ! nat i < 2 ^ 31"
  by (auto simp: positions_ok_def)

lemma GetSampleIndex_serves:
  assumes "positions_ok ps lut" and "2 \<le> length ps"
  shows "serves ps (GetSampleIndex s ps) s"
proof (cases "0 \<le> first_index (\<lambda>x. s < x) ps")
  case True
  define i where "i = first_index (\<lambda>x. s < x) ps"
  have hit: "nat i < length ps" "s < ps ! nat i" "\<forall>j < nat i. \<not> s < ps ! j"
    using first_index_hit [OF True] by (auto simp: i_def)
  have i: "GetSampleIndex s ps = segment_before i" "0 \<le> i" using True by (simp_all add: GetSampleIndex_def i_def)
  show ?thesis
  proof (cases "i = 0")
    case True
    have "s < ps ! 1" using positions_less [OF assms(1), of 0 1] hit(2) assms(2) True by simp
    then show ?thesis using assms(2) True i by (auto simp: serves_def segment_before_def)
  next
    case False
    then have "nat (i - 1) < nat i" using i(2) by simp
    then have "ps ! nat (i - 1) \<le> s" using hit(3) by (meson not_less)
    then show ?thesis using False i hit by (auto simp: serves_def segment_before_def)
  qed
next
  case False
  then have none: "\<forall>x \<in> set ps. \<not> s < x" using first_index_less_0 [of "\<lambda>x. s < x" ps] by simp
  have "wrap_signed 32 (int (length ps) - 2) = int (length ps) - 2"
    by (rule wrap_signed_id) (use positions_length [OF assms(1)] assms(2) in simp_all)
  then have "GetSampleIndex s ps = int (length ps) - 2" using False by (simp add: GetSampleIndex_def)
  moreover have "ps ! (length ps - 2) \<le> s" using none assms(2) by (simp add: not_less)
  ultimately show ?thesis using assms(2) by (auto simp: serves_def nat_diff_distrib)
qed

lemma segment_value_noise:
  assumes "positions_ok ps lut" and "0 \<le> i" and "i + 1 < int (length ps)" and "0 \<le> s" and "s < 2 ^ 31"
  shows "segment_value ps lut i s = Inr (noise_on ps lut i s)"
proof -
  have "length lut = length ps" using assms(1) by (simp add: positions_ok_def)
  moreover have "ps ! nat i < ps ! nat (i + 1)" by (rule positions_less [OF assms(1)]) (use assms in simp_all)
  moreover have "int32_range (s - ps ! nat i)" "int32_range (ps ! nat (i + 1) - ps ! nat i)"
    using positions_bounds [OF assms(1), of i] positions_bounds [OF assms(1), of "i + 1"] assms by (auto simp: int32_range_def)
  ultimately show ?thesis using assms by (simp add: segment_value_def vec_at_ok InterpolateNoise_def noise_on_def)
qed

lemma serves_next:
  assumes "positions_ok ps lut" and "0 \<le> i" "i + 1 < int (length ps)" and "i = 0 \<or> ps ! nat i \<le> s"
    and "i + 2 = int (length ps) \<or> s - 1 \<le> ps ! nat (i + 1)"
  shows "serves ps (if s > ps ! nat (i + 1) \<and> i < int (length ps) - 2 then i + 1 else i) s"
proof (cases "s > ps ! nat (i + 1) \<and> i < int (length ps) - 2")
  case True
  then have "ps ! nat (i + 1) < ps ! nat (i + 1 + 1)" by (intro positions_less [OF assms(1)]) (use assms(2) in simp_all)
  then show ?thesis using True assms(2,5) by (auto simp: serves_def)
qed (use assms in \<open>auto simp: serves_def\<close>)

lemma walk_loop:
  assumes "positions_ok ps lut" and "0 \<le> a" and "a \<le> s" and "b < 2 ^ 31" and "int (length out) = b - a + 1"
    and "0 \<le> i" "i + 1 < int (length ps)" and "i = 0 \<or> ps ! nat i \<le> s" and "i + 2 = int (length ps) \<or> s - 1 \<le> ps ! nat (i + 1)"
  shows "\<exists>j out'. fold_res (walk_step ps lut a) [s..b] (i, out) = Inr (j, out') \<and> length out' = length out \<and>
     (\<forall>t. a \<le> t \<and> t < s \<longrightarrow> out' ! nat (t - a) = out ! nat (t - a)) \<and>
     (\<forall>t. s \<le> t \<and> t \<le> b \<longrightarrow> (\<exists>k. serves ps k t \<and> out' ! nat (t - a) = noise_on ps lut k t))"
  using assms(3,5-)
proof (induction "nat (b + 1 - s)" arbitrary: s i out)
  case 0
  then show ?case by auto
next
  case (Suc n)
  then have sb: "s \<le> b" by simp
  define j where "j = (if s > ps ! nat (i + 1) \<and> i < int (length ps) - 2 then i + 1 else i)"
  have j: "serves ps j s" unfolding j_def by (rule serves_next [OF assms(1)]) (use Suc.prems in auto)
  define out1 where "out1 = out[nat (s - a) := noise_on ps lut j s]"
  have "segment_value ps lut j s = Inr (noise_on ps lut j s)"
    by (rule segment_value_noise [OF assms(1)]) (use j sb Suc.prems assms in \<open>auto simp: serves_def\<close>)
  then have step: "walk_step ps lut a s (i, out) = Inr (j, out1)"
    using Suc.prems sb assms(2) by (simp add: walk_step_def vec_at_ok j_def [symmetric] vec_put_def out1_def Let_def)
  have "\<exists>k out'. fold_res (walk_step ps lut a) [s + 1..b] (j, out1) = Inr (k, out') \<and> length out' = length out1 \<and>
     (\<forall>t. a \<le> t \<and> t < s + 1 \<longrightarrow> out' ! nat (t - a) = out1 ! nat (t - a)) \<and>
     (\<forall>t. s + 1 \<le> t \<and> t \<le> b \<longrightarrow> (\<exists>k. serves ps k t \<and> out' ! nat (t - a) = noise_on ps lut k t))"
    by (rule Suc.hyps(1)) (use Suc.hyps(2) Suc.prems j in \<open>auto simp: serves_def out1_def\<close>)
  then obtain k out' where rest: "fold_res (walk_step ps lut a) [s + 1..b] (j, out1) = Inr (k, out')" "length out' = length out1"
    and old: "\<And>t. a \<le> t \<Longrightarrow> t < s + 1 \<Longrightarrow> out' ! nat (t - a) = out1 ! nat (t - a)"
    and new: "\<And>t. s + 1 \<le> t \<Longrightarrow> t \<le> b \<Longrightarrow> \<exists>k. serves ps k t \<and> out' ! nat (t - a) = noise_on ps lut k t" by auto
  have "out' ! nat (t - a) = out ! nat (t - a)" if "a \<le> t" "t < s" for t
    using old [of t] that Suc.prems by (simp add: out1_def nat_eq_iff)
  moreover have "out' ! nat (s - a) = noise_on ps lut j s" using old [of s] Suc.prems sb by (simp add: out1_def)
  then have "\<exists>k. serves ps k t \<and> out' ! nat (t - a) = noise_on ps lut k t" if "s \<le> t" "t \<le> b" for t
    using new [of t] j that by (cases "t = s") auto
  ultimately show ?case using rest step sb by (auto simp: upto_rec1 out1_def)
qed

lemma walk_serves:
  assumes "positions_ok ps lut" and "2 \<le> length ps" and "0 \<le> a" and "b < 2 ^ 31" and "int (length out) = b - a + 1"
  shows "\<exists>out'. walk ps lut a b out = Inr out' \<and> length out' = length out \<and>
     (\<forall>s. a \<le> s \<and> s \<le> b \<longrightarrow> (\<exists>i. serves ps i s \<and> out' ! nat (s - a) = noise_on ps lut i s))"
proof -
  have start: "serves ps (GetSampleIndex a ps) a" by (rule GetSampleIndex_serves [OF assms(1,2)])
  have "\<exists>j out'. fold_res (walk_step ps lut a) [a..b] (GetSampleIndex a ps, out) = Inr (j, out') \<and>
     length out' = length out \<and>
     (\<forall>t. a \<le> t \<and> t < a \<longrightarrow> out' ! nat (t - a) = out ! nat (t - a)) \<and>
     (\<forall>t. a \<le> t \<and> t \<le> b \<longrightarrow> (\<exists>k. serves ps k t \<and> out' ! nat (t - a) = noise_on ps lut k t))"
    by (rule walk_loop [OF assms(1)]) (use start assms in \<open>auto simp: serves_def\<close>)
  then show ?thesis by (auto simp: walk_def)
qed

text \<open>C39. On noise vectors with rising positions the walk over the samples of a tile never leaves the vectors, and each value is
  the interpolation over a segment that serves the sample: it contains the sample unless it is the first or the last.\<close>

theorem FillRangeNoise_interpolates:
  assumes "positions_ok (pixels nv) (noise_lut nv)" and "2 \<le> length (pixels nv)" and "0 \<le> a" and "b < 2 ^ 31"
    and "int (length out) = b - a + 1"
  shows "\<exists>out'. FillRangeNoiseWithInterpolatedValues nv a b out = Inr out' \<and> length out' = length out \<and>
     (\<forall>s. a \<le> s \<and> s \<le> b \<longrightarrow>
        (\<exists>i. serves (pixels nv) i s \<and> out' ! nat (s - a) = noise_on (pixels nv) (noise_lut nv) i s))"
  using walk_serves [OF assms] assms(1,2) by (auto simp: FillRangeNoiseWithInterpolatedValues_def positions_ok_def)

definition sample_noise :: noise_vector where
  "sample_noise = \<lparr>time_mjd = Fin 0, nv_line = 0, pixels = [0, 4, 8], noise_lut = [Fin 1, Fin 3, Fin 2]\<rparr>"

theorem FillRangeNoise_interpolates_witness:
  "\<exists>out'. FillRangeNoiseWithInterpolatedValues sample_noise 2 6 (zeros 5) = Inr out' \<and> length out' = 5 \<and>
     (\<forall>s. 2 \<le> s \<and> s \<le> 6 \<longrightarrow>
        (\<exists>i. serves [0, 4, 8] i s \<and> out' ! nat (s - 2) = noise_on [0, 4, 8] [Fin 1, Fin 3, Fin 2] i s))"
  using FillRangeNoise_interpolates [of sample_noise 2 6 "zeros 5"] by (simp add: sample_noise_def positions_ok_def zeros_def)

section \<open>The matrix stays within its tile\<close>

definition matrix_of :: "rectangle \<Rightarrow> fp list list \<Rightarrow> bool" where
  "matrix_of tile m \<longleftrightarrow> length m = nat (height tile) \<and> (\<forall>row \<in> set m. length row = nat (width tile))"

definition in_tile :: "rectangle \<Rightarrow> int \<Rightarrow> int \<Rightarrow> bool" where
  "in_tile tile x y \<longleftrightarrow> rx tile \<le> x \<and> x < rx tile + width tile \<and> ry tile \<le> y \<and> y < ry tile + height tile"

definition matrix_cell :: "rectangle \<Rightarrow> fp list list \<Rightarrow> int \<Rightarrow> int \<Rightarrow> fp" where
  "matrix_cell tile m x y = m ! nat (y - ry tile) ! nat (x - rx tile)"

definition in_part :: "int \<times> int \<times> int \<times> int \<Rightarrow> int \<Rightarrow> int \<Rightarrow> bool" where
  "in_part q x y = (case q of (nx0, nx_max, ny0, ny_max) \<Rightarrow> nx0 \<le> x \<and> x \<le> nx_max \<and> ny0 \<le> y \<and> y \<le> ny_max)"

definition only_inside :: "rectangle \<Rightarrow> (int \<Rightarrow> int \<Rightarrow> bool) \<Rightarrow> fp list list \<Rightarrow> fp list list \<Rightarrow> bool" where
  "only_inside tile inside m0 m \<longleftrightarrow>
     matrix_of tile m \<and> (\<forall>x y. in_tile tile x y \<and> \<not> inside x y \<longrightarrow> matrix_cell tile m x y = matrix_cell tile m0 x y)"

lemma only_inside_write:
  assumes "only_inside tile inside m0 m" and "in_tile tile x y" and "inside x y"
  shows "only_inside tile inside m0 (m[nat (y - ry tile) := (m ! nat (y - ry tile))[nat (x - rx tile) := v]])"
proof -
  have "nat (y - ry tile) < length m" using assms(1,2) by (auto simp: only_inside_def matrix_of_def in_tile_def)
  moreover have "matrix_cell tile (m[nat (y - ry tile) := (m ! nat (y - ry tile))[nat (x - rx tile) := v]]) x' y' =
      matrix_cell tile m x' y'" if "in_tile tile x' y'" "\<not> inside x' y'" for x' y'
  proof (cases "y' = y")
    case True
    then have "x' \<noteq> x" using that assms(3) by auto
    then have "nat (x' - rx tile) \<noteq> nat (x - rx tile)" using that(1) assms(2) by (auto simp: in_tile_def)
    then show ?thesis using True calculation by (simp add: matrix_cell_def)
  next
    case False
    then have "nat (y' - ry tile) \<noteq> nat (y - ry tile)" using that assms(2) by (auto simp: in_tile_def)
    then show ?thesis by (simp add: matrix_cell_def)
  qed
  ultimately show ?thesis using assms(1) by (auto simp: only_inside_def matrix_of_def set_update_memI dest!: set_update_subset_insert [THEN subsetD])
qed

lemma matrix_row:
  assumes "only_inside tile inside m0 m" and "in_tile tile x y"
  shows "nat (y - ry tile) < length m \<and> nat (x - rx tile) < length (m ! nat (y - ry tile)) \<and> 0 \<le> y - ry tile \<and> 0 \<le> x - rx tile"
  using assms by (auto simp: only_inside_def matrix_of_def in_tile_def)

lemma matrix_access:
  assumes "only_inside tile inside m0 m" and "in_tile tile x y"
  shows "vec_at m (y - ry tile) = Inr (m ! nat (y - ry tile))" and "vec_get m (y - ry tile) = Inr (m ! nat (y - ry tile))"
    and "vec_put (m ! nat (y - ry tile)) (x - rx tile) v = Inr ((m ! nat (y - ry tile))[nat (x - rx tile) := v])"
    and "vec_set (m ! nat (y - ry tile)) (x - rx tile) v = Inr ((m ! nat (y - ry tile))[nat (x - rx tile) := v])"
    and "vec_put m (y - ry tile) row = Inr (m[nat (y - ry tile) := row])" and "vec_set m (y - ry tile) row = Inr (m[nat (y - ry tile) := row])"
  using matrix_row [OF assms] by (auto simp: vec_at_def vec_get_def vec_put_def vec_set_def)

lemma first_time_index_range: "2 \<le> length vt \<Longrightarrow> 0 \<le> first_time_index t vt \<and> first_time_index t vt + 1 < int (length vt)"
  using first_index_hit [of "flt t" vt] by (auto simp: first_time_index_def segment_before_def Let_def)

lemma timed_cell_keeps:
  assumes "only_inside tile inside m0 m" and "in_tile tile x y" and "inside x y" and "0 \<le> i" "i + 1 < int (length vt)"
    and "length rvs = length vt" and "\<forall>r \<in> set rvs. x - nx0 < int (length r)" and "nx0 \<le> x" "ny0 \<le> y"
    and "y - ny0 < int (length azimuth)"
  shows "\<exists>j m'. timed_cell (rx tile) (ry tile) nx0 ny0 t0 dt vt rvs azimuth x y (i, m) = Inr (j, m') \<and>
     0 \<le> j \<and> j + 1 < int (length vt) \<and> only_inside tile inside m0 m'"
proof -
  define j where "j = (if flt (vt ! nat (i + 1)) (noise_line_time t0 dt y) \<and> i < int (length vt) - 2 then i + 1 else i)"
  have j: "0 \<le> j" "j + 1 < int (length vt)" using assms(4,5) by (auto simp: j_def)
  have "vec_get vt (i + 1) = Inr (vt ! nat (i + 1))" using assms(4,5) by (simp add: vec_get_def)
  moreover have "vec_get azimuth (y - ny0) = Inr (azimuth ! nat (y - ny0))" using assms by (simp add: vec_get_def)
  moreover have "\<exists>v. timed_value vt rvs j (x - nx0) (noise_line_time t0 dt y) = Inr v"
    using j assms(6-8) by (auto simp: timed_value_def vec_get_def)
  ultimately show ?thesis using j matrix_access [OF assms(1,2)] only_inside_write [OF assms(1-3)]
    by (auto simp: timed_cell_def Let_def j_def [symmetric])
qed

lemma constant_cell_keeps:
  assumes "only_inside tile inside m0 m" and "in_tile tile x y" and "inside x y"
    and "rvs \<noteq> []" and "\<forall>r \<in> set rvs. x - nx0 < int (length r)" and "nx0 \<le> x" "ny0 \<le> y"
    and "y - ny0 < int (length azimuth)"
  shows "\<exists>m'. constant_cell (rx tile) (ry tile) nx0 ny0 rvs azimuth x y m = Inr m' \<and> only_inside tile inside m0 m'"
proof -
  have "vec_at azimuth (y - ny0) = Inr (azimuth ! nat (y - ny0))" using assms by (simp add: vec_at_def)
  moreover have "vec_get rvs 0 = Inr (rvs ! 0)" "vec_at (rvs ! 0) (x - nx0) = Inr (rvs ! 0 ! nat (x - nx0))"
    using assms(4-6) by (auto simp: vec_get_def vec_at_def)
  ultimately show ?thesis using matrix_access [OF assms(1,2)] only_inside_write [OF assms(1-3)]
    by (simp add: constant_cell_def)
qed

lemma ComputeNoiseMatrix_keeps:
  assumes "only_inside tile inside m0 m"
    and "\<And>x y. nx0 \<le> x \<Longrightarrow> x \<le> nx_max \<Longrightarrow> ny0 \<le> y \<Longrightarrow> y \<le> ny_max \<Longrightarrow> in_tile tile x y \<and> inside x y"
    and "vt \<noteq> []" and "length rvs = length vt" and "\<forall>r \<in> set rvs. int (length r) = nx_max - nx0 + 1"
    and "int (length azimuth) = ny_max - ny0 + 1"
  shows "\<exists>m'. ComputeNoiseMatrix (rx tile) (ry tile) nx0 nx_max ny0 ny_max t0 dt vt rvs azimuth m = Inr m' \<and>
     only_inside tile inside m0 m'"
proof (cases "length vt = 1")
  case True
  then show ?thesis using assms
    by (auto simp: ComputeNoiseMatrix_def intro!: fold_res_keeps constant_cell_keeps)
next
  case False
  then have n: "2 \<le> length vt" using assms(3) by (cases vt) (auto simp: Suc_le_eq)
  have column: "\<exists>m2. bind_res (fold_res (timed_cell (rx tile) (ry tile) nx0 ny0 t0 dt vt rvs azimuth x) [ny0..ny_max]
        (first_time_index (noise_line_time t0 dt ny0) vt, m1)) (\<lambda>(_, m). Inr m) = Inr m2 \<and> only_inside tile inside m0 m2"
    if keeps: "only_inside tile inside m0 m1" and x: "x \<in> set [nx0..nx_max]" for x m1
  proof -
    let ?P = "\<lambda>(i, m). 0 \<le> i \<and> i + 1 < int (length vt) \<and> only_inside tile inside m0 m"
    have "\<exists>t. fold_res (timed_cell (rx tile) (ry tile) nx0 ny0 t0 dt vt rvs azimuth x) [ny0..ny_max]
        (first_time_index (noise_line_time t0 dt ny0) vt, m1) = Inr t \<and> ?P t"
    proof (rule fold_res_keeps)
      show "?P (first_time_index (noise_line_time t0 dt ny0) vt, m1)" using first_time_index_range [OF n] keeps by simp
    next
      fix y s assume y: "y \<in> set [ny0..ny_max]" and s: "?P s"
      obtain i m2 where im: "s = (i, m2)" by (cases s)
      have "\<exists>j m'. timed_cell (rx tile) (ry tile) nx0 ny0 t0 dt vt rvs azimuth x y (i, m2) = Inr (j, m') \<and>
         0 \<le> j \<and> j + 1 < int (length vt) \<and> only_inside tile inside m0 m'"
        by (rule timed_cell_keeps) (use x y s im assms in auto)
      then show "\<exists>t. timed_cell (rx tile) (ry tile) nx0 ny0 t0 dt vt rvs azimuth x y s = Inr t \<and> ?P t" using im by auto
    qed
    then show ?thesis by (auto split: prod.splits)
  qed
  then show ?thesis using False assms(1) by (simp add: ComputeNoiseMatrix_def) (rule fold_res_keeps, auto)
qed

lemma closest_in_range:
  assumes "set js \<subseteq> {0..<int (length vs)}" and "0 \<le> k" "k \<le> int (length vs)"
  shows "\<exists>c. closest_in centre a b vs k js = Inr c \<and> 0 \<le> c \<and> c \<le> int (length vs)"
  using assms by (induction js arbitrary: k) (auto simp: vec_at_ok)

lemma DetermineNoiseVectorIndices_range:
  "\<exists>js. DetermineNoiseVectorIndices a b vs ts = Inr js \<and> set js \<subseteq> {0..<int (length vs)}"
proof -
  obtain c where "closest_in (fdiv f64 (fadd f64 a b) (Fin 2)) (hd ts) (last ts) vs (int (length vs)) [0..int (length vs) - 1] = Inr c"
    "0 \<le> c" "c \<le> int (length vs)"
    using closest_in_range [of "[0..int (length vs) - 1]" vs "int (length vs)" "fdiv f64 (fadd f64 a b) (Fin 2)" "hd ts" "last ts"]
    by (auto simp: subset_iff)
  then show ?thesis by (auto simp: DetermineNoiseVectorIndices_def Let_def)
qed

lemma length_zeros: "0 \<le> n \<Longrightarrow> int (length (zeros n)) = n"
  by (simp add: zeros_def)

lemma FillRange_total:
  assumes "positions_ok (pixels nv) (noise_lut nv)" and "0 \<le> a" and "b < 2 ^ 31" and "int (length out) = b - a + 1"
  shows "\<exists>out'. FillRangeNoiseWithInterpolatedValues nv a b out = Inr out' \<and> length out' = length out"
proof (cases "length (pixels nv) = 1")
  case True
  moreover have "pixels nv \<noteq> []" "noise_lut nv \<noteq> []" using True assms(1) by (auto simp: positions_ok_def)
  ultimately show ?thesis by (simp add: FillRangeNoiseWithInterpolatedValues_def vec_get_def)
next
  case False
  then have n: "pixels nv \<noteq> []" "2 \<le> length (pixels nv)" using assms(1) by (cases "pixels nv"; simp add: positions_ok_def Suc_le_eq)+
  then show ?thesis using walk_serves [OF assms(1) n(2) assms(2-4)] False by (auto simp: FillRangeNoiseWithInterpolatedValues_def)
qed

lemma FillAzimuth_total:
  assumes "positions_ok (nav_lines v) (noise_azimuth_lut v)" and "0 \<le> a" and "b < 2 ^ 31" and "int (length out) = b - a + 1"
  shows "\<exists>out'. FillAzimuthNoiseVectorWithInterpolatedValues v a b out = Inr out' \<and> length out' = length out"
proof (cases "length (nav_lines v) < 2")
  case True
  have "\<exists>out'. fold_res (\<lambda>l out. bind_res (vec_get (noise_azimuth_lut v) 0) (\<lambda>x. vec_put out (l - a) x)) [a..b] out = Inr out' \<and>
      length out' = length out"
    by (rule fold_res_keeps) (use assms in \<open>auto simp: vec_get_def vec_put_def positions_ok_def\<close>)
  then show ?thesis using True by (simp add: FillAzimuthNoiseVectorWithInterpolatedValues_def)
next
  case False
  then show ?thesis using walk_serves [OF assms(1) _ assms(2-4)] by (auto simp: FillAzimuthNoiseVectorWithInterpolatedValues_def)
qed

definition tile_ok :: "rectangle \<Rightarrow> bool" where
  "tile_ok tile \<longleftrightarrow> 0 \<le> rx tile \<and> 0 \<le> ry tile \<and> 0 < width tile \<and> 0 < height tile \<and>
     rx tile + width tile < 2 ^ 31 \<and> ry tile + height tile < 2 ^ 31"

definition noise_ok :: "thermal_noise_info \<Rightarrow> bool" where
  "noise_ok info \<longleftrightarrow>
     (\<forall>v \<in> set (noise_azimuth_vectors info). positions_ok (nav_lines v) (noise_azimuth_lut v)) \<and>
     (\<forall>v \<in> set (noise_range_vectors info). positions_ok (pixels v) (noise_lut v)) \<and>
     t_0_map (tn_time_maps info) \<noteq> [] \<and> delta_t_map (tn_time_maps info) \<noteq> []"

definition covered :: "rectangle \<Rightarrow> thermal_noise_info \<Rightarrow> int \<Rightarrow> int \<Rightarrow> bool" where
  "covered tile info x y \<longleftrightarrow>
     (\<exists>nav \<in> set (noise_azimuth_vectors info). \<exists>q.
        block_part tile (rx tile + width tile - 1) (ry tile + height tile - 1) nav = Some q \<and> in_part q x y)"

lemma range_noise_total:
  assumes "noise_ok info" and "0 \<le> a" "a \<le> b" "b < 2 ^ 31" and "set js \<subseteq> {0..<int (length (noise_range_vectors info))}"
  shows "\<exists>rvs. map_res (range_noise info a b) js = Inr rvs \<and> (\<forall>r \<in> set rvs. int (length (snd r)) = b - a + 1)"
  using assms(5)
proof (induction js)
  case (Cons j js)
  let ?nv = "noise_range_vectors info ! nat j"
  have "?nv \<in> set (noise_range_vectors info)" using Cons.prems by auto
  then have "positions_ok (pixels ?nv) (noise_lut ?nv)" using assms(1) by (simp add: noise_ok_def)
  moreover have "int (length (zeros (b - a + 1))) = b - a + 1" using assms(3) by (simp add: length_zeros)
  ultimately obtain r where "FillRangeNoiseWithInterpolatedValues ?nv a b (zeros (b - a + 1)) = Inr r"
    "int (length r) = b - a + 1" using FillRange_total [of ?nv a b "zeros (b - a + 1)"] assms(2,4) by fastforce
  then show ?case using Cons by (auto simp: range_noise_def vec_at_ok)
qed simp

lemma add_block_keeps:
  assumes "noise_ok info" and "tile_ok tile" and "nav \<in> set (noise_azimuth_vectors info)"
    and "only_inside tile (covered tile info) m0 m"
  shows "\<exists>m'. add_block tile info t0 dt (rx tile + width tile - 1) (ry tile + height tile - 1) nav m = Inr m' \<and>
     only_inside tile (covered tile info) m0 m'"
proof (cases "block_part tile (rx tile + width tile - 1) (ry tile + height tile - 1) nav")
  case None
  then show ?thesis using assms(4) by (simp add: add_block_def)
next
  case (Some q)
  obtain a b c d where q: "q = (a, b, c, d)" by (cases q)
  have part: "rx tile \<le> a" "a < b" "b < rx tile + width tile" "ry tile \<le> c" "c < d" "d < ry tile + height tile"
    using Some q by (auto simp: block_part_def Let_def split: if_splits)
  have cells: "in_tile tile x y \<and> covered tile info x y" if "a \<le> x" "x \<le> b" "c \<le> y" "y \<le> d" for x y
  proof -
    have "in_part q x y" using that q by (simp add: in_part_def)
    then have "covered tile info x y" unfolding covered_def using Some assms(3) by blast
    then show ?thesis using that part by (simp add: in_tile_def)
  qed
  have lengths: "int32_range (b - a + 1)" "int32_range (d - c + 1)" "0 \<le> a" "0 \<le> c" "b < 2 ^ 31" "d < 2 ^ 31"
    using part assms(2) by (auto simp: tile_ok_def int32_range_def)
  obtain js where js: "DetermineNoiseVectorIndices (noise_line_time t0 dt (first_azimuth_line nav)) (noise_line_time t0 dt (last_azimuth_line nav))
      (noise_range_vectors info) (case map_of (swath_start_end_times_map (tn_time_maps info)) (nav_swath nav) of Some ts \<Rightarrow> ts | None \<Rightarrow> [])
      = Inr js" "set js \<subseteq> {0..<int (length (noise_range_vectors info))}"
    using DetermineNoiseVectorIndices_range by blast
  show ?thesis
  proof (cases "js = []")
    case True
    then show ?thesis using Some q js(1) assms(4) by (simp add: add_block_def)
  next
    case False
    obtain rvs where rvs: "map_res (range_noise info a b) js = Inr rvs" "\<forall>r \<in> set rvs. int (length (snd r)) = b - a + 1"
      using range_noise_total [OF assms(1) _ _ _ js(2), of a b] lengths part by auto
    have n: "rvs \<noteq> []" using map_res_Inr_length [OF rvs(1)] False by auto
    have "positions_ok (nav_lines nav) (noise_azimuth_lut nav)" using assms(1,3) by (simp add: noise_ok_def)
    then obtain azimuth where az: "FillAzimuthNoiseVectorWithInterpolatedValues nav c d (zeros (d - c + 1)) = Inr azimuth"
      "int (length azimuth) = d - c + 1"
      using FillAzimuth_total [of nav c d "zeros (d - c + 1)"] lengths part by (auto simp: length_zeros)
    have "\<exists>m'. ComputeNoiseMatrix (rx tile) (ry tile) a b c d t0 dt (map fst rvs) (map snd rvs) azimuth m = Inr m' \<and>
        only_inside tile (covered tile info) m0 m'"
      by (rule ComputeNoiseMatrix_keeps) (use assms(4) cells n rvs az in auto)
    then show ?thesis using Some q js(1) False rvs(1) az(1) lengths by (simp add: add_block_def)
  qed
qed

text \<open>C40. On well-formed noise metadata the noise matrix of a ground range tile is built without any failure, out-of-bounds access
  included; it has the shape of the tile, and it is zero at every pixel outside the parts of the blocks that are taken.\<close>

theorem BuildNoiseLut_zero_outside:
  assumes "noise_ok info" and "tile_ok tile"
  shows "\<exists>m. BuildNoiseLutForTOPSGRD tile info = Inr m \<and> matrix_of tile m \<and>
     (\<forall>x y. in_tile tile x y \<and> \<not> covered tile info x y \<longrightarrow> matrix_cell tile m x y = Fin 0)"
proof -
  define m0 where "m0 = replicate (nat (height tile)) (zeros (width tile))"
  obtain k0 t0 ps k1 dt qs where maps: "t_0_map (tn_time_maps info) = (k0, t0) # ps" "delta_t_map (tn_time_maps info) = (k1, dt) # qs"
    using assms(1) by (auto simp: noise_ok_def neq_Nil_conv)
  have start: "only_inside tile (covered tile info) m0 m0"
    using assms(2) by (auto simp: only_inside_def matrix_of_def m0_def zeros_def tile_ok_def)
  have zero: "matrix_cell tile m0 x y = Fin 0" if "in_tile tile x y" for x y
    using that by (auto simp: matrix_cell_def m0_def zeros_def in_tile_def)
  have "\<exists>m. fold_res (add_block tile info t0 dt (rx tile + width tile - 1) (ry tile + height tile - 1)) (noise_azimuth_vectors info) m0
      = Inr m \<and> only_inside tile (covered tile info) m0 m"
    by (rule fold_res_keeps) (use start add_block_keeps [OF assms] in blast)+
  moreover have "BuildNoiseLutForTOPSGRD tile info =
      fold_res (add_block tile info t0 dt (rx tile + width tile - 1) (ry tile + height tile - 1)) (noise_azimuth_vectors info) m0"
    using maps assms(2) by (simp add: BuildNoiseLutForTOPSGRD_def m0_def tile_ok_def int32_range_def)
  ultimately show ?thesis using zero by (auto simp: only_inside_def)
qed

text \<open>A tile of one column gets no noise at all, whatever the metadata says.\<close>

lemma thin_tile_zero: "width tile = 1 \<Longrightarrow> \<not> covered tile info x y"
  by (auto simp: covered_def block_part_def Let_def)

definition sample_block :: noise_azimuth_vector where
  "sample_block = \<lparr>nav_swath = ''IW1'', first_azimuth_line = 0, first_range_sample = 2, last_azimuth_line = 9, last_range_sample = 9,
     nav_lines = [0, 9], noise_azimuth_lut = [Fin 1, Fin 1]\<rparr>"

definition sample_info :: thermal_noise_info where
  "sample_info = ThermalNoiseInfo\<lparr>noise_azimuth_vectors := [sample_block], noise_range_vectors := [sample_noise],
     tn_time_maps := \<lparr>t_0_map = [(''iw'', Fin 0)], delta_t_map = [(''iw'', Fin 1)], swath_start_end_times_map = []\<rparr>\<rparr>"

theorem BuildNoiseLut_zero_outside_witness:
  "\<exists>m. BuildNoiseLutForTOPSGRD (mk_rect 0 0 3 4) sample_info = Inr m \<and> matrix_of (mk_rect 0 0 3 4) m \<and>
     matrix_cell (mk_rect 0 0 3 4) m 2 1 = Fin 0"
proof -
  have "noise_ok sample_info"
    by (simp add: noise_ok_def sample_info_def ThermalNoiseInfo_def sample_block_def sample_noise_def positions_ok_def)
  moreover have "tile_ok (mk_rect 0 0 3 4)" by (simp add: tile_ok_def mk_rect_def)
  moreover have "in_tile (mk_rect 0 0 3 4) 2 1" by (simp add: in_tile_def mk_rect_def)
  moreover have "\<not> covered (mk_rect 0 0 3 4) sample_info 2 1"
    by (simp add: covered_def sample_info_def ThermalNoiseInfo_def sample_block_def block_part_def mk_rect_def)
  ultimately show ?thesis using BuildNoiseLut_zero_outside [of sample_info "mk_rect 0 0 3 4"] by blast
qed

end
