(* ===== verification/Spec2Isabelle.thy ===== *)
theory Spec2Isabelle
  imports MemArena RasterTiles CohRunner Tyler PatchAssembly ProductDataLaws Utc SubsetDef MetadataLaws OrbitFile
    AbstractMetadata SubSwath InputValidator GeoIndex CalibrationVectors Sentinel1Utils TopsarSplit Doppler Deburst Rounding TopsarMerge ThermalNoise
begin

text \<open>
  ALUs is a C++/CUDA library with a set of command line tools that process SAR satellite products on a GPU:
  calibration, coherence estimation, coregistration, terrain correction, resampling, feature extraction. The
  products are read into an object model taken over from the SNAP engine (\<^verbatim>\<open>snap-engine/\<close>) and its
  Sentinel-1 toolbox (\<^verbatim>\<open>sentinel1/\<close>); the algorithms (\<^verbatim>\<open>algs/\<close>) cut the rasters into tiles, let worker threads
  read, compute and write them, and pass the results through GDAL.

  This development models the part of the program that runs on the host and decides what is computed where.
  C++ exceptions are values of the type \<open>exn\<close> (\<^verbatim>\<open>Prelude\<close>): a function that may throw returns a value of type
  \<open>'a res\<close>, \<open>Inl\<close> the class of the exception or \<open>Inr\<close> the result; running into undefined behaviour is the
  value \<open>Undefined_behaviour\<close>, so that no theorem says something about such a run by accident. A loop
  that may not end gives \<open>None\<close>. Floating point numbers are computed with exact rounding (\<^verbatim>\<open>Ieee\<close>). Integers
  are words where they wrap and otherwise \<open>int\<close> with the range checked where leaving it is undefined.

  \<^bold>\<open>Theories and sources\<close>

  \<^item> \<^verbatim>\<open>Prelude\<close>, \<^verbatim>\<open>Ieee\<close>, \<^verbatim>\<open>Rounding\<close>, \<^verbatim>\<open>CStrings\<close>, \<^verbatim>\<open>StdAlgo\<close>: exceptions as values, vector access, \<open>float\<close>
    and \<open>double\<close> and the monotonicity of their operations, number parsing and printing, the algorithms and ordered
    maps of the standard library that are used.
  \<^item> \<^verbatim>\<open>MemArena\<close>: the bump allocator for device memory (\<^verbatim>\<open>util/cuda/include/cuda_mem_arena.h\<close>). The pieces are
    disjoint, aligned and inside the block as long as no request wraps the bound check; what one that does brings
    about is stated as well.
  \<^item> \<^verbatim>\<open>Tiling\<close>, \<^verbatim>\<open>RasterTiles\<close>: the tile generators of deburst, merge, thermal noise removal and calibration with their
    32-bit sums and products; the tiles partition the raster.
  \<^item> \<^verbatim>\<open>CohTiles\<close>, \<^verbatim>\<open>CohRunner\<close>: the tiles of coherence estimation with their margins (\<^verbatim>\<open>algs/coherence-cuda\<close>), and the
    worker threads that take them from a shared queue, as a step relation over the states of all threads: no tile is
    written twice, a run ends within a bound on its steps, the first exception is the one rethrown.
  \<^item> \<^verbatim>\<open>Tyler\<close>: the overlapping tiles of the resample tool. \<^verbatim>\<open>PatchAssembly\<close>: padding and assembling patches for the
    Gabor filters.
  \<^item> \<^verbatim>\<open>ProductData\<close>, \<^verbatim>\<open>ProductDataLaws\<close>: typed arrays of metadata values (\<^verbatim>\<open>product_data_*.cc\<close>). \<^verbatim>\<open>Utc\<close>: dates as one
    of them, parsed and printed.
  \<^item> \<^verbatim>\<open>SubsetDef\<close>: which part of a product is read (\<^verbatim>\<open>product_subset_def.cc\<close>), as a refinement of a set of names.
  \<^item> \<^verbatim>\<open>Nodes\<close>, \<^verbatim>\<open>Metadata\<close>, \<^verbatim>\<open>MetadataLaws\<close>: the tree of product nodes, groups, products, metadata elements and
    attributes as objects in a store, with owners, cached products and modification flags
    (\<^verbatim>\<open>snap-core/core/datamodel\<close>). A change marks exactly the unmodified owners above it, up to the first that is
    modified; that pointers stay valid is an invariant of all steps. \<^verbatim>\<open>MetaTree\<close> describes a part of the store as a
    tree, which everything that only reads metadata depends on.
  \<^item> \<^verbatim>\<open>Tags\<close>, \<^verbatim>\<open>AbstractMetadata\<close>: the abstracted metadata every product has (\<^verbatim>\<open>abstract_metadata.cc\<close>).
    \<^verbatim>\<open>InputValidator\<close>: the checks of input products and units (\<^verbatim>\<open>input_product_validator.cc\<close>, \<^verbatim>\<open>unit.cc\<close>).
  \<^item> \<^verbatim>\<open>OrbitVectors\<close>, \<^verbatim>\<open>OrbitFile\<close>, \<^verbatim>\<open>StringUtils\<close>, \<^verbatim>\<open>Xml\<close>: orbit state vectors and their interpolation, precise
    orbit files, the text helpers, the parsed XML they are read from.
  \<^item> \<^verbatim>\<open>SubSwath\<close>, \<^verbatim>\<open>GeoIndex\<close>, \<^verbatim>\<open>CalibrationVectors\<close>, \<^verbatim>\<open>Sentinel1Utils\<close>, \<^verbatim>\<open>Doppler\<close>: the parts of
    \<^verbatim>\<open>sentinel1/s1tbx-commons/sentinel1_utils.cc\<close>: the description of a sub-swath read from the metadata, the search
    in its geolocation grid and the interpolation there, lists of numbers and calibration vectors, the object
    built from them, and the Doppler centroids, rates and reference times with the deramp and demodulation phase.
    The theorems give the shape of what is read, the cell and weights of a position, the sub-swath of a time, and
    that the grids are complete when the phase is computed.
  \<^item> \<^verbatim>\<open>TopsarSplit\<close> (\<^verbatim>\<open>algs/topsar-split\<close>): the choice of bursts by index or by area of interest and the update of the
    burst list. \<^verbatim>\<open>Deburst\<close> (\<^verbatim>\<open>algs/topsar-deburst-op\<close>): target geometry, lookups of bursts and sub-swaths, copying of
    tiles. \<^verbatim>\<open>TopsarMerge\<close> (\<^verbatim>\<open>algs/topsar-merge\<close>): the check that products are sub-swaths of one product, the maps built
    from them, and the filling of tiles from several of them. Every read lies inside the source tile.
  \<^item> \<^verbatim>\<open>ThermalNoise\<close> (\<^verbatim>\<open>algs/thermal-noise-removal\<close>): noise vectors, their interpolation along range and azimuth, and the
    noise matrix of a tile.

  \<^bold>\<open>Interfaces\<close> are locales, interpreted on the definitions of the component that provides them: the pieces of an
  allocator, the tiling of an axis, the work queue, the typed arrays.

  \<^bold>\<open>Bounds.\<close> No fuel is used: loops over ranges are folds over lists of indices, loops that may not end are partial
  functions into \<open>option\<close> (\<open>None\<close> is not returning), and that they return is part of the theorems. Sizes for which
  32-bit arithmetic does not overflow are hypotheses of the theorems that need them.

  \<^bold>\<open>Not modelled.\<close> The GPU kernels (\<^verbatim>\<open>.cu\<close>) and the copies to device memory; GDAL input and output; the command
  line tools and their argument parsing; terrain correction, back geocoding, ETAD corrections and PALSAR focusing, whose
  core is device code; the readers of product directories and files; the raster nodes and geocodings of the object
  model; the vendored libraries \<^verbatim>\<open>pugixml\<close> and \<^verbatim>\<open>delaunay\<close>; the EGM96 table (\<^verbatim>\<open>ww15mgh_b_grd.h\<close>). Calendar
  arithmetic, polygon geometry, matrix decomposition and number conversion of Boost and Eigen are parameters with their
  documented behaviour as hypotheses.
\<close>

end
